(* ===== verification/AV_Prelude.thy ===== *)
theory AV_Prelude
  imports Main "HOL-Library.Char_ord" "HOL-Library.List_Lexorder"
    "HOL-Library.Product_Lexorder" "HOL-Library.Option_ord"
begin

text \<open>
  Shared vocabulary of the aero-vault development: Go strings as byte lists with the functions of
  packages \<open>strings\<close>, \<open>slices\<close>, \<open>unicode/utf8\<close> and \<open>unicode\<close> that the modelled sources
  call, Go error values with \<open>errors.Is\<close> and \<open>errors.Join\<close>, instants of \<open>time.Time\<close> and their
  RFC3339Nano text as the SQL columns hold it, and the caller's \<open>context.Context\<close>.  Generic
  lemmas about them are collected in \<open>go_simps\<close>.
\<close>

named_theorems go_simps \<open>equations of the Go library functions\<close>

lemma filter_hd: "filter P xs = y # ys \<Longrightarrow> y \<in> set xs \<and> P y"
  by (auto dest!: filter_eq_ConsD)

section \<open>Strings\<close>

text \<open>A Go string is a sequence of bytes; \<^typ>\<open>char\<close> has exactly 256 values.\<close>

definition has_prefix :: "string \<Rightarrow> string \<Rightarrow> bool" where
  "has_prefix s p \<longleftrightarrow> take (length p) s = p"

definition has_suffix :: "string \<Rightarrow> string \<Rightarrow> bool" where
  "has_suffix s p \<longleftrightarrow> length p \<le> length s \<and> drop (length s - length p) s = p"

definition trim_prefix :: "string \<Rightarrow> string \<Rightarrow> string" where
  "trim_prefix s p = (if has_prefix s p then drop (length p) s else s)"

definition contains_any :: "string \<Rightarrow> string \<Rightarrow> bool" where
  "contains_any s chars \<longleftrightarrow> list_ex (\<lambda>c. c \<in> set chars) s"

fun contains_sub :: "string \<Rightarrow> string \<Rightarrow> bool" where
  "contains_sub [] p = (p = [])"
| "contains_sub (c # s) p = (has_prefix (c # s) p \<or> contains_sub s p)"

definition trim_chars :: "string \<Rightarrow> string \<Rightarrow> string" where
  "trim_chars s chars =
     rev (dropWhile (\<lambda>c. c \<in> set chars) (rev (dropWhile (\<lambda>c. c \<in> set chars) s)))"

text \<open>\<open>strings.IndexByte\<close>, with \<open>None\<close> for Go's \<open>-1\<close>.\<close>

fun index_byte :: "string \<Rightarrow> char \<Rightarrow> nat option" where
  "index_byte [] c = None"
| "index_byte (d # s) c = (if d = c then Some 0 else map_option Suc (index_byte s c))"

text \<open>\<open>strings.SplitN(s, sep, n)\<close> for a one-byte separator and \<open>n \<ge> 1\<close>.\<close>

fun split_n :: "string \<Rightarrow> char \<Rightarrow> nat \<Rightarrow> string list" where
  "split_n s c 0 = []"
| "split_n s c (Suc 0) = [s]"
| "split_n s c (Suc (Suc n)) =
     (case index_byte s c of
        None \<Rightarrow> [s]
      | Some i \<Rightarrow> take i s # split_n (drop (Suc i) s) c (Suc n))"

lemma has_prefix_append [simp, go_simps]: "has_prefix (p @ s) p"
  by (simp add: has_prefix_def)

lemma has_prefix_iff: "has_prefix s p \<longleftrightarrow> (\<exists>r. s = p @ r)"
  by (metis append_eq_conv_conj append_take_drop_id has_prefix_def)

lemma has_suffix_append [simp, go_simps]: "has_suffix (s @ p) p"
  by (simp add: has_suffix_def)

lemma has_suffix_iff: "has_suffix s p \<longleftrightarrow> (\<exists>r. s = r @ p)"
proof
  assume "has_suffix s p"
  then have "s = take (length s - length p) s @ p"
    by (metis append_take_drop_id has_suffix_def)
  then show "\<exists>r. s = r @ p" by blast
qed auto

lemma index_byte_notin [simp, go_simps]: "c \<notin> set s \<Longrightarrow> index_byte s c = None"
  by (induction s) auto

lemma index_byte_append [simp, go_simps]:
  "c \<notin> set s \<Longrightarrow> index_byte (s @ c # t) c = Some (length s)"
  by (induction s) auto

lemma index_byte_SomeD:
  "index_byte s c = Some i \<Longrightarrow> i < length s \<and> s ! i = c \<and> c \<notin> set (take i s)"
  by (induction s arbitrary: i) (auto split: if_splits)

lemma index_byte_NoneD: "index_byte s c = None \<Longrightarrow> c \<notin> set s"
  by (induction s) (auto split: if_splits)

lemma index_byte_split:
  assumes "index_byte s c = Some i"
  shows "s = take i s @ c # drop (Suc i) s"
  using index_byte_SomeD [OF assms] by (metis id_take_nth_drop)

subsection \<open>UTF-8\<close>

text \<open>
  \<open>for _, r := range s\<close>, \<open>utf8.ValidString\<close>, \<open>utf8.RuneCountInString\<close> and
  \<open>strings.TrimSpace\<close> all walk the runes of a string.  \<^term>\<open>runes\<close> cuts a string into its runes
  with their bytes; an invalid byte is the rune \<open>None\<close> (Go's \<open>RuneError\<close>) of width one.
\<close>

definition byte :: "char \<Rightarrow> nat" where
  "byte c = of_char c"

definition cont :: "nat \<Rightarrow> nat \<Rightarrow> char \<Rightarrow> bool" where
  "cont lo hi c \<longleftrightarrow> lo \<le> byte c \<and> byte c \<le> hi"

definition second_range :: "nat \<Rightarrow> nat \<times> nat" where
  "second_range b0 =
     (if b0 = 0xE0 then (0xA0, 0xBF) else if b0 = 0xED then (0x80, 0x9F)
      else if b0 = 0xF0 then (0x90, 0xBF) else if b0 = 0xF4 then (0x80, 0x8F)
      else (0x80, 0xBF))"

text \<open>The rune at the front of a non-empty string: its code point and its width in bytes.\<close>

definition decode_rune :: "char \<Rightarrow> string \<Rightarrow> nat option \<times> nat" where
  "decode_rune c s =
     (let b0 = byte c; (lo, hi) = second_range b0 in
      if b0 < 0x80 then (Some b0, 1)
      else if 0xC2 \<le> b0 \<and> b0 \<le> 0xDF then
        (case s of
           c1 # _ \<Rightarrow> if cont lo hi c1 then (Some ((b0 - 0xC0) * 64 + (byte c1 - 0x80)), 2) else (None, 1)
         | _ \<Rightarrow> (None, 1))
      else if 0xE0 \<le> b0 \<and> b0 \<le> 0xEF then
        (case s of
           c1 # c2 # _ \<Rightarrow>
             if cont lo hi c1 \<and> cont 0x80 0xBF c2
             then (Some ((b0 - 0xE0) * 4096 + (byte c1 - 0x80) * 64 + (byte c2 - 0x80)), 3)
             else (None, 1)
         | _ \<Rightarrow> (None, 1))
      else if 0xF0 \<le> b0 \<and> b0 \<le> 0xF4 then
        (case s of
           c1 # c2 # c3 # _ \<Rightarrow>
             if cont lo hi c1 \<and> cont 0x80 0xBF c2 \<and> cont 0x80 0xBF c3
             then (Some ((b0 - 0xF0) * 262144 + (byte c1 - 0x80) * 4096
                          + (byte c2 - 0x80) * 64 + (byte c3 - 0x80)), 4)
             else (None, 1)
         | _ \<Rightarrow> (None, 1))
      else (None, 1))"

lemma decode_rune_width_pos: "0 < snd (decode_rune c s)"
  by (auto simp: decode_rune_def Let_def split: list.splits prod.splits)

function runes :: "string \<Rightarrow> (nat option \<times> string) list" where
  "runes [] = []"
| "runes (c # s) =
     (let (r, w) = decode_rune c s in (r, take w (c # s)) # runes (drop w (c # s)))"
  by pat_completeness auto
termination
proof (relation "measure length")
  fix c :: char and s :: string and x r w
  assume "x = decode_rune c s" and "(r, w) = x"
  with decode_rune_width_pos [of c s] have "0 < w" by (metis snd_conv)
  then show "(drop w (c # s), c # s) \<in> measure length" by simp
qed simp

definition valid_utf8 :: "string \<Rightarrow> bool" where
  "valid_utf8 s \<longleftrightarrow> list_all (\<lambda>(r, _). r \<noteq> None) (runes s)"

definition rune_count :: "string \<Rightarrow> nat" where
  "rune_count s = length (runes s)"

text \<open>\<open>unicode.IsControl\<close>: category Cc lies within Latin-1.\<close>

definition is_control :: "nat \<Rightarrow> bool" where
  "is_control r \<longleftrightarrow> r < 0x20 \<or> (0x7F \<le> r \<and> r < 0xA0)"

text \<open>\<open>unicode.IsSpace\<close>: the White_Space property.\<close>

definition is_space :: "nat \<Rightarrow> bool" where
  "is_space r \<longleftrightarrow> (9 \<le> r \<and> r \<le> 13) \<or> r = 0x20 \<or> r = 0x85 \<or> r = 0xA0 \<or> r = 0x1680
     \<or> (0x2000 \<le> r \<and> r \<le> 0x200A) \<or> r = 0x2028 \<or> r = 0x2029 \<or> r = 0x202F
     \<or> r = 0x205F \<or> r = 0x3000"

definition rune_is :: "(nat \<Rightarrow> bool) \<Rightarrow> nat option \<times> string \<Rightarrow> bool" where
  "rune_is P x \<longleftrightarrow> (case fst x of None \<Rightarrow> False | Some r \<Rightarrow> P r)"

definition has_control :: "string \<Rightarrow> bool" where
  "has_control s \<longleftrightarrow> list_ex (rune_is is_control) (runes s)"

definition trim_space :: "string \<Rightarrow> string" where
  "trim_space s =
     concat (map snd (rev (dropWhile (rune_is is_space) (rev (dropWhile (rune_is is_space) (runes s))))))"

lemma concat_runes [simp]: "concat (map snd (runes s)) = s"
  by (induction s rule: runes.induct) (auto simp: Let_def split: prod.splits)

text \<open>On ASCII text runes are bytes; visible ASCII text is valid and has nothing to trim.\<close>

definition visible_ascii :: "string \<Rightarrow> bool" where
  "visible_ascii s \<longleftrightarrow> list_all (\<lambda>c. 0x21 \<le> byte c \<and> byte c < 0x7F) s"

lemma runes_ascii:
  "list_all (\<lambda>c. byte c < 0x80) s \<Longrightarrow> runes s = map (\<lambda>c. (Some (byte c), [c])) s"
  by (induction s) (auto simp: decode_rune_def Let_def split: prod.splits)

lemma runes_visible: "visible_ascii s \<Longrightarrow> runes s = map (\<lambda>c. (Some (byte c), [c])) s"
  by (rule runes_ascii) (auto simp: visible_ascii_def list_all_iff)

lemma dropWhile_none: "\<forall>x \<in> set xs. \<not> P x \<Longrightarrow> dropWhile P xs = xs"
  by (cases xs) auto

lemma visible_ascii_text:
  assumes "visible_ascii s"
  shows "valid_utf8 s" "\<not> has_control s" "trim_space s = s" "rune_count s = length s"
proof -
  have not_space: "\<not> rune_is is_space x" and not_control: "\<not> rune_is is_control x"
    if "x \<in> set (runes s)" for x
    using that assms by (auto simp: runes_visible rune_is_def is_space_def is_control_def visible_ascii_def list_all_iff)
  show "valid_utf8 s" "rune_count s = length s"
    using assms by (auto simp: valid_utf8_def rune_count_def runes_visible list_all_iff)
  show "\<not> has_control s"
    using not_control by (auto simp: has_control_def list_ex_iff)
  show "trim_space s = s"
    unfolding trim_space_def using not_space by (simp add: dropWhile_none)
qed

section \<open>Errors\<close>

text \<open>
  The sentinel errors (\<open>var Err... = errors.New(...)\<close>) of the modelled packages, and the ways the
  sources build errors from them: \<open>errors.New\<close> with a text, \<open>fmt.Errorf\<close> with \<open>%w\<close>,
  \<open>errors.Join\<close>, the \<open>resourceBoundaryFault\<close> of package access, and the errors of the two SQL
  drivers: a \<open>*sqlite.Error\<close> with its extended result code and a \<open>*pgconn.PgError\<close> with its
  SQLSTATE and constraint name.
\<close>

datatype sentinel =
    ErrDisabled | ErrDenied | ErrInvalidArgument | ErrNotFound | ErrShareExpired | ErrBadPassword
  | ErrResourceBoundaryFault | ErrSpaceBound
  | SpacesInvalidArgument | SpacesNotFound | SpacesTenantUnavailable | SpacesConflict
  | SpacesMemberExists | SpacesMemberRevoked | SpacesLastAdmin | SpacesConcurrent | SpacesPersistence
  | ErrNoRows | CtxCanceled | CtxDeadlineExceeded
  | ErrQueueFull | ErrLegalHoldActive | ErrEventOutboxClaimLost
  | ErrBackendUnavailable | StorageNotFound | ErrAlreadyExists | ErrInvalidKey | ErrUnsupported
  | ErrGenerationMismatch | ErrSSECustomerKeyRequired | ErrInvalidSSECustomerKey
  | ErrUploadNotFound | ErrTenantNotEmpty
  | ServiceNotFound | ErrInvalidArgs | ErrLocked | ErrQuotaExceeded | ErrPreconditionFailed
  | ErrForbidden | ErrTenantDisabled | ErrBadDigest | ErrSizeMismatch | ErrObjectCorrupt
  | ErrMetadataTooLarge | ErrMetadataKeyTooLong | ErrMetadataValueTooLong | OsErrNotExist
  | ErrAuditGovernanceRevisionRollback | ErrAuditGovernanceRevisionDrift

datatype gerr =
    Sentinel sentinel
  | NewError string
  | Errorf string "gerr list"
  | Join "gerr list"
  | BoundaryFault string gerr
  | SqliteError nat
  | PgError string string

fun errors_is :: "gerr \<Rightarrow> sentinel \<Rightarrow> bool" where
  "errors_is (Sentinel t) s = (t = s)"
| "errors_is (NewError m) s = False"
| "errors_is (Errorf m es) s = list_ex (\<lambda>e. errors_is e s) es"
| "errors_is (Join es) s = list_ex (\<lambda>e. errors_is e s) es"
| "errors_is (BoundaryFault op e) s = (s = ErrResourceBoundaryFault \<or> errors_is e s)"
| "errors_is (SqliteError c) s = False"
| "errors_is (PgError c n) s = False"

text \<open>\<open>errors.As\<close> for the two driver errors: their list in depth-first order, of which \<open>errors.As\<close> takes the first.\<close>

fun sqlite_codes :: "gerr \<Rightarrow> nat list" where
  "sqlite_codes (SqliteError c) = [c]"
| "sqlite_codes (Errorf m es) = concat (map sqlite_codes es)"
| "sqlite_codes (Join es) = concat (map sqlite_codes es)"
| "sqlite_codes (BoundaryFault op e) = sqlite_codes e"
| "sqlite_codes _ = []"

fun pg_codes :: "gerr \<Rightarrow> (string \<times> string) list" where
  "pg_codes (PgError c n) = [(c, n)]"
| "pg_codes (Errorf m es) = concat (map pg_codes es)"
| "pg_codes (Join es) = concat (map pg_codes es)"
| "pg_codes (BoundaryFault op e) = pg_codes e"
| "pg_codes _ = []"

text \<open>\<open>errors.Join\<close> drops nil errors and is nil when nothing is left.\<close>

definition errors_join :: "gerr option list \<Rightarrow> gerr option" where
  "errors_join es =
     (case List.map_filter id es of [] \<Rightarrow> None | xs \<Rightarrow> Some (Join xs))"

lemma errors_join_None: "errors_join es = None \<longleftrightarrow> (\<forall>e \<in> set es. e = None)"
  by (induction es) (auto simp: errors_join_def List.map_filter_simps split: list.splits option.splits)

lemma errors_join_pair [simp, go_simps]:
  "errors_join [None, None] = None" "errors_join [Some a, None] = Some (Join [a])"
  "errors_join [None, Some b] = Some (Join [b])" "errors_join [Some a, Some b] = Some (Join [a, b])"
  by (simp_all add: errors_join_def List.map_filter_simps)

text \<open>A Go call that returns \<open>(T, error)\<close> with a zero value beside a non-nil error.\<close>

type_synonym 'a res = "gerr + 'a"

text \<open>
  Early returns.  A sequence of \<open>if err := f(); err != nil { return err }\<close> is
  \<^term>\<open>first_error\<close> of the errors in that order; \<open>if cond { return e }\<close> is \<^term>\<open>fails cond e\<close>;
  \<open>v, err := f(); if err != nil { return ..., err }; g(v)\<close> is \<^term>\<open>rbind f g\<close>.
\<close>

fun first_error :: "gerr option list \<Rightarrow> gerr option" where
  "first_error [] = None"
| "first_error (None # es) = first_error es"
| "first_error (Some e # es) = Some e"

definition fails :: "bool \<Rightarrow> gerr \<Rightarrow> gerr option" where
  "fails c e = (if c then Some e else None)"

definition rbind :: "'a res \<Rightarrow> ('a \<Rightarrow> 'b res) \<Rightarrow> 'b res" where
  "rbind m f = (case m of Inl e \<Rightarrow> Inl e | Inr x \<Rightarrow> f x)"

definition ok_or :: "gerr option \<Rightarrow> 'a \<Rightarrow> 'a res" where
  "ok_or err x = (case err of None \<Rightarrow> Inr x | Some e \<Rightarrow> Inl e)"

definition wrap_err :: "(gerr \<Rightarrow> gerr) \<Rightarrow> 'a res \<Rightarrow> 'a res" where
  "wrap_err w m = (case m of Inl e \<Rightarrow> Inl (w e) | Inr x \<Rightarrow> Inr x)"

lemma first_error_None [simp, go_simps]:
  "first_error (e # es) = None \<longleftrightarrow> e = None \<and> first_error es = None"
  by (cases e) auto

lemma fails_None [simp, go_simps]: "fails c e = None \<longleftrightarrow> \<not> c"
  by (simp add: fails_def)

lemma fails_simps [simp]: "fails True e = Some e" "fails False e = None"
  by (simp_all add: fails_def)

lemma first_error_Some:
  "first_error es = Some e \<Longrightarrow> Some e \<in> set es"
  by (induction es rule: first_error.induct) auto

lemma rbind_simps [simp]: "rbind (Inl e) f = Inl e" "rbind (Inr x) f = f x"
  by (simp_all add: rbind_def)

lemma rbind_Inr [go_simps]: "rbind m f = Inr y \<longleftrightarrow> (\<exists>x. m = Inr x \<and> f x = Inr y)"
  by (cases m) auto

lemma ok_or_Inr [simp, go_simps]: "ok_or err x = Inr y \<longleftrightarrow> err = None \<and> x = y"
  by (auto simp: ok_or_def split: option.splits)

lemma ok_or_simps [simp]: "ok_or None x = Inr x" "ok_or (Some e) x = Inl e"
  by (simp_all add: ok_or_def)

lemma wrap_err_Inr [simp, go_simps]: "wrap_err w m = Inr y \<longleftrightarrow> m = Inr y"
  by (cases m) (auto simp: wrap_err_def)

lemma wrap_err_simps [simp]: "wrap_err w (Inl e) = Inl (w e)" "wrap_err w (Inr x) = Inr x"
  by (simp_all add: wrap_err_def)

section \<open>Instants and their text\<close>

text \<open>
  A \<open>time.Time\<close> is the number of nanoseconds since Go's zero time (January 1, year 1, UTC), so
  that \<open>IsZero\<close> is \<open>t = 0\<close>.  In the database an instant is the text of layout
  \<open>time.RFC3339Nano\<close>: nineteen characters for date and second, then the fraction with trailing
  zeros removed, then \<open>Z\<close>.  The nineteen characters have a fixed width and order like the number
  of whole seconds (years 0000 to 9999), so a text is kept as that number and the remaining
  characters; SQL compares it as text, which is the lexicographic order below.
\<close>

type_synonym instant = int

abbreviation nanos_per_second :: int where
  "nanos_per_second \<equiv> 1000000000"

type_synonym ttext = "(int \<times> string) option"

fun frac_digits :: "nat \<Rightarrow> nat \<Rightarrow> string" where
  "frac_digits 0 n = []"
| "frac_digits (Suc k) n = char_of (48 + n div 10 ^ k) # frac_digits k (n mod 10 ^ k)"

definition strip_zeros :: "string \<Rightarrow> string" where
  "strip_zeros s = rev (dropWhile (\<lambda>c. c = CHR ''0'') (rev s))"

definition frac_text :: "nat \<Rightarrow> string" where
  "frac_text n = (if n = 0 then ''Z'' else CHR ''.'' # strip_zeros (frac_digits 9 n) @ ''Z'')"

definition rfc3339nano :: "instant \<Rightarrow> int \<times> string" where
  "rfc3339nano t = (t div nanos_per_second, frac_text (nat (t mod nanos_per_second)))"

fun digits_value :: "nat \<Rightarrow> string \<Rightarrow> nat" where
  "digits_value 0 s = 0"
| "digits_value (Suc k) [] = 0"
| "digits_value (Suc k) (c # s) =
     (if c = CHR ''Z'' then 0 else (byte c - 48) * 10 ^ k + digits_value k s)"

definition parse_rfc3339nano :: "int \<times> string \<Rightarrow> instant" where
  "parse_rfc3339nano x =
     fst x * nanos_per_second
       + (case snd x of c # s \<Rightarrow> if c = CHR ''.'' then int (digits_value 9 s) else 0 | [] \<Rightarrow> 0)"

section \<open>Contexts\<close>

text \<open>
  What the modelled code reads of a \<open>context.Context\<close> besides the principal: \<open>ctx.Err()\<close>.  A
  context can be cancelled while a call is in flight, so the value seen on entry and the value
  seen after a database round trip are separate.
\<close>

record ctx_state =
  ctx_err :: "gerr option"
  ctx_err_after :: "gerr option"

definition background :: ctx_state where
  "background = \<lparr>ctx_err = None, ctx_err_after = None\<rparr>"

text \<open>A row found by a unique key is the only row with that key.\<close>

lemma filter_key_unique:
  "distinct (map f xs) \<Longrightarrow> x \<in> set xs \<Longrightarrow> filter (\<lambda>y. f y = f x) xs = [x]"
  by (induction xs) (auto simp: filter_empty_conv image_iff)

end
