(* ===== verification/Auth_Glob.thy ===== *)
theory Auth_Glob
  imports AV_Prelude
begin

text \<open>
  The two glob matchers of package auth: \<open>wildcardMatch\<close> (policy.go), which matches resource
  patterns of bucket policies, and \<open>matchGlob\<close> (arn.go), which matches the resource part of an
  ARN.  Both are backtracking loops over indices; the reference they are compared with is the
  recursive \<^term>\<open>glob\<close> below.  The locale \<open>star_backtracking\<close> holds the argument once: from the
  loop equation it derives that the loop returns on every input and that it computes \<^term>\<open>glob\<close>
  on every value without an asterisk.
\<close>

section \<open>The loops\<close>

function skip_stars :: "string \<Rightarrow> nat \<Rightarrow> nat" where
  "skip_stars p i = (if i < length p \<and> p ! i = CHR ''*'' then skip_stars p (i + 1) else i)"
  by pat_completeness auto
termination
  by (relation "measure (\<lambda>(p, i). length p - i)") auto

declare skip_stars.simps [simp del]

text \<open>
  State of the loop: pattern index, value index, index of the last asterisk (\<open>-1\<close> for none) and
  the value index to retry from.
\<close>

partial_function (option) wildcardMatch_loop ::
    "string \<Rightarrow> string \<Rightarrow> nat \<Rightarrow> nat \<Rightarrow> int \<Rightarrow> nat \<Rightarrow> bool option" where
  [code]: "wildcardMatch_loop p v patternIndex valueIndex starIndex retryIndex =
     (if valueIndex < length v then
        if patternIndex < length p \<and> p ! patternIndex = v ! valueIndex
        then wildcardMatch_loop p v (patternIndex + 1) (valueIndex + 1) starIndex retryIndex
        else if patternIndex < length p \<and> p ! patternIndex = CHR ''*''
        then wildcardMatch_loop p v (patternIndex + 1) valueIndex (int patternIndex) valueIndex
        else if starIndex < 0 then Some False
        else wildcardMatch_loop p v (nat starIndex + 1) (retryIndex + 1) starIndex (retryIndex + 1)
      else Some (skip_stars p patternIndex = length p))"

text \<open>The loop always returns (\<open>wildcardMatch_terminates\<close> below), so \<open>None\<close> does not occur.\<close>

definition wildcardMatch :: "string \<Rightarrow> string \<Rightarrow> bool" where
  "wildcardMatch p v =
     (case wildcardMatch_loop p v 0 0 (-1) 0 of Some b \<Rightarrow> b | None \<Rightarrow> False)"

partial_function (option) matchGlob_loop ::
    "string \<Rightarrow> string \<Rightarrow> nat \<Rightarrow> nat \<Rightarrow> int \<Rightarrow> nat \<Rightarrow> bool option" where
  [code]: "matchGlob_loop p s px sx star match =
     (if sx < length s then
        if px < length p \<and> (p ! px = CHR ''?'' \<or> p ! px = s ! sx)
        then matchGlob_loop p s (px + 1) (sx + 1) star match
        else if px < length p \<and> p ! px = CHR ''*''
        then matchGlob_loop p s (px + 1) sx (int px) sx
        else if star \<noteq> -1 then matchGlob_loop p s (nat star + 1) (match + 1) star (match + 1)
        else Some False
      else Some (skip_stars p px = length p))"

definition matchGlob :: "string \<Rightarrow> string \<Rightarrow> bool" where
  "matchGlob p s = (case matchGlob_loop p s 0 0 (-1) 0 of Some b \<Rightarrow> b | None \<Rightarrow> False)"

section \<open>Reference semantics\<close>

text \<open>
  \<open>glob f p v\<close>: an asterisk stands for any string, any other pattern byte for one byte \<open>d\<close> of the
  value with \<open>f c d\<close>.
\<close>

fun glob :: "(char \<Rightarrow> char \<Rightarrow> bool) \<Rightarrow> string \<Rightarrow> string \<Rightarrow> bool" where
  "glob f [] v = (v = [])"
| "glob f (c # p) [] = (c = CHR ''*'' \<and> glob f p [])"
| "glob f (c # p) (d # v) =
     (if c = CHR ''*'' then glob f p (d # v) \<or> glob f (c # p) v else f c d \<and> glob f p v)"

lemma ex_le_Suc: "(\<exists>k\<le>Suc n. P k) \<longleftrightarrow> P 0 \<or> (\<exists>k\<le>n. P (Suc k))"
  by (metis Suc_le_mono le0 not0_implies_Suc)

lemma ex_greater_step:
  fixes r n :: nat
  shows "r + 1 \<le> n \<Longrightarrow> (\<exists>k>r. k \<le> n \<and> P k) \<longleftrightarrow> P (r + 1) \<or> (\<exists>k>r + 1. k \<le> n \<and> P k)"
proof -
  assume "r + 1 \<le> n"
  moreover have *: "r < k \<longleftrightarrow> k = r + 1 \<or> r + 1 < k" for k by auto
  ultimately show ?thesis unfolding * by auto
qed

lemma ex_shift:
  fixes j n :: nat
  assumes "j \<le> n"
  shows "(\<exists>k\<le>n - j. P (k + j)) \<longleftrightarrow> (\<exists>k\<ge>j. k \<le> n \<and> P k)"
proof
  assume "\<exists>k\<le>n - j. P (k + j)"
  then obtain k where "k \<le> n - j" "P (k + j)" by blast
  with assms show "\<exists>k\<ge>j. k \<le> n \<and> P k" by (intro exI [of _ "k + j"]) auto
next
  assume "\<exists>k\<ge>j. k \<le> n \<and> P k"
  then obtain k where "j \<le> k" "k \<le> n" "P k" by blast
  then show "\<exists>k\<le>n - j. P (k + j)" by (intro exI [of _ "k - j"]) auto
qed

lemma glob_star: "glob f (CHR ''*'' # p) v \<longleftrightarrow> (\<exists>k\<le>length v. glob f p (drop k v))"
  by (induction v) (simp_all add: ex_le_Suc)

lemma glob_at_star:
  assumes "i < length p" "p ! i = CHR ''*''" and "j \<le> length v"
  shows "glob f (drop i p) (drop j v) \<longleftrightarrow> (\<exists>k\<ge>j. k \<le> length v \<and> glob f (drop (i + 1) p) (drop k v))"
proof -
  have "drop i p = CHR ''*'' # drop (i + 1) p"
    using assms by (metis Cons_nth_drop_Suc Suc_eq_plus1)
  then have "glob f (drop i p) (drop j v)
      \<longleftrightarrow> (\<exists>k\<le>length v - j. glob f (drop (i + 1) p) (drop (k + j) v))"
    by (simp add: glob_star)
  also have "\<dots> \<longleftrightarrow> (\<exists>k\<ge>j. k \<le> length v \<and> glob f (drop (i + 1) p) (drop k v))"
    by (rule ex_shift [OF assms(3)])
  finally show ?thesis .
qed

lemma glob_segment:
  assumes "\<forall>c \<in> set q. c \<noteq> CHR ''*''"
  shows "glob f (q @ p) w \<longleftrightarrow>
    length q \<le> length w \<and> (\<forall>j<length q. f (q ! j) (w ! j)) \<and> glob f p (drop (length q) w)"
  using assms
proof (induction q arbitrary: w)
  case (Cons c q)
  then show ?case by (cases w) (auto simp: All_less_Suc2)
qed simp

lemma skip_stars_glob: "i \<le> length p \<Longrightarrow> skip_stars p i = length p \<longleftrightarrow> glob f (drop i p) []"
proof (induction p i rule: skip_stars.induct)
  case (1 p i)
  show ?case
  proof (cases "i < length p")
    case True
    then have "drop i p = p ! i # drop (i + 1) p" by (simp add: Cons_nth_drop_Suc)
    with 1 True show ?thesis by (subst skip_stars.simps) simp
  next
    case False
    with 1 show ?thesis by (subst skip_stars.simps) simp
  qed
qed

section \<open>The backtracking argument\<close>

locale star_backtracking =
  fixes single :: "char \<Rightarrow> char \<Rightarrow> bool"
    and loop :: "string \<Rightarrow> string \<Rightarrow> nat \<Rightarrow> nat \<Rightarrow> int \<Rightarrow> nat \<Rightarrow> bool option"
  assumes loop_eq: "-1 \<le> st \<Longrightarrow> loop p v pi vi st r =
     (if vi < length v then
        if pi < length p \<and> single (p ! pi) (v ! vi) then loop p v (pi + 1) (vi + 1) st r
        else if pi < length p \<and> p ! pi = CHR ''*'' then loop p v (pi + 1) vi (int pi) vi
        else if st < 0 then Some False
        else loop p v (nat st + 1) (r + 1) st (r + 1)
      else Some (skip_stars p pi = length p))"
    and single_star: "single (CHR ''*'') d \<Longrightarrow> d = CHR ''*''"
begin

text \<open>
  What the loop keeps: the asterisk lies before the pattern index, and since the last asterisk
  pattern and value advanced together.
\<close>

definition bounded :: "string \<Rightarrow> string \<Rightarrow> nat \<Rightarrow> nat \<Rightarrow> int \<Rightarrow> nat \<Rightarrow> bool" where
  "bounded p v pi vi st r \<longleftrightarrow>
     -1 \<le> st \<and> pi \<le> length p \<and> vi \<le> length v \<and> (0 \<le> st \<longrightarrow> nat st < pi \<and> r \<le> vi)"

definition aligned :: "string \<Rightarrow> string \<Rightarrow> nat \<Rightarrow> nat \<Rightarrow> int \<Rightarrow> nat \<Rightarrow> bool" where
  "aligned p v pi vi st r \<longleftrightarrow> bounded p v pi vi st r \<and>
     (0 \<le> st \<longrightarrow> pi - (nat st + 1) = vi - r
        \<and> (\<forall>j<vi - r. p ! (nat st + 1 + j) \<noteq> CHR ''*''))"

lemma loop_induct [consumes 1, case_names step]:
  assumes "bounded p v pi vi st r"
    and "\<And>pi vi st r. bounded p v pi vi st r \<Longrightarrow>
      (\<And>pi' vi' st' r'. bounded p v pi' vi' st' r' \<Longrightarrow>
         (nat (int (length p) - st'), length v - r', length v - vi')
           < (nat (int (length p) - st), length v - r, length v - vi) \<Longrightarrow> P pi' vi' st' r')
      \<Longrightarrow> P pi vi st r"
  shows "P pi vi st r"
  using assms(1)
proof (induction "(nat (int (length p) - st), length v - r, length v - vi)"
    arbitrary: pi vi st r rule: less_induct)
  case less
  show ?case by (rule assms(2) [OF less.prems]) (use less.hyps in blast)
qed

lemma loop_cases:
  assumes "-1 \<le> st"
  obtains (finished) "length v \<le> vi" "loop p v pi vi st r = Some (skip_stars p pi = length p)"
  | (single) "vi < length v" "pi < length p" "single (p ! pi) (v ! vi)"
      "loop p v pi vi st r = loop p v (pi + 1) (vi + 1) st r"
  | (star) "vi < length v" "pi < length p" "\<not> single (p ! pi) (v ! vi)" "p ! pi = CHR ''*''"
      "loop p v pi vi st r = loop p v (pi + 1) vi (int pi) vi"
  | (fail) "vi < length v" "\<not> (pi < length p \<and> single (p ! pi) (v ! vi))"
      "\<not> (pi < length p \<and> p ! pi = CHR ''*'')" "st < 0" "loop p v pi vi st r = Some False"
  | (retry) "vi < length v" "\<not> (pi < length p \<and> single (p ! pi) (v ! vi))"
      "\<not> (pi < length p \<and> p ! pi = CHR ''*'')" "0 \<le> st"
      "loop p v pi vi st r = loop p v (nat st + 1) (r + 1) st (r + 1)"
proof (cases "vi < length v")
  case vi: True
  note eq = loop_eq [OF assms, of p v pi vi r]
  show thesis
  proof (cases "pi < length p \<and> single (p ! pi) (v ! vi)")
    case True
    with vi eq show thesis by (intro that(2)) auto
  next
    case no_single: False
    show thesis
    proof (cases "pi < length p \<and> p ! pi = CHR ''*''")
      case True
      with vi no_single eq show thesis by (intro that(3)) auto
    next
      case False
      with vi no_single eq show thesis by (cases "st < 0") (use that(4,5) in auto)
    qed
  qed
next
  case False
  with loop_eq [OF assms, of p v pi vi r] show thesis by (intro that(1)) auto
qed

lemma bounded_steps:
  assumes "bounded p v pi vi st r"
  shows "-1 \<le> st"
    and "vi < length v \<Longrightarrow> pi < length p \<Longrightarrow> bounded p v (pi + 1) (vi + 1) st r"
    and "vi < length v \<Longrightarrow> pi < length p \<Longrightarrow> bounded p v (pi + 1) vi (int pi) vi"
    and "vi < length v \<Longrightarrow> 0 \<le> st \<Longrightarrow> bounded p v (nat st + 1) (r + 1) st (r + 1)"
    and "vi < length v \<Longrightarrow> pi < length p \<Longrightarrow> st < int pi"
    and "vi < length v \<Longrightarrow> 0 \<le> st \<Longrightarrow> length v - (r + 1) < length v - r"
  using assms by (auto simp: bounded_def)

text \<open>Every run ends: the asterisk, then the retry index, then the value index moves forward.\<close>

lemma loop_returns: "bounded p v pi vi st r \<Longrightarrow> \<exists>b. loop p v pi vi st r = Some b"
proof (induction pi vi st r rule: loop_induct)
  case (step pi vi st r)
  note next_state = bounded_steps [OF step.hyps]
  from next_state(1) show ?case
  proof (cases rule: loop_cases [where p = p and v = v and pi = pi and vi = vi and r = r])
    case single
    then show ?thesis using step.IH [OF next_state(2)] by auto
  next
    case star
    then show ?thesis using step.IH [OF next_state(3)] next_state(5) by auto
  next
    case retry
    then show ?thesis using step.IH [OF next_state(4)] next_state(6) by auto
  qed auto
qed

text \<open>
  On a value without an asterisk, the loop decides whether the rest of the pattern matches the rest
  of the value, or the pattern after the last asterisk matches some later suffix.
\<close>

definition answer :: "string \<Rightarrow> string \<Rightarrow> nat \<Rightarrow> nat \<Rightarrow> int \<Rightarrow> nat \<Rightarrow> bool" where
  "answer p v pi vi st r \<longleftrightarrow>
     glob single (drop pi p) (drop vi v)
     \<or> (0 \<le> st \<and> (\<exists>k>r. k \<le> length v \<and> glob single (drop (nat st + 1) p) (drop k v)))"

lemma aligned_later_suffix:
  assumes al: "aligned p v pi vi st r" and st: "0 \<le> st"
    and k: "r < k" "k \<le> length v" "glob single (drop (nat st + 1) p) (drop k v)"
  shows "vi - r \<le> length v - k" and "glob single (drop pi p) (drop (vi + (k - r)) v)"
proof -
  let ?q = "take (vi - r) (drop (nat st + 1) p)"
  have len: "pi \<le> length p" "nat st < pi" "r \<le> vi" "pi - (nat st + 1) = vi - r"
    and nostar: "\<forall>j<vi - r. p ! (nat st + 1 + j) \<noteq> CHR ''*''"
    using al st by (auto simp: aligned_def bounded_def)
  have "vi - r + (nat st + 1) = pi" using len by linarith
  then have "drop (vi - r) (drop (nat st + 1) p) = drop pi p" by simp
  then have split: "drop (nat st + 1) p = ?q @ drop pi p"
    by (metis append_take_drop_id)
  have q: "length ?q = vi - r" using len by simp
  have free: "\<forall>c \<in> set ?q. c \<noteq> CHR ''*''"
    using nostar len by (auto simp: in_set_conv_nth)
  have "glob single (?q @ drop pi p) (drop k v)"
    using k(3) split by argo
  then have *: "length ?q \<le> length (drop k v)" "glob single (drop pi p) (drop (length ?q) (drop k v))"
    unfolding glob_segment [OF free] by blast+
  show "vi - r \<le> length v - k" using *(1) q by simp
  have "vi - r + k = vi + (k - r)" using len k by simp
  then have "drop (length ?q) (drop k v) = drop (vi + (k - r)) v" by (simp only: q drop_drop)
  with *(2) show "glob single (drop pi p) (drop (vi + (k - r)) v)" by argo
qed

lemma aligned_single:
  assumes al: "aligned p v pi vi st r" and "vi < length v" "pi < length p" "p ! pi \<noteq> CHR ''*''"
  shows "aligned p v (pi + 1) (vi + 1) st r"
proof -
  have b: "bounded p v pi vi st r" using al by (simp add: aligned_def)
  have "p ! (nat st + 1 + j) \<noteq> CHR ''*''" if st: "0 \<le> st" and j: "j < vi + 1 - r" for j
  proof (cases "j < vi - r")
    case True
    with al st show ?thesis by (simp add: aligned_def)
  next
    case False
    with al st j have "nat st + 1 + j = pi" by (auto simp: aligned_def bounded_def)
    with assms show ?thesis by simp
  qed
  then show ?thesis
    using bounded_steps(2) [OF b] al assms by (auto simp: aligned_def bounded_def)
qed

lemma loop_answer:
  assumes "bounded p v pi vi st r" and "aligned p v pi vi st r" and free: "CHR ''*'' \<notin> set v"
  shows "loop p v pi vi st r = Some (answer p v pi vi st r)"
  using assms(1,2)
proof (induction pi vi st r rule: loop_induct)
  case (step pi vi st r)
  note next_state = bounded_steps [OF step.hyps]
  have no_match: "\<not> glob single (drop pi p) (drop vi v)"
    if "vi < length v" "\<not> (pi < length p \<and> single (p ! pi) (v ! vi))"
      "\<not> (pi < length p \<and> p ! pi = CHR ''*'')"
  proof -
    have "drop vi v = v ! vi # drop (Suc vi) v" using that by (simp add: Cons_nth_drop_Suc)
    with that show ?thesis
      by (cases "pi < length p") (simp_all add: Cons_nth_drop_Suc [symmetric])
  qed
  from next_state(1) show ?case
  proof (cases rule: loop_cases [where p = p and v = v and pi = pi and vi = vi and r = r])
    case finished
    then have vi: "vi = length v" using step.hyps by (simp add: bounded_def)
    have "\<not> (0 \<le> st \<and> (\<exists>k>r. k \<le> length v \<and> glob single (drop (nat st + 1) p) (drop k v)))"
      using aligned_later_suffix(1) [OF step.prems] vi by fastforce
    moreover have "pi \<le> length p" using step.hyps by (simp add: bounded_def)
    ultimately show ?thesis
      using finished vi skip_stars_glob [of pi p single] by (auto simp: answer_def)
  next
    case single
    have "p ! pi \<noteq> CHR ''*''"
      using single single_star free by (metis nth_mem)
    then have al: "aligned p v (pi + 1) (vi + 1) st r"
      using aligned_single [OF step.prems] single by blast
    have "glob single (drop pi p) (drop vi v) = glob single (drop (pi + 1) p) (drop (vi + 1) v)"
      using single \<open>p ! pi \<noteq> CHR ''*''\<close> by (simp add: Cons_nth_drop_Suc [symmetric])
    then show ?thesis
      using single step.IH [OF next_state(2) _ al] by (simp add: answer_def)
  next
    case star
    note here = glob_at_star [OF star(2,4) less_imp_le [OF star(1)], of single]
    have "glob single (drop pi p) (drop vi v)"
      if "0 \<le> st" "r < k" "k \<le> length v" "glob single (drop (nat st + 1) p) (drop k v)" for k
    proof -
      note later = aligned_later_suffix [OF step.prems that]
      have "vi + (k - r) \<le> length v"
        using later(1) that step.hyps by (auto simp: bounded_def)
      from later(2) glob_at_star [OF star(2,4) this] here show ?thesis
        by (metis le_add1 le_trans)
    qed
    moreover have "answer p v (pi + 1) vi (int pi) vi = glob single (drop pi p) (drop vi v)"
      unfolding here using star(1) by (auto simp: answer_def le_less)
    moreover have "aligned p v (pi + 1) vi (int pi) vi"
      using next_state(3) star by (simp add: aligned_def)
    ultimately show ?thesis
      using star step.IH [OF next_state(3)] next_state(5) by (auto simp: answer_def)
  next
    case fail
    then show ?thesis using no_match by (simp add: answer_def)
  next
    case retry
    have al: "aligned p v (nat st + 1) (r + 1) st (r + 1)"
      using next_state(4) retry by (simp add: aligned_def)
    have "r + 1 \<le> length v" using retry step.hyps by (auto simp: bounded_def)
    then have "answer p v (nat st + 1) (r + 1) st (r + 1) = answer p v pi vi st r"
      unfolding answer_def using retry no_match by (simp only: ex_greater_step simp_thms)
    then show ?thesis
      using retry step.IH [OF next_state(4) _ al] next_state(6) by auto
  qed
qed

corollary loop_glob:
  assumes "CHR ''*'' \<notin> set v"
  shows "loop p v 0 0 (-1) 0 = Some (glob single p v)"
  using loop_answer [OF _ _ assms, of p 0 0 "-1" 0] by (simp add: answer_def bounded_def aligned_def)

corollary loop_total: "\<exists>b. loop p v 0 0 (-1) 0 = Some b"
  by (rule loop_returns) (simp add: bounded_def)

end

interpretation wildcard: star_backtracking "(=)" wildcardMatch_loop
  by unfold_locales (subst wildcardMatch_loop.simps, simp_all)

interpretation arn_glob: star_backtracking "\<lambda>c d. c = CHR ''?'' \<or> c = d" matchGlob_loop
  by unfold_locales (subst matchGlob_loop.simps, auto)

section \<open>The matchers against the reference\<close>

lemma wildcardMatch_terminates: "\<exists>b. wildcardMatch_loop p v 0 0 (-1) 0 = Some b"
  by (rule wildcard.loop_total)

lemma wildcardMatch_glob: "CHR ''*'' \<notin> set v \<Longrightarrow> wildcardMatch p v = glob (=) p v"
  by (simp add: wildcardMatch_def wildcard.loop_glob)

lemma matchGlob_terminates: "\<exists>b. matchGlob_loop p v 0 0 (-1) 0 = Some b"
  by (rule arn_glob.loop_total)

lemma matchGlob_glob:
  "CHR ''*'' \<notin> set v \<Longrightarrow> matchGlob p v = glob (\<lambda>c d. c = CHR ''?'' \<or> c = d) p v"
  by (simp add: matchGlob_def arn_glob.loop_glob)

lemma matchGlob_literal:
  assumes "CHR ''*'' \<notin> set v" "CHR ''*'' \<notin> set p" "CHR ''?'' \<notin> set p"
  shows "matchGlob p v \<longleftrightarrow> p = v"
proof -
  have "glob (\<lambda>c d. c = CHR ''?'' \<or> c = d) p v \<longleftrightarrow> p = v"
    using assms(2,3) by (induction "\<lambda>c d. c = CHR ''?'' \<or> c = d" p v rule: glob.induct) auto
  with assms(1) show ?thesis by (simp add: matchGlob_glob)
qed

end
