(* ===== verification/Net_IP.thy ===== *)
theory Net_IP
  imports AV_Prelude
begin

text \<open>
  What the policy evaluator uses of Go's package net: \<open>net.ParseIP\<close>, \<open>net.ParseCIDR\<close> and
  \<open>(*IPNet).Contains\<close>.  An address is its list of bytes, four for IPv4 and sixteen for IPv6; a
  textual address with a zone is refused by both parsers, so zones are not represented.
\<close>

definition is_digit :: "char \<Rightarrow> bool" where
  "is_digit c \<longleftrightarrow> CHR ''0'' \<le> c \<and> c \<le> CHR ''9''"

definition digit_val :: "char \<Rightarrow> nat" where
  "digit_val c = byte c - 48"

definition decimal :: "string \<Rightarrow> nat" where
  "decimal s = foldl (\<lambda>n c. 10 * n + digit_val c) 0 s"

definition parse_decimal :: "string \<Rightarrow> nat option" where
  "parse_decimal s = (if s \<noteq> [] \<and> list_all is_digit s then Some (decimal s) else None)"

fun split_all :: "char \<Rightarrow> string \<Rightarrow> string list" where
  "split_all c [] = [[]]"
| "split_all c (d # s) =
     (if d = c then [] # split_all c s
      else case split_all c s of [] \<Rightarrow> [[d]] | w # ws \<Rightarrow> (d # w) # ws)"

definition parse_octet :: "string \<Rightarrow> nat option" where
  "parse_octet s =
     (case parse_decimal s of
        Some n \<Rightarrow> if n \<le> 255 \<and> (length s = 1 \<or> hd s \<noteq> CHR ''0'') then Some n else None
      | None \<Rightarrow> None)"

definition parse_ipv4 :: "string \<Rightarrow> nat list option" where
  "parse_ipv4 s =
     (case map parse_octet (split_all (CHR ''.'') s) of
        [Some a, Some b, Some c, Some d] \<Rightarrow> Some [a, b, c, d]
      | _ \<Rightarrow> None)"

definition hex_val :: "char \<Rightarrow> nat option" where
  "hex_val c =
     (if is_digit c then Some (byte c - 48)
      else if CHR ''a'' \<le> c \<and> c \<le> CHR ''f'' then Some (byte c - 87)
      else if CHR ''A'' \<le> c \<and> c \<le> CHR ''F'' then Some (byte c - 55) else None)"

definition hex_prefix :: "string \<Rightarrow> string" where
  "hex_prefix s = takeWhile (\<lambda>c. hex_val c \<noteq> None) s"

definition hex_value :: "string \<Rightarrow> nat" where
  "hex_value s = foldl (\<lambda>n c. 16 * n + the (hex_val c)) 0 s"

text \<open>
  The group loop of netip's IPv6 parser: the bytes so far, the position of the ellipsis and the
  rest of the text; the result is the bytes and the ellipsis.
\<close>

function ipv6_groups :: "nat list \<Rightarrow> nat option \<Rightarrow> string \<Rightarrow> (nat list \<times> nat option) option" where
  "ipv6_groups bs ell s =
     (if 16 \<le> length bs then if s = [] then Some (bs, ell) else None
      else
        (let g = hex_prefix s; rest = drop (length g) s; acc = hex_value g in
         if g = [] \<or> 4 < length g then None
         else
           (case rest of
              [] \<Rightarrow> Some (bs @ [acc div 256, acc mod 256], ell)
            | c # rest' \<Rightarrow>
                if c = CHR ''.'' then
                  (if (ell = None \<and> length bs \<noteq> 12) \<or> 12 < length bs then None
                   else case parse_ipv4 s of None \<Rightarrow> None | Some v4 \<Rightarrow> Some (bs @ v4, ell))
                else if c \<noteq> CHR '':'' then None
                else
                  (case rest' of
                     [] \<Rightarrow> None
                   | d # rest'' \<Rightarrow>
                       if d = CHR '':'' then
                         (if ell \<noteq> None then None
                          else if rest'' = [] then Some (bs @ [acc div 256, acc mod 256], Some (length bs + 2))
                          else ipv6_groups (bs @ [acc div 256, acc mod 256]) (Some (length bs + 2)) rest'')
                       else ipv6_groups (bs @ [acc div 256, acc mod 256]) ell (d # rest'')))))"
  by pat_completeness auto
termination
  by (relation "measure (\<lambda>(bs, ell, s). length s)") (auto simp: Let_def dest: arg_cong [of _ _ length])

declare ipv6_groups.simps [simp del]

definition parse_ipv6 :: "string \<Rightarrow> nat list option" where
  "parse_ipv6 s =
     (if s = ''::'' then Some (replicate 16 0)
      else
        (case (if has_prefix s ''::'' then ipv6_groups [] (Some 0) (drop 2 s) else ipv6_groups [] None s) of
           None \<Rightarrow> None
         | Some (bs, ell) \<Rightarrow>
             (case ell of
                None \<Rightarrow> if length bs = 16 then Some bs else None
              | Some e \<Rightarrow> if length bs < 16 then Some (take e bs @ replicate (16 - length bs) 0 @ drop e bs)
                          else None)))"

text \<open>\<open>netip.ParseAddr\<close> without zones: the first of \<open>.\<close>, \<open>:\<close>, \<open>%\<close> decides.\<close>

definition parse_addr :: "string \<Rightarrow> nat list option" where
  "parse_addr s =
     (if CHR ''%'' \<in> set s then None
      else case filter (\<lambda>c. c = CHR ''.'' \<or> c = CHR '':'') s of
             [] \<Rightarrow> None
           | c # _ \<Rightarrow> if c = CHR ''.'' then parse_ipv4 s else parse_ipv6 s)"

definition v4_in_v6_prefix :: "nat list" where
  "v4_in_v6_prefix = replicate 10 0 @ [255, 255]"

definition to16 :: "nat list \<Rightarrow> nat list" where
  "to16 bs = (if length bs = 4 then v4_in_v6_prefix @ bs else bs)"

text \<open>\<open>IP.To4\<close>, falling back to the address itself.\<close>

definition to4 :: "nat list \<Rightarrow> nat list" where
  "to4 bs = (if length bs = 16 \<and> take 12 bs = v4_in_v6_prefix then drop 12 bs else bs)"

definition ParseIP :: "string \<Rightarrow> nat list option" where
  "ParseIP s = map_option to16 (parse_addr s)"

fun mask_bytes :: "nat \<Rightarrow> nat list \<Rightarrow> nat list" where
  "mask_bytes n [] = []"
| "mask_bytes n (b # bs) =
     (if 8 \<le> n then b # mask_bytes (n - 8) bs
      else (b div 2 ^ (8 - n) * 2 ^ (8 - n)) # mask_bytes 0 bs)"

record ip_net =
  net_ip :: "nat list"
  net_ones :: nat

definition ParseCIDR :: "string \<Rightarrow> ip_net option" where
  "ParseCIDR s =
     (case index_byte s (CHR ''/'') of
        None \<Rightarrow> None
      | Some i \<Rightarrow>
          (case (parse_addr (take i s), parse_decimal (drop (Suc i) s)) of
             (Some bs, Some n) \<Rightarrow>
               if n \<le> 8 * length bs then Some \<lparr>net_ip = mask_bytes n bs, net_ones = n\<rparr> else None
           | _ \<Rightarrow> None))"

definition net_contains :: "ip_net \<Rightarrow> nat list \<Rightarrow> bool" where
  "net_contains n ip =
     (let nn = to4 (net_ip n);
          ones = net_ones n - 8 * (length (net_ip n) - length nn);
          x = to4 ip
      in length x = length nn \<and> mask_bytes ones x = mask_bytes ones nn)"

lemma ParseCIDR_examples:
  "map_option (\<lambda>n. (net_contains n [10, 1, 2, 3], net_contains n [11, 0, 0, 1])) (ParseCIDR ''10.0.0.0/8'')
     = Some (True, False)"
  "ParseIP ''2001:db8::1'' = Some [0x20, 0x01, 0x0d, 0xb8, 0, 0, 0, 0, 0, 0, 0, 0, 0, 0, 0, 1]"
  "ParseIP ''1.2.3'' = None" "ParseIP ''01.2.3.4'' = None" "ParseCIDR ''10.0.0.0/33'' = None"
  by code_simp+

end
