(* ===== verification/Auth_Policy.thy ===== *)
theory Auth_Policy
  imports Auth_Glob Net_IP
begin

text \<open>
  Bucket policies (internal/auth/policy.go): the statement records, the normalisation a statement
  gets when it is decoded from JSON, the validation of \<open>ParsePolicy\<close>, and evaluation.  The
  reflection-driven decoder of encoding/json is the input of the model: \<open>ParsePolicy\<close> takes what
  \<open>json.Unmarshal\<close> delivers (an error, or the raw statements), and \<open>UnmarshalJSON\<close> is the method
  of this package that turns a raw statement into a \<open>Statement\<close>.  A Go map is an association
  list in the order the loop happens to visit it.
\<close>

section \<open>Data\<close>

datatype PolicyEffect = EffectAllow | EffectDeny | EffectImplicitDeny

datatype jval =
    JNull | JBool bool | JNumber string | JString string | JArray "jval list"
  | JObject "(string \<times> jval) list"

record Statement =
  st_Effect :: string
  st_Principal :: "(string \<times> jval) list"
  st_Action :: "string list"
  st_Resource :: "string list"
  st_Condition :: "(string \<times> (string \<times> string list) list) list"

record Policy =
  p_Version :: string
  p_Statement :: "Statement list"

record raw_statement =
  raw_Effect :: string
  raw_Principal :: jval
  raw_Action :: jval
  raw_Resource :: jval
  raw_Condition :: "(string \<times> (string \<times> jval) list) list"

definition s3Actions :: "string \<rightharpoonup> string" where
  "s3Actions = map_of
     [(''GetObject'', ''s3:GetObject''), (''PutObject'', ''s3:PutObject''),
      (''DeleteObject'', ''s3:DeleteObject''), (''ListBucket'', ''s3:ListBucket''),
      (''HeadObject'', ''s3:GetObject''), (''s3:GetObject'', ''s3:GetObject''),
      (''s3:PutObject'', ''s3:PutObject''), (''s3:DeleteObject'', ''s3:DeleteObject''),
      (''s3:ListBucket'', ''s3:ListBucket'')]"

section \<open>Decoding\<close>

fun strings_of :: "jval list \<Rightarrow> string list" where
  "strings_of [] = []"
| "strings_of (v # vs) = (case v of JString s \<Rightarrow> s # strings_of vs | _ \<Rightarrow> strings_of vs)"

definition StringOrArray :: "jval \<Rightarrow> string list" where
  "StringOrArray v = (case v of JString s \<Rightarrow> [s] | JArray vs \<Rightarrow> strings_of vs | _ \<Rightarrow> [])"

definition UnmarshalJSON :: "raw_statement \<Rightarrow> Statement" where
  "UnmarshalJSON raw =
     \<lparr>st_Effect = raw_Effect raw,
      st_Principal =
        (case raw_Principal raw of
           JString v \<Rightarrow> if v = ''*'' then [(''*'', JString ''*'')] else []
         | JObject m \<Rightarrow> m
         | _ \<Rightarrow> []),
      st_Action = StringOrArray (raw_Action raw),
      st_Resource = StringOrArray (raw_Resource raw),
      st_Condition =
        map (\<lambda>(op, conds). (op, map (\<lambda>(key, val). (key, StringOrArray val)) conds)) (raw_Condition raw)\<rparr>"

section \<open>Matching\<close>

fun matchesResource_loop :: "string list \<Rightarrow> string \<Rightarrow> bool" where
  "matchesResource_loop [] resource = False"
| "matchesResource_loop (pattern # ps) resource =
     (if wildcardMatch pattern resource then True else matchesResource_loop ps resource)"

definition matchesResource :: "Statement \<Rightarrow> string \<Rightarrow> bool" where
  "matchesResource s resource =
     (if resource = '''' \<or> st_Resource s = [] then True
      else matchesResource_loop (st_Resource s) resource)"

fun matchesAction_loop :: "string list \<Rightarrow> string \<Rightarrow> bool" where
  "matchesAction_loop [] action = False"
| "matchesAction_loop (a # as) action =
     (if a = ''*'' \<or> a = action then True
      else if 2 < length a \<and> has_suffix a ''*'' \<and> has_prefix action (take (length a - 1) a) then True
      else matchesAction_loop as action)"

definition matchesAction :: "Statement \<Rightarrow> string \<Rightarrow> bool" where
  "matchesAction s action =
     (if st_Action s = [] then False else matchesAction_loop (st_Action s) action)"

definition principalValues :: "jval \<Rightarrow> string list" where
  "principalValues v =
     (case v of
        JString s \<Rightarrow> [s]
      | JArray vs \<Rightarrow> strings_of vs
      | JObject m \<Rightarrow> strings_of (map snd m)
      | _ \<Rightarrow> [])"

definition matchesPrincipal :: "Statement \<Rightarrow> bool" where
  "matchesPrincipal s =
     (if st_Principal s = [] then True
      else list_ex (\<lambda>(_, v). list_ex (\<lambda>candidate. candidate = ''*'') (principalValues v)) (st_Principal s))"

fun ipInAnyCIDR_loop :: "nat list \<Rightarrow> string list \<Rightarrow> bool" where
  "ipInAnyCIDR_loop parsed [] = False"
| "ipInAnyCIDR_loop parsed (cidr # cidrs) =
     (case ParseCIDR cidr of
        None \<Rightarrow> ipInAnyCIDR_loop parsed cidrs
      | Some n \<Rightarrow> if net_contains n parsed then True else ipInAnyCIDR_loop parsed cidrs)"

definition ipInAnyCIDR :: "string \<Rightarrow> string list \<Rightarrow> bool" where
  "ipInAnyCIDR ip cidrs =
     (case ParseIP ip of None \<Rightarrow> False | Some parsed \<Rightarrow> ipInAnyCIDR_loop parsed cidrs)"

text \<open>One key of one operator; \<open>False\<close> is the early \<open>return false\<close> of the loop.\<close>

definition condition_holds :: "string \<Rightarrow> string \<Rightarrow> string \<Rightarrow> string list \<Rightarrow> bool" where
  "condition_holds sourceIP operator key vals =
     (if operator = ''IpAddress'' \<and> key = ''aws:SourceIp'' then ipInAnyCIDR sourceIP vals
      else if operator = ''NotIpAddress'' \<and> key = ''aws:SourceIp'' then \<not> ipInAnyCIDR sourceIP vals
      else False)"

definition matchesConditions :: "Statement \<Rightarrow> string \<Rightarrow> bool" where
  "matchesConditions s sourceIP =
     (if st_Condition s = [] then True
      else list_all (\<lambda>(operator, conds). list_all (\<lambda>(key, vals). condition_holds sourceIP operator key vals) conds)
             (st_Condition s))"

section \<open>Validation\<close>

definition validatePrincipal :: "Statement \<Rightarrow> gerr option" where
  "validatePrincipal s =
     (case filter (\<lambda>c. c \<noteq> ''*'') (concat (map (\<lambda>(_, v). principalValues v) (st_Principal s))) of
        [] \<Rightarrow> None
      | c # _ \<Rightarrow> Some (NewError (''unsupported Principal '' @ c)))"

fun validateValues :: "string list \<Rightarrow> gerr option" where
  "validateValues [] = None"
| "validateValues (v # vs) =
     (case ParseCIDR v of None \<Rightarrow> Some (NewError (''invalid source CIDR '' @ v)) | Some _ \<Rightarrow> validateValues vs)"

fun validateKeys :: "(string \<times> string list) list \<Rightarrow> gerr option" where
  "validateKeys [] = None"
| "validateKeys ((key, vals) # cs) =
     (if key \<noteq> ''aws:SourceIp'' \<or> vals = [] then Some (NewError (''unsupported or empty condition key '' @ key))
      else case validateValues vals of Some e \<Rightarrow> Some e | None \<Rightarrow> validateKeys cs)"

fun validateOperators :: "(string \<times> (string \<times> string list) list) list \<Rightarrow> gerr option" where
  "validateOperators [] = None"
| "validateOperators ((operator, conds) # cs) =
     (if operator \<noteq> ''IpAddress'' \<and> operator \<noteq> ''NotIpAddress''
      then Some (NewError (''unsupported condition operator '' @ operator))
      else case validateKeys conds of Some e \<Rightarrow> Some e | None \<Rightarrow> validateOperators cs)"

definition validateConditions :: "Statement \<Rightarrow> gerr option" where
  "validateConditions s = validateOperators (st_Condition s)"

definition validateStatement :: "Statement \<Rightarrow> gerr option" where
  "validateStatement s =
     (if st_Effect s \<noteq> ''Allow'' \<and> st_Effect s \<noteq> ''Deny'' then Some (NewError ''invalid Effect'')
      else case validateConditions s of
             Some e \<Rightarrow> Some (Errorf ''statement'' [e])
           | None \<Rightarrow> (case validatePrincipal s of Some e \<Rightarrow> Some (Errorf ''statement'' [e]) | None \<Rightarrow> None))"

fun validateStatements :: "Statement list \<Rightarrow> gerr option" where
  "validateStatements [] = None"
| "validateStatements (s # ss) =
     (case validateStatement s of Some e \<Rightarrow> Some e | None \<Rightarrow> validateStatements ss)"

text \<open>
  \<open>ParsePolicy\<close>; \<open>decode\<close> is \<open>json.Unmarshal\<close> up to the raw statements.  \<open>Inr None\<close> is the nil
  policy.
\<close>

definition ParsePolicy ::
    "(string \<Rightarrow> gerr + (string \<times> raw_statement list)) \<Rightarrow> string \<Rightarrow> Policy option res" where
  "ParsePolicy decode jsonStr =
     (if jsonStr = '''' then Inr None
      else
        (case decode jsonStr of
           Inl e \<Rightarrow> Inl (Errorf ''malformed policy'' [e])
         | Inr (version, raws) \<Rightarrow>
             (let p = \<lparr>p_Version = version, p_Statement = map UnmarshalJSON raws\<rparr> in
              if p_Statement p = [] then Inr None
              else case validateStatements (p_Statement p) of Some e \<Rightarrow> Inl e | None \<Rightarrow> Inr (Some p))))"

section \<open>Evaluation\<close>

fun EvalResource_loop :: "Statement list \<Rightarrow> string \<Rightarrow> string \<Rightarrow> string \<Rightarrow> bool \<Rightarrow> PolicyEffect" where
  "EvalResource_loop [] canonAction resource sourceIP allow =
     (if allow then EffectAllow else EffectImplicitDeny)"
| "EvalResource_loop (stmt # ss) canonAction resource sourceIP allow =
     (if \<not> matchesAction stmt canonAction \<or> \<not> matchesResource stmt resource
      then EvalResource_loop ss canonAction resource sourceIP allow
      else if st_Effect stmt = ''Deny'' then
        (if \<not> matchesPrincipal stmt \<or> validateConditions stmt \<noteq> None then EffectDeny
         else if matchesConditions stmt sourceIP then EffectDeny
         else EvalResource_loop ss canonAction resource sourceIP allow)
      else if st_Effect stmt = ''Allow'' then
        (if matchesPrincipal stmt \<and> matchesConditions stmt sourceIP
         then EvalResource_loop ss canonAction resource sourceIP True
         else EvalResource_loop ss canonAction resource sourceIP allow)
      else EffectDeny)"

definition canonical_action :: "string \<Rightarrow> string" where
  "canonical_action action =
     (case s3Actions action of None \<Rightarrow> action | Some c \<Rightarrow> if c = '''' then action else c)"

definition EvalResource :: "Policy \<Rightarrow> string \<Rightarrow> string \<Rightarrow> string \<Rightarrow> PolicyEffect" where
  "EvalResource p action resource sourceIP =
     EvalResource_loop (p_Statement p) (canonical_action action) resource sourceIP False"

definition Eval :: "Policy \<Rightarrow> string \<Rightarrow> string \<Rightarrow> PolicyEffect" where
  "Eval p action sourceIP = EvalResource p action '''' sourceIP"

definition Allowed :: "Policy option \<Rightarrow> string \<Rightarrow> string \<Rightarrow> bool" where
  "Allowed policy action sourceIP =
     (case policy of None \<Rightarrow> True | Some p \<Rightarrow> Eval p action sourceIP = EffectAllow)"

definition AllowedResource :: "Policy option \<Rightarrow> string \<Rightarrow> string \<Rightarrow> string \<Rightarrow> bool" where
  "AllowedResource policy action resource sourceIP =
     (case policy of None \<Rightarrow> True | Some p \<Rightarrow> EvalResource p action resource sourceIP = EffectAllow)"

section \<open>Reference semantics of evaluation\<close>

definition selects :: "Statement \<Rightarrow> string \<Rightarrow> string \<Rightarrow> bool" where
  "selects s action resource \<longleftrightarrow> matchesAction s action \<and> matchesResource s resource"

text \<open>A statement that cannot be evaluated, or has an unknown effect, counts as a denial.\<close>

definition denies :: "Statement \<Rightarrow> string \<Rightarrow> bool" where
  "denies s sourceIP \<longleftrightarrow> st_Effect s \<noteq> ''Allow'' \<and>
     (st_Effect s \<noteq> ''Deny'' \<or> \<not> matchesPrincipal s \<or> validateConditions s \<noteq> None
        \<or> matchesConditions s sourceIP)"

definition allows :: "Statement \<Rightarrow> string \<Rightarrow> bool" where
  "allows s sourceIP \<longleftrightarrow> st_Effect s = ''Allow'' \<and> matchesPrincipal s \<and> matchesConditions s sourceIP"

lemma EvalResource_loop_step:
  "EvalResource_loop (s # ss) a r ip allow =
     (if \<not> selects s a r then EvalResource_loop ss a r ip allow
      else if denies s ip then EffectDeny
      else EvalResource_loop ss a r ip (allow \<or> allows s ip))"
  by (cases "st_Effect s = ''Allow''"; cases "st_Effect s = ''Deny''"; cases "matchesPrincipal s";
      cases "matchesConditions s ip") (simp_all add: selects_def denies_def allows_def)

lemma EvalResource_loop_spec:
  "EvalResource_loop ss a r ip allow =
     (if \<exists>s \<in> set ss. selects s a r \<and> denies s ip then EffectDeny
      else if allow \<or> (\<exists>s \<in> set ss. selects s a r \<and> allows s ip) then EffectAllow
      else EffectImplicitDeny)"
proof (induction ss arbitrary: allow)
  case (Cons s ss)
  show ?case
    unfolding EvalResource_loop_step Cons
    by (cases "selects s a r"; cases "denies s ip"; cases "allows s ip") auto
qed simp

text \<open>
  C7. Evaluation is deny-overrides with an implicit denial: the result is a denial exactly when some
  selected statement denies (or cannot be evaluated), otherwise an allowance exactly when some
  selected statement allows.  The order of the statements does not matter.
\<close>

theorem EvalResource_deny_overrides:
  "EvalResource p action resource sourceIP =
     (let chosen = {s \<in> set (p_Statement p). selects s (canonical_action action) resource} in
      if \<exists>s \<in> chosen. denies s sourceIP then EffectDeny
      else if \<exists>s \<in> chosen. allows s sourceIP then EffectAllow else EffectImplicitDeny)"
  unfolding EvalResource_def EvalResource_loop_spec by (auto simp: Let_def)

section \<open>What validation guarantees\<close>

lemma validateStatements_None:
  "validateStatements ss = None \<longleftrightarrow> (\<forall>s \<in> set ss. validateStatement s = None)"
  by (induction ss) (auto split: option.splits)

lemma validateStatement_None:
  "validateStatement s = None \<longleftrightarrow>
     (st_Effect s = ''Allow'' \<or> st_Effect s = ''Deny'') \<and> validateConditions s = None \<and> validatePrincipal s = None"
  by (auto simp: validateStatement_def split: option.splits)

lemma ParsePolicy_statements:
  assumes "ParsePolicy decode j = Inr (Some p)" and "s \<in> set (p_Statement p)"
  shows "st_Effect s = ''Allow'' \<or> st_Effect s = ''Deny''" and "validateConditions s = None"
    and "validatePrincipal s = None"
  using assms
  by (auto simp: ParsePolicy_def Let_def validateStatements_None validateStatement_None
      split: if_splits sum.splits prod.splits option.splits)

lemma validateValues_None: "validateValues vs = None \<longleftrightarrow> (\<forall>v \<in> set vs. ParseCIDR v \<noteq> None)"
  by (induction vs) (auto split: option.splits)

lemma validateValues_Some: "validateValues vs = Some e \<Longrightarrow> \<exists>v \<in> set vs. ParseCIDR v = None"
  by (metis option.distinct(1) validateValues_None)

lemma validateKeys_None:
  "validateKeys cs = None \<longleftrightarrow>
     (\<forall>(key, vals) \<in> set cs. key = ''aws:SourceIp'' \<and> vals \<noteq> [] \<and> (\<forall>v \<in> set vals. ParseCIDR v \<noteq> None))"
  by (induction cs rule: validateKeys.induct) (auto simp: validateValues_None dest: validateValues_Some split: option.splits)

lemma validateOperators_None:
  "validateOperators cs = None \<longleftrightarrow>
     (\<forall>(op, conds) \<in> set cs. (op = ''IpAddress'' \<or> op = ''NotIpAddress'') \<and> validateKeys conds = None)"
  by (induction cs rule: validateOperators.induct) (auto split: option.splits)

text \<open>
  A policy accepted by \<open>ParsePolicy\<close> never falls back on the fail-closed branches of the
  evaluator for its effects or conditions: a selected statement denies exactly when it is a
  \<open>Deny\<close> whose principal is not the wildcard or whose source-IP conditions hold, and every
  condition is an IP test over well-formed CIDR blocks.
\<close>

lemma ParsePolicy_evaluable:
  assumes "ParsePolicy decode j = Inr (Some p)" and "s \<in> set (p_Statement p)"
  shows "(denies s ip \<longleftrightarrow> st_Effect s = ''Deny'' \<and> (matchesPrincipal s \<longrightarrow> matchesConditions s ip)) \<and>
    (\<forall>(op, conds) \<in> set (st_Condition s). op \<in> {''IpAddress'', ''NotIpAddress''} \<and>
       (\<forall>(key, vals) \<in> set conds. key = ''aws:SourceIp'' \<and> vals \<noteq> [] \<and> (\<forall>v \<in> set vals. ParseCIDR v \<noteq> None)))"
  using ParsePolicy_statements [OF assms]
  by (auto simp: denies_def validateConditions_def validateOperators_None validateKeys_None)

definition demo_raw :: raw_statement where
  "demo_raw = \<lparr>raw_Effect = ''Deny'', raw_Principal = JString ''*'', raw_Action = JString ''s3:*'',
     raw_Resource = JString ''arn:aws:s3:::b/*'',
     raw_Condition = [(''IpAddress'', [(''aws:SourceIp'', JString ''10.0.0.0/8'')])]\<rparr>"

lemma demo_policy_denies:
  "denies (UnmarshalJSON demo_raw) ''10.1.2.3'' \<and> \<not> denies (UnmarshalJSON demo_raw) ''192.168.0.1''"
proof -
  let ?p = "\<lparr>p_Version = ''2012-10-17'', p_Statement = [UnmarshalJSON demo_raw]\<rparr>"
  have parsed: "ParsePolicy (\<lambda>_. Inr (''2012-10-17'', [demo_raw])) ''{}'' = Inr (Some ?p)"
    by code_simp
  have member: "UnmarshalJSON demo_raw \<in> set (p_Statement ?p)" by simp
  have facts: "st_Effect (UnmarshalJSON demo_raw) = ''Deny''" "matchesPrincipal (UnmarshalJSON demo_raw)"
    "matchesConditions (UnmarshalJSON demo_raw) ''10.1.2.3''"
    "\<not> matchesConditions (UnmarshalJSON demo_raw) ''192.168.0.1''"
    by code_simp+
  show ?thesis
    using ParsePolicy_evaluable [OF parsed member, of "''10.1.2.3''"]
      ParsePolicy_evaluable [OF parsed member, of "''192.168.0.1''"] facts by blast
qed

section \<open>Resource patterns\<close>

lemma matchesResource_iff:
  "matchesResource s r \<longleftrightarrow> r = '''' \<or> st_Resource s = [] \<or> (\<exists>p \<in> set (st_Resource s). wildcardMatch p r)"
proof -
  have "matchesResource_loop ps r \<longleftrightarrow> (\<exists>p \<in> set ps. wildcardMatch p r)" for ps
    by (induction ps) auto
  then show ?thesis by (auto simp: matchesResource_def)
qed

text \<open>
  C8. On every resource name without an asterisk the backtracking matcher decides the usual glob
  semantics of the statement's resource patterns.
\<close>

theorem matchesResource_glob:
  assumes "CHR ''*'' \<notin> set resource"
  shows "matchesResource s resource \<longleftrightarrow>
     resource = '''' \<or> st_Resource s = [] \<or> (\<exists>p \<in> set (st_Resource s). glob (=) p resource)"
  using assms by (simp add: matchesResource_iff wildcardMatch_glob)

theorem matchesResource_glob_witness:
  "matchesResource (UnmarshalJSON demo_raw) ''arn:aws:s3:::b/x/y''
   \<and> \<not> matchesResource (UnmarshalJSON demo_raw) ''arn:aws:s3:::c/x''"
proof -
  have "CHR ''*'' \<notin> set ''arn:aws:s3:::b/x/y''" "CHR ''*'' \<notin> set ''arn:aws:s3:::c/x''" by simp_all
  note m = this [THEN matchesResource_glob, of "UnmarshalJSON demo_raw"]
  have "st_Resource (UnmarshalJSON demo_raw) = [''arn:aws:s3:::b/*'']" by code_simp
  with m show ?thesis by simp
qed

text \<open>
  The run of \<open>wildcardMatch\<close> over a common prefix: an asterisk in the value is consumed as a
  literal before the pattern's asterisk is recognised.
\<close>

lemma wildcardMatch_loop_common:
  "n \<le> length u \<Longrightarrow> wildcardMatch_loop (u @ p) (u @ v) 0 0 (-1) 0 = wildcardMatch_loop (u @ p) (u @ v) n n (-1) 0"
proof (induction n)
  case (Suc n)
  then have "wildcardMatch_loop (u @ p) (u @ v) n n (-1) 0 = wildcardMatch_loop (u @ p) (u @ v) (Suc n) (Suc n) (-1) 0"
    by (subst wildcardMatch_loop.simps) (simp add: nth_append)
  with Suc show ?case by simp
qed simp

lemma wildcardMatch_literal_star:
  assumes "x \<noteq> ''''"
  shows "\<not> wildcardMatch (b @ ''*'') (b @ ''*'' @ x)"
proof -
  let ?u = "b @ ''*''"
  have "wildcardMatch_loop ?u (?u @ x) 0 0 (-1) 0 = wildcardMatch_loop ?u (?u @ x) (length ?u) (length ?u) (-1) 0"
    using wildcardMatch_loop_common [of "length ?u" ?u "[]" x] by simp
  also have "\<dots> = Some False"
    using assms by (subst wildcardMatch_loop.simps) simp
  finally show ?thesis by (simp add: wildcardMatch_def)
qed

lemma glob_trailing_star: "CHR ''*'' \<notin> set b \<Longrightarrow> glob (=) (b @ ''*'') (b @ w)"
proof -
  assume "CHR ''*'' \<notin> set b"
  then have "\<forall>c \<in> set b. c \<noteq> CHR ''*''" by metis
  then show ?thesis
    by (subst glob_segment) (auto simp: nth_append glob_star intro: exI [of _ "length w"])
qed

text \<open>
  The matcher misses resources whose name has an asterisk where the pattern has one: for every
  bucket prefix \<open>b\<close> without an asterisk and every non-empty \<open>x\<close>, the pattern \<open>b*\<close> covers the name
  \<open>b*x\<close>, yet \<open>wildcardMatch\<close> rejects it, so a \<open>Deny\<close> of everything under \<open>b\<close> next to a blanket
  \<open>Allow\<close> lets the object \<open>b*x\<close> through.
\<close>

lemma wildcard_deny_bypass:
  assumes "CHR ''*'' \<notin> set b" and "x \<noteq> ''''"
  shows "glob (=) (b @ ''*'') (b @ ''*'' @ x) \<and>
    EvalResource \<lparr>p_Version = v, p_Statement =
      [\<lparr>st_Effect = ''Allow'', st_Principal = [], st_Action = [''*''], st_Resource = [], st_Condition = []\<rparr>,
       \<lparr>st_Effect = ''Deny'', st_Principal = [], st_Action = [''*''], st_Resource = [b @ ''*''], st_Condition = []\<rparr>]\<rparr>
      action (b @ ''*'' @ x) ip = EffectAllow"
  using wildcardMatch_literal_star [OF assms(2), of b] glob_trailing_star [OF assms(1), of "''*'' @ x"]
  by (simp add: EvalResource_def matchesAction_def matchesResource_def matchesPrincipal_def matchesConditions_def)

theorem wildcard_deny_bypass_witness:
  "EvalResource \<lparr>p_Version = '''', p_Statement =
      [\<lparr>st_Effect = ''Allow'', st_Principal = [], st_Action = [''*''], st_Resource = [], st_Condition = []\<rparr>,
       \<lparr>st_Effect = ''Deny'', st_Principal = [], st_Action = [''*''], st_Resource = [''arn:aws:s3:::b/'' @ ''*''], st_Condition = []\<rparr>]\<rparr>
      ''GetObject'' (''arn:aws:s3:::b/'' @ ''*'' @ ''secret'') ''10.0.0.1'' = EffectAllow"
proof -
  have "CHR ''*'' \<notin> set ''arn:aws:s3:::b/''" "''secret'' \<noteq> ''''" by simp_all
  from wildcard_deny_bypass [OF this] show ?thesis by blast
qed

text \<open>
  A principal written as a plain string other than the wildcard is dropped during decoding: it
  passes the validation that is meant to reject it and afterwards matches every caller, so an
  unconditional \<open>Allow\<close> for a named principal is public.
\<close>

lemma string_principal_is_public:
  assumes "raw_Principal raw = JString name" and "name \<noteq> ''*''"
    and "raw_Effect raw = ''Allow''" and "raw_Condition raw = []"
  shows "validateStatement (UnmarshalJSON raw) = None \<and> allows (UnmarshalJSON raw) ip"
  using assms
  by (simp add: UnmarshalJSON_def validateStatement_def validateConditions_def validatePrincipal_def
      matchesPrincipal_def allows_def matchesConditions_def)

theorem string_principal_is_public_witness:
  "allows (UnmarshalJSON \<lparr>raw_Effect = ''Allow'', raw_Principal = JString ''arn:aws:iam::1:user/alice'',
       raw_Action = JString ''*'', raw_Resource = JString ''*'', raw_Condition = []\<rparr>) ''203.0.113.9''"
  using string_principal_is_public [where name = "''arn:aws:iam::1:user/alice''" and ip = "''203.0.113.9''"
      and raw = "\<lparr>raw_Effect = ''Allow'', raw_Principal = JString ''arn:aws:iam::1:user/alice'',
       raw_Action = JString ''*'', raw_Resource = JString ''*'', raw_Condition = []\<rparr>"] by simp

end
