(* ===== verification/Auth_Arn.thy ===== *)
theory Auth_Arn
  imports Auth_Glob
begin

text \<open>
  Resource names (internal/auth/arn.go): parsing, construction, and matching of a concrete ARN
  against a pattern ARN.  \<open>ParseARN\<close> splits at the first five colons; \<open>MatchARN\<close> compares the
  fields and globs the resource part.
\<close>

section \<open>Data and operations\<close>

record ARN =
  Partition :: string
  Service :: string
  Region :: string
  Account :: string
  Resource :: string

definition ParseARN :: "string \<Rightarrow> ARN option" where
  "ParseARN s =
     (case split_n s (CHR '':'') 6 of
        [p0, p1, p2, p3, p4, p5] \<Rightarrow>
          if p0 \<noteq> ''arn'' then None
          else Some \<lparr>Partition = p1, Service = p2, Region = p3, Account = p4, Resource = p5\<rparr>
      | _ \<Rightarrow> None)"

definition MatchARN :: "string \<Rightarrow> string \<Rightarrow> bool" where
  "MatchARN pattern arn =
     (case ParseARN pattern of
        None \<Rightarrow> False
      | Some p \<Rightarrow>
          (case ParseARN arn of
             None \<Rightarrow> False
           | Some a \<Rightarrow>
               if Partition p \<noteq> Partition a then False
               else if Service p \<noteq> ''*'' \<and> Service p \<noteq> Service a then False
               else if Region p \<noteq> ''*'' \<and> Region p \<noteq> Region a then False
               else if Account p \<noteq> ''*'' \<and> Account p \<noteq> Account a then False
               else matchGlob (Resource p) (Resource a)))"

fun MatchARNList :: "string list \<Rightarrow> string \<Rightarrow> bool" where
  "MatchARNList [] arn = False"
| "MatchARNList (p # ps) arn = (if MatchARN p arn then True else MatchARNList ps arn)"

definition IsARN :: "string \<Rightarrow> bool" where
  "IsARN s = has_prefix s ''arn:''"

definition ResourceARNFromParts :: "string \<Rightarrow> string \<Rightarrow> string \<Rightarrow> string" where
  "ResourceARNFromParts tenant bucket key =
     (if key = '''' then ''arn:aero:bucket:*:'' @ tenant @ '':'' @ bucket
      else ''arn:aero:bucket:*:'' @ tenant @ '':'' @ bucket @ ''/'' @ key)"

definition NormalizeARN :: "string \<Rightarrow> string" where
  "NormalizeARN s =
     (if has_prefix s ''arn:'' then s
      else
        (case split_n s (CHR ''/'') 3 of
           p0 # p1 # ps \<Rightarrow>
             ''arn:aero:bucket:*:'' @ p0 @ '':'' @ p1 @ ''/''
               @ (case ps of [] \<Rightarrow> '''' | k # _ \<Rightarrow> k)
         | _ \<Rightarrow> ''arn:aero:bucket:*:default:'' @ s))"

section \<open>Lemmas\<close>

lemma split_n_append:
  "c \<notin> set s \<Longrightarrow> split_n (s @ c # t) c (Suc (Suc n)) = s # split_n t c (Suc n)"
  by simp

lemma split_n_fields:
  assumes "CHR '':'' \<notin> set t"
  shows "split_n (''arn:aero:bucket:*:'' @ t @ '':'' @ r) (CHR '':'') 6 =
     [''arn'', ''aero'', ''bucket'', ''*'', t, r]"
  using assms by (simp add: numeral_eq_Suc)

lemma ParseARN_built:
  assumes "CHR '':'' \<notin> set t"
  shows "ParseARN (''arn:aero:bucket:*:'' @ t @ '':'' @ r) =
     Some \<lparr>Partition = ''aero'', Service = ''bucket'', Region = ''*'', Account = t, Resource = r\<rparr>"
  unfolding ParseARN_def split_n_fields [OF assms] by simp

definition resource_path :: "string \<Rightarrow> string \<Rightarrow> string" where
  "resource_path bucket key = (if key = '''' then bucket else bucket @ ''/'' @ key)"

lemma ParseARN_ResourceARNFromParts:
  assumes "CHR '':'' \<notin> set t"
  shows "ParseARN (ResourceARNFromParts t b k) =
     Some \<lparr>Partition = ''aero'', Service = ''bucket'', Region = ''*'', Account = t,
           Resource = resource_path b k\<rparr>"
proof -
  have "ResourceARNFromParts t b k = ''arn:aero:bucket:*:'' @ t @ '':'' @ resource_path b k"
    by (simp add: ResourceARNFromParts_def resource_path_def)
  then show ?thesis by (simp only: ParseARN_built [OF assms])
qed

lemma MatchARNList_iff: "MatchARNList ps arn \<longleftrightarrow> (\<exists>p \<in> set ps. MatchARN p arn)"
  by (induction ps) auto

text \<open>
  A tenant with a colon in its name shares resource names with another tenant: the colon that ends the
  account field is the first one.  No check of the code keeps colons out of tenant names.
\<close>

lemma colon_tenant_shares_arn:
  "ResourceARNFromParts ''a:b'' ''x'' k = ResourceARNFromParts ''a'' ''b:x'' k"
  "MatchARN (ResourceARNFromParts ''a'' ''*'' '''') (ResourceARNFromParts ''a:b'' ''x'' ''k'')"
  by (simp add: ResourceARNFromParts_def) code_simp

text \<open>
  C9. For tenants whose names have no colon, a resource ARN built for one matches a pattern built for
  another exactly when the pattern names the same tenant (or \<open>*\<close>) and its path, read as a glob, matches
  the path: an ARN never matches a pattern of another such tenant.
\<close>

theorem MatchARN_tenant_isolation:
  assumes "CHR '':'' \<notin> set t" and "CHR '':'' \<notin> set t'"
  shows "MatchARN (ResourceARNFromParts t' b' k') (ResourceARNFromParts t b k) \<longleftrightarrow>
     (t' = ''*'' \<or> t' = t) \<and> matchGlob (resource_path b' k') (resource_path b k)"
  using assms by (auto simp: MatchARN_def ParseARN_ResourceARNFromParts)

theorem MatchARN_tenant_isolation_witness:
  "\<not> MatchARN (ResourceARNFromParts ''acme'' ''docs'' ''*'') (ResourceARNFromParts ''rival'' ''docs'' ''a.txt'')
   \<and> MatchARN (ResourceARNFromParts ''acme'' ''docs'' ''*'') (ResourceARNFromParts ''acme'' ''docs'' ''a.txt'')"
proof -
  have "matchGlob (resource_path ''docs'' ''*'') (resource_path ''docs'' ''a.txt'')" by code_simp
  with MatchARN_tenant_isolation [of "''rival''" "''acme''" "''docs''" "''*''" "''docs''" "''a.txt''"]
    MatchARN_tenant_isolation [of "''acme''" "''acme''" "''docs''" "''*''" "''docs''" "''a.txt''"]
  show ?thesis by simp
qed

end
