(* ===== verification/Spaces.thy ===== *)
theory Spaces
  imports AV_Prelude
begin

text \<open>
  Package \<open>internal/spaces\<close>: the data of Spaces (\<open>types.go\<close>, \<open>binding.go\<close>, \<open>coverage.go\<close>) and
  every validator (\<open>validate.go\<close>, \<open>binding.go\<close>, \<open>coverage.go\<close>).  A validator returns a Go
  \<open>error\<close>, here \<^typ>\<open>gerr option\<close> with \<open>None\<close> for nil.  The package \<open>github.com/google/uuid\<close> is a
  parameter: its \<open>Parse\<close> and \<open>String\<close>, with a UUID as the number of its 128 bits.
\<close>

section \<open>Data\<close>

text \<open>String-typed enums stay strings: the code compares texts and stores any text.\<close>

abbreviation (input) User :: string where "User \<equiv> ''user''"
abbreviation (input) Service :: string where "Service \<equiv> ''service''"
abbreviation (input) Personal :: string where "Personal \<equiv> ''personal''"
abbreviation (input) Team :: string where "Team \<equiv> ''team''"
abbreviation (input) Viewer :: string where "Viewer \<equiv> ''viewer''"
abbreviation (input) Editor :: string where "Editor \<equiv> ''editor''"
abbreviation (input) Admin :: string where "Admin \<equiv> ''admin''"
abbreviation (input) Active :: string where "Active \<equiv> ''active''"
abbreviation (input) Revoked :: string where "Revoked \<equiv> ''revoked''"
abbreviation (input) AddMember :: string where "AddMember \<equiv> ''member.add''"
abbreviation (input) ChangeRole :: string where "ChangeRole \<equiv> ''member.change_role''"
abbreviation (input) RevokeMember :: string where "RevokeMember \<equiv> ''member.revoke''"
abbreviation (input) ReactivateMember :: string where "ReactivateMember \<equiv> ''member.reactivate''"
abbreviation (input) BindingBound :: string where "BindingBound \<equiv> ''bound''"
abbreviation (input) BindingUnbound :: string where "BindingUnbound \<equiv> ''unbound''"
abbreviation (input) CoverageTenant :: string where "CoverageTenant \<equiv> ''tenant''"
abbreviation (input) CoverageGlobal :: string where "CoverageGlobal \<equiv> ''global''"
abbreviation (input) CoverageBound :: string where "CoverageBound \<equiv> ''bound''"
abbreviation (input) CoverageUnbound :: string where "CoverageUnbound \<equiv> ''unbound''"
abbreviation (input) CoverageUnknown :: string where "CoverageUnknown \<equiv> ''unknown''"

record SubjectRef =
  Source :: string
  SKind :: string
  SID :: string

record Space =
  sp_TenantID :: string
  sp_ID :: string
  sp_Kind :: string
  sp_Name :: string
  sp_BackingBucket :: string
  sp_PersonalSubject :: "SubjectRef option"
  sp_Revision :: int
  sp_CreatedBy :: SubjectRef
  sp_UpdatedBy :: SubjectRef
  sp_CreatedAt :: instant
  sp_UpdatedAt :: instant

record Member =
  m_TenantID :: string
  m_SpaceID :: string
  m_Subject :: SubjectRef
  m_Role :: string
  m_State :: string
  m_ChangedRevision :: int
  m_ChangedBy :: SubjectRef
  m_JoinedAt :: instant
  m_UpdatedAt :: instant
  m_RevokedAt :: "instant option"

record History =
  h_TenantID :: string
  h_ID :: string
  h_SpaceID :: string
  h_CommandID :: string
  h_CommandType :: string
  h_Actor :: SubjectRef
  h_Target :: SubjectRef
  h_BeforeRevision :: int
  h_AfterRevision :: int
  h_BeforeRole :: string
  h_AfterRole :: string
  h_BeforeState :: string
  h_AfterState :: string
  h_Reason :: string
  h_RequestID :: string
  h_OccurredAt :: instant

record CreateCommand =
  cc_TenantID :: string
  cc_ID :: string
  cc_Kind :: string
  cc_Name :: string
  cc_Actor :: SubjectRef
  cc_CommandID :: string
  cc_Reason :: string
  cc_RequestID :: string

record MemberCommand =
  mc_TenantID :: string
  mc_SpaceID :: string
  mc_ExpectedRevision :: int
  mc_Actor :: SubjectRef
  mc_Target :: SubjectRef
  mc_Action :: string
  mc_Role :: string
  mc_CommandID :: string
  mc_Reason :: string
  mc_RequestID :: string

record MemberPage =
  mp_After :: "SubjectRef option"
  mp_Limit :: int

record SpacePage =
  pg_AfterID :: string
  pg_Limit :: int

record HistoryPage =
  hp_AfterRevision :: int
  hp_Limit :: int

record BindingResult =
  br_TenantID :: string
  br_Bucket :: string
  br_TenantKnown :: bool
  br_TenantStatus :: string
  br_State :: string
  br_SpaceID :: string
  br_Revision :: int

record CoverageScope =
  cs_Kind :: string
  cs_TenantID :: string

record CoverageResult =
  cr_Scope :: CoverageScope
  cr_TenantKnown :: bool
  cr_TenantStatus :: string
  cr_State :: string
  cr_Complete :: bool
  cr_Witnesses :: "BindingResult list"

record uuid_lib =
  uuid_parse :: "string \<Rightarrow> nat option"
  uuid_string :: "nat \<Rightarrow> string"

section \<open>Validation of identifiers and commands (\<open>validate.go\<close>)\<close>

definition invalid :: "string \<Rightarrow> gerr" where
  "invalid field = Errorf field [Sentinel SpacesInvalidArgument]"

definition ValidateIdentifier :: "string \<Rightarrow> gerr option" where
  "ValidateIdentifier v = first_error
     [fails (v = [] \<or> trim_space v \<noteq> v \<or> \<not> valid_utf8 v) (invalid ''identifier''),
      fails (has_control v) (invalid ''identifier control character'')]"

definition ValidateTenant :: "string \<Rightarrow> gerr option" where
  "ValidateTenant tenant =
     (if tenant = ''*'' then Some (invalid ''tenant wildcard'') else ValidateIdentifier tenant)"

definition ValidateID :: "uuid_lib \<Rightarrow> string \<Rightarrow> gerr option" where
  "ValidateID U i =
     (case uuid_parse U i of
        None \<Rightarrow> Some (invalid ''canonical nonzero UUID'')
      | Some u \<Rightarrow> fails (u = 0 \<or> uuid_string U u \<noteq> i) (invalid ''canonical nonzero UUID''))"

definition ValidateSubject :: "SubjectRef \<Rightarrow> gerr option" where
  "ValidateSubject s = first_error
     [fails (SKind s \<noteq> User \<and> SKind s \<noteq> Service) (invalid ''subject kind''),
      ValidateIdentifier (Source s),
      ValidateIdentifier (SID s)]"

definition ValidateSpaceRef :: "uuid_lib \<Rightarrow> string \<Rightarrow> string \<Rightarrow> gerr option" where
  "ValidateSpaceRef U tenant i = first_error [ValidateTenant tenant, ValidateID U i]"

definition ValidateName :: "string \<Rightarrow> gerr option" where
  "ValidateName nm = first_error
     [fails (\<not> valid_utf8 nm \<or> trim_space nm = [] \<or> rune_count nm > 200) (invalid ''name''),
      fails (has_control nm) (invalid ''name control character'')]"

definition validateCommand ::
  "uuid_lib \<Rightarrow> string \<Rightarrow> string \<Rightarrow> string \<Rightarrow> SubjectRef \<Rightarrow> string \<Rightarrow> string \<Rightarrow> gerr option" where
  "validateCommand U tenant i command actor reason request = first_error
     [ValidateSpaceRef U tenant i,
      ValidateID U command,
      ValidateSubject actor,
      fails (\<not> valid_utf8 reason \<or> \<not> valid_utf8 request) (invalid ''history text'')]"

definition ValidateCreate :: "uuid_lib \<Rightarrow> CreateCommand \<Rightarrow> gerr option" where
  "ValidateCreate U c = first_error
     [validateCommand U (cc_TenantID c) (cc_ID c) (cc_CommandID c) (cc_Actor c) (cc_Reason c) (cc_RequestID c),
      fails (cc_Kind c \<noteq> Personal \<and> cc_Kind c \<noteq> Team) (invalid ''space kind''),
      fails (SKind (cc_Actor c) \<noteq> User) (invalid ''initial user admin''),
      ValidateName (cc_Name c)]"

definition validateMemberAction :: "string \<Rightarrow> string \<Rightarrow> gerr option" where
  "validateMemberAction action role =
     (if action = RevokeMember then fails (role \<noteq> []) (invalid ''revoke role must be empty'')
      else if action = AddMember \<or> action = ChangeRole \<or> action = ReactivateMember then
        fails (role \<noteq> Viewer \<and> role \<noteq> Editor \<and> role \<noteq> Admin) (invalid ''member role'')
      else Some (invalid ''member action''))"

abbreviation MaxInt64 :: int where
  "MaxInt64 \<equiv> 9223372036854775807"

definition ValidateMemberCommand :: "uuid_lib \<Rightarrow> MemberCommand \<Rightarrow> gerr option" where
  "ValidateMemberCommand U c = first_error
     [validateCommand U (mc_TenantID c) (mc_SpaceID c) (mc_CommandID c) (mc_Actor c) (mc_Reason c) (mc_RequestID c),
      ValidateSubject (mc_Target c),
      fails (mc_ExpectedRevision c < 1 \<or> mc_ExpectedRevision c = MaxInt64) (invalid ''expected revision''),
      validateMemberAction (mc_Action c) (mc_Role c)]"

definition validateLimit :: "int \<Rightarrow> gerr option" where
  "validateLimit limit = fails (limit < 1 \<or> limit > 1000) (invalid ''page limit'')"

definition ValidateMemberPage :: "MemberPage \<Rightarrow> gerr option" where
  "ValidateMemberPage page = first_error
     [validateLimit (mp_Limit page),
      case mp_After page of None \<Rightarrow> None | Some s \<Rightarrow> ValidateSubject s]"

definition ValidateSpacePage :: "uuid_lib \<Rightarrow> SpacePage \<Rightarrow> gerr option" where
  "ValidateSpacePage U page = first_error
     [validateLimit (pg_Limit page),
      if pg_AfterID page \<noteq> [] then ValidateID U (pg_AfterID page) else None]"

definition ValidateHistoryPage :: "HistoryPage \<Rightarrow> gerr option" where
  "ValidateHistoryPage page = first_error
     [fails (hp_AfterRevision page < 0) (invalid ''history cursor''),
      validateLimit (hp_Limit page)]"

section \<open>Binding observations (\<open>binding.go\<close>)\<close>

definition ValidateBindingInput :: "string \<Rightarrow> string \<Rightarrow> gerr option" where
  "ValidateBindingInput tenant bucket = first_error
     [ValidateTenant tenant,
      ValidateIdentifier bucket,
      fails (bucket = ''*'') (invalid ''bucket wildcard'')]"

definition validateBoundResult :: "uuid_lib \<Rightarrow> BindingResult \<Rightarrow> gerr option" where
  "validateBoundResult U r = first_error
     [fails (\<not> br_TenantKnown r) (invalid ''bound with unknown tenant''),
      ValidateID U (br_SpaceID r),
      fails (br_Revision r \<le> 0) (invalid ''binding revision'')]"

definition ValidateBindingResult :: "uuid_lib \<Rightarrow> BindingResult \<Rightarrow> gerr option" where
  "ValidateBindingResult U r = first_error
     [ValidateBindingInput (br_TenantID r) (br_Bucket r),
      fails (\<not> br_TenantKnown r \<and> br_TenantStatus r \<noteq> []) (invalid ''unknown tenant with status''),
      if br_State r = BindingBound then validateBoundResult U r
      else if br_State r = BindingUnbound then
        fails (br_SpaceID r \<noteq> [] \<or> br_Revision r \<noteq> 0) (invalid ''unbound with Space facts'')
      else Some (invalid ''binding state'')]"

section \<open>Coverage observations (\<open>coverage.go\<close>)\<close>

definition ValidateCoverageScope :: "CoverageScope \<Rightarrow> gerr option" where
  "ValidateCoverageScope scope =
     (if cs_Kind scope = CoverageTenant then ValidateTenant (cs_TenantID scope)
      else if cs_Kind scope = CoverageGlobal then
        fails (cs_TenantID scope \<noteq> []) (invalid ''global coverage with tenant'')
      else Some (invalid ''coverage scope kind''))"

definition validateCoverageTenant :: "CoverageResult \<Rightarrow> gerr option" where
  "validateCoverageTenant r =
     (if cs_Kind (cr_Scope r) = CoverageGlobal then
        fails (cr_TenantKnown r \<or> cr_TenantStatus r \<noteq> []) (invalid ''global coverage with tenant facts'')
      else fails (\<not> cr_TenantKnown r \<and> cr_TenantStatus r \<noteq> [])
             (invalid ''unknown coverage tenant with status''))"

definition validateCoverageState :: "CoverageResult \<Rightarrow> gerr option" where
  "validateCoverageState r =
     (if cr_State r = CoverageBound then
        fails (cr_Witnesses r = []) (invalid ''bound coverage without witness'')
      else if cr_State r = CoverageUnbound then
        fails (\<not> cr_Complete r \<or> cr_Witnesses r \<noteq> []) (invalid ''unbound coverage without complete absence'')
      else if cr_State r = CoverageUnknown then
        fails (cr_Complete r \<or> cr_Witnesses r \<noteq> []) (invalid ''unknown coverage with definitive facts'')
      else Some (invalid ''coverage state''))"

definition validateCoverageWitness :: "uuid_lib \<Rightarrow> CoverageResult \<Rightarrow> BindingResult \<Rightarrow> gerr option" where
  "validateCoverageWitness U r w = first_error
     [ValidateBindingResult U w,
      fails (br_State w \<noteq> BindingBound) (invalid ''coverage witness is not bound''),
      fails (cs_Kind (cr_Scope r) = CoverageTenant \<and>
             (br_TenantID w \<noteq> cs_TenantID (cr_Scope r) \<or> br_TenantKnown w \<noteq> cr_TenantKnown r \<or>
              br_TenantStatus w \<noteq> cr_TenantStatus r))
        (invalid ''coverage witness tenant mismatch'')]"

text \<open>
  The loop over the witnesses with its three maps: the two \<open>map[[2]string]bool\<close> are the lists of
  the keys set to true, \<open>statuses\<close> is a map from tenant to the status last recorded.
\<close>

fun validateCoverageWitnesses_loop ::
  "uuid_lib \<Rightarrow> CoverageResult \<Rightarrow> (string \<times> string) list \<Rightarrow> (string \<times> string) list \<Rightarrow>
   (string \<rightharpoonup> string) \<Rightarrow> BindingResult list \<Rightarrow> gerr option" where
  "validateCoverageWitnesses_loop U r buckets spaces statuses [] = None"
| "validateCoverageWitnesses_loop U r buckets spaces statuses (w # ws) =
     (case validateCoverageWitness U r w of
        Some e \<Rightarrow> Some e
      | None \<Rightarrow>
          (let bucket = (br_TenantID w, br_Bucket w); space = (br_TenantID w, br_SpaceID w) in
           if bucket \<in> set buckets \<or> space \<in> set spaces then Some (invalid ''duplicate coverage witness'')
           else if statuses (br_TenantID w) \<noteq> None \<and> statuses (br_TenantID w) \<noteq> Some (br_TenantStatus w)
           then Some (invalid ''contradictory coverage tenant status'')
           else validateCoverageWitnesses_loop U r (bucket # buckets) (space # spaces)
                  (statuses(br_TenantID w \<mapsto> br_TenantStatus w)) ws))"

definition validateCoverageWitnesses :: "uuid_lib \<Rightarrow> CoverageResult \<Rightarrow> gerr option" where
  "validateCoverageWitnesses U r =
     validateCoverageWitnesses_loop U r [] [] Map.empty (cr_Witnesses r)"

definition ValidateCoverageResult :: "uuid_lib \<Rightarrow> CoverageResult \<Rightarrow> gerr option" where
  "ValidateCoverageResult U r = first_error
     [ValidateCoverageScope (cr_Scope r),
      validateCoverageTenant r,
      validateCoverageState r,
      validateCoverageWitnesses U r]"

definition ValidateCoverageObservation ::
  "uuid_lib \<Rightarrow> CoverageScope \<Rightarrow> CoverageResult \<Rightarrow> gerr option" where
  "ValidateCoverageObservation U scope r = first_error
     [ValidateCoverageScope scope,
      ValidateCoverageResult U r,
      fails (cr_Scope r \<noteq> scope) (invalid ''coverage scope echo'')]"

section \<open>What the validators accept\<close>

lemma ValidateIdentifier_ok:
  "ValidateIdentifier v = None \<longleftrightarrow> v \<noteq> [] \<and> trim_space v = v \<and> valid_utf8 v \<and> \<not> has_control v"
  by (auto simp: ValidateIdentifier_def)

lemma ValidateIdentifier_visible [simp]: "visible_ascii v \<Longrightarrow> v \<noteq> [] \<Longrightarrow> ValidateIdentifier v = None"
  by (simp add: ValidateIdentifier_ok visible_ascii_text)

lemma ValidateTenant_ok: "ValidateTenant t = None \<longleftrightarrow> t \<noteq> ''*'' \<and> ValidateIdentifier t = None"
  by (simp add: ValidateTenant_def)

lemma ValidateTenant_nonempty: "ValidateTenant t = None \<Longrightarrow> t \<noteq> []"
  by (auto simp: ValidateTenant_ok ValidateIdentifier_ok)

lemma ValidateSpaceRef_ok:
  "ValidateSpaceRef U t i = None \<longleftrightarrow> ValidateTenant t = None \<and> ValidateID U i = None"
  by (simp add: ValidateSpaceRef_def)

lemma ValidateBindingInput_ok:
  "ValidateBindingInput t b = None \<longleftrightarrow> ValidateTenant t = None \<and> ValidateIdentifier b = None \<and> b \<noteq> ''*''"
  by (auto simp: ValidateBindingInput_def)

lemma ValidateBindingResult_bound:
  assumes "br_State r = BindingBound"
  shows "ValidateBindingResult U r = None \<longleftrightarrow>
    ValidateBindingInput (br_TenantID r) (br_Bucket r) = None \<and> br_TenantKnown r \<and>
    ValidateID U (br_SpaceID r) = None \<and> br_Revision r > 0"
  using assms by (auto simp: ValidateBindingResult_def validateBoundResult_def)

lemma ValidateBindingResult_unbound:
  assumes "br_State r = BindingUnbound"
  shows "ValidateBindingResult U r = None \<longleftrightarrow>
    ValidateBindingInput (br_TenantID r) (br_Bucket r) = None \<and>
    (br_TenantKnown r \<or> br_TenantStatus r = []) \<and> br_SpaceID r = [] \<and> br_Revision r = 0"
  using assms by (auto simp: ValidateBindingResult_def)

abbreviation bucket_key :: "BindingResult \<Rightarrow> string \<times> string" where
  "bucket_key w \<equiv> (br_TenantID w, br_Bucket w)"

abbreviation space_key :: "BindingResult \<Rightarrow> string \<times> string" where
  "space_key w \<equiv> (br_TenantID w, br_SpaceID w)"

text \<open>The tenant status read off a list of witnesses is a function of the tenant.\<close>

definition statuses_agree :: "BindingResult list \<Rightarrow> bool" where
  "statuses_agree ws \<longleftrightarrow>
     list_all (\<lambda>v. list_all (\<lambda>w. br_TenantID v = br_TenantID w \<longrightarrow> br_TenantStatus v = br_TenantStatus w) ws) ws"

lemma statuses_agree_Cons:
  "statuses_agree (w # ws) \<longleftrightarrow> statuses_agree ws \<and>
     (\<forall>v \<in> set ws. br_TenantID v = br_TenantID w \<longrightarrow> br_TenantStatus v = br_TenantStatus w)"
  by (auto simp: statuses_agree_def list_all_iff)

lemma validateCoverageWitnesses_loop_iff:
  "validateCoverageWitnesses_loop U r bs ss st ws = None \<longleftrightarrow>
     list_all (\<lambda>w. validateCoverageWitness U r w = None) ws \<and>
     distinct (map bucket_key ws) \<and> bucket_key ` set ws \<inter> set bs = {} \<and>
     distinct (map space_key ws) \<and> space_key ` set ws \<inter> set ss = {} \<and>
     statuses_agree ws \<and>
     (\<forall>w \<in> set ws. st (br_TenantID w) = None \<or> st (br_TenantID w) = Some (br_TenantStatus w))"
proof (induction ws arbitrary: bs ss st)
  case Nil
  then show ?case by (simp add: statuses_agree_def)
next
  case (Cons w ws)
  show ?case
    by (cases "validateCoverageWitness U r w") (auto simp: Cons.IH statuses_agree_Cons Let_def)
qed

lemma validateCoverageWitnesses_iff:
  "validateCoverageWitnesses U r = None \<longleftrightarrow>
     list_all (\<lambda>w. validateCoverageWitness U r w = None) (cr_Witnesses r) \<and>
     distinct (map bucket_key (cr_Witnesses r)) \<and> distinct (map space_key (cr_Witnesses r)) \<and>
     statuses_agree (cr_Witnesses r)"
  by (simp add: validateCoverageWitnesses_def validateCoverageWitnesses_loop_iff)

lemma validateCoverageState_iff:
  "validateCoverageState r = None \<longleftrightarrow>
     (cr_State r, cr_Witnesses r \<noteq> []) \<in> {(CoverageBound, True), (CoverageUnbound, False), (CoverageUnknown, False)} \<and>
     (cr_State r = CoverageUnbound \<longrightarrow> cr_Complete r) \<and> (cr_State r = CoverageUnknown \<longrightarrow> \<not> cr_Complete r)"
  by (auto simp: validateCoverageState_def)

lemma coverage_observation_ok:
  "ValidateCoverageObservation U scope r = None \<longleftrightarrow>
     ValidateCoverageScope scope = None \<and> cr_Scope r = scope \<and>
     (cr_State r, cr_Witnesses r \<noteq> []) \<in> {(CoverageBound, True), (CoverageUnbound, False), (CoverageUnknown, False)} \<and>
     (cr_State r = CoverageUnbound \<longrightarrow> cr_Complete r) \<and> (cr_State r = CoverageUnknown \<longrightarrow> \<not> cr_Complete r) \<and>
     (cs_Kind scope = CoverageGlobal \<longrightarrow> \<not> cr_TenantKnown r) \<and> (\<not> cr_TenantKnown r \<longrightarrow> cr_TenantStatus r = []) \<and>
     (\<forall>w \<in> set (cr_Witnesses r).
        br_State w = BindingBound \<and> br_TenantKnown w \<and> br_Revision w > 0 \<and> ValidateID U (br_SpaceID w) = None \<and>
        ValidateBindingInput (br_TenantID w) (br_Bucket w) = None \<and>
        (cs_Kind scope = CoverageTenant \<longrightarrow>
           br_TenantID w = cs_TenantID scope \<and> cr_TenantKnown r \<and> br_TenantStatus w = cr_TenantStatus r)) \<and>
     distinct (map bucket_key (cr_Witnesses r)) \<and> distinct (map space_key (cr_Witnesses r)) \<and>
     statuses_agree (cr_Witnesses r)"
proof -
  have witness: "validateCoverageWitness U r w = None \<longleftrightarrow>
      br_State w = BindingBound \<and> br_TenantKnown w \<and> br_Revision w > 0 \<and> ValidateID U (br_SpaceID w) = None \<and>
      ValidateBindingInput (br_TenantID w) (br_Bucket w) = None \<and>
      (cs_Kind (cr_Scope r) = CoverageTenant \<longrightarrow>
         br_TenantID w = cs_TenantID (cr_Scope r) \<and> cr_TenantKnown r \<and> br_TenantStatus w = cr_TenantStatus r)" for w
    by (cases "br_State w = BindingBound")
      (auto simp: validateCoverageWitness_def ValidateBindingResult_bound)
  show ?thesis
    unfolding ValidateCoverageObservation_def ValidateCoverageResult_def first_error_None first_error.simps(1)
      fails_None validateCoverageWitnesses_iff validateCoverageState_iff list_all_iff witness
    by (auto simp: validateCoverageTenant_def)
qed

text \<open>A coverage observation is accepted exactly when it echoes a valid requested scope, its state is
  bound with at least one witness, unbound with none and a complete observation, or unknown with none
  and an incomplete one, its tenant facts fit the scope, and its witnesses are individually valid
  positive bindings of the scope, pairwise different as buckets and as Spaces, with one status per
  tenant.\<close>

lemma ValidateCoverageObservation_iff:
  "ValidateCoverageObservation U scope r = None \<longleftrightarrow>
     ValidateCoverageScope scope = None \<and> cr_Scope r = scope \<and>
     (cr_State r, cr_Witnesses r \<noteq> []) \<in> {(CoverageBound, True), (CoverageUnbound, False), (CoverageUnknown, False)} \<and>
     (cr_State r = CoverageUnbound \<longrightarrow> cr_Complete r) \<and> (cr_State r = CoverageUnknown \<longrightarrow> \<not> cr_Complete r) \<and>
     (cs_Kind scope = CoverageGlobal \<longrightarrow> \<not> cr_TenantKnown r) \<and> (\<not> cr_TenantKnown r \<longrightarrow> cr_TenantStatus r = []) \<and>
     (\<forall>w \<in> set (cr_Witnesses r).
        br_State w = BindingBound \<and> br_TenantKnown w \<and> br_Revision w > 0 \<and> ValidateID U (br_SpaceID w) = None \<and>
        ValidateBindingInput (br_TenantID w) (br_Bucket w) = None \<and>
        (cs_Kind scope = CoverageTenant \<longrightarrow>
           br_TenantID w = cs_TenantID scope \<and> cr_TenantKnown r \<and> br_TenantStatus w = cr_TenantStatus r)) \<and>
     distinct (map bucket_key (cr_Witnesses r)) \<and> distinct (map space_key (cr_Witnesses r)) \<and>
     statuses_agree (cr_Witnesses r)"
  by (rule coverage_observation_ok)

definition demo_uuid :: uuid_lib where
  "demo_uuid = \<lparr>uuid_parse = (\<lambda>s. if s = ''u1'' then Some 1 else if s = ''u2'' then Some 2 else None),
                uuid_string = (\<lambda>n. if n = 1 then ''u1'' else ''u2'')\<rparr>"

definition demo_coverage :: CoverageResult where
  "demo_coverage = \<lparr>cr_Scope = \<lparr>cs_Kind = CoverageTenant, cs_TenantID = ''t''\<rparr>, cr_TenantKnown = True,
     cr_TenantStatus = Active, cr_State = CoverageBound, cr_Complete = True,
     cr_Witnesses =
       [\<lparr>br_TenantID = ''t'', br_Bucket = ''a'', br_TenantKnown = True, br_TenantStatus = Active,
         br_State = BindingBound, br_SpaceID = ''u1'', br_Revision = 3\<rparr>,
        \<lparr>br_TenantID = ''t'', br_Bucket = ''b'', br_TenantKnown = True, br_TenantStatus = Active,
         br_State = BindingBound, br_SpaceID = ''u2'', br_Revision = 1\<rparr>]\<rparr>"

lemma demo_coverage_valid:
  "ValidateCoverageObservation demo_uuid (cr_Scope demo_coverage) demo_coverage = None"
  by (simp add: demo_coverage_def demo_uuid_def ValidateCoverageObservation_def ValidateCoverageResult_def
      ValidateCoverageScope_def ValidateTenant_def validateCoverageTenant_def validateCoverageState_def
      validateCoverageWitnesses_def validateCoverageWitness_def ValidateBindingResult_def
      ValidateBindingInput_def validateBoundResult_def ValidateID_def visible_ascii_def byte_def Let_def)

theorem ValidateCoverageObservation_iff_witness:
  "ValidateCoverageObservation demo_uuid (cr_Scope demo_coverage) demo_coverage = None \<and>
   distinct (map space_key (cr_Witnesses demo_coverage))"
  using ValidateCoverageObservation_iff [of demo_uuid "cr_Scope demo_coverage" demo_coverage]
    demo_coverage_valid by blast

end
