(* ===== verification/SQL_Model.thy ===== *)
theory SQL_Model
  imports AV_Prelude
begin

text \<open>
  What the repository layer (\<open>internal/repository/sql.go\<close> and the \<open>database/sql\<close> calls of its
  clients) sees of the database.  A table is the list of its rows.  The environment of one store
  call says which dialect runs and which statement the driver fails: \<open>fault l = Some e\<close> makes the
  statement labelled \<open>l\<close> return \<open>e\<close>.  A failed \<open>Commit\<close> may or may not have been applied, so
  \<open>commit_fault\<close> carries both the error and the outcome.  Transactions are atomic: a function on
  the database value is run on the transaction's snapshot and its result replaces the database at
  \<open>Commit\<close>; on every other return the deferred \<open>Rollback\<close> leaves the database as it was.
\<close>

datatype dialect = dialectSQLite | dialectPostgres

record sql_env =
  dialect_of :: dialect
  fault :: "string \<Rightarrow> gerr option"
  commit_fault :: "(gerr \<times> bool) option"

definition no_faults :: "dialect \<Rightarrow> sql_env" where
  "no_faults d = \<lparr>dialect_of = d, fault = (\<lambda>_. None), commit_fault = None\<rparr>"

definition fault_free :: "sql_env \<Rightarrow> bool" where
  "fault_free env \<longleftrightarrow> (\<forall>l. fault env l = None) \<and> commit_fault env = None"

text \<open>A statement: the driver's failure, or what the statement does.\<close>

definition stmt :: "sql_env \<Rightarrow> string \<Rightarrow> 'a res \<Rightarrow> 'a res" where
  "stmt env l body = (case fault env l of Some e \<Rightarrow> Inl e | None \<Rightarrow> body)"

text \<open>
  Constraint failures as the two drivers report them: SQLite's extended result codes
  (\<open>SQLITE_CONSTRAINT_PRIMARYKEY\<close> 1555, \<open>_UNIQUE\<close> 2067, \<open>_FOREIGNKEY\<close> 787, \<open>_CHECK\<close> 275) and
  PostgreSQL's SQLSTATE with the constraint name.
\<close>

definition pkey_violation :: "sql_env \<Rightarrow> string \<Rightarrow> gerr" where
  "pkey_violation env c =
     (case dialect_of env of dialectSQLite \<Rightarrow> SqliteError 1555 | dialectPostgres \<Rightarrow> PgError ''23505'' c)"

definition unique_violation :: "sql_env \<Rightarrow> string \<Rightarrow> gerr" where
  "unique_violation env c =
     (case dialect_of env of dialectSQLite \<Rightarrow> SqliteError 2067 | dialectPostgres \<Rightarrow> PgError ''23505'' c)"

definition fkey_violation :: "sql_env \<Rightarrow> string \<Rightarrow> gerr" where
  "fkey_violation env c =
     (case dialect_of env of dialectSQLite \<Rightarrow> SqliteError 787 | dialectPostgres \<Rightarrow> PgError ''23503'' c)"

definition check_violation :: "sql_env \<Rightarrow> string \<Rightarrow> gerr" where
  "check_violation env c =
     (case dialect_of env of dialectSQLite \<Rightarrow> SqliteError 275 | dialectPostgres \<Rightarrow> PgError ''23514'' c)"

text \<open>\<open>tx.Commit()\<close>: the database afterwards and the error.\<close>

definition tx_commit :: "sql_env \<Rightarrow> 'db \<Rightarrow> 'db \<Rightarrow> 'db \<times> gerr option" where
  "tx_commit env before after =
     (case commit_fault env of
        None \<Rightarrow> (after, None)
      | Some (e, applied) \<Rightarrow> (if applied then after else before, Some e))"

text \<open>\<open>BeginTx\<close>, the body, \<open>Commit\<close> or the deferred \<open>Rollback\<close>.\<close>

definition in_tx :: "sql_env \<Rightarrow> 'db \<Rightarrow> 'db res \<Rightarrow> 'db \<times> gerr option" where
  "in_tx env db body =
     (case fault env ''begin'' of
        Some e \<Rightarrow> (db, Some e)
      | None \<Rightarrow> (case body of Inl e \<Rightarrow> (db, Some e) | Inr db' \<Rightarrow> tx_commit env db db'))"

text \<open>The same for a transaction that also yields a value, which the caller gets after \<open>Commit\<close>.\<close>

definition in_tx_val :: "sql_env \<Rightarrow> 'db \<Rightarrow> ('db \<times> 'a) res \<Rightarrow> 'db \<times> 'a res" where
  "in_tx_val env db body =
     (case fault env ''begin'' of
        Some e \<Rightarrow> (db, Inl e)
      | None \<Rightarrow> (case body of
          Inl e \<Rightarrow> (db, Inl e)
        | Inr (db', x) \<Rightarrow>
            (case tx_commit env db db' of (db'', None) \<Rightarrow> (db'', Inr x) | (db'', Some e) \<Rightarrow> (db'', Inl e))))"

text \<open>\<open>n, _ := res.RowsAffected()\<close>: a driver that cannot tell counts as zero.\<close>

definition affected :: "sql_env \<Rightarrow> 'r list \<Rightarrow> nat" where
  "affected env rows = (if fault env ''rows affected'' = None then length rows else 0)"

text \<open>\<open>QueryRow(...).Scan(...)\<close>: the first row, or \<open>sql.ErrNoRows\<close>.\<close>

definition query_row :: "sql_env \<Rightarrow> string \<Rightarrow> 'r list \<Rightarrow> 'r res" where
  "query_row env l rows =
     stmt env l (case rows of [] \<Rightarrow> Inl (Sentinel ErrNoRows) | r # _ \<Rightarrow> Inr r)"

text \<open>\<open>LIMIT n\<close> of a Go \<open>int\<close> that the callers have checked to be positive.\<close>

definition limit_rows :: "int \<Rightarrow> 'r list \<Rightarrow> 'r list" where
  "limit_rows n rows = take (nat n) rows"

section \<open>Placeholders (\<open>sql.go\<close>)\<close>

definition is_digit :: "char \<Rightarrow> bool" where
  "is_digit c \<longleftrightarrow> 48 \<le> byte c \<and> byte c \<le> 57"

function rebind_sqlite :: "string \<Rightarrow> string" where
  "rebind_sqlite [] = []"
| "rebind_sqlite (c # q) =
     (if c \<noteq> CHR ''$'' then c # rebind_sqlite q
      else (case q of
              d # q' \<Rightarrow> if is_digit d then CHR ''?'' # rebind_sqlite (dropWhile is_digit q')
                         else c # rebind_sqlite q
            | [] \<Rightarrow> c # rebind_sqlite q))"
  by pat_completeness auto
termination
  by (relation "measure length") (auto simp: less_Suc_eq_le intro: le_SucI length_dropWhile_le)

definition rebind :: "dialect \<Rightarrow> string \<Rightarrow> string" where
  "rebind d q = (case d of dialectPostgres \<Rightarrow> q | dialectSQLite \<Rightarrow> rebind_sqlite q)"

text \<open>The numbers of the placeholders \<open>$N\<close> of a query, in the order of their occurrence.\<close>

function placeholders :: "string \<Rightarrow> string list" where
  "placeholders [] = []"
| "placeholders (c # q) =
     (case q of
        d # q' \<Rightarrow>
          if c = CHR ''$'' \<and> is_digit d
          then (d # takeWhile is_digit q') # placeholders (dropWhile is_digit q')
          else placeholders q
      | [] \<Rightarrow> placeholders q)"
  by pat_completeness auto
termination
  by (relation "measure length") (auto simp: less_Suc_eq_le intro: le_SucI length_dropWhile_le)

section \<open>Lemmas\<close>

lemma fault_free_stmt [simp]: "fault_free env \<Longrightarrow> stmt env l body = body"
  by (simp add: fault_free_def stmt_def)

lemma fault_free_commit [simp]: "fault_free env \<Longrightarrow> tx_commit env a b = (b, None)"
  by (simp add: fault_free_def tx_commit_def)

lemma fault_free_no_faults [simp]: "fault_free (no_faults d)"
  by (simp add: fault_free_def no_faults_def)

lemma dialect_no_faults [simp]: "dialect_of (no_faults d) = d"
  by (simp add: no_faults_def)

lemma stmt_Inr [go_simps]: "stmt env l body = Inr x \<longleftrightarrow> fault env l = None \<and> body = Inr x"
  by (auto simp: stmt_def split: option.splits)

lemma query_row_Inr [go_simps]:
  "query_row env l rows = Inr r \<longleftrightarrow> fault env l = None \<and> (\<exists>rs. rows = r # rs)"
  by (auto simp: query_row_def stmt_def split: option.splits list.splits)

lemma tx_commit_cases:
  "tx_commit env a b = (db, err) \<Longrightarrow> db = a \<or> db = b"
  by (auto simp: tx_commit_def split: option.splits prod.splits if_splits)

lemma tx_commit_ok: "tx_commit env a b = (db, None) \<Longrightarrow> db = b"
  by (auto simp: tx_commit_def split: option.splits prod.splits)

lemma in_tx_cases:
  assumes "in_tx env db body = (db', err)"
  shows "db' = db \<or> body = Inr db'" and "err = None \<Longrightarrow> body = Inr db'"
  using assms by (auto simp: in_tx_def tx_commit_def split: option.splits sum.splits if_splits)

lemma in_tx_val_cases:
  assumes "in_tx_val env db body = (db', res)"
  shows "db' = db \<or> (\<exists>x. body = Inr (db', x))" and "res = Inr y \<Longrightarrow> body = Inr (db', y)"
  using assms by (auto simp: in_tx_val_def tx_commit_def split: option.splits sum.splits prod.splits if_splits)

lemma in_tx_atomic:
  assumes "in_tx env db body = (db', err)" and "\<And>x. body = Inr x \<Longrightarrow> P x"
  shows "(err = None \<longrightarrow> P db') \<and> (db' = db \<or> P db')"
  using in_tx_cases [OF assms(1)] assms(2) by blast

lemma affected_pos: "affected env (filter p rows) \<noteq> 0 \<Longrightarrow> \<exists>r \<in> set rows. p r"
  by (auto simp: affected_def filter_empty_conv split: if_splits)

lemma not_digit_question [simp]: "\<not> is_digit CHR ''?''"
  by (simp add: is_digit_def byte_def)

lemma count_dropWhile_digits: "count_list (dropWhile is_digit s) CHR ''?'' = count_list s CHR ''?''"
  by (induction s) auto

lemma rebind_sqlite_count:
  "count_list (rebind_sqlite q) CHR ''?'' = count_list q CHR ''?'' + length (placeholders q)"
proof (induction q rule: placeholders.induct)
  case (2 c q)
  show ?case
  proof (cases q)
    case (Cons d q')
    show ?thesis
    proof (cases "c = CHR ''$'' \<and> is_digit d")
      case True
      then have "d \<noteq> CHR ''?''" by auto
      with True 2(2) [OF Cons True] Cons show ?thesis
        by (simp add: count_dropWhile_digits)
    next
      case False
      with 2(3) [OF Cons False] Cons show ?thesis
        by (cases "d = CHR ''?''") (auto simp del: placeholders.simps rebind_sqlite.simps
            simp add: placeholders.simps(2) [of c] rebind_sqlite.simps(2) [of c])
    qed
  qed simp
qed simp

lemma rebind_sqlite_no_dollar_digit: "placeholders q = [] \<Longrightarrow> rebind_sqlite q = q"
proof (induction q rule: placeholders.induct)
  case (2 c q)
  then show ?case
    by (cases q) (auto simp del: placeholders.simps rebind_sqlite.simps
        simp add: placeholders.simps(2) [of c] rebind_sqlite.simps(2) [of c] split: if_splits)
qed simp

text \<open>\<open>sql_helpers.go\<close>: the tenant a row belongs to when the caller names none.\<close>

definition defaultTenant :: "string \<Rightarrow> string" where
  "defaultTenant t = (if t = [] then ''default'' else t)"

end
