(* ===== verification/Spaces_Store.thy ===== *)
theory Spaces_Store
  imports Spaces SQL_Model
begin

text \<open>
  The relational Space store: \<open>internal/repository/sql_spaces*.go\<close> over the tables of migration
  \<open>0048_spaces_foundation\<close>.  Rows keep the columns of the schema (nullable columns are options,
  instants are Unix nanoseconds), with a subject's three columns as one \<^typ>\<open>SubjectRef\<close>.  Every
  store method takes the environment of its statements, the caller's context, and the database, and
  write methods return the new database; \<open>time.Now()\<close> and \<open>uuid.NewRandom()\<close> are arguments.
\<close>

section \<open>Tables\<close>

datatype bucket_time = TextTime "int \<times> string" | StampTime instant

record bucket_row =
  b_tenant_id :: string
  b_name :: string
  b_created_at :: bucket_time

record space_row =
  s_tenant_id :: string
  s_id :: string
  s_kind :: string
  s_name :: string
  s_backing_bucket :: string
  s_personal_source :: "string option"
  s_personal_kind :: "string option"
  s_personal_subject_id :: "string option"
  s_revision :: int
  s_created_by :: SubjectRef
  s_updated_by :: SubjectRef
  s_created_at_ns :: int
  s_updated_at_ns :: int

record member_row =
  sm_tenant_id :: string
  sm_space_id :: string
  sm_subject :: SubjectRef
  sm_role :: string
  sm_state :: string
  sm_changed_revision :: int
  sm_changed_by :: SubjectRef
  sm_joined_at_ns :: int
  sm_updated_at_ns :: int
  sm_revoked_at_ns :: "int option"

record history_row =
  sh_tenant_id :: string
  sh_id :: string
  sh_space_id :: string
  sh_command_id :: string
  sh_command_type :: string
  sh_actor :: SubjectRef
  sh_target :: SubjectRef
  sh_before_revision :: int
  sh_after_revision :: int
  sh_before_role :: "string option"
  sh_after_role :: string
  sh_before_state :: "string option"
  sh_after_state :: string
  sh_reason :: string
  sh_request_id :: string
  sh_occurred_at_ns :: int

record spaces_db =
  tenants :: "(string \<times> string) list"
  buckets :: "bucket_row list"
  spaces :: "space_row list"
  space_members :: "member_row list"
  space_history :: "history_row list"

text \<open>\<open>t.UnixNano()\<close> and \<open>time.Unix(0, n)\<close>; 62135596800 seconds separate Go's zero time and the Unix epoch.\<close>

definition unix_epoch :: instant where
  "unix_epoch = 62135596800 * nanos_per_second"

definition unix_nano :: "instant \<Rightarrow> int" where
  "unix_nano t = t - unix_epoch"

definition time_unix :: "int \<Rightarrow> instant" where
  "time_unix n = n + unix_epoch"

lemma time_unix_nano [simp]: "time_unix (unix_nano t) = t"
  by (simp add: time_unix_def unix_nano_def)

section \<open>Constraints of the schema\<close>

definition subject_cols_ok :: "SubjectRef \<Rightarrow> bool" where
  "subject_cols_ok s \<longleftrightarrow> Source s \<noteq> [] \<and> (SKind s = User \<or> SKind s = Service) \<and> SID s \<noteq> []"

definition role_ok :: "string \<Rightarrow> bool" where
  "role_ok r \<longleftrightarrow> r = Viewer \<or> r = Editor \<or> r = Admin"

definition state_ok :: "string \<Rightarrow> bool" where
  "state_ok s \<longleftrightarrow> s = Active \<or> s = Revoked"

definition space_row_check :: "space_row \<Rightarrow> bool" where
  "space_row_check r \<longleftrightarrow>
     s_tenant_id r \<noteq> [] \<and> s_tenant_id r \<noteq> ''*'' \<and> s_id r \<noteq> [] \<and> s_name r \<noteq> [] \<and> s_backing_bucket r \<noteq> [] \<and>
     s_revision r \<ge> 1 \<and> subject_cols_ok (s_created_by r) \<and> subject_cols_ok (s_updated_by r) \<and>
     s_created_at_ns r > 0 \<and> s_updated_at_ns r > 0 \<and>
     ((s_kind r = Personal \<and> s_personal_kind r = Some User \<and>
         s_personal_source r \<noteq> None \<and> s_personal_source r \<noteq> Some [] \<and>
         s_personal_subject_id r \<noteq> None \<and> s_personal_subject_id r \<noteq> Some []) \<or>
      (s_kind r = Team \<and> s_personal_source r = None \<and> s_personal_kind r = None \<and> s_personal_subject_id r = None))"

definition member_row_check :: "member_row \<Rightarrow> bool" where
  "member_row_check r \<longleftrightarrow>
     subject_cols_ok (sm_subject r) \<and> role_ok (sm_role r) \<and> state_ok (sm_state r) \<and> sm_changed_revision r \<ge> 1 \<and>
     subject_cols_ok (sm_changed_by r) \<and> sm_joined_at_ns r > 0 \<and> sm_updated_at_ns r > 0 \<and>
     (case sm_revoked_at_ns r of None \<Rightarrow> sm_state r = Active | Some t \<Rightarrow> t > 0 \<and> sm_state r = Revoked)"

definition history_row_check :: "history_row \<Rightarrow> bool" where
  "history_row_check r \<longleftrightarrow>
     sh_id r \<noteq> [] \<and> sh_command_id r \<noteq> [] \<and> subject_cols_ok (sh_actor r) \<and> subject_cols_ok (sh_target r) \<and>
     sh_before_revision r \<ge> 0 \<and> sh_after_revision r > 0 \<and> role_ok (sh_after_role r) \<and> state_ok (sh_after_state r) \<and>
     pred_option role_ok (sh_before_role r) \<and> pred_option state_ok (sh_before_state r) \<and> sh_occurred_at_ns r > 0 \<and>
     sh_after_revision r = sh_before_revision r + 1 \<and>
     (if sh_command_type r = ''create'' then sh_before_revision r = 0 else sh_before_revision r \<ge> 1) \<and>
     ((sh_command_type r \<in> {''create'', AddMember} \<and> sh_before_role r = None \<and> sh_before_state r = None \<and>
         sh_after_state r = Active) \<or>
      (sh_command_type r = ChangeRole \<and> sh_before_role r \<noteq> None \<and> sh_before_state r = Some Active \<and>
         sh_after_state r = Active \<and> sh_before_role r \<noteq> Some (sh_after_role r)) \<or>
      (sh_command_type r = RevokeMember \<and> sh_before_role r = Some (sh_after_role r) \<and>
         sh_before_state r = Some Active \<and> sh_after_state r = Revoked) \<or>
      (sh_command_type r = ReactivateMember \<and> sh_before_role r \<noteq> None \<and> sh_before_state r = Some Revoked \<and>
         sh_after_state r = Active))"

section \<open>Scanning rows (\<open>sql_spaces.go\<close>)\<close>

definition scanSpace :: "space_row \<Rightarrow> Space" where
  "scanSpace r =
     \<lparr>sp_TenantID = s_tenant_id r, sp_ID = s_id r, sp_Kind = s_kind r, sp_Name = s_name r,
      sp_BackingBucket = s_backing_bucket r,
      sp_PersonalSubject =
        (case s_personal_source r of
           None \<Rightarrow> None
         | Some src \<Rightarrow> Some \<lparr>Source = src, SKind = (case s_personal_kind r of None \<Rightarrow> [] | Some k \<Rightarrow> k),
                             SID = (case s_personal_subject_id r of None \<Rightarrow> [] | Some i \<Rightarrow> i)\<rparr>),
      sp_Revision = s_revision r, sp_CreatedBy = s_created_by r, sp_UpdatedBy = s_updated_by r,
      sp_CreatedAt = time_unix (s_created_at_ns r), sp_UpdatedAt = time_unix (s_updated_at_ns r)\<rparr>"

definition scanSpaceMember :: "member_row \<Rightarrow> Member" where
  "scanSpaceMember r =
     \<lparr>m_TenantID = sm_tenant_id r, m_SpaceID = sm_space_id r, m_Subject = sm_subject r, m_Role = sm_role r,
      m_State = sm_state r, m_ChangedRevision = sm_changed_revision r, m_ChangedBy = sm_changed_by r,
      m_JoinedAt = time_unix (sm_joined_at_ns r), m_UpdatedAt = time_unix (sm_updated_at_ns r),
      m_RevokedAt = map_option time_unix (sm_revoked_at_ns r)\<rparr>"

definition scanSpaceHistory :: "history_row \<Rightarrow> History" where
  "scanSpaceHistory r =
     \<lparr>h_TenantID = sh_tenant_id r, h_ID = sh_id r, h_SpaceID = sh_space_id r, h_CommandID = sh_command_id r,
      h_CommandType = sh_command_type r, h_Actor = sh_actor r, h_Target = sh_target r,
      h_BeforeRevision = sh_before_revision r, h_AfterRevision = sh_after_revision r,
      h_BeforeRole = (case sh_before_role r of None \<Rightarrow> [] | Some x \<Rightarrow> x), h_AfterRole = sh_after_role r,
      h_BeforeState = (case sh_before_state r of None \<Rightarrow> [] | Some x \<Rightarrow> x), h_AfterState = sh_after_state r,
      h_Reason = sh_reason r, h_RequestID = sh_request_id r, h_OccurredAt = time_unix (sh_occurred_at_ns r)\<rparr>"

text \<open>Iterating \<open>sql.Rows\<close>: the driver may fail the query, the iteration (\<open>rows.Err\<close>) or the close.\<close>

definition collectSpaceRows :: "sql_env \<Rightarrow> ('r \<Rightarrow> 'a) \<Rightarrow> 'r list \<Rightarrow> 'a list res" where
  "collectSpaceRows env scan rows =
     stmt env ''rows.Scan'' (stmt env ''rows.Err'' (stmt env ''rows.Close'' (Inr (map scan rows))))"

section \<open>Error classification (\<open>sql_spaces_errors.go\<close>)\<close>

definition spaceDomainError :: "gerr \<Rightarrow> bool" where
  "spaceDomainError err \<longleftrightarrow> list_ex (errors_is err)
     [SpacesInvalidArgument, SpacesNotFound, SpacesTenantUnavailable, SpacesConflict, SpacesMemberExists,
      SpacesMemberRevoked, SpacesLastAdmin, SpacesConcurrent, SpacesPersistence]"

definition classifySpaceSQLite :: "nat \<Rightarrow> sentinel" where
  "classifySpaceSQLite code =
     (if code = 2067 \<or> code = 1555 then SpacesConflict
      else if code mod 256 = 5 \<or> code mod 256 = 6 then SpacesConcurrent
      else SpacesPersistence)"

definition spaceUniqueConstraint :: "string \<Rightarrow> bool" where
  "spaceUniqueConstraint nm \<longleftrightarrow> nm \<in> set
     [''buckets_pkey'', ''spaces_pkey'', ''spaces_bucket_uq'', ''spaces_personal_subject_uq'',
      ''space_members_pkey'', ''space_history_pkey'', ''space_history_command_uq'', ''space_history_revision_uq'']"

definition classifySpacePostgres :: "string \<Rightarrow> string \<Rightarrow> sentinel" where
  "classifySpacePostgres code cname =
     (if code \<in> set [''40001'', ''40P01'', ''55P03''] then SpacesConcurrent
      else if code = ''23505'' \<and> spaceUniqueConstraint cname then SpacesConflict
      else SpacesPersistence)"

definition classifySpaceSQL :: "gerr \<Rightarrow> sentinel" where
  "classifySpaceSQL err =
     (if errors_is err ErrNoRows then SpacesNotFound
      else (case sqlite_codes err of
              c # _ \<Rightarrow> classifySpaceSQLite c
            | [] \<Rightarrow> (case pg_codes err of
                       (c, n) # _ \<Rightarrow> classifySpacePostgres c n
                     | [] \<Rightarrow> SpacesPersistence)))"

definition spaceSQLError :: "ctx_state \<Rightarrow> string \<Rightarrow> gerr \<Rightarrow> gerr" where
  "spaceSQLError ctx op err =
     (if spaceDomainError err then err
      else (case ctx_err_after ctx of
              Some c \<Rightarrow> Errorf op [Sentinel SpacesPersistence, Join [err, c]]
            | None \<Rightarrow>
                Errorf op
                  [Sentinel (if \<not> errors_is err CtxCanceled \<and> \<not> errors_is err CtxDeadlineExceeded
                             then classifySpaceSQL err else SpacesPersistence), err]))"

section \<open>Statements inside a transaction (\<open>sql_spaces_tx.go\<close>)\<close>

definition spaceTenant :: "sql_env \<Rightarrow> spaces_db \<Rightarrow> string \<Rightarrow> gerr option" where
  "spaceTenant env db tenant =
     (case query_row env ''tenant status'' (map snd (filter (\<lambda>r. fst r = tenant) (tenants db))) of
        Inl e \<Rightarrow> Some (if errors_is e ErrNoRows then Sentinel SpacesTenantUnavailable else e)
      | Inr status \<Rightarrow> fails (status \<noteq> Active) (Sentinel SpacesTenantUnavailable))"

definition spaceRoot :: "sql_env \<Rightarrow> spaces_db \<Rightarrow> string \<Rightarrow> string \<Rightarrow> Space res" where
  "spaceRoot env db tenant i =
     query_row env ''space root'' (map scanSpace (filter (\<lambda>r. s_tenant_id r = tenant \<and> s_id r = i) (spaces db)))"

text \<open>\<open>spaceRead\<close>: tenant check and read in one transaction, whose commit may fail too.\<close>

definition spaceRead ::
  "sql_env \<Rightarrow> ctx_state \<Rightarrow> spaces_db \<Rightarrow> string \<Rightarrow> (spaces_db \<Rightarrow> 'a res) \<Rightarrow> 'a res" where
  "spaceRead env ctx db tenant read =
     rbind (wrap_err (spaceSQLError ctx ''begin read'') (stmt env ''begin'' (Inr ()))) (\<lambda>_.
     rbind (wrap_err (spaceSQLError ctx ''read tenant'') (ok_or (spaceTenant env db tenant) ())) (\<lambda>_.
     rbind (wrap_err (spaceSQLError ctx ''read'') (read db)) (\<lambda>v.
     wrap_err (spaceSQLError ctx ''commit read'') (ok_or (snd (tx_commit env db db)) v))))"

definition cas_match :: "MemberCommand \<Rightarrow> space_row \<Rightarrow> bool" where
  "cas_match c r \<longleftrightarrow>
     s_tenant_id r = mc_TenantID c \<and> s_id r = mc_SpaceID c \<and> s_revision r = mc_ExpectedRevision c"

definition cas_row :: "MemberCommand \<Rightarrow> instant \<Rightarrow> space_row \<Rightarrow> space_row" where
  "cas_row c now r =
     (if cas_match c r
      then r\<lparr>s_revision := s_revision r + 1, s_updated_by := mc_Actor c, s_updated_at_ns := unix_nano now\<rparr>
      else r)"

text \<open>The UPDATE of \<open>spaceCAS\<close>, with the CHECK constraints on the rows it writes.\<close>

definition cas_update :: "sql_env \<Rightarrow> spaces_db \<Rightarrow> MemberCommand \<Rightarrow> instant \<Rightarrow> (spaces_db \<times> nat) res" where
  "cas_update env db c now =
     stmt env ''space CAS''
       (if list_all space_row_check (map (cas_row c now) (filter (cas_match c) (spaces db)))
        then Inr (db\<lparr>spaces := map (cas_row c now) (spaces db)\<rparr>, length (filter (cas_match c) (spaces db)))
        else Inl (check_violation env ''spaces_check''))"

definition spaceCAS :: "sql_env \<Rightarrow> spaces_db \<Rightarrow> MemberCommand \<Rightarrow> instant \<Rightarrow> spaces_db res" where
  "spaceCAS env db c now =
     rbind (cas_update env db c now) (\<lambda>(db', n).
     rbind (stmt env ''CAS rows affected'' (Inr ())) (\<lambda>_.
     rbind (ok_or (spaceTenant env db' (mc_TenantID c)) ()) (\<lambda>_.
       if n = 1 then Inr db'
       else if n \<noteq> 0 then Inl (NewError ''unexpected Space CAS row count'')
       else rbind (spaceRoot env db' (mc_TenantID c) (mc_SpaceID c)) (\<lambda>_. Inl (Sentinel SpacesConflict)))))"

text \<open>\<open>spaceOneRow\<close> on the outcome of a write: the database with the number of rows it touched.\<close>

definition spaceOneRow :: "sql_env \<Rightarrow> (spaces_db \<times> nat) res \<Rightarrow> spaces_db res" where
  "spaceOneRow env res =
     rbind res (\<lambda>(db, n).
     rbind (stmt env ''rows affected'' (Inr ())) (\<lambda>_.
       if n \<noteq> 1 then Inl (NewError ''unexpected Space write row count'') else Inr db))"

section \<open>Inserts and updates\<close>

definition insert_bucket :: "sql_env \<Rightarrow> spaces_db \<Rightarrow> bucket_row \<Rightarrow> (spaces_db \<times> nat) res" where
  "insert_bucket env db r =
     stmt env ''insert bucket''
       (if list_ex (\<lambda>b. b_tenant_id b = b_tenant_id r \<and> b_name b = b_name r) (buckets db)
        then Inl (pkey_violation env ''buckets_pkey'')
        else Inr (db\<lparr>buckets := buckets db @ [r]\<rparr>, 1))"

definition same_personal :: "space_row \<Rightarrow> space_row \<Rightarrow> bool" where
  "same_personal a b \<longleftrightarrow>
     s_kind a = Personal \<and> s_kind b = Personal \<and> s_tenant_id a = s_tenant_id b \<and>
     s_personal_source a = s_personal_source b \<and> s_personal_kind a = s_personal_kind b \<and>
     s_personal_subject_id a = s_personal_subject_id b"

definition insert_space :: "sql_env \<Rightarrow> spaces_db \<Rightarrow> space_row \<Rightarrow> (spaces_db \<times> nat) res" where
  "insert_space env db r =
     stmt env ''insert space''
       (if \<not> space_row_check r then Inl (check_violation env ''spaces_check'')
        else if list_ex (\<lambda>x. s_tenant_id x = s_tenant_id r \<and> s_id x = s_id r) (spaces db)
        then Inl (pkey_violation env ''spaces_pkey'')
        else if list_ex (\<lambda>x. s_tenant_id x = s_tenant_id r \<and> s_backing_bucket x = s_backing_bucket r) (spaces db)
        then Inl (unique_violation env ''spaces_bucket_uq'')
        else if list_ex (same_personal r) (spaces db)
        then Inl (unique_violation env ''spaces_personal_subject_uq'')
        else if \<not> list_ex (\<lambda>t. fst t = s_tenant_id r) (tenants db) \<or>
                \<not> list_ex (\<lambda>b. b_tenant_id b = s_tenant_id r \<and> b_name b = s_backing_bucket r) (buckets db)
        then Inl (fkey_violation env ''spaces_fkey'')
        else Inr (db\<lparr>spaces := spaces db @ [r]\<rparr>, 1))"

definition same_member :: "string \<Rightarrow> string \<Rightarrow> SubjectRef \<Rightarrow> member_row \<Rightarrow> bool" where
  "same_member tenant i subject r \<longleftrightarrow>
     sm_tenant_id r = tenant \<and> sm_space_id r = i \<and> sm_subject r = subject"

definition insert_member :: "sql_env \<Rightarrow> spaces_db \<Rightarrow> member_row \<Rightarrow> (spaces_db \<times> nat) res" where
  "insert_member env db r =
     stmt env ''insert member''
       (if \<not> member_row_check r then Inl (check_violation env ''space_members_check'')
        else if list_ex (same_member (sm_tenant_id r) (sm_space_id r) (sm_subject r)) (space_members db)
        then Inl (pkey_violation env ''space_members_pkey'')
        else if \<not> list_ex (\<lambda>x. s_tenant_id x = sm_tenant_id r \<and> s_id x = sm_space_id r) (spaces db)
        then Inl (fkey_violation env ''space_members_fkey'')
        else Inr (db\<lparr>space_members := space_members db @ [r]\<rparr>, 1))"

definition update_member_row :: "member_row \<Rightarrow> member_row \<Rightarrow> member_row" where
  "update_member_row n r =
     (if same_member (sm_tenant_id n) (sm_space_id n) (sm_subject n) r
      then r\<lparr>sm_role := sm_role n, sm_state := sm_state n, sm_changed_revision := sm_changed_revision n,
             sm_changed_by := sm_changed_by n, sm_updated_at_ns := sm_updated_at_ns n,
             sm_revoked_at_ns := sm_revoked_at_ns n\<rparr>
      else r)"

definition update_members :: "sql_env \<Rightarrow> spaces_db \<Rightarrow> member_row \<Rightarrow> (spaces_db \<times> nat) res" where
  "update_members env db n =
     (let hit = same_member (sm_tenant_id n) (sm_space_id n) (sm_subject n) in
      stmt env ''update member''
        (if list_all member_row_check (map (update_member_row n) (filter hit (space_members db)))
         then Inr (db\<lparr>space_members := map (update_member_row n) (space_members db)\<rparr>,
                   length (filter hit (space_members db)))
         else Inl (check_violation env ''space_members_check'')))"

definition insert_history :: "sql_env \<Rightarrow> spaces_db \<Rightarrow> history_row \<Rightarrow> (spaces_db \<times> nat) res" where
  "insert_history env db r =
     stmt env ''insert history''
       (if \<not> history_row_check r then Inl (check_violation env ''space_history_check'')
        else if list_ex (\<lambda>x. sh_tenant_id x = sh_tenant_id r \<and> sh_id x = sh_id r) (space_history db)
        then Inl (pkey_violation env ''space_history_pkey'')
        else if list_ex (\<lambda>x. sh_tenant_id x = sh_tenant_id r \<and> sh_command_id x = sh_command_id r) (space_history db)
        then Inl (unique_violation env ''space_history_command_uq'')
        else if list_ex (\<lambda>x. sh_tenant_id x = sh_tenant_id r \<and> sh_space_id x = sh_space_id r \<and>
                             sh_after_revision x = sh_after_revision r) (space_history db)
        then Inl (unique_violation env ''space_history_revision_uq'')
        else if \<not> list_ex (\<lambda>x. s_tenant_id x = sh_tenant_id r \<and> s_id x = sh_space_id r) (spaces db)
        then Inl (fkey_violation env ''space_history_fkey'')
        else Inr (db\<lparr>space_history := space_history db @ [r]\<rparr>, 1))"

definition spaceInsertRoot :: "sql_env \<Rightarrow> spaces_db \<Rightarrow> Space \<Rightarrow> spaces_db res" where
  "spaceInsertRoot env db v =
     spaceOneRow env (insert_space env db
       \<lparr>s_tenant_id = sp_TenantID v, s_id = sp_ID v, s_kind = sp_Kind v, s_name = sp_Name v,
        s_backing_bucket = sp_BackingBucket v,
        s_personal_source = map_option Source (sp_PersonalSubject v),
        s_personal_kind = map_option SKind (sp_PersonalSubject v),
        s_personal_subject_id = map_option SID (sp_PersonalSubject v),
        s_revision = sp_Revision v, s_created_by = sp_CreatedBy v, s_updated_by = sp_UpdatedBy v,
        s_created_at_ns = unix_nano (sp_CreatedAt v), s_updated_at_ns = unix_nano (sp_UpdatedAt v)\<rparr>)"

definition spaceRevokedTime :: "Member \<Rightarrow> int option" where
  "spaceRevokedTime m = map_option unix_nano (m_RevokedAt m)"

definition member_row_of :: "Member \<Rightarrow> member_row" where
  "member_row_of m =
     \<lparr>sm_tenant_id = m_TenantID m, sm_space_id = m_SpaceID m, sm_subject = m_Subject m, sm_role = m_Role m,
      sm_state = m_State m, sm_changed_revision = m_ChangedRevision m, sm_changed_by = m_ChangedBy m,
      sm_joined_at_ns = unix_nano (m_JoinedAt m), sm_updated_at_ns = unix_nano (m_UpdatedAt m),
      sm_revoked_at_ns = spaceRevokedTime m\<rparr>"

definition spaceInsertMember :: "sql_env \<Rightarrow> spaces_db \<Rightarrow> Member \<Rightarrow> spaces_db res" where
  "spaceInsertMember env db m = spaceOneRow env (insert_member env db (member_row_of m))"

definition spaceUpdateMember :: "sql_env \<Rightarrow> spaces_db \<Rightarrow> Member \<Rightarrow> spaces_db res" where
  "spaceUpdateMember env db m = spaceOneRow env (update_members env db (member_row_of m))"

definition spaceAppendHistory :: "sql_env \<Rightarrow> string res \<Rightarrow> spaces_db \<Rightarrow> History \<Rightarrow> spaces_db res" where
  "spaceAppendHistory env newid db h =
     rbind newid (\<lambda>i.
       spaceOneRow env (insert_history env db
         \<lparr>sh_tenant_id = h_TenantID h, sh_id = i, sh_space_id = h_SpaceID h, sh_command_id = h_CommandID h,
          sh_command_type = h_CommandType h, sh_actor = h_Actor h, sh_target = h_Target h,
          sh_before_revision = h_BeforeRevision h, sh_after_revision = h_AfterRevision h,
          sh_before_role = (if h_BeforeRole h \<noteq> [] then Some (h_BeforeRole h) else None),
          sh_after_role = h_AfterRole h,
          sh_before_state = (if h_BeforeState h \<noteq> [] then Some (h_BeforeState h) else None),
          sh_after_state = h_AfterState h, sh_reason = h_Reason h, sh_request_id = h_RequestID h,
          sh_occurred_at_ns = unix_nano (h_OccurredAt h)\<rparr>))"

section \<open>Creating a Space (\<open>sql_spaces_commands.go\<close>)\<close>

definition spaceCreateRows ::
  "sql_env \<Rightarrow> string res \<Rightarrow> spaces_db \<Rightarrow> Space \<Rightarrow> CreateCommand \<Rightarrow> spaces_db res" where
  "spaceCreateRows env newid db v c =
     rbind (ok_or (case dialect_of env of
                     dialectPostgres \<Rightarrow> spaceTenant env db (sp_TenantID v)
                   | dialectSQLite \<Rightarrow> None) ()) (\<lambda>_.
     rbind (spaceOneRow env (insert_bucket env db
             \<lparr>b_tenant_id = sp_TenantID v, b_name = sp_BackingBucket v,
              b_created_at = (case dialect_of env of
                                dialectSQLite \<Rightarrow> TextTime (rfc3339nano (sp_CreatedAt v))
                              | dialectPostgres \<Rightarrow> StampTime (sp_CreatedAt v))\<rparr>)) (\<lambda>db1.
     rbind (ok_or (case dialect_of env of
                     dialectSQLite \<Rightarrow> spaceTenant env db1 (sp_TenantID v)
                   | dialectPostgres \<Rightarrow> None) ()) (\<lambda>_.
     rbind (spaceInsertRoot env db1 v) (\<lambda>db2.
     rbind (spaceInsertMember env db2
             \<lparr>m_TenantID = sp_TenantID v, m_SpaceID = sp_ID v, m_Subject = cc_Actor c, m_Role = Admin,
              m_State = Active, m_ChangedRevision = 1, m_ChangedBy = cc_Actor c,
              m_JoinedAt = sp_CreatedAt v, m_UpdatedAt = sp_CreatedAt v, m_RevokedAt = None\<rparr>) (\<lambda>db3.
       spaceAppendHistory env newid db3
         \<lparr>h_TenantID = sp_TenantID v, h_ID = [], h_SpaceID = sp_ID v, h_CommandID = cc_CommandID c,
          h_CommandType = ''create'', h_Actor = cc_Actor c, h_Target = cc_Actor c,
          h_BeforeRevision = 0, h_AfterRevision = 1, h_BeforeRole = [], h_AfterRole = Admin,
          h_BeforeState = [], h_AfterState = Active, h_Reason = cc_Reason c, h_RequestID = cc_RequestID c,
          h_OccurredAt = sp_CreatedAt v\<rparr>)))))"

definition new_space :: "CreateCommand \<Rightarrow> instant \<Rightarrow> Space" where
  "new_space c now =
     \<lparr>sp_TenantID = cc_TenantID c, sp_ID = cc_ID c, sp_Kind = cc_Kind c, sp_Name = cc_Name c,
      sp_BackingBucket = ''spc-'' @ cc_ID c,
      sp_PersonalSubject = (if cc_Kind c = Personal then Some (cc_Actor c) else None),
      sp_Revision = 1, sp_CreatedBy = cc_Actor c, sp_UpdatedBy = cc_Actor c,
      sp_CreatedAt = now, sp_UpdatedAt = now\<rparr>"

definition CreateSpace ::
  "uuid_lib \<Rightarrow> sql_env \<Rightarrow> ctx_state \<Rightarrow> instant \<Rightarrow> string res \<Rightarrow> spaces_db \<Rightarrow> CreateCommand \<Rightarrow> spaces_db \<times> Space res" where
  "CreateSpace U env ctx now newid db c =
     (case ValidateCreate U c of
        Some e \<Rightarrow> (db, Inl e)
      | None \<Rightarrow>
          (let v = new_space c now in
           case fault env ''begin'' of
             Some e \<Rightarrow> (db, Inl (spaceSQLError ctx ''begin create'' e))
           | None \<Rightarrow>
               (case spaceCreateRows env newid db v c of
                  Inl e \<Rightarrow> (db, Inl (spaceSQLError ctx ''create'' e))
                | Inr db' \<Rightarrow>
                    (case tx_commit env db db' of
                       (db'', Some e) \<Rightarrow> (db'', Inl (spaceSQLError ctx ''commit create (outcome may be uncertain)'' e))
                     | (db'', None) \<Rightarrow> (db'', Inr v)))))"

section \<open>Members (\<open>sql_spaces_members.go\<close>)\<close>

definition spaceMember :: "sql_env \<Rightarrow> spaces_db \<Rightarrow> string \<Rightarrow> string \<Rightarrow> SubjectRef \<Rightarrow> Member res" where
  "spaceMember env db tenant i subject =
     query_row env ''space member'' (map scanSpaceMember (filter (same_member tenant i subject) (space_members db)))"

definition spaceMemberState :: "MemberCommand \<Rightarrow> Member \<Rightarrow> bool \<Rightarrow> gerr option" where
  "spaceMemberState c before present =
     (if mc_Action c = AddMember then
        (if \<not> present then None
         else if m_State before = Revoked then Some (Sentinel SpacesMemberRevoked)
         else Some (Sentinel SpacesMemberExists))
      else if \<not> present then Some (Sentinel SpacesNotFound)
      else if mc_Action c = ReactivateMember then
        (if m_State before = Active then Some (Sentinel SpacesMemberExists) else None)
      else if m_State before = Revoked then Some (Sentinel SpacesMemberRevoked)
      else if mc_Action c = ChangeRole \<and> m_Role before = mc_Role c then Some (Sentinel SpacesConflict)
      else None)"

definition zero_Member :: Member where
  "zero_Member =
     \<lparr>m_TenantID = [], m_SpaceID = [], m_Subject = \<lparr>Source = [], SKind = [], SID = []\<rparr>, m_Role = [], m_State = [],
      m_ChangedRevision = 0, m_ChangedBy = \<lparr>Source = [], SKind = [], SID = []\<rparr>,
      m_JoinedAt = 0, m_UpdatedAt = 0, m_RevokedAt = None\<rparr>"

definition spaceMemberAfter :: "MemberCommand \<Rightarrow> Member \<Rightarrow> instant \<Rightarrow> Member" where
  "spaceMemberAfter c before now =
     (let after0 = (if mc_Action c = AddMember
                    then zero_Member\<lparr>m_TenantID := mc_TenantID c, m_SpaceID := mc_SpaceID c,
                                     m_Subject := mc_Target c, m_JoinedAt := now\<rparr>
                    else before);
          after1 = after0\<lparr>m_State := Active, m_Role := mc_Role c, m_RevokedAt := None\<rparr>;
          after2 = (if mc_Action c = RevokeMember
                    then after1\<lparr>m_State := Revoked, m_Role := m_Role before, m_RevokedAt := Some now\<rparr>
                    else after1)
      in after2\<lparr>m_ChangedRevision := mc_ExpectedRevision c + 1, m_ChangedBy := mc_Actor c, m_UpdatedAt := now\<rparr>)"

definition active_user_admin :: "string \<Rightarrow> string \<Rightarrow> member_row \<Rightarrow> bool" where
  "active_user_admin tenant i r \<longleftrightarrow>
     sm_tenant_id r = tenant \<and> sm_space_id r = i \<and> sm_state r = Active \<and> sm_role r = Admin \<and>
     SKind (sm_subject r) = User"

definition spaceProtectAdmin :: "sql_env \<Rightarrow> spaces_db \<Rightarrow> Member \<Rightarrow> Member \<Rightarrow> gerr option" where
  "spaceProtectAdmin env db before after =
     (if SKind (m_Subject before) \<noteq> User \<or> m_State before \<noteq> Active \<or> m_Role before \<noteq> Admin then None
      else if m_State after = Active \<and> m_Role after = Admin then None
      else (case stmt env ''count admins''
                   (Inr (length (filter (active_user_admin (m_TenantID before) (m_SpaceID before)) (space_members db)))) of
              Inl e \<Rightarrow> Some e
            | Inr count \<Rightarrow> fails (count \<le> (1::nat)) (Sentinel SpacesLastAdmin)))"

definition spaceChangeMemberRows ::
  "sql_env \<Rightarrow> string res \<Rightarrow> spaces_db \<Rightarrow> MemberCommand \<Rightarrow> instant \<Rightarrow> spaces_db res" where
  "spaceChangeMemberRows env newid db c now =
     (let found = spaceMember env db (mc_TenantID c) (mc_SpaceID c) (mc_Target c);
          present = (case found of Inl _ \<Rightarrow> False | Inr _ \<Rightarrow> True);
          before = (case found of Inl _ \<Rightarrow> zero_Member | Inr m \<Rightarrow> m) in
      rbind (ok_or (case found of Inl e \<Rightarrow> fails (\<not> errors_is e ErrNoRows) e | Inr _ \<Rightarrow> None) ()) (\<lambda>_.
      rbind (ok_or (spaceMemberState c before present) ()) (\<lambda>_.
      let after = spaceMemberAfter c before now in
      rbind (ok_or (spaceProtectAdmin env db before after) ()) (\<lambda>_.
      rbind (if mc_Action c = AddMember then spaceInsertMember env db after else spaceUpdateMember env db after) (\<lambda>db'.
        spaceAppendHistory env newid db'
          \<lparr>h_TenantID = mc_TenantID c, h_ID = [], h_SpaceID = mc_SpaceID c, h_CommandID = mc_CommandID c,
           h_CommandType = mc_Action c, h_Actor = mc_Actor c, h_Target = mc_Target c,
           h_BeforeRevision = mc_ExpectedRevision c, h_AfterRevision = mc_ExpectedRevision c + 1,
           h_BeforeRole = (if present then m_Role before else []), h_AfterRole = m_Role after,
           h_BeforeState = (if present then m_State before else []), h_AfterState = m_State after,
           h_Reason = mc_Reason c, h_RequestID = mc_RequestID c, h_OccurredAt = now\<rparr>)))))"

definition ChangeSpaceMember ::
  "uuid_lib \<Rightarrow> sql_env \<Rightarrow> ctx_state \<Rightarrow> instant \<Rightarrow> string res \<Rightarrow> spaces_db \<Rightarrow> MemberCommand \<Rightarrow> spaces_db \<times> int res" where
  "ChangeSpaceMember U env ctx now newid db c =
     (case ValidateMemberCommand U c of
        Some e \<Rightarrow> (db, Inl e)
      | None \<Rightarrow>
          (case fault env ''begin'' of
             Some e \<Rightarrow> (db, Inl (spaceSQLError ctx ''begin member'' e))
           | None \<Rightarrow>
               (case spaceCAS env db c now of
                  Inl e \<Rightarrow> (db, Inl (spaceSQLError ctx ''member CAS'' e))
                | Inr db1 \<Rightarrow>
                    (case spaceChangeMemberRows env newid db1 c now of
                       Inl e \<Rightarrow> (db, Inl (spaceSQLError ctx ''member change'' e))
                     | Inr db2 \<Rightarrow>
                         (case tx_commit env db db2 of
                            (db', Some e) \<Rightarrow> (db', Inl (spaceSQLError ctx ''commit member (outcome may be uncertain)'' e))
                          | (db', None) \<Rightarrow> (db', Inr (mc_ExpectedRevision c + 1)))))))"

section \<open>Queries (\<open>sql_spaces_queries.go\<close>, \<open>sql_spaces_members.go\<close>, \<open>sql_spaces_history.go\<close>)\<close>

definition GetSpace :: "uuid_lib \<Rightarrow> sql_env \<Rightarrow> ctx_state \<Rightarrow> spaces_db \<Rightarrow> string \<Rightarrow> string \<Rightarrow> Space res" where
  "GetSpace U env ctx db tenant i =
     rbind (ok_or (ValidateSpaceRef U tenant i) ()) (\<lambda>_.
       spaceRead env ctx db tenant (\<lambda>db. spaceRoot env db tenant i))"

definition GetSpaceByBucket :: "sql_env \<Rightarrow> ctx_state \<Rightarrow> spaces_db \<Rightarrow> string \<Rightarrow> string \<Rightarrow> Space res" where
  "GetSpaceByBucket env ctx db tenant bucket =
     rbind (ok_or (first_error [ValidateTenant tenant, ValidateIdentifier bucket]) ()) (\<lambda>_.
       spaceRead env ctx db tenant (\<lambda>db.
         query_row env ''space by bucket'' (map scanSpace
           (filter (\<lambda>r. s_tenant_id r = tenant \<and> s_backing_bucket r = bucket) (spaces db)))))"

definition GetPersonalSpace :: "sql_env \<Rightarrow> ctx_state \<Rightarrow> spaces_db \<Rightarrow> string \<Rightarrow> SubjectRef \<Rightarrow> Space res" where
  "GetPersonalSpace env ctx db tenant subject =
     rbind (ok_or (first_error
        [ValidateTenant tenant, ValidateSubject subject,
         fails (SKind subject \<noteq> User) (Errorf ''personal subject must be user'' [Sentinel SpacesInvalidArgument])]) ()) (\<lambda>_.
       spaceRead env ctx db tenant (\<lambda>db.
         query_row env ''personal space'' (map scanSpace
           (filter (\<lambda>r. s_tenant_id r = tenant \<and> s_kind r = Personal \<and> s_personal_source r = Some (Source subject) \<and>
                        s_personal_kind r = Some (SKind subject) \<and> s_personal_subject_id r = Some (SID subject))
              (spaces db)))))"

definition ListSpacesForSubject ::
  "uuid_lib \<Rightarrow> sql_env \<Rightarrow> ctx_state \<Rightarrow> spaces_db \<Rightarrow> string \<Rightarrow> SubjectRef \<Rightarrow> SpacePage \<Rightarrow> Space list res" where
  "ListSpacesForSubject U env ctx db tenant subject page =
     rbind (ok_or (first_error [ValidateTenant tenant, ValidateSubject subject, ValidateSpacePage U page]) ()) (\<lambda>_.
       spaceRead env ctx db tenant (\<lambda>db.
         stmt env ''list spaces'' (collectSpaceRows env scanSpace
           (limit_rows (pg_Limit page) (sort_key s_id
             (filter (\<lambda>r. s_tenant_id r = tenant \<and> pg_AfterID page < s_id r \<and>
                          list_ex (\<lambda>m. same_member tenant (s_id r) subject m \<and> sm_state m = Active) (space_members db))
                (spaces db)))))))"

definition GetSpaceMember ::
  "uuid_lib \<Rightarrow> sql_env \<Rightarrow> ctx_state \<Rightarrow> spaces_db \<Rightarrow> string \<Rightarrow> string \<Rightarrow> SubjectRef \<Rightarrow> Member res" where
  "GetSpaceMember U env ctx db tenant i subject =
     rbind (ok_or (first_error [ValidateSpaceRef U tenant i, ValidateSubject subject]) ()) (\<lambda>_.
       spaceRead env ctx db tenant (\<lambda>db.
         rbind (spaceRoot env db tenant i) (\<lambda>_. spaceMember env db tenant i subject)))"

abbreviation subject_key :: "SubjectRef \<Rightarrow> string \<times> string \<times> string" where
  "subject_key s \<equiv> (Source s, SKind s, SID s)"

definition ListSpaceMembers ::
  "uuid_lib \<Rightarrow> sql_env \<Rightarrow> ctx_state \<Rightarrow> spaces_db \<Rightarrow> string \<Rightarrow> string \<Rightarrow> MemberPage \<Rightarrow> Member list res" where
  "ListSpaceMembers U env ctx db tenant i page =
     rbind (ok_or (first_error [ValidateSpaceRef U tenant i, ValidateMemberPage page]) ()) (\<lambda>_.
       spaceRead env ctx db tenant (\<lambda>db.
         rbind (spaceRoot env db tenant i) (\<lambda>_.
         stmt env ''list members'' (collectSpaceRows env scanSpaceMember
           (limit_rows (mp_Limit page) (sort_key (\<lambda>r. subject_key (sm_subject r))
             (filter (\<lambda>r. sm_tenant_id r = tenant \<and> sm_space_id r = i \<and>
                          (case mp_After page of None \<Rightarrow> True
                           | Some a \<Rightarrow> subject_key a < subject_key (sm_subject r)))
                (space_members db))))))))"

definition ListSpaceHistory ::
  "uuid_lib \<Rightarrow> sql_env \<Rightarrow> ctx_state \<Rightarrow> spaces_db \<Rightarrow> string \<Rightarrow> string \<Rightarrow> HistoryPage \<Rightarrow> History list res" where
  "ListSpaceHistory U env ctx db tenant i page =
     rbind (ok_or (first_error [ValidateSpaceRef U tenant i, ValidateHistoryPage page]) ()) (\<lambda>_.
       spaceRead env ctx db tenant (\<lambda>db.
         rbind (spaceRoot env db tenant i) (\<lambda>_.
         stmt env ''list history'' (collectSpaceRows env scanSpaceHistory
           (limit_rows (hp_Limit page) (sort_key sh_after_revision
             (filter (\<lambda>r. sh_tenant_id r = tenant \<and> sh_space_id r = i \<and> hp_AfterRevision page < sh_after_revision r)
                (space_history db))))))))"

section \<open>Binding probe (\<open>sql_spaces_binding.go\<close>)\<close>

text \<open>A row of the two outer joins: the tenant's columns and the Space's columns, NULL when not joined.\<close>

record join_row =
  j_tenant_id :: "string option"
  j_status :: "string option"
  j_space_tenant :: "string option"
  j_bucket :: "string option"
  j_space_id :: "string option"
  j_revision :: "int option"

definition join_of :: "(string \<times> string) option \<Rightarrow> space_row option \<Rightarrow> join_row" where
  "join_of t s =
     \<lparr>j_tenant_id = map_option fst t, j_status = map_option snd t,
      j_space_tenant = map_option s_tenant_id s, j_bucket = map_option s_backing_bucket s,
      j_space_id = map_option s_id s, j_revision = map_option s_revision s\<rparr>"

text \<open>The matches of a LEFT JOIN: all partners, or one NULL partner.\<close>

definition left_matches :: "('r \<Rightarrow> bool) \<Rightarrow> 'r list \<Rightarrow> 'r option list" where
  "left_matches p rows = (case filter p rows of [] \<Rightarrow> [None] | rs \<Rightarrow> map Some rs)"

definition spaceBindingQuery :: "spaces_db \<Rightarrow> string \<Rightarrow> string \<Rightarrow> join_row list" where
  "spaceBindingQuery db tenant bucket =
     concat (map (\<lambda>t. map (join_of t)
       (left_matches (\<lambda>s. s_tenant_id s = tenant \<and> s_backing_bucket s = bucket) (spaces db)))
       (left_matches (\<lambda>t. fst t = tenant) (tenants db)))"

definition invalidBindingRow :: "string \<Rightarrow> gerr" where
  "invalidBindingRow detail = Errorf detail [Sentinel SpacesPersistence, Sentinel SpacesInvalidArgument]"

definition validateBindingTenantRow :: "string option \<Rightarrow> string option \<Rightarrow> string \<Rightarrow> gerr option" where
  "validateBindingTenantRow i status requested = first_error
     [fails ((i \<noteq> None) \<noteq> (status \<noteq> None)) (invalidBindingRow ''partial tenant NULL''),
      fails (i \<noteq> None \<and> i \<noteq> Some requested) (invalidBindingRow ''tenant mismatch'')]"

definition null_string :: "string option \<Rightarrow> string" where
  "null_string s = (case s of None \<Rightarrow> [] | Some x \<Rightarrow> x)"

definition spaceBindingFromRow ::
  "BindingResult \<Rightarrow> string option \<Rightarrow> string option \<Rightarrow> string option \<Rightarrow> int option \<Rightarrow> BindingResult res" where
  "spaceBindingFromRow result tenant bucket i revision =
     (let present = length (filter id [tenant \<noteq> None, bucket \<noteq> None, i \<noteq> None, revision \<noteq> None]) in
      if present = 0 then Inr result
      else if present \<noteq> 4 then Inl (invalidBindingRow ''partial Space NULL'')
      else if null_string tenant \<noteq> br_TenantID result \<or> null_string bucket \<noteq> br_Bucket result
      then Inl (invalidBindingRow ''Space scope mismatch'')
      else Inr (result\<lparr>br_State := BindingBound, br_SpaceID := null_string i,
                       br_Revision := (case revision of None \<Rightarrow> 0 | Some n \<Rightarrow> n)\<rparr>))"

definition scanSpaceBinding :: "uuid_lib \<Rightarrow> join_row \<Rightarrow> string \<Rightarrow> string \<Rightarrow> BindingResult res" where
  "scanSpaceBinding U row tenant bucket =
     rbind (ok_or (validateBindingTenantRow (j_tenant_id row) (j_status row) tenant) ()) (\<lambda>_.
     rbind (spaceBindingFromRow
              \<lparr>br_TenantID = tenant, br_Bucket = bucket, br_TenantKnown = (j_tenant_id row \<noteq> None),
               br_TenantStatus = null_string (j_status row), br_State = BindingUnbound, br_SpaceID = [], br_Revision = 0\<rparr>
              (j_space_tenant row) (j_bucket row) (j_space_id row) (j_revision row)) (\<lambda>result.
     case ValidateBindingResult U result of
       Some e \<Rightarrow> Inl (Errorf ''binding observation'' [Sentinel SpacesPersistence, e])
     | None \<Rightarrow> Inr result))"

definition spaceBindingSQLError :: "ctx_state \<Rightarrow> string \<Rightarrow> gerr \<Rightarrow> gerr" where
  "spaceBindingSQLError ctx op err0 =
     (let err = (case ctx_err_after ctx of None \<Rightarrow> err0 | Some c \<Rightarrow> Join [err0, c]) in
      if errors_is err ErrNoRows then Errorf op [Sentinel SpacesPersistence, err]
      else spaceSQLError ctx op err)"

definition ProbeSpaceBinding ::
  "uuid_lib \<Rightarrow> sql_env \<Rightarrow> ctx_state \<Rightarrow> spaces_db \<Rightarrow> string \<Rightarrow> string \<Rightarrow> BindingResult res" where
  "ProbeSpaceBinding U env ctx db tenant bucket =
     rbind (ok_or (ValidateBindingInput tenant bucket) ()) (\<lambda>_.
       wrap_err (spaceBindingSQLError ctx ''probe binding'')
         (rbind (query_row env ''probe binding'' (spaceBindingQuery db tenant bucket)) (\<lambda>row.
            scanSpaceBinding U row tenant bucket)))"

section \<open>Coverage probe (\<open>sql_spaces_coverage.go\<close>)\<close>

definition join_order :: "join_row \<Rightarrow> string option \<times> string option \<times> string option" where
  "join_order r = (j_space_tenant r, j_bucket r, j_space_id r)"

definition spaceCoverageTenantQuery :: "spaces_db \<Rightarrow> string \<Rightarrow> join_row list" where
  "spaceCoverageTenantQuery db tenant =
     sort_key (\<lambda>r. (j_bucket r, j_space_id r))
       (concat (map (\<lambda>t. map (join_of t) (left_matches (\<lambda>s. s_tenant_id s = tenant) (spaces db)))
          (left_matches (\<lambda>t. fst t = tenant) (tenants db))))"

definition spaceCoverageGlobalQuery :: "spaces_db \<Rightarrow> join_row list" where
  "spaceCoverageGlobalQuery db =
     sort_key join_order
       (concat (map (\<lambda>s. map (\<lambda>t. join_of t s)
            (left_matches (\<lambda>t. map_option s_tenant_id s = Some (fst t)) (tenants db)))
          (left_matches (\<lambda>_. True) (spaces db))))"

definition invalidCoverageRow :: "string \<Rightarrow> gerr" where
  "invalidCoverageRow detail = Errorf detail [Sentinel SpacesInvalidArgument]"

definition scanSpaceCoverageRow :: "uuid_lib \<Rightarrow> CoverageScope \<Rightarrow> join_row \<Rightarrow> BindingResult res" where
  "scanSpaceCoverageRow U scope row =
     (let tenant = (if cs_Kind scope = CoverageGlobal then null_string (j_space_tenant row) else cs_TenantID scope) in
      rbind (ok_or (validateBindingTenantRow (j_tenant_id row) (j_status row) tenant) ()) (\<lambda>_.
      rbind (spaceBindingFromRow
               \<lparr>br_TenantID = tenant, br_Bucket = null_string (j_bucket row), br_TenantKnown = (j_tenant_id row \<noteq> None),
                br_TenantStatus = null_string (j_status row), br_State = BindingUnbound, br_SpaceID = [], br_Revision = 0\<rparr>
               (j_space_tenant row) (j_bucket row) (j_space_id row) (j_revision row)) (\<lambda>witness.
      ok_or (if br_State witness = BindingBound then ValidateBindingResult U witness
             else fails (cs_Kind scope = CoverageGlobal \<and> br_TenantKnown witness)
                    (invalidCoverageRow ''global absence with tenant facts''))
        witness)))"

record spaceCoverageObservation =
  ob_result :: CoverageResult
  ob_observed :: bool
  ob_unbound :: bool

definition observation_add :: "spaceCoverageObservation \<Rightarrow> BindingResult \<Rightarrow> spaceCoverageObservation res" where
  "observation_add ob w =
     (let r = ob_result ob; tenantScope = (cs_Kind (cr_Scope r) = CoverageTenant) in
      if ob_observed ob \<and> (ob_unbound ob \<or> br_State w = BindingUnbound)
      then Inl (invalidCoverageRow ''mixed or duplicate absence'')
      else if ob_observed ob \<and> tenantScope \<and>
              (cr_TenantKnown r \<noteq> br_TenantKnown w \<or> cr_TenantStatus r \<noteq> br_TenantStatus w)
      then Inl (invalidCoverageRow ''contradictory tenant facts'')
      else
        (let r1 = (if tenantScope
                   then r\<lparr>cr_TenantKnown := br_TenantKnown w, cr_TenantStatus := br_TenantStatus w\<rparr> else r);
             unbound = (br_State w = BindingUnbound);
             r2 = (if \<not> unbound then r1\<lparr>cr_State := CoverageBound, cr_Witnesses := cr_Witnesses r1 @ [w]\<rparr> else r1)
         in Inr \<lparr>ob_result = r2, ob_observed = True, ob_unbound = unbound\<rparr>))"

fun coverage_rows ::
  "uuid_lib \<Rightarrow> CoverageScope \<Rightarrow> spaceCoverageObservation \<Rightarrow> join_row list \<Rightarrow> spaceCoverageObservation res" where
  "coverage_rows U scope ob [] = Inr ob"
| "coverage_rows U scope ob (row # rows) =
     rbind (scanSpaceCoverageRow U scope row) (\<lambda>w.
     rbind (observation_add ob w) (\<lambda>ob'. coverage_rows U scope ob' rows))"

definition zero_observation :: "CoverageScope \<Rightarrow> spaceCoverageObservation" where
  "zero_observation scope =
     \<lparr>ob_result = \<lparr>cr_Scope = scope, cr_TenantKnown = False, cr_TenantStatus = [], cr_State = CoverageUnbound,
                   cr_Complete = False, cr_Witnesses = []\<rparr>,
      ob_observed = False, ob_unbound = False\<rparr>"

text \<open>\<open>scanSpaceCoverage\<close> with its deferred \<open>rows.Close()\<close>, whose failure is joined to the error so far.\<close>

definition scanSpaceCoverage ::
  "uuid_lib \<Rightarrow> sql_env \<Rightarrow> CoverageScope \<Rightarrow> join_row list \<Rightarrow> CoverageResult res" where
  "scanSpaceCoverage U env scope rows =
     (let body =
        rbind (stmt env ''rows.Scan'' (coverage_rows U scope (zero_observation scope) rows)) (\<lambda>ob.
        rbind (stmt env ''rows.Err'' (Inr ())) (\<lambda>_.
          if \<not> ob_observed ob then Inl (Sentinel ErrNoRows)
          else (let r = (ob_result ob)\<lparr>cr_Complete := True\<rparr> in
                ok_or (ValidateCoverageObservation U scope r) r)))
      in case fault env ''rows.Close'' of
           None \<Rightarrow> body
         | Some closeErr \<Rightarrow> Inl (Join ((case body of Inl e \<Rightarrow> [e] | Inr _ \<Rightarrow> []) @ [closeErr])))"

definition spaceCoverageSQLError :: "ctx_state \<Rightarrow> gerr \<Rightarrow> gerr" where
  "spaceCoverageSQLError ctx err =
     Errorf ''spaces probe coverage''
       [Sentinel SpacesPersistence, case ctx_err_after ctx of None \<Rightarrow> err | Some c \<Rightarrow> Join [err, c]]"

definition ProbeSpaceCoverage ::
  "uuid_lib \<Rightarrow> sql_env \<Rightarrow> ctx_state \<Rightarrow> spaces_db \<Rightarrow> CoverageScope \<Rightarrow> CoverageResult res" where
  "ProbeSpaceCoverage U env ctx db scope =
     rbind (ok_or (ValidateCoverageScope scope) ()) (\<lambda>_.
       wrap_err (spaceCoverageSQLError ctx)
         (rbind (stmt env ''probe coverage'' (scanSpaceCoverage U env scope
                  (if cs_Kind scope = CoverageTenant then spaceCoverageTenantQuery db (cs_TenantID scope)
                   else spaceCoverageGlobalQuery db))) (\<lambda>result.
            ok_or (ctx_err_after ctx) result)))"

section \<open>Invariant of the Space tables\<close>

text \<open>
  Keys are unique, every row satisfies the schema's checks and references, every Space has at least
  one active user admin, and the revisions recorded in a Space's history are exactly \<open>1\<close> to its
  current revision.
\<close>

abbreviation space_pk :: "space_row \<Rightarrow> string \<times> string" where
  "space_pk r \<equiv> (s_tenant_id r, s_id r)"

abbreviation member_pk :: "member_row \<Rightarrow> string \<times> string \<times> SubjectRef" where
  "member_pk r \<equiv> (sm_tenant_id r, sm_space_id r, sm_subject r)"

definition revisions :: "history_row list \<Rightarrow> string \<times> string \<Rightarrow> int set" where
  "revisions hs k = sh_after_revision ` {h \<in> set hs. (sh_tenant_id h, sh_space_id h) = k}"

definition spaces_inv :: "spaces_db \<Rightarrow> bool" where
  "spaces_inv db \<longleftrightarrow>
     distinct (map space_pk (spaces db)) \<and>
     distinct (map (\<lambda>r. (s_tenant_id r, s_backing_bucket r)) (spaces db)) \<and>
     distinct (map member_pk (space_members db)) \<and>
     (\<forall>s \<in> set (spaces db). space_row_check s) \<and>
     (\<forall>m \<in> set (space_members db). member_row_check m \<and> (sm_tenant_id m, sm_space_id m) \<in> space_pk ` set (spaces db)) \<and>
     (\<forall>h \<in> set (space_history db). history_row_check h \<and> (sh_tenant_id h, sh_space_id h) \<in> space_pk ` set (spaces db)) \<and>
     (\<forall>s \<in> set (spaces db). \<exists>m \<in> set (space_members db). active_user_admin (s_tenant_id s) (s_id s) m) \<and>
     (\<forall>s \<in> set (spaces db). revisions (space_history db) (space_pk s) = {1..s_revision s})"

lemma revisions_append [simp]:
  "revisions (hs @ [h]) k =
     (if (sh_tenant_id h, sh_space_id h) = k then insert (sh_after_revision h) (revisions hs k) else revisions hs k)"
  by (auto simp: revisions_def)

lemma spaceOneRow_Inr [go_simps]:
  "spaceOneRow env res = Inr db' \<longleftrightarrow> res = Inr (db', 1) \<and> fault env ''rows affected'' = None"
  by (auto simp: spaceOneRow_def go_simps split: prod.splits)

lemma ValidateSubject_cols: "ValidateSubject s = None \<Longrightarrow> subject_cols_ok s"
  by (auto simp: ValidateSubject_def subject_cols_ok_def ValidateIdentifier_ok)


lemma revisions_iff:
  "n \<in> revisions hs (t, i) \<longleftrightarrow> (t, i, n) \<in> (\<lambda>h. (sh_tenant_id h, sh_space_id h, sh_after_revision h)) ` set hs"
  by (auto simp: revisions_def)

lemma list_ex_key:
  "list_ex (\<lambda>x. f x = a \<and> g x = b) xs \<longleftrightarrow> (a, b) \<in> (\<lambda>x. (f x, g x)) ` set xs"
  "list_ex (\<lambda>x. f x = a \<and> g x = b \<and> h x = c) xs \<longleftrightarrow> (a, b, c) \<in> (\<lambda>x. (f x, g x, h x)) ` set xs"
  "list_ex (\<lambda>x. fst x = a) ys \<longleftrightarrow> a \<in> fst ` set ys"
  by (auto simp: list_ex_iff image_iff)

lemma insert_bucket_Inr [go_simps]:
  "insert_bucket env db r = Inr (db', n) \<longleftrightarrow>
     fault env ''insert bucket'' = None \<and> n = 1 \<and> db' = db\<lparr>buckets := buckets db @ [r]\<rparr> \<and>
     (b_tenant_id r, b_name r) \<notin> (\<lambda>b. (b_tenant_id b, b_name b)) ` set (buckets db)"
  unfolding insert_bucket_def stmt_Inr list_ex_key by auto

lemma insert_space_Inr [go_simps]:
  "insert_space env db r = Inr (db', n) \<longleftrightarrow>
     fault env ''insert space'' = None \<and> n = 1 \<and> db' = db\<lparr>spaces := spaces db @ [r]\<rparr> \<and> space_row_check r \<and>
     space_pk r \<notin> space_pk ` set (spaces db) \<and>
     (s_tenant_id r, s_backing_bucket r) \<notin> (\<lambda>s. (s_tenant_id s, s_backing_bucket s)) ` set (spaces db) \<and>
     (\<forall>s \<in> set (spaces db). \<not> same_personal r s) \<and> s_tenant_id r \<in> fst ` set (tenants db) \<and>
     (s_tenant_id r, s_backing_bucket r) \<in> (\<lambda>b. (b_tenant_id b, b_name b)) ` set (buckets db)"
  unfolding insert_space_def stmt_Inr list_ex_key by (auto simp: list_ex_iff)

lemma insert_member_Inr [go_simps]:
  "insert_member env db r = Inr (db', n) \<longleftrightarrow>
     fault env ''insert member'' = None \<and> n = 1 \<and> db' = db\<lparr>space_members := space_members db @ [r]\<rparr> \<and>
     member_row_check r \<and> member_pk r \<notin> member_pk ` set (space_members db) \<and>
     (sm_tenant_id r, sm_space_id r) \<in> space_pk ` set (spaces db)"
  unfolding insert_member_def stmt_Inr same_member_def list_ex_key by auto

lemma insert_history_Inr [go_simps]:
  "insert_history env db r = Inr (db', n) \<longleftrightarrow>
     fault env ''insert history'' = None \<and> n = 1 \<and> db' = db\<lparr>space_history := space_history db @ [r]\<rparr> \<and>
     history_row_check r \<and>
     (sh_tenant_id r, sh_id r) \<notin> (\<lambda>h. (sh_tenant_id h, sh_id h)) ` set (space_history db) \<and>
     (sh_tenant_id r, sh_command_id r) \<notin> (\<lambda>h. (sh_tenant_id h, sh_command_id h)) ` set (space_history db) \<and>
     sh_after_revision r \<notin> revisions (space_history db) (sh_tenant_id r, sh_space_id r) \<and>
     (sh_tenant_id r, sh_space_id r) \<in> space_pk ` set (spaces db)"
  unfolding insert_history_def stmt_Inr list_ex_key revisions_iff by auto

lemma spaceInsertRoot_Inr:
  assumes "spaceInsertRoot env db v = Inr db'"
  obtains s where "db' = db\<lparr>spaces := spaces db @ [s]\<rparr>" "space_row_check s"
    "space_pk s \<notin> space_pk ` set (spaces db)"
    "(s_tenant_id s, s_backing_bucket s) \<notin> (\<lambda>s. (s_tenant_id s, s_backing_bucket s)) ` set (spaces db)"
    "s_tenant_id s \<in> fst ` set (tenants db)"
    "scanSpace s = v" "s_tenant_id s = sp_TenantID v" "s_id s = sp_ID v" "s_revision s = sp_Revision v"
  using assms
  by (auto simp: spaceInsertRoot_def go_simps scanSpace_def split: option.splits elim!: meta_mp)

lemma spaceInsertMember_Inr:
  "spaceInsertMember env db m = Inr db' \<Longrightarrow>
     db' = db\<lparr>space_members := space_members db @ [member_row_of m]\<rparr> \<and>
     member_row_check (member_row_of m) \<and> member_pk (member_row_of m) \<notin> member_pk ` set (space_members db) \<and>
     (m_TenantID m, m_SpaceID m) \<in> space_pk ` set (spaces db)"
  unfolding spaceInsertMember_def go_simps by (simp add: member_row_of_def)

lemma spaceAppendHistory_Inr:
  assumes "spaceAppendHistory env newid db h = Inr db'"
  obtains r where "db' = db\<lparr>space_history := space_history db @ [r]\<rparr>" "history_row_check r"
    "sh_after_revision r \<notin> revisions (space_history db) (h_TenantID h, h_SpaceID h)"
    "sh_tenant_id r = h_TenantID h" "sh_space_id r = h_SpaceID h" "sh_after_revision r = h_AfterRevision h"
    "sh_command_type r = h_CommandType h" "sh_actor r = h_Actor h" "sh_target r = h_Target h"
    "(sh_tenant_id r, sh_space_id r) \<in> space_pk ` set (spaces db)"
proof -
  from assms obtain i where "newid = Inr i" by (auto simp: spaceAppendHistory_def go_simps)
  with assms show thesis
    unfolding spaceAppendHistory_def by (intro that) (auto simp: go_simps)
qed

lemma spaceCreateRows_Inr:
  assumes "spaceCreateRows env newid db v c = Inr db'" and "sp_Revision v = 1"
  obtains b s m h where
    "db' = db\<lparr>buckets := buckets db @ [b], spaces := spaces db @ [s],
             space_members := space_members db @ [m], space_history := space_history db @ [h]\<rparr>"
    "space_pk s \<notin> space_pk ` set (spaces db)"
    "(s_tenant_id s, s_backing_bucket s) \<notin> (\<lambda>r. (s_tenant_id r, s_backing_bucket r)) ` set (spaces db)"
    "member_pk m \<notin> member_pk ` set (space_members db)"
    "space_row_check s" "member_row_check m" "history_row_check h"
    "scanSpace s = v" "s_revision s = 1"
    "sm_tenant_id m = s_tenant_id s" "sm_space_id m = s_id s" "sm_subject m = cc_Actor c"
    "sm_role m = Admin" "sm_state m = Active"
    "sh_tenant_id h = s_tenant_id s" "sh_space_id h = s_id s" "sh_after_revision h = 1"
    "s_tenant_id s \<in> fst ` set (tenants db)"
proof -
  from assms(1) obtain db1 db2 db3 b m0 h0 where
    b: "db1 = db\<lparr>buckets := buckets db @ [b]\<rparr>" and
    root: "spaceInsertRoot env db1 v = Inr db2" and
    mem: "spaceInsertMember env db2 m0 = Inr db3" and
    hist: "spaceAppendHistory env newid db3 h0 = Inr db'" and
    m0: "m_TenantID m0 = sp_TenantID v" "m_SpaceID m0 = sp_ID v" "m_Subject m0 = cc_Actor c"
      "m_Role m0 = Admin" "m_State m0 = Active" and
    h0: "h_TenantID h0 = sp_TenantID v" "h_SpaceID h0 = sp_ID v" "h_AfterRevision h0 = 1"
    unfolding spaceCreateRows_def by (auto simp: go_simps)
  from root obtain s where s: "db2 = db1\<lparr>spaces := spaces db1 @ [s]\<rparr>" "space_row_check s"
    "space_pk s \<notin> space_pk ` set (spaces db1)"
    "(s_tenant_id s, s_backing_bucket s) \<notin> (\<lambda>s. (s_tenant_id s, s_backing_bucket s)) ` set (spaces db1)"
    "s_tenant_id s \<in> fst ` set (tenants db1)"
    "scanSpace s = v" "s_tenant_id s = sp_TenantID v" "s_id s = sp_ID v" "s_revision s = sp_Revision v"
    by (rule spaceInsertRoot_Inr)
  from hist obtain h where h: "db' = db3\<lparr>space_history := space_history db3 @ [h]\<rparr>" "history_row_check h"
    "sh_tenant_id h = h_TenantID h0" "sh_space_id h = h_SpaceID h0" "sh_after_revision h = h_AfterRevision h0"
    by (rule spaceAppendHistory_Inr)
  show thesis
    by (rule that [where b = b and s = s and m = "member_row_of m0" and h = h])
      (use b s h m0 h0 assms(2) spaceInsertMember_Inr [OF mem] in \<open>auto simp: member_row_of_def\<close>)
qed

lemma spaceCreateRows_inv:
  assumes inv: "spaces_inv db" and rows: "spaceCreateRows env newid db v c = Inr db'"
    and "sp_Revision v = 1" and user: "SKind (cc_Actor c) = User"
  shows "spaces_inv db'"
proof -
  from rows \<open>sp_Revision v = 1\<close> obtain b s m h where new:
    "db' = db\<lparr>buckets := buckets db @ [b], spaces := spaces db @ [s],
             space_members := space_members db @ [m], space_history := space_history db @ [h]\<rparr>"
    "space_pk s \<notin> space_pk ` set (spaces db)"
    "(s_tenant_id s, s_backing_bucket s) \<notin> (\<lambda>r. (s_tenant_id r, s_backing_bucket r)) ` set (spaces db)"
    "member_pk m \<notin> member_pk ` set (space_members db)"
    "space_row_check s" "member_row_check m" "history_row_check h"
    "s_revision s = 1"
    "sm_tenant_id m = s_tenant_id s" "sm_space_id m = s_id s" "sm_subject m = cc_Actor c"
    "sm_role m = Admin" "sm_state m = Active"
    "sh_tenant_id h = s_tenant_id s" "sh_space_id h = s_id s" "sh_after_revision h = 1"
    by (rule spaceCreateRows_Inr)
  have none: "revisions (space_history db) (space_pk s) = {}"
  proof -
    have "(sh_tenant_id x, sh_space_id x) \<noteq> space_pk s" if "x \<in> set (space_history db)" for x
      using inv new(2) that unfolding spaces_inv_def by metis
    then show ?thesis by (auto simp: revisions_def)
  qed
  have other: "space_pk x \<noteq> space_pk s" if "x \<in> set (spaces db)" for x
    using new(2) imageI [OF that, of "\<lambda>r. (s_tenant_id r, s_id r)"] by auto
  have adm: "active_user_admin (s_tenant_id s) (s_id s) m"
    using new user by (simp add: active_user_admin_def)
  note I = inv [unfolded spaces_inv_def]
  have keys: "distinct (map space_pk (spaces db'))"
    "distinct (map (\<lambda>r. (s_tenant_id r, s_backing_bucket r)) (spaces db'))"
    "distinct (map member_pk (space_members db'))"
    using I new(1-4) by (simp_all add: image_iff)
  have rows: "\<forall>s \<in> set (spaces db'). space_row_check s"
    "\<forall>m \<in> set (space_members db'). member_row_check m \<and> (sm_tenant_id m, sm_space_id m) \<in> space_pk ` set (spaces db')"
    "\<forall>h \<in> set (space_history db'). history_row_check h \<and> (sh_tenant_id h, sh_space_id h) \<in> space_pk ` set (spaces db')"
    using I new by simp_all
  have admins: "\<forall>x \<in> set (spaces db'). \<exists>m \<in> set (space_members db'). active_user_admin (s_tenant_id x) (s_id x) m"
    using I new(1) adm by simp
  have revs: "revisions (space_history db') (space_pk x) = {1..s_revision x}" if "x \<in> set (spaces db')" for x
  proof (cases "x \<in> set (spaces db)")
    case True
    with I other [OF True] new(1,14,15) show ?thesis by auto
  next
    case False
    with that new(1,8,14,15,16) none show ?thesis by auto
  qed
  show ?thesis
    unfolding spaces_inv_def using keys rows admins revs by blast
qed

lemma cas_row_pk [simp]:
  "s_tenant_id (cas_row c now r) = s_tenant_id r" "s_id (cas_row c now r) = s_id r"
  "s_backing_bucket (cas_row c now r) = s_backing_bucket r"
  by (simp_all add: cas_row_def)

lemma update_member_row_pk [simp]:
  "sm_tenant_id (update_member_row n r) = sm_tenant_id r" "sm_space_id (update_member_row n r) = sm_space_id r"
  "sm_subject (update_member_row n r) = sm_subject r"
  by (simp_all add: update_member_row_def)

lemma member_row_of_simps [simp]:
  "sm_tenant_id (member_row_of m) = m_TenantID m" "sm_space_id (member_row_of m) = m_SpaceID m"
  "sm_subject (member_row_of m) = m_Subject m" "sm_role (member_row_of m) = m_Role m"
  "sm_state (member_row_of m) = m_State m"
  by (simp_all add: member_row_of_def)

lemma spaceCAS_Inr:
  assumes "spaceCAS env db c now = Inr db'"
  shows "db' = db\<lparr>spaces := map (cas_row c now) (spaces db)\<rparr>"
    and "\<exists>r \<in> set (spaces db). cas_match c r"
    and "\<forall>r \<in> set (spaces db). space_row_check r \<longrightarrow> space_row_check (cas_row c now r)"
    and "spaceTenant env db' (mc_TenantID c) = None"
proof -
  from assms obtain n where upd: "cas_update env db c now = Inr (db', n)" and n: "n = 1"
    and ten: "spaceTenant env db' (mc_TenantID c) = None"
    by (auto simp: spaceCAS_def go_simps split: if_splits)
  from upd show "db' = db\<lparr>spaces := map (cas_row c now) (spaces db)\<rparr>"
    by (auto simp: cas_update_def go_simps split: if_splits)
  from upd n have "filter (cas_match c) (spaces db) \<noteq> []"
    by (auto simp: cas_update_def go_simps split: if_splits)
  then show "\<exists>r \<in> set (spaces db). cas_match c r"
    by (auto simp: filter_empty_conv)
  from upd have "\<forall>r \<in> set (spaces db). cas_match c r \<longrightarrow> space_row_check (cas_row c now r)"
    by (auto simp: cas_update_def go_simps list_all_iff split: if_splits)
  then show "\<forall>r \<in> set (spaces db). space_row_check r \<longrightarrow> space_row_check (cas_row c now r)"
    by (metis cas_row_def)
  show "spaceTenant env db' (mc_TenantID c) = None" by (rule ten)
qed

text \<open>The two ways a member command changes the member table.\<close>

lemma spaceUpdateMember_Inr:
  assumes "spaceUpdateMember env db m = Inr db'"
  shows "db' = db\<lparr>space_members := map (update_member_row (member_row_of m)) (space_members db)\<rparr>"
    and "\<forall>r \<in> set (space_members db). member_row_check r \<longrightarrow> member_row_check (update_member_row (member_row_of m) r)"
proof -
  let ?hit = "same_member (m_TenantID m) (m_SpaceID m) (m_Subject m)"
  have hit: "same_member (sm_tenant_id (member_row_of m)) (sm_space_id (member_row_of m)) (sm_subject (member_row_of m)) = ?hit"
    by (simp add: member_row_of_def)
  from assms have "list_all member_row_check (map (update_member_row (member_row_of m)) (filter ?hit (space_members db)))"
    and db': "db' = db\<lparr>space_members := map (update_member_row (member_row_of m)) (space_members db)\<rparr>"
    by (auto simp: spaceUpdateMember_def update_members_def go_simps hit Let_def split: if_splits)
  then have "\<forall>r \<in> set (space_members db). ?hit r \<longrightarrow> member_row_check (update_member_row (member_row_of m) r)"
    by (auto simp: list_all_iff)
  then show "\<forall>r \<in> set (space_members db). member_row_check r \<longrightarrow> member_row_check (update_member_row (member_row_of m) r)"
    by (metis update_member_row_def hit)
  show "db' = db\<lparr>space_members := map (update_member_row (member_row_of m)) (space_members db)\<rparr>" by (rule db')
qed

lemma spaceMember_Inr:
  "spaceMember env db t i s = Inr m \<Longrightarrow>
     \<exists>r \<in> set (space_members db). m = scanSpaceMember r \<and> sm_tenant_id r = t \<and> sm_space_id r = i \<and> sm_subject r = s"
proof -
  assume "spaceMember env db t i s = Inr m"
  then obtain rs where "map scanSpaceMember (filter (same_member t i s) (space_members db)) = m # rs"
    by (auto simp: spaceMember_def query_row_Inr)
  then obtain r where "m = scanSpaceMember r" "r \<in> set (filter (same_member t i s) (space_members db))"
    by (metis list.set_intros(1) map_eq_Cons_D)
  then show ?thesis by (auto simp: same_member_def)
qed

lemma another_admin:
  assumes "distinct (map member_pk ms)" and "1 < length (filter P ms)" and "a \<in> set ms"
  shows "\<exists>b \<in> set ms. P b \<and> member_pk b \<noteq> member_pk a"
proof -
  have "distinct (filter P ms)" using assms(1) distinct_filter distinct_map by blast
  then have "card (set (filter P ms)) = length (filter P ms)" by (rule distinct_card)
  then have "\<not> set (filter P ms) \<subseteq> {a}"
    using assms(2) card_mono [of "{a}" "set (filter P ms)"] by fastforce
  then obtain b where "b \<in> set ms" "P b" "b \<noteq> a" by auto
  moreover have "inj_on member_pk (set ms)" using assms(1) by (simp add: distinct_map)
  ultimately show ?thesis using assms(3) by (meson inj_onD)
qed

lemma spaceProtectAdmin_keeps:
  assumes ok: "spaceProtectAdmin env db before after = None"
    and dist: "distinct (map member_pk (space_members db))"
    and r: "r \<in> set (space_members db)" "before = scanSpaceMember r"
    and after: "m_TenantID after = sm_tenant_id r" "m_SpaceID after = sm_space_id r" "m_Subject after = sm_subject r"
    and a: "a \<in> set (space_members db)" "active_user_admin t i a"
  shows "\<exists>b \<in> set (map (update_member_row (member_row_of after)) (space_members db)). active_user_admin t i b"
proof -
  let ?upd = "update_member_row (member_row_of after)"
  have untouched: "?upd x = x" if "member_pk x \<noteq> member_pk r" for x
    using that after by (auto simp: update_member_row_def member_row_of_def same_member_def)
  show ?thesis
  proof (cases "member_pk a = member_pk r")
    case False
    with untouched a show ?thesis by (metis imageI list.set_map)
  next
    case True
    with a r dist have "a = r" by (auto simp: distinct_map dest: inj_onD)
    with a(2) r(2) have key: "m_TenantID before = t" "m_SpaceID before = i" and
      was: "SKind (m_Subject before) = User" "m_State before = Active" "m_Role before = Admin"
      by (auto simp: active_user_admin_def scanSpaceMember_def)
    show ?thesis
    proof (cases "m_State after = Active \<and> m_Role after = Admin")
      case True
      have "active_user_admin t i (?upd r)"
        using True a(2) \<open>a = r\<close> after by (auto simp: active_user_admin_def update_member_row_def member_row_of_def same_member_def)
      with r(1) show ?thesis by auto
    next
      case False
      with ok was key have "1 < length (filter (active_user_admin t i) (space_members db))"
        by (auto simp: spaceProtectAdmin_def stmt_def split: option.splits)
      from another_admin [OF dist this r(1)] obtain b where
        "b \<in> set (space_members db)" "active_user_admin t i b" "member_pk b \<noteq> member_pk r" by blast
      with untouched show ?thesis by (metis imageI list.set_map)
    qed
  qed
qed

lemma spaceMemberAfter_key:
  assumes "mc_Action c \<noteq> AddMember"
  shows "m_TenantID (spaceMemberAfter c before now) = m_TenantID before"
    "m_SpaceID (spaceMemberAfter c before now) = m_SpaceID before"
    "m_Subject (spaceMemberAfter c before now) = m_Subject before"
  using assms by (auto simp: spaceMemberAfter_def Let_def)

lemma spaceMemberAfter_add_key:
  assumes "mc_Action c = AddMember"
  shows "m_TenantID (spaceMemberAfter c before now) = mc_TenantID c"
    "m_SpaceID (spaceMemberAfter c before now) = mc_SpaceID c"
    "m_Subject (spaceMemberAfter c before now) = mc_Target c"
  using assms by (auto simp: spaceMemberAfter_def Let_def)

text \<open>What a successful member command does to the member table.\<close>

definition members_step :: "member_row list \<Rightarrow> member_row list \<Rightarrow> bool" where
  "members_step ms ms' \<longleftrightarrow>
     distinct (map member_pk ms') \<and>
     (\<forall>m' \<in> set ms'. member_row_check m') \<and>
     (\<forall>t i. (\<exists>a \<in> set ms. active_user_admin t i a) \<longrightarrow> (\<exists>b \<in> set ms'. active_user_admin t i b))"

lemma spaceChangeMemberRows_Inr:
  assumes ok: "spaceChangeMemberRows env newid db c now = Inr db'"
    and dist: "distinct (map member_pk (space_members db))"
    and checks: "\<forall>m \<in> set (space_members db). member_row_check m"
  obtains ms h where "db' = db\<lparr>space_members := ms, space_history := space_history db @ [h]\<rparr>"
    "members_step (space_members db) ms"
    "(\<lambda>m. (sm_tenant_id m, sm_space_id m)) ` set ms \<subseteq>
       insert (mc_TenantID c, mc_SpaceID c) ((\<lambda>m. (sm_tenant_id m, sm_space_id m)) ` set (space_members db))"
    "history_row_check h" "sh_tenant_id h = mc_TenantID c" "sh_space_id h = mc_SpaceID c"
    "sh_after_revision h = mc_ExpectedRevision c + 1" "sh_actor h = mc_Actor c" "sh_command_type h = mc_Action c"
proof -
  define found where "found = spaceMember env db (mc_TenantID c) (mc_SpaceID c) (mc_Target c)"
  define before where "before = (case found of Inl _ \<Rightarrow> zero_Member | Inr m \<Rightarrow> m)"
  define after where "after = spaceMemberAfter c before now"
  from ok obtain db1 h0 where
    state: "spaceMemberState c before (case found of Inl _ \<Rightarrow> False | Inr _ \<Rightarrow> True) = None" and
    prot: "spaceProtectAdmin env db before after = None" and
    wr: "(if mc_Action c = AddMember then spaceInsertMember env db after else spaceUpdateMember env db after) = Inr db1" and
    hist: "spaceAppendHistory env newid db1 h0 = Inr db'" and
    h0: "h_TenantID h0 = mc_TenantID c" "h_SpaceID h0 = mc_SpaceID c" "h_AfterRevision h0 = mc_ExpectedRevision c + 1"
      "h_Actor h0 = mc_Actor c" "h_CommandType h0 = mc_Action c"
    unfolding spaceChangeMemberRows_def Let_def found_def [symmetric] before_def [symmetric] after_def [symmetric] rbind_Inr ok_or_Inr
    by auto
  from hist obtain h where h: "db' = db1\<lparr>space_history := space_history db1 @ [h]\<rparr>" "history_row_check h"
    "sh_tenant_id h = h_TenantID h0" "sh_space_id h = h_SpaceID h0" "sh_after_revision h = h_AfterRevision h0"
    "sh_command_type h = h_CommandType h0" "sh_actor h = h_Actor h0"
    by (rule spaceAppendHistory_Inr)
  have "\<exists>ms. db1 = db\<lparr>space_members := ms\<rparr> \<and> members_step (space_members db) ms \<and>
      (\<lambda>m. (sm_tenant_id m, sm_space_id m)) ` set ms \<subseteq>
       insert (mc_TenantID c, mc_SpaceID c) ((\<lambda>m. (sm_tenant_id m, sm_space_id m)) ` set (space_members db))"
  proof (cases "mc_Action c = AddMember")
    case True
    with wr have "spaceInsertMember env db after = Inr db1" by simp
    note ins = spaceInsertMember_Inr [OF this]
    with dist checks have "members_step (space_members db) (space_members db @ [member_row_of after])"
      unfolding members_step_def by auto
    with ins spaceMemberAfter_add_key [OF True, of before now] show ?thesis
      by (intro exI [of _ "space_members db @ [member_row_of after]"]) (simp add: after_def subset_insertI)
  next
    case False
    with wr have "spaceUpdateMember env db after = Inr db1" by simp
    note upd = spaceUpdateMember_Inr [OF this]
    from False state obtain m where m: "found = Inr m"
      by (auto simp: spaceMemberState_def split: sum.splits)
    then obtain r where r: "r \<in> set (space_members db)" "m = scanSpaceMember r"
      using spaceMember_Inr unfolding found_def by blast
    have "before = scanSpaceMember r" using m r by (simp add: before_def)
    moreover have "m_TenantID after = sm_tenant_id r" "m_SpaceID after = sm_space_id r" "m_Subject after = sm_subject r"
      using spaceMemberAfter_key [OF False, of before now] calculation by (auto simp: after_def scanSpaceMember_def)
    ultimately have "members_step (space_members db) (map (update_member_row (member_row_of after)) (space_members db))"
      unfolding members_step_def
      using dist checks upd(2) spaceProtectAdmin_keeps [OF prot dist r(1)]
      by (auto simp: comp_def)
    with upd(1) show ?thesis
      by (intro exI [of _ "map (update_member_row (member_row_of after)) (space_members db)"]) (auto simp: image_iff)
  qed
  then obtain ms where "db1 = db\<lparr>space_members := ms\<rparr>" "members_step (space_members db) ms"
    "(\<lambda>m. (sm_tenant_id m, sm_space_id m)) ` set ms \<subseteq>
       insert (mc_TenantID c, mc_SpaceID c) ((\<lambda>m. (sm_tenant_id m, sm_space_id m)) ` set (space_members db))" by blast
  with h h0 show thesis by (intro that [where ms = ms and h = h]) auto
qed

lemma cas_match_unique:
  assumes "distinct (map space_pk ss)" "r \<in> set ss" "cas_match c r" "x \<in> set ss" "space_pk x = (mc_TenantID c, mc_SpaceID c)"
  shows "x = r"
proof -
  have "inj_on space_pk (set ss)" using assms(1) by (simp add: distinct_map)
  from inj_onD [OF this _ assms(4,2)] show ?thesis using assms(3,5) by (simp add: cas_match_def)
qed

lemma change_member_inv:
  assumes inv: "spaces_inv db" and cas: "spaceCAS env db c now = Inr db1"
    and rows: "spaceChangeMemberRows env newid db1 c now = Inr db2"
  shows "spaces_inv db2"
proof -
  note I = inv [unfolded spaces_inv_def]
  note C = spaceCAS_Inr [OF cas]
  obtain r where r: "r \<in> set (spaces db)" "cas_match c r" using C(2) by blast
  have mems: "space_members db1 = space_members db" "space_history db1 = space_history db" using C(1) by simp_all
  obtain ms h where D: "db2 = db1\<lparr>space_members := ms, space_history := space_history db1 @ [h]\<rparr>"
    "members_step (space_members db1) ms"
    "(\<lambda>m. (sm_tenant_id m, sm_space_id m)) ` set ms \<subseteq>
       insert (mc_TenantID c, mc_SpaceID c) ((\<lambda>m. (sm_tenant_id m, sm_space_id m)) ` set (space_members db1))"
    "history_row_check h" "sh_tenant_id h = mc_TenantID c" "sh_space_id h = mc_SpaceID c"
    "sh_after_revision h = mc_ExpectedRevision c + 1"
    by (rule spaceChangeMemberRows_Inr [OF rows]) (use I mems in auto)
  have spaces2: "spaces db2 = map (cas_row c now) (spaces db)" using C(1) D(1) by simp
  have pks: "map space_pk (spaces db2) = map space_pk (spaces db)"
    "map (\<lambda>r. (s_tenant_id r, s_backing_bucket r)) (spaces db2) = map (\<lambda>r. (s_tenant_id r, s_backing_bucket r)) (spaces db)"
    by (simp_all add: spaces2)
  have pkset: "space_pk ` set (spaces db2) = space_pk ` set (spaces db)" by (metis pks(1) list.set_map)
  have mine: "(mc_TenantID c, mc_SpaceID c) \<in> space_pk ` set (spaces db)"
    using imageI [OF r(1), of "\<lambda>r. (s_tenant_id r, s_id r)"] r(2) by (simp add: cas_match_def)
  have A: "\<forall>m \<in> set (space_members db2). member_row_check m \<and> (sm_tenant_id m, sm_space_id m) \<in> space_pk ` set (spaces db2)"
    using D(1-3) I mems mine pkset unfolding members_step_def by auto
  have B: "\<forall>h \<in> set (space_history db2). history_row_check h \<and> (sh_tenant_id h, sh_space_id h) \<in> space_pk ` set (spaces db2)"
    using D I mems mine pkset by auto
  have E: "\<exists>m \<in> set (space_members db2). active_user_admin (s_tenant_id s) (s_id s) m" if "s \<in> set (spaces db2)" for s
    using that D(1,2) I mems unfolding spaces2 members_step_def by fastforce
  have F: "revisions (space_history db2) (space_pk s) = {1..s_revision s}" if s: "s \<in> set (spaces db2)" for s
  proof -
    obtain x where x: "x \<in> set (spaces db)" "s = cas_row c now x" using s by (auto simp: spaces2)
    show ?thesis
    proof (cases "space_pk x = (mc_TenantID c, mc_SpaceID c)")
      case True
      have "x = r" using cas_match_unique [OF _ r x(1) True] I by blast
      then have "cas_match c x" using r by simp
      moreover have "1 \<le> s_revision x" using I x(1) by (auto simp: space_row_check_def)
      ultimately show ?thesis
        using I x True D mems by (auto simp: cas_row_def cas_match_def)
    next
      case False
      then have "s = x" using x by (auto simp: cas_row_def cas_match_def)
      then show ?thesis using I x False D mems by auto
    qed
  qed
  have G: "distinct (map space_pk (spaces db2))"
    "distinct (map (\<lambda>r. (s_tenant_id r, s_backing_bucket r)) (spaces db2))"
    "distinct (map member_pk (space_members db2))"
    unfolding pks using I D(1,2) by (simp_all add: members_step_def)
  have H: "\<forall>s \<in> set (spaces db2). space_row_check s"
    using I C(3) by (simp add: spaces2)
  show ?thesis
    unfolding spaces_inv_def using A B E F G H by blast
qed

lemma CreateSpace_inv:
  assumes inv: "spaces_inv db" shows "spaces_inv (fst (CreateSpace U env ctx now newid db c))"
proof -
  have "spaces_inv db'" if "ValidateCreate U c = None" "spaceCreateRows env newid db (new_space c now) c = Inr db'" for db'
    by (rule spaceCreateRows_inv [OF inv that(2)]) (use that(1) in \<open>auto simp: new_space_def ValidateCreate_def\<close>)
  with inv show ?thesis
    by (auto simp: CreateSpace_def Let_def tx_commit_def split: option.splits sum.splits prod.splits)
qed

lemma ChangeSpaceMember_inv:
  assumes inv: "spaces_inv db" shows "spaces_inv (fst (ChangeSpaceMember U env ctx now newid db c))"
  using inv change_member_inv [OF inv]
  by (auto simp: ChangeSpaceMember_def tx_commit_def split: option.splits sum.splits prod.splits)

end
