(* ===== verification/Spaces_Probe.thy ===== *)
theory Spaces_Probe
  imports Spaces_Store "HOL-Library.Multiset"
begin

text \<open>
  What the read-only probes of the Space store (\<open>sql_spaces_binding.go\<close>, \<open>sql_spaces_coverage.go\<close>)
  observe: on a database that satisfies the store's invariant the answers are the facts of the tables.
  The one property of \<open>github.com/google/uuid\<close> used is that \<open>UUID.String\<close> yields visible ASCII text.
\<close>


definition uuid_ascii :: "uuid_lib \<Rightarrow> bool" where
  "uuid_ascii U \<longleftrightarrow> (\<forall>n. uuid_string U n \<noteq> [] \<and> visible_ascii (uuid_string U n))"

definition spaces_wf :: "uuid_lib \<Rightarrow> spaces_db \<Rightarrow> bool" where
  "spaces_wf U db \<longleftrightarrow> spaces_inv db \<and> distinct (map fst (tenants db)) \<and>
     (\<forall>s \<in> set (spaces db). ValidateSpaceRef U (s_tenant_id s) (s_id s) = None \<and>
        s_backing_bucket s = ''spc-'' @ s_id s \<and> s_tenant_id s \<in> fst ` set (tenants db))"

lemma ValidateID_visible: "uuid_ascii U \<Longrightarrow> ValidateID U i = None \<Longrightarrow> i \<noteq> [] \<and> visible_ascii i"
  unfolding uuid_ascii_def ValidateID_def by (auto split: option.splits if_splits)

lemma spaces_wf_binding:
  assumes "uuid_ascii U" "spaces_wf U db" "s \<in> set (spaces db)"
  shows "ValidateBindingInput (s_tenant_id s) (s_backing_bucket s) = None"
proof -
  from assms have ref: "ValidateSpaceRef U (s_tenant_id s) (s_id s) = None" and b: "s_backing_bucket s = ''spc-'' @ s_id s"
    by (auto simp: spaces_wf_def)
  from ref have "visible_ascii (s_id s)" using ValidateID_visible [OF assms(1)] by (simp add: ValidateSpaceRef_ok)
  then have "visible_ascii (s_backing_bucket s)" by (simp add: b visible_ascii_def byte_def)
  with ref b show ?thesis by (simp add: ValidateBindingInput_ok ValidateSpaceRef_ok)
qed

lemma left_matches_tenant:
  assumes "distinct (map fst ts)"
  shows "left_matches (\<lambda>r. fst r = t) ts = [map_option (Pair t) (map_of ts t)]"
proof (cases "map_of ts t")
  case None
  then have "filter (\<lambda>r. fst r = t) ts = []" by (auto simp: map_of_eq_None_iff filter_empty_conv)
  with None show ?thesis by (simp add: left_matches_def)
next
  case (Some st)
  then have "filter (\<lambda>r. fst r = t) ts = [(t, st)]"
    using filter_key_unique [OF assms map_of_SomeD [OF Some]] by simp
  with Some show ?thesis by (simp add: left_matches_def)
qed

lemma left_matches_space:
  assumes "distinct (map (\<lambda>r. (s_tenant_id r, s_backing_bucket r)) ss)"
  shows "left_matches (\<lambda>s. s_tenant_id s = t \<and> s_backing_bucket s = b) ss
           = [List.find (\<lambda>s. s_tenant_id s = t \<and> s_backing_bucket s = b) ss]"
proof (cases "List.find (\<lambda>s. s_tenant_id s = t \<and> s_backing_bucket s = b) ss")
  case None
  then have "filter (\<lambda>s. s_tenant_id s = t \<and> s_backing_bucket s = b) ss = []"
    by (auto simp: find_None_iff filter_empty_conv)
  with None show ?thesis by (simp add: left_matches_def)
next
  case (Some s)
  then have "s \<in> set ss" "s_tenant_id s = t" "s_backing_bucket s = b" by (auto simp: find_Some_iff)
  with filter_key_unique [OF assms this(1)] Some show ?thesis by (simp add: left_matches_def)
qed

lemma wf_tenant_known:
  assumes "spaces_wf U db" "s \<in> set (spaces db)"
  shows "\<exists>st. map_of (tenants db) (s_tenant_id s) = Some st"
  using assms unfolding spaces_wf_def by (metis map_of_eq_None_iff not_None_eq)

lemma wf_revision: "spaces_wf U db \<Longrightarrow> s \<in> set (spaces db) \<Longrightarrow> 0 < s_revision s"
  by (auto simp: spaces_wf_def spaces_inv_def space_row_check_def)

definition binding_of :: "string \<Rightarrow> string \<Rightarrow> string option \<Rightarrow> space_row option \<Rightarrow> BindingResult" where
  "binding_of t b status s =
     \<lparr>br_TenantID = t, br_Bucket = b, br_TenantKnown = (status \<noteq> None), br_TenantStatus = null_string status,
      br_State = (if s = None then BindingUnbound else BindingBound),
      br_SpaceID = null_string (map_option s_id s), br_Revision = (case s of None \<Rightarrow> 0 | Some r \<Rightarrow> s_revision r)\<rparr>"

lemma binding_probe_facts:
  assumes "fault_free env" and wf: "spaces_wf U db" and input: "ValidateBindingInput t b = None"
  shows "ProbeSpaceBinding U env ctx db t b =
    Inr (binding_of t b (map_of (tenants db) t)
          (List.find (\<lambda>s. s_tenant_id s = t \<and> s_backing_bucket s = b) (spaces db)))"
proof -
  let ?st = "map_of (tenants db) t"
  let ?s = "List.find (\<lambda>s. s_tenant_id s = t \<and> s_backing_bucket s = b) (spaces db)"
  have rows: "spaceBindingQuery db t b = [join_of (map_option (Pair t) ?st) ?s]"
    using wf by (simp add: spaceBindingQuery_def left_matches_tenant left_matches_space spaces_wf_def spaces_inv_def)
  have scan: "scanSpaceBinding U (join_of (map_option (Pair t) ?st) ?s) t b = Inr (binding_of t b ?st ?s)"
  proof (cases ?s)
    case None
    then show ?thesis using input
      by (cases ?st) (simp_all add: scanSpaceBinding_def join_of_def validateBindingTenantRow_def spaceBindingFromRow_def
          binding_of_def null_string_def ValidateBindingResult_def)
  next
    case (Some s)
    then have s: "s \<in> set (spaces db)" "s_tenant_id s = t" "s_backing_bucket s = b" by (auto simp: find_Some_iff)
    with wf_tenant_known [OF wf s(1)] obtain st where "?st = Some st" by auto
    moreover have "ValidateID U (s_id s) = None" using wf s by (simp add: spaces_wf_def ValidateSpaceRef_ok)
    ultimately show ?thesis using input s Some wf_revision [OF wf s(1)]
      by (simp add: scanSpaceBinding_def join_of_def validateBindingTenantRow_def spaceBindingFromRow_def
          binding_of_def null_string_def ValidateBindingResult_def validateBoundResult_def)
  qed
  show ?thesis
    using assms(1) input by (simp add: ProbeSpaceBinding_def query_row_def rows scan)
qed

text \<open>On a well-formed database and with no driver fault, the binding probe returns exactly the facts of
  the tables for the requested tenant and bucket: whether the tenant row exists and its raw status,
  and the identity and revision of the Space bound to the bucket, or unbound.\<close>

lemma ProbeSpaceBinding_spec:
  assumes "fault_free env" and wf: "spaces_wf U db" and input: "ValidateBindingInput t b = None"
  shows "ProbeSpaceBinding U env ctx db t b =
    Inr (binding_of t b (map_of (tenants db) t)
          (List.find (\<lambda>s. s_tenant_id s = t \<and> s_backing_bucket s = b) (spaces db)))"
  by (rule binding_probe_facts [OF assms])

text \<open>Rows of a coverage query: one bound row per Space of the scope, or the single NULL row.\<close>

lemma insort_key_map: "insort_key k (f x) (map f xs) = map f (insort_key (\<lambda>y. k (f y)) x xs)"
  by (induction xs) auto

lemma sort_key_map: "sort_key k (map f xs) = map f (sort_key (\<lambda>y. k (f y)) xs)"
  by (induction xs) (auto simp: insort_key_map)

lemma sort_key_Nil_iff: "(sort_key k xs = []) = (xs = [])"
  by (metis length_0_conv length_sort)

definition in_scope :: "CoverageScope \<Rightarrow> space_row \<Rightarrow> bool" where
  "in_scope scope s \<longleftrightarrow> cs_Kind scope = CoverageTenant \<longrightarrow> s_tenant_id s = cs_TenantID scope"

definition tenant_row :: "spaces_db \<Rightarrow> string \<Rightarrow> (string \<times> string) option" where
  "tenant_row db t = map_option (Pair t) (map_of (tenants db) t)"

lemma concat_map_singleton [simp]: "concat (map (\<lambda>x. [f x]) xs) = map f xs"
  by (induction xs) auto

lemma tenant_query_rows:
  assumes "spaces_wf U db" and "cs_Kind scope = CoverageTenant"
  shows "\<exists>ss. mset ss = mset (filter (in_scope scope) (spaces db)) \<and>
    spaceCoverageTenantQuery db (cs_TenantID scope) =
      (if ss = [] then [join_of (tenant_row db (cs_TenantID scope)) None]
       else map (\<lambda>s. join_of (tenant_row db (s_tenant_id s)) (Some s)) ss)"
proof -
  let ?t = "cs_TenantID scope" and ?fs = "filter (in_scope scope) (spaces db)"
  let ?row = "\<lambda>s. join_of (tenant_row db ?t) (Some s)"
  let ?ss = "sort_key (\<lambda>s. (j_bucket (?row s), j_space_id (?row s))) ?fs"
  have fs: "?fs = filter (\<lambda>s. s_tenant_id s = ?t) (spaces db)"
    using assms(2) by (intro filter_cong) (simp_all add: in_scope_def)
  have q: "spaceCoverageTenantQuery db ?t =
      sort_key (\<lambda>r. (j_bucket r, j_space_id r)) (map (join_of (tenant_row db ?t)) (left_matches (\<lambda>s. s_tenant_id s = ?t) (spaces db)))"
    using assms(1) by (simp add: spaceCoverageTenantQuery_def left_matches_tenant spaces_wf_def tenant_row_def)
  have "\<forall>s \<in> set ?fs. s_tenant_id s = ?t" by (simp add: fs)
  then have same: "map ?row ?ss = map (\<lambda>s. join_of (tenant_row db (s_tenant_id s)) (Some s)) ?ss" by simp
  have "spaceCoverageTenantQuery db ?t = (if ?fs = [] then [join_of (tenant_row db ?t) None] else map ?row ?ss)"
  proof (cases "?fs = []")
    case True
    then show ?thesis by (simp add: q left_matches_def fs [symmetric])
  next
    case False
    then have "left_matches (\<lambda>s. s_tenant_id s = ?t) (spaces db) = map Some ?fs"
      by (simp add: left_matches_def fs [symmetric] split: list.splits)
    with False show ?thesis by (simp add: q sort_key_map comp_def)
  qed
  moreover have "mset ?ss = mset ?fs" by simp
  moreover have "(?ss = []) = (?fs = [])" by (rule sort_key_Nil_iff)
  ultimately show ?thesis using same by (intro exI [of _ ?ss]) simp
qed

lemma global_query_rows:
  assumes "spaces_wf U db" and "cs_Kind scope \<noteq> CoverageTenant"
  shows "\<exists>ss. mset ss = mset (filter (in_scope scope) (spaces db)) \<and>
    spaceCoverageGlobalQuery db =
      (if ss = [] then [join_of None None]
       else map (\<lambda>s. join_of (tenant_row db (s_tenant_id s)) (Some s)) ss)"
proof -
  let ?row = "\<lambda>s. join_of (tenant_row db (s_tenant_id s)) (Some s)"
  let ?ss = "sort_key (\<lambda>s. join_order (?row s)) (spaces db)"
  have fs: "filter (in_scope scope) (spaces db) = spaces db"
    using assms(2) by (simp add: in_scope_def)
  have part: "left_matches (\<lambda>t. s_tenant_id s = fst t) (tenants db) = [tenant_row db (s_tenant_id s)]" for s
    using left_matches_tenant [of "tenants db" "s_tenant_id s"] assms(1)
    by (simp add: spaces_wf_def tenant_row_def eq_commute)
  have "spaceCoverageGlobalQuery db = (if spaces db = [] then [join_of None None] else map ?row ?ss)"
  proof (cases "spaces db = []")
    case True
    then show ?thesis by (simp add: spaceCoverageGlobalQuery_def left_matches_def filter_empty_conv split: list.splits)
  next
    case False
    then have "left_matches (\<lambda>_. True) (spaces db) = map Some (spaces db)"
      by (simp add: left_matches_def split: list.splits)
    with False show ?thesis by (simp add: spaceCoverageGlobalQuery_def part comp_def sort_key_map)
  qed
  moreover have "mset ?ss = mset (spaces db)" by simp
  moreover have "(?ss = []) = (spaces db = [])" by (rule sort_key_Nil_iff)
  ultimately show ?thesis using fs by (intro exI [of _ ?ss]) simp
qed

definition witness_of :: "spaces_db \<Rightarrow> space_row \<Rightarrow> BindingResult" where
  "witness_of db s = binding_of (s_tenant_id s) (s_backing_bucket s) (map_of (tenants db) (s_tenant_id s)) (Some s)"

lemma witness_of_simps [simp]:
  "br_TenantID (witness_of db s) = s_tenant_id s" "br_Bucket (witness_of db s) = s_backing_bucket s"
  "br_State (witness_of db s) = BindingBound" "br_SpaceID (witness_of db s) = s_id s"
  "br_Revision (witness_of db s) = s_revision s"
  "br_TenantKnown (witness_of db s) = (map_of (tenants db) (s_tenant_id s) \<noteq> None)"
  "br_TenantStatus (witness_of db s) = null_string (map_of (tenants db) (s_tenant_id s))"
  by (simp_all add: witness_of_def binding_of_def null_string_def)

lemma scan_bound_row:
  assumes "uuid_ascii U" and wf: "spaces_wf U db" and s: "s \<in> set (spaces db)" and "in_scope scope s"
    and "ValidateCoverageScope scope = None"
  shows "scanSpaceCoverageRow U scope (join_of (tenant_row db (s_tenant_id s)) (Some s)) = Inr (witness_of db s)"
proof -
  obtain st where st: "map_of (tenants db) (s_tenant_id s) = Some st" using wf_tenant_known [OF wf s] by blast
  have valid: "ValidateBindingResult U (witness_of db s) = None"
    using spaces_wf_binding [OF assms(1-3)] wf s wf_revision [OF wf s] st
    by (simp add: ValidateBindingResult_bound spaces_wf_def ValidateSpaceRef_ok)
  have "cs_Kind scope \<noteq> CoverageGlobal \<Longrightarrow> cs_TenantID scope = s_tenant_id s"
    using assms(4,5) by (auto simp: in_scope_def ValidateCoverageScope_def split: if_splits)
  then show ?thesis
    using st valid
    by (auto simp: scanSpaceCoverageRow_def Let_def join_of_def tenant_row_def validateBindingTenantRow_def
        spaceBindingFromRow_def witness_of_def binding_of_def null_string_def)
qed

lemma coverage_rows_bound:
  assumes "\<forall>s \<in> set ss. scanSpaceCoverageRow U scope (row s) = Inr (w s) \<and> br_State (w s) = BindingBound \<and>
       (cs_Kind scope = CoverageTenant \<longrightarrow> br_TenantKnown (w s) = k \<and> br_TenantStatus (w s) = st)"
    and "ob_observed ob \<Longrightarrow> \<not> ob_unbound ob \<and> (cs_Kind scope = CoverageTenant \<longrightarrow>
           cr_TenantKnown (ob_result ob) = k \<and> cr_TenantStatus (ob_result ob) = st)"
    and "cr_Scope (ob_result ob) = scope" and "ss \<noteq> []"
  shows "coverage_rows U scope ob (map row ss) =
    Inr \<lparr>ob_result = (ob_result ob)\<lparr>
            cr_TenantKnown := if cs_Kind scope = CoverageTenant then k else cr_TenantKnown (ob_result ob),
            cr_TenantStatus := if cs_Kind scope = CoverageTenant then st else cr_TenantStatus (ob_result ob),
            cr_State := CoverageBound, cr_Witnesses := cr_Witnesses (ob_result ob) @ map w ss\<rparr>,
         ob_observed = True, ob_unbound = False\<rparr>"
  using assms
proof (induction ss arbitrary: ob)
  case (Cons s ss)
  let ?ob = "\<lparr>ob_result = (ob_result ob)\<lparr>
            cr_TenantKnown := if cs_Kind scope = CoverageTenant then k else cr_TenantKnown (ob_result ob),
            cr_TenantStatus := if cs_Kind scope = CoverageTenant then st else cr_TenantStatus (ob_result ob),
            cr_State := CoverageBound, cr_Witnesses := cr_Witnesses (ob_result ob) @ [w s]\<rparr>,
         ob_observed = True, ob_unbound = False\<rparr>"
  have add: "observation_add ob (w s) = Inr ?ob"
    using Cons.prems(1-3) by (auto simp: observation_add_def Let_def)
  show ?case
  proof (cases "ss = []")
    case True
    with add Cons.prems show ?thesis by simp
  next
    case False
    have "coverage_rows U scope ?ob (map row ss) =
      Inr \<lparr>ob_result = (ob_result ?ob)\<lparr>
            cr_TenantKnown := if cs_Kind scope = CoverageTenant then k else cr_TenantKnown (ob_result ?ob),
            cr_TenantStatus := if cs_Kind scope = CoverageTenant then st else cr_TenantStatus (ob_result ?ob),
            cr_State := CoverageBound, cr_Witnesses := cr_Witnesses (ob_result ?ob) @ map w ss\<rparr>,
         ob_observed = True, ob_unbound = False\<rparr>"
      by (rule Cons.IH) (use Cons.prems False in auto)
    with add Cons.prems(1) show ?thesis by simp
  qed
qed simp

definition coverage_of :: "spaces_db \<Rightarrow> CoverageScope \<Rightarrow> BindingResult list \<Rightarrow> CoverageResult" where
  "coverage_of db scope ws =
     (let status = (if cs_Kind scope = CoverageTenant then map_of (tenants db) (cs_TenantID scope) else None) in
      \<lparr>cr_Scope = scope, cr_TenantKnown = (status \<noteq> None), cr_TenantStatus = null_string status,
       cr_State = (if ws = [] then CoverageUnbound else CoverageBound), cr_Complete = True, cr_Witnesses = ws\<rparr>)"

lemma coverage_query_rows:
  assumes "spaces_wf U db"
  shows "\<exists>ss. mset ss = mset (filter (in_scope scope) (spaces db)) \<and>
    (if cs_Kind scope = CoverageTenant then spaceCoverageTenantQuery db (cs_TenantID scope) else spaceCoverageGlobalQuery db) =
      (if ss = [] then [join_of (if cs_Kind scope = CoverageTenant then tenant_row db (cs_TenantID scope) else None) None]
       else map (\<lambda>s. join_of (tenant_row db (s_tenant_id s)) (Some s)) ss)"
  using tenant_query_rows [OF assms] global_query_rows [OF assms] by (cases "cs_Kind scope = CoverageTenant") simp_all

lemma coverage_of_valid:
  assumes "uuid_ascii U" and wf: "spaces_wf U db" and scope: "ValidateCoverageScope scope = None"
    and ss: "mset ss = mset (filter (in_scope scope) (spaces db))"
  shows "ValidateCoverageObservation U scope (coverage_of db scope (map (witness_of db) ss)) = None"
proof -
  have mem: "s \<in> set (spaces db) \<and> in_scope scope s" if "s \<in> set ss" for s
    using that ss mset_eq_setD [OF ss] by auto
  have dist: "distinct (map f ss)" if "distinct (map f (spaces db))" for f :: "space_row \<Rightarrow> string \<times> string"
  proof -
    have "distinct (map f (filter (in_scope scope) (spaces db)))" using that by (rule distinct_map_filter)
    moreover have "mset (map f ss) = mset (map f (filter (in_scope scope) (spaces db)))" by (metis ss mset_map)
    ultimately show ?thesis by (metis mset_eq_imp_distinct_iff)
  qed
  have wit: "ValidateID U (s_id s) = None \<and> ValidateBindingInput (s_tenant_id s) (s_backing_bucket s) = None \<and>
      0 < s_revision s \<and> map_of (tenants db) (s_tenant_id s) \<noteq> None" if "s \<in> set ss" for s
    using mem [OF that] wf spaces_wf_binding [OF assms(1) wf] wf_revision [OF wf] wf_tenant_known [OF wf]
    by (auto simp: spaces_wf_def ValidateSpaceRef_ok)
  have "distinct (map (\<lambda>s. (s_tenant_id s, s_backing_bucket s)) ss)" "distinct (map (\<lambda>s. (s_tenant_id s, s_id s)) ss)"
    by (rule dist; use wf in \<open>simp add: spaces_wf_def spaces_inv_def\<close>)+
  then show ?thesis
    using scope wit mem unfolding coverage_observation_ok
    by (auto simp: coverage_of_def Let_def comp_def in_scope_def statuses_agree_def list_all_iff null_string_def
        ValidateCoverageScope_def)
qed

lemma scanSpaceCoverage_spec:
  assumes "fault_free env" "uuid_ascii U" and wf: "spaces_wf U db" and scope: "ValidateCoverageScope scope = None"
    and ss: "mset ss = mset (filter (in_scope scope) (spaces db))"
  shows "scanSpaceCoverage U env scope
     (if ss = [] then [join_of (if cs_Kind scope = CoverageTenant then tenant_row db (cs_TenantID scope) else None) None]
       else map (\<lambda>s. join_of (tenant_row db (s_tenant_id s)) (Some s)) ss)
   = Inr (coverage_of db scope (map (witness_of db) ss))"
proof (cases "ss = []")
  case True
  have rows: "\<exists>ob. coverage_rows U scope (zero_observation scope)
      [join_of (if cs_Kind scope = CoverageTenant then tenant_row db (cs_TenantID scope) else None) None] = Inr ob \<and>
      ob_observed ob \<and> (ob_result ob)\<lparr>cr_Complete := True\<rparr> = coverage_of db scope []"
    using scope
    by (cases "map_of (tenants db) (cs_TenantID scope)")
      (auto simp: scanSpaceCoverageRow_def join_of_def tenant_row_def validateBindingTenantRow_def spaceBindingFromRow_def
        null_string_def zero_observation_def observation_add_def coverage_of_def Let_def ValidateCoverageScope_def
        split: if_splits)
  then show ?thesis
    using True assms(1) coverage_of_valid [OF assms(2-5)]
    by (auto simp: scanSpaceCoverage_def Let_def fault_free_def)
next
  case False
  have mem: "s \<in> set (spaces db) \<and> in_scope scope s" if "s \<in> set ss" for s
    using that mset_eq_setD [OF ss] by auto
  let ?st = "map_of (tenants db) (cs_TenantID scope)"
  have rows: "coverage_rows U scope (zero_observation scope) (map (\<lambda>s. join_of (tenant_row db (s_tenant_id s)) (Some s)) ss) =
     Inr \<lparr>ob_result = (ob_result (zero_observation scope))\<lparr>
            cr_TenantKnown := if cs_Kind scope = CoverageTenant then ?st \<noteq> None else cr_TenantKnown (ob_result (zero_observation scope)),
            cr_TenantStatus := if cs_Kind scope = CoverageTenant then null_string ?st else cr_TenantStatus (ob_result (zero_observation scope)),
            cr_State := CoverageBound, cr_Witnesses := cr_Witnesses (ob_result (zero_observation scope)) @ map (witness_of db) ss\<rparr>,
         ob_observed = True, ob_unbound = False\<rparr>"
    by (rule coverage_rows_bound)
      (use mem scan_bound_row [OF assms(2) wf _ _ scope] False in \<open>auto simp: zero_observation_def in_scope_def\<close>)
  then show ?thesis
    using False assms(1) coverage_of_valid [OF assms(2-5)]
    by (auto simp: scanSpaceCoverage_def Let_def coverage_of_def null_string_def zero_observation_def fault_free_def)
qed

text \<open>On a well-formed database and with no driver fault or cancellation, the coverage probe returns a
  complete observation whose witnesses are exactly the bindings of the Spaces in scope (each once);
  it is unbound exactly when there is none.\<close>

lemma ProbeSpaceCoverage_spec:
  assumes "fault_free env" and "ctx_err_after ctx = None" and "uuid_ascii U" and "spaces_wf U db"
    and "ValidateCoverageScope scope = None"
  shows "\<exists>ws. ProbeSpaceCoverage U env ctx db scope = Inr (coverage_of db scope ws) \<and>
     mset ws = mset (map (witness_of db) (filter (in_scope scope) (spaces db)))"
proof -
  from coverage_query_rows [OF assms(4), of scope] obtain ss where
    ss: "mset ss = mset (filter (in_scope scope) (spaces db))" and
    q: "(if cs_Kind scope = CoverageTenant then spaceCoverageTenantQuery db (cs_TenantID scope) else spaceCoverageGlobalQuery db) =
      (if ss = [] then [join_of (if cs_Kind scope = CoverageTenant then tenant_row db (cs_TenantID scope) else None) None]
       else map (\<lambda>s. join_of (tenant_row db (s_tenant_id s)) (Some s)) ss)"
    by blast
  have "ProbeSpaceCoverage U env ctx db scope = Inr (coverage_of db scope (map (witness_of db) ss))"
    unfolding ProbeSpaceCoverage_def q scanSpaceCoverage_spec [OF assms(1,3,4,5) ss]
    using assms by simp
  moreover have "mset (map (witness_of db) ss) = mset (map (witness_of db) (filter (in_scope scope) (spaces db)))"
    by (metis ss mset_map)
  ultimately show ?thesis by blast
qed

end
