(* ===== verification/Spaces_Governance.thy ===== *)
theory Spaces_Governance
  imports Spaces_Probe
begin

text \<open>
  Governance of Spaces: the databases reachable by \<open>CreateSpace\<close> and \<open>ChangeSpaceMember\<close> (under any
  driver faults and uncertain commits) interleaved with changes of tenants and buckets that the
  foreign keys permit; compare-and-swap on the revision; protection of the last admin; and the
  agreement of creation with the queries.
\<close>

section \<open>Reachable databases\<close>

inductive space_reach :: "uuid_lib \<Rightarrow> spaces_db \<Rightarrow> bool" for U where
  reach_init: "distinct (map fst (tenants db)) \<Longrightarrow> spaces db = [] \<Longrightarrow> space_members db = [] \<Longrightarrow>
     space_history db = [] \<Longrightarrow> space_reach U db"
| reach_create: "space_reach U db \<Longrightarrow> space_reach U (fst (CreateSpace U env ctx now newid db c))"
| reach_change: "space_reach U db \<Longrightarrow> space_reach U (fst (ChangeSpaceMember U env ctx now newid db c))"
| reach_other: "space_reach U db \<Longrightarrow> distinct (map fst ts) \<Longrightarrow> s_tenant_id ` set (spaces db) \<subseteq> fst ` set ts \<Longrightarrow>
     space_reach U (db\<lparr>tenants := ts, buckets := bs\<rparr>)"

lemma CreateSpace_success:
  assumes "CreateSpace U env ctx now newid db c = (db', Inr v)"
  shows "ValidateCreate U c = None" "v = new_space c now"
    "spaceCreateRows env newid db (new_space c now) c = Inr db'"
  using assms by (auto simp: CreateSpace_def Let_def split: option.splits sum.splits prod.splits dest: tx_commit_ok)

lemma CreateSpace_db:
  "fst (CreateSpace U env ctx now newid db c) = db \<or>
   ValidateCreate U c = None \<and>
   spaceCreateRows env newid db (new_space c now) c = Inr (fst (CreateSpace U env ctx now newid db c))"
  by (auto simp: CreateSpace_def Let_def tx_commit_def split: option.splits sum.splits prod.splits)

lemma ChangeSpaceMember_success:
  assumes "ChangeSpaceMember U env ctx now newid db c = (db', Inr n)"
  shows "ValidateMemberCommand U c = None" "n = mc_ExpectedRevision c + 1"
    "\<exists>db1. spaceCAS env db c now = Inr db1 \<and> spaceChangeMemberRows env newid db1 c now = Inr db'"
  using assms
  by (auto simp: ChangeSpaceMember_def split: option.splits sum.splits prod.splits dest: tx_commit_ok)

lemma ChangeSpaceMember_db:
  "fst (ChangeSpaceMember U env ctx now newid db c) = db \<or>
   (\<exists>db1. spaceCAS env db c now = Inr db1 \<and>
      spaceChangeMemberRows env newid db1 c now = Inr (fst (ChangeSpaceMember U env ctx now newid db c)))"
  by (auto simp: ChangeSpaceMember_def tx_commit_def split: option.splits sum.splits prod.splits)

lemma change_member_spaces:
  assumes "spaces_inv db" "spaceCAS env db c now = Inr db1" "spaceChangeMemberRows env newid db1 c now = Inr db2"
  shows "spaces db2 = map (cas_row c now) (spaces db) \<and> tenants db2 = tenants db"
proof -
  note C = spaceCAS_Inr [OF assms(2)]
  have "distinct (map member_pk (space_members db1))" "\<forall>m \<in> set (space_members db1). member_row_check m"
    using assms(1) C(1) by (auto simp: spaces_inv_def)
  from spaceChangeMemberRows_Inr [OF assms(3) this] obtain ms h where
    "db2 = db1\<lparr>space_members := ms, space_history := space_history db1 @ [h]\<rparr>" by metis
  with C(1) show ?thesis by simp
qed

lemma CreateSpace_wf:
  assumes wf: "spaces_wf U db" shows "spaces_wf U (fst (CreateSpace U env ctx now newid db c))"
  using CreateSpace_db [of U env ctx now newid db c]
proof
  assume valid: "ValidateCreate U c = None \<and>
    spaceCreateRows env newid db (new_space c now) c = Inr (fst (CreateSpace U env ctx now newid db c))"
  let ?db = "fst (CreateSpace U env ctx now newid db c)"
  from valid have rows: "spaceCreateRows env newid db (new_space c now) c = Inr ?db" by simp
  have rev: "sp_Revision (new_space c now) = 1" by (simp add: new_space_def)
  obtain b s m h where new:
    "?db = db\<lparr>buckets := buckets db @ [b], spaces := spaces db @ [s],
             space_members := space_members db @ [m], space_history := space_history db @ [h]\<rparr>"
    "scanSpace s = new_space c now" "s_tenant_id s \<in> fst ` set (tenants db)"
    by (rule spaceCreateRows_Inr [OF rows rev]) (rule that, assumption+)
  from new(2) have "s_tenant_id s = cc_TenantID c" "s_id s = cc_ID c" "s_backing_bucket s = ''spc-'' @ cc_ID c"
    by (auto simp: scanSpace_def new_space_def)
  moreover have "ValidateSpaceRef U (cc_TenantID c) (cc_ID c) = None"
    using valid by (simp add: ValidateCreate_def validateCommand_def)
  moreover have "spaces_inv ?db" using CreateSpace_inv wf by (simp add: spaces_wf_def)
  ultimately show ?thesis using wf new(1,3) by (simp add: spaces_wf_def)
qed (use wf in simp)

lemma ChangeSpaceMember_wf:
  assumes wf: "spaces_wf U db" shows "spaces_wf U (fst (ChangeSpaceMember U env ctx now newid db c))"
  using ChangeSpaceMember_db [of U env ctx now newid db c]
proof
  let ?db = "fst (ChangeSpaceMember U env ctx now newid db c)"
  assume "\<exists>db1. spaceCAS env db c now = Inr db1 \<and> spaceChangeMemberRows env newid db1 c now = Inr ?db"
  then have "spaces ?db = map (cas_row c now) (spaces db) \<and> tenants ?db = tenants db"
    using change_member_spaces wf unfolding spaces_wf_def by blast
  moreover have "spaces_inv ?db" using ChangeSpaceMember_inv wf by (simp add: spaces_wf_def)
  ultimately show ?thesis using wf by (simp add: spaces_wf_def)
qed (use wf in simp)

lemma space_reach_wf: "space_reach U db \<Longrightarrow> spaces_wf U db"
proof (induction rule: space_reach.induct)
  case (reach_init db)
  then show ?case by (simp add: spaces_wf_def spaces_inv_def)
next
  case (reach_other db ts bs)
  then show ?case by (auto simp: spaces_wf_def spaces_inv_def)
qed (simp_all add: CreateSpace_wf ChangeSpaceMember_wf)

text \<open>C10. In every reachable database each Space has an active user admin, its history records every
  revision from 1 to the current one, and no two rows have its key.\<close>

theorem space_governance:
  assumes "space_reach U db" and "s \<in> set (spaces db)"
  shows "(\<exists>m \<in> set (space_members db). active_user_admin (s_tenant_id s) (s_id s) m) \<and>
    revisions (space_history db) (space_pk s) = {1..s_revision s} \<and>
    (\<forall>s' \<in> set (spaces db). space_pk s' = space_pk s \<longrightarrow> s' = s)"
  using space_reach_wf [OF assms(1)] assms(2)
  by (auto simp: spaces_wf_def spaces_inv_def distinct_map inj_on_def)

text \<open>C11. A member command that succeeds found the Space at the expected revision and moves it to the next
  one; any further command with the same expected revision is rejected and changes nothing.\<close>

theorem ChangeSpaceMember_cas:
  assumes inv: "spaces_inv db" and ok: "ChangeSpaceMember U env ctx now newid db c = (db', Inr n)"
    and same: "mc_TenantID c' = mc_TenantID c" "mc_SpaceID c' = mc_SpaceID c" "mc_ExpectedRevision c' = mc_ExpectedRevision c"
  shows "n = mc_ExpectedRevision c + 1 \<and>
    (\<exists>s \<in> set (spaces db). space_pk s = (mc_TenantID c, mc_SpaceID c) \<and> s_revision s = mc_ExpectedRevision c) \<and>
    (\<exists>s \<in> set (spaces db'). space_pk s = (mc_TenantID c, mc_SpaceID c) \<and> s_revision s = n) \<and>
    (\<exists>e. ChangeSpaceMember U env' ctx' now' newid' db' c' = (db', Inl e))"
proof -
  from ChangeSpaceMember_success [OF ok] obtain db1 where n: "n = mc_ExpectedRevision c + 1" and
    cas: "spaceCAS env db c now = Inr db1" and rows: "spaceChangeMemberRows env newid db1 c now = Inr db'" by blast
  have spaces': "spaces db' = map (cas_row c now) (spaces db)" using change_member_spaces [OF inv cas rows] by simp
  obtain s where s: "s \<in> set (spaces db)" "cas_match c s" using spaceCAS_Inr(2) [OF cas] by blast
  have stale: "\<not> cas_match c' x" if "x \<in> set (spaces db')" for x
  proof
    assume "cas_match c' x"
    obtain y where y: "y \<in> set (spaces db)" "x = cas_row c now y" using \<open>x \<in> _\<close> by (auto simp: spaces')
    have "space_pk y = (mc_TenantID c, mc_SpaceID c)"
      using \<open>cas_match c' x\<close> y same by (simp add: cas_match_def)
    then have "y = s" using cas_match_unique [OF _ s y(1)] inv by (simp add: spaces_inv_def)
    then show False using \<open>cas_match c' x\<close> y s same by (simp add: cas_match_def cas_row_def)
  qed
  have "\<exists>e. spaceCAS env' db' c' now' = Inl e"
    using spaceCAS_Inr(2) [of env' db' c' now'] stale by (cases "spaceCAS env' db' c' now'") auto
  then have "\<exists>e. ChangeSpaceMember U env' ctx' now' newid' db' c' = (db', Inl e)"
    by (auto simp: ChangeSpaceMember_def split: option.splits)
  moreover have "cas_row c now s \<in> set (spaces db')" using s by (simp add: spaces')
  moreover have "s_revision (cas_row c now s) = n" using s n by (simp add: cas_row_def cas_match_def)
  ultimately show ?thesis using s n
    by (intro conjI bexI [of _ s] bexI [of _ "cas_row c now s"]) (simp_all add: cas_match_def)
qed

lemma spaceTenant_ok:
  "spaceTenant env db t = None \<longleftrightarrow>
     fault env ''tenant status'' = None \<and> (\<exists>rs. map snd (filter (\<lambda>r. fst r = t) (tenants db)) = Active # rs)"
  by (auto simp: spaceTenant_def query_row_def stmt_def split: option.splits list.splits)

lemma spaceCreateRows_tenant:
  assumes "spaceCreateRows env newid db v c = Inr db'"
  shows "\<exists>rs. map snd (filter (\<lambda>r. fst r = sp_TenantID v) (tenants db)) = Active # rs"
  using assms by (cases "dialect_of env") (auto simp: spaceCreateRows_def go_simps spaceTenant_ok)

lemma spaceRead_ok:
  assumes "fault_free env" and "spaceTenant env db t = None"
  shows "spaceRead env ctx db t f = wrap_err (spaceSQLError ctx ''read'') (f db)"
  using assms by (cases "f db") (simp_all add: spaceRead_def)

text \<open>A Space that was created is found by its id and by its backing bucket, and its creator is an
  active admin member.\<close>

lemma CreateSpace_roundtrip:
  assumes inv: "spaces_inv db" and ok: "CreateSpace U env ctx now newid db c = (db', Inr v)"
    and "fault_free env'" and "uuid_ascii U"
  shows "GetSpace U env' ctx' db' (cc_TenantID c) (cc_ID c) = Inr v \<and>
    GetSpaceByBucket env' ctx' db' (cc_TenantID c) (sp_BackingBucket v) = Inr v \<and>
    (\<exists>m. GetSpaceMember U env' ctx' db' (cc_TenantID c) (cc_ID c) (cc_Actor c) = Inr m \<and>
         m_Role m = Admin \<and> m_State m = Active)"
proof -
  note S = CreateSpace_success [OF ok]
  obtain b s m h where new:
    "db' = db\<lparr>buckets := buckets db @ [b], spaces := spaces db @ [s],
             space_members := space_members db @ [m], space_history := space_history db @ [h]\<rparr>"
    "space_pk s \<notin> space_pk ` set (spaces db)"
    "(s_tenant_id s, s_backing_bucket s) \<notin> (\<lambda>r. (s_tenant_id r, s_backing_bucket r)) ` set (spaces db)"
    "member_pk m \<notin> member_pk ` set (space_members db)" "scanSpace s = new_space c now"
    "sm_tenant_id m = s_tenant_id s" "sm_space_id m = s_id s" "sm_subject m = cc_Actor c" "sm_role m = Admin" "sm_state m = Active"
    by (rule spaceCreateRows_Inr [OF S(3)]) (simp add: new_space_def, rule that, assumption+)
  from new(5) have key: "s_tenant_id s = cc_TenantID c" "s_id s = cc_ID c" "s_backing_bucket s = sp_BackingBucket v"
    "sp_BackingBucket v = ''spc-'' @ cc_ID c"
    by (auto simp: scanSpace_def new_space_def S(2))
  have active: "spaceTenant env' db' (cc_TenantID c) = None"
    using spaceCreateRows_tenant [OF S(3)] \<open>fault_free env'\<close> new(1)
    by (simp add: spaceTenant_ok fault_free_def new_space_def)
  have ref: "ValidateSpaceRef U (cc_TenantID c) (cc_ID c) = None" "ValidateSubject (cc_Actor c) = None"
    using S(1) by (simp_all add: ValidateCreate_def validateCommand_def)
  have "visible_ascii (sp_BackingBucket v)"
    using ValidateID_visible [OF \<open>uuid_ascii U\<close>] ref(1) key(4) by (simp add: ValidateSpaceRef_ok visible_ascii_def byte_def)
  then have bucket: "ValidateTenant (cc_TenantID c) = None" "ValidateIdentifier (sp_BackingBucket v) = None"
    using ref(1) key(4) by (simp_all add: ValidateSpaceRef_ok)
  have "filter (\<lambda>r. s_tenant_id r = cc_TenantID c \<and> s_id r = cc_ID c) (spaces db) = []"
    "filter (\<lambda>r. s_tenant_id r = cc_TenantID c \<and> s_backing_bucket r = sp_BackingBucket v) (spaces db) = []"
    "filter (same_member (cc_TenantID c) (cc_ID c) (cc_Actor c)) (space_members db) = []"
    using new(2-4,6-8) key by (auto simp: filter_empty_conv image_iff same_member_def)
  then have found: "spaceRoot env' db' (cc_TenantID c) (cc_ID c) = Inr v"
    "query_row env' ''space by bucket'' (map scanSpace
           (filter (\<lambda>r. s_tenant_id r = cc_TenantID c \<and> s_backing_bucket r = sp_BackingBucket v) (spaces db'))) = Inr v"
    "spaceMember env' db' (cc_TenantID c) (cc_ID c) (cc_Actor c) = Inr (scanSpaceMember m)"
    using new key \<open>fault_free env'\<close> S(2)
    by (simp_all add: spaceRoot_def spaceMember_def query_row_def same_member_def)
  show ?thesis
    unfolding GetSpace_def GetSpaceByBucket_def GetSpaceMember_def
    using ref bucket found new(9,10)
    by (simp add: spaceRead_ok [OF \<open>fault_free env'\<close> active] scanSpaceMember_def)
qed

text \<open>C12. Revoking or demoting the only active user admin of a Space is refused with ErrLastAdmin and leaves
  the database unchanged.\<close>

theorem ChangeSpaceMember_last_admin:
  assumes inv: "spaces_inv db" and "fault_free env" and valid: "ValidateMemberCommand U c = None"
    and active: "spaceTenant env db (mc_TenantID c) = None"
    and root: "s \<in> set (spaces db)" "cas_match c s" "0 < unix_nano now"
    and target: "r \<in> set (space_members db)" "active_user_admin (mc_TenantID c) (mc_SpaceID c) r" "sm_subject r = mc_Target c"
    and only: "\<forall>m \<in> set (space_members db). active_user_admin (mc_TenantID c) (mc_SpaceID c) m \<longrightarrow> m = r"
    and act: "mc_Action c = RevokeMember \<or> mc_Action c = ChangeRole \<and> mc_Role c \<noteq> Admin"
  shows "ChangeSpaceMember U env ctx now newid db c = (db, Inl (Sentinel SpacesLastAdmin))"
proof -
  let ?db = "db\<lparr>spaces := map (cas_row c now) (spaces db)\<rparr>"
  have pk: "distinct (map space_pk (spaces db))" and dist: "distinct (map member_pk (space_members db))"
    and chk: "\<forall>s \<in> set (spaces db). space_row_check s" using inv by (auto simp: spaces_inv_def)
  have uniq: "filter (cas_match c) (spaces db) = [s]"
  proof -
    have "filter (cas_match c) (spaces db) = filter (\<lambda>x. space_pk x = space_pk s) (spaces db)"
      using cas_match_unique [OF pk root(1,2)] root(2) by (intro filter_cong) (auto simp: cas_match_def)
    then show ?thesis using filter_key_unique [OF pk root(1)] by simp
  qed
  have "subject_cols_ok (mc_Actor c)"
    using valid by (intro ValidateSubject_cols) (simp add: ValidateMemberCommand_def validateCommand_def)
  then have "space_row_check (cas_row c now s)"
    using chk root by (auto simp: cas_row_def space_row_check_def)
  then have cas: "spaceCAS env db c now = Inr ?db"
    using \<open>fault_free env\<close> active uniq by (simp add: spaceCAS_def cas_update_def spaceTenant_def)
  have "filter (\<lambda>x. member_pk x = member_pk r) (space_members db) = [r]"
    by (rule filter_key_unique [OF dist target(1)])
  then have "filter (same_member (mc_TenantID c) (mc_SpaceID c) (mc_Target c)) (space_members db) = [r]"
    using target by (simp add: same_member_def active_user_admin_def cong: filter_cong)
  then have found: "spaceMember env ?db (mc_TenantID c) (mc_SpaceID c) (mc_Target c) = Inr (scanSpaceMember r)"
    using \<open>fault_free env\<close> by (simp add: spaceMember_def query_row_def)
  have count: "length (filter (active_user_admin (mc_TenantID c) (mc_SpaceID c)) (space_members db)) \<le> 1"
  proof (rule ccontr)
    assume "\<not> ?thesis"
    then have "1 < length (filter (active_user_admin (mc_TenantID c) (mc_SpaceID c)) (space_members db))" by simp
    from another_admin [OF dist this target(1)] only show False by auto
  qed
  have adm: "SKind (sm_subject r) = User" "sm_state r = Active" "sm_role r = Admin"
    "sm_tenant_id r = mc_TenantID c" "sm_space_id r = mc_SpaceID c"
    using target(2) by (auto simp: active_user_admin_def)
  have "spaceChangeMemberRows env newid ?db c now = Inl (Sentinel SpacesLastAdmin)"
    using act adm count \<open>fault_free env\<close>
    by (auto simp: spaceChangeMemberRows_def Let_def found spaceMemberState_def spaceMemberAfter_def spaceProtectAdmin_def scanSpaceMember_def)
  then show ?thesis
    using valid \<open>fault_free env\<close> cas by (simp add: ChangeSpaceMember_def fault_free_def spaceSQLError_def spaceDomainError_def)
qed

section \<open>Witnesses\<close>

definition alice :: SubjectRef where "alice = \<lparr>Source = ''idp'', SKind = User, SID = ''alice''\<rparr>"
definition bob :: SubjectRef where "bob = \<lparr>Source = ''idp'', SKind = User, SID = ''bob''\<rparr>"

definition demo_db0 :: spaces_db where
  "demo_db0 = \<lparr>tenants = [(''t'', Active)], buckets = [], spaces = [], space_members = [], space_history = []\<rparr>"

definition demo_create :: CreateCommand where
  "demo_create = \<lparr>cc_TenantID = ''t'', cc_ID = ''u1'', cc_Kind = Team, cc_Name = ''docs'', cc_Actor = alice,
     cc_CommandID = ''u2'', cc_Reason = [], cc_RequestID = []\<rparr>"

definition demo_now :: instant where "demo_now = unix_epoch + 1"

definition demo_env :: sql_env where "demo_env = no_faults dialectSQLite"

definition demo_add :: MemberCommand where
  "demo_add = \<lparr>mc_TenantID = ''t'', mc_SpaceID = ''u1'', mc_ExpectedRevision = 1, mc_Actor = alice, mc_Target = bob,
     mc_Action = AddMember, mc_Role = Admin, mc_CommandID = ''u1'', mc_Reason = [], mc_RequestID = []\<rparr>"

definition demo_revoke :: MemberCommand where
  "demo_revoke = \<lparr>mc_TenantID = ''t'', mc_SpaceID = ''u1'', mc_ExpectedRevision = 1, mc_Actor = alice, mc_Target = alice,
     mc_Action = RevokeMember, mc_Role = [], mc_CommandID = ''u1'', mc_Reason = [], mc_RequestID = []\<rparr>"

definition demo_space :: space_row where
  "demo_space = \<lparr>s_tenant_id = ''t'', s_id = ''u1'', s_kind = Team, s_name = ''docs'', s_backing_bucket = ''spc-u1'',
     s_personal_source = None, s_personal_kind = None, s_personal_subject_id = None, s_revision = 1,
     s_created_by = alice, s_updated_by = alice, s_created_at_ns = 1, s_updated_at_ns = 1\<rparr>"

definition demo_member :: member_row where
  "demo_member = \<lparr>sm_tenant_id = ''t'', sm_space_id = ''u1'', sm_subject = alice, sm_role = Admin, sm_state = Active,
     sm_changed_revision = 1, sm_changed_by = alice, sm_joined_at_ns = 1, sm_updated_at_ns = 1, sm_revoked_at_ns = None\<rparr>"

definition demo_history :: history_row where
  "demo_history = \<lparr>sh_tenant_id = ''t'', sh_id = ''h1'', sh_space_id = ''u1'', sh_command_id = ''u2'',
     sh_command_type = ''create'', sh_actor = alice, sh_target = alice, sh_before_revision = 0, sh_after_revision = 1,
     sh_before_role = None, sh_after_role = Admin, sh_before_state = None, sh_after_state = Active,
     sh_reason = [], sh_request_id = [], sh_occurred_at_ns = 1\<rparr>"

definition demo_db1 :: spaces_db where
  "demo_db1 = \<lparr>tenants = [(''t'', Active)],
     buckets = [\<lparr>b_tenant_id = ''t'', b_name = ''spc-u1'', b_created_at = TextTime (rfc3339nano demo_now)\<rparr>],
     spaces = [demo_space], space_members = [demo_member], space_history = [demo_history]\<rparr>"

lemmas demo_defs = demo_db0_def demo_create_def demo_now_def demo_env_def demo_add_def demo_revoke_def demo_space_def
  demo_member_def demo_history_def demo_db1_def alice_def bob_def

lemma demo_env_simps [simp]: "fault_free demo_env" "fault demo_env l = None" "mc_ExpectedRevision demo_add = 1"
  by (simp_all add: demo_env_def demo_add_def) (simp add: no_faults_def)

lemma demo_uuid_ascii [simp]: "uuid_ascii demo_uuid"
  by (simp add: uuid_ascii_def demo_uuid_def visible_ascii_def byte_def)

lemma demo_uuid_ids [simp]: "ValidateID demo_uuid ''u1'' = None" "ValidateID demo_uuid ''u2'' = None"
  by (simp_all add: ValidateID_def demo_uuid_def)

lemma demo_visible: "visible_ascii ''t''" "visible_ascii ''idp''" "visible_ascii ''alice''" "visible_ascii ''bob''"
  "visible_ascii ''docs''" "visible_ascii ''spc-u1''"
  by (simp_all add: visible_ascii_def byte_def)

lemma demo_names [simp]: "ValidateTenant ''t'' = None" "ValidateSubject alice = None" "ValidateSubject bob = None"
  "ValidateName ''docs'' = None" "valid_utf8 []"
  using demo_visible visible_ascii_text [of "''docs''"]
  by (simp_all add: ValidateTenant_def ValidateSubject_def ValidateName_def alice_def bob_def)
    (simp_all add: valid_utf8_def)

lemma demo_validated [simp]:
  "ValidateCreate demo_uuid demo_create = None" "ValidateMemberCommand demo_uuid demo_add = None"
  "ValidateMemberCommand demo_uuid demo_revoke = None"
proof -
  show "ValidateCreate demo_uuid demo_create = None"
    by (simp add: ValidateCreate_def validateCommand_def ValidateSpaceRef_def demo_create_def) (simp add: alice_def)
qed (simp_all add: ValidateMemberCommand_def validateCommand_def ValidateSpaceRef_def validateMemberAction_def
    demo_add_def demo_revoke_def)

lemma demo_create_run:
  "CreateSpace demo_uuid demo_env background demo_now (Inr ''h1'') demo_db0 demo_create
     = (demo_db1, Inr (new_space demo_create demo_now))"
proof -
  have "spaceCreateRows demo_env (Inr ''h1'') demo_db0 (new_space demo_create demo_now) demo_create = Inr demo_db1"
    by (simp add: spaceCreateRows_def spaceInsertRoot_def spaceInsertMember_def spaceAppendHistory_def
      spaceOneRow_def insert_bucket_def insert_space_def insert_member_def insert_history_def
      spaceTenant_def query_row_def new_space_def demo_defs space_row_check_def member_row_check_def history_row_check_def
      subject_cols_ok_def role_ok_def state_ok_def member_row_of_def spaceRevokedTime_def unix_nano_def same_member_def)
  then show ?thesis by (simp add: CreateSpace_def demo_env_def no_faults_def tx_commit_def)
qed

lemma demo_reach: "space_reach demo_uuid demo_db1"
proof -
  have "space_reach demo_uuid demo_db0" by (rule reach_init) (simp_all add: demo_db0_def)
  from reach_create [OF this, of demo_env background demo_now "Inr ''h1''" demo_create]
  show ?thesis by (simp add: demo_create_run)
qed

lemma demo_wf: "spaces_wf demo_uuid demo_db1"
  by (rule space_reach_wf [OF demo_reach])

lemma demo_inv: "spaces_inv demo_db1" "spaces_inv demo_db0"
  using demo_wf by (simp_all add: spaces_wf_def spaces_inv_def demo_db0_def)

theorem space_governance_witness:
  "(\<exists>m \<in> set (space_members demo_db1). active_user_admin ''t'' ''u1'' m) \<and>
   revisions (space_history demo_db1) (''t'', ''u1'') = {1..1}"
  using space_governance [OF demo_reach, of demo_space] by (simp add: demo_db1_def demo_space_def)

theorem ChangeSpaceMember_cas_witness:
  "\<exists>db' n e. ChangeSpaceMember demo_uuid demo_env background demo_now (Inr ''h2'') demo_db1 demo_add = (db', Inr n) \<and> n = 2 \<and>
     ChangeSpaceMember demo_uuid demo_env background demo_now (Inr ''h3'') db' demo_revoke = (db', Inl e)"
proof -
  let ?db = "demo_db1\<lparr>spaces := [demo_space\<lparr>s_revision := 2\<rparr>]\<rparr>"
  have cas: "spaceCAS demo_env demo_db1 demo_add demo_now = Inr ?db"
    by (simp add: spaceCAS_def cas_update_def cas_match_def cas_row_def spaceTenant_def query_row_def
        demo_defs space_row_check_def subject_cols_ok_def unix_nano_def)
  have "\<exists>db'. spaceChangeMemberRows demo_env (Inr ''h2'') ?db demo_add demo_now = Inr db'"
    by (simp add: spaceChangeMemberRows_def spaceMember_def query_row_def Let_def spaceMemberState_def spaceMemberAfter_def
      spaceProtectAdmin_def spaceInsertMember_def spaceAppendHistory_def spaceOneRow_def insert_member_def insert_history_def
      same_member_def demo_defs member_row_check_def history_row_check_def zero_Member_def
      subject_cols_ok_def role_ok_def state_ok_def member_row_of_def spaceRevokedTime_def unix_nano_def)
  then have "\<exists>db'. ChangeSpaceMember demo_uuid demo_env background demo_now (Inr ''h2'') demo_db1 demo_add = (db', Inr 2)"
    using cas by (auto simp: ChangeSpaceMember_def)
  then obtain db' where ok: "ChangeSpaceMember demo_uuid demo_env background demo_now (Inr ''h2'') demo_db1 demo_add = (db', Inr 2)"
    by blast
  have same: "mc_TenantID demo_revoke = mc_TenantID demo_add" "mc_SpaceID demo_revoke = mc_SpaceID demo_add"
    "mc_ExpectedRevision demo_revoke = mc_ExpectedRevision demo_add"
    by (simp_all add: demo_add_def demo_revoke_def)
  from ok ChangeSpaceMember_cas [OF demo_inv(1) ok same] show ?thesis by blast
qed

theorem ChangeSpaceMember_last_admin_witness:
  "ChangeSpaceMember demo_uuid demo_env background demo_now (Inr ''h2'') demo_db1 demo_revoke
     = (demo_db1, Inl (Sentinel SpacesLastAdmin))"
proof (rule ChangeSpaceMember_last_admin [where s = demo_space and r = demo_member])
  show "spaceTenant demo_env demo_db1 (mc_TenantID demo_revoke) = None"
    by (simp add: spaceTenant_def query_row_def demo_db1_def demo_revoke_def)
qed (simp_all add: demo_inv, simp_all add: demo_db1_def demo_defs cas_match_def unix_nano_def active_user_admin_def)

theorem CreateSpace_roundtrip_witness:
  "GetSpace demo_uuid demo_env background demo_db1 ''t'' ''u1'' = Inr (new_space demo_create demo_now)"
  using CreateSpace_roundtrip [OF demo_inv(2) demo_create_run, of demo_env background]
  by (simp add: demo_create_def)

lemma demo_binding_probe:
  "ProbeSpaceBinding demo_uuid demo_env background demo_db1 ''t'' ''spc-u1'' =
     Inr (binding_of ''t'' ''spc-u1'' (Some Active) (Some demo_space))"
proof -
  have "ValidateBindingInput ''t'' ''spc-u1'' = None" using demo_visible by (simp add: ValidateBindingInput_ok)
  from ProbeSpaceBinding_spec [OF _ demo_wf this, of demo_env background] show ?thesis
    by (simp add: demo_db1_def demo_space_def)
qed

theorem ProbeSpaceCoverage_spec_witness:
  "ProbeSpaceCoverage demo_uuid demo_env background demo_db1 \<lparr>cs_Kind = CoverageGlobal, cs_TenantID = []\<rparr> =
     Inr (coverage_of demo_db1 \<lparr>cs_Kind = CoverageGlobal, cs_TenantID = []\<rparr> [witness_of demo_db1 demo_space])"
proof -
  have "ValidateCoverageScope \<lparr>cs_Kind = CoverageGlobal, cs_TenantID = []\<rparr> = None"
    by (simp add: ValidateCoverageScope_def)
  moreover have "filter (in_scope \<lparr>cs_Kind = CoverageGlobal, cs_TenantID = []\<rparr>) (spaces demo_db1) = [demo_space]"
    by (simp add: demo_db1_def in_scope_def)
  ultimately show ?thesis
    using ProbeSpaceCoverage_spec [of demo_env background demo_uuid demo_db1 "\<lparr>cs_Kind = CoverageGlobal, cs_TenantID = []\<rparr>"] demo_wf
    by (auto simp: background_def)
qed

end
