(* ===== verification/Access_Types.thy ===== *)
theory Access_Types
  imports AV_Prelude
begin

text \<open>
  Data of package \<open>internal/access\<close> (\<open>types.go\<close>), the provider-facing permission names
  (\<open>permissions.go\<close>), the principals that the package puts into a context (\<open>context.go\<close>) and the
  identity of an object's chunks (\<open>chunk_ref.go\<close>).  String-typed enums stay strings.
\<close>

section \<open>Principals and resources\<close>

abbreviation (input) PrincipalUser :: string where "PrincipalUser \<equiv> ''user''"
abbreviation (input) PrincipalService :: string where "PrincipalService \<equiv> ''service''"
abbreviation (input) PrincipalAnonymous :: string where "PrincipalAnonymous \<equiv> ''anonymous''"
abbreviation (input) PrincipalShare :: string where "PrincipalShare \<equiv> ''share''"
abbreviation (input) PrincipalPublic :: string where "PrincipalPublic \<equiv> ''public_asset''"
abbreviation (input) PrincipalSystem :: string where "PrincipalSystem \<equiv> ''system''"

abbreviation (input) ResourceBucket :: string where "ResourceBucket \<equiv> ''bucket''"
abbreviation (input) ResourceFolder :: string where "ResourceFolder \<equiv> ''folder''"
abbreviation (input) ResourceObject :: string where "ResourceObject \<equiv> ''object''"

abbreviation (input) ActionList :: string where "ActionList \<equiv> ''object:list''"
abbreviation (input) ActionRead :: string where "ActionRead \<equiv> ''object:read''"
abbreviation (input) ActionPreview :: string where "ActionPreview \<equiv> ''object:preview''"
abbreviation (input) ActionDownload :: string where "ActionDownload \<equiv> ''object:download''"
abbreviation (input) ActionCreate :: string where "ActionCreate \<equiv> ''object:create''"
abbreviation (input) ActionWrite :: string where "ActionWrite \<equiv> ''object:write''"
abbreviation (input) ActionDelete :: string where "ActionDelete \<equiv> ''object:delete''"
abbreviation (input) ActionAdminDelete :: string where "ActionAdminDelete \<equiv> ''vault.file.delete''"
abbreviation (input) ActionRestore :: string where "ActionRestore \<equiv> ''object:restore''"
abbreviation (input) ActionShare :: string where "ActionShare \<equiv> ''object:share''"
abbreviation (input) ActionManageACL :: string where "ActionManageACL \<equiv> ''object:manage_acl''"
abbreviation (input) ActionPublish :: string where "ActionPublish \<equiv> ''asset:publish''"
abbreviation (input) ActionExport :: string where "ActionExport \<equiv> ''object:export''"
abbreviation (input) ActionAll :: string where "ActionAll \<equiv> ''*''"

abbreviation (input) PrincipalTypeUser :: string where "PrincipalTypeUser \<equiv> ''user''"
abbreviation (input) PrincipalTypeDepartment :: string where "PrincipalTypeDepartment \<equiv> ''department''"
abbreviation (input) PrincipalTypeGroup :: string where "PrincipalTypeGroup \<equiv> ''group''"
abbreviation (input) PrincipalTypeRole :: string where "PrincipalTypeRole \<equiv> ''role''"
abbreviation (input) PrincipalTypeAuthenticated :: string where "PrincipalTypeAuthenticated \<equiv> ''authenticated''"
abbreviation (input) PrincipalTypeEveryone :: string where "PrincipalTypeEveryone \<equiv> ''everyone''"

abbreviation (input) EffectAllow :: string where "EffectAllow \<equiv> ''allow''"
abbreviation (input) EffectDeny :: string where "EffectDeny \<equiv> ''deny''"

record Capability =
  cap_ID :: string
  cap_TenantID :: string
  cap_Bucket :: string
  cap_Key :: string
  cap_Actions :: "string list"

record Principal =
  p_SubjectID :: string
  p_TenantID :: string
  p_Kind :: string
  p_Roles :: "string list"
  p_Groups :: "string list"
  p_Scopes :: "string list"
  p_Capability :: "Capability option"

record Resource =
  r_TenantID :: string
  r_Bucket :: string
  r_Key :: string
  r_Kind :: string
  r_OwnerID :: string

definition ValidAction :: "string \<Rightarrow> bool" where
  "ValidAction action \<longleftrightarrow> action \<in> set
     [ActionList, ActionRead, ActionPreview, ActionDownload, ActionCreate, ActionWrite, ActionDelete,
      ActionAdminDelete, ActionRestore, ActionShare, ActionManageACL, ActionPublish, ActionExport, ActionAll]"

record Decision =
  DAllowed :: bool
  Reason :: string

record Department =
  d_ID :: string
  d_TenantID :: string
  d_ParentID :: string
  d_Name :: string
  d_CreatedAt :: instant
  d_UpdatedAt :: instant

record DepartmentMember =
  dm_TenantID :: string
  dm_DepartmentID :: string
  dm_SubjectID :: string
  dm_Role :: string
  dm_CreatedAt :: instant

record ACLEntry =
  e_ID :: string
  e_TenantID :: string
  e_Bucket :: string
  e_Key :: string
  e_ResourceKind :: string
  e_PrincipalType :: string
  e_PrincipalID :: string
  e_Action :: string
  e_Effect :: string
  e_Inherit :: bool
  e_CreatedBy :: string
  e_CreatedAt :: instant
  e_OwnerID :: string

record Share =
  sh_ID :: string
  sh_TenantID :: string
  sh_Bucket :: string
  sh_Key :: string
  sh_Name :: string
  sh_TokenHash :: string
  sh_PasswordMAC :: string
  sh_AllowPreview :: bool
  sh_AllowDownload :: bool
  sh_MaxUses :: int
  sh_UseCount :: int
  sh_ExpiresAt :: instant
  sh_RevokedAt :: instant
  sh_CreatedBy :: string
  sh_CreatedAt :: instant
  sh_OwnerID :: string

record PublicAsset =
  pa_ID :: string
  pa_TenantID :: string
  pa_Bucket :: string
  pa_Key :: string
  pa_Slug :: string
  pa_CacheControl :: string
  pa_PublishedBy :: string
  pa_PublishedAt :: instant
  pa_OwnerID :: string

section \<open>Permission names and principals in contexts\<close>

abbreviation (input) PermissionVaultFileDelete :: string where "PermissionVaultFileDelete \<equiv> ''vault.file.delete''"
abbreviation (input) SystemActorAntivirus :: string where "SystemActorAntivirus \<equiv> ''system:antivirus''"

definition ActionForPermission :: "string \<Rightarrow> string \<times> bool" where
  "ActionForPermission permission =
     (if permission = PermissionVaultFileDelete then (ActionDelete, True) else ([], False))"

definition IsSystemDeleteExempt :: "Principal \<Rightarrow> string \<Rightarrow> bool" where
  "IsSystemDeleteExempt p tenant \<longleftrightarrow>
     p_Kind p = PrincipalSystem \<and> p_TenantID p \<noteq> [] \<and> p_TenantID p = tenant"

text \<open>A context of this package: cancellation state and the principal it carries.\<close>

record access_ctx = ctx_state +
  ctx_principal :: "Principal option"

definition zero_Principal :: Principal where
  "zero_Principal = \<lparr>p_SubjectID = [], p_TenantID = [], p_Kind = [], p_Roles = [], p_Groups = [], p_Scopes = [],
                     p_Capability = None\<rparr>"

definition WithPrincipal :: "access_ctx \<Rightarrow> Principal \<Rightarrow> access_ctx" where
  "WithPrincipal ctx p = ctx\<lparr>ctx_principal := Some p\<rparr>"

definition PrincipalFrom :: "access_ctx \<Rightarrow> Principal \<times> bool" where
  "PrincipalFrom ctx = (case ctx_principal ctx of None \<Rightarrow> (zero_Principal, False) | Some p \<Rightarrow> (p, True))"

definition SystemContext :: "access_ctx \<Rightarrow> string \<Rightarrow> access_ctx" where
  "SystemContext ctx tenant =
     WithPrincipal ctx (zero_Principal\<lparr>p_SubjectID := ''aero-vault-system'', p_TenantID := tenant, p_Kind := PrincipalSystem\<rparr>)"

definition AntivirusContext :: "access_ctx \<Rightarrow> string \<Rightarrow> access_ctx" where
  "AntivirusContext ctx tenant =
     WithPrincipal ctx (zero_Principal\<lparr>p_SubjectID := SystemActorAntivirus, p_TenantID := tenant, p_Kind := PrincipalSystem\<rparr>)"

definition CapabilityPrincipal :: "string \<Rightarrow> Capability \<Rightarrow> Principal" where
  "CapabilityPrincipal kind c =
     zero_Principal\<lparr>p_SubjectID := kind @ '':'' @ cap_ID c, p_TenantID := cap_TenantID c, p_Kind := kind,
                    p_Capability := Some c\<rparr>"

section \<open>Chunk identities\<close>

record ChunkRef =
  cref_TenantID :: string
  cref_Bucket :: string
  cref_Key :: string
  cref_ObjectID :: int

definition invalid_argument :: "string \<Rightarrow> gerr" where
  "invalid_argument detail = Errorf detail [Sentinel ErrInvalidArgument]"

definition ValidateChunkRef :: "ChunkRef \<Rightarrow> gerr option" where
  "ValidateChunkRef ref = first_error
     [fails (cref_TenantID ref = [] \<or> cref_Bucket ref = [] \<or> cref_Key ref = []) (invalid_argument ''incomplete chunk scope''),
      fails (cref_ObjectID ref \<le> 0) (invalid_argument ''chunk object ID must be positive'')]"

end
