(* ===== verification/Access_Boundary.thy ===== *)
theory Access_Boundary
  imports Access_Types Spaces_Governance
begin

text \<open>
  \<open>internal/access/resource_boundary.go\<close>: the guard that keeps Space-bound buckets out of the legacy
  access paths.  A reader is the probe of a \<open>spaces.BindingReader\<close> or \<open>spaces.CoverageReader\<close>;
  a missing or typed-nil reader is \<open>None\<close>, and so is a nil \<open>*ResourceBoundary\<close> or a nil context.
  The contract of the readers is the locale \<open>binding_reader\<close> (\<open>coverage_reader\<close>), which the SQL
  probes satisfy for every database, driver fault and context.
\<close>

type_synonym binding_probe = "string \<Rightarrow> string \<Rightarrow> BindingResult res"
type_synonym coverage_probe = "CoverageScope \<Rightarrow> CoverageResult res"

record ResourceBoundary =
  rb_binding :: "binding_probe option"
  rb_coverage :: "coverage_probe option"

definition NewResourceBoundary :: "binding_probe option \<Rightarrow> coverage_probe option \<Rightarrow> ResourceBoundary" where
  "NewResourceBoundary binding coverage = \<lparr>rb_binding = binding, rb_coverage = coverage\<rparr>"

definition boundaryFault :: "string \<Rightarrow> gerr \<Rightarrow> gerr" where
  "boundaryFault operation cause = BoundaryFault operation cause"

definition boundaryTenantAdmission :: "bool \<Rightarrow> string \<Rightarrow> gerr option" where
  "boundaryTenantAdmission known status =
     (if known \<and> status \<noteq> ''active''
      then errors_join [Some (Sentinel ErrDenied), Some (Sentinel SpacesTenantUnavailable)] else None)"

definition boundaryContextError :: "'c ctx_state_scheme option \<Rightarrow> gerr option" where
  "boundaryContextError ctx =
     (case ctx of None \<Rightarrow> Some (invalid_argument ''nil boundary context'') | Some c \<Rightarrow> ctx_err c)"

definition boundaryReaderMissing :: "'r option \<Rightarrow> bool" where
  "boundaryReaderMissing reader \<longleftrightarrow> reader = None"

definition ctx_err_after_probe :: "'c ctx_state_scheme option \<Rightarrow> gerr option" where
  "ctx_err_after_probe ctx = (case ctx of None \<Rightarrow> None | Some c \<Rightarrow> ctx_err_after c)"

definition CheckBucket ::
  "uuid_lib \<Rightarrow> ResourceBoundary option \<Rightarrow> 'c ctx_state_scheme option \<Rightarrow> string \<Rightarrow> string \<Rightarrow> gerr option" where
  "CheckBucket U b ctx tenant bucket =
     (case first_error [boundaryContextError ctx, ValidateBindingInput tenant bucket] of
        Some e \<Rightarrow> Some (boundaryFault ''binding'' e)
      | None \<Rightarrow>
          (case Option.bind b rb_binding of
             None \<Rightarrow> Some (boundaryFault ''binding'' (NewError ''missing binding reader''))
           | Some probe \<Rightarrow>
               (let answer = probe tenant bucket;
                    err = (case answer of Inl e \<Rightarrow> Some e | Inr _ \<Rightarrow> None) in
                case (errors_join [err, ctx_err_after_probe ctx], answer) of
                  (None, Inr result) \<Rightarrow>
                    (case ValidateBindingResult U result of
                       Some e \<Rightarrow> Some (boundaryFault ''binding'' e)
                     | None \<Rightarrow>
                         if br_TenantID result \<noteq> tenant \<or> br_Bucket result \<noteq> bucket
                         then Some (boundaryFault ''binding'' (invalid_argument ''binding scope echo''))
                         else if br_State result = BindingBound
                         then errors_join [Some (Sentinel ErrDenied), Some (Sentinel ErrSpaceBound)]
                         else boundaryTenantAdmission (br_TenantKnown result) (br_TenantStatus result))
                | (joined, _) \<Rightarrow> map_option (boundaryFault ''binding'') joined)))"

definition CheckCoverage ::
  "uuid_lib \<Rightarrow> ResourceBoundary option \<Rightarrow> 'c ctx_state_scheme option \<Rightarrow> CoverageScope \<Rightarrow> gerr option" where
  "CheckCoverage U b ctx scope =
     (case first_error [boundaryContextError ctx, ValidateCoverageScope scope] of
        Some e \<Rightarrow> Some (boundaryFault ''coverage'' e)
      | None \<Rightarrow>
          (case Option.bind b rb_coverage of
             None \<Rightarrow> Some (boundaryFault ''coverage'' (NewError ''missing coverage reader''))
           | Some probe \<Rightarrow>
               (let answer = probe scope;
                    err = (case answer of Inl e \<Rightarrow> Some e | Inr _ \<Rightarrow> None) in
                case (errors_join [err, ctx_err_after_probe ctx], answer) of
                  (None, Inr result) \<Rightarrow>
                    (case ValidateCoverageObservation U scope result of
                       Some e \<Rightarrow> Some (boundaryFault ''coverage'' e)
                     | None \<Rightarrow>
                         if \<not> cr_Complete result
                         then Some (boundaryFault ''coverage'' (NewError ''incomplete coverage observation''))
                         else if cr_State result = CoverageBound
                         then errors_join [Some (Sentinel ErrDenied), Some (Sentinel ErrSpaceBound)]
                         else if cs_Kind scope = CoverageTenant
                         then boundaryTenantAdmission (cr_TenantKnown result) (cr_TenantStatus result)
                         else None)
                | (joined, _) \<Rightarrow> map_option (boundaryFault ''coverage'') joined)))"

definition IsResourceBoundaryFault :: "gerr option \<Rightarrow> bool" where
  "IsResourceBoundaryFault err \<longleftrightarrow>
     (case err of None \<Rightarrow> False | Some e \<Rightarrow> errors_is e ErrResourceBoundaryFault)"

definition IsResourceBoundaryDenied :: "gerr option \<Rightarrow> bool" where
  "IsResourceBoundaryDenied err \<longleftrightarrow>
     \<not> IsResourceBoundaryFault err \<and> (case err of None \<Rightarrow> False | Some e \<Rightarrow> errors_is e ErrDenied)"

section \<open>The readers' contract\<close>

locale binding_reader =
  fixes U :: uuid_lib and probe :: binding_probe
  assumes probe_valid: "probe t b = Inr r \<Longrightarrow> ValidateBindingResult U r = None"
    and probe_echo: "probe t b = Inr r \<Longrightarrow> br_TenantID r = t \<and> br_Bucket r = b"
begin

lemma CheckBucket_nil:
  assumes "rb_binding b = Some probe"
  shows "CheckBucket U (Some b) (Some ctx) tenant bucket = None \<longleftrightarrow>
    ctx_err ctx = None \<and> ctx_err_after ctx = None \<and> ValidateBindingInput tenant bucket = None \<and>
    (\<exists>r. probe tenant bucket = Inr r \<and> br_State r = BindingUnbound \<and>
         (br_TenantKnown r \<longrightarrow> br_TenantStatus r = ''active''))"
proof (cases "probe tenant bucket")
  case (Inl e)
  then show ?thesis
    using assms by (cases "ctx_err ctx"; cases "ctx_err_after ctx"; cases "ValidateBindingInput tenant bucket") (auto simp: CheckBucket_def Let_def boundaryContextError_def ctx_err_after_probe_def)
next
  case (Inr r)
  have "br_State r = BindingBound \<or> br_State r = BindingUnbound"
    using probe_valid [OF Inr] by (auto simp: ValidateBindingResult_def split: if_splits)
  then show ?thesis
    using assms Inr probe_valid [OF Inr] probe_echo [OF Inr]
    by (cases "ctx_err ctx"; cases "ctx_err_after ctx"; cases "ValidateBindingInput tenant bucket") (auto simp: CheckBucket_def Let_def boundaryContextError_def ctx_err_after_probe_def
        boundaryTenantAdmission_def)
qed

end

locale coverage_reader =
  fixes U :: uuid_lib and cover :: coverage_probe
  assumes cover_valid: "cover scope = Inr r \<Longrightarrow> ValidateCoverageObservation U scope r = None"
    and cover_complete: "cover scope = Inr r \<Longrightarrow> cr_Complete r"
begin

lemma CheckCoverage_nil:
  assumes "rb_coverage b = Some cover"
  shows "CheckCoverage U (Some b) (Some ctx) scope = None \<longleftrightarrow>
    ctx_err ctx = None \<and> ctx_err_after ctx = None \<and> ValidateCoverageScope scope = None \<and>
    (\<exists>r. cover scope = Inr r \<and> cr_State r = CoverageUnbound \<and> cr_Witnesses r = [] \<and>
         (cs_Kind scope = CoverageTenant \<longrightarrow> cr_TenantKnown r \<longrightarrow> cr_TenantStatus r = ''active''))"
proof (cases "cover scope")
  case (Inl e)
  then show ?thesis
    using assms by (cases "ctx_err ctx"; cases "ctx_err_after ctx"; cases "ValidateCoverageScope scope") (auto simp: CheckCoverage_def Let_def boundaryContextError_def ctx_err_after_probe_def)
next
  case (Inr r)
  have "(cr_State r = CoverageBound \<or> cr_State r = CoverageUnbound) \<and> (cr_State r = CoverageUnbound \<longrightarrow> cr_Witnesses r = [])"
    using cover_valid [OF Inr] cover_complete [OF Inr] by (auto simp: coverage_observation_ok)
  then show ?thesis
    using assms Inr cover_valid [OF Inr] cover_complete [OF Inr]
    by (cases "ctx_err ctx"; cases "ctx_err_after ctx"; cases "ValidateCoverageScope scope") (auto simp: CheckCoverage_def Let_def boundaryContextError_def ctx_err_after_probe_def
        boundaryTenantAdmission_def)
qed

end

section \<open>The SQL probes satisfy it\<close>

lemma spaceBindingFromRow_echo:
  "spaceBindingFromRow r t b i n = Inr r' \<Longrightarrow> br_TenantID r' = br_TenantID r \<and> br_Bucket r' = br_Bucket r"
  by (auto simp: spaceBindingFromRow_def Let_def split: if_splits)

interpretation sql_binding: binding_reader U "ProbeSpaceBinding U env ctx db" for U env ctx db
proof
  fix t b r
  assume "ProbeSpaceBinding U env ctx db t b = Inr r"
  then obtain row where "scanSpaceBinding U row t b = Inr r"
    by (auto simp: ProbeSpaceBinding_def go_simps)
  then show "ValidateBindingResult U r = None" "br_TenantID r = t \<and> br_Bucket r = b"
    by (auto simp: scanSpaceBinding_def go_simps split: option.splits dest: spaceBindingFromRow_echo)
qed

interpretation sql_coverage: coverage_reader U "ProbeSpaceCoverage U env ctx db" for U env ctx db
proof
  fix scope r
  assume "ProbeSpaceCoverage U env ctx db scope = Inr r"
  then have "\<exists>rows. scanSpaceCoverage U env scope rows = Inr r"
    by (auto simp: ProbeSpaceCoverage_def go_simps)
  then show "ValidateCoverageObservation U scope r = None" "cr_Complete r"
    by (auto simp: scanSpaceCoverage_def Let_def go_simps split: option.splits if_splits)
qed

text \<open>The boundary that \<open>NewManager\<close> builds over the SQL store.\<close>

definition sql_boundary :: "uuid_lib \<Rightarrow> sql_env \<Rightarrow> ctx_state \<Rightarrow> spaces_db \<Rightarrow> ResourceBoundary" where
  "sql_boundary U env ctx db =
     NewResourceBoundary (Some (ProbeSpaceBinding U env ctx db)) (Some (ProbeSpaceCoverage U env ctx db))"

lemma CheckBucket_sql:
  assumes "fault_free env" "spaces_wf U db"
  shows "CheckBucket U (Some (sql_boundary U env c db)) (Some ctx) t b = None \<longleftrightarrow>
    ctx_err ctx = None \<and> ctx_err_after ctx = None \<and> ValidateBindingInput t b = None \<and>
    (\<forall>s \<in> set (spaces db). \<not> (s_tenant_id s = t \<and> s_backing_bucket s = b)) \<and>
    (map_of (tenants db) t = None \<or> map_of (tenants db) t = Some ''active'')"
proof -
  have probe: "ProbeSpaceBinding U env c db t b =
      Inr (binding_of t b (map_of (tenants db) t) (List.find (\<lambda>s. s_tenant_id s = t \<and> s_backing_bucket s = b) (spaces db)))"
    if "ValidateBindingInput t b = None"
    by (rule binding_probe_facts [OF assms that])
  have nil: "CheckBucket U (Some (sql_boundary U env c db)) (Some ctx) t b = None \<longleftrightarrow>
    ctx_err ctx = None \<and> ctx_err_after ctx = None \<and> ValidateBindingInput t b = None \<and>
    (\<exists>r. ProbeSpaceBinding U env c db t b = Inr r \<and> br_State r = BindingUnbound \<and>
         (br_TenantKnown r \<longrightarrow> br_TenantStatus r = ''active''))"
    by (rule sql_binding.CheckBucket_nil) (simp add: sql_boundary_def NewResourceBoundary_def)
  have none: "(List.find (\<lambda>s. s_tenant_id s = t \<and> s_backing_bucket s = b) (spaces db) = None) =
      (\<forall>s \<in> set (spaces db). \<not> (s_tenant_id s = t \<and> s_backing_bucket s = b))"
    by (auto simp: find_None_iff)
  show ?thesis
    unfolding nil using probe none [symmetric]
    by (cases "ValidateBindingInput t b = None") (auto simp: binding_of_def null_string_def split: option.splits if_splits)
qed

end
