(* ===== verification/Access_Store.thy ===== *)
theory Access_Store
  imports Access_Types SQL_Model
begin

text \<open>
  The SQL side of access control: \<open>internal/repository/sql_access*.go\<close> over the tables of migration
  \<open>0037\<close>, with their primary keys, unique constraints, references and cascades.  Times are the
  RFC3339Nano text of the columns (\<open>None\<close> for the empty text), so SQL comparisons of them are
  comparisons of texts.
\<close>

section \<open>Times and flags (\<open>sql_access.go\<close>)\<close>

definition accessTime :: "ttext \<Rightarrow> instant" where
  "accessTime value = (case value of None \<Rightarrow> 0 | Some x \<Rightarrow> parse_rfc3339nano x)"

definition accessTimeString :: "instant \<Rightarrow> ttext" where
  "accessTimeString value = (if value = 0 then None else Some (rfc3339nano value))"

definition boolInt :: "bool \<Rightarrow> int" where
  "boolInt b = (if b then 1 else 0)"

section \<open>Tables\<close>

record department_row =
  dr_id :: string
  dr_tenant_id :: string
  dr_parent_id :: "string option"
  dr_name :: string
  dr_created_at :: ttext
  dr_updated_at :: ttext

record dmember_row =
  mr_tenant_id :: string
  mr_department_id :: string
  mr_subject_id :: string
  mr_role :: string
  mr_created_at :: ttext

record acl_row =
  ar_id :: string
  ar_tenant_id :: string
  ar_bucket :: string
  ar_resource_key :: string
  ar_resource_kind :: string
  ar_principal_type :: string
  ar_principal_id :: string
  ar_action :: string
  ar_effect :: string
  ar_inherit_acl :: int
  ar_created_by :: string
  ar_created_at :: ttext

record share_row =
  sr_id :: string
  sr_tenant_id :: string
  sr_bucket :: string
  sr_object_key :: string
  sr_name :: string
  sr_token_hash :: string
  sr_password_mac :: string
  sr_allow_preview :: int
  sr_allow_download :: int
  sr_max_uses :: int
  sr_use_count :: int
  sr_expires_at :: ttext
  sr_revoked_at :: ttext
  sr_created_by :: string
  sr_owner_id :: string
  sr_created_at :: ttext

record asset_row =
  as_id :: string
  as_tenant_id :: string
  as_bucket :: string
  as_object_key :: string
  as_slug :: string
  as_cache_control :: string
  as_published_by :: string
  as_owner_id :: string
  as_published_at :: ttext

record access_db =
  departments :: "department_row list"
  department_members :: "dmember_row list"
  resource_acls :: "acl_row list"
  shares :: "share_row list"
  public_assets :: "asset_row list"

text \<open>A write statement: the new database, or the error that leaves the old one.\<close>

definition run :: "'db \<Rightarrow> 'db res \<Rightarrow> 'db \<times> gerr option" where
  "run db m = (case m of Inl e \<Rightarrow> (db, Some e) | Inr db' \<Rightarrow> (db', None))"

text \<open>\<open>accessDeleteResult\<close>: zero affected rows are \<open>ErrNotFound\<close>.\<close>

definition accessDeleteResult :: "sql_env \<Rightarrow> nat \<Rightarrow> 'db \<Rightarrow> 'db res" where
  "accessDeleteResult env count db =
     rbind (stmt env ''rows affected'' (Inr ())) (\<lambda>_. if count = 0 then Inl (Sentinel ErrNotFound) else Inr db)"

definition not_found :: "'a res \<Rightarrow> 'a res" where
  "not_found m = (case m of
     Inl e \<Rightarrow> Inl (if errors_is e ErrNoRows then Sentinel ErrNotFound else e) | Inr x \<Rightarrow> Inr x)"

definition query_all :: "sql_env \<Rightarrow> string \<Rightarrow> ('r \<Rightarrow> 'a) \<Rightarrow> 'r list \<Rightarrow> 'a list res" where
  "query_all env l scan rows = stmt env l (stmt env ''rows.Err'' (Inr (map scan rows)))"

section \<open>Departments (\<open>sql_access_directory.go\<close>)\<close>

definition scanDepartment :: "department_row \<Rightarrow> Department" where
  "scanDepartment r =
     \<lparr>d_ID = dr_id r, d_TenantID = dr_tenant_id r, d_ParentID = (case dr_parent_id r of None \<Rightarrow> [] | Some p \<Rightarrow> p),
      d_Name = dr_name r, d_CreatedAt = accessTime (dr_created_at r), d_UpdatedAt = accessTime (dr_updated_at r)\<rparr>"

definition dept_conflict :: "department_row \<Rightarrow> department_row \<Rightarrow> bool" where
  "dept_conflict n r \<longleftrightarrow>
     dr_id r \<noteq> dr_id n \<and> dr_tenant_id r = dr_tenant_id n \<and> dr_parent_id n \<noteq> None \<and>
     dr_parent_id r = dr_parent_id n \<and> dr_name r = dr_name n"

definition upsert_department :: "department_row \<Rightarrow> department_row list \<Rightarrow> department_row list" where
  "upsert_department n rows =
     (if list_ex (\<lambda>r. dr_id r = dr_id n) rows
      then map (\<lambda>r. if dr_id r = dr_id n
                    then r\<lparr>dr_tenant_id := dr_tenant_id n, dr_parent_id := dr_parent_id n, dr_name := dr_name n,
                           dr_updated_at := dr_updated_at n\<rparr>
                    else r) rows
      else rows @ [n])"

definition PutDepartment :: "sql_env \<Rightarrow> access_db \<Rightarrow> Department \<Rightarrow> access_db \<times> gerr option" where
  "PutDepartment env db d =
     (let n = \<lparr>dr_id = d_ID d, dr_tenant_id = d_TenantID d,
               dr_parent_id = (if d_ParentID d = [] then None else Some (d_ParentID d)), dr_name = d_Name d,
               dr_created_at = accessTimeString (d_CreatedAt d), dr_updated_at = accessTimeString (d_UpdatedAt d)\<rparr>;
          rows = upsert_department n (departments db) in
      run db (stmt env ''put department''
        (if list_ex (dept_conflict n) (departments db) then Inl (unique_violation env ''departments_key'')
         else if dr_parent_id n \<noteq> None \<and> \<not> list_ex (\<lambda>r. Some (dr_id r) = dr_parent_id n) rows
         then Inl (fkey_violation env ''departments_parent'')
         else Inr (db\<lparr>departments := rows\<rparr>))))"

definition GetDepartment :: "sql_env \<Rightarrow> access_db \<Rightarrow> string \<Rightarrow> string \<Rightarrow> Department res" where
  "GetDepartment env db tenant i =
     not_found (query_row env ''get department''
       (map scanDepartment (filter (\<lambda>r. dr_tenant_id r = tenant \<and> dr_id r = i) (departments db))))"

definition ListDepartments :: "sql_env \<Rightarrow> access_db \<Rightarrow> string \<Rightarrow> Department list res" where
  "ListDepartments env db tenant =
     query_all env ''list departments'' scanDepartment
       (sort_key (\<lambda>r. (dr_parent_id r, dr_name r, dr_id r))
          (filter (\<lambda>r. dr_tenant_id r = tenant) (departments db)))"

text \<open>
  The recursive queries walk the department graph.  \<open>UNION\<close> keeps each row once, which is the
  walk below; \<open>UNION ALL\<close> keeps duplicates and processes every row again, so it ends only when no
  cycle is reachable.
\<close>

function graph_walk :: "('a \<Rightarrow> 'a list) \<Rightarrow> 'a list \<Rightarrow> 'a list \<Rightarrow> 'a list \<Rightarrow> 'a list" where
  "graph_walk succ nodes seen [] = seen"
| "graph_walk succ nodes seen (x # work) =
     (if x \<in> set seen then graph_walk succ nodes seen work
      else graph_walk succ nodes (x # seen) ((if x \<in> set nodes then succ x else []) @ work))"
  by pat_completeness auto
termination
proof (relation "measures [\<lambda>(_, nodes, seen, _). card (set nodes - set seen), \<lambda>(_, _, _, work). length work]", goal_cases)
  case (3 succ nodes seen x work)
  show ?case
  proof (cases "x \<in> set nodes")
    case True
    then have "set nodes - set (x # seen) \<subset> set nodes - set seen" using 3 by auto
    then have "card (set nodes - set (x # seen)) < card (set nodes - set seen)" by (intro psubset_card_mono) auto
    then show ?thesis by simp
  next
    case False
    then have "set nodes - set (x # seen) = set nodes - set seen" by auto
    then show ?thesis using False by simp
  qed
qed auto

definition dept_parents :: "access_db \<Rightarrow> string \<Rightarrow> string \<Rightarrow> string list" where
  "dept_parents db tenant x =
     List.map_filter dr_parent_id (filter (\<lambda>r. dr_tenant_id r = tenant \<and> dr_id r = x) (departments db))"

definition ListSubjectDepartments :: "sql_env \<Rightarrow> access_db \<Rightarrow> string \<Rightarrow> string \<Rightarrow> string list res" where
  "ListSubjectDepartments env db tenant subjectID =
     (if subjectID = [] then Inr []
      else query_all env ''list subject departments'' id
        (sort (graph_walk (dept_parents db tenant) (map dr_id (departments db)) []
          (map mr_department_id
             (filter (\<lambda>r. mr_tenant_id r = tenant \<and> mr_subject_id r = subjectID) (department_members db))))))"

definition dept_children :: "access_db \<Rightarrow> string \<Rightarrow> string \<Rightarrow> string list" where
  "dept_children db tenant x =
     map dr_id (filter (\<lambda>r. dr_tenant_id r = tenant \<and> dr_parent_id r = Some x) (departments db))"

partial_function (option) department_tree :: "access_db \<Rightarrow> string \<Rightarrow> string list \<Rightarrow> string list \<Rightarrow> string list option" where
  "department_tree db tenant acc work =
     (if work = [] then Some acc
      else department_tree db tenant (acc @ [hd work]) (tl work @ dept_children db tenant (hd work)))"

text \<open>ON DELETE CASCADE along \<open>parent_id\<close> and to \<open>department_members\<close>.\<close>

definition cascade_ids :: "access_db \<Rightarrow> string list \<Rightarrow> string list" where
  "cascade_ids db ids =
     graph_walk (\<lambda>x. map dr_id (filter (\<lambda>r. dr_parent_id r = Some x) (departments db))) (map dr_id (departments db)) [] ids"

definition delete_departments :: "access_db \<Rightarrow> string list \<Rightarrow> access_db" where
  "delete_departments db ids =
     (let gone = cascade_ids db ids in
      db\<lparr>departments := filter (\<lambda>r. dr_id r \<notin> set gone) (departments db),
         department_members := filter (\<lambda>r. mr_department_id r \<notin> set gone) (department_members db)\<rparr>)"

text \<open>
  \<open>DeleteDepartment\<close>; \<open>None\<close> when its recursive statement never ends.  A database computes the recursive table
  when the first ACL row passes the other conditions; with \<open>eager\<close> its plan computes it in any case (SQLite
  does not on this schema, for PostgreSQL it is a choice of the planner).
\<close>

definition department_acls :: "access_db \<Rightarrow> string \<Rightarrow> acl_row list" where
  "department_acls db tenant = filter (\<lambda>r. ar_tenant_id r = tenant \<and> ar_principal_type r = PrincipalTypeDepartment) (resource_acls db)"

definition DeleteDepartment :: "bool \<Rightarrow> sql_env \<Rightarrow> access_db \<Rightarrow> string \<Rightarrow> string \<Rightarrow> (access_db \<times> gerr option) option" where
  "DeleteDepartment eager env db tenant i =
     (case fault env ''begin'' of Some e \<Rightarrow> Some (db, Some e) | None \<Rightarrow>
      (case fault env ''delete department acls'' of Some e \<Rightarrow> Some (db, Some e) | None \<Rightarrow>
       (let roots = map dr_id (filter (\<lambda>r. dr_tenant_id r = tenant \<and> dr_id r = i) (departments db)) in
        case (if eager \<or> department_acls db tenant \<noteq> [] then department_tree db tenant [] roots else Some []) of
          None \<Rightarrow> None
        | Some tree \<Rightarrow>
            (let db1 = db\<lparr>resource_acls := filter (\<lambda>r. \<not> (ar_tenant_id r = tenant \<and>
                             ar_principal_type r = PrincipalTypeDepartment \<and> ar_principal_id r \<in> set tree)) (resource_acls db)\<rparr>
             in Some (case stmt env ''delete department''
                             (accessDeleteResult env (length roots) (delete_departments db1 roots)) of
                        Inl e \<Rightarrow> (db, Some e)
                      | Inr db2 \<Rightarrow> tx_commit env db db2)))))"

definition PutDepartmentMember :: "sql_env \<Rightarrow> access_db \<Rightarrow> DepartmentMember \<Rightarrow> access_db \<times> gerr option" where
  "PutDepartmentMember env db m =
     (let key = (\<lambda>r. mr_tenant_id r = dm_TenantID m \<and> mr_department_id r = dm_DepartmentID m \<and> mr_subject_id r = dm_SubjectID m) in
      run db (stmt env ''put department member''
        (if list_ex key (department_members db)
         then Inr (db\<lparr>department_members := map (\<lambda>r. if key r then r\<lparr>mr_role := dm_Role m\<rparr> else r) (department_members db)\<rparr>)
         else if \<not> list_ex (\<lambda>r. dr_id r = dm_DepartmentID m) (departments db)
         then Inl (fkey_violation env ''department_members_department'')
         else Inr (db\<lparr>department_members := department_members db @
                [\<lparr>mr_tenant_id = dm_TenantID m, mr_department_id = dm_DepartmentID m, mr_subject_id = dm_SubjectID m,
                  mr_role = dm_Role m, mr_created_at = accessTimeString (dm_CreatedAt m)\<rparr>]\<rparr>))))"

definition DeleteDepartmentMember :: "sql_env \<Rightarrow> access_db \<Rightarrow> string \<Rightarrow> string \<Rightarrow> string \<Rightarrow> access_db \<times> gerr option" where
  "DeleteDepartmentMember env db tenant departmentID subjectID =
     (let hit = (\<lambda>r. mr_tenant_id r = tenant \<and> mr_department_id r = departmentID \<and> mr_subject_id r = subjectID) in
      run db (stmt env ''delete department member''
        (accessDeleteResult env (length (filter hit (department_members db)))
           (db\<lparr>department_members := filter (\<lambda>r. \<not> hit r) (department_members db)\<rparr>))))"

definition ListDepartmentMembers :: "sql_env \<Rightarrow> access_db \<Rightarrow> string \<Rightarrow> string \<Rightarrow> DepartmentMember list res" where
  "ListDepartmentMembers env db tenant departmentID =
     query_all env ''list department members''
       (\<lambda>r. \<lparr>dm_TenantID = mr_tenant_id r, dm_DepartmentID = mr_department_id r, dm_SubjectID = mr_subject_id r,
             dm_Role = mr_role r, dm_CreatedAt = accessTime (mr_created_at r)\<rparr>)
       (sort_key mr_subject_id
          (filter (\<lambda>r. mr_tenant_id r = tenant \<and> mr_department_id r = departmentID) (department_members db)))"

section \<open>ACL entries (\<open>sql_access_acl.go\<close>)\<close>

definition scanACLEntry :: "acl_row \<Rightarrow> ACLEntry" where
  "scanACLEntry r =
     \<lparr>e_ID = ar_id r, e_TenantID = ar_tenant_id r, e_Bucket = ar_bucket r, e_Key = ar_resource_key r,
      e_ResourceKind = ar_resource_kind r, e_PrincipalType = ar_principal_type r, e_PrincipalID = ar_principal_id r,
      e_Action = ar_action r, e_Effect = ar_effect r, e_Inherit = (ar_inherit_acl r \<noteq> 0),
      e_CreatedBy = ar_created_by r, e_CreatedAt = accessTime (ar_created_at r), e_OwnerID = []\<rparr>"

definition acl_row_of :: "ACLEntry \<Rightarrow> acl_row" where
  "acl_row_of e =
     \<lparr>ar_id = e_ID e, ar_tenant_id = e_TenantID e, ar_bucket = e_Bucket e, ar_resource_key = e_Key e,
      ar_resource_kind = e_ResourceKind e, ar_principal_type = e_PrincipalType e, ar_principal_id = e_PrincipalID e,
      ar_action = e_Action e, ar_effect = e_Effect e, ar_inherit_acl = boolInt (e_Inherit e),
      ar_created_by = e_CreatedBy e, ar_created_at = accessTimeString (e_CreatedAt e)\<rparr>"

definition acl_resource :: "acl_row \<Rightarrow> string \<times> string \<times> string \<times> string" where
  "acl_resource r = (ar_tenant_id r, ar_bucket r, ar_resource_key r, ar_resource_kind r)"

definition acl_natural_key :: "acl_row \<Rightarrow> (string \<times> string \<times> string \<times> string) \<times> string \<times> string \<times> string" where
  "acl_natural_key r = (acl_resource r, ar_principal_type r, ar_principal_id r, ar_action r)"

definition update_acl_row :: "acl_row \<Rightarrow> acl_row \<Rightarrow> acl_row" where
  "update_acl_row n r =
     (if ar_id r = ar_id n \<and> acl_resource r = acl_resource n
      then r\<lparr>ar_principal_type := ar_principal_type n, ar_principal_id := ar_principal_id n, ar_action := ar_action n,
             ar_effect := ar_effect n, ar_inherit_acl := ar_inherit_acl n\<rparr>
      else r)"

definition validateACLWriteResult :: "sql_env \<Rightarrow> nat \<Rightarrow> 'db \<Rightarrow> 'db res" where
  "validateACLWriteResult env changed db =
     rbind (stmt env ''rows affected'' (Inr ())) (\<lambda>_. if changed = 0 then Inl (Sentinel ErrInvalidArgument) else Inr db)"

definition PutACLEntry :: "sql_env \<Rightarrow> access_db \<Rightarrow> ACLEntry \<Rightarrow> access_db \<times> gerr option" where
  "PutACLEntry env db entry =
     (let n = acl_row_of entry; rows = resource_acls db in
      run db (rbind (stmt env ''put acl''
        (if list_ex (\<lambda>r. ar_id r \<noteq> ar_id n \<and> acl_natural_key r = acl_natural_key n) rows
         then Inl (unique_violation env ''resource_acls_key'')
         else if list_ex (\<lambda>r. ar_id r = ar_id n) rows
         then Inr (map (update_acl_row n) rows,
                   length (filter (\<lambda>r. ar_id r = ar_id n \<and> acl_resource r = acl_resource n) rows))
         else Inr (rows @ [n], 1))) (\<lambda>(rows', changed).
      validateACLWriteResult env changed (db\<lparr>resource_acls := rows'\<rparr>))))"

definition DeleteACLEntry :: "sql_env \<Rightarrow> access_db \<Rightarrow> string \<Rightarrow> string \<Rightarrow> access_db \<times> gerr option" where
  "DeleteACLEntry env db tenant i =
     (let hit = (\<lambda>r. ar_tenant_id r = tenant \<and> ar_id r = i) in
      run db (stmt env ''delete acl''
        (accessDeleteResult env (length (filter hit (resource_acls db)))
           (db\<lparr>resource_acls := filter (\<lambda>r. \<not> hit r) (resource_acls db)\<rparr>))))"

definition GetACLEntry :: "sql_env \<Rightarrow> access_db \<Rightarrow> string \<Rightarrow> string \<Rightarrow> ACLEntry res" where
  "GetACLEntry env db tenant i =
     not_found (query_row env ''get acl''
       (map scanACLEntry (filter (\<lambda>r. ar_tenant_id r = tenant \<and> ar_id r = i) (resource_acls db))))"

definition GetACLEntryByID :: "sql_env \<Rightarrow> access_db \<Rightarrow> string \<Rightarrow> ACLEntry res" where
  "GetACLEntryByID env db i =
     not_found (query_row env ''get acl by id'' (map scanACLEntry (filter (\<lambda>r. ar_id r = i) (resource_acls db))))"

definition queryACL :: "sql_env \<Rightarrow> string \<Rightarrow> acl_row list \<Rightarrow> ACLEntry list res" where
  "queryACL env l rows = query_all env l scanACLEntry rows"

definition ListResourceACL :: "sql_env \<Rightarrow> access_db \<Rightarrow> string \<Rightarrow> string \<Rightarrow> string \<Rightarrow> string \<Rightarrow> ACLEntry list res" where
  "ListResourceACL env db tenant bucket key kind =
     queryACL env ''list resource acl''
       (sort_key (\<lambda>r. (ar_created_at r, ar_id r))
          (filter (\<lambda>r. acl_resource r = (tenant, bucket, key, kind)) (resource_acls db)))"

text \<open>The WHERE clause of \<open>ListApplicableACL\<close>; \<open>substr(key, 1, length(k)) = k\<close> is a prefix test.\<close>

definition acl_applies :: "string \<Rightarrow> string \<Rightarrow> string \<Rightarrow> acl_row \<Rightarrow> bool" where
  "acl_applies tenant bucket key r \<longleftrightarrow>
     ar_tenant_id r = tenant \<and> ar_bucket r = bucket \<and>
     (ar_resource_kind r = ''bucket'' \<or>
      (ar_resource_kind r = ''object'' \<and> ar_resource_key r = key) \<or>
      (ar_resource_kind r = ''folder'' \<and>
         (ar_resource_key r = key \<or> (ar_inherit_acl r = 1 \<and> has_prefix key (ar_resource_key r)))))"

definition ListApplicableACL :: "sql_env \<Rightarrow> access_db \<Rightarrow> string \<Rightarrow> string \<Rightarrow> string \<Rightarrow> ACLEntry list res" where
  "ListApplicableACL env db tenant bucket key =
     queryACL env ''list applicable acl''
       (sort_key (\<lambda>r. (- int (rune_count (ar_resource_key r)), ar_created_at r, ar_id r))
          (filter (acl_applies tenant bucket key) (resource_acls db)))"

section \<open>Shares (\<open>sql_access_shares.go\<close>)\<close>

definition scanShare :: "share_row \<Rightarrow> Share" where
  "scanShare r =
     \<lparr>sh_ID = sr_id r, sh_TenantID = sr_tenant_id r, sh_Bucket = sr_bucket r, sh_Key = sr_object_key r,
      sh_Name = sr_name r, sh_TokenHash = sr_token_hash r, sh_PasswordMAC = sr_password_mac r,
      sh_AllowPreview = (sr_allow_preview r \<noteq> 0), sh_AllowDownload = (sr_allow_download r \<noteq> 0),
      sh_MaxUses = sr_max_uses r, sh_UseCount = sr_use_count r, sh_ExpiresAt = accessTime (sr_expires_at r),
      sh_RevokedAt = accessTime (sr_revoked_at r), sh_CreatedBy = sr_created_by r,
      sh_CreatedAt = accessTime (sr_created_at r), sh_OwnerID = sr_owner_id r\<rparr>"

definition share_row_of :: "Share \<Rightarrow> share_row" where
  "share_row_of s =
     \<lparr>sr_id = sh_ID s, sr_tenant_id = sh_TenantID s, sr_bucket = sh_Bucket s, sr_object_key = sh_Key s,
      sr_name = sh_Name s, sr_token_hash = sh_TokenHash s, sr_password_mac = sh_PasswordMAC s,
      sr_allow_preview = boolInt (sh_AllowPreview s), sr_allow_download = boolInt (sh_AllowDownload s),
      sr_max_uses = sh_MaxUses s, sr_use_count = sh_UseCount s, sr_expires_at = accessTimeString (sh_ExpiresAt s),
      sr_revoked_at = accessTimeString (sh_RevokedAt s), sr_created_by = sh_CreatedBy s, sr_owner_id = sh_OwnerID s,
      sr_created_at = accessTimeString (sh_CreatedAt s)\<rparr>"

definition store_CreateShare :: "sql_env \<Rightarrow> access_db \<Rightarrow> Share \<Rightarrow> access_db \<times> gerr option" where
  "store_CreateShare env db share =
     (let n = share_row_of share in
      run db (stmt env ''create share''
        (if list_ex (\<lambda>r. sr_id r = sr_id n) (shares db) then Inl (pkey_violation env ''shares_pkey'')
         else if list_ex (\<lambda>r. sr_token_hash r = sr_token_hash n) (shares db)
         then Inl (unique_violation env ''shares_token_hash_key'')
         else Inr (db\<lparr>shares := shares db @ [n]\<rparr>))))"

definition GetShare :: "sql_env \<Rightarrow> access_db \<Rightarrow> string \<Rightarrow> string \<Rightarrow> Share res" where
  "GetShare env db tenant i =
     not_found (query_row env ''get share''
       (map scanShare (filter (\<lambda>r. sr_tenant_id r = tenant \<and> sr_id r = i) (shares db))))"

definition GetShareByTokenHash :: "sql_env \<Rightarrow> access_db \<Rightarrow> string \<Rightarrow> Share res" where
  "GetShareByTokenHash env db hash =
     not_found (query_row env ''get share by token'' (map scanShare (filter (\<lambda>r. sr_token_hash r = hash) (shares db))))"

definition store_ListShares :: "sql_env \<Rightarrow> access_db \<Rightarrow> string \<Rightarrow> string \<Rightarrow> string \<Rightarrow> Share list res" where
  "store_ListShares env db tenant bucket key =
     query_all env ''list shares'' scanShare
       (rev (sort_key sr_created_at
          (filter (\<lambda>r. sr_tenant_id r = tenant \<and> sr_bucket r = bucket \<and> sr_object_key r = key) (shares db))))"

definition store_RevokeShare :: "sql_env \<Rightarrow> access_db \<Rightarrow> string \<Rightarrow> string \<Rightarrow> ttext \<Rightarrow> access_db \<times> gerr option" where
  "store_RevokeShare env db tenant i revokedAt =
     (let hit = (\<lambda>r. sr_tenant_id r = tenant \<and> sr_id r = i \<and> sr_revoked_at r = None) in
      run db (stmt env ''revoke share''
        (accessDeleteResult env (length (filter hit (shares db)))
           (db\<lparr>shares := map (\<lambda>r. if hit r then r\<lparr>sr_revoked_at := revokedAt\<rparr> else r) (shares db)\<rparr>))))"

definition share_usable :: "string \<Rightarrow> ttext \<Rightarrow> share_row \<Rightarrow> bool" where
  "share_usable hash now r \<longleftrightarrow>
     sr_token_hash r = hash \<and> sr_revoked_at r = None \<and> (sr_expires_at r = None \<or> now < sr_expires_at r) \<and>
     (sr_max_uses r = 0 \<or> sr_use_count r < sr_max_uses r)"

definition use_share :: "string \<Rightarrow> ttext \<Rightarrow> share_row \<Rightarrow> share_row" where
  "use_share hash now r = (if share_usable hash now r then r\<lparr>sr_use_count := sr_use_count r + 1\<rparr> else r)"

definition ConsumeShare :: "sql_env \<Rightarrow> access_db \<Rightarrow> string \<Rightarrow> ttext \<Rightarrow> access_db \<times> Share res" where
  "ConsumeShare env db hash now =
     (case fault env ''consume share'' of
        Some e \<Rightarrow> (db, Inl e)
      | None \<Rightarrow>
          (let db' = db\<lparr>shares := map (use_share hash now) (shares db)\<rparr>;
               count = length (filter (share_usable hash now) (shares db)) in
           case fault env ''rows affected'' of
             Some e \<Rightarrow> (db', Inl e)
           | None \<Rightarrow>
               if count = 0 then (db', Inl (Sentinel ErrShareExpired))
               else (db', GetShareByTokenHash env db' hash)))"

section \<open>Public assets (\<open>sql_access_assets.go\<close>)\<close>

definition scanPublicAsset :: "asset_row \<Rightarrow> PublicAsset" where
  "scanPublicAsset r =
     \<lparr>pa_ID = as_id r, pa_TenantID = as_tenant_id r, pa_Bucket = as_bucket r, pa_Key = as_object_key r,
      pa_Slug = as_slug r, pa_CacheControl = as_cache_control r, pa_PublishedBy = as_published_by r,
      pa_PublishedAt = accessTime (as_published_at r), pa_OwnerID = as_owner_id r\<rparr>"

definition update_asset_row :: "PublicAsset \<Rightarrow> asset_row \<Rightarrow> asset_row" where
  "update_asset_row a r =
     (if as_id r = pa_ID a
      then r\<lparr>as_object_key := pa_Key a, as_slug := pa_Slug a, as_cache_control := pa_CacheControl a,
             as_published_by := pa_PublishedBy a, as_owner_id := pa_OwnerID a,
             as_published_at := accessTimeString (pa_PublishedAt a)\<rparr>
      else r)"

definition PutPublicAsset :: "sql_env \<Rightarrow> access_db \<Rightarrow> PublicAsset \<Rightarrow> access_db \<times> gerr option" where
  "PutPublicAsset env db a =
     run db (stmt env ''put public asset''
       (if list_ex (\<lambda>r. as_id r \<noteq> pa_ID a \<and> as_slug r = pa_Slug a) (public_assets db)
        then Inl (unique_violation env ''public_assets_slug_key'')
        else if list_ex (\<lambda>r. as_id r = pa_ID a) (public_assets db)
        then Inr (db\<lparr>public_assets := map (update_asset_row a) (public_assets db)\<rparr>)
        else Inr (db\<lparr>public_assets := public_assets db @
               [\<lparr>as_id = pa_ID a, as_tenant_id = pa_TenantID a, as_bucket = pa_Bucket a, as_object_key = pa_Key a,
                 as_slug = pa_Slug a, as_cache_control = pa_CacheControl a, as_published_by = pa_PublishedBy a,
                 as_owner_id = pa_OwnerID a, as_published_at = accessTimeString (pa_PublishedAt a)\<rparr>]\<rparr>)))"

definition GetPublicAsset :: "sql_env \<Rightarrow> access_db \<Rightarrow> string \<Rightarrow> PublicAsset res" where
  "GetPublicAsset env db slug =
     not_found (query_row env ''get public asset''
       (map scanPublicAsset (filter (\<lambda>r. as_slug r = slug) (public_assets db))))"

definition store_ListPublicAssets :: "sql_env \<Rightarrow> access_db \<Rightarrow> string \<Rightarrow> PublicAsset list res" where
  "store_ListPublicAssets env db tenant =
     query_all env ''list public assets'' scanPublicAsset
       (rev (sort_key as_published_at (rev (sort_key as_id (filter (\<lambda>r. as_tenant_id r = tenant) (public_assets db))))))"

definition DeletePublicAsset :: "sql_env \<Rightarrow> access_db \<Rightarrow> string \<Rightarrow> string \<Rightarrow> access_db \<times> gerr option" where
  "DeletePublicAsset env db tenant slug =
     (let hit = (\<lambda>r. as_tenant_id r = tenant \<and> as_slug r = slug) in
      run db (stmt env ''delete public asset''
        (accessDeleteResult env (length (filter hit (public_assets db)))
           (db\<lparr>public_assets := filter (\<lambda>r. \<not> hit r) (public_assets db)\<rparr>))))"

section \<open>Cleanup after objects and buckets (\<open>sql_access_cleanup.go\<close>)\<close>

definition delete_shares_where :: "sql_env \<Rightarrow> (share_row \<Rightarrow> bool) \<Rightarrow> access_db \<Rightarrow> access_db res" where
  "delete_shares_where env p db = stmt env ''delete shares'' (Inr (db\<lparr>shares := filter (\<lambda>r. \<not> p r) (shares db)\<rparr>))"

definition delete_assets_where :: "sql_env \<Rightarrow> (asset_row \<Rightarrow> bool) \<Rightarrow> access_db \<Rightarrow> access_db res" where
  "delete_assets_where env p db =
     stmt env ''delete public assets'' (Inr (db\<lparr>public_assets := filter (\<lambda>r. \<not> p r) (public_assets db)\<rparr>))"

definition delete_acls_where :: "sql_env \<Rightarrow> (acl_row \<Rightarrow> bool) \<Rightarrow> access_db \<Rightarrow> access_db res" where
  "delete_acls_where env p db =
     stmt env ''delete acls'' (Inr (db\<lparr>resource_acls := filter (\<lambda>r. \<not> p r) (resource_acls db)\<rparr>))"

text \<open>These run on the caller's transaction; the result is the transaction's database.\<close>

definition deleteObjectCapabilities :: "sql_env \<Rightarrow> access_db \<Rightarrow> string \<Rightarrow> string \<Rightarrow> string \<Rightarrow> access_db res" where
  "deleteObjectCapabilities env db tenant bucket key =
     rbind (delete_shares_where env (\<lambda>r. sr_tenant_id r = tenant \<and> sr_bucket r = bucket \<and> sr_object_key r = key) db)
       (delete_assets_where env (\<lambda>r. as_tenant_id r = tenant \<and> as_bucket r = bucket \<and> as_object_key r = key))"

definition deleteObjectAccessState :: "sql_env \<Rightarrow> access_db \<Rightarrow> string \<Rightarrow> string \<Rightarrow> string \<Rightarrow> access_db res" where
  "deleteObjectAccessState env db tenant bucket key =
     rbind (deleteObjectCapabilities env db tenant bucket key)
       (delete_acls_where env (\<lambda>r. acl_resource r = (tenant, bucket, key, ''object'')))"

definition deleteBucketAccessState :: "sql_env \<Rightarrow> access_db \<Rightarrow> string \<Rightarrow> string \<Rightarrow> access_db res" where
  "deleteBucketAccessState env db tenant bucket =
     rbind (delete_shares_where env (\<lambda>r. sr_tenant_id r = tenant \<and> sr_bucket r = bucket) db) (\<lambda>db1.
     rbind (delete_assets_where env (\<lambda>r. as_tenant_id r = tenant \<and> as_bucket r = bucket) db1)
       (delete_acls_where env (\<lambda>r. ar_tenant_id r = tenant \<and> ar_bucket r = bucket)))"

end
