(* ===== verification/Access_Authorizer.thy ===== *)
theory Access_Authorizer
  imports Access_Boundary Access_Store
begin

text \<open>
  The policy decision point: \<open>internal/access/authorizer.go\<close> and the configuration of
  \<open>manager.go\<close>.  A \<open>Manager\<close> is its configuration and its resource boundary; the store it reads is
  the access database under the environment of the call.  \<open>Authorize\<close> returns Go's pair of a
  \<open>Decision\<close> and an \<open>error\<close>.
\<close>

abbreviation (input) DefaultDeny :: string where "DefaultDeny \<equiv> ''deny''"
abbreviation (input) DefaultTenant :: string where "DefaultTenant \<equiv> ''tenant''"

record Config =
  cfg_Enabled :: bool
  cfg_DefaultPolicy :: string
  cfg_ShareSecret :: string
  cfg_DeleteFailOpen :: bool

record Manager =
  mg_cfg :: Config
  mg_boundary :: "ResourceBoundary option"

text \<open>\<open>NewManager\<close>; the store is absent or given with the reader ports it implements.\<close>

definition NewManager :: "(binding_probe option \<times> coverage_probe option) option \<Rightarrow> Config \<Rightarrow> Manager res" where
  "NewManager store cfg0 =
     (case store of
        None \<Rightarrow> Inl (NewError ''access: store is required'')
      | Some (binding, coverage) \<Rightarrow>
          (let cfg = (if cfg_DefaultPolicy cfg0 = [] then cfg0\<lparr>cfg_DefaultPolicy := DefaultDeny\<rparr> else cfg0) in
           if cfg_DefaultPolicy cfg \<noteq> DefaultDeny \<and> cfg_DefaultPolicy cfg \<noteq> DefaultTenant
           then Inl (NewError ''access: default policy'')
           else if length (cfg_ShareSecret cfg) < 32
           then Inl (NewError ''access: share secret must be at least 32 bytes'')
           else Inr \<lparr>mg_cfg = cfg, mg_boundary = Some (NewResourceBoundary binding coverage)\<rparr>))"

definition Enabled :: "Manager option \<Rightarrow> bool" where
  "Enabled m \<longleftrightarrow> (case m of None \<Rightarrow> False | Some mg \<Rightarrow> cfg_Enabled (mg_cfg mg))"

section \<open>Matching\<close>

definition denied :: "string \<Rightarrow> Decision" where
  "denied reason = \<lparr>DAllowed = False, Reason = reason\<rparr>"

definition allowed :: "string \<Rightarrow> Decision" where
  "allowed reason = \<lparr>DAllowed = True, Reason = reason\<rparr>"

definition isDeleteAction :: "string \<Rightarrow> bool" where
  "isDeleteAction action \<longleftrightarrow> action = ActionDelete \<or> action = ActionAdminDelete"

definition tenantMatches :: "Principal \<Rightarrow> Resource \<Rightarrow> bool" where
  "tenantMatches p r \<longleftrightarrow> p_TenantID p = ''*'' \<or> (p_TenantID p \<noteq> [] \<and> p_TenantID p = r_TenantID r)"

definition actionMatches :: "string \<Rightarrow> string \<Rightarrow> bool" where
  "actionMatches granted wanted =
     (if granted = ActionAll \<or> granted = wanted then True
      else if wanted = ActionAdminDelete \<and> granted = ActionDelete then True
      else if wanted = ActionPreview \<or> wanted = ActionDownload then granted = ActionRead
      else False)"

definition principalMatches :: "ACLEntry \<Rightarrow> Principal \<Rightarrow> string list \<Rightarrow> bool" where
  "principalMatches entry p deps =
     (let t = e_PrincipalType entry; i = e_PrincipalID entry in
      if t = PrincipalTypeEveryone then True
      else if t = PrincipalTypeAuthenticated
      then p_Kind p \<noteq> PrincipalAnonymous \<and> p_Kind p \<noteq> PrincipalPublic \<and> p_Kind p \<noteq> PrincipalShare
      else if t = PrincipalTypeUser then i = p_SubjectID p
      else if t = PrincipalTypeDepartment then i \<in> set deps
      else if t = PrincipalTypeGroup then i \<in> set (p_Groups p)
      else if t = PrincipalTypeRole then i \<in> set (p_Roles p)
      else False)"

definition matchingEntries :: "ACLEntry list \<Rightarrow> Principal \<Rightarrow> string list \<Rightarrow> string \<Rightarrow> ACLEntry list" where
  "matchingEntries entries p deps action =
     filter (\<lambda>entry. actionMatches (e_Action entry) action \<and> principalMatches entry p deps) entries"

definition hasEffect :: "ACLEntry list \<Rightarrow> string \<Rightarrow> bool" where
  "hasEffect entries effect \<longleftrightarrow> list_ex (\<lambda>entry. e_Effect entry = effect) entries"

definition capabilityAllows :: "Capability option \<Rightarrow> Resource \<Rightarrow> string \<Rightarrow> bool" where
  "capabilityAllows capability r action =
     (case capability of
        None \<Rightarrow> False
      | Some c \<Rightarrow> cap_TenantID c = r_TenantID r \<and> cap_Bucket c = r_Bucket r \<and> cap_Key c = r_Key r \<and>
                  list_ex (\<lambda>granted. actionMatches granted action) (cap_Actions c))"

definition isAdministrator :: "Principal \<Rightarrow> bool" where
  "isAdministrator p \<longleftrightarrow>
     p_TenantID p = ''*'' \<or> ''admin'' \<in> set (p_Scopes p) \<or>
     list_ex (\<lambda>role. role = ''vault.tenant_admin'' \<or> role = ''vault.file_admin'') (p_Roles p)"

definition IsAdministrator :: "Principal \<Rightarrow> bool" where
  "IsAdministrator p \<longleftrightarrow> isAdministrator p"

definition scopeAllows :: "Principal \<Rightarrow> string \<Rightarrow> bool" where
  "scopeAllows p action =
     (if ''admin'' \<in> set (p_Scopes p) then True
      else if action = ActionManageACL then False
      else if action = ActionShare then ''share'' \<in> set (p_Scopes p)
      else if action = ActionPublish
      then ''publish'' \<in> set (p_Scopes p) \<or>
           list_ex (\<lambda>role. role = ''vault.publisher'' \<or> role = ''vault.publisher_admin'') (p_Roles p)
      else (let read = (action = ActionList \<or> action = ActionRead \<or> action = ActionPreview \<or>
                        action = ActionDownload \<or> action = ActionExport);
                wanted = (if read then ''read'' else ''write'') in
            wanted \<in> set (p_Scopes p) \<or>
            list_ex (\<lambda>role. role = ''vault.member'' \<and> read \<or> has_prefix role ''vault.publisher'') (p_Roles p)))"

section \<open>Decisions\<close>

definition hasExplicitDeleteGrant :: "Principal \<Rightarrow> ACLEntry list \<Rightarrow> bool" where
  "hasExplicitDeleteGrant p entries \<longleftrightarrow>
     PermissionVaultFileDelete \<in> set (p_Scopes p) \<or> PermissionVaultFileDelete \<in> set (p_Roles p) \<or>
     list_ex (\<lambda>entry. e_Effect entry = EffectAllow \<and> e_Action entry = ActionDelete) entries"

definition hasExplicitAdminDeleteGrant :: "Principal \<Rightarrow> ACLEntry list \<Rightarrow> bool" where
  "hasExplicitAdminDeleteGrant p entries \<longleftrightarrow>
     PermissionVaultFileDelete \<in> set (p_Scopes p) \<or> PermissionVaultFileDelete \<in> set (p_Roles p) \<or>
     list_ex (\<lambda>entry. e_Effect entry = EffectAllow \<and> (e_Action entry = ActionAdminDelete \<or> e_Action entry = ActionDelete)) entries"

definition authorizeDelete :: "Principal \<Rightarrow> string \<Rightarrow> Resource \<Rightarrow> ACLEntry list \<Rightarrow> Decision" where
  "authorizeDelete p action r matching =
     (if hasEffect matching EffectDeny then denied ''explicit_deny''
      else if action = ActionAdminDelete then
        (if capabilityAllows (p_Capability p) r action \<or> hasExplicitAdminDeleteGrant p matching \<or> isAdministrator p
         then allowed ''explicit_delete_grant'' else denied ''delete_permission_required'')
      else if hasExplicitDeleteGrant p matching then allowed ''explicit_delete_grant''
      else denied ''default_deny'')"

definition authorizeDefault :: "Manager \<Rightarrow> Principal \<Rightarrow> string \<Rightarrow> ACLEntry list \<Rightarrow> Decision" where
  "authorizeDefault m p action entries =
     (if entries \<noteq> [] then denied ''resource_acl_no_match''
      else if cfg_DefaultPolicy (mg_cfg m) = DefaultTenant \<and> scopeAllows p action then allowed ''tenant_default''
      else denied ''default_deny'')"

definition authorizeMatching ::
  "Manager \<Rightarrow> Principal \<Rightarrow> string \<Rightarrow> Resource \<Rightarrow> ACLEntry list \<Rightarrow> ACLEntry list \<Rightarrow> Decision" where
  "authorizeMatching m p action r entries matching =
     (if isDeleteAction action then authorizeDelete p action r matching
      else if hasEffect matching EffectDeny then denied ''explicit_deny''
      else if hasEffect matching EffectAllow then allowed ''acl_allow''
      else if capabilityAllows (p_Capability p) r action then allowed ''capability''
      else if p_SubjectID p \<noteq> [] \<and> p_SubjectID p = r_OwnerID r then allowed ''owner''
      else if isAdministrator p then allowed ''administrator''
      else authorizeDefault m p action entries)"

definition Authorize ::
  "uuid_lib \<Rightarrow> Manager \<Rightarrow> sql_env \<Rightarrow> access_db \<Rightarrow> 'c ctx_state_scheme \<Rightarrow> Principal \<Rightarrow> string \<Rightarrow> Resource \<Rightarrow> Decision \<times> gerr option" where
  "Authorize U m env db ctx p action r =
     (case CheckBucket U (mg_boundary m) (Some ctx) (r_TenantID r) (r_Bucket r) of
        Some e \<Rightarrow> (denied ''resource_boundary'', Some e)
      | None \<Rightarrow>
          if p_Kind p = PrincipalSystem then (allowed ''trusted_system'', None)
          else if \<not> cfg_Enabled (mg_cfg m) then
            (if isDeleteAction action \<and> \<not> cfg_DeleteFailOpen (mg_cfg m)
             then (denied ''access_control_disabled'', None) else (allowed ''access_control_disabled'', None))
          else if p_SubjectID p = [] then (denied ''missing_principal'', None)
          else if \<not> tenantMatches p r then (denied ''tenant_mismatch'', None)
          else (case ListApplicableACL env db (r_TenantID r) (r_Bucket r) (r_Key r) of
                  Inl e \<Rightarrow> (denied ''acl_store_error'', Some e)
                | Inr entries \<Rightarrow>
                    (case ListSubjectDepartments env db (r_TenantID r) (p_SubjectID p) of
                       Inl e \<Rightarrow> (denied ''directory_store_error'', Some e)
                     | Inr deps \<Rightarrow>
                         (authorizeMatching m p action r entries (matchingEntries entries p deps action), None))))"

definition authorizeOrDenied ::
  "uuid_lib \<Rightarrow> Manager \<Rightarrow> sql_env \<Rightarrow> access_db \<Rightarrow> access_ctx \<Rightarrow> string \<Rightarrow> Resource \<Rightarrow> gerr option" where
  "authorizeOrDenied U m env db ctx action r =
     (case Authorize U m env db ctx (fst (PrincipalFrom ctx)) action r of
        (_, Some e) \<Rightarrow>
          if IsResourceBoundaryFault (Some e) then Some e else errors_join [Some (Sentinel ErrDenied), Some e]
      | (decision, None) \<Rightarrow>
          if \<not> DAllowed decision then errors_join [Some (Sentinel ErrDenied), Some (NewError (Reason decision))] else None)"

section \<open>Properties of decisions\<close>

lemma allowed_simps [simp]: "DAllowed (allowed x)" "\<not> DAllowed (denied x)"
  by (simp_all add: allowed_def denied_def)

text \<open>What the store reports as the grants that apply to a request.\<close>

definition applicable :: "access_db \<Rightarrow> Principal \<Rightarrow> string \<Rightarrow> Resource \<Rightarrow> string list \<Rightarrow> acl_row \<Rightarrow> bool" where
  "applicable db p action r deps row \<longleftrightarrow>
     row \<in> set (resource_acls db) \<and> acl_applies (r_TenantID r) (r_Bucket r) (r_Key r) row \<and>
     actionMatches (ar_action row) action \<and> principalMatches (scanACLEntry row) p deps"

lemma ListApplicableACL_ok:
  "ListApplicableACL env db t b k = Inr entries \<Longrightarrow>
     set entries = scanACLEntry ` {row \<in> set (resource_acls db). acl_applies t b k row}"
  by (auto simp: ListApplicableACL_def queryACL_def query_all_def go_simps)

lemma hasEffect_matching:
  assumes "ListApplicableACL env db (r_TenantID r) (r_Bucket r) (r_Key r) = Inr entries"
  shows "hasEffect (matchingEntries entries p deps action) eff \<longleftrightarrow>
    (\<exists>row. applicable db p action r deps row \<and> ar_effect row = eff)"
  using ListApplicableACL_ok [OF assms]
  by (auto simp: hasEffect_def matchingEntries_def list_ex_iff applicable_def scanACLEntry_def)

lemma authorizeMatching_deny:
  "hasEffect matching EffectDeny \<Longrightarrow> \<not> DAllowed (authorizeMatching m p action r entries matching)"
  by (simp add: authorizeMatching_def authorizeDelete_def)

section \<open>Departments of a subject\<close>

lemma graph_walk_seen: "set seen \<subseteq> set (graph_walk succ nodes seen work)"
  by (induction succ nodes seen work rule: graph_walk.induct) auto

lemma graph_walk_work: "set work \<subseteq> set (graph_walk succ nodes seen work)"
proof (induction succ nodes seen work rule: graph_walk.induct)
  case (2 succ nodes seen x work)
  then show ?case
    using graph_walk_seen [of seen succ nodes work] graph_walk_seen [of "x # seen" succ nodes "(if x \<in> set nodes then succ x else []) @ work"]
    by (auto split: if_splits)
qed simp

definition walk_rel :: "('a \<Rightarrow> 'a list) \<Rightarrow> 'a list \<Rightarrow> ('a \<times> 'a) set" where
  "walk_rel succ nodes = {(x, y). x \<in> set nodes \<and> y \<in> set (succ x)}"

lemma graph_walk_sound:
  "set (graph_walk succ nodes seen work) \<subseteq> set seen \<union> (walk_rel succ nodes)\<^sup>* `` set work"
proof (induction succ nodes seen work rule: graph_walk.induct)
  case (2 succ nodes seen x work)
  show ?case
  proof (cases "x \<in> set seen")
    case True
    with 2(1) [OF True] show ?thesis by auto
  next
    case False
    have "(walk_rel succ nodes)\<^sup>* `` set (if x \<in> set nodes then succ x else []) \<subseteq> (walk_rel succ nodes)\<^sup>* `` {x}"
      by (auto simp: walk_rel_def intro: converse_rtrancl_into_rtrancl)
    then have "insert x (set seen) \<union> (walk_rel succ nodes)\<^sup>* `` set ((if x \<in> set nodes then succ x else []) @ work)
        \<subseteq> set seen \<union> (walk_rel succ nodes)\<^sup>* `` set (x # work)"
      unfolding set_append Image_Un by auto
    with 2(2) [OF False] False show ?thesis by (simp only: graph_walk.simps if_False list.set(2)) 
  qed
qed auto

lemma graph_walk_closed:
  assumes "\<forall>x \<in> set seen. walk_rel succ nodes `` {x} \<subseteq> set seen \<union> set work"
  shows "\<forall>x \<in> set (graph_walk succ nodes seen work). walk_rel succ nodes `` {x} \<subseteq> set (graph_walk succ nodes seen work)"
  using assms
proof (induction succ nodes seen work rule: graph_walk.induct)
  case (2 succ nodes seen x work)
  show ?case
  proof (cases "x \<in> set seen")
    case True
    have "\<forall>y \<in> set seen. walk_rel succ nodes `` {y} \<subseteq> set seen \<union> set work" using 2(3) True by auto
    from 2(1) [OF True this] True show ?thesis by simp
  next
    case False
    have "\<forall>y \<in> set (x # seen). walk_rel succ nodes `` {y} \<subseteq> set (x # seen) \<union> set ((if x \<in> set nodes then succ x else []) @ work)"
      using 2(3) by (auto simp: walk_rel_def)
    from 2(2) [OF False this] False show ?thesis by simp
  qed
qed simp

lemma graph_walk_correct:
  "set (graph_walk succ nodes [] work) = (walk_rel succ nodes)\<^sup>* `` set work"
proof
  show "set (graph_walk succ nodes [] work) \<subseteq> (walk_rel succ nodes)\<^sup>* `` set work"
    using graph_walk_sound [of succ nodes "[]" work] by simp
  have "y \<in> set (graph_walk succ nodes [] work)" if "(x, y) \<in> (walk_rel succ nodes)\<^sup>*" "x \<in> set work" for x y
    using that
  proof (induction rule: rtrancl_induct)
    case base
    then show ?case using graph_walk_work [of work] by blast
  next
    case (step y z)
    then show ?case using graph_walk_closed [of "[]" succ nodes work] by auto
  qed
  then show "(walk_rel succ nodes)\<^sup>* `` set work \<subseteq> set (graph_walk succ nodes [] work)" by blast
qed

definition parent_of :: "access_db \<Rightarrow> string \<Rightarrow> (string \<times> string) set" where
  "parent_of db tenant = {(dr_id r, p) |r p. r \<in> set (departments db) \<and> dr_tenant_id r = tenant \<and> dr_parent_id r = Some p}"

lemma dept_walk_rel: "walk_rel (dept_parents db tenant) (map dr_id (departments db)) = parent_of db tenant"
proof -
  have mf: "set (List.map_filter f xs) = {y. \<exists>x \<in> set xs. f x = Some y}" for f :: "department_row \<Rightarrow> string option" and xs
    by (induction xs) (auto simp: List.map_filter_simps split: option.splits)
  show ?thesis
    unfolding walk_rel_def dept_parents_def parent_of_def mf by fastforce
qed

lemma subject_departments_set:
  assumes "subj \<noteq> []" and "ListSubjectDepartments env db tenant subj = Inr ds"
  shows "set ds = {d. \<exists>m \<in> set (department_members db). mr_tenant_id m = tenant \<and> mr_subject_id m = subj \<and>
                        (mr_department_id m, d) \<in> (parent_of db tenant)\<^sup>*}"
proof -
  have "ds = sort (graph_walk (dept_parents db tenant) (map dr_id (departments db)) []
          (map mr_department_id (filter (\<lambda>r. mr_tenant_id r = tenant \<and> mr_subject_id r = subj) (department_members db))))"
    using assms by (auto simp: ListSubjectDepartments_def query_all_def go_simps)
  then have "set ds = (parent_of db tenant)\<^sup>* ``
      set (map mr_department_id (filter (\<lambda>r. mr_tenant_id r = tenant \<and> mr_subject_id r = subj) (department_members db)))"
    by (simp only: set_sort graph_walk_correct dept_walk_rel)
  then show ?thesis by auto
qed

text \<open>The departments of a subject are exactly those reachable upwards, through parent links of the same
  tenant, from a department it is a member of; the walk ends also when parent links form a cycle.\<close>

lemma ListSubjectDepartments_closure:
  assumes "subj \<noteq> []" and "ListSubjectDepartments env db tenant subj = Inr ds"
  shows "set ds = {d. \<exists>m \<in> set (department_members db). mr_tenant_id m = tenant \<and> mr_subject_id m = subj \<and>
                        (mr_department_id m, d) \<in> (parent_of db tenant)\<^sup>*}"
  by (rule subject_departments_set [OF assms])

text \<open>
  The specification of an enabled decision point: no applicable deny, and a ground to allow.  An
  ordinary delete needs an explicit delete grant; an administrative delete also accepts a capability
  or an administrator; everything else accepts any applicable allow, a capability, ownership, an
  administrator, or the tenant default when no entry applies to the resource at all.
\<close>

definition grants :: "access_db \<Rightarrow> Manager \<Rightarrow> Principal \<Rightarrow> string \<Rightarrow> Resource \<Rightarrow> string list \<Rightarrow> bool" where
  "grants db m p action r deps \<longleftrightarrow>
     \<not> (\<exists>row. applicable db p action r deps row \<and> ar_effect row = EffectDeny) \<and>
     (if action = ActionDelete
      then PermissionVaultFileDelete \<in> set (p_Scopes p @ p_Roles p) \<or>
           (\<exists>row. applicable db p action r deps row \<and> ar_effect row = EffectAllow \<and> ar_action row = ActionDelete)
      else if action = ActionAdminDelete
      then PermissionVaultFileDelete \<in> set (p_Scopes p @ p_Roles p) \<or>
           (\<exists>row. applicable db p action r deps row \<and> ar_effect row = EffectAllow \<and>
                  (ar_action row = ActionAdminDelete \<or> ar_action row = ActionDelete)) \<or>
           capabilityAllows (p_Capability p) r action \<or> isAdministrator p
      else (\<exists>row. applicable db p action r deps row \<and> ar_effect row = EffectAllow) \<or>
           capabilityAllows (p_Capability p) r action \<or> p_SubjectID p = r_OwnerID r \<or> isAdministrator p \<or>
           (\<forall>row \<in> set (resource_acls db). \<not> acl_applies (r_TenantID r) (r_Bucket r) (r_Key r) row) \<and>
             cfg_DefaultPolicy (mg_cfg m) = DefaultTenant \<and> scopeAllows p action)"

lemma authorizeMatching_grants:
  assumes l: "ListApplicableACL env db (r_TenantID r) (r_Bucket r) (r_Key r) = Inr entries" and "p_SubjectID p \<noteq> []"
  shows "DAllowed (authorizeMatching m p action r entries (matchingEntries entries p deps action)) \<longleftrightarrow>
    grants db m p action r deps"
proof -
  have grant: "list_ex (\<lambda>entry. e_Effect entry = EffectAllow \<and> Q (e_Action entry)) (matchingEntries entries p deps action) \<longleftrightarrow>
      (\<exists>row. applicable db p action r deps row \<and> ar_effect row = EffectAllow \<and> Q (ar_action row))" for Q
    using ListApplicableACL_ok [OF l]
    by (auto simp: matchingEntries_def list_ex_iff applicable_def scanACLEntry_def)
  have empty: "entries = [] \<longleftrightarrow> (\<forall>row \<in> set (resource_acls db). \<not> acl_applies (r_TenantID r) (r_Bucket r) (r_Key r) row)"
    using ListApplicableACL_ok [OF l] by (cases entries) auto
  consider "action = ActionDelete" | "action = ActionAdminDelete" | "\<not> isDeleteAction action"
    by (auto simp: isDeleteAction_def)
  then show ?thesis
  proof cases
    case 1
    then show ?thesis
      using grant [of "\<lambda>a. a = ActionDelete"]
      by (auto simp: authorizeMatching_def authorizeDelete_def hasEffect_matching [OF l] isDeleteAction_def
          hasExplicitDeleteGrant_def grants_def)
  next
    case 2
    then show ?thesis
      using grant [of "\<lambda>a. a = ActionAdminDelete \<or> a = ActionDelete"]
      by (auto simp: authorizeMatching_def authorizeDelete_def hasEffect_matching [OF l] isDeleteAction_def
          hasExplicitAdminDeleteGrant_def grants_def)
  next
    case 3
    then have "action \<noteq> ActionDelete" "action \<noteq> ActionAdminDelete" by (auto simp: isDeleteAction_def)
    with 3 show ?thesis
      using assms(2) empty by (simp add: authorizeMatching_def authorizeDefault_def hasEffect_matching [OF l] grants_def)
  qed
qed

lemma Authorize_cases:
  "DAllowed (fst (Authorize U m env db ctx p action r)) \<longleftrightarrow>
     CheckBucket U (mg_boundary m) (Some ctx) (r_TenantID r) (r_Bucket r) = None \<and>
     (p_Kind p = PrincipalSystem \<or>
      \<not> cfg_Enabled (mg_cfg m) \<and> (\<not> isDeleteAction action \<or> cfg_DeleteFailOpen (mg_cfg m)) \<or>
      cfg_Enabled (mg_cfg m) \<and> p_SubjectID p \<noteq> [] \<and> tenantMatches p r \<and>
      (\<exists>entries deps. ListApplicableACL env db (r_TenantID r) (r_Bucket r) (r_Key r) = Inr entries \<and>
         ListSubjectDepartments env db (r_TenantID r) (p_SubjectID p) = Inr deps \<and> grants db m p action r deps))"
proof (cases "CheckBucket U (mg_boundary m) (Some ctx) (r_TenantID r) (r_Bucket r)")
  case None
  show ?thesis
  proof (cases "ListApplicableACL env db (r_TenantID r) (r_Bucket r) (r_Key r)")
    case (Inl e)
    with None show ?thesis by (simp add: Authorize_def)
  next
    case (Inr entries)
    with None authorizeMatching_grants [OF Inr, of p m action] show ?thesis
      by (cases "ListSubjectDepartments env db (r_TenantID r) (p_SubjectID p)") (simp_all add: Authorize_def)
  qed
qed (simp add: Authorize_def)

text \<open>C13. The full decision table: a request is allowed exactly when the resource boundary passes and the
  principal is a trusted system, or access control is disabled (and the action is not a delete, unless
  deletes fail open), or it is enabled, the subject is known, the tenant matches, both store reads
  succeed and the grants of the specification hold.\<close>

theorem Authorize_decision:
  "DAllowed (fst (Authorize U m env db ctx p action r)) \<longleftrightarrow>
     CheckBucket U (mg_boundary m) (Some ctx) (r_TenantID r) (r_Bucket r) = None \<and>
     (p_Kind p = PrincipalSystem \<or>
      \<not> cfg_Enabled (mg_cfg m) \<and> (\<not> isDeleteAction action \<or> cfg_DeleteFailOpen (mg_cfg m)) \<or>
      cfg_Enabled (mg_cfg m) \<and> p_SubjectID p \<noteq> [] \<and> tenantMatches p r \<and>
      (\<exists>entries deps. ListApplicableACL env db (r_TenantID r) (r_Bucket r) (r_Key r) = Inr entries \<and>
         ListSubjectDepartments env db (r_TenantID r) (p_SubjectID p) = Inr deps \<and> grants db m p action r deps))"
  by (rule Authorize_cases)

text \<open>Authorization fails closed: whenever an error is returned (boundary fault or denial, ACL store or
  directory failure) the decision is a denial.\<close>

lemma Authorize_fails_closed:
  assumes "snd (Authorize U m env db ctx p action r) = Some e"
  shows "\<not> DAllowed (fst (Authorize U m env db ctx p action r))"
  using assms by (auto simp: Authorize_def split: option.splits sum.splits if_splits)

text \<open>C14. With access control enabled an ordinary delete by anyone but a system principal needs an explicit
  delete grant: the vault.file.delete scope or role, or an applicable allow entry whose action is
  exactly object:delete.  Ownership, administration, a capability and a wildcard entry do not suffice.\<close>

theorem delete_needs_explicit_grant:
  assumes "DAllowed (fst (Authorize U m env db ctx p ActionDelete r))"
    and "cfg_Enabled (mg_cfg m)" and "p_Kind p \<noteq> PrincipalSystem"
  shows "PermissionVaultFileDelete \<in> set (p_Scopes p @ p_Roles p) \<or>
    (\<exists>row deps. applicable db p ActionDelete r deps row \<and> ar_effect row = EffectAllow \<and> ar_action row = ActionDelete)"
  using assms unfolding Authorize_cases by (auto simp: grants_def)

text \<open>C15. Tenant isolation: with access control enabled, a principal that is neither a system principal nor
  global is allowed only on resources of its own tenant, and every entry that can apply is an entry of
  that tenant and bucket.\<close>

theorem tenant_isolation:
  assumes "DAllowed (fst (Authorize U m env db ctx p action r))"
    and "cfg_Enabled (mg_cfg m)" and "p_Kind p \<noteq> PrincipalSystem" and "p_TenantID p \<noteq> ''*''"
  shows "r_TenantID r = p_TenantID p \<and> p_TenantID p \<noteq> [] \<and>
    (\<forall>row deps. applicable db p action r deps row \<longrightarrow> ar_tenant_id row = p_TenantID p \<and> ar_bucket row = r_Bucket r)"
  using assms unfolding Authorize_cases by (auto simp: tenantMatches_def applicable_def acl_applies_def)

text \<open>C16. A bucket that backs a Space is never accessible through this decision point: over the SQL store's
  probes, for every principal (the system included), whether or not access control is enabled, and
  whatever faults the driver reports, the request is denied; so is every request for a tenant whose
  row is not active.\<close>

theorem space_bound_never_allowed:
  assumes "mg_boundary m = Some (sql_boundary U penv pctx sdb)" and "spaces_wf U sdb"
    and "(\<exists>s \<in> set (spaces sdb). s_tenant_id s = r_TenantID r \<and> s_backing_bucket s = r_Bucket r) \<or>
         (\<exists>st. map_of (tenants sdb) (r_TenantID r) = Some st \<and> st \<noteq> ''active'')"
  shows "\<not> DAllowed (fst (Authorize U m env db ctx p action r))"
proof -
  have "CheckBucket U (mg_boundary m) (Some ctx) (r_TenantID r) (r_Bucket r) \<noteq> None"
  proof
    assume nil: "CheckBucket U (mg_boundary m) (Some ctx) (r_TenantID r) (r_Bucket r) = None"
    then obtain b where probe: "ProbeSpaceBinding U penv pctx sdb (r_TenantID r) (r_Bucket r) = Inr b" "br_State b = BindingUnbound"
      and act: "br_TenantKnown b \<longrightarrow> br_TenantStatus b = ''active''"
      unfolding assms(1) by (subst (asm) sql_binding.CheckBucket_nil) (auto simp: sql_boundary_def NewResourceBoundary_def)
    have valid: "ValidateBindingInput (r_TenantID r) (r_Bucket r) = None" and ok: "fault penv ''probe binding'' = None"
      using probe(1) by (auto simp: ProbeSpaceBinding_def go_simps)
    have "ProbeSpaceBinding U (no_faults (dialect_of penv)) pctx sdb (r_TenantID r) (r_Bucket r) = Inr b"
      using probe(1) ok by (simp add: ProbeSpaceBinding_def query_row_def stmt_def no_faults_def)
    with binding_probe_facts [OF _ assms(2) valid, of "no_faults (dialect_of penv)" pctx]
    have "b = binding_of (r_TenantID r) (r_Bucket r) (map_of (tenants sdb) (r_TenantID r))
        (List.find (\<lambda>s. s_tenant_id s = r_TenantID r \<and> s_backing_bucket s = r_Bucket r) (spaces sdb))" by simp
    then show False
      using assms(3) probe(2) act by (auto simp: binding_of_def null_string_def find_None_iff split: if_splits option.splits)
  qed
  then show ?thesis unfolding Authorize_cases by simp
qed

end
