(* ===== verification/Access_Manager.thy ===== *)
theory Access_Manager
  imports Access_Authorizer
begin

text \<open>
  The operations of \<open>access.Manager\<close> on departments and ACL entries (\<open>manager.go\<close>,
  \<open>acl_write.go\<close>).  \<open>time.Now()\<close> and \<open>uuid.NewString()\<close> are arguments; operations that write
  return the new database beside Go's results.
\<close>

section \<open>Departments\<close>

definition validateDepartment :: "Department \<Rightarrow> gerr option" where
  "validateDepartment d = first_error
     [fails (trim_space (d_TenantID d) = [] \<or> trim_space (d_Name d) = []) (invalid_argument ''tenant_id and name are required''),
      fails (length (d_Name d) > 200 \<or> d_ParentID d = d_ID d \<and> d_ID d \<noteq> []) (invalid_argument ''invalid department name or parent'')]"

definition CreateDepartment :: "sql_env \<Rightarrow> instant \<Rightarrow> string \<Rightarrow> access_db \<Rightarrow> Department \<Rightarrow> access_db \<times> Department res" where
  "CreateDepartment env now newid db d0 =
     (case first_error
        [validateDepartment d0,
         if d_ParentID d0 \<noteq> [] then
           (case GetDepartment env db (d_TenantID d0) (d_ParentID d0) of
              Inl _ \<Rightarrow> Some (invalid_argument ''parent department'') | Inr _ \<Rightarrow> None)
         else None] of
        Some e \<Rightarrow> (db, Inl e)
      | None \<Rightarrow>
          (let d = d0\<lparr>d_ID := if d_ID d0 = [] then newid else d_ID d0, d_CreatedAt := now, d_UpdatedAt := now\<rparr> in
           case PutDepartment env db d of
             (db', Some e) \<Rightarrow> (db', Inl e)
           | (db', None) \<Rightarrow> (db', Inr d)))"

definition manager_PutDepartmentMember :: "sql_env \<Rightarrow> instant \<Rightarrow> access_db \<Rightarrow> DepartmentMember \<Rightarrow> access_db \<times> gerr option" where
  "manager_PutDepartmentMember env now db m0 =
     (let m = (if dm_Role m0 = [] then m0\<lparr>dm_Role := ''member''\<rparr> else m0) in
      case first_error
        [fails (dm_TenantID m0 = [] \<or> dm_DepartmentID m0 = [] \<or> dm_SubjectID m0 = [])
           (invalid_argument ''tenant_id, department_id and subject_id are required''),
         fails (dm_Role m \<noteq> ''member'' \<and> dm_Role m \<noteq> ''manager'') (invalid_argument ''department role must be member or manager''),
         (case GetDepartment env db (dm_TenantID m) (dm_DepartmentID m) of
            Inl _ \<Rightarrow> Some (invalid_argument ''department'') | Inr _ \<Rightarrow> None)] of
        Some e \<Rightarrow> (db, Some e)
      | None \<Rightarrow> PutDepartmentMember env db (m\<lparr>dm_CreatedAt := now\<rparr>))"

definition manager_GetDepartment :: "sql_env \<Rightarrow> access_db \<Rightarrow> string \<Rightarrow> string \<Rightarrow> Department res" where
  "manager_GetDepartment env db tenant i = GetDepartment env db tenant i"

definition manager_ListDepartments :: "sql_env \<Rightarrow> access_db \<Rightarrow> string \<Rightarrow> Department list res" where
  "manager_ListDepartments env db tenant = ListDepartments env db tenant"

definition manager_DeleteDepartment :: "bool \<Rightarrow> sql_env \<Rightarrow> access_db \<Rightarrow> string \<Rightarrow> string \<Rightarrow> (access_db \<times> gerr option) option" where
  "manager_DeleteDepartment eager env db tenant i = DeleteDepartment eager env db tenant i"

definition manager_DeleteDepartmentMember :: "sql_env \<Rightarrow> access_db \<Rightarrow> string \<Rightarrow> string \<Rightarrow> string \<Rightarrow> access_db \<times> gerr option" where
  "manager_DeleteDepartmentMember env db tenant departmentID subjectID = DeleteDepartmentMember env db tenant departmentID subjectID"

definition manager_ListDepartmentMembers :: "sql_env \<Rightarrow> access_db \<Rightarrow> string \<Rightarrow> string \<Rightarrow> DepartmentMember list res" where
  "manager_ListDepartmentMembers env db tenant departmentID = ListDepartmentMembers env db tenant departmentID"

section \<open>ACL entries\<close>

definition subjectFromContext :: "access_ctx \<Rightarrow> string" where
  "subjectFromContext ctx = p_SubjectID (fst (PrincipalFrom ctx))"

definition require :: "uuid_lib \<Rightarrow> Manager \<Rightarrow> sql_env \<Rightarrow> access_db \<Rightarrow> access_ctx \<Rightarrow> string \<Rightarrow> Resource \<Rightarrow> gerr option" where
  "require U m env db ctx action r = authorizeOrDenied U m env db ctx action r"

definition validateACLPrincipal :: "sql_env \<Rightarrow> access_db \<Rightarrow> ACLEntry \<Rightarrow> gerr option" where
  "validateACLPrincipal env db entry =
     (if e_PrincipalType entry \<noteq> PrincipalTypeDepartment then None
      else (case GetDepartment env db (e_TenantID entry) (e_PrincipalID entry) of
              Inl _ \<Rightarrow> Some (invalid_argument ''department principal'') | Inr _ \<Rightarrow> None))"

definition zero_ACLEntry :: ACLEntry where
  "zero_ACLEntry = \<lparr>e_ID = [], e_TenantID = [], e_Bucket = [], e_Key = [], e_ResourceKind = [], e_PrincipalType = [],
     e_PrincipalID = [], e_Action = [], e_Effect = [], e_Inherit = False, e_CreatedBy = [], e_CreatedAt = 0, e_OwnerID = []\<rparr>"

definition findMatchingACL :: "sql_env \<Rightarrow> access_db \<Rightarrow> ACLEntry \<Rightarrow> ACLEntry res" where
  "findMatchingACL env db entry =
     rbind (ListResourceACL env db (e_TenantID entry) (e_Bucket entry) (e_Key entry) (e_ResourceKind entry)) (\<lambda>entries.
       Inr (case List.find (\<lambda>existing. e_PrincipalType existing = e_PrincipalType entry \<and>
                    e_PrincipalID existing = e_PrincipalID entry \<and> e_Action existing = e_Action entry) entries of
              None \<Rightarrow> zero_ACLEntry | Some existing \<Rightarrow> existing))"

definition normalizeACLResource :: "ACLEntry \<Rightarrow> ACLEntry" where
  "normalizeACLResource entry =
     (if e_ResourceKind entry = ResourceBucket then entry\<lparr>e_Key := []\<rparr>
      else if e_ResourceKind entry = ResourceFolder then
        (let k = trim_prefix (e_Key entry) ''/'' in
         entry\<lparr>e_Key := if k \<noteq> [] \<and> \<not> has_suffix k ''/'' then k @ ''/'' else k\<rparr>)
      else entry\<lparr>e_Key := trim_prefix (e_Key entry) ''/''\<rparr>)"

definition validPrincipalType :: "string \<Rightarrow> bool" where
  "validPrincipalType kind \<longleftrightarrow> kind \<in> set
     [PrincipalTypeUser, PrincipalTypeDepartment, PrincipalTypeGroup, PrincipalTypeRole,
      PrincipalTypeAuthenticated, PrincipalTypeEveryone]"

definition principalIDRequired :: "string \<Rightarrow> bool" where
  "principalIDRequired kind \<longleftrightarrow> kind \<noteq> PrincipalTypeEveryone \<and> kind \<noteq> PrincipalTypeAuthenticated"

definition validateACL :: "ACLEntry \<Rightarrow> gerr option" where
  "validateACL entry = first_error
     [fails (e_TenantID entry = [] \<or> e_Bucket entry = [] \<or> e_Action entry = []) (invalid_argument ''tenant_id, bucket and action are required''),
      fails (e_ResourceKind entry \<noteq> ResourceBucket \<and> e_ResourceKind entry \<noteq> ResourceFolder \<and> e_ResourceKind entry \<noteq> ResourceObject)
        (invalid_argument ''invalid resource_kind''),
      fails (e_ResourceKind entry = ResourceFolder \<and> contains_any (e_Key entry) ''%_'')
        (invalid_argument ''folder ACL key contains % or _ (SQL LIKE wildcard metacharacters)''),
      fails (e_Effect entry \<noteq> EffectAllow \<and> e_Effect entry \<noteq> EffectDeny) (invalid_argument ''effect must be allow or deny''),
      fails (\<not> validPrincipalType (e_PrincipalType entry) \<or> principalIDRequired (e_PrincipalType entry) \<and> e_PrincipalID entry = [])
        (invalid_argument ''principal is incomplete''),
      fails (\<not> ValidAction (e_Action entry)) (invalid_argument ''unsupported action''),
      fails (e_ResourceKind entry = ResourceFolder \<and> contains_any (e_Key entry) ''%_'')
        (invalid_argument ''folder ACL key must not contain % or _ (SQL wildcard metacharacters)'')]"

definition entry_resource :: "ACLEntry \<Rightarrow> Resource" where
  "entry_resource entry =
     \<lparr>r_TenantID = e_TenantID entry, r_Bucket = e_Bucket entry, r_Key = e_Key entry, r_Kind = e_ResourceKind entry,
      r_OwnerID = e_OwnerID entry\<rparr>"

definition DeleteACL :: "uuid_lib \<Rightarrow> Manager \<Rightarrow> sql_env \<Rightarrow> access_ctx \<Rightarrow> access_db \<Rightarrow> string \<Rightarrow> string \<Rightarrow> access_db \<times> gerr option" where
  "DeleteACL U m env ctx db tenant i =
     (case GetACLEntry env db tenant i of
        Inl e \<Rightarrow> (db, Some e)
      | Inr entry \<Rightarrow>
          (case first_error
             [CheckBucket U (mg_boundary m) (Some ctx) (e_TenantID entry) (e_Bucket entry),
              if subjectFromContext ctx \<noteq> e_CreatedBy entry
              then require U m env db ctx ActionManageACL (entry_resource entry) else None] of
             Some e \<Rightarrow> (db, Some e)
           | None \<Rightarrow> DeleteACLEntry env db tenant i))"

definition ListACL :: "uuid_lib \<Rightarrow> Manager \<Rightarrow> sql_env \<Rightarrow> access_ctx \<Rightarrow> access_db \<Rightarrow> Resource \<Rightarrow> ACLEntry list res" where
  "ListACL U m env ctx db r =
     rbind (ok_or (require U m env db ctx ActionManageACL r) ()) (\<lambda>_.
       ListResourceACL env db (r_TenantID r) (r_Bucket r) (r_Key r) (r_Kind r))"

section \<open>Writing ACL entries (\<open>acl_write.go\<close>)\<close>

definition authorizeACLWrite :: "uuid_lib \<Rightarrow> Manager \<Rightarrow> sql_env \<Rightarrow> access_ctx \<Rightarrow> access_db \<Rightarrow> ACLEntry \<Rightarrow> gerr option" where
  "authorizeACLWrite U m env ctx db entry = first_error
     [validateACLPrincipal env db entry,
      require U m env db ctx ActionManageACL (entry_resource entry)]"

definition writeACL :: "sql_env \<Rightarrow> access_db \<Rightarrow> ACLEntry \<Rightarrow> access_db \<times> ACLEntry res" where
  "writeACL env db entry =
     (case PutACLEntry env db entry of (db', Some e) \<Rightarrow> (db', Inl e) | (db', None) \<Rightarrow> (db', Inr entry))"

definition setACLCreationMetadata :: "access_ctx \<Rightarrow> instant \<Rightarrow> ACLEntry \<Rightarrow> ACLEntry" where
  "setACLCreationMetadata ctx now entry =
     (if e_CreatedAt entry = 0 then entry\<lparr>e_CreatedBy := subjectFromContext ctx, e_CreatedAt := now\<rparr> else entry)"

definition sameACLResourceIdentity :: "ACLEntry \<Rightarrow> ACLEntry \<Rightarrow> bool" where
  "sameACLResourceIdentity left right \<longleftrightarrow>
     (let l = normalizeACLResource left; r = normalizeACLResource right in
      e_TenantID l = e_TenantID r \<and> e_Bucket l = e_Bucket r \<and> e_Key l = e_Key r \<and> e_ResourceKind l = e_ResourceKind r)"

definition preserveACLIdentity :: "ACLEntry \<Rightarrow> ACLEntry \<Rightarrow> ACLEntry" where
  "preserveACLIdentity entry persisted =
     entry\<lparr>e_ID := e_ID persisted, e_TenantID := e_TenantID persisted, e_Bucket := e_Bucket persisted, e_Key := e_Key persisted,
           e_ResourceKind := e_ResourceKind persisted, e_CreatedBy := e_CreatedBy persisted, e_CreatedAt := e_CreatedAt persisted\<rparr>"

definition createACLWithID ::
  "uuid_lib \<Rightarrow> Manager \<Rightarrow> sql_env \<Rightarrow> access_ctx \<Rightarrow> instant \<Rightarrow> access_db \<Rightarrow> ACLEntry \<Rightarrow> access_db \<times> ACLEntry res" where
  "createACLWithID U m env ctx now db entry =
     (case authorizeACLWrite U m env ctx db entry of
        Some e \<Rightarrow> (db, Inl e)
      | None \<Rightarrow> writeACL env db (setACLCreationMetadata ctx now entry))"

definition putACLWithID ::
  "uuid_lib \<Rightarrow> Manager \<Rightarrow> sql_env \<Rightarrow> access_ctx \<Rightarrow> instant \<Rightarrow> access_db \<Rightarrow> ACLEntry \<Rightarrow> access_db \<times> ACLEntry res" where
  "putACLWithID U m env ctx now db entry =
     (case GetACLEntryByID env db (e_ID entry) of
        Inr persisted \<Rightarrow>
          if \<not> sameACLResourceIdentity entry persisted
          then (db, Inl (invalid_argument ''ACL ID is bound to another resource''))
          else (case authorizeACLWrite U m env ctx db entry of
                  Some e \<Rightarrow> (db, Inl e)
                | None \<Rightarrow> writeACL env db (preserveACLIdentity entry persisted))
      | Inl e \<Rightarrow>
          if \<not> errors_is e ErrNotFound then (db, Inl (Errorf ''lookup ACL'' [e]))
          else createACLWithID U m env ctx now db entry)"

definition putACLByNaturalKey ::
  "uuid_lib \<Rightarrow> Manager \<Rightarrow> sql_env \<Rightarrow> access_ctx \<Rightarrow> instant \<Rightarrow> string \<Rightarrow> access_db \<Rightarrow> ACLEntry \<Rightarrow> access_db \<times> ACLEntry res" where
  "putACLByNaturalKey U m env ctx now newid db entry =
     (case authorizeACLWrite U m env ctx db entry of
        Some e \<Rightarrow> (db, Inl e)
      | None \<Rightarrow>
          (case findMatchingACL env db entry of
             Inl e \<Rightarrow> (db, Inl e)
           | Inr existing \<Rightarrow>
               (let entry1 = (if e_ID existing \<noteq> []
                              then entry\<lparr>e_ID := e_ID existing, e_CreatedBy := e_CreatedBy existing, e_CreatedAt := e_CreatedAt existing\<rparr>
                              else entry\<lparr>e_ID := newid\<rparr>)
                in writeACL env db (setACLCreationMetadata ctx now entry1))))"

definition PutACL ::
  "uuid_lib \<Rightarrow> Manager \<Rightarrow> sql_env \<Rightarrow> access_ctx \<Rightarrow> instant \<Rightarrow> string \<Rightarrow> access_db \<Rightarrow> ACLEntry \<Rightarrow> access_db \<times> ACLEntry res" where
  "PutACL U m env ctx now newid db entry0 =
     (let entry = normalizeACLResource entry0 in
      case validateACL entry of
        Some e \<Rightarrow> (db, Inl e)
      | None \<Rightarrow> if e_ID entry \<noteq> [] then putACLWithID U m env ctx now db entry
                else putACLByNaturalKey U m env ctx now newid db entry)"

section \<open>Stored ACL entries\<close>

lemma run_cases: "run db m = (db', None) \<longleftrightarrow> m = Inr db'"
  by (auto simp: run_def split: sum.splits)

lemma run_err: "run db m = (db', Some e) \<Longrightarrow> db' = db"
  by (auto simp: run_def split: sum.splits)

lemma run_fst: "fst (run db m) = (case m of Inl _ \<Rightarrow> db | Inr db' \<Rightarrow> db')"
  by (simp add: run_def split: sum.splits)

definition acl_inv :: "access_db \<Rightarrow> bool" where
  "acl_inv db \<longleftrightarrow>
     distinct (map ar_id (resource_acls db)) \<and> distinct (map acl_natural_key (resource_acls db)) \<and>
     (\<forall>r \<in> set (resource_acls db). ar_resource_kind r = ResourceFolder \<longrightarrow>
        ar_resource_key r = [] \<or> has_suffix (ar_resource_key r) ''/'')"

lemma update_acl_row_simps [simp]:
  "ar_id (update_acl_row n r) = ar_id r" "acl_resource (update_acl_row n r) = acl_resource r"
  "ar_resource_key (update_acl_row n r) = ar_resource_key r" "ar_resource_kind (update_acl_row n r) = ar_resource_kind r"
  "ar_created_by (update_acl_row n r) = ar_created_by r" "ar_created_at (update_acl_row n r) = ar_created_at r"
  by (simp_all add: update_acl_row_def acl_resource_def)

lemma update_acl_row_hit:
  "ar_id r = ar_id n \<Longrightarrow> acl_resource r = acl_resource n \<Longrightarrow> acl_natural_key (update_acl_row n r) = acl_natural_key n \<and>
     ar_effect (update_acl_row n r) = ar_effect n \<and> ar_inherit_acl (update_acl_row n r) = ar_inherit_acl n"
  by (simp add: update_acl_row_def acl_natural_key_def acl_resource_def)

lemma update_acl_row_miss:
  "ar_id r \<noteq> ar_id n \<Longrightarrow> update_acl_row n r = r" "acl_resource r \<noteq> acl_resource n \<Longrightarrow> update_acl_row n r = r"
  by (auto simp: update_acl_row_def)

text \<open>The outcome of the upsert: nothing, an update of the row with the id, or a new row.\<close>

lemma PutACLEntry_cases:
  assumes "PutACLEntry env db e = (db', err)"
  obtains (none) "db' = db" "err \<noteq> None"
  | (update) "db' = db\<lparr>resource_acls := map (update_acl_row (acl_row_of e)) (resource_acls db)\<rparr>" "err = None"
      "\<exists>r \<in> set (resource_acls db). ar_id r = e_ID e \<and> acl_resource r = acl_resource (acl_row_of e)"
      "\<forall>r \<in> set (resource_acls db). ar_id r \<noteq> e_ID e \<longrightarrow> acl_natural_key r \<noteq> acl_natural_key (acl_row_of e)"
  | (insert) "db' = db\<lparr>resource_acls := resource_acls db @ [acl_row_of e]\<rparr>" "err = None"
      "\<forall>r \<in> set (resource_acls db). ar_id r \<noteq> e_ID e \<and> acl_natural_key r \<noteq> acl_natural_key (acl_row_of e)"
proof -
  have i: "ar_id (acl_row_of e) = e_ID e" by (simp add: acl_row_of_def)
  let ?rows = "resource_acls db" and ?n = "acl_row_of e"
  show thesis
  proof (cases "err = None")
    case False
    then have "db' = db" using assms by (auto simp: PutACLEntry_def Let_def dest: run_err)
    with False none show ?thesis by blast
  next
    case True
    then obtain rows' affected where
      w: "(if list_ex (\<lambda>r. ar_id r \<noteq> ar_id ?n \<and> acl_natural_key r = acl_natural_key ?n) ?rows
           then Inl (unique_violation env ''resource_acls_key'')
           else if list_ex (\<lambda>r. ar_id r = ar_id ?n) ?rows
           then Inr (map (update_acl_row ?n) ?rows, length (filter (\<lambda>r. ar_id r = ar_id ?n \<and> acl_resource r = acl_resource ?n) ?rows))
           else Inr (?rows @ [?n], 1)) = Inr (rows', affected)"
      and a: "affected \<noteq> 0" and d: "db' = db\<lparr>resource_acls := rows'\<rparr>"
      using assms
      by (auto simp: PutACLEntry_def Let_def run_cases go_simps validateACLWriteResult_def split: if_splits)
    show ?thesis
    proof (cases "list_ex (\<lambda>r. ar_id r = ar_id ?n) ?rows")
      case True
      with w a have "\<exists>r \<in> set ?rows. ar_id r = ar_id ?n \<and> acl_resource r = acl_resource ?n"
        by (auto simp: filter_empty_conv split: if_splits)
      with True w d \<open>err = None\<close> show ?thesis
        by (intro update) (auto simp: i list_ex_iff split: if_splits)
    next
      case False
      with w d \<open>err = None\<close> show ?thesis
        by (intro insert) (auto simp: i list_ex_iff split: if_splits)
    qed
  qed
qed

lemma PutACLEntry_inv:
  assumes inv: "acl_inv db" and put: "PutACLEntry env db e = (db', err)"
    and key: "e_ResourceKind e = ResourceFolder \<longrightarrow> e_Key e = [] \<or> has_suffix (e_Key e) ''/''"
  shows "acl_inv db'"
  using put
proof (cases rule: PutACLEntry_cases)
  case update
  let ?u = "update_acl_row (acl_row_of e)"
  have ids: "distinct (map ar_id (resource_acls db))" and keys: "inj_on acl_natural_key (set (resource_acls db))"
    and dist: "distinct (resource_acls db)"
    using inv by (auto simp: acl_inv_def distinct_map)
  have inj: "inj_on (\<lambda>r. acl_natural_key (?u r)) (set (resource_acls db))"
  proof (rule inj_onI)
    fix x y assume xy: "x \<in> set (resource_acls db)" "y \<in> set (resource_acls db)" "acl_natural_key (?u x) = acl_natural_key (?u y)"
    have same: "ar_id x = ar_id y \<Longrightarrow> x = y" using ids xy by (auto simp: distinct_map dest: inj_onD)
    have touched: "?u z = z \<or> ar_id z = e_ID e \<and> acl_natural_key (?u z) = acl_natural_key (acl_row_of e)" for z
      using update_acl_row_hit [of z "acl_row_of e"] update_acl_row_miss [of z "acl_row_of e"] by (auto simp: acl_row_of_def)
    have id_eq: "ar_id z = e_ID e" if "z \<in> set (resource_acls db)" "acl_natural_key z = acl_natural_key (acl_row_of e)" for z
      using update(4) that by blast
    show "x = y"
      using touched [of x] touched [of y] id_eq xy same inj_onD [OF keys] by metis
  qed
  show ?thesis
    using inv update(1) dist inj by (auto simp: acl_inv_def comp_def distinct_map inj_on_def)
next
  case insert
  then show ?thesis
    using inv key by (auto simp: acl_inv_def acl_row_of_def image_iff)
qed (use inv in simp)

text \<open>Everything \<open>PutACL\<close> writes goes through one upsert of a normalised, validated entry.\<close>

lemma normalizeACLResource_folder:
  "e_ResourceKind (normalizeACLResource e) = ResourceFolder \<Longrightarrow>
     e_Key (normalizeACLResource e) = [] \<or> has_suffix (e_Key (normalizeACLResource e)) ''/''"
  by (auto simp: normalizeACLResource_def Let_def split: if_splits)

lemma normalizeACLResource_simps [simp]:
  "e_ID (normalizeACLResource e) = e_ID e" "e_Effect (normalizeACLResource e) = e_Effect e"
  "e_PrincipalType (normalizeACLResource e) = e_PrincipalType e" "e_PrincipalID (normalizeACLResource e) = e_PrincipalID e"
  "e_Action (normalizeACLResource e) = e_Action e"
  by (simp_all add: normalizeACLResource_def Let_def)

lemma setACLCreationMetadata_simps [simp]:
  "e_ID (setACLCreationMetadata ctx now e) = e_ID e" "e_Effect (setACLCreationMetadata ctx now e) = e_Effect e"
  "e_PrincipalType (setACLCreationMetadata ctx now e) = e_PrincipalType e"
  "e_PrincipalID (setACLCreationMetadata ctx now e) = e_PrincipalID e"
  "e_Action (setACLCreationMetadata ctx now e) = e_Action e"
  "e_ResourceKind (setACLCreationMetadata ctx now e) = e_ResourceKind e" "e_Key (setACLCreationMetadata ctx now e) = e_Key e"
  "e_TenantID (setACLCreationMetadata ctx now e) = e_TenantID e" "e_Bucket (setACLCreationMetadata ctx now e) = e_Bucket e"
  by (simp_all add: setACLCreationMetadata_def)

lemma acl_resource_of [simp]:
  "acl_resource (acl_row_of e) = (e_TenantID e, e_Bucket e, e_Key e, e_ResourceKind e)"
  by (simp add: acl_resource_def acl_row_of_def)

lemma writeACL_cases:
  "writeACL env db w = (db', res) \<Longrightarrow> (\<exists>e. res = Inl e \<and> db' = db) \<or> res = Inr w \<and> PutACLEntry env db w = (db', None)"
  by (auto simp: writeACL_def PutACLEntry_def Let_def split: prod.splits option.splits dest: run_err)

lemma GetACLEntryByID_stored:
  "GetACLEntryByID env db i = Inr p \<Longrightarrow> \<exists>r \<in> set (resource_acls db). p = scanACLEntry r \<and> ar_id r = i"
proof -
  assume "GetACLEntryByID env db i = Inr p"
  then obtain rs where "map scanACLEntry (filter (\<lambda>r. ar_id r = i) (resource_acls db)) = p # rs"
    by (auto simp: GetACLEntryByID_def not_found_def query_row_Inr split: sum.splits)
  then obtain r rs' where f: "filter (\<lambda>r. ar_id r = i) (resource_acls db) = r # rs'" and "p = scanACLEntry r"
    by (auto simp: map_eq_Cons_conv)
  with filter_hd [OF f] show ?thesis by blast
qed

lemma PutACL_Inr:
  assumes inv: "acl_inv db" and ok: "PutACL U m env ctx now newid db e = (db', Inr w)"
  shows "PutACLEntry env db w = (db', None)"
    and "require U m env db ctx ActionManageACL (entry_resource (normalizeACLResource e)) = None"
    and "e_ResourceKind w = ResourceFolder \<longrightarrow> e_Key w = [] \<or> has_suffix (e_Key w) ''/''"
    and "e_Effect w = e_Effect e \<and> e_PrincipalType w = e_PrincipalType e \<and> e_PrincipalID w = e_PrincipalID e \<and> e_Action w = e_Action e"
    and "e_ID e = [] \<Longrightarrow> acl_resource (acl_row_of w) = acl_resource (acl_row_of (normalizeACLResource e))"
proof -
  let ?n = "normalizeACLResource e"
  have "PutACLEntry env db w = (db', None) \<and> authorizeACLWrite U m env ctx db ?n = None \<and>
    (e_ResourceKind w = ResourceFolder \<longrightarrow> e_Key w = [] \<or> has_suffix (e_Key w) ''/'') \<and>
    (e_Effect w = e_Effect e \<and> e_PrincipalType w = e_PrincipalType e \<and> e_PrincipalID w = e_PrincipalID e \<and> e_Action w = e_Action e) \<and>
    (e_ID e = [] \<longrightarrow> acl_resource (acl_row_of w) = acl_resource (acl_row_of ?n))"
  proof (cases "e_ID e = []")
    case True
    have auth: "authorizeACLWrite U m env ctx db ?n = None"
      using ok True by (auto simp: PutACL_def Let_def putACLByNaturalKey_def split: option.splits)
    obtain ex where ex: "findMatchingACL env db ?n = Inr ex"
      using ok True auth by (auto simp: PutACL_def Let_def putACLByNaturalKey_def split: option.splits sum.splits)
    have wr: "writeACL env db (setACLCreationMetadata ctx now
        (if e_ID ex \<noteq> [] then ?n\<lparr>e_ID := e_ID ex, e_CreatedBy := e_CreatedBy ex, e_CreatedAt := e_CreatedAt ex\<rparr>
         else ?n\<lparr>e_ID := newid\<rparr>)) = (db', Inr w)"
      using ok True by (simp add: PutACL_def Let_def putACLByNaturalKey_def auth ex split: option.splits if_splits)
    show ?thesis
      using writeACL_cases [OF wr] auth True normalizeACLResource_folder [of e] by (cases "e_ID ex = []") auto
  next
    case False
    show ?thesis
    proof (cases "GetACLEntryByID env db (e_ID e)")
      case (Inl err)
      with ok False have wr: "writeACL env db (setACLCreationMetadata ctx now ?n) = (db', Inr w)" "authorizeACLWrite U m env ctx db ?n = None"
        by (auto simp: PutACL_def Let_def putACLWithID_def createACLWithID_def split: option.splits if_splits)
      show ?thesis using writeACL_cases [OF wr(1)] wr(2) False normalizeACLResource_folder [of e] by auto
    next
      case (Inr p)
      with ok False have wr: "writeACL env db (preserveACLIdentity ?n p) = (db', Inr w)" "authorizeACLWrite U m env ctx db ?n = None"
        by (auto simp: PutACL_def Let_def putACLWithID_def split: option.splits if_splits)
      have "e_ResourceKind p = ResourceFolder \<longrightarrow> e_Key p = [] \<or> has_suffix (e_Key p) ''/''"
        using GetACLEntryByID_stored [OF Inr] inv by (auto simp: acl_inv_def scanACLEntry_def)
      then show ?thesis using writeACL_cases [OF wr(1)] wr(2) False by (auto simp: preserveACLIdentity_def)
    qed
  qed
  then show "PutACLEntry env db w = (db', None)"
    and "require U m env db ctx ActionManageACL (entry_resource (normalizeACLResource e)) = None"
    and "e_ResourceKind w = ResourceFolder \<longrightarrow> e_Key w = [] \<or> has_suffix (e_Key w) ''/''"
    and "e_Effect w = e_Effect e \<and> e_PrincipalType w = e_PrincipalType e \<and> e_PrincipalID w = e_PrincipalID e \<and> e_Action w = e_Action e"
    and "e_ID e = [] \<Longrightarrow> acl_resource (acl_row_of w) = acl_resource (acl_row_of (normalizeACLResource e))"
    by (simp_all add: authorizeACLWrite_def)
qed

lemma PutACL_Inl:
  assumes "PutACL U m env ctx now newid db e = (db', Inl err)"
  shows "db' = db"
  using assms writeACL_cases [of env db _ db' "Inl err"]
  by (auto simp: PutACL_def Let_def putACLWithID_def createACLWithID_def putACLByNaturalKey_def
      split: option.splits sum.splits if_splits)

lemma PutACL_inv: "acl_inv db \<Longrightarrow> acl_inv (fst (PutACL U m env ctx now newid db e))"
  by (cases "PutACL U m env ctx now newid db e"; cases "snd (PutACL U m env ctx now newid db e)")
    (auto dest: PutACL_Inl PutACL_Inr PutACLEntry_inv)

lemma DeleteACL_inv: "acl_inv db \<Longrightarrow> acl_inv (fst (DeleteACL U m env ctx db t i))"
  by (auto simp: DeleteACL_def DeleteACLEntry_def run_fst stmt_def accessDeleteResult_def rbind_def acl_inv_def distinct_map_filter
      split: sum.splits option.splits if_splits)

inductive acl_reach :: "uuid_lib \<Rightarrow> access_db \<Rightarrow> bool" for U where
  acl_init: "resource_acls db = [] \<Longrightarrow> acl_reach U db"
| acl_put: "acl_reach U db \<Longrightarrow> acl_reach U (fst (PutACL U m env ctx now newid db e))"
| acl_delete: "acl_reach U db \<Longrightarrow> acl_reach U (fst (DeleteACL U m env ctx db t i))"
| acl_cleanup: "acl_reach U db \<Longrightarrow> resource_acls db' = filter P (resource_acls db) \<Longrightarrow> acl_reach U db'"

lemma acl_reach_inv: "acl_reach U db \<Longrightarrow> acl_inv db"
proof (induction rule: acl_reach.induct)
  case (acl_cleanup db db' P)
  then show ?case by (auto simp: acl_inv_def distinct_map_filter)
qed (auto simp: PutACL_inv DeleteACL_inv, simp add: acl_inv_def)

text \<open>C18. Folder entries respect the slash boundary: whenever a stored folder entry applies to an object key,
  the folder is the whole bucket or the key continues the folder's path after a slash, so an entry on
  one folder never reaches a sibling whose name merely starts with the same characters.\<close>

theorem folder_acl_boundary:
  assumes "acl_reach U db" and "row \<in> set (resource_acls db)" and "ar_resource_kind row = ResourceFolder"
    and "acl_applies tenant bucket key row"
  shows "ar_resource_key row = [] \<or> (\<exists>dir rest. ar_resource_key row = dir @ ''/'' \<and> key = dir @ ''/'' @ rest)"
proof -
  have "ar_resource_key row = [] \<or> has_suffix (ar_resource_key row) ''/''"
    using acl_reach_inv [OF assms(1)] assms(2,3) by (auto simp: acl_inv_def)
  moreover have "has_prefix key (ar_resource_key row)"
    using assms(3,4) by (auto simp: acl_applies_def) (simp add: has_prefix_def)
  ultimately show ?thesis by (auto simp: has_suffix_iff has_prefix_iff)
qed

lemma PutACLEntry_binds:
  assumes "PutACLEntry env db w = (db', err)" and "r \<in> set (resource_acls db)"
  shows "\<exists>r' \<in> set (resource_acls db'). ar_id r' = ar_id r \<and> acl_resource r' = acl_resource r \<and>
           ar_created_by r' = ar_created_by r \<and> ar_created_at r' = ar_created_at r"
  using assms(1)
proof (cases rule: PutACLEntry_cases)
  case update
  then have "update_acl_row (acl_row_of w) r \<in> set (resource_acls db')" using assms(2) by simp
  then show ?thesis by (intro bexI) simp_all
qed (use assms(2) in auto)

text \<open>PutACL never moves or removes an entry: whatever it returns, each stored entry is still there under
  its id, bound to the same tenant, bucket, key and kind, with its creator and creation time.\<close>

lemma PutACL_binds_resource:
  assumes inv: "acl_inv db" and r: "r \<in> set (resource_acls db)"
  shows "\<exists>r' \<in> set (resource_acls (fst (PutACL U m env ctx now newid db e))).
    ar_id r' = ar_id r \<and> acl_resource r' = acl_resource r \<and>
    ar_created_by r' = ar_created_by r \<and> ar_created_at r' = ar_created_at r"
proof (cases "PutACL U m env ctx now newid db e")
  case (Pair db' res)
  show ?thesis
  proof (cases res)
    case (Inl err)
    with Pair PutACL_Inl [of U m env ctx now newid db e db' err] r show ?thesis by auto
  next
    case (Inr w)
    with Pair PutACL_Inr(1) [OF inv, of U m env ctx now newid e db' w] PutACLEntry_binds [of env db w db' None, OF _ r]
    show ?thesis by auto
  qed
qed

text \<open>PutACL without an id is an upsert on the natural key: it needs the manage-ACL permission on the
  normalised resource, and afterwards there is exactly one entry with that resource, principal and
  action; it carries the requested effect, and the returned entry has its id.\<close>

lemma PutACL_natural_key:
  assumes inv: "acl_inv db" and ok: "PutACL U m env ctx now newid db e = (db', Inr w)" and "e_ID e = []"
  shows "require U m env db ctx ActionManageACL (entry_resource (normalizeACLResource e)) = None \<and>
    (\<exists>!r. r \<in> set (resource_acls db') \<and> acl_natural_key r = acl_natural_key (acl_row_of (normalizeACLResource e))) \<and>
    (\<exists>r \<in> set (resource_acls db'). acl_natural_key r = acl_natural_key (acl_row_of (normalizeACLResource e)) \<and>
        ar_id r = e_ID w \<and> ar_effect r = e_Effect e)"
proof -
  note P = PutACL_Inr [OF inv ok]
  have nk: "acl_natural_key (acl_row_of w) = acl_natural_key (acl_row_of (normalizeACLResource e))"
    using P(4) P(5) [OF assms(3)] by (simp add: acl_natural_key_def acl_row_of_def acl_resource_def)
  have inv': "acl_inv db'" by (rule PutACLEntry_inv [OF inv P(1,3)])
  have ex: "\<exists>r \<in> set (resource_acls db'). acl_natural_key r = acl_natural_key (acl_row_of w) \<and> ar_id r = e_ID w \<and> ar_effect r = e_Effect e"
    using P(1)
  proof (cases rule: PutACLEntry_cases)
    case update
    then obtain r where r: "r \<in> set (resource_acls db)" "ar_id r = e_ID w" "acl_resource r = acl_resource (acl_row_of w)" by blast
    moreover have "ar_id (acl_row_of w) = e_ID w" "ar_effect (acl_row_of w) = e_Effect e" using P(4) by (simp_all add: acl_row_of_def)
    ultimately have "acl_natural_key (update_acl_row (acl_row_of w) r) = acl_natural_key (acl_row_of w)"
      "ar_effect (update_acl_row (acl_row_of w) r) = e_Effect e"
      using update_acl_row_hit [of r "acl_row_of w"] by simp_all
    with r update(1) show ?thesis by (intro bexI [of _ "update_acl_row (acl_row_of w) r"]) simp_all
  next
    case insert
    then show ?thesis using P(4) by (auto simp: acl_row_of_def)
  qed simp
  have "inj_on acl_natural_key (set (resource_acls db'))" using inv' by (simp add: acl_inv_def distinct_map)
  then have uniq: "x = y" if "x \<in> set (resource_acls db')" "y \<in> set (resource_acls db')" "acl_natural_key x = acl_natural_key y" for x y
    using that by (meson inj_onD)
  show ?thesis
    using P(2) ex uniq unfolding nk [symmetric] by (intro conjI ex_ex1I) auto
qed

end
