(* ===== verification/Access_Shares.thy ===== *)
theory Access_Shares
  imports Access_Manager
begin

text \<open>
  Shares and public assets of \<open>access.Manager\<close> (\<open>shares.go\<close>, and \<open>tokenHash\<close>, \<open>passwordMAC\<close> and
  \<open>randomToken\<close> of \<open>manager.go\<close>).  SHA-256 with hex text and HMAC-SHA256 with base64 text are the two
  functions of a \<open>crypto_lib\<close>; the random token is an argument (\<open>Inl\<close> when the source fails).
\<close>

record crypto_lib =
  sha256_hex :: "string \<Rightarrow> string"
  hmac_sha256_b64 :: "string \<Rightarrow> string \<Rightarrow> string"

definition tokenHash :: "crypto_lib \<Rightarrow> string \<Rightarrow> string" where
  "tokenHash C token = sha256_hex C token"

definition passwordMAC :: "crypto_lib \<Rightarrow> Manager \<Rightarrow> string \<Rightarrow> string \<Rightarrow> string" where
  "passwordMAC C m shareID password =
     (if password = [] then []
      else hmac_sha256_b64 C (cfg_ShareSecret (mg_cfg m))
             (''share-password'' @ [CHR 0x0A] @ shareID @ [CHR 0x0A] @ password))"

section \<open>Shares\<close>

record CreateShareRequest =
  rq_TenantID :: string
  rq_Bucket :: string
  rq_Key :: string
  rq_Name :: string
  rq_Password :: string
  rq_AllowPreview :: bool
  rq_AllowDownload :: bool
  rq_MaxUses :: int
  rq_ExpiresAt :: instant
  rq_OwnerID :: string

definition object_resource :: "string \<Rightarrow> string \<Rightarrow> string \<Rightarrow> string \<Rightarrow> Resource" where
  "object_resource tenant bucket key owner =
     \<lparr>r_TenantID = tenant, r_Bucket = bucket, r_Key = key, r_Kind = ResourceObject, r_OwnerID = owner\<rparr>"

definition new_share ::
  "crypto_lib \<Rightarrow> Manager \<Rightarrow> access_ctx \<Rightarrow> instant \<Rightarrow> string \<Rightarrow> string \<Rightarrow> CreateShareRequest \<Rightarrow> Share" where
  "new_share C m ctx now newid token rq =
     \<lparr>sh_ID = newid, sh_TenantID = rq_TenantID rq, sh_Bucket = rq_Bucket rq, sh_Key = rq_Key rq,
      sh_Name = rq_Name rq, sh_TokenHash = tokenHash C token,
      sh_PasswordMAC = passwordMAC C m newid (rq_Password rq),
      sh_AllowPreview = (if \<not> rq_AllowPreview rq \<and> \<not> rq_AllowDownload rq then True else rq_AllowPreview rq),
      sh_AllowDownload = rq_AllowDownload rq, sh_MaxUses = rq_MaxUses rq, sh_UseCount = 0,
      sh_ExpiresAt = rq_ExpiresAt rq, sh_RevokedAt = 0, sh_CreatedBy = subjectFromContext ctx,
      sh_CreatedAt = now, sh_OwnerID = rq_OwnerID rq\<rparr>"

definition CreateShare ::
  "crypto_lib \<Rightarrow> uuid_lib \<Rightarrow> Manager \<Rightarrow> sql_env \<Rightarrow> access_ctx \<Rightarrow> instant \<Rightarrow> string \<Rightarrow> string res \<Rightarrow> access_db \<Rightarrow> CreateShareRequest
     \<Rightarrow> access_db \<times> (Share \<times> string) res" where
  "CreateShare C U m env ctx now newid random db rq =
     (case first_error
        [require U m env db ctx ActionShare (object_resource (rq_TenantID rq) (rq_Bucket rq) (rq_Key rq) (rq_OwnerID rq)),
         fails (rq_Key rq = [] \<or> rq_MaxUses rq < 0 \<or> length (rq_Name rq) > 200 \<or> length (rq_Password rq) > 1024)
           (invalid_argument ''invalid share target or max_uses'')] of
        Some e \<Rightarrow> (db, Inl e)
      | None \<Rightarrow>
          (case random of
             Inl e \<Rightarrow> (db, Inl e)
           | Inr token \<Rightarrow>
               (case store_CreateShare env db (new_share C m ctx now newid token rq) of
                  (db', Some e) \<Rightarrow> (db', Inl e)
                | (db', None) \<Rightarrow> (db', Inr (new_share C m ctx now newid token rq, token)))))"

definition ListShares ::
  "uuid_lib \<Rightarrow> Manager \<Rightarrow> sql_env \<Rightarrow> access_ctx \<Rightarrow> access_db \<Rightarrow> string \<Rightarrow> string \<Rightarrow> string \<Rightarrow> string \<Rightarrow> Share list res" where
  "ListShares U m env ctx db tenant bucket key ownerID =
     rbind (ok_or (require U m env db ctx ActionShare (object_resource tenant bucket key ownerID)) ()) (\<lambda>_.
       store_ListShares env db tenant bucket key)"

definition RevokeShare ::
  "uuid_lib \<Rightarrow> Manager \<Rightarrow> sql_env \<Rightarrow> access_ctx \<Rightarrow> instant \<Rightarrow> access_db \<Rightarrow> string \<Rightarrow> string \<Rightarrow> access_db \<times> gerr option" where
  "RevokeShare U m env ctx now db tenant i =
     (case GetShare env db tenant i of
        Inl e \<Rightarrow> (db, Some e)
      | Inr share \<Rightarrow>
          (case first_error
             [CheckBucket U (mg_boundary m) (Some ctx) (sh_TenantID share) (sh_Bucket share),
              if subjectFromContext ctx \<noteq> sh_CreatedBy share
              then require U m env db ctx ActionShare (object_resource tenant (sh_Bucket share) (sh_Key share) (sh_OwnerID share))
              else None] of
             Some e \<Rightarrow> (db, Some e)
           | None \<Rightarrow> store_RevokeShare env db tenant i (Some (rfc3339nano now))))"

definition shareAllows :: "Share \<Rightarrow> string \<Rightarrow> bool" where
  "shareAllows share action =
     (if action = ActionDownload then sh_AllowDownload share
      else action = ActionRead \<or> action = ActionPreview \<and> sh_AllowPreview share)"

definition shareActions :: "Share \<Rightarrow> string list" where
  "shareActions share =
     [ActionRead] @ (if sh_AllowPreview share then [ActionPreview] else []) @ (if sh_AllowDownload share then [ActionDownload] else [])"

definition validateShare :: "crypto_lib \<Rightarrow> Manager \<Rightarrow> instant \<Rightarrow> Share \<Rightarrow> string \<Rightarrow> string \<Rightarrow> gerr option" where
  "validateShare C m now share password action =
     first_error
     [fails (sh_RevokedAt share \<noteq> 0 \<or> sh_ExpiresAt share \<noteq> 0 \<and> \<not> now < sh_ExpiresAt share \<or>
             sh_MaxUses share > 0 \<and> sh_UseCount share \<ge> sh_MaxUses share) (Sentinel ErrShareExpired),
      fails (sh_PasswordMAC share \<noteq> [] \<and> passwordMAC C m (sh_ID share) password \<noteq> sh_PasswordMAC share) (Sentinel ErrBadPassword),
      if \<not> shareAllows share action
      then errors_join [Some (Sentinel ErrDenied), Some (NewError ''share action not granted'')] else None]"

definition checkCapabilityTarget :: "uuid_lib \<Rightarrow> Manager \<Rightarrow> access_ctx \<Rightarrow> string \<Rightarrow> string \<Rightarrow> bool \<Rightarrow> gerr option" where
  "checkCapabilityTarget U m ctx tenant bucket consume =
     (let err = CheckBucket U (mg_boundary m) (Some ctx) tenant bucket in
      if \<not> consume \<and> \<not> IsResourceBoundaryFault err \<and>
         (case err of None \<Rightarrow> False | Some e \<Rightarrow> errors_is e SpacesTenantUnavailable)
      then None else err)"

definition share_capability :: "Share \<Rightarrow> Capability" where
  "share_capability share =
     \<lparr>cap_ID = sh_ID share, cap_TenantID = sh_TenantID share, cap_Bucket = sh_Bucket share, cap_Key = sh_Key share,
      cap_Actions = shareActions share\<rparr>"

text \<open>\<open>ResolveShare\<close> reads the clock twice, once to validate and once to consume.\<close>

definition ResolveShare ::
  "crypto_lib \<Rightarrow> uuid_lib \<Rightarrow> Manager \<Rightarrow> sql_env \<Rightarrow> access_ctx \<Rightarrow> instant \<Rightarrow> instant \<Rightarrow> access_db \<Rightarrow> string \<Rightarrow> string \<Rightarrow> string \<Rightarrow> bool
     \<Rightarrow> access_db \<times> (Share \<times> Principal) res" where
  "ResolveShare C U m env ctx now1 now2 db token password action consume =
     (case GetShareByTokenHash env db (tokenHash C token) of
        Inl e \<Rightarrow> (db, Inl e)
      | Inr share \<Rightarrow>
          (case first_error
             [validateShare C m now1 share password action,
              checkCapabilityTarget U m ctx (sh_TenantID share) (sh_Bucket share) consume] of
             Some e \<Rightarrow> (db, Inl e)
           | None \<Rightarrow>
               (case (if consume then ConsumeShare env db (sh_TokenHash share) (Some (rfc3339nano now2)) else (db, Inr share)) of
                  (db', Inl e) \<Rightarrow> (db', Inl e)
                | (db', Inr used) \<Rightarrow> (db', Inr (used, CapabilityPrincipal PrincipalShare (share_capability used))))))"

section \<open>Public assets\<close>

definition reusePublicAssetID :: "uuid_lib \<Rightarrow> Manager \<Rightarrow> sql_env \<Rightarrow> access_ctx \<Rightarrow> access_db \<Rightarrow> PublicAsset \<Rightarrow> PublicAsset res" where
  "reusePublicAssetID U m env ctx db asset =
     (case GetPublicAsset env db (pa_Slug asset) of
        Inl e \<Rightarrow> if \<not> IsResourceBoundaryFault (Some e) \<and> errors_is e ErrNotFound then Inr asset else Inl e
      | Inr existing \<Rightarrow>
          ok_or (first_error
            [fails (pa_TenantID existing \<noteq> pa_TenantID asset) (invalid_argument ''asset slug is already in use''),
             CheckBucket U (mg_boundary m) (Some ctx) (pa_TenantID existing) (pa_Bucket existing),
             if pa_PublishedBy existing \<noteq> subjectFromContext ctx
             then require U m env db ctx ActionPublish
                    (object_resource (pa_TenantID existing) (pa_Bucket existing) (pa_Key existing) (pa_OwnerID existing))
             else None])
            (asset\<lparr>pa_ID := pa_ID existing\<rparr>))"

definition PublishAsset ::
  "uuid_lib \<Rightarrow> Manager \<Rightarrow> sql_env \<Rightarrow> access_ctx \<Rightarrow> instant \<Rightarrow> string \<Rightarrow> access_db \<Rightarrow> PublicAsset \<Rightarrow> access_db \<times> PublicAsset res" where
  "PublishAsset U m env ctx now newid db asset0 =
     (case require U m env db ctx ActionPublish
             (object_resource (pa_TenantID asset0) (pa_Bucket asset0) (pa_Key asset0) (pa_OwnerID asset0)) of
        Some e \<Rightarrow> (db, Inl e)
      | None \<Rightarrow>
          (let asset1 = asset0\<lparr>pa_Slug := trim_chars (trim_space (pa_Slug asset0)) ''/''\<rparr> in
           if pa_Slug asset1 = [] \<or> contains_sub (pa_Slug asset1) ''..'' \<or> contains_any (pa_Slug asset1) ''?#''
           then (db, Inl (invalid_argument ''invalid asset slug''))
           else
             (case reusePublicAssetID U m env ctx db asset1 of
                Inl e \<Rightarrow> (db, Inl e)
              | Inr asset2 \<Rightarrow>
                  (let asset3 = (if pa_ID asset2 = [] then asset2\<lparr>pa_ID := newid\<rparr> else asset2);
                       asset4 = (if pa_CacheControl asset3 = [] then asset3\<lparr>pa_CacheControl := ''public, max-age=3600''\<rparr> else asset3) in
                   if length (pa_CacheControl asset4) > 512 \<or> contains_any (pa_CacheControl asset4) [CHR 0x0D, CHR 0x0A]
                   then (db, Inl (invalid_argument ''invalid cache_control''))
                   else
                     (let asset = asset4\<lparr>pa_PublishedBy := subjectFromContext ctx, pa_PublishedAt := now\<rparr> in
                      case PutPublicAsset env db asset of
                        (db', Some e) \<Rightarrow> (db', Inl e)
                      | (db', None) \<Rightarrow> (db', Inr asset))))))"

definition asset_capability :: "PublicAsset \<Rightarrow> Capability" where
  "asset_capability asset =
     \<lparr>cap_ID = pa_ID asset, cap_TenantID = pa_TenantID asset, cap_Bucket = pa_Bucket asset, cap_Key = pa_Key asset,
      cap_Actions = [ActionRead, ActionPreview, ActionDownload]\<rparr>"

definition ResolvePublicAsset ::
  "uuid_lib \<Rightarrow> Manager \<Rightarrow> sql_env \<Rightarrow> access_ctx \<Rightarrow> access_db \<Rightarrow> string \<Rightarrow> (PublicAsset \<times> Principal) res" where
  "ResolvePublicAsset U m env ctx db slug =
     rbind (GetPublicAsset env db (trim_chars slug ''/'')) (\<lambda>asset.
     rbind (ok_or (checkCapabilityTarget U m ctx (pa_TenantID asset) (pa_Bucket asset) False) ()) (\<lambda>_.
       Inr (asset, CapabilityPrincipal PrincipalPublic (asset_capability asset))))"

definition canPublish :: "Principal \<Rightarrow> bool" where
  "canPublish p \<longleftrightarrow>
     isAdministrator p \<or> list_ex (\<lambda>role. role = ''vault.publisher'' \<or> role = ''vault.publisher_admin'') (p_Roles p)"

fun checkPublicAssetRows :: "uuid_lib \<Rightarrow> Manager \<Rightarrow> access_ctx \<Rightarrow> string \<Rightarrow> PublicAsset list \<Rightarrow> gerr option" where
  "checkPublicAssetRows U m ctx tenant [] = None"
| "checkPublicAssetRows U m ctx tenant (asset # assets) =
     (if pa_TenantID asset \<noteq> tenant
      then Some (boundaryFault ''public assets'' (invalid_argument ''asset tenant mismatch''))
      else (case CheckBucket U (mg_boundary m) (Some ctx) (pa_TenantID asset) (pa_Bucket asset) of
              Some e \<Rightarrow> Some e
            | None \<Rightarrow> checkPublicAssetRows U m ctx tenant assets))"

definition ListPublicAssets ::
  "uuid_lib \<Rightarrow> Manager \<Rightarrow> sql_env \<Rightarrow> access_ctx \<Rightarrow> access_db \<Rightarrow> string \<Rightarrow> PublicAsset list res" where
  "ListPublicAssets U m env ctx db tenant =
     (let p = fst (PrincipalFrom ctx); scope = \<lparr>cs_Kind = CoverageTenant, cs_TenantID = tenant\<rparr> in
      if \<not> tenantMatches p (object_resource tenant [] [] []) then Inl (Sentinel ErrDenied)
      else
        rbind (ok_or (CheckCoverage U (mg_boundary m) (Some ctx) scope) ()) (\<lambda>_.
        rbind (store_ListPublicAssets env db tenant) (\<lambda>assets.
        rbind (ok_or (checkPublicAssetRows U m ctx tenant assets) ()) (\<lambda>_.
        rbind (ok_or (CheckCoverage U (mg_boundary m) (Some ctx) scope) ()) (\<lambda>_.
          Inr (if canPublish p \<or> isAdministrator p then assets
               else filter (\<lambda>asset. pa_PublishedBy asset = p_SubjectID p) assets))))))"

definition UnpublishAsset ::
  "uuid_lib \<Rightarrow> Manager \<Rightarrow> sql_env \<Rightarrow> access_ctx \<Rightarrow> access_db \<Rightarrow> string \<Rightarrow> string \<Rightarrow> access_db \<times> gerr option" where
  "UnpublishAsset U m env ctx db tenant slug =
     (case GetPublicAsset env db slug of
        Inl e \<Rightarrow> (db, Some e)
      | Inr asset \<Rightarrow>
          (case first_error
             [CheckBucket U (mg_boundary m) (Some ctx) (pa_TenantID asset) (pa_Bucket asset),
              if subjectFromContext ctx \<noteq> pa_PublishedBy asset
              then require U m env db ctx ActionPublish (object_resource tenant (pa_Bucket asset) (pa_Key asset) (pa_OwnerID asset))
              else None] of
             Some e \<Rightarrow> (db, Some e)
           | None \<Rightarrow> DeletePublicAsset env db tenant slug))"

section \<open>Share lifecycles\<close>

definition share_inv :: "access_db \<Rightarrow> bool" where
  "share_inv db \<longleftrightarrow>
     distinct (map sr_id (shares db)) \<and> distinct (map sr_token_hash (shares db)) \<and>
     (\<forall>r \<in> set (shares db). 0 \<le> sr_use_count r \<and> 0 \<le> sr_max_uses r \<and> (0 < sr_max_uses r \<longrightarrow> sr_use_count r \<le> sr_max_uses r))"

lemma use_share_simps [simp]:
  "sr_id (use_share h n r) = sr_id r" "sr_token_hash (use_share h n r) = sr_token_hash r"
  "sr_max_uses (use_share h n r) = sr_max_uses r" "sr_revoked_at (use_share h n r) = sr_revoked_at r"
  "sr_expires_at (use_share h n r) = sr_expires_at r"
  by (simp_all add: use_share_def)

lemma ConsumeShare_db:
  "fst (ConsumeShare env db h n) = db \<or> fst (ConsumeShare env db h n) = db\<lparr>shares := map (use_share h n) (shares db)\<rparr>"
  by (auto simp: ConsumeShare_def Let_def split: option.splits)

lemma ConsumeShare_inv: "share_inv db \<Longrightarrow> share_inv (fst (ConsumeShare env db h n))"
  using ConsumeShare_db [of env db h n]
  by (auto simp: share_inv_def comp_def) (auto simp: use_share_def share_usable_def split: if_splits)

lemma store_CreateShare_inv:
  assumes "share_inv db" and "0 \<le> sh_MaxUses s" and "sh_UseCount s = 0"
  shows "share_inv (fst (store_CreateShare env db s))"
proof -
  let ?n = "share_row_of s"
  have row: "sr_max_uses ?n = sh_MaxUses s" "sr_use_count ?n = 0" using assms(3) by (simp_all add: share_row_of_def)
  have "share_inv (db\<lparr>shares := shares db @ [?n]\<rparr>)"
    if "\<not> list_ex (\<lambda>r. sr_id r = sr_id ?n) (shares db)" "\<not> list_ex (\<lambda>r. sr_token_hash r = sr_token_hash ?n) (shares db)"
    using assms(1,2) row that by (auto simp: share_inv_def list_ex_iff)
  then show ?thesis
    using assms(1) by (simp add: store_CreateShare_def Let_def run_fst stmt_def split: option.splits)
qed

lemma store_RevokeShare_inv:
  assumes "share_inv db" shows "share_inv (fst (store_RevokeShare env db t i at))"
proof -
  define f :: "share_row \<Rightarrow> share_row" where "f = (\<lambda>r. if sr_tenant_id r = t \<and> sr_id r = i \<and> sr_revoked_at r = None then r\<lparr>sr_revoked_at := at\<rparr> else r)"
  have f: "sr_id (f r) = sr_id r" "sr_token_hash (f r) = sr_token_hash r" "sr_use_count (f r) = sr_use_count r"
    "sr_max_uses (f r) = sr_max_uses r" for r
    by (simp_all add: f_def)
  have "share_inv (db\<lparr>shares := map f (shares db)\<rparr>)"
    using assms by (simp add: share_inv_def comp_def f)
  then show ?thesis
    using assms by (simp add: store_RevokeShare_def Let_def run_fst stmt_def accessDeleteResult_def f_def split: option.splits)
qed

lemma GetShareByTokenHash_unique:
  assumes "share_inv db" and "r \<in> set (shares db)" and "GetShareByTokenHash env db (sr_token_hash r) = Inr s"
  shows "s = scanShare r"
proof -
  have "filter (\<lambda>x. sr_token_hash x = sr_token_hash r) (shares db) = [r]"
    using assms(1,2) by (intro filter_key_unique) (simp_all add: share_inv_def)
  with assms(3) show ?thesis
    by (auto simp: GetShareByTokenHash_def not_found_def query_row_def stmt_def split: option.splits sum.splits)
qed

text \<open>A share that is revoked, past its expiry, or used up never resolves, whoever presents the token, with
  whatever password, action and clock reading at or after that point, and nothing is written.\<close>

lemma dead_share_never_resolves:
  assumes inv: "share_inv db" and r: "r \<in> set (shares db)" and token: "tokenHash C token = sr_token_hash r"
    and dead: "accessTime (sr_revoked_at r) \<noteq> 0 \<or>
               accessTime (sr_expires_at r) \<noteq> 0 \<and> accessTime (sr_expires_at r) \<le> n1 \<or>
               0 < sr_max_uses r \<and> sr_max_uses r \<le> sr_use_count r"
  shows "\<exists>e. ResolveShare C U m env ctx n1 n2 db token pw action consume = (db, Inl e)"
proof (cases "GetShareByTokenHash env db (tokenHash C token)")
  case (Inl e)
  then show ?thesis by (simp add: ResolveShare_def)
next
  case (Inr s)
  then have "s = scanShare r" using GetShareByTokenHash_unique [OF inv r] token by simp
  then have "validateShare C m n1 s pw action = Some (Sentinel ErrShareExpired)"
    using dead by (auto simp: validateShare_def scanShare_def)
  with Inr show ?thesis by (simp add: ResolveShare_def)
qed

lemma GetShareByTokenHash_Inr:
  "GetShareByTokenHash env db h = Inr s \<Longrightarrow> \<exists>r \<in> set (shares db). s = scanShare r \<and> sr_token_hash r = h"
proof -
  assume "GetShareByTokenHash env db h = Inr s"
  then obtain r rs where f: "filter (\<lambda>r. sr_token_hash r = h) (shares db) = r # rs" and "s = scanShare r"
    by (auto simp: GetShareByTokenHash_def not_found_def query_row_Inr map_eq_Cons_conv split: sum.splits)
  with filter_hd [OF f] show ?thesis by blast
qed

lemma share_inv_unique:
  "share_inv db \<Longrightarrow> r \<in> set (shares db) \<Longrightarrow> r' \<in> set (shares db) \<Longrightarrow> sr_token_hash r' = sr_token_hash r \<Longrightarrow> r' = r"
  by (simp add: share_inv_def distinct_map inj_on_def)

lemma ConsumeShare_Inr:
  assumes inv: "share_inv db" and ok: "ConsumeShare env db h now = (db', Inr s)"
  shows "\<exists>r \<in> set (shares db). share_usable h now r \<and> s = scanShare (r\<lparr>sr_use_count := sr_use_count r + 1\<rparr>) \<and>
    db' = db\<lparr>shares := map (use_share h now) (shares db)\<rparr>"
proof -
  from ok have db': "db' = db\<lparr>shares := map (use_share h now) (shares db)\<rparr>" and get: "GetShareByTokenHash env db' h = Inr s"
    and some: "filter (share_usable h now) (shares db) \<noteq> []"
    by (auto simp: ConsumeShare_def Let_def split: option.splits if_splits)
  from some obtain r where r: "r \<in> set (shares db)" "share_usable h now r" by (auto simp: filter_empty_conv)
  obtain r' where r': "r' \<in> set (shares db)" "s = scanShare (use_share h now r')" "sr_token_hash r' = h"
    using GetShareByTokenHash_Inr [OF get] by (auto simp: db')
  have "sr_token_hash r = h" using r(2) by (simp add: share_usable_def)
  then have "r' = r" using share_inv_unique [OF inv r(1) r'(1)] r'(3) by simp
  with r r' db' show ?thesis by (auto simp: use_share_def)
qed

text \<open>
  Requests overlap: each one reads and checks first and writes with one statement later, when the table may
  have changed.  The first half of a request yields the statement it will run.
\<close>

datatype share_write = InsertShare Share | UseShare string | EndShare string string ttext

definition create_begins ::
  "crypto_lib \<Rightarrow> uuid_lib \<Rightarrow> Manager \<Rightarrow> sql_env \<Rightarrow> access_ctx \<Rightarrow> instant \<Rightarrow> string \<Rightarrow> string res \<Rightarrow> access_db \<Rightarrow> CreateShareRequest \<Rightarrow> share_write option" where
  "create_begins C U m env ctx now newid random db rq =
     (case first_error
        [require U m env db ctx ActionShare (object_resource (rq_TenantID rq) (rq_Bucket rq) (rq_Key rq) (rq_OwnerID rq)),
         fails (rq_Key rq = [] \<or> rq_MaxUses rq < 0 \<or> length (rq_Name rq) > 200 \<or> length (rq_Password rq) > 1024)
           (invalid_argument ''invalid share target or max_uses'')] of
        Some e \<Rightarrow> None
      | None \<Rightarrow> (case random of Inl e \<Rightarrow> None | Inr token \<Rightarrow> Some (InsertShare (new_share C m ctx now newid token rq))))"

definition resolve_begins ::
  "crypto_lib \<Rightarrow> uuid_lib \<Rightarrow> Manager \<Rightarrow> sql_env \<Rightarrow> access_ctx \<Rightarrow> instant \<Rightarrow> access_db \<Rightarrow> string \<Rightarrow> string \<Rightarrow> string \<Rightarrow> bool \<Rightarrow> share_write option" where
  "resolve_begins C U m env ctx now db token password action consume =
     (case GetShareByTokenHash env db (tokenHash C token) of
        Inl e \<Rightarrow> None
      | Inr share \<Rightarrow>
          (case first_error
             [validateShare C m now share password action,
              checkCapabilityTarget U m ctx (sh_TenantID share) (sh_Bucket share) consume] of
             Some e \<Rightarrow> None
           | None \<Rightarrow> if consume then Some (UseShare (sh_TokenHash share)) else None))"

definition revoke_begins ::
  "uuid_lib \<Rightarrow> Manager \<Rightarrow> sql_env \<Rightarrow> access_ctx \<Rightarrow> instant \<Rightarrow> access_db \<Rightarrow> string \<Rightarrow> string \<Rightarrow> share_write option" where
  "revoke_begins U m env ctx now db tenant i =
     (case GetShare env db tenant i of
        Inl e \<Rightarrow> None
      | Inr share \<Rightarrow>
          (case first_error
             [CheckBucket U (mg_boundary m) (Some ctx) (sh_TenantID share) (sh_Bucket share),
              if subjectFromContext ctx \<noteq> sh_CreatedBy share
              then require U m env db ctx ActionShare (object_resource tenant (sh_Bucket share) (sh_Key share) (sh_OwnerID share))
              else None] of
             Some e \<Rightarrow> None
           | None \<Rightarrow> Some (EndShare tenant i (Some (rfc3339nano now)))))"

fun share_writes :: "sql_env \<Rightarrow> instant \<Rightarrow> access_db \<Rightarrow> share_write \<Rightarrow> access_db" where
  "share_writes env now db (InsertShare s) = fst (store_CreateShare env db s)"
| "share_writes env now db (UseShare hash) = fst (ConsumeShare env db hash (Some (rfc3339nano now)))"
| "share_writes env now db (EndShare tenant i at) = fst (store_RevokeShare env db tenant i at)"

text \<open>A request that nothing interrupts is its two halves.\<close>

lemma share_requests_two_halves:
  "fst (CreateShare C U m env ctx now newid random db rq) =
     (case create_begins C U m env ctx now newid random db rq of None \<Rightarrow> db | Some w \<Rightarrow> share_writes env now db w)"
  "fst (ResolveShare C U m env ctx now now2 db token pw action consume) =
     (case resolve_begins C U m env ctx now db token pw action consume of None \<Rightarrow> db | Some w \<Rightarrow> share_writes env now2 db w)"
  "fst (RevokeShare U m env ctx now db tenant i) =
     (case revoke_begins U m env ctx now db tenant i of None \<Rightarrow> db | Some w \<Rightarrow> share_writes env now2 db w)"
  by (simp_all add: CreateShare_def create_begins_def ResolveShare_def resolve_begins_def RevokeShare_def revoke_begins_def
      split: option.split sum.split prod.split)

text \<open>
  The table and the statements that requests have still to run.  A statement may meet any clock and any
  driver failure, and a request may be abandoned; expired and old shares are removed at any time.
\<close>

inductive share_reach :: "access_db \<Rightarrow> share_write list \<Rightarrow> bool" where
  share_init: "shares db = [] \<Longrightarrow> share_reach db []"
| share_create: "share_reach db ws \<Longrightarrow> create_begins C U m env ctx now newid random db rq = Some w \<Longrightarrow> share_reach db (w # ws)"
| share_resolve: "share_reach db ws \<Longrightarrow> resolve_begins C U m env ctx now db token pw action consume = Some w \<Longrightarrow> share_reach db (w # ws)"
| share_revoke: "share_reach db ws \<Longrightarrow> revoke_begins U m env ctx now db tenant i = Some w \<Longrightarrow> share_reach db (w # ws)"
| share_commit: "share_reach db ws \<Longrightarrow> w \<in> set ws \<Longrightarrow> share_reach (share_writes env now db w) (remove1 w ws)"
| share_abandon: "share_reach db ws \<Longrightarrow> share_reach db (remove1 w ws)"
| share_cleanup: "share_reach db ws \<Longrightarrow> shares db' = filter P (shares db) \<Longrightarrow> share_reach db' ws"

fun new_unused :: "share_write \<Rightarrow> bool" where
  "new_unused (InsertShare s) \<longleftrightarrow> 0 \<le> sh_MaxUses s \<and> sh_UseCount s = 0"
| "new_unused w \<longleftrightarrow> True"

lemma share_begins_unused:
  "create_begins C U m env ctx now newid random db rq = Some w \<Longrightarrow> new_unused w"
  "resolve_begins C U m env ctx now db token pw action consume = Some w \<Longrightarrow> new_unused w"
  "revoke_begins U m env ctx now db tenant i = Some w \<Longrightarrow> new_unused w"
  by (auto simp: create_begins_def resolve_begins_def revoke_begins_def new_share_def fails_def split: option.splits sum.splits if_splits)

lemma share_writes_inv: "share_inv db \<Longrightarrow> new_unused w \<Longrightarrow> share_inv (share_writes env now db w)"
  by (cases w) (simp_all add: store_CreateShare_inv ConsumeShare_inv store_RevokeShare_inv)

lemma share_reach_inv: "share_reach db ws \<Longrightarrow> share_inv db \<and> (\<forall>w \<in> set ws. new_unused w)"
proof (induction rule: share_reach.induct)
  case (share_cleanup db ws db' P)
  then show ?case by (auto simp: share_inv_def distinct_map_filter)
next
  case (share_commit db ws w env now)
  then show ?case using share_writes_inv by (auto dest: notin_set_remove1)
next
  case (share_abandon db ws w)
  then show ?case by (auto dest: notin_set_remove1)
qed (auto simp: share_begins_unused share_inv_def)

text \<open>
  C19. However requests overlap, a share with a use limit has been used at most that often.  In every
  reachable table its counter is within the limit and token hashes identify shares; a use that is granted is
  counted, and the count it reports is within the limit as well.
\<close>

theorem share_uses_bounded:
  assumes "share_reach db ws" and "r \<in> set (shares db)"
  shows "0 \<le> sr_use_count r \<and> (sr_max_uses r \<noteq> 0 \<longrightarrow> sr_use_count r \<le> sr_max_uses r) \<and>
    (\<forall>r' \<in> set (shares db). sr_token_hash r' = sr_token_hash r \<longrightarrow> r' = r) \<and>
    (\<forall>env now db' s. ConsumeShare env db (sr_token_hash r) now = (db', Inr s) \<longrightarrow>
       sh_UseCount s = sr_use_count r + 1 \<and> (sr_max_uses r \<noteq> 0 \<longrightarrow> sh_UseCount s \<le> sr_max_uses r) \<and> r\<lparr>sr_use_count := sr_use_count r + 1\<rparr> \<in> set (shares db'))"
proof -
  have inv: "share_inv db" using share_reach_inv [OF assms(1)] by simp
  have "sh_UseCount s = sr_use_count r + 1 \<and> (sr_max_uses r \<noteq> 0 \<longrightarrow> sh_UseCount s \<le> sr_max_uses r) \<and> r\<lparr>sr_use_count := sr_use_count r + 1\<rparr> \<in> set (shares db')"
    if used: "ConsumeShare env db (sr_token_hash r) now = (db', Inr s)" for env now db' s
  proof -
    obtain r' where r': "r' \<in> set (shares db)" "share_usable (sr_token_hash r) now r'" "s = scanShare (r'\<lparr>sr_use_count := sr_use_count r' + 1\<rparr>)"
      "db' = db\<lparr>shares := map (use_share (sr_token_hash r) now) (shares db)\<rparr>"
      using ConsumeShare_Inr [OF inv used] by blast
    moreover have "r' = r" using share_inv_unique [OF inv assms(2) r'(1)] r'(2) by (simp add: share_usable_def)
    moreover have "use_share (sr_token_hash r) now r = r\<lparr>sr_use_count := sr_use_count r + 1\<rparr>"
      using calculation by (simp add: use_share_def)
    ultimately show ?thesis using imageI [of r "set (shares db)" "use_share (sr_token_hash r) now"] assms(2)
      by (auto simp: scanShare_def share_usable_def)
  qed
  moreover have "0 \<le> sr_use_count r" "sr_max_uses r \<noteq> 0 \<longrightarrow> sr_use_count r \<le> sr_max_uses r"
    using inv assms(2) by (auto simp: share_inv_def)
  ultimately show ?thesis using share_inv_unique [OF inv assms(2)] by blast
qed

lemma CheckBucket_unavailable:
  assumes "CheckBucket U b ctx t k = Some e" and "\<not> errors_is e ErrResourceBoundaryFault"
  shows "ValidateBindingInput t k = None"
  using assms by (auto simp: CheckBucket_def boundaryFault_def split: option.splits)

lemma checkCapabilityTarget_tenant:
  assumes "checkCapabilityTarget U m ctx t b consume = None"
  shows "t \<noteq> ''*'' \<and> t \<noteq> []"
proof -
  have "ValidateBindingInput t b = None"
  proof (cases "CheckBucket U (mg_boundary m) (Some ctx) t b")
    case None
    then show ?thesis by (auto simp: CheckBucket_def split: option.splits)
  next
    case (Some e)
    with assms have "\<not> errors_is e ErrResourceBoundaryFault"
      by (auto simp: checkCapabilityTarget_def Let_def IsResourceBoundaryFault_def split: if_splits)
    from CheckBucket_unavailable [OF Some this] show ?thesis .
  qed
  then show ?thesis by (auto simp: ValidateBindingInput_ok ValidateTenant_ok ValidateIdentifier_ok)
qed

lemma ResolveShare_Inr:
  assumes inv: "share_inv db" and ok: "ResolveShare C U m env ctx n1 n2 db token pw action consume = (db', Inr (s, p))"
  shows "p = CapabilityPrincipal PrincipalShare (share_capability s)" "sh_TenantID s \<noteq> ''*''"
    and "\<exists>r \<in> set (shares db). sr_token_hash r = tokenHash C token \<and> validateShare C m n1 (scanShare r) pw action = None \<and>
       (if consume then share_usable (tokenHash C token) (Some (rfc3339nano n2)) r \<and>
          s = scanShare (r\<lparr>sr_use_count := sr_use_count r + 1\<rparr>) \<and>
          db' = db\<lparr>shares := map (use_share (tokenHash C token) (Some (rfc3339nano n2))) (shares db)\<rparr>
        else s = scanShare r \<and> db' = db)"
proof -
  obtain share where g: "GetShareByTokenHash env db (tokenHash C token) = Inr share"
    using ok by (auto simp: ResolveShare_def split: sum.splits)
  from GetShareByTokenHash_Inr [OF g] obtain r where r: "r \<in> set (shares db)" "share = scanShare r" "sr_token_hash r = tokenHash C token" by blast
  have v: "validateShare C m n1 share pw action = None" and t: "checkCapabilityTarget U m ctx (sh_TenantID share) (sh_Bucket share) consume = None"
    using ok g by (auto simp: ResolveShare_def split: option.splits prod.splits sum.splits if_splits)
  have hash: "sh_TokenHash share = tokenHash C token" using r by (simp add: scanShare_def)
  have step: "(if consume then ConsumeShare env db (sh_TokenHash share) (Some (rfc3339nano n2)) else (db, Inr share)) = (db', Inr s)"
    and p: "p = CapabilityPrincipal PrincipalShare (share_capability s)"
    using ok g v t by (auto simp: ResolveShare_def split: prod.splits sum.splits)
  have main: "if consume then share_usable (tokenHash C token) (Some (rfc3339nano n2)) r \<and>
          s = scanShare (r\<lparr>sr_use_count := sr_use_count r + 1\<rparr>) \<and>
          db' = db\<lparr>shares := map (use_share (tokenHash C token) (Some (rfc3339nano n2))) (shares db)\<rparr>
        else s = scanShare r \<and> db' = db"
  proof (cases consume)
    case True
    with step hash have "ConsumeShare env db (tokenHash C token) (Some (rfc3339nano n2)) = (db', Inr s)" by simp
    from ConsumeShare_Inr [OF inv this] obtain r' where r': "r' \<in> set (shares db)"
      "share_usable (tokenHash C token) (Some (rfc3339nano n2)) r'" "s = scanShare (r'\<lparr>sr_use_count := sr_use_count r' + 1\<rparr>)"
      "db' = db\<lparr>shares := map (use_share (tokenHash C token) (Some (rfc3339nano n2))) (shares db)\<rparr>" by blast
    have "sr_token_hash r' = tokenHash C token" using r'(2) by (simp add: share_usable_def)
    then have "r' = r" using share_inv_unique [OF inv r(1) r'(1)] r(3) by simp
    with r' True show ?thesis by simp
  qed (use step r in auto)
  have "sh_TenantID s = sh_TenantID share" using main r(2) by (cases consume) (auto simp: scanShare_def)
  then show "sh_TenantID s \<noteq> ''*''" using checkCapabilityTarget_tenant [OF t] by simp
  show "p = CapabilityPrincipal PrincipalShare (share_capability s)" by (rule p)
  show "\<exists>r \<in> set (shares db). sr_token_hash r = tokenHash C token \<and> validateShare C m n1 (scanShare r) pw action = None \<and>
       (if consume then share_usable (tokenHash C token) (Some (rfc3339nano n2)) r \<and>
          s = scanShare (r\<lparr>sr_use_count := sr_use_count r + 1\<rparr>) \<and>
          db' = db\<lparr>shares := map (use_share (tokenHash C token) (Some (rfc3339nano n2))) (shares db)\<rparr>
        else s = scanShare r \<and> db' = db)"
    using r v main by (intro bexI [of _ r]) simp_all
qed

text \<open>The principal of a resolved share is confined to the shared object: with access control enabled, on a
  resource to which no ACL entry applies and that the share does not own, it is allowed nothing but
  read, preview and download of exactly the share's tenant, bucket and key.\<close>

lemma share_principal_confined:
  assumes inv: "share_inv db" and ok: "ResolveShare C U m env ctx n1 n2 db token pw action consume = (db', Inr (s, p))"
    and enabled: "cfg_Enabled (mg_cfg m')"
    and no_acl: "\<forall>row \<in> set (resource_acls adb). \<not> acl_applies (r_TenantID r) (r_Bucket r) (r_Key r) row"
    and owner: "r_OwnerID r \<noteq> p_SubjectID p"
    and allowed: "DAllowed (fst (Authorize U m' env' adb ctx' p act r))"
  shows "(r_TenantID r, r_Bucket r, r_Key r) = (sh_TenantID s, sh_Bucket s, sh_Key s) \<and>
    act \<in> {ActionRead, ActionPreview, ActionDownload}"
proof -
  note R = ResolveShare_Inr [OF inv ok]
  have p: "p_Kind p = PrincipalShare" "p_Scopes p = []" "p_Roles p = []" "p_TenantID p \<noteq> ''*''"
    "p_Capability p = Some (share_capability s)"
    using R(1,2) by (simp_all add: CapabilityPrincipal_def zero_Principal_def share_capability_def)
  have "\<not> isAdministrator p" "\<not> scopeAllows p act" using p by (simp_all add: isAdministrator_def scopeAllows_def Let_def)
  moreover have "\<not> applicable adb p act r deps row" for deps row using no_acl by (auto simp: applicable_def)
  ultimately have "capabilityAllows (p_Capability p) r act"
    using allowed enabled p owner unfolding Authorize_cases by (auto simp: grants_def split: if_splits)
  then show ?thesis
    by (auto simp: p capabilityAllows_def share_capability_def shareActions_def actionMatches_def split: if_splits)
qed

text \<open>The capability of a share is wider than the share: a share that does not allow downloads refuses to
  resolve for a download, yet the principal it hands out for a preview passes authorization of a
  download of the same object, because its capability always contains object:read and a granted
  object:read matches a wanted object:download.\<close>

lemma preview_share_capability_downloads:
  assumes "\<not> sh_AllowDownload s"
  shows "validateShare C m now s pw ActionDownload \<noteq> None \<and>
    capabilityAllows (p_Capability (CapabilityPrincipal PrincipalShare (share_capability s)))
      (object_resource (sh_TenantID s) (sh_Bucket s) (sh_Key s) owner) ActionDownload"
  using assms
  by (auto simp: validateShare_def shareAllows_def CapabilityPrincipal_def capabilityAllows_def share_capability_def
      object_resource_def shareActions_def actionMatches_def)

section \<open>Republishing an asset\<close>

definition asset_inv :: "access_db \<Rightarrow> bool" where
  "asset_inv db \<longleftrightarrow> distinct (map as_id (public_assets db)) \<and> distinct (map as_slug (public_assets db))"

text \<open>Republishing a slug from another bucket mixes the two targets: the stored asset keeps its old bucket
  but takes the new key, so it points at an object nobody was authorised to publish, while the caller
  is told that the new bucket was published.\<close>

lemma republish_keeps_old_bucket:
  assumes inv: "asset_inv db" and ok: "PublishAsset U m env ctx now newid db a = (db', Inr a')"
    and old: "x \<in> set (public_assets db)" "as_slug x = pa_Slug a'"
  shows "pa_Bucket a' = pa_Bucket a \<and>
    (\<exists>y \<in> set (public_assets db'). as_slug y = pa_Slug a' \<and> as_bucket y = as_bucket x \<and> as_object_key y = pa_Key a)"
proof -
  have one: "filter (\<lambda>r. as_slug r = as_slug x) (public_assets db) = [x]"
    using inv old(1) by (intro filter_key_unique) (simp_all add: asset_inv_def)
  let ?a1 = "a\<lparr>pa_Slug := trim_chars (trim_space (pa_Slug a)) ''/''\<rparr>"
  from ok obtain a2 where a2: "reusePublicAssetID U m env ctx db ?a1 = Inr a2" and
    a': "pa_ID a' = (if pa_ID a2 = [] then newid else pa_ID a2)" "pa_Bucket a' = pa_Bucket a2" "pa_Key a' = pa_Key a2"
      "pa_Slug a' = pa_Slug a2" and
    put: "PutPublicAsset env db a' = (db', None)"
    by (auto simp: PublishAsset_def Let_def split: option.splits sum.splits prod.splits if_splits)
  have keep: "pa_Bucket a2 = pa_Bucket a" "pa_Key a2 = pa_Key a" "pa_Slug a2 = pa_Slug ?a1"
    using a2 by (auto simp: reusePublicAssetID_def split: sum.splits if_splits)
  have slug: "as_slug x = pa_Slug ?a1" using old(2) a'(4) keep(3) by simp
  have "fault env ''put public asset'' = None"
    using put by (auto simp: PutPublicAsset_def run_def stmt_def split: option.splits sum.splits)
  have "\<not> list_ex (\<lambda>r. as_id r \<noteq> pa_ID a' \<and> as_slug r = pa_Slug a') (public_assets db)"
    using put by (auto simp: PutPublicAsset_def run_cases go_simps split: if_splits)
  then have i: "as_id x = pa_ID a'" using old by (auto simp: list_ex_iff)
  then have db': "db' = db\<lparr>public_assets := map (update_asset_row a') (public_assets db)\<rparr>"
    using put old(1) by (auto simp: PutPublicAsset_def run_cases go_simps list_ex_iff split: if_splits)
  have "update_asset_row a' x \<in> set (public_assets db')" using old(1) by (simp add: db')
  moreover have "as_slug (update_asset_row a' x) = pa_Slug a'" "as_bucket (update_asset_row a' x) = as_bucket x"
    "as_object_key (update_asset_row a' x) = pa_Key a"
    using i a'(3) keep(2) by (simp_all add: update_asset_row_def)
  ultimately show ?thesis using a'(2) keep(1)
    by (intro conjI bexI [of _ "update_asset_row a' x"]) simp_all
qed

end
