(* ===== verification/Access_Departments.thy ===== *)
theory Access_Departments
  imports Access_Manager
begin

text \<open>
  Deleting a department, \<open>internal/repository/sql_access_directory.go\<close>.  The statement that removes the
  ACL entries of the subtree is a \<open>UNION ALL\<close> recursion: once the database computes it, it ends exactly when
  the departments below the deleted one have no cycle.
\<close>

definition dept_edge :: "access_db \<Rightarrow> string \<Rightarrow> (string \<times> string) set" where
  "dept_edge db tenant = {(x, y). y \<in> set (dept_children db tenant x)}"

definition cyclic_below :: "access_db \<Rightarrow> string \<Rightarrow> string \<Rightarrow> bool" where
  "cyclic_below db tenant i \<longleftrightarrow> (\<exists>x. (i, x) \<in> (dept_edge db tenant)\<^sup>* \<and> (x, x) \<in> (dept_edge db tenant)\<^sup>+)"

section \<open>The recursion on a cycle\<close>

lemma cyclic_below_child:
  assumes "cyclic_below db tenant i"
  shows "\<exists>y \<in> set (dept_children db tenant i). cyclic_below db tenant y"
proof -
  let ?E = "dept_edge db tenant"
  from assms obtain x where x: "(i, x) \<in> ?E\<^sup>*" "(x, x) \<in> ?E\<^sup>+" by (auto simp: cyclic_below_def)
  then have "(i, x) \<in> ?E\<^sup>+" by (rule rtrancl_trancl_trancl)
  then obtain y where "(i, y) \<in> ?E" "(y, x) \<in> ?E\<^sup>*" by (auto dest: tranclD)
  with x(2) show ?thesis by (auto simp: cyclic_below_def dept_edge_def)
qed

lemma department_tree_induct:
  assumes "department_tree db tenant acc work = Some t"
    and "\<And>acc. P acc [] acc"
    and "\<And>acc x xs t. P (acc @ [x]) (xs @ dept_children db tenant x) t \<Longrightarrow> P acc (x # xs) t"
  shows "P acc work t"
proof -
  let ?Q = "\<lambda>d tn acc work t. d = db \<longrightarrow> tn = tenant \<longrightarrow> P acc work t"
  have "?Q db tenant acc work t"
  proof (rule department_tree.raw_induct [where P = ?Q, OF _ assms(1)])
    fix dt d tn acc work t
    assume IH: "\<And>d tn acc work t. dt d tn acc work = Some t \<Longrightarrow> ?Q d tn acc work t"
      and step: "(if work = [] then Some acc else dt d tn (acc @ [hd work]) (tl work @ dept_children d tn (hd work))) = Some t"
    show "?Q d tn acc work t"
    proof (intro impI)
      assume [simp]: "d = db" "tn = tenant"
      show "P acc work t"
      proof (cases work)
        case Nil
        with step show ?thesis using assms(2) by simp
      next
        case (Cons x xs)
        with step have "dt db tenant (acc @ [x]) (xs @ dept_children db tenant x) = Some t" by simp
        from IH [OF this] Cons assms(3) show ?thesis by simp
      qed
    qed
  qed
  then show ?thesis by simp
qed

lemma department_tree_cyclic:
  "department_tree db tenant acc work = Some t \<Longrightarrow> \<forall>x \<in> set work. \<not> cyclic_below db tenant x"
proof (erule department_tree_induct)
  fix acc x xs t
  assume "\<forall>y \<in> set (xs @ dept_children db tenant x). \<not> cyclic_below db tenant y"
  then show "\<forall>y \<in> set (x # xs). \<not> cyclic_below db tenant y" using cyclic_below_child [of db tenant x] by auto
qed simp

lemma department_tree_set:
  "department_tree db tenant acc work = Some t \<Longrightarrow> set t = set acc \<union> (dept_edge db tenant)\<^sup>* `` set work"
proof (erule department_tree_induct)
  fix acc x xs t
  let ?E = "dept_edge db tenant"
  assume t: "set t = set (acc @ [x]) \<union> ?E\<^sup>* `` set (xs @ dept_children db tenant x)"
  have "?E\<^sup>* `` {x} = {x} \<union> ?E\<^sup>* `` set (dept_children db tenant x)"
    by (auto simp: dept_edge_def elim: converse_rtranclE intro: converse_rtrancl_into_rtrancl)
  with t show "set t = set acc \<union> ?E\<^sup>* `` set (x # xs)" by auto
qed simp

section \<open>The recursion on a forest\<close>

text \<open>The rows that a round of the recursion adds.\<close>

definition next_level :: "access_db \<Rightarrow> string \<Rightarrow> string list \<Rightarrow> string list" where
  "next_level db tenant work = concat (map (dept_children db tenant) work)"

lemma department_tree_round:
  "department_tree db tenant acc (work @ rest) = department_tree db tenant (acc @ work) (rest @ next_level db tenant work)"
proof (induction work arbitrary: acc rest)
  case (Cons x work)
  show ?case
    using Cons.IH [of "acc @ [x]" "rest @ dept_children db tenant x"]
    by (subst department_tree.simps) (simp add: next_level_def)
qed (simp add: next_level_def)

lemma department_tree_ends:
  "(next_level db tenant ^^ n) work = [] \<Longrightarrow> \<exists>t. department_tree db tenant acc work = Some t"
proof (induction n arbitrary: acc work)
  case 0
  then show ?case by (subst department_tree.simps) simp
next
  case (Suc n)
  from Suc.IH [of "next_level db tenant work" "acc @ work"] Suc.prems
  show ?case using department_tree_round [of db tenant acc work "[]"] by (simp add: funpow_swap1)
qed

lemma level_append: "(next_level db tenant ^^ n) (xs @ ys) = (next_level db tenant ^^ n) xs @ (next_level db tenant ^^ n) ys"
  by (induction n) (simp_all add: next_level_def)

lemma level_dead: "(next_level db tenant ^^ n) xs = [] \<Longrightarrow> n \<le> m \<Longrightarrow> (next_level db tenant ^^ m) xs = []"
proof (induction m)
  case (Suc m)
  then show ?case by (cases "n = Suc m") (auto simp: next_level_def)
qed simp

lemma levels_end_list:
  "(\<And>x. x \<in> set xs \<Longrightarrow> \<exists>n. (next_level db tenant ^^ n) [x] = []) \<Longrightarrow> \<exists>n. (next_level db tenant ^^ n) xs = []"
proof (induction xs)
  case Nil
  show ?case by (rule exI [of _ 0]) simp
next
  case (Cons x xs)
  obtain n where n: "(next_level db tenant ^^ n) [x] = []" using Cons.prems [of x] by auto
  obtain m where m: "(next_level db tenant ^^ m) xs = []" using Cons.IH Cons.prems by auto
  show ?case
    using level_append [of "max n m" db tenant "[x]" xs] level_dead [OF n, of "max n m"] level_dead [OF m, of "max n m"]
    by (intro exI [of _ "max n m"]) simp
qed

lemma finite_dept_edge: "finite (dept_edge db tenant)"
proof -
  have "dept_edge db tenant \<subseteq> (\<lambda>r. (the (dr_parent_id r), dr_id r)) ` set (departments db)"
    by (force simp: dept_edge_def dept_children_def)
  then show ?thesis by (rule finite_subset) simp
qed

lemma levels_end:
  assumes "\<not> cyclic_below db tenant i"
  shows "\<exists>n. (next_level db tenant ^^ n) [i] = []"
proof -
  let ?E = "dept_edge db tenant"
  let ?R = "?E \<inter> (?E\<^sup>* `` {i} \<times> UNIV)"
  have "acyclic ?R"
  proof (rule acyclicI, intro allI notI)
    fix x assume x: "(x, x) \<in> ?R\<^sup>+"
    then have "(x, x) \<in> ?E\<^sup>+" by (rule trancl_mono) auto
    moreover have "(i, x) \<in> ?E\<^sup>*" using x by (auto dest: tranclD)
    ultimately show False using assms by (auto simp: cyclic_below_def)
  qed
  then have "wf (?R\<inverse>)" using finite_dept_edge [of db tenant] by (intro finite_acyclic_wf_converse) auto
  then have "(i, x) \<in> ?E\<^sup>* \<longrightarrow> (\<exists>n. (next_level db tenant ^^ n) [x] = [])" for x
  proof (induction x)
    case (less x)
    show ?case
    proof
      assume x: "(i, x) \<in> ?E\<^sup>*"
      have "\<exists>n. (next_level db tenant ^^ n) [y] = []" if "y \<in> set (dept_children db tenant x)" for y
        using less [of y] that x by (auto simp: dept_edge_def intro: rtrancl_into_rtrancl)
      from levels_end_list [OF this] obtain n where "(next_level db tenant ^^ n) (dept_children db tenant x) = []" by auto
      then show "\<exists>n. (next_level db tenant ^^ n) [x] = []"
        by (intro exI [of _ "Suc n"]) (simp add: funpow_swap1 next_level_def)
    qed
  qed
  then show ?thesis by blast
qed

section \<open>Deleting a department\<close>

text \<open>The links along which the foreign key cascades; they do not look at tenants.\<close>

definition dept_cascade :: "access_db \<Rightarrow> (string \<times> string) set" where
  "dept_cascade db = {(x, y). \<exists>r \<in> set (departments db). dr_parent_id r = Some x \<and> dr_id r = y}"

lemma cascade_ids_set:
  assumes "i \<in> dr_id ` set (departments db)" "set roots = {i}"
  shows "set (cascade_ids db roots) = (dept_cascade db)\<^sup>* `` {i}"
proof -
  let ?W = "walk_rel (\<lambda>x. map dr_id (filter (\<lambda>r. dr_parent_id r = Some x) (departments db))) (map dr_id (departments db))"
  have "(i, y) \<in> ?W\<^sup>*" if "(i, y) \<in> (dept_cascade db)\<^sup>*" for y
    using that
  proof (induction rule: rtrancl_induct)
    case (step y z)
    have "y \<in> dr_id ` set (departments db)" using step(1) assms(1) by (induction rule: rtrancl_induct) (auto simp: dept_cascade_def)
    with step(2) have "(y, z) \<in> ?W" by (auto simp: dept_cascade_def walk_rel_def)
    with step(3) show ?case by (rule rtrancl_into_rtrancl)
  qed simp
  moreover have "?W\<^sup>* \<subseteq> (dept_cascade db)\<^sup>*" by (rule rtrancl_mono) (auto simp: dept_cascade_def walk_rel_def)
  ultimately show ?thesis unfolding cascade_ids_def graph_walk_correct assms(2) by auto
qed

lemma department_tree_found:
  assumes "\<not> cyclic_below db tenant i" "set roots = {i}"
  shows "\<exists>t. department_tree db tenant [] roots = Some t \<and> set t = (dept_edge db tenant)\<^sup>* `` {i}"
proof -
  have "\<exists>n. (next_level db tenant ^^ n) roots = []"
  proof (rule levels_end_list)
    fix x assume "x \<in> set roots"
    then have "x = i" using assms(2) by simp
    with levels_end [OF assms(1)] show "\<exists>n. (next_level db tenant ^^ n) [x] = []" by simp
  qed
  then obtain t where t: "department_tree db tenant [] roots = Some t" using department_tree_ends by blast
  with department_tree_set [OF t] assms(2) show ?thesis by simp
qed

text \<open>
  C17. Without driver faults, deleting an existing department returns unless there is a cycle of parent
  links below it and the database computes the recursive table, which it does when the tenant has an ACL
  entry for some department (or its plan is eager); then it never returns.  When it returns, exactly the
  departments reachable along parent links are gone, with their members and with the ACL entries granted
  to the subtree; nothing else changes.
\<close>

theorem DeleteDepartment_returns_iff:
  assumes "fault_free env" and "\<exists>r \<in> set (departments db). dr_tenant_id r = tenant \<and> dr_id r = i"
  shows "DeleteDepartment eager env db tenant i =
    (if cyclic_below db tenant i \<and> (eager \<or> department_acls db tenant \<noteq> []) then None
     else Some (db\<lparr>resource_acls := filter (\<lambda>r. \<not> (ar_tenant_id r = tenant \<and> ar_principal_type r = PrincipalTypeDepartment
              \<and> (i, ar_principal_id r) \<in> (dept_edge db tenant)\<^sup>*)) (resource_acls db),
            departments := filter (\<lambda>r. (i, dr_id r) \<notin> (dept_cascade db)\<^sup>*) (departments db),
            department_members := filter (\<lambda>r. (i, mr_department_id r) \<notin> (dept_cascade db)\<^sup>*) (department_members db)\<rparr>, None))"
proof -
  define roots where "roots = map dr_id (filter (\<lambda>r. dr_tenant_id r = tenant \<and> dr_id r = i) (departments db))"
  let ?del = "\<lambda>ts r. \<not> (ar_tenant_id r = tenant \<and> ar_principal_type r = PrincipalTypeDepartment \<and> ar_principal_id r \<in> ts)"
  have roots: "set roots = {i}" "roots \<noteq> []" using assms(2) by (auto simp: roots_def filter_empty_conv)
  have ff: "fault env l = None" for l using assms(1) by (simp add: fault_free_def)
  have i: "i \<in> dr_id ` set (departments db)" using assms(2) by auto
  have run: "DeleteDepartment eager env db tenant i =
      Some (delete_departments (db\<lparr>resource_acls := filter (?del (set t)) (resource_acls db)\<rparr>) roots, None)"
    if "(if eager \<or> department_acls db tenant \<noteq> [] then department_tree db tenant [] roots else Some []) = Some t" for t
    using assms(1) that roots(2) by (simp add: DeleteDepartment_def ff roots_def [symmetric] accessDeleteResult_def)
  have gone: "delete_departments (db\<lparr>resource_acls := acls\<rparr>) roots = db\<lparr>resource_acls := acls,
      departments := filter (\<lambda>r. (i, dr_id r) \<notin> (dept_cascade db)\<^sup>*) (departments db),
      department_members := filter (\<lambda>r. (i, mr_department_id r) \<notin> (dept_cascade db)\<^sup>*) (department_members db)\<rparr>" for acls
    using cascade_ids_set [of i "db\<lparr>resource_acls := acls\<rparr>" roots] i roots(1)
    by (simp add: delete_departments_def Let_def dept_cascade_def)
  show ?thesis
  proof (cases "eager \<or> department_acls db tenant \<noteq> []")
    case True
    show ?thesis
    proof (cases "cyclic_below db tenant i")
      case cyclic: True
      then have "department_tree db tenant [] roots = None"
        using department_tree_cyclic [of db tenant "[]" roots] roots by (cases "department_tree db tenant [] roots") auto
      with True cyclic show ?thesis by (simp add: DeleteDepartment_def ff roots_def [symmetric])
    next
      case False
      from department_tree_found [OF this roots(1)] obtain t where
        "department_tree db tenant [] roots = Some t" "set t = (dept_edge db tenant)\<^sup>* `` {i}" by blast
      with True False run [of t] show ?thesis by (simp add: gone)
    qed
  next
    case False
    then have "filter (?del ts) (resource_acls db) = resource_acls db" for ts
      by (auto simp: department_acls_def filter_empty_conv intro!: filter_True)
    from this [of "{}"] this [of "{y. (i, y) \<in> (dept_edge db tenant)\<^sup>*}"] False run [of "[]"] gone [of "resource_acls db"] show ?thesis by simp
  qed
qed

end
