(* ===== verification/Access_Examples.thy ===== *)
theory Access_Examples
  imports Access_Shares Access_Departments
begin

text \<open>
  Concrete runs of the access layer over the SQL Space probes: they instantiate the hypotheses of the
  theorems of the access theories.  The tenant \<open>t\<close> has one Space (bucket \<open>spc-u1\<close>); the bucket
  \<open>docs\<close> is not bound to a Space.
\<close>

definition demo_cfg :: Config where
  "demo_cfg = \<lparr>cfg_Enabled = True, cfg_DefaultPolicy = DefaultDeny, cfg_ShareSecret = replicate 32 CHR ''k'', cfg_DeleteFailOpen = False\<rparr>"

definition demo_mg :: Manager where
  "demo_mg = \<lparr>mg_cfg = demo_cfg, mg_boundary = Some (sql_boundary demo_uuid demo_env background demo_db1)\<rparr>"

definition demo_ctx :: "Principal \<Rightarrow> access_ctx" where
  "demo_ctx p = \<lparr>ctx_err = None, ctx_err_after = None, ctx_principal = Some p\<rparr>"

definition sys_p :: Principal where
  "sys_p = zero_Principal\<lparr>p_SubjectID := ''aero-vault-system'', p_TenantID := ''t'', p_Kind := PrincipalSystem\<rparr>"

definition alice_p :: Principal where
  "alice_p = zero_Principal\<lparr>p_SubjectID := ''alice'', p_TenantID := ''t'', p_Kind := PrincipalUser, p_Scopes := [''vault.file.delete'']\<rparr>"

definition empty_adb :: access_db where
  "empty_adb = \<lparr>departments = [], department_members = [], resource_acls = [], shares = [], public_assets = []\<rparr>"

definition demo_res :: Resource where
  "demo_res = object_resource ''t'' ''docs'' ''pub/x'' ''bob''"

lemma demo_bucket_ok [simp]:
  assumes "ctx_err c = None" "ctx_err_after c = None" "b \<in> {''docs'', ''other''}"
  shows "CheckBucket demo_uuid (Some (sql_boundary demo_uuid demo_env background demo_db1)) (Some c) ''t'' b = None"
proof -
  have "visible_ascii b" "b \<noteq> []" "b \<noteq> ''*''" using assms(3) by (auto simp: visible_ascii_def byte_def)
  then have v: "ValidateBindingInput ''t'' b = None" by (simp add: ValidateBindingInput_ok)
  have "b \<noteq> ''spc-u1''" using assms(3) by auto
  then show ?thesis
    using CheckBucket_sql [of demo_env demo_uuid demo_db1 background c "''t''" b] assms(1,2) v demo_wf
    by (simp add: demo_db1_def demo_space_def)
qed

lemma demo_system_allowed:
  "b \<in> {''docs'', ''other''} \<Longrightarrow> require demo_uuid demo_mg demo_env db (demo_ctx sys_p) action (object_resource ''t'' b k ow) = None"
  "r_Bucket r \<in> {''docs'', ''other''} \<Longrightarrow> r_TenantID r = ''t'' \<Longrightarrow> require demo_uuid demo_mg demo_env db (demo_ctx sys_p) action r = None"
  by (simp_all add: require_def authorizeOrDenied_def Authorize_def demo_mg_def demo_ctx_def PrincipalFrom_def sys_p_def
      object_resource_def)

section \<open>Decisions\<close>

definition demo_adb :: access_db where
  "demo_adb = empty_adb\<lparr>
     departments := [\<lparr>dr_id = ''d0'', dr_tenant_id = ''t'', dr_parent_id = None, dr_name = ''all'', dr_created_at = None, dr_updated_at = None\<rparr>,
                     \<lparr>dr_id = ''d1'', dr_tenant_id = ''t'', dr_parent_id = Some ''d0'', dr_name = ''eng'', dr_created_at = None, dr_updated_at = None\<rparr>],
     department_members := [\<lparr>mr_tenant_id = ''t'', mr_department_id = ''d1'', mr_subject_id = ''alice'', mr_role = ''member'', mr_created_at = None\<rparr>]\<rparr>"

theorem ListSubjectDepartments_closure_witness:
  "\<exists>ds. ListSubjectDepartments demo_env demo_adb ''t'' ''alice'' = Inr ds \<and> ''d0'' \<in> set ds"
proof -
  obtain ds where ds: "ListSubjectDepartments demo_env demo_adb ''t'' ''alice'' = Inr ds"
    by (simp add: ListSubjectDepartments_def query_all_def)
  have "(''d1'', ''d0'') \<in> (parent_of demo_adb ''t'')\<^sup>*"
    by (rule r_into_rtrancl) (force simp: parent_of_def demo_adb_def empty_adb_def)
  then have "''d0'' \<in> set ds"
    unfolding ListSubjectDepartments_closure [OF _ ds, simplified] by (simp add: demo_adb_def empty_adb_def)
  with ds show ?thesis by blast
qed

lemma demo_reads [simp]:
  "ListApplicableACL demo_env empty_adb t b k = Inr []"
  "\<exists>deps. ListSubjectDepartments demo_env empty_adb t s = Inr deps"
  by (simp_all add: ListApplicableACL_def queryACL_def query_all_def ListSubjectDepartments_def empty_adb_def)

lemma demo_no_acl [simp]: "\<not> applicable empty_adb p a r deps row"
  by (simp add: applicable_def empty_adb_def)

theorem Authorize_decision_witness:
  "DAllowed (fst (Authorize demo_uuid demo_mg demo_env empty_adb (demo_ctx alice_p) alice_p ActionDelete demo_res))"
proof -
  have "CheckBucket demo_uuid (mg_boundary demo_mg) (Some (demo_ctx alice_p)) (r_TenantID demo_res) (r_Bucket demo_res) = None"
    by (simp add: demo_mg_def demo_res_def object_resource_def demo_ctx_def)
  then show ?thesis
    unfolding Authorize_decision using demo_reads
    by (simp add: demo_mg_def demo_cfg_def demo_res_def object_resource_def alice_p_def zero_Principal_def tenantMatches_def grants_def)
qed

lemma demo_delete_allowed:
  "DAllowed (fst (Authorize demo_uuid demo_mg demo_env empty_adb (demo_ctx alice_p) alice_p ActionDelete demo_res))"
proof -
  have "CheckBucket demo_uuid (mg_boundary demo_mg) (Some (demo_ctx alice_p)) (r_TenantID demo_res) (r_Bucket demo_res) = None"
    by (simp add: demo_mg_def demo_res_def object_resource_def demo_ctx_def)
  then show ?thesis
    unfolding Authorize_cases using demo_reads
    by (simp add: demo_mg_def demo_cfg_def demo_res_def object_resource_def alice_p_def zero_Principal_def tenantMatches_def grants_def)
qed

theorem delete_needs_explicit_grant_witness:
  "PermissionVaultFileDelete \<in> set (p_Scopes alice_p @ p_Roles alice_p)"
  using delete_needs_explicit_grant [OF demo_delete_allowed]
  by (simp add: demo_mg_def demo_cfg_def alice_p_def)

theorem tenant_isolation_witness: "r_TenantID demo_res = p_TenantID alice_p"
  using tenant_isolation [OF demo_delete_allowed]
  by (simp add: demo_mg_def demo_cfg_def alice_p_def)

definition broken_env :: sql_env where
  "broken_env = demo_env\<lparr>fault := (\<lambda>l. if l = ''list applicable acl'' then Some (NewError ''driver'') else None)\<rparr>"

lemma acl_failure_denies:
  "snd (Authorize demo_uuid demo_mg broken_env empty_adb (demo_ctx alice_p) alice_p ActionRead demo_res) = Some (NewError ''driver'') \<and>
   \<not> DAllowed (fst (Authorize demo_uuid demo_mg broken_env empty_adb (demo_ctx alice_p) alice_p ActionRead demo_res))"
proof -
  have "snd (Authorize demo_uuid demo_mg broken_env empty_adb (demo_ctx alice_p) alice_p ActionRead demo_res) = Some (NewError ''driver'')"
    by (simp add: Authorize_def demo_mg_def demo_cfg_def demo_res_def object_resource_def alice_p_def zero_Principal_def tenantMatches_def
        demo_ctx_def ListApplicableACL_def queryACL_def query_all_def stmt_def broken_env_def)
  with Authorize_fails_closed [OF this] show ?thesis by blast
qed

theorem space_bound_never_allowed_witness:
  "\<not> DAllowed (fst (Authorize demo_uuid demo_mg demo_env empty_adb (demo_ctx sys_p) sys_p ActionRead (object_resource ''t'' ''spc-u1'' ''x'' [])))"
  by (rule space_bound_never_allowed [OF _ demo_wf, of _ demo_env background])
    (simp_all add: demo_mg_def object_resource_def demo_db1_def demo_space_def)


section \<open>ACL entries\<close>

definition demo_entry :: ACLEntry where
  "demo_entry = zero_ACLEntry\<lparr>e_TenantID := ''t'', e_Bucket := ''docs'', e_Key := ''/reports'', e_ResourceKind := ResourceFolder,
     e_PrincipalType := PrincipalTypeEveryone, e_Action := ActionRead, e_Effect := EffectAllow, e_Inherit := True\<rparr>"

definition demo_row :: acl_row where
  "demo_row = \<lparr>ar_id = ''n1'', ar_tenant_id = ''t'', ar_bucket = ''docs'', ar_resource_key = ''reports/'', ar_resource_kind = ResourceFolder,
     ar_principal_type = PrincipalTypeEveryone, ar_principal_id = [], ar_action = ActionRead, ar_effect = EffectAllow, ar_inherit_acl = 1,
     ar_created_by = ''aero-vault-system'', ar_created_at = accessTimeString demo_now\<rparr>"

lemma demo_put:
  "\<exists>w. PutACL demo_uuid demo_mg demo_env (demo_ctx sys_p) demo_now ''n1'' empty_adb demo_entry
     = (empty_adb\<lparr>resource_acls := [demo_row]\<rparr>, Inr w)"
proof -
  let ?n = "demo_entry\<lparr>e_Key := ''reports/''\<rparr>"
  have n: "normalizeACLResource demo_entry = ?n"
    by (simp add: normalizeACLResource_def demo_entry_def trim_prefix_def has_prefix_def has_suffix_def)
  have v: "validateACL ?n = None"
    by (simp add: validateACL_def demo_entry_def contains_any_def validPrincipalType_def principalIDRequired_def ValidAction_def)
  have a: "authorizeACLWrite demo_uuid demo_mg demo_env (demo_ctx sys_p) empty_adb ?n = None"
    by (simp add: authorizeACLWrite_def validateACLPrincipal_def demo_entry_def entry_resource_def demo_system_allowed)
  have f: "findMatchingACL demo_env empty_adb ?n = Inr zero_ACLEntry"
    by (simp add: findMatchingACL_def ListResourceACL_def queryACL_def query_all_def empty_adb_def)
  show ?thesis
    by (simp add: PutACL_def Let_def n v putACLByNaturalKey_def a f)
      (simp add: demo_entry_def zero_ACLEntry_def writeACL_def PutACLEntry_def Let_def empty_adb_def run_def validateACLWriteResult_def
        setACLCreationMetadata_def acl_row_of_def demo_row_def boolInt_def subjectFromContext_def PrincipalFrom_def demo_ctx_def sys_p_def)
qed

lemma demo_acl_reach: "acl_reach demo_uuid (empty_adb\<lparr>resource_acls := [demo_row]\<rparr>)"
proof -
  obtain w where w: "PutACL demo_uuid demo_mg demo_env (demo_ctx sys_p) demo_now ''n1'' empty_adb demo_entry
     = (empty_adb\<lparr>resource_acls := [demo_row]\<rparr>, Inr w)" using demo_put by blast
  have "acl_reach demo_uuid empty_adb" by (rule acl_init) (simp add: empty_adb_def)
  from acl_put [OF this, of demo_mg demo_env "demo_ctx sys_p" demo_now "''n1''" demo_entry] w show ?thesis by simp
qed

theorem folder_acl_boundary_witness:
  "acl_applies ''t'' ''docs'' ''reports/q1.pdf'' demo_row \<and> \<not> acl_applies ''t'' ''docs'' ''reports2/q1.pdf'' demo_row \<and>
   (\<exists>dir rest. ar_resource_key demo_row = dir @ ''/'' \<and> ''reports/q1.pdf'' = dir @ ''/'' @ rest)"
proof -
  have app: "acl_applies ''t'' ''docs'' ''reports/q1.pdf'' demo_row" "\<not> acl_applies ''t'' ''docs'' ''reports2/q1.pdf'' demo_row"
    by (simp_all add: acl_applies_def demo_row_def has_prefix_def)
  with folder_acl_boundary [OF demo_acl_reach _ _ app(1)] show ?thesis by (simp add: demo_row_def)
qed

lemma demo_acl_inv: "acl_inv (empty_adb\<lparr>resource_acls := [demo_row]\<rparr>)" "acl_inv empty_adb"
  by (rule acl_reach_inv [OF demo_acl_reach]) (simp add: acl_inv_def empty_adb_def)

theorem PutACL_binds_resource_witness:
  "\<exists>r \<in> set (resource_acls (fst (PutACL demo_uuid demo_mg demo_env (demo_ctx sys_p) demo_now ''n2''
       (empty_adb\<lparr>resource_acls := [demo_row]\<rparr>) (demo_entry\<lparr>e_ID := ''n1'', e_Key := ''elsewhere''\<rparr>)))).
     ar_id r = ''n1'' \<and> acl_resource r = (''t'', ''docs'', ''reports/'', ''folder'')"
  using PutACL_binds_resource [OF demo_acl_inv(1), of demo_row demo_uuid demo_mg demo_env "demo_ctx sys_p" demo_now "''n2''"
      "demo_entry\<lparr>e_ID := ''n1'', e_Key := ''elsewhere''\<rparr>"]
  by (simp add: demo_row_def acl_resource_def) blast

lemma demo_put_acl:
  "\<exists>w. PutACL demo_uuid demo_mg demo_env (demo_ctx sys_p) demo_now ''n1'' empty_adb demo_entry
       = (empty_adb\<lparr>resource_acls := [demo_row]\<rparr>, Inr w) \<and>
     (\<exists>!r. r \<in> set [demo_row] \<and> acl_natural_key r = acl_natural_key (acl_row_of (normalizeACLResource demo_entry)))"
proof -
  obtain w where w: "PutACL demo_uuid demo_mg demo_env (demo_ctx sys_p) demo_now ''n1'' empty_adb demo_entry
     = (empty_adb\<lparr>resource_acls := [demo_row]\<rparr>, Inr w)" using demo_put by blast
  moreover have "e_ID demo_entry = []" by (simp add: demo_entry_def zero_ACLEntry_def)
  ultimately show ?thesis using PutACL_natural_key [OF demo_acl_inv(2) w] by auto
qed

section \<open>Shares\<close>

definition demo_crypto :: crypto_lib where
  "demo_crypto = \<lparr>sha256_hex = (\<lambda>t. ''h'' @ t), hmac_sha256_b64 = (\<lambda>k x. ''m'' @ x)\<rparr>"

definition demo_rq :: CreateShareRequest where
  "demo_rq = \<lparr>rq_TenantID = ''t'', rq_Bucket = ''docs'', rq_Key = ''pub/x'', rq_Name = [], rq_Password = [], rq_AllowPreview = False,
     rq_AllowDownload = False, rq_MaxUses = 1, rq_ExpiresAt = 0, rq_OwnerID = ''bob''\<rparr>"

definition demo_share :: Share where
  "demo_share = new_share demo_crypto demo_mg (demo_ctx sys_p) demo_now ''s1'' ''tok'' demo_rq"

definition demo_sdb :: access_db where
  "demo_sdb = empty_adb\<lparr>shares := [share_row_of demo_share]\<rparr>"

lemma demo_create_share:
  "CreateShare demo_crypto demo_uuid demo_mg demo_env (demo_ctx sys_p) demo_now ''s1'' (Inr ''tok'') empty_adb demo_rq
     = (demo_sdb, Inr (demo_share, ''tok''))"
  by (simp add: CreateShare_def demo_rq_def demo_system_allowed)
    (simp add: store_CreateShare_def Let_def run_def empty_adb_def demo_sdb_def demo_share_def demo_rq_def)

lemma demo_share_reach: "share_reach demo_sdb []"
proof -
  let ?create = "create_begins demo_crypto demo_uuid demo_mg demo_env (demo_ctx sys_p) demo_now ''s1'' (Inr ''tok'') empty_adb demo_rq"
  have "share_reach empty_adb []" by (rule share_init) (simp add: empty_adb_def)
  moreover have w: "?create = Some (InsertShare demo_share)"
    by (simp add: create_begins_def demo_rq_def demo_system_allowed demo_share_def)
  ultimately have "share_reach empty_adb [InsertShare demo_share]" by (rule share_create)
  from share_commit [OF this, of "InsertShare demo_share" demo_env demo_now] show ?thesis
    using share_requests_two_halves(1) [of demo_crypto demo_uuid demo_mg demo_env "demo_ctx sys_p" demo_now "''s1''" "Inr ''tok''" empty_adb demo_rq]
    by (simp add: demo_create_share w)
qed

theorem share_uses_bounded_witness: "sr_use_count (share_row_of demo_share) \<le> sr_max_uses (share_row_of demo_share)"
  using share_uses_bounded [OF demo_share_reach, of "share_row_of demo_share"]
  by (simp add: demo_sdb_def demo_share_def new_share_def share_row_of_def demo_rq_def)

lemma demo_share_inv: "share_inv demo_sdb" using share_reach_inv [OF demo_share_reach] by simp

definition used_row :: share_row where
  "used_row = (share_row_of demo_share)\<lparr>sr_use_count := 1\<rparr>"

lemma demo_share_fields:
  "sr_token_hash (share_row_of demo_share) = ''htok''" "sr_max_uses (share_row_of demo_share) = 1" "sr_use_count (share_row_of demo_share) = 0"
  "sr_revoked_at (share_row_of demo_share) = None" "sr_expires_at (share_row_of demo_share) = None" "sr_password_mac (share_row_of demo_share) = []"
  "sr_tenant_id (share_row_of demo_share) = ''t''" "sr_bucket (share_row_of demo_share) = ''docs''"
  "sr_object_key (share_row_of demo_share) = ''pub/x''" "sr_id (share_row_of demo_share) = ''s1''"
  "sr_allow_preview (share_row_of demo_share) = 1" "sr_allow_download (share_row_of demo_share) = 0"
  by (simp_all add: share_row_of_def demo_share_def new_share_def demo_rq_def tokenHash_def demo_crypto_def passwordMAC_def accessTimeString_def boolInt_def)

lemma demo_resolve:
  "ResolveShare demo_crypto demo_uuid demo_mg demo_env (demo_ctx zero_Principal) demo_now demo_now demo_sdb ''tok'' [] ActionPreview True
     = (empty_adb\<lparr>shares := [used_row]\<rparr>, Inr (scanShare used_row, CapabilityPrincipal PrincipalShare (share_capability (scanShare used_row))))"
proof -
  have h: "tokenHash demo_crypto ''tok'' = ''htok''" by (simp add: tokenHash_def demo_crypto_def)
  have g: "GetShareByTokenHash demo_env demo_sdb ''htok'' = Inr (scanShare (share_row_of demo_share))"
    by (simp add: GetShareByTokenHash_def not_found_def query_row_def demo_sdb_def empty_adb_def demo_share_fields)
  have u: "share_usable ''htok'' (Some (rfc3339nano demo_now)) (share_row_of demo_share)"
    by (simp add: share_usable_def demo_share_fields)
  have c: "ConsumeShare demo_env demo_sdb ''htok'' (Some (rfc3339nano demo_now)) = (empty_adb\<lparr>shares := [used_row]\<rparr>, Inr (scanShare used_row))"
    using u by (simp add: ConsumeShare_def Let_def demo_sdb_def empty_adb_def use_share_def used_row_def GetShareByTokenHash_def not_found_def
        query_row_def demo_share_fields)
  have v: "validateShare demo_crypto demo_mg demo_now (scanShare (share_row_of demo_share)) [] ActionPreview = None"
    by (simp add: validateShare_def scanShare_def demo_share_fields accessTime_def shareAllows_def)
  have t: "checkCapabilityTarget demo_uuid demo_mg (demo_ctx zero_Principal) ''t'' ''docs'' True = None"
    by (simp add: checkCapabilityTarget_def demo_mg_def demo_ctx_def)
  have f: "sh_TenantID (scanShare (share_row_of demo_share)) = ''t''" "sh_Bucket (scanShare (share_row_of demo_share)) = ''docs''"
    "sh_TokenHash (scanShare (share_row_of demo_share)) = ''htok''"
    by (simp_all add: scanShare_def demo_share_fields)
  show ?thesis by (simp add: ResolveShare_def h g v t f c)
qed

theorem dead_share_never_resolves_witness:
  "\<exists>e. ResolveShare demo_crypto demo_uuid demo_mg demo_env (demo_ctx zero_Principal) demo_now demo_now
         (empty_adb\<lparr>shares := [used_row]\<rparr>) ''tok'' [] ActionPreview True = (empty_adb\<lparr>shares := [used_row]\<rparr>, Inl e)"
proof (rule dead_share_never_resolves [where r = used_row])
  show "share_inv (empty_adb\<lparr>shares := [used_row]\<rparr>)" by (simp add: share_inv_def used_row_def demo_share_fields)
qed (simp_all add: used_row_def demo_share_fields tokenHash_def demo_crypto_def)

theorem share_principal_confined_witness:
  "DAllowed (fst (Authorize demo_uuid demo_mg demo_env empty_adb (demo_ctx zero_Principal)
       (CapabilityPrincipal PrincipalShare (share_capability (scanShare used_row))) ActionRead demo_res)) \<and>
   (r_TenantID demo_res, r_Bucket demo_res, r_Key demo_res) = (''t'', ''docs'', ''pub/x'')"
proof -
  let ?p = "CapabilityPrincipal PrincipalShare (share_capability (scanShare used_row))"
  have p: "p_SubjectID ?p = ''share:s1''" "p_TenantID ?p = ''t''" "p_Kind ?p = PrincipalShare"
    "p_Capability ?p = Some \<lparr>cap_ID = ''s1'', cap_TenantID = ''t'', cap_Bucket = ''docs'', cap_Key = ''pub/x'', cap_Actions = [ActionRead, ActionPreview]\<rparr>"
    by (simp_all add: CapabilityPrincipal_def share_capability_def scanShare_def used_row_def demo_share_fields shareActions_def)
  have "CheckBucket demo_uuid (mg_boundary demo_mg) (Some (demo_ctx zero_Principal)) (r_TenantID demo_res) (r_Bucket demo_res) = None"
    by (simp add: demo_mg_def demo_res_def object_resource_def demo_ctx_def)
  then have ok: "DAllowed (fst (Authorize demo_uuid demo_mg demo_env empty_adb (demo_ctx zero_Principal) ?p ActionRead demo_res))"
    unfolding Authorize_cases using demo_reads
    by (simp add: demo_mg_def demo_cfg_def demo_res_def object_resource_def p tenantMatches_def grants_def capabilityAllows_def actionMatches_def)
  from share_principal_confined [OF demo_share_inv demo_resolve _ _ _ ok] show ?thesis
    using ok by (simp add: demo_mg_def demo_cfg_def empty_adb_def demo_res_def object_resource_def p)
qed

theorem preview_share_capability_downloads_witness:
  "\<not> sh_AllowDownload demo_share \<and> validateShare demo_crypto demo_mg demo_now demo_share [] ActionPreview = None \<and>
   validateShare demo_crypto demo_mg demo_now demo_share [] ActionDownload \<noteq> None \<and>
   capabilityAllows (p_Capability (CapabilityPrincipal PrincipalShare (share_capability demo_share)))
     (object_resource (sh_TenantID demo_share) (sh_Bucket demo_share) (sh_Key demo_share) ''bob'') ActionDownload"
  using preview_share_capability_downloads [of demo_share demo_crypto demo_mg demo_now "[]" "''bob''"]
  by (simp add: demo_share_def new_share_def demo_rq_def validateShare_def shareAllows_def passwordMAC_def)

section \<open>Assets\<close>

definition demo_asset :: PublicAsset where
  "demo_asset = \<lparr>pa_ID = [], pa_TenantID = ''t'', pa_Bucket = ''other'', pa_Key = ''secret.pdf'', pa_Slug = ''logo'', pa_CacheControl = [],
     pa_PublishedBy = [], pa_PublishedAt = 0, pa_OwnerID = []\<rparr>"

definition demo_pdb :: access_db where
  "demo_pdb = empty_adb\<lparr>public_assets := [\<lparr>as_id = ''p1'', as_tenant_id = ''t'', as_bucket = ''docs'', as_object_key = ''logo.png'', as_slug = ''logo'',
     as_cache_control = ''public, max-age=3600'', as_published_by = ''bob'', as_owner_id = [], as_published_at = accessTimeString demo_now\<rparr>]\<rparr>"

theorem republish_keeps_old_bucket_witness:
  "\<exists>db' a'. PublishAsset demo_uuid demo_mg demo_env (demo_ctx sys_p) demo_now ''p2'' demo_pdb demo_asset = (db', Inr a') \<and>
     pa_Bucket a' = ''other'' \<and>
     (\<exists>y \<in> set (public_assets db'). as_slug y = ''logo'' \<and> as_bucket y = ''docs'' \<and> as_object_key y = ''secret.pdf'')"
proof -
  have slug: "trim_chars (trim_space ''logo'') ''/'' = ''logo''"
  proof -
    have "visible_ascii ''logo''" by (simp add: visible_ascii_def byte_def)
    then show ?thesis by (simp add: visible_ascii_text trim_chars_def)
  qed
  let ?a1 = "demo_asset\<lparr>pa_ID := ''p1''\<rparr>"
  have req: "require demo_uuid demo_mg demo_env demo_pdb (demo_ctx sys_p) ActionPublish
      (object_resource (pa_TenantID demo_asset) (pa_Bucket demo_asset) (pa_Key demo_asset) (pa_OwnerID demo_asset)) = None"
    by (simp add: demo_asset_def demo_system_allowed)
  have reuse: "reusePublicAssetID demo_uuid demo_mg demo_env (demo_ctx sys_p) demo_pdb demo_asset = Inr ?a1"
    by (simp add: reusePublicAssetID_def GetPublicAsset_def not_found_def query_row_def demo_pdb_def scanPublicAsset_def demo_asset_def
        subjectFromContext_def PrincipalFrom_def demo_ctx_def sys_p_def demo_mg_def)
      (simp add: demo_system_allowed flip: demo_mg_def demo_ctx_def sys_p_def)
  have "\<exists>db' a'. PublishAsset demo_uuid demo_mg demo_env (demo_ctx sys_p) demo_now ''p2'' demo_pdb demo_asset = (db', Inr a') \<and> pa_Slug a' = ''logo''"
  proof -
    have same: "demo_asset\<lparr>pa_Slug := ''logo''\<rparr> = demo_asset" by (simp add: demo_asset_def)
    have s: "pa_Slug demo_asset = ''logo''" by (simp add: demo_asset_def)
    show ?thesis
      by (simp add: PublishAsset_def req Let_def slug s same reuse)
        (simp add: demo_asset_def contains_any_def has_prefix_def PutPublicAsset_def demo_pdb_def run_def)
  qed
  then obtain db' a' where ok: "PublishAsset demo_uuid demo_mg demo_env (demo_ctx sys_p) demo_now ''p2'' demo_pdb demo_asset = (db', Inr a')"
    and s: "pa_Slug a' = ''logo''" by blast
  have inv: "asset_inv demo_pdb" by (simp add: asset_inv_def demo_pdb_def)
  show ?thesis
    using ok s republish_keeps_old_bucket [OF inv ok, of "hd (public_assets demo_pdb)"]
    by (auto simp: demo_pdb_def demo_asset_def)
qed

section \<open>A department cycle\<close>

text \<open>
  Department a is created, b below it, and then a is created again below b: the parent exists and the id
  is re-used, so the third call closes a cycle.
\<close>

definition dept :: "string \<Rightarrow> string \<Rightarrow> Department" where
  "dept i parent = \<lparr>d_ID = i, d_TenantID = ''t'', d_ParentID = parent, d_Name = i, d_CreatedAt = 0, d_UpdatedAt = 0\<rparr>"

definition drow :: "string \<Rightarrow> string option \<Rightarrow> instant \<Rightarrow> department_row" where
  "drow i parent u = \<lparr>dr_id = i, dr_tenant_id = ''t'', dr_parent_id = parent, dr_name = i, dr_created_at = accessTimeString 1,
     dr_updated_at = accessTimeString u\<rparr>"

definition cycle_db :: access_db where
  "cycle_db = empty_adb\<lparr>departments := [drow ''a'' (Some ''b'') 2, drow ''b'' (Some ''a'') 1]\<rparr>"

lemma dept_sel [simp]:
  "d_ID (dept i p) = i" "d_TenantID (dept i p) = ''t''" "d_ParentID (dept i p) = p" "d_Name (dept i p) = i"
  by (simp_all add: dept_def)

lemma drow_sel [simp]:
  "dr_id (drow i p u) = i" "dr_tenant_id (drow i p u) = ''t''" "dr_parent_id (drow i p u) = p" "dr_name (drow i p u) = i"
  by (simp_all add: drow_def)

lemma dept_valid: "i \<in> {''a'', ''b''} \<Longrightarrow> p \<noteq> i \<Longrightarrow> validateDepartment (dept i p) = None"
proof -
  assume i: "i \<in> {''a'', ''b''}" and "p \<noteq> i"
  have "visible_ascii i" "visible_ascii ''t''" using i by (auto simp: visible_ascii_def byte_def)
  then have "trim_space i = i" "trim_space ''t'' = ''t''" by (simp_all add: visible_ascii_text)
  with i \<open>p \<noteq> i\<close> show ?thesis by (auto simp: validateDepartment_def)
qed

lemma CreateDepartment_dept:
  assumes "i \<in> {''a'', ''b''}" and "p \<noteq> i" and "p \<noteq> [] \<Longrightarrow> filter (\<lambda>r. dr_tenant_id r = ''t'' \<and> dr_id r = p) rows = [q]"
    and "upsert_department \<lparr>dr_id = i, dr_tenant_id = ''t'', dr_parent_id = (if p = [] then None else Some p), dr_name = i,
           dr_created_at = accessTimeString now, dr_updated_at = accessTimeString now\<rparr> rows = rows'"
    and "\<And>r. r \<in> set rows \<Longrightarrow> dr_name r = dr_id r" and "p \<noteq> [] \<Longrightarrow> p \<in> dr_id ` set rows'"
  shows "CreateDepartment (no_faults d) now [] (db\<lparr>departments := rows\<rparr>) (dept i p) =
    (db\<lparr>departments := rows'\<rparr>, Inr ((dept i p)\<lparr>d_CreatedAt := now, d_UpdatedAt := now\<rparr>))"
proof -
  have get: "GetDepartment (no_faults d) (db\<lparr>departments := rows\<rparr>) ''t'' p = Inr (scanDepartment q)" if "p \<noteq> []"
    using assms(3) [OF that] by (simp add: GetDepartment_def not_found_def query_row_def)
  have i: "i \<noteq> []" using assms(1) by auto
  have conflict: "\<not> list_ex (dept_conflict n) rows" if "dr_name n = dr_id n" for n
    using assms(5) that by (auto simp: list_ex_iff dept_conflict_def)
  have parent: "\<exists>r \<in> set rows'. dr_id r = p" if "p \<noteq> []" using assms(6) [OF that] by auto
  note unfold = CreateDepartment_def dept_valid [OF assms(1)] PutDepartment_def Let_def run_def list_ex_iff
  show ?thesis
  proof (cases "p = []")
    case True
    then show ?thesis using i assms(4) conflict by (simp add: unfold)
  next
    case False
    then show ?thesis using get parent i assms(2,4) conflict by (auto simp: unfold)
  qed
qed

lemma create_cycle:
  "fst (CreateDepartment (no_faults d) 1 [] empty_adb (dept ''a'' [])) = empty_adb\<lparr>departments := [drow ''a'' None 1]\<rparr>"
  "fst (CreateDepartment (no_faults d) 1 [] (empty_adb\<lparr>departments := [drow ''a'' None 1]\<rparr>) (dept ''b'' ''a'')) =
     empty_adb\<lparr>departments := [drow ''a'' None 1, drow ''b'' (Some ''a'') 1]\<rparr>"
  "fst (CreateDepartment (no_faults d) 2 [] (empty_adb\<lparr>departments := [drow ''a'' None 1, drow ''b'' (Some ''a'') 1]\<rparr>) (dept ''a'' ''b'')) = cycle_db"
proof -
  have e: "empty_adb = empty_adb\<lparr>departments := []\<rparr>" by (simp add: empty_adb_def)
  show "fst (CreateDepartment (no_faults d) 1 [] empty_adb (dept ''a'' [])) = empty_adb\<lparr>departments := [drow ''a'' None 1]\<rparr>"
    by (subst e, subst CreateDepartment_dept) (auto simp: upsert_department_def drow_def)
  show "fst (CreateDepartment (no_faults d) 1 [] (empty_adb\<lparr>departments := [drow ''a'' None 1]\<rparr>) (dept ''b'' ''a'')) =
     empty_adb\<lparr>departments := [drow ''a'' None 1, drow ''b'' (Some ''a'') 1]\<rparr>"
    by (subst CreateDepartment_dept) (auto simp: upsert_department_def drow_def)
  show "fst (CreateDepartment (no_faults d) 2 [] (empty_adb\<lparr>departments := [drow ''a'' None 1, drow ''b'' (Some ''a'') 1]\<rparr>) (dept ''a'' ''b'')) = cycle_db"
    unfolding cycle_db_def by (subst CreateDepartment_dept) (auto simp: upsert_department_def drow_def)
qed

text \<open>On a cycle the deletion never ends when the tenant has an ACL entry for some department; without one it ends on SQLite.\<close>

abbreviation (input) granted_cycle :: access_db where
  "granted_cycle \<equiv> cycle_db\<lparr>resource_acls := [demo_row\<lparr>ar_principal_type := PrincipalTypeDepartment, ar_principal_id := ''z''\<rparr>]\<rparr>"

theorem DeleteDepartment_returns_iff_witness:
  "DeleteDepartment False (no_faults dialectSQLite) granted_cycle ''t'' ''a'' = None"
proof -
  have "(''a'', ''b'') \<in> dept_edge granted_cycle ''t''" "(''b'', ''a'') \<in> dept_edge granted_cycle ''t''"
    by (simp_all add: dept_edge_def dept_children_def cycle_db_def drow_def)
  then have "cyclic_below granted_cycle ''t'' ''a''" unfolding cyclic_below_def by (meson rtrancl.rtrancl_refl trancl.intros)
  moreover have "\<exists>r \<in> set (departments granted_cycle). dr_tenant_id r = ''t'' \<and> dr_id r = ''a''"
    by (simp add: cycle_db_def drow_def)
  moreover have "department_acls granted_cycle ''t'' \<noteq> []" by (simp add: department_acls_def demo_row_def)
  ultimately show ?thesis using DeleteDepartment_returns_iff [OF fault_free_no_faults, of granted_cycle "''t''" "''a''" False dialectSQLite] by simp
qed

lemma cycle_without_grants_ends:
  "DeleteDepartment False (no_faults dialectSQLite) cycle_db ''t'' ''a'' \<noteq> None"
  by (simp add: DeleteDepartment_def department_acls_def cycle_db_def empty_adb_def Let_def no_faults_def)

end
