(* ===== verification/Storage_Interface.thy ===== *)
theory Storage_Interface
  imports AV_Prelude
begin

text \<open>
  The storage contract of \<^verbatim>\<open>internal/storage/storage.go\<close> and \<^verbatim>\<open>ssec.go\<close>: object descriptions, options, key
  validation, and the interface every backend implements.  A Go interface value is a record of its
  methods over the state \<open>'s\<close> of the backend; the optional interfaces a backend may also implement
  (tested by type assertions) are option fields.  A body that is written is a byte string; a
  \<open>io.ReadCloser\<close> is \<open>None\<close> when nil, and otherwise what reading it to the end yields: all bytes, or
  the error.  Metadata maps are association lists, optional where nil is told
  from empty.
\<close>

record ObjectInfo =
  oi_Key :: string
  oi_Size :: int
  oi_ETag :: string
  oi_ContentType :: string
  oi_LastModified :: instant
  oi_Metadata :: "(string \<times> string) list"

record PutOptions =
  po_ContentType :: string
  po_Metadata :: "(string \<times> string) list"
  po_SSEAlgorithm :: string
  po_SSEKMSKeyID :: string
  po_SSECustomerKey :: string
  po_SSECustomerKeyMD5 :: string

record GetOptions =
  go_SSECustomerKey :: string
  go_SSECustomerKeyMD5 :: string

record ListResult =
  lr_Objects :: "ObjectInfo list"
  lr_NextMarker :: string
  lr_HasMore :: bool

record MultipartInit =
  mi_Key :: string
  mi_UploadID :: string

record MultipartPart =
  mp_PartNumber :: int
  mp_ETag :: string

record CopyOptions =
  co_MetadataDirective :: string
  co_Metadata :: "(string \<times> string) list option"
  co_ContentType :: string

definition zero_ObjectInfo :: ObjectInfo where
  "zero_ObjectInfo = \<lparr>oi_Key = [], oi_Size = 0, oi_ETag = [], oi_ContentType = [], oi_LastModified = 0, oi_Metadata = []\<rparr>"

definition zero_ListResult :: ListResult where
  "zero_ListResult = \<lparr>lr_Objects = [], lr_NextMarker = [], lr_HasMore = False\<rparr>"

definition zero_MultipartInit :: MultipartInit where
  "zero_MultipartInit = \<lparr>mi_Key = [], mi_UploadID = []\<rparr>"

definition zero_MultipartPart :: MultipartPart where
  "zero_MultipartPart = \<lparr>mp_PartNumber = 0, mp_ETag = []\<rparr>"

section \<open>Keys\<close>

definition validateObjectKey :: "string \<Rightarrow> gerr option" where
  "validateObjectKey key =
     fails (key = [] \<or> has_prefix key ''/'' \<or> contains_sub key ''..'') (Sentinel ErrInvalidKey)"

fun validateObjectKeys :: "string list \<Rightarrow> gerr option" where
  "validateObjectKeys [] = None"
| "validateObjectKeys (key # keys) =
     (case validateObjectKey key of Some e \<Rightarrow> Some e | None \<Rightarrow> validateObjectKeys keys)"

definition validateListPrefix :: "string \<Rightarrow> gerr option" where
  "validateListPrefix prefix = (if prefix = [] then None else validateObjectKey prefix)"

section \<open>The interfaces\<close>

type_synonym reader = "string res option"

text \<open>What a storage call returns: the new backend state, the result and the error (nil is \<open>None\<close>).\<close>

type_synonym ('s, 'r) call = "'s \<Rightarrow> 's \<times> 'r \<times> gerr option"

record 's SSECStorage =
  ss_SupportsSSEC :: bool
  ss_GetWithOptions :: "ctx_state \<Rightarrow> string \<Rightarrow> GetOptions \<Rightarrow> ('s, reader \<times> ObjectInfo) call"
  ss_StatWithOptions :: "ctx_state \<Rightarrow> string \<Rightarrow> GetOptions \<Rightarrow> ('s, ObjectInfo) call"
  ss_UploadPartWithOptions :: "ctx_state \<Rightarrow> string \<Rightarrow> string \<Rightarrow> int \<Rightarrow> string \<Rightarrow> int \<Rightarrow> PutOptions \<Rightarrow> ('s, MultipartPart) call"
  ss_CompleteMultipartWithOptions :: "ctx_state \<Rightarrow> string \<Rightarrow> string \<Rightarrow> MultipartPart list \<Rightarrow> PutOptions \<Rightarrow> ('s, ObjectInfo) call"

record 's GenerationBoundStorage =
  gb_GetGenerationBound :: "ctx_state \<Rightarrow> string \<Rightarrow> ObjectInfo \<Rightarrow> ('s, reader \<times> ObjectInfo) call"

record 's Storage =
  st_Put :: "ctx_state \<Rightarrow> string \<Rightarrow> string \<Rightarrow> int \<Rightarrow> PutOptions \<Rightarrow> ('s, ObjectInfo) call"
  st_Get :: "ctx_state \<Rightarrow> string \<Rightarrow> ('s, reader \<times> ObjectInfo) call"
  st_Stat :: "ctx_state \<Rightarrow> string \<Rightarrow> ('s, ObjectInfo) call"
  st_Delete :: "ctx_state \<Rightarrow> string \<Rightarrow> ('s, unit) call"
  st_List :: "ctx_state \<Rightarrow> string \<Rightarrow> string \<Rightarrow> int \<Rightarrow> ('s, ListResult) call"
  st_PresignGet :: "ctx_state \<Rightarrow> string \<Rightarrow> int \<Rightarrow> ('s, string) call"
  st_PresignPut :: "ctx_state \<Rightarrow> string \<Rightarrow> int \<Rightarrow> ('s, string) call"
  st_InitMultipart :: "ctx_state \<Rightarrow> string \<Rightarrow> PutOptions \<Rightarrow> ('s, MultipartInit) call"
  st_UploadPart :: "ctx_state \<Rightarrow> string \<Rightarrow> string \<Rightarrow> int \<Rightarrow> string \<Rightarrow> int \<Rightarrow> ('s, MultipartPart) call"
  st_CompleteMultipart :: "ctx_state \<Rightarrow> string \<Rightarrow> string \<Rightarrow> MultipartPart list \<Rightarrow> ('s, ObjectInfo) call"
  st_UploadPartCopy :: "ctx_state \<Rightarrow> string \<Rightarrow> string \<Rightarrow> int \<Rightarrow> string \<Rightarrow> int \<Rightarrow> int \<Rightarrow> ('s, MultipartPart) call"
  st_AbortMultipart :: "ctx_state \<Rightarrow> string \<Rightarrow> string \<Rightarrow> ('s, unit) call"
  st_CleanupParts :: "ctx_state \<Rightarrow> string \<Rightarrow> string \<Rightarrow> ('s, unit) call"
  st_Backend :: string
  st_CanCopy :: bool
  st_Copy :: "ctx_state \<Rightarrow> string \<Rightarrow> string \<Rightarrow> CopyOptions \<Rightarrow> ('s, ObjectInfo) call"
  st_ssec :: "'s SSECStorage option"
  st_bound :: "'s GenerationBoundStorage option"
  st_bound_marker :: "bool option"
  st_sse :: "(string \<Rightarrow> string \<Rightarrow> bool) option"

definition SupportsSSEC :: "'s Storage \<Rightarrow> bool" where
  "SupportsSSEC store = (case st_ssec store of None \<Rightarrow> False | Some secure \<Rightarrow> ss_SupportsSSEC secure)"

definition SupportsGenerationBound :: "'s Storage option \<Rightarrow> bool" where
  "SupportsGenerationBound store =
     (case store of
        None \<Rightarrow> False
      | Some st \<Rightarrow> (case st_bound_marker st of Some available \<Rightarrow> available | None \<Rightarrow> st_bound st \<noteq> None))"

definition SupportsServerSideEncryption :: "'s Storage \<Rightarrow> string \<Rightarrow> string \<Rightarrow> bool" where
  "SupportsServerSideEncryption store algorithm keyID =
     (case st_sse store of None \<Rightarrow> False | Some encrypted \<Rightarrow> encrypted algorithm keyID)"

end
