(* ===== verification/Circuit_Breaker.thy ===== *)
theory Circuit_Breaker
  imports Storage_Interface "HOL-Library.AList"
begin

text \<open>
  The circuit breaker of \<^verbatim>\<open>internal/storage/circuitbreaker.go\<close>: its state machine (closed, open,
  half-open), the outcome accounting, and the decoration of every storage method.  Every method that
  reads the clock takes the readings of \<open>time.Now()\<close> it makes as arguments.  \<open>failures\<close> and
  \<open>halfAllowed\<close> are Go \<open>int\<close>s; they are kept as integers, since they are bounded by the
  configuration or by the number of requests.
\<close>

datatype CBState = CBClosed | CBOpen | CBHalfOpen

fun CBState_String :: "CBState \<Rightarrow> string" where
  "CBState_String CBClosed = ''closed''"
| "CBState_String CBOpen = ''open''"
| "CBState_String CBHalfOpen = ''half-open''"

record CBConfig =
  FailureThreshold :: int
  RecoveryTimeout :: int
  HalfOpenMaxRequests :: int
  cb_Enabled :: bool

definition DefaultCBConfig :: CBConfig where
  "DefaultCBConfig = \<lparr>FailureThreshold = 5, RecoveryTimeout = 30 * nanos_per_second, HalfOpenMaxRequests = 1, cb_Enabled = False\<rparr>"

record countBucket =
  b_failures :: int
  b_total :: int

record circuitBreaker =
  cb_cfg :: CBConfig
  cb_state :: CBState
  cb_lastFailure :: instant
  cb_failures :: int
  cb_halfAllowed :: int
  cb_stateChanged :: instant
  cb_window :: "(int \<times> countBucket) list"

text \<open>\<open>time.Time.Unix\<close> of an instant counted from year one.\<close>

definition unix_seconds :: "instant \<Rightarrow> int" where
  "unix_seconds t = t div nanos_per_second - 62135596800"

section \<open>Construction\<close>

definition positive_or :: "int \<Rightarrow> int \<Rightarrow> int" where
  "positive_or v d = (if v \<le> 0 then d else v)"

definition normalized_config :: "CBConfig \<Rightarrow> CBConfig" where
  "normalized_config cfg =
     cfg\<lparr>FailureThreshold := positive_or (FailureThreshold cfg) (FailureThreshold DefaultCBConfig),
         RecoveryTimeout := positive_or (RecoveryTimeout cfg) (RecoveryTimeout DefaultCBConfig),
         HalfOpenMaxRequests := positive_or (HalfOpenMaxRequests cfg) (HalfOpenMaxRequests DefaultCBConfig)\<rparr>"

text \<open>The result is the breaker around the backend, or \<open>None\<close> when the backend itself is returned.\<close>

definition NewCircuitBreaker :: "CBConfig \<Rightarrow> circuitBreaker option" where
  "NewCircuitBreaker cfg =
     (if \<not> cb_Enabled cfg then None
      else Some \<lparr>cb_cfg = normalized_config cfg, cb_state = CBClosed, cb_lastFailure = 0, cb_failures = 0,
                 cb_halfAllowed = 0, cb_stateChanged = 0, cb_window = []\<rparr>)"

section \<open>The state machine\<close>

text \<open>\<open>since\<close> is the reading behind \<open>time.Since\<close>, \<open>now\<close> the later one that is stored.\<close>

definition tryTransition :: "instant \<Rightarrow> instant \<Rightarrow> circuitBreaker \<Rightarrow> circuitBreaker" where
  "tryTransition since now cb =
     (case cb_state cb of
        CBOpen \<Rightarrow>
          if since - cb_lastFailure cb \<ge> RecoveryTimeout (cb_cfg cb)
          then cb\<lparr>cb_state := CBHalfOpen, cb_halfAllowed := HalfOpenMaxRequests (cb_cfg cb), cb_stateChanged := now\<rparr>
          else cb
      | CBHalfOpen \<Rightarrow>
          if cb_halfAllowed cb = HalfOpenMaxRequests (cb_cfg cb) \<and> since - cb_stateChanged cb > RecoveryTimeout (cb_cfg cb)
          then cb\<lparr>cb_state := CBOpen, cb_lastFailure := now\<rparr>
          else cb
      | CBClosed \<Rightarrow> cb)"

definition State :: "instant \<Rightarrow> instant \<Rightarrow> circuitBreaker \<Rightarrow> circuitBreaker \<times> CBState" where
  "State since now cb = (let cb' = tryTransition since now cb in (cb', cb_state cb'))"

definition Stats :: "instant \<Rightarrow> circuitBreaker \<Rightarrow> circuitBreaker \<times> CBState \<times> int \<times> int" where
  "Stats now cb =
     (let keep = filter (\<lambda>(ts, b). \<not> unix_seconds now - ts > 60) (cb_window cb) in
      (cb\<lparr>cb_window := keep\<rparr>, cb_state cb,
       sum_list (map (\<lambda>(ts, b). b_failures b) keep), sum_list (map (\<lambda>(ts, b). b_total b) keep)))"

definition beforeRequest :: "instant \<Rightarrow> instant \<Rightarrow> circuitBreaker \<Rightarrow> circuitBreaker \<times> gerr option" where
  "beforeRequest since now cb =
     (let cb1 = tryTransition since now cb in
      case cb_state cb1 of
        CBOpen \<Rightarrow> (cb1, Some (Sentinel ErrBackendUnavailable))
      | CBHalfOpen \<Rightarrow>
          if cb_halfAllowed cb1 \<le> 0 then (cb1, Some (Sentinel ErrBackendUnavailable))
          else (cb1\<lparr>cb_halfAllowed := cb_halfAllowed cb1 - 1\<rparr>, None)
      | CBClosed \<Rightarrow> (cb1, None))"

definition isBackendFailure :: "gerr option \<Rightarrow> bool" where
  "isBackendFailure err =
     (case err of
        None \<Rightarrow> False
      | Some e \<Rightarrow>
          \<not> list_ex (errors_is e)
             [StorageNotFound, ErrAlreadyExists, ErrInvalidKey, ErrUnsupported, ErrGenerationMismatch,
              ErrSSECustomerKeyRequired, ErrInvalidSSECustomerKey, ErrBackendUnavailable, CtxCanceled])"

definition bump :: "int \<Rightarrow> (countBucket \<Rightarrow> countBucket) \<Rightarrow> (int \<times> countBucket) list \<Rightarrow> (int \<times> countBucket) list" where
  "bump sec f w =
     AList.update sec (f (case map_of w sec of None \<Rightarrow> \<lparr>b_failures = 0, b_total = 0\<rparr> | Some b \<Rightarrow> b)) w"

definition recordOutcome :: "instant \<Rightarrow> gerr option \<Rightarrow> circuitBreaker \<Rightarrow> circuitBreaker" where
  "recordOutcome now err cb =
     (let sec = unix_seconds now;
          cb1 = cb\<lparr>cb_window := bump sec (\<lambda>b. b\<lparr>b_total := b_total b + 1\<rparr>) (cb_window cb)\<rparr> in
      if err = None then
        (case cb_state cb of
           CBHalfOpen \<Rightarrow> cb1\<lparr>cb_state := CBClosed, cb_failures := 0, cb_stateChanged := now\<rparr>
         | CBClosed \<Rightarrow> cb1\<lparr>cb_failures := 0\<rparr>
         | CBOpen \<Rightarrow> cb1)
      else if \<not> isBackendFailure err then
        (if cb_state cb = CBHalfOpen \<and> cb_halfAllowed cb < HalfOpenMaxRequests (cb_cfg cb)
         then cb1\<lparr>cb_halfAllowed := cb_halfAllowed cb + 1\<rparr> else cb1)
      else
        (let cb2 = cb1\<lparr>cb_window := bump sec (\<lambda>b. b\<lparr>b_failures := b_failures b + 1\<rparr>) (cb_window cb1),
                       cb_failures := cb_failures cb + 1\<rparr> in
         case cb_state cb of
           CBClosed \<Rightarrow>
             if cb_failures cb2 \<ge> FailureThreshold (cb_cfg cb)
             then cb2\<lparr>cb_state := CBOpen, cb_lastFailure := now, cb_stateChanged := now\<rparr> else cb2
         | CBHalfOpen \<Rightarrow> cb2\<lparr>cb_state := CBOpen, cb_lastFailure := now, cb_stateChanged := now\<rparr>
         | CBOpen \<Rightarrow> cb2))"

section \<open>Decorated methods\<close>

text \<open>The clock readings of one call: two in \<open>tryTransition\<close>, one in \<open>recordOutcome\<close>.\<close>

record cb_clock =
  ck_since :: instant
  ck_now :: instant
  ck_done :: instant

type_synonym ('s, 'r) guarded_call = "'s \<Rightarrow> circuitBreaker \<times> 's \<times> 'r \<times> gerr option"

text \<open>The body shared by the decorated methods: admission, the backend call, the accounting.\<close>

definition guarded :: "cb_clock \<Rightarrow> 'r \<Rightarrow> ('s, 'r) call \<Rightarrow> circuitBreaker \<Rightarrow> ('s, 'r) guarded_call" where
  "guarded ck zero call cb s =
     (case beforeRequest (ck_since ck) (ck_now ck) cb of
        (cb1, Some e) \<Rightarrow> (cb1, s, zero, Some e)
      | (cb1, None) \<Rightarrow> (let (s', r, err) = call s in (recordOutcome (ck_done ck) err cb1, s', r, err)))"

text \<open>
  The body of the methods of an optional interface: after admission the type assertion (and the
  capability test) may fail, and then the method returns \<open>ErrUnsupported\<close> at once.
\<close>

definition optional_guarded ::
  "cb_clock \<Rightarrow> 'r \<Rightarrow> 'i option \<Rightarrow> ('i \<Rightarrow> bool) \<Rightarrow> ('i \<Rightarrow> ('s, 'r) call) \<Rightarrow> circuitBreaker \<Rightarrow> ('s, 'r) guarded_call" where
  "optional_guarded ck zero iface ok call cb s =
     (case beforeRequest (ck_since ck) (ck_now ck) cb of
        (cb1, Some e) \<Rightarrow> (cb1, s, zero, Some e)
      | (cb1, None) \<Rightarrow>
          (case iface of
             None \<Rightarrow> (cb1, s, zero, Some (Sentinel ErrUnsupported))
           | Some i \<Rightarrow>
               if \<not> ok i then (cb1, s, zero, Some (Sentinel ErrUnsupported))
               else (let (s', r, err) = call i s in (recordOutcome (ck_done ck) err cb1, s', r, err))))"

definition cb_Put ::
  "cb_clock \<Rightarrow> 's Storage \<Rightarrow> ctx_state \<Rightarrow> string \<Rightarrow> string \<Rightarrow> int \<Rightarrow> PutOptions \<Rightarrow> circuitBreaker \<Rightarrow> ('s, ObjectInfo) guarded_call" where
  "cb_Put ck inner ctx key r sz opts cb = guarded ck zero_ObjectInfo (st_Put inner ctx key r sz opts) cb"

definition cb_Get ::
  "cb_clock \<Rightarrow> 's Storage \<Rightarrow> ctx_state \<Rightarrow> string \<Rightarrow> circuitBreaker \<Rightarrow> ('s, reader \<times> ObjectInfo) guarded_call" where
  "cb_Get ck inner ctx key cb = guarded ck (None, zero_ObjectInfo) (st_Get inner ctx key) cb"

definition GenerationBoundAvailable :: "'s Storage \<Rightarrow> bool" where
  "GenerationBoundAvailable inner = SupportsGenerationBound (Some inner)"

definition GetGenerationBound ::
  "cb_clock \<Rightarrow> 's Storage \<Rightarrow> ctx_state \<Rightarrow> string \<Rightarrow> ObjectInfo \<Rightarrow> circuitBreaker \<Rightarrow> ('s, reader \<times> ObjectInfo) guarded_call" where
  "GetGenerationBound ck inner ctx key expected cb =
     optional_guarded ck (None, zero_ObjectInfo) (st_bound inner) (\<lambda>_. True)
       (\<lambda>bound. gb_GetGenerationBound bound ctx key expected) cb"

definition cb_Stat ::
  "cb_clock \<Rightarrow> 's Storage \<Rightarrow> ctx_state \<Rightarrow> string \<Rightarrow> circuitBreaker \<Rightarrow> ('s, ObjectInfo) guarded_call" where
  "cb_Stat ck inner ctx key cb = guarded ck zero_ObjectInfo (st_Stat inner ctx key) cb"

definition cb_SupportsSSEC :: "'s Storage \<Rightarrow> bool" where
  "cb_SupportsSSEC inner = SupportsSSEC inner"

definition cb_SupportsServerSideEncryption :: "'s Storage \<Rightarrow> string \<Rightarrow> string \<Rightarrow> bool" where
  "cb_SupportsServerSideEncryption inner algorithm keyID = SupportsServerSideEncryption inner algorithm keyID"

definition GetWithOptions ::
  "cb_clock \<Rightarrow> 's Storage \<Rightarrow> ctx_state \<Rightarrow> string \<Rightarrow> GetOptions \<Rightarrow> circuitBreaker \<Rightarrow> ('s, reader \<times> ObjectInfo) guarded_call" where
  "GetWithOptions ck inner ctx key opts cb =
     optional_guarded ck (None, zero_ObjectInfo) (st_ssec inner) ss_SupportsSSEC (\<lambda>secure. ss_GetWithOptions secure ctx key opts) cb"

definition StatWithOptions ::
  "cb_clock \<Rightarrow> 's Storage \<Rightarrow> ctx_state \<Rightarrow> string \<Rightarrow> GetOptions \<Rightarrow> circuitBreaker \<Rightarrow> ('s, ObjectInfo) guarded_call" where
  "StatWithOptions ck inner ctx key opts cb =
     optional_guarded ck zero_ObjectInfo (st_ssec inner) ss_SupportsSSEC (\<lambda>secure. ss_StatWithOptions secure ctx key opts) cb"

definition UploadPartWithOptions ::
  "cb_clock \<Rightarrow> 's Storage \<Rightarrow> ctx_state \<Rightarrow> string \<Rightarrow> string \<Rightarrow> int \<Rightarrow> string \<Rightarrow> int \<Rightarrow> PutOptions \<Rightarrow> circuitBreaker \<Rightarrow> ('s, MultipartPart) guarded_call" where
  "UploadPartWithOptions ck inner ctx key uploadID partNumber r sz opts cb =
     optional_guarded ck zero_MultipartPart (st_ssec inner) ss_SupportsSSEC (\<lambda>secure. ss_UploadPartWithOptions secure ctx key uploadID partNumber r sz opts) cb"

definition CompleteMultipartWithOptions ::
  "cb_clock \<Rightarrow> 's Storage \<Rightarrow> ctx_state \<Rightarrow> string \<Rightarrow> string \<Rightarrow> MultipartPart list \<Rightarrow> PutOptions \<Rightarrow> circuitBreaker \<Rightarrow> ('s, ObjectInfo) guarded_call" where
  "CompleteMultipartWithOptions ck inner ctx key uploadID parts opts cb =
     optional_guarded ck zero_ObjectInfo (st_ssec inner) ss_SupportsSSEC (\<lambda>secure. ss_CompleteMultipartWithOptions secure ctx key uploadID parts opts) cb"

definition cb_Delete ::
  "cb_clock \<Rightarrow> 's Storage \<Rightarrow> ctx_state \<Rightarrow> string \<Rightarrow> circuitBreaker \<Rightarrow> ('s, unit) guarded_call" where
  "cb_Delete ck inner ctx key cb = guarded ck () (st_Delete inner ctx key) cb"

definition cb_List ::
  "cb_clock \<Rightarrow> 's Storage \<Rightarrow> ctx_state \<Rightarrow> string \<Rightarrow> string \<Rightarrow> int \<Rightarrow> circuitBreaker \<Rightarrow> ('s, ListResult) guarded_call" where
  "cb_List ck inner ctx prefix marker limit cb = guarded ck zero_ListResult (st_List inner ctx prefix marker limit) cb"

definition cb_PresignGet ::
  "cb_clock \<Rightarrow> 's Storage \<Rightarrow> ctx_state \<Rightarrow> string \<Rightarrow> int \<Rightarrow> circuitBreaker \<Rightarrow> ('s, string) guarded_call" where
  "cb_PresignGet ck inner ctx key expiry cb = guarded ck [] (st_PresignGet inner ctx key expiry) cb"

definition cb_PresignPut ::
  "cb_clock \<Rightarrow> 's Storage \<Rightarrow> ctx_state \<Rightarrow> string \<Rightarrow> int \<Rightarrow> circuitBreaker \<Rightarrow> ('s, string) guarded_call" where
  "cb_PresignPut ck inner ctx key expiry cb = guarded ck [] (st_PresignPut inner ctx key expiry) cb"

definition cb_InitMultipart ::
  "cb_clock \<Rightarrow> 's Storage \<Rightarrow> ctx_state \<Rightarrow> string \<Rightarrow> PutOptions \<Rightarrow> circuitBreaker \<Rightarrow> ('s, MultipartInit) guarded_call" where
  "cb_InitMultipart ck inner ctx key opts cb = guarded ck zero_MultipartInit (st_InitMultipart inner ctx key opts) cb"

definition cb_UploadPart ::
  "cb_clock \<Rightarrow> 's Storage \<Rightarrow> ctx_state \<Rightarrow> string \<Rightarrow> string \<Rightarrow> int \<Rightarrow> string \<Rightarrow> int \<Rightarrow> circuitBreaker \<Rightarrow> ('s, MultipartPart) guarded_call" where
  "cb_UploadPart ck inner ctx key uploadID partNumber r sz cb = guarded ck zero_MultipartPart (st_UploadPart inner ctx key uploadID partNumber r sz) cb"

definition cb_CompleteMultipart ::
  "cb_clock \<Rightarrow> 's Storage \<Rightarrow> ctx_state \<Rightarrow> string \<Rightarrow> string \<Rightarrow> MultipartPart list \<Rightarrow> circuitBreaker \<Rightarrow> ('s, ObjectInfo) guarded_call" where
  "cb_CompleteMultipart ck inner ctx key uploadID parts cb = guarded ck zero_ObjectInfo (st_CompleteMultipart inner ctx key uploadID parts) cb"

definition cb_AbortMultipart ::
  "cb_clock \<Rightarrow> 's Storage \<Rightarrow> ctx_state \<Rightarrow> string \<Rightarrow> string \<Rightarrow> circuitBreaker \<Rightarrow> ('s, unit) guarded_call" where
  "cb_AbortMultipart ck inner ctx key uploadID cb = guarded ck () (st_AbortMultipart inner ctx key uploadID) cb"

definition cb_CleanupParts ::
  "cb_clock \<Rightarrow> 's Storage \<Rightarrow> ctx_state \<Rightarrow> string \<Rightarrow> string \<Rightarrow> circuitBreaker \<Rightarrow> ('s, unit) guarded_call" where
  "cb_CleanupParts ck inner ctx key uploadID cb = guarded ck () (st_CleanupParts inner ctx key uploadID) cb"

definition cb_UploadPartCopy ::
  "cb_clock \<Rightarrow> 's Storage \<Rightarrow> ctx_state \<Rightarrow> string \<Rightarrow> string \<Rightarrow> int \<Rightarrow> string \<Rightarrow> int \<Rightarrow> int \<Rightarrow> circuitBreaker \<Rightarrow> ('s, MultipartPart) guarded_call" where
  "cb_UploadPartCopy ck inner ctx dstKey uploadID partNumber srcKey srcOffset len cb = guarded ck zero_MultipartPart (st_UploadPartCopy inner ctx dstKey uploadID partNumber srcKey srcOffset len) cb"

definition cb_Backend :: "'s Storage \<Rightarrow> string" where
  "cb_Backend inner = st_Backend inner @ ''(cb)''"

text \<open>\<open>CanCopy\<close> and \<open>Copy\<close> are promoted from the embedded backend: no method of the breaker decorates them.\<close>

definition cb_Copy ::
  "'s Storage \<Rightarrow> ctx_state \<Rightarrow> string \<Rightarrow> string \<Rightarrow> CopyOptions \<Rightarrow> circuitBreaker \<Rightarrow> ('s, ObjectInfo) guarded_call" where
  "cb_Copy inner ctx srcKey dstKey opts cb s =
     (let (s', info, err) = st_Copy inner ctx srcKey dstKey opts s in (cb, s', info, err))"

section \<open>The invariant\<close>

definition bucket_ok :: "countBucket \<Rightarrow> bool" where
  "bucket_ok b \<longleftrightarrow> 0 \<le> b_failures b \<and> b_failures b \<le> b_total b"

definition cb_inv :: "circuitBreaker \<Rightarrow> bool" where
  "cb_inv cb \<longleftrightarrow>
     0 < FailureThreshold (cb_cfg cb) \<and> 0 < RecoveryTimeout (cb_cfg cb) \<and> 0 < HalfOpenMaxRequests (cb_cfg cb) \<and>
     0 \<le> cb_failures cb \<and> (cb_state cb = CBClosed \<longrightarrow> cb_failures cb < FailureThreshold (cb_cfg cb)) \<and>
     0 \<le> cb_halfAllowed cb \<and> cb_halfAllowed cb \<le> HalfOpenMaxRequests (cb_cfg cb) \<and>
     distinct (map fst (cb_window cb)) \<and> (\<forall>e \<in> set (cb_window cb). bucket_ok (snd e))"

lemma bump_distinct: "distinct (map fst w) \<Longrightarrow> distinct (map fst (bump sec f w))"
  by (simp add: bump_def distinct_update)

lemma bump_set:
  assumes "distinct (map fst w)" and "e \<in> set (bump sec f w)"
  shows "e \<in> set w \<or> e = (sec, f (case map_of w sec of None \<Rightarrow> \<lparr>b_failures = 0, b_total = 0\<rparr> | Some b \<Rightarrow> b))"
  using assms unfolding bump_def by (induction w) (auto split: if_splits)

lemma map_of_bump: "map_of (bump sec f w) sec = Some (f (case map_of w sec of None \<Rightarrow> \<lparr>b_failures = 0, b_total = 0\<rparr> | Some b \<Rightarrow> b))"
  by (simp add: bump_def update_conv')

lemma isBackendFailure_None [simp]: "\<not> isBackendFailure None"
  by (simp add: isBackendFailure_def)

lemma window_bucket_ok: "\<forall>e \<in> set w. bucket_ok (snd e) \<Longrightarrow> map_of w sec = Some b \<Longrightarrow> bucket_ok b"
  using map_of_SomeD by fastforce

lemma bump_total_ok:
  assumes "distinct (map fst w)" and "\<forall>e \<in> set w. bucket_ok (snd e)"
  shows "\<forall>e \<in> set (bump sec (\<lambda>b. b\<lparr>b_total := b_total b + 1\<rparr>) w). bucket_ok (snd e)"
proof
  fix e assume "e \<in> set (bump sec (\<lambda>b. b\<lparr>b_total := b_total b + 1\<rparr>) w)"
  from bump_set [OF assms(1) this] assms(2) window_bucket_ok [OF assms(2), of sec] show "bucket_ok (snd e)"
    by (auto simp: bucket_ok_def split: option.splits)
qed

text \<open>A failure is counted after the total of the same second was.\<close>

lemma bump_bump:
  assumes "distinct (map fst w)" and "\<forall>e \<in> set w. bucket_ok (snd e)"
  shows "\<forall>e \<in> set (bump sec (\<lambda>b. b\<lparr>b_failures := b_failures b + 1\<rparr>) (bump sec (\<lambda>b. b\<lparr>b_total := b_total b + 1\<rparr>) w)). bucket_ok (snd e)"
proof
  let ?w = "bump sec (\<lambda>b. b\<lparr>b_total := b_total b + 1\<rparr>) w"
  fix e assume e: "e \<in> set (bump sec (\<lambda>b. b\<lparr>b_failures := b_failures b + 1\<rparr>) ?w)"
  from bump_set [OF bump_distinct [OF assms(1)] e] bump_total_ok [OF assms, of sec] window_bucket_ok [OF assms(2), of sec]
  show "bucket_ok (snd e)"
    by (auto simp: map_of_bump bucket_ok_def split: option.splits)
qed

lemma NewCircuitBreaker_inv: "NewCircuitBreaker cfg = Some cb \<Longrightarrow> cb_inv cb"
  by (auto simp: NewCircuitBreaker_def cb_inv_def normalized_config_def positive_or_def DefaultCBConfig_def split: if_splits)

lemma tryTransition_inv: "cb_inv cb \<Longrightarrow> cb_inv (tryTransition since now cb)"
  by (auto simp: tryTransition_def cb_inv_def split: CBState.splits)

lemma beforeRequest_inv: "cb_inv cb \<Longrightarrow> cb_inv (fst (beforeRequest since now cb))"
  using tryTransition_inv [of cb since now]
  by (auto simp: beforeRequest_def Let_def cb_inv_def split: CBState.splits)

lemma recordOutcome_inv:
  assumes "cb_inv cb" shows "cb_inv (recordOutcome now err cb)"
proof -
  have w: "distinct (map fst (cb_window cb))" "\<forall>e \<in> set (cb_window cb). bucket_ok (snd e)"
    using assms by (simp_all add: cb_inv_def)
  show ?thesis
    using assms bump_total_ok [OF w] bump_bump [OF w] bump_distinct [OF w(1)] bump_distinct [OF bump_distinct [OF w(1)]]
    by (simp add: recordOutcome_def Let_def cb_inv_def split: CBState.splits)
qed

lemma Stats_inv: "cb_inv cb \<Longrightarrow> cb_inv (fst (Stats now cb))"
  by (auto simp: Stats_def Let_def cb_inv_def distinct_map_filter)

text \<open>
  Interleavings.  Requests run concurrently: admission (\<open>beforeRequest\<close>) and accounting
  (\<open>recordOutcome\<close>) are atomic sections under the mutex, the backend call in between is not.  The
  second component counts the admitted requests that have not been accounted yet; \<open>cb_lost\<close> is the
  early return of the optional methods.
\<close>

inductive cb_reach :: "circuitBreaker \<Rightarrow> nat \<Rightarrow> bool" where
  cb_new: "NewCircuitBreaker cfg = Some cb \<Longrightarrow> cb_reach cb 0"
| cb_admit: "cb_reach cb n \<Longrightarrow> beforeRequest t1 t2 cb = (cb', None) \<Longrightarrow> cb_reach cb' (Suc n)"
| cb_reject: "cb_reach cb n \<Longrightarrow> beforeRequest t1 t2 cb = (cb', Some e) \<Longrightarrow> cb_reach cb' n"
| cb_finish: "cb_reach cb (Suc n) \<Longrightarrow> cb_reach (recordOutcome t err cb) n"
| cb_lost: "cb_reach cb (Suc n) \<Longrightarrow> cb_reach cb n"
| cb_observe: "cb_reach cb n \<Longrightarrow> cb_reach (fst (State t1 t2 cb)) n"
| cb_stats: "cb_reach cb n \<Longrightarrow> cb_reach (fst (Stats t cb)) n"

lemma cb_reach_inv: "cb_reach cb n \<Longrightarrow> cb_inv cb"
proof (induction rule: cb_reach.induct)
  case (cb_admit cb n t1 t2 cb')
  then show ?case using beforeRequest_inv [of cb t1 t2] by simp
next
  case (cb_reject cb n t1 t2 cb' e)
  then show ?case using beforeRequest_inv [of cb t1 t2] by simp
qed (auto simp: NewCircuitBreaker_inv recordOutcome_inv State_def Let_def tryTransition_inv Stats_inv)

lemma sum_list_le:
  fixes f g :: "'a \<Rightarrow> int"
  assumes "\<forall>e \<in> set xs. 0 \<le> f e \<and> f e \<le> g e"
  shows "0 \<le> sum_list (map f xs) \<and> sum_list (map f xs) \<le> sum_list (map g xs)"
  using assms by (induction xs) auto

text \<open>C20. Under every interleaving of concurrent requests the breaker stays well formed: a closed breaker has
  fewer consecutive failures than the threshold, the number of free half-open probes lies between
  zero and the configured maximum, and the reported statistics satisfy 0 <= failures <= total.\<close>

theorem breaker_invariant:
  assumes "cb_reach cb n"
  shows "(cb_state cb = CBClosed \<longrightarrow> cb_failures cb < FailureThreshold (cb_cfg cb)) \<and>
    0 \<le> cb_halfAllowed cb \<and> cb_halfAllowed cb \<le> HalfOpenMaxRequests (cb_cfg cb) \<and>
    (\<forall>now. case Stats now cb of (cb', st, nfail, ntotal) \<Rightarrow> st = cb_state cb \<and> 0 \<le> nfail \<and> nfail \<le> ntotal)"
proof -
  note inv = cb_reach_inv [OF assms]
  have "case Stats now cb of (cb', st, nfail, ntotal) \<Rightarrow> st = cb_state cb \<and> 0 \<le> nfail \<and> nfail \<le> ntotal" for now
  proof -
    have "\<forall>e \<in> set (filter (\<lambda>(ts, b). \<not> unix_seconds now - ts > 60) (cb_window cb)).
            0 \<le> (\<lambda>(ts, b). b_failures b) e \<and> (\<lambda>(ts, b). b_failures b) e \<le> (\<lambda>(ts, b). b_total b) e"
      using inv by (auto simp: cb_inv_def bucket_ok_def)
    from sum_list_le [OF this] show ?thesis by (simp add: Stats_def Let_def)
  qed
  with inv show ?thesis by (simp add: cb_inv_def)
qed

end
