(* ===== verification/Breaker_Behaviour.thy ===== *)
theory Breaker_Behaviour
  imports Circuit_Breaker
begin

text \<open>
  What the circuit breaker does over a history of requests: when it opens, that it fails fast while
  open, how it recovers, and how a half-open probe slot is lost.
\<close>

section \<open>When the breaker opens\<close>

text \<open>
  The specification of the closed breaker: backend failures since the last success, where
  outcomes that carry no health signal count neither way.
\<close>

fun run_length :: "gerr option list \<Rightarrow> int" where
  "run_length [] = 0"
| "run_length (err # older) =
     (if err = None then 0 else if isBackendFailure err then run_length older + 1 else run_length older)"

text \<open>The outcomes are given newest first; \<open>outcomes\<close> replays them oldest first.\<close>

primrec outcomes :: "(instant \<times> gerr option) list \<Rightarrow> circuitBreaker \<Rightarrow> circuitBreaker" where
  "outcomes [] cb = cb"
| "outcomes (o1 # older) cb = recordOutcome (fst o1) (snd o1) (outcomes older cb)"

lemma recordOutcome_open:
  "cb_state cb = CBOpen \<Longrightarrow> cb_state (recordOutcome now err cb) = CBOpen"
  by (simp add: recordOutcome_def Let_def)

lemma recordOutcome_cfg [simp]: "cb_cfg (recordOutcome now err cb) = cb_cfg cb"
  by (simp add: recordOutcome_def Let_def split: CBState.splits)

lemma outcomes_cfg [simp]: "cb_cfg (outcomes os cb) = cb_cfg cb"
  by (induction os) simp_all

lemma recordOutcome_closed:
  assumes "cb_state cb = CBClosed" and "cb_failures cb = k"
  shows "if isBackendFailure err \<and> k + 1 \<ge> FailureThreshold (cb_cfg cb)
    then cb_state (recordOutcome now err cb) = CBOpen
    else cb_state (recordOutcome now err cb) = CBClosed \<and>
      cb_failures (recordOutcome now err cb) = (if err = None then 0 else if isBackendFailure err then k + 1 else k)"
  using assms by (auto simp: recordOutcome_def Let_def isBackendFailure_def)

lemma outcomes_closed:
  assumes "cb_state cb = CBClosed" and "cb_failures cb = 0" and "0 < FailureThreshold (cb_cfg cb)"
  shows "if \<exists>n. run_length (map snd (drop n os)) \<ge> FailureThreshold (cb_cfg cb)
    then cb_state (outcomes os cb) = CBOpen
    else cb_state (outcomes os cb) = CBClosed \<and> cb_failures (outcomes os cb) = run_length (map snd os)"
proof (induction os)
  case Nil
  then show ?case using assms by simp
next
  case (Cons x os)
  let ?t = "FailureThreshold (cb_cfg cb)"
  have split: "(\<exists>n. run_length (map snd (drop n (x # os))) \<ge> ?t) \<longleftrightarrow>
        run_length (map snd (x # os)) \<ge> ?t \<or> (\<exists>n. run_length (map snd (drop n os)) \<ge> ?t)"
  proof
    assume "\<exists>n. run_length (map snd (drop n (x # os))) \<ge> ?t"
    then obtain n where "run_length (map snd (drop n (x # os))) \<ge> ?t" ..
    then show "run_length (map snd (x # os)) \<ge> ?t \<or> (\<exists>n. run_length (map snd (drop n os)) \<ge> ?t)"
      by (cases n) auto
  next
    assume "run_length (map snd (x # os)) \<ge> ?t \<or> (\<exists>n. run_length (map snd (drop n os)) \<ge> ?t)"
    then show "\<exists>n. run_length (map snd (drop n (x # os))) \<ge> ?t"
    proof
      assume "run_length (map snd (x # os)) \<ge> ?t"
      then have "run_length (map snd (drop 0 (x # os))) \<ge> ?t" by simp
      then show ?thesis ..
    next
      assume "\<exists>n. run_length (map snd (drop n os)) \<ge> ?t"
      then obtain n where "run_length (map snd (drop n os)) \<ge> ?t" ..
      then have "run_length (map snd (drop (Suc n) (x # os))) \<ge> ?t" by simp
      then show ?thesis ..
    qed
  qed
  show ?case
  proof (cases "\<exists>n. run_length (map snd (drop n os)) \<ge> ?t")
    case True
    then have "cb_state (outcomes os cb) = CBOpen" using Cons.IH by (simp only: if_True)
    then show ?thesis using True by (simp only: split simp_thms if_True outcomes.simps recordOutcome_open)
  next
    case False
    then have c: "cb_state (outcomes os cb) = CBClosed" "cb_failures (outcomes os cb) = run_length (map snd os)"
      using Cons.IH by (simp_all only: if_False)
    from False have "\<not> run_length (map snd (drop 0 os)) \<ge> ?t" by blast
    then have less: "run_length (map snd os) < ?t" by simp
    show ?thesis
      unfolding split using False recordOutcome_closed [OF c, of "snd x" "fst x"] less assms(3)
      by (auto split: if_splits)
  qed
qed

text \<open>A new breaker trips exactly when the configured number of backend failures occurred without a
  success in between: after any sequence of outcomes it is open if some point of the history had a
  failure run of at least the threshold, and otherwise it is closed and its counter is the length
  of the current run.  Client and object-state errors neither extend nor reset a run.\<close>

lemma breaker_opens_iff:
  assumes "NewCircuitBreaker cfg = Some cb"
  shows "if \<exists>n. run_length (map snd (drop n os)) \<ge> FailureThreshold (cb_cfg cb)
    then cb_state (outcomes os cb) = CBOpen
    else cb_state (outcomes os cb) = CBClosed \<and> cb_failures (outcomes os cb) = run_length (map snd os)"
proof (rule outcomes_closed)
  show "cb_state cb = CBClosed" "cb_failures cb = 0"
    using assms by (auto simp: NewCircuitBreaker_def split: if_splits)
  show "0 < FailureThreshold (cb_cfg cb)"
    using NewCircuitBreaker_inv [OF assms] by (simp add: cb_inv_def)
qed

section \<open>Fail fast, recovery, and lost probes\<close>

lemma beforeRequest_open:
  assumes "cb_state cb = CBOpen" and "since - cb_lastFailure cb < RecoveryTimeout (cb_cfg cb)"
  shows "beforeRequest since now cb = (cb, Some (Sentinel ErrBackendUnavailable))"
  using assms by (simp add: beforeRequest_def tryTransition_def)

lemma beforeRequest_wedged:
  assumes "cb_state cb = CBHalfOpen" and "cb_halfAllowed cb = 0" and "0 < HalfOpenMaxRequests (cb_cfg cb)"
  shows "beforeRequest since now cb = (cb, Some (Sentinel ErrBackendUnavailable))"
  using assms by (simp add: beforeRequest_def tryTransition_def)

lemma rejected_call:
  assumes "beforeRequest (ck_since ck) (ck_now ck) cb = (cb, Some e)"
  shows "guarded ck zero call cb s = (cb, s, zero, Some e)"
    and "optional_guarded ck zero iface ok icall cb s = (cb, s, zero, Some e)"
  using assms by (simp_all add: guarded_def optional_guarded_def)

lemmas cb_methods = cb_Put_def cb_Get_def GetGenerationBound_def cb_Stat_def GetWithOptions_def StatWithOptions_def
  UploadPartWithOptions_def CompleteMultipartWithOptions_def cb_Delete_def cb_List_def cb_PresignGet_def cb_PresignPut_def
  cb_InitMultipart_def cb_UploadPart_def cb_CompleteMultipart_def cb_AbortMultipart_def cb_CleanupParts_def cb_UploadPartCopy_def

text \<open>While the circuit is open and the recovery timeout has not passed, the methods that would change the
  backend return ErrBackendUnavailable and neither the backend nor the breaker changes; only Copy,
  which the breaker does not decorate, still reaches the backend.\<close>

lemma breaker_fails_fast:
  assumes "cb_state cb = CBOpen" and "ck_since ck - cb_lastFailure cb < RecoveryTimeout (cb_cfg cb)"
  shows "cb_Put ck inner ctx key r sz opts cb s = (cb, s, zero_ObjectInfo, Some (Sentinel ErrBackendUnavailable)) \<and>
    cb_Delete ck inner ctx key cb s = (cb, s, (), Some (Sentinel ErrBackendUnavailable)) \<and>
    cb_InitMultipart ck inner ctx key opts cb s = (cb, s, zero_MultipartInit, Some (Sentinel ErrBackendUnavailable)) \<and>
    cb_UploadPart ck inner ctx key upl part r sz cb s = (cb, s, zero_MultipartPart, Some (Sentinel ErrBackendUnavailable)) \<and>
    cb_CompleteMultipart ck inner ctx key upl parts cb s = (cb, s, zero_ObjectInfo, Some (Sentinel ErrBackendUnavailable)) \<and>
    cb_AbortMultipart ck inner ctx key upl cb s = (cb, s, (), Some (Sentinel ErrBackendUnavailable)) \<and>
    cb_CleanupParts ck inner ctx key upl cb s = (cb, s, (), Some (Sentinel ErrBackendUnavailable)) \<and>
    cb_UploadPartCopy ck inner ctx key upl part src off len cb s = (cb, s, zero_MultipartPart, Some (Sentinel ErrBackendUnavailable)) \<and>
    UploadPartWithOptions ck inner ctx key upl part r sz opts cb s = (cb, s, zero_MultipartPart, Some (Sentinel ErrBackendUnavailable)) \<and>
    CompleteMultipartWithOptions ck inner ctx key upl parts opts cb s = (cb, s, zero_ObjectInfo, Some (Sentinel ErrBackendUnavailable)) \<and>
    cb_Copy inner ctx src key copts cb s = (cb, st_Copy inner ctx src key copts s)"
  by (simp add: cb_methods cb_Copy_def split_beta rejected_call [OF beforeRequest_open [OF assms]])

lemma beforeRequest_recovered:
  assumes "cb_state cb = CBOpen" and "RecoveryTimeout (cb_cfg cb) \<le> since - cb_lastFailure cb" and "0 < HalfOpenMaxRequests (cb_cfg cb)"
  shows "beforeRequest since now cb =
    (cb\<lparr>cb_state := CBHalfOpen, cb_halfAllowed := HalfOpenMaxRequests (cb_cfg cb) - 1, cb_stateChanged := now\<rparr>, None)"
  using assms by (simp add: beforeRequest_def tryTransition_def)

text \<open>Recovery: once the recovery timeout has passed, the next request of an open breaker is sent to the
  backend and its result returned; a success closes the circuit with the counter reset, a backend
  failure opens it again from that moment, and any other error gives the probe slot back.\<close>

lemma breaker_recovers:
  assumes "cb_reach cb n" and "cb_state cb = CBOpen" and "RecoveryTimeout (cb_cfg cb) \<le> ck_since ck - cb_lastFailure cb"
    and "st_Put inner ctx key r sz opts s = (s', info, err)"
    and "cb_Put ck inner ctx key r sz opts cb s = (cb', res)"
  shows "res = (s', info, err) \<and>
    (if err = None then cb_state cb' = CBClosed \<and> cb_failures cb' = 0
     else if isBackendFailure err then cb_state cb' = CBOpen \<and> cb_lastFailure cb' = ck_done ck
     else cb_state cb' = CBHalfOpen \<and> cb_halfAllowed cb' = HalfOpenMaxRequests (cb_cfg cb))"
proof -
  have "0 < HalfOpenMaxRequests (cb_cfg cb)" using cb_reach_inv [OF assms(1)] by (simp add: cb_inv_def)
  from beforeRequest_recovered [OF assms(2,3) this] assms(4,5) show ?thesis
    by (auto simp: cb_Put_def guarded_def recordOutcome_def Let_def)
qed

text \<open>A sequence of requests through the breaker, each with its clock readings; the list of their errors.\<close>

primrec requests :: "(cb_clock \<times> ('s, 'r) call) list \<Rightarrow> 'r \<Rightarrow> circuitBreaker \<Rightarrow> 's \<Rightarrow> circuitBreaker \<times> 's \<times> gerr option list" where
  "requests [] zero cb s = (cb, s, [])"
| "requests (q # qs) zero cb s =
     (let (cb1, s1, r, e) = guarded (fst q) zero (snd q) cb s; (cb2, s2, es) = requests qs zero cb1 s1 in (cb2, s2, e # es))"

lemma requests_wedged:
  assumes "cb_state cb = CBHalfOpen" and "cb_halfAllowed cb = 0" and "0 < HalfOpenMaxRequests (cb_cfg cb)"
  shows "requests qs zero cb s = (cb, s, map (\<lambda>_. Some (Sentinel ErrBackendUnavailable)) qs)"
  by (induction qs) (simp_all add: rejected_call(1) [OF beforeRequest_wedged [OF assms]])

text \<open>A lost probe wedges the breaker.  With one half-open slot (\<open>HalfOpenMaxRequests = 1\<close>), when the first request after the recovery
  timeout is an SSE-C read on a backend without SSE-C, the method takes the probe slot and returns
  ErrUnsupported without giving it back; from then on every request, at whatever later time and
  however healthy the backend, is rejected.  The fallback of tryTransition, meant for lost probes,
  only applies while no slot is taken.\<close>

lemma breaker_wedges:
  assumes "cb_state cb = CBOpen" and "RecoveryTimeout (cb_cfg cb) \<le> ck_since ck - cb_lastFailure cb"
    and "HalfOpenMaxRequests (cb_cfg cb) = 1" and "st_ssec inner = None"
    and "GetWithOptions ck inner ctx key opts cb s = (cb', s', r, e)"
  shows "e = Some (Sentinel ErrUnsupported) \<and> s' = s \<and>
    requests qs zero cb' s' = (cb', s', map (\<lambda>_. Some (Sentinel ErrBackendUnavailable)) qs)"
proof -
  have "0 < HalfOpenMaxRequests (cb_cfg cb)" using assms(3) by simp
  from beforeRequest_recovered [OF assms(1,2) this] assms(3-5)
  have e: "e = Some (Sentinel ErrUnsupported)" "s' = s"
    and cb': "cb_state cb' = CBHalfOpen" "cb_halfAllowed cb' = 0" "0 < HalfOpenMaxRequests (cb_cfg cb')"
    by (auto simp: GetWithOptions_def optional_guarded_def)
  show ?thesis using e requests_wedged [OF cb'] by simp
qed

section \<open>Concrete runs\<close>

definition demo_cb_cfg :: CBConfig where
  "demo_cb_cfg = \<lparr>FailureThreshold = 2, RecoveryTimeout = 10, HalfOpenMaxRequests = 0, cb_Enabled = True\<rparr>"

definition demo_cb :: circuitBreaker where
  "demo_cb = \<lparr>cb_cfg = normalized_config demo_cb_cfg, cb_state = CBClosed, cb_lastFailure = 0, cb_failures = 0,
     cb_halfAllowed = 0, cb_stateChanged = 0, cb_window = []\<rparr>"

definition tripped_cb :: circuitBreaker where
  "tripped_cb = recordOutcome 101 (Some (NewError ''io'')) (recordOutcome 100 (Some (NewError ''io'')) demo_cb)"

definition demo_put :: "(nat, ObjectInfo) call" where
  "demo_put s = (Suc s, zero_ObjectInfo\<lparr>oi_Key := ''k''\<rparr>, None)"

definition demo_storage :: "nat Storage" where
  "demo_storage = \<lparr>st_Put = \<lambda>_ _ _ _ _. demo_put, st_Get = \<lambda>_ _ s. (s, (None, zero_ObjectInfo), Some (Sentinel StorageNotFound)),
     st_Stat = \<lambda>_ _ s. (s, zero_ObjectInfo, Some (Sentinel StorageNotFound)), st_Delete = \<lambda>_ _ s. (s, (), None),
     st_List = \<lambda>_ _ _ _ s. (s, zero_ListResult, None), st_PresignGet = \<lambda>_ _ _ s. (s, [], None), st_PresignPut = \<lambda>_ _ _ s. (s, [], None),
     st_InitMultipart = \<lambda>_ _ _ s. (s, zero_MultipartInit, None), st_UploadPart = \<lambda>_ _ _ _ _ _ s. (s, zero_MultipartPart, None),
     st_CompleteMultipart = \<lambda>_ _ _ _ s. (s, zero_ObjectInfo, None), st_UploadPartCopy = \<lambda>_ _ _ _ _ _ _ s. (s, zero_MultipartPart, None),
     st_AbortMultipart = \<lambda>_ _ _ s. (s, (), None), st_CleanupParts = \<lambda>_ _ _ s. (s, (), None), st_Backend = ''demo'', st_CanCopy = False,
     st_Copy = \<lambda>_ _ _ _ s. (Suc s, zero_ObjectInfo, None), st_ssec = None, st_bound = None, st_bound_marker = None, st_sse = None\<rparr>"

lemma demo_cb_new: "NewCircuitBreaker demo_cb_cfg = Some demo_cb"
  by (simp add: NewCircuitBreaker_def demo_cb_def demo_cb_cfg_def)

lemma demo_admit: "beforeRequest 90 90 demo_cb = (demo_cb, None)"
  "beforeRequest 91 91 demo_cb = (demo_cb, None)"
  by (simp_all add: beforeRequest_def tryTransition_def demo_cb_def)

lemma tripped_reach: "cb_reach tripped_cb 0"
proof -
  have "cb_reach demo_cb 0" by (rule cb_new [OF demo_cb_new])
  from cb_admit [OF cb_admit [OF this demo_admit(1)] demo_admit(2)] have "cb_reach demo_cb (Suc (Suc 0))" .
  from cb_finish [OF cb_finish [OF this]] show ?thesis unfolding tripped_cb_def .
qed

lemma tripped_facts:
  "cb_state tripped_cb = CBOpen" "cb_lastFailure tripped_cb = 101" "RecoveryTimeout (cb_cfg tripped_cb) = 10"
  "HalfOpenMaxRequests (cb_cfg tripped_cb) = 1" "FailureThreshold (cb_cfg tripped_cb) = 2"
  by (simp_all add: tripped_cb_def demo_cb_def demo_cb_cfg_def recordOutcome_def isBackendFailure_def normalized_config_def Let_def
      positive_or_def DefaultCBConfig_def)

theorem breaker_invariant_witness:
  "0 \<le> cb_halfAllowed tripped_cb \<and> cb_halfAllowed tripped_cb \<le> HalfOpenMaxRequests (cb_cfg tripped_cb)"
  using Circuit_Breaker.breaker_invariant [OF tripped_reach] by blast

theorem breaker_opens_iff_witness:
  "cb_state (outcomes [(101, Some (NewError ''io'')), (100, Some (NewError ''io''))] demo_cb) = CBOpen"
proof -
  let ?os = "[(101, Some (NewError ''io'')), (100, Some (NewError ''io''))] :: (instant \<times> gerr option) list"
  have "run_length (map snd (drop 0 ?os)) \<ge> FailureThreshold (cb_cfg demo_cb)"
    by (simp add: isBackendFailure_def demo_cb_def normalized_config_def positive_or_def demo_cb_cfg_def)
  then have "\<exists>n. run_length (map snd (drop n ?os)) \<ge> FailureThreshold (cb_cfg demo_cb)" ..
  with breaker_opens_iff [OF demo_cb_new, of ?os] show ?thesis by (simp only: if_True)
qed

theorem breaker_fails_fast_witness:
  "cb_Delete \<lparr>ck_since = 105, ck_now = 105, ck_done = 105\<rparr> demo_storage background ''k'' tripped_cb 7 =
     (tripped_cb, 7, (), Some (Sentinel ErrBackendUnavailable))"
  using breaker_fails_fast [of tripped_cb "\<lparr>ck_since = 105, ck_now = 105, ck_done = 105\<rparr>" demo_storage background "''k''" _ _ _ 7]
  by (simp add: tripped_facts)

theorem breaker_recovers_witness:
  "let (cb', s', info, err) = cb_Put \<lparr>ck_since = 111, ck_now = 111, ck_done = 112\<rparr> demo_storage background ''k'' ''x'' 1
       \<lparr>po_ContentType = [], po_Metadata = [], po_SSEAlgorithm = [], po_SSEKMSKeyID = [], po_SSECustomerKey = [], po_SSECustomerKeyMD5 = []\<rparr> tripped_cb 7
   in s' = 8 \<and> err = None \<and> cb_state cb' = CBClosed \<and> cb_failures cb' = 0"
proof -
  let ?o = "\<lparr>po_ContentType = [], po_Metadata = [], po_SSEAlgorithm = [], po_SSEKMSKeyID = [], po_SSECustomerKey = [], po_SSECustomerKeyMD5 = []\<rparr>"
  let ?ck = "\<lparr>ck_since = 111, ck_now = 111, ck_done = 112\<rparr>"
  obtain cb' res where r: "cb_Put ?ck demo_storage background ''k'' ''x'' 1 ?o tripped_cb 7 = (cb', res)"
    by (cases "cb_Put ?ck demo_storage background ''k'' ''x'' 1 ?o tripped_cb 7")
  have b: "st_Put demo_storage background ''k'' ''x'' 1 ?o 7 = (8, zero_ObjectInfo\<lparr>oi_Key := ''k''\<rparr>, None)"
    by (simp add: demo_storage_def demo_put_def)
  have t: "RecoveryTimeout (cb_cfg tripped_cb) \<le> ck_since ?ck - cb_lastFailure tripped_cb" by (simp add: tripped_facts)
  from breaker_recovers [OF tripped_reach tripped_facts(1) t b r] r show ?thesis by simp
qed

lemma breaker_wedges_example:
  "case GetWithOptions \<lparr>ck_since = 111, ck_now = 111, ck_done = 112\<rparr> demo_storage background ''k''
        \<lparr>go_SSECustomerKey = [], go_SSECustomerKeyMD5 = []\<rparr> tripped_cb 7 of
     (cb', s', r, e) \<Rightarrow>
       requests [(\<lparr>ck_since = 1000000, ck_now = 1000000, ck_done = 1000000\<rparr>, demo_put)] zero_ObjectInfo cb' s' =
         (cb', 7, [Some (Sentinel ErrBackendUnavailable)])"
proof -
  let ?ck = "\<lparr>ck_since = 111, ck_now = 111, ck_done = 112\<rparr>"
  let ?g = "GetWithOptions ?ck demo_storage background ''k'' \<lparr>go_SSECustomerKey = [], go_SSECustomerKeyMD5 = []\<rparr> tripped_cb 7"
  obtain cb' s' r e where g: "?g = (cb', s', r, e)" by (cases ?g)
  have t: "RecoveryTimeout (cb_cfg tripped_cb) \<le> ck_since ?ck - cb_lastFailure tripped_cb" by (simp add: tripped_facts)
  have n: "st_ssec demo_storage = None" by (simp add: demo_storage_def)
  from breaker_wedges [OF tripped_facts(1) t tripped_facts(4) n g,
      of "[(\<lparr>ck_since = 1000000, ck_now = 1000000, ck_done = 1000000\<rparr>, demo_put)]" zero_ObjectInfo]
  show ?thesis unfolding g by (auto simp del: requests.simps)
qed

end
