(* ===== verification/Byte_Range.thy ===== *)
theory Byte_Range
  imports AV_Prelude
begin

text \<open>
  HTTP byte ranges, \<^verbatim>\<open>internal/service/range.go\<close>: parsing a \<open>Range\<close> header against the object size
  and cutting the body.  Coordinates are \<open>int64\<close>; every arithmetic result is passed through \<open>i64\<close>,
  the two's complement wrap-around, and the bounds lemmas show where it is the identity.
\<close>

definition MaxInt64 :: int where
  "MaxInt64 = 9223372036854775807"

definition i64 :: "int \<Rightarrow> int" where
  "i64 x = (x + 9223372036854775808) mod 18446744073709551616 - 9223372036854775808"

lemma i64_id: "- 9223372036854775808 \<le> x \<Longrightarrow> x \<le> MaxInt64 \<Longrightarrow> i64 x = x"
  by (simp add: i64_def MaxInt64_def)

section \<open>The operations\<close>

text \<open>The loop of \<open>parseRangeDecimal\<close> with its accumulator.\<close>

fun parseRangeDecimal_loop :: "int \<Rightarrow> string \<Rightarrow> int res" where
  "parseRangeDecimal_loop number [] = Inr number"
| "parseRangeDecimal_loop number (c # cs) =
     (if byte c < 48 \<or> byte c > 57 then Inl (NewError ''invalid range number'')
      else (let digit = int (byte c - 48) in
            if number > i64 (MaxInt64 - digit) div 10 then parseRangeDecimal_loop MaxInt64 cs
            else parseRangeDecimal_loop (i64 (i64 (number * 10) + digit)) cs))"

definition parseRangeDecimal :: "string \<Rightarrow> int res" where
  "parseRangeDecimal v = (if v = [] then Inl (NewError ''empty range number'') else parseRangeDecimal_loop 0 v)"

definition parseRangeSpec :: "string \<Rightarrow> (int \<times> int) res" where
  "parseRangeSpec spec =
     (case index_byte spec CHR ''-'' of
        None \<Rightarrow> Inl (NewError ''no dash in range'')
      | Some dash \<Rightarrow>
          (let startStr = trim_space (take dash spec); endStr = trim_space (drop (dash + 1) spec) in
           if startStr = [] then
             (case parseRangeDecimal endStr of
                Inl _ \<Rightarrow> Inl (NewError ''invalid suffix range'')
              | Inr n \<Rightarrow> if n \<le> 0 then Inl (NewError ''invalid suffix range'') else Inr (i64 (- n), 0))
           else
             (case parseRangeDecimal startStr of
                Inl _ \<Rightarrow> Inl (NewError ''invalid start'')
              | Inr start \<Rightarrow>
                  if start < 0 then Inl (NewError ''invalid start'')
                  else if endStr = [] then Inr (start, - 1)
                  else (case parseRangeDecimal endStr of
                          Inl _ \<Rightarrow> Inl (NewError ''invalid end'')
                        | Inr end' \<Rightarrow> Inr (start, end')))))"

text \<open>\<open>None\<close> is \<open>errUnsatisfiable\<close>.\<close>

definition clampRange :: "int \<Rightarrow> int \<Rightarrow> int \<Rightarrow> (int \<times> int) option" where
  "clampRange start end' size' =
     (if start < 0 then
        (let n = i64 (- start) in
         if size' = 0 then None
         else (let n = (if n > size' then size' else n) in Some (i64 (size' - n), n)))
      else if start \<ge> size' then None
      else if end' < 0 then Some (start, i64 (size' - start))
      else (let end' = (if end' \<ge> size' then i64 (size' - 1) else end') in
            if end' < start then None else Some (start, i64 (i64 (end' - start) + 1))))"

record byte_range =
  rg_offset :: int
  rg_length :: int
  rg_ok :: bool
  rg_unsatisfiable :: bool

definition ParseByteRange :: "string \<Rightarrow> int \<Rightarrow> byte_range" where
  "ParseByteRange header size' =
     (let none = \<lparr>rg_offset = 0, rg_length = 0, rg_ok = False, rg_unsatisfiable = False\<rparr> in
      if size' < 0 \<or> \<not> has_prefix header ''bytes='' then none
      else
        (let spec = trim_space (drop 6 header);
             spec = (case index_byte spec CHR '','' of Some i \<Rightarrow> trim_space (take i spec) | None \<Rightarrow> spec) in
         case parseRangeSpec spec of
           Inl _ \<Rightarrow> none
         | Inr (start, end') \<Rightarrow>
             (case clampRange start end' size' of
                None \<Rightarrow> none\<lparr>rg_unsatisfiable := True\<rparr>
              | Some (offset, len) \<Rightarrow> \<lparr>rg_offset = offset, rg_length = len, rg_ok = True, rg_unsatisfiable = False\<rparr>)))"

text \<open>
  \<open>sliceReadCloser\<close> on the bytes the source still delivers: \<open>io.CopyN\<close> fails with \<open>EOF\<close> when it
  gets fewer bytes than asked for, \<open>io.LimitReader\<close> ends after \<open>len\<close> bytes.
\<close>

definition sliceReadCloser :: "string \<Rightarrow> int \<Rightarrow> int \<Rightarrow> string res" where
  "sliceReadCloser body offset len =
     (if offset > 0 \<and> int (length body) < offset then Inl (NewError ''EOF'')
      else (let rest = (if offset > 0 then drop (nat offset) body else body) in
            Inr (if len < 0 then rest else take (nat len) rest)))"

section \<open>Decimal numbers saturate\<close>

definition digits :: "string \<Rightarrow> bool" where
  "digits s \<longleftrightarrow> s \<noteq> [] \<and> list_all (\<lambda>c. 48 \<le> byte c \<and> byte c \<le> 57) s"

definition dec_value :: "string \<Rightarrow> int" where
  "dec_value s = foldl (\<lambda>n c. n * 10 + int (byte c - 48)) 0 s"

lemma foldl_dec_mono:
  "0 \<le> n \<Longrightarrow> n \<le> foldl (\<lambda>n c. n * 10 + int (byte c - 48)) n s"
proof (induction s arbitrary: n)
  case (Cons c s)
  have "n \<le> n * 10 + int (byte c - 48)" using Cons.prems by simp
  also have "\<dots> \<le> foldl (\<lambda>n c. n * 10 + int (byte c - 48)) (n * 10 + int (byte c - 48)) s"
    using Cons.prems by (intro Cons.IH) simp
  finally show ?case by simp
qed simp

lemma dec_value_nonneg: "0 \<le> dec_value s"
  unfolding dec_value_def by (rule foldl_dec_mono) simp

lemma foldl_dec_le:
  assumes "0 \<le> m" and "m \<le> n"
  shows "foldl (\<lambda>n c. n * 10 + int (byte c - 48)) m s \<le> foldl (\<lambda>n c. n * 10 + int (byte c - 48)) n s"
  using assms by (induction s arbitrary: m n) simp_all

lemma saturate_step:
  assumes "0 \<le> n" and "n \<le> MaxInt64" and "0 \<le> d" and "d \<le> 9"
  shows "n > i64 (MaxInt64 - d) div 10 \<longleftrightarrow> n * 10 + d > MaxInt64"
    and "\<not> n > i64 (MaxInt64 - d) div 10 \<Longrightarrow> i64 (i64 (n * 10) + d) = n * 10 + d"
proof -
  have 1: "i64 (MaxInt64 - d) = MaxInt64 - d" using assms by (intro i64_id) (simp_all add: MaxInt64_def)
  show 2: "n > i64 (MaxInt64 - d) div 10 \<longleftrightarrow> n * 10 + d > MaxInt64" unfolding 1 by auto
  assume "\<not> n > i64 (MaxInt64 - d) div 10"
  with 2 have le: "n * 10 + d \<le> MaxInt64" by simp
  have "i64 (n * 10) = n * 10" using assms le by (intro i64_id) simp_all
  then show "i64 (i64 (n * 10) + d) = n * 10 + d" using assms le by (simp add: i64_id)
qed

lemma parseRangeDecimal_loop_spec:
  assumes "0 \<le> n" and "n \<le> MaxInt64"
  shows "parseRangeDecimal_loop n s =
    (if list_all (\<lambda>c. 48 \<le> byte c \<and> byte c \<le> 57) s
     then Inr (min MaxInt64 (foldl (\<lambda>n c. n * 10 + int (byte c - 48)) n s))
     else Inl (NewError ''invalid range number''))"
  using assms
proof (induction s arbitrary: n)
  case Nil
  then show ?case by simp
next
  case (Cons c s)
  let ?f = "foldl (\<lambda>n c. n * 10 + int (byte c - 48))"
  let ?d = "int (byte c - 48)"
  show ?case
  proof (cases "48 \<le> byte c \<and> byte c \<le> 57")
    case False
    then show ?thesis by auto
  next
    case True
    then have d: "0 \<le> ?d" "?d \<le> 9" by auto
    note step = saturate_step [OF Cons.prems d]
    show ?thesis
    proof (cases "n > i64 (MaxInt64 - ?d) div 10")
      case sat: True
      then have big: "MaxInt64 \<le> n * 10 + ?d" using step(1) by simp
      have "MaxInt64 \<le> ?f MaxInt64 s" by (rule foldl_dec_mono) (simp add: MaxInt64_def)
      moreover have "MaxInt64 \<le> ?f (n * 10 + ?d) s"
        using calculation foldl_dec_le [of MaxInt64 "n * 10 + ?d" s] big by (simp add: MaxInt64_def)
      ultimately show ?thesis
        using True sat Cons.IH [of MaxInt64] by (simp add: MaxInt64_def Let_def min_absorb1)
    next
      case False
      then have "0 \<le> n * 10 + ?d" "n * 10 + ?d \<le> MaxInt64" using step(1) Cons.prems d by auto
      from Cons.IH [OF this] True False step(2) show ?thesis by (simp add: Let_def)
    qed
  qed
qed

lemma parseRangeDecimal_digits:
  "parseRangeDecimal v = (if digits v then Inr (min MaxInt64 (dec_value v)) else
     Inl (NewError (if v = [] then ''empty range number'' else ''invalid range number'')))"
  using parseRangeDecimal_loop_spec [of 0 v]
  by (auto simp: parseRangeDecimal_def digits_def dec_value_def MaxInt64_def)

lemma parseRangeDecimal_bounds: "parseRangeDecimal v = Inr n \<Longrightarrow> 0 \<le> n \<and> n \<le> MaxInt64"
  using dec_value_nonneg [of v] by (auto simp: parseRangeDecimal_digits MaxInt64_def split: if_splits)

section \<open>Ranges lie inside the object\<close>

lemma clampRange_cases:
  assumes "0 \<le> size'" and "size' \<le> MaxInt64" and "- MaxInt64 \<le> start" and "start \<le> MaxInt64" and "end' \<le> MaxInt64"
  shows "clampRange start end' size' =
    (if start < 0 then (if size' = 0 then None else Some (size' - min (- start) size', min (- start) size'))
     else if start \<ge> size' then None
     else if end' < 0 then Some (start, size' - start)
     else if end' < start then None
     else Some (start, min end' (size' - 1) - start + 1))"
proof -
  have small: "i64 x = x" if "- MaxInt64 \<le> x" "x \<le> MaxInt64" for x
    using that by (simp add: i64_id MaxInt64_def)
  show ?thesis
  proof (cases "start < 0")
    case True
    then have "i64 (- start) = - start" using assms by (intro small) simp_all
    moreover have "i64 (size' - min (- start) size') = size' - min (- start) size'"
      using True assms by (intro small) simp_all
    ultimately show ?thesis using True by (auto simp: clampRange_def Let_def min_def)
  next
    case False
    show ?thesis
    proof (cases "start \<ge> size'")
      case True
      with False show ?thesis by (simp add: clampRange_def)
    next
      case inside: False
      have 1: "i64 (size' - start) = size' - start" using False assms by (intro small) simp_all
      have 2: "i64 (size' - 1) = size' - 1" using False inside assms by (intro small) simp_all
      define e where "e = min end' (size' - 1)"
      have 3: "i64 (i64 (e - start) + 1) = e - start + 1" if "start \<le> e"
      proof -
        have "i64 (e - start) = e - start" using that False assms by (intro small) (auto simp: e_def MaxInt64_def min_def)
        moreover have "i64 (e - start + 1) = e - start + 1" using that False assms inside by (intro small) (auto simp: e_def MaxInt64_def min_def)
        ultimately show ?thesis by simp
      qed
      have 4: "(if end' \<ge> size' then i64 (size' - 1) else end') = e" unfolding 2 e_def by auto
      have 5: "e < start \<longleftrightarrow> end' < start" using inside by (auto simp: e_def)
      show ?thesis
        using False inside unfolding clampRange_def Let_def 4 1 5 by (auto simp: 3 e_def [symmetric]) (use 3 5 in auto)
    qed
  qed
qed

lemma clampRange_nonneg:
  assumes "0 \<le> size'" and "size' \<le> MaxInt64" and "0 \<le> start" and "start \<le> MaxInt64" and "end' \<le> MaxInt64"
  shows "clampRange start end' size' =
    (if start \<ge> size' then None
     else if end' < 0 then Some (start, size' - start)
     else if end' < start then None
     else Some (start, min end' (size' - 1) - start + 1))"
proof -
  have "- MaxInt64 \<le> start" using assms(3) by (simp add: MaxInt64_def)
  from clampRange_cases [OF assms(1,2) this assms(4,5)] assms(3) show ?thesis by simp
qed

text \<open>
  What a header asks for, with numbers of any size: the bytes between two positions, from a position on, or
  the last ones; and the positions of an object of \<open>n\<close> bytes that this selects.
\<close>

datatype byte_want = Between int int | From int | Last int

definition range_text :: "string \<Rightarrow> string" where
  "range_text header =
     (let spec = trim_space (drop 6 header) in case index_byte spec CHR '','' of Some i \<Rightarrow> trim_space (take i spec) | None \<Rightarrow> spec)"

definition range_wanted :: "string \<Rightarrow> byte_want option" where
  "range_wanted spec =
     (case index_byte spec CHR ''-'' of
        None \<Rightarrow> None
      | Some dash \<Rightarrow>
          (let a = trim_space (take dash spec); b = trim_space (drop (dash + 1) spec) in
           if a = [] then (if digits b \<and> dec_value b > 0 then Some (Last (dec_value b)) else None)
           else if \<not> digits a then None
           else if b = [] then Some (From (dec_value a))
           else if digits b then Some (Between (dec_value a) (dec_value b)) else None))"

fun selected :: "byte_want \<Rightarrow> int \<Rightarrow> int set" where
  "selected (Between a b) n = {a..b} \<inter> {0..<n}"
| "selected (From a) n = {a..} \<inter> {0..<n}"
| "selected (Last k) n = {n - k..} \<inter> {0..<n}"

fun saturated :: "byte_want \<Rightarrow> int \<times> int" where
  "saturated (Between a b) = (min MaxInt64 a, min MaxInt64 b)"
| "saturated (From a) = (min MaxInt64 a, - 1)"
| "saturated (Last k) = (- min MaxInt64 k, 0)"

fun counts :: "byte_want \<Rightarrow> bool" where
  "counts (Between a b) \<longleftrightarrow> 0 \<le> a \<and> 0 \<le> b"
| "counts (From a) \<longleftrightarrow> 0 \<le> a"
| "counts (Last k) \<longleftrightarrow> 0 < k"

lemma range_wanted_counts: "range_wanted spec = Some w \<Longrightarrow> counts w"
  using dec_value_nonneg by (auto simp: range_wanted_def Let_def split: option.splits if_splits)

lemma parseRangeSpec_wanted:
  "case range_wanted spec of None \<Rightarrow> \<exists>e. parseRangeSpec spec = Inl e | Some w \<Rightarrow> parseRangeSpec spec = Inr (saturated w)"
proof (cases "index_byte spec CHR ''-''")
  case (Some dash)
  let ?a = "trim_space (take dash spec)" and ?b = "trim_space (drop (dash + 1) spec)"
  have neg: "i64 (- min MaxInt64 (dec_value x)) = - min MaxInt64 (dec_value x)" "\<not> min MaxInt64 (dec_value x) < 0"
    "min MaxInt64 (dec_value x) \<le> 0 \<longleftrightarrow> \<not> dec_value x > 0" for x
    using dec_value_nonneg [of x] by (auto simp: i64_id MaxInt64_def min_def)
  have empty: "\<not> digits []" by (simp add: digits_def)
  show ?thesis
  proof (cases "?a = []")
    case True
    with Some show ?thesis using neg by (auto simp: range_wanted_def parseRangeSpec_def Let_def parseRangeDecimal_digits)
  next
    case False
    with Some show ?thesis using neg empty by (auto simp: range_wanted_def parseRangeSpec_def Let_def parseRangeDecimal_digits)
  qed
qed (simp add: range_wanted_def parseRangeSpec_def)

lemma clampRange_selected:
  assumes "0 \<le> n" "n \<le> MaxInt64" "counts w"
  shows "case clampRange (fst (saturated w)) (snd (saturated w)) n of
      None \<Rightarrow> selected w n = {}
    | Some (offset, len) \<Rightarrow> 0 < len \<and> selected w n = {offset..<offset + len}"
proof -
  have max: "0 \<le> MaxInt64" by (simp add: MaxInt64_def)
  have "- MaxInt64 \<le> fst (saturated w)" "fst (saturated w) \<le> MaxInt64" "snd (saturated w) \<le> MaxInt64"
    using assms(3) max by (cases w; auto simp: min_def)+
  note clamp = clampRange_cases [OF assms(1,2) this]
  show ?thesis
  proof (cases w)
    case (Between a b)
    then show ?thesis unfolding clamp using assms max by (auto simp: min_def)
  next
    case (From a)
    then show ?thesis unfolding clamp using assms max by (auto simp: min_def)
  next
    case (Last k)
    then show ?thesis unfolding clamp using assms max by (auto simp: min_def)
  qed
qed

text \<open>
  C27. A range header is read exactly, whatever the size of its numbers: for an object size of an \<open>int64\<close>, the
  range reported as usable is the set of positions the first range of the header selects, computed without
  bounds on integers; a range that selects no byte is reported as unsatisfiable; anything that is not a
  range (and the suffix of length zero) is ignored; without a usable range offset and length are zero.  No
  wrap-around, and no loss by saturation, changes the result.
\<close>

theorem ParseByteRange_exact:
  assumes "size' \<le> MaxInt64"
  shows "case (if size' < 0 \<or> \<not> has_prefix header ''bytes='' then None else range_wanted (range_text header)) of
      None \<Rightarrow> ParseByteRange header size' = \<lparr>rg_offset = 0, rg_length = 0, rg_ok = False, rg_unsatisfiable = False\<rparr>
    | Some w \<Rightarrow>
        if selected w size' = {} then ParseByteRange header size' = \<lparr>rg_offset = 0, rg_length = 0, rg_ok = False, rg_unsatisfiable = True\<rparr>
        else (let g = ParseByteRange header size' in rg_ok g \<and> \<not> rg_unsatisfiable g \<and> 0 < rg_length g
           \<and> selected w size' = {rg_offset g..<rg_offset g + rg_length g})"
proof (cases "size' < 0 \<or> \<not> has_prefix header ''bytes=''")
  case True
  then show ?thesis by (auto simp: ParseByteRange_def Let_def)
next
  case False
  have parse: "ParseByteRange header size' =
      (case parseRangeSpec (range_text header) of
         Inl _ \<Rightarrow> \<lparr>rg_offset = 0, rg_length = 0, rg_ok = False, rg_unsatisfiable = False\<rparr>
       | Inr (start, end') \<Rightarrow> (case clampRange start end' size' of
           None \<Rightarrow> \<lparr>rg_offset = 0, rg_length = 0, rg_ok = False, rg_unsatisfiable = True\<rparr>
         | Some (offset, len) \<Rightarrow> \<lparr>rg_offset = offset, rg_length = len, rg_ok = True, rg_unsatisfiable = False\<rparr>))"
    using False by (simp add: ParseByteRange_def range_text_def Let_def split: sum.split prod.split option.split)
  note spec = parseRangeSpec_wanted [of "range_text header"]
  show ?thesis
  proof (cases "range_wanted (range_text header)")
    case None
    with spec False show ?thesis by (auto simp: parse)
  next
    case (Some w)
    with spec have p: "parseRangeSpec (range_text header) = Inr (fst (saturated w), snd (saturated w))" by simp
    have "0 \<le> size'" using False by simp
    note sel = clampRange_selected [OF this assms range_wanted_counts [OF Some]]
    show ?thesis
    proof (cases "clampRange (fst (saturated w)) (snd (saturated w)) size'")
      case None
      with sel have "selected w size' = {}" by simp
      with None Some False show ?thesis by (simp add: parse p split_beta)
    next
      case inside: (Some r)
      obtain offset len where r: "r = (offset, len)" by (cases r)
      with sel inside have "0 < len" "selected w size' = {offset..<offset + len}" by simp_all
      with inside Some False show ?thesis by (simp add: parse p r Let_def split_beta)
    qed
  qed
qed

section \<open>The bytes a range selects\<close>

lemma digits_visible: "digits s \<Longrightarrow> visible_ascii s"
  by (auto simp: digits_def visible_ascii_def list_all_iff)

lemma trim_space_visible: "visible_ascii s \<Longrightarrow> trim_space s = s"
  by (rule visible_ascii_text)

lemma digits_no: "digits s \<Longrightarrow> byte c < 48 \<Longrightarrow> c \<notin> set s"
  by (auto simp: digits_def list_all_iff)

lemma byte_punct [simp]: "byte CHR ''-'' = 45" "byte CHR '','' = 44"
  by (simp_all add: byte_def)

lemma visible_dash: "visible_ascii a \<Longrightarrow> visible_ascii b \<Longrightarrow> visible_ascii (a @ ''-'' @ b)"
  by (auto simp: visible_ascii_def)

definition digits_or_empty :: "string \<Rightarrow> bool" where
  "digits_or_empty s \<longleftrightarrow> s = [] \<or> digits s"

lemma ParseByteRange_dash:
  assumes "digits_or_empty a" and "digits_or_empty b" and "0 \<le> size'"
  shows "ParseByteRange (''bytes='' @ a @ ''-'' @ b) size' =
    (case parseRangeSpec (a @ ''-'' @ b) of
       Inl _ \<Rightarrow> \<lparr>rg_offset = 0, rg_length = 0, rg_ok = False, rg_unsatisfiable = False\<rparr>
     | Inr (start, end') \<Rightarrow>
         (case clampRange start end' size' of
            None \<Rightarrow> \<lparr>rg_offset = 0, rg_length = 0, rg_ok = False, rg_unsatisfiable = True\<rparr>
          | Some (offset, len) \<Rightarrow> \<lparr>rg_offset = offset, rg_length = len, rg_ok = True, rg_unsatisfiable = False\<rparr>))"
proof -
  have v: "visible_ascii (a @ ''-'' @ b)"
    using assms by (intro visible_dash) (auto simp: digits_or_empty_def digits_visible, simp_all add: visible_ascii_def)
  have c: "CHR '','' \<notin> set (a @ ''-'' @ b)"
    using assms digits_no [of a "CHR '',''"] digits_no [of b "CHR '',''"] by (auto simp: digits_or_empty_def)
  show ?thesis
    using assms(3) trim_space_visible [OF v] index_byte_notin [OF c] has_prefix_append [of "''bytes=''" "a @ ''-'' @ b"]
    by (simp add: ParseByteRange_def Let_def split: sum.splits option.splits prod.splits)
qed

lemma parseRangeSpec_dash:
  assumes "digits_or_empty a" and "digits_or_empty b"
  shows "parseRangeSpec (a @ ''-'' @ b) =
    (if a = [] then
       (if b = [] \<or> dec_value b = 0 then Inl (NewError ''invalid suffix range'')
        else Inr (- min MaxInt64 (dec_value b), 0))
     else if b = [] then Inr (min MaxInt64 (dec_value a), - 1)
     else Inr (min MaxInt64 (dec_value a), min MaxInt64 (dec_value b)))"
proof -
  have "CHR ''-'' \<notin> set a" using assms(1) digits_no [of a "CHR ''-''"] by (auto simp: digits_or_empty_def)
  then have i: "index_byte (a @ ''-'' @ b) CHR ''-'' = Some (length a)" by simp
  have t: "trim_space a = a" "trim_space b = b"
    using assms trim_space_visible digits_visible by (auto simp: digits_or_empty_def trim_space_def)
  have p: "parseRangeDecimal x = Inr (min MaxInt64 (dec_value x))" if "x \<noteq> []" "digits_or_empty x" for x
    using that by (simp add: parseRangeDecimal_digits digits_or_empty_def)
  have n: "i64 (- min MaxInt64 (dec_value x)) = - min MaxInt64 (dec_value x)" "0 \<le> min MaxInt64 (dec_value x)"
    "min MaxInt64 (dec_value x) \<le> 0 \<longleftrightarrow> dec_value x = 0" for x
    using dec_value_nonneg [of x] by (auto simp: i64_id MaxInt64_def min_def)
  have e: "parseRangeDecimal [] = Inl (NewError ''empty range number'')" by (simp add: parseRangeDecimal_def)
  show ?thesis
    unfolding parseRangeSpec_def i using assms n by (auto simp: Let_def t p e not_less [symmetric] split: sum.splits)
qed

lemma slice_inside:
  assumes "0 \<le> off" and "off \<le> int (length body)" and "0 \<le> len"
  shows "sliceReadCloser body off len = Inr (take (nat len) (drop (nat off) body))"
  using assms by (auto simp: sliceReadCloser_def Let_def)

lemma range_closed:
  assumes "digits a" and "digits b" and "int (length body) \<le> MaxInt64" and g: "g = ParseByteRange (''bytes='' @ a @ ''-'' @ b) (int (length body))"
  shows "if dec_value a < int (length body) \<and> dec_value a \<le> dec_value b
      then rg_ok g \<and> sliceReadCloser body (rg_offset g) (rg_length g) =
             Inr (take (nat (dec_value b - dec_value a + 1)) (drop (nat (dec_value a)) body))
      else rg_unsatisfiable g"
proof -
  let ?A = "min MaxInt64 (dec_value a)" and ?B = "min MaxInt64 (dec_value b)" and ?L = "int (length body)"
  have ne: "a \<noteq> []" "b \<noteq> []" and or: "digits_or_empty a" "digits_or_empty b"
    using assms(1,2) by (simp_all add: digits_def digits_or_empty_def)
  have nn: "0 \<le> dec_value a" "0 \<le> dec_value b" "0 \<le> ?A" "0 \<le> ?B"
    using dec_value_nonneg by (simp_all add: MaxInt64_def)
  have c: "clampRange ?A ?B ?L = (if ?A \<ge> ?L then None else if ?B < ?A then None else Some (?A, min ?B (?L - 1) - ?A + 1))"
  proof -
    have "\<not> ?B < 0" using nn(4) by linarith
    with clampRange_nonneg [OF _ assms(3) nn(3) min.cobounded1 min.cobounded1, of "dec_value b"] show ?thesis
      by (simp only: if_False of_nat_0_le_iff True_implies_equals)
  qed
  note P = ParseByteRange_dash [OF or, of ?L, unfolded parseRangeSpec_dash [OF or]]
  show ?thesis
  proof (cases "dec_value a < ?L \<and> dec_value a \<le> dec_value b")
    case True
    then have A: "?A = dec_value a" "\<not> ?A \<ge> ?L" "\<not> ?B < ?A" "0 \<le> min ?B (?L - 1) - dec_value a + 1" using assms(3) by auto
    then have "g = \<lparr>rg_offset = dec_value a, rg_length = min ?B (?L - 1) - dec_value a + 1, rg_ok = True, rg_unsatisfiable = False\<rparr>"
      using P ne c g by simp
    moreover have "take (nat (min ?B (?L - 1) - dec_value a + 1)) (drop (nat (dec_value a)) body) =
        take (nat (dec_value b - dec_value a + 1)) (drop (nat (dec_value a)) body)"
    proof (cases "dec_value b < ?L")
      case True
      then have "min ?B (?L - 1) = dec_value b" using assms(3) by simp
      then show ?thesis by simp
    next
      case False
      then have "nat (min ?B (?L - 1) - dec_value a + 1) = length (drop (nat (dec_value a)) body)"
        "length (drop (nat (dec_value a)) body) \<le> nat (dec_value b - dec_value a + 1)"
        using assms(3) True nn by auto
      then show ?thesis by simp
    qed
    ultimately show ?thesis using True slice_inside [of "dec_value a" body] nn A(4) by simp
  next
    case False
    then have "?A \<ge> ?L \<or> ?B < ?A" using assms(3) by auto
    then have "rg_unsatisfiable g" using P ne c g by auto
    then show ?thesis by (simp only: False if_False)
  qed
qed

lemma range_open:
  assumes "digits a" and "int (length body) \<le> MaxInt64" and g: "g = ParseByteRange (''bytes='' @ a @ ''-'') (int (length body))"
  shows "if dec_value a < int (length body)
      then rg_ok g \<and> sliceReadCloser body (rg_offset g) (rg_length g) = Inr (drop (nat (dec_value a)) body)
      else rg_unsatisfiable g"
proof -
  let ?A = "min MaxInt64 (dec_value a)" and ?L = "int (length body)"
  have ne: "a \<noteq> []" and or: "digits_or_empty a" "digits_or_empty []"
    using assms(1) by (simp_all add: digits_def digits_or_empty_def)
  have nn: "0 \<le> dec_value a" "0 \<le> ?A" using dec_value_nonneg by (simp_all add: MaxInt64_def)
  have c: "clampRange ?A (- 1) ?L = (if ?A \<ge> ?L then None else Some (?A, ?L - ?A))"
    using clampRange_nonneg [of ?L ?A "- 1"] assms(2) nn by (simp add: MaxInt64_def min_le_iff_disj)
  note P = ParseByteRange_dash [OF or, of ?L, unfolded parseRangeSpec_dash [OF or]]
  show ?thesis
  proof (cases "dec_value a < ?L")
    case True
    then have A: "?A = dec_value a" using assms(2) by simp
    then have "g = \<lparr>rg_offset = dec_value a, rg_length = ?L - dec_value a, rg_ok = True, rg_unsatisfiable = False\<rparr>"
      using P ne c g True by simp
    then show ?thesis using True slice_inside [of "dec_value a" body "?L - dec_value a"] nn by simp
  next
    case False
    then have "rg_unsatisfiable g" using P ne c g assms(2) by auto
    then show ?thesis by (simp only: False if_False)
  qed
qed

lemma range_suffix:
  assumes "digits b" and "int (length body) \<le> MaxInt64" and g: "g = ParseByteRange (''bytes=-'' @ b) (int (length body))"
  shows "if dec_value b = 0 then \<not> rg_ok g \<and> \<not> rg_unsatisfiable g
      else if body = [] then rg_unsatisfiable g
      else rg_ok g \<and> sliceReadCloser body (rg_offset g) (rg_length g) =
             Inr (drop (length body - nat (min (dec_value b) (int (length body)))) body)"
proof -
  let ?B = "min MaxInt64 (dec_value b)" and ?L = "int (length body)"
  have ne: "b \<noteq> []" and or: "digits_or_empty []" "digits_or_empty b"
    using assms(1) by (simp_all add: digits_def digits_or_empty_def)
  have nn: "0 \<le> dec_value b" using dec_value_nonneg .
  have c: "clampRange (- ?B) 0 ?L = (if ?L = 0 then None else Some (?L - min ?B ?L, min ?B ?L))" if "dec_value b \<noteq> 0"
  proof -
    have "- MaxInt64 \<le> - ?B" "- ?B \<le> MaxInt64" "- ?B < 0" "0 \<le> ?L" "0 \<le> MaxInt64"
      using nn that by (auto simp: MaxInt64_def min_def)
    from clampRange_cases [OF this(4) assms(2) this(1,2,5)] this(3) show ?thesis by (simp only: if_True minus_minus)
  qed
  note P = ParseByteRange_dash [OF or, of ?L, unfolded parseRangeSpec_dash [OF or]]
  show ?thesis
  proof (cases "dec_value b = 0 \<or> body = []")
    case True
    then show ?thesis using P ne c g by auto
  next
    case False
    have m: "min ?B ?L = min (dec_value b) ?L" using assms(2) by auto
    have "g = \<lparr>rg_offset = ?L - min (dec_value b) ?L, rg_length = min (dec_value b) ?L, rg_ok = True, rg_unsatisfiable = False\<rparr>"
      using P ne c g False m by simp
    moreover have "nat (?L - min (dec_value b) ?L) = length body - nat (min (dec_value b) ?L)" using nn by auto
    ultimately show ?thesis
      using False slice_inside [of "?L - min (dec_value b) ?L" body "min (dec_value b) ?L"] nn by auto
  qed
qed

text \<open>End to end, a range request delivers the bytes it names.  For an object body and digit strings a and b
  (of any size): bytes=a-b delivers the bytes from position a up to and including b, bytes=a- those
  from a on, bytes=-b the last b bytes; a range that selects no byte of the body is reported as
  unsatisfiable, except the suffix of length zero, which is ignored.\<close>

lemma byte_range_delivers:
  assumes "digits a" and "digits b" and "int (length body) \<le> MaxInt64"
  shows "(let g = ParseByteRange (''bytes='' @ a @ ''-'' @ b) (int (length body)) in
      if dec_value a < int (length body) \<and> dec_value a \<le> dec_value b
      then rg_ok g \<and> sliceReadCloser body (rg_offset g) (rg_length g) =
             Inr (take (nat (dec_value b - dec_value a + 1)) (drop (nat (dec_value a)) body))
      else rg_unsatisfiable g) \<and>
    (let g = ParseByteRange (''bytes='' @ a @ ''-'') (int (length body)) in
      if dec_value a < int (length body)
      then rg_ok g \<and> sliceReadCloser body (rg_offset g) (rg_length g) = Inr (drop (nat (dec_value a)) body)
      else rg_unsatisfiable g) \<and>
    (let g = ParseByteRange (''bytes=-'' @ b) (int (length body)) in
      if dec_value b = 0 then \<not> rg_ok g \<and> \<not> rg_unsatisfiable g
      else if body = [] then rg_unsatisfiable g
      else rg_ok g \<and> sliceReadCloser body (rg_offset g) (rg_length g) =
             Inr (drop (length body - nat (min (dec_value b) (int (length body)))) body))"
  unfolding Let_def
  using range_closed [OF assms refl] range_open [OF assms(1,3) refl] range_suffix [OF assms(2,3) refl] by blast

theorem ParseByteRange_exact_witness:
  "let g = ParseByteRange ''bytes=2-99999999999999999999'' 10 in rg_ok g \<and> {2..99999999999999999999} \<inter> {0..<10} = {rg_offset g..<rg_offset g + rg_length g}"
proof -
  let ?h = "''bytes=2-99999999999999999999''"
  have v: "visible_ascii ''2-99999999999999999999''" "visible_ascii ''2''" "visible_ascii ''99999999999999999999''" by (simp_all add: visible_ascii_def byte_def)
  have t: "has_prefix ?h ''bytes=''" "range_text ?h = ''2-99999999999999999999''"
    by (simp_all add: has_prefix_def range_text_def Let_def trim_space_visible [OF v(1)])
  have w: "range_wanted ''2-99999999999999999999'' = Some (Between 2 99999999999999999999)"
    by (simp add: range_wanted_def Let_def trim_space_visible [OF v(2)] trim_space_visible [OF v(3)] digits_def dec_value_def byte_def)
  have "2 \<in> selected (Between 2 99999999999999999999) 10" by simp
  then have "selected (Between 2 99999999999999999999) 10 \<noteq> {}" by blast
  with ParseByteRange_exact [of 10 ?h] show ?thesis by (simp add: t w Let_def MaxInt64_def)
qed

theorem byte_range_delivers_witness:
  "let g = ParseByteRange (''bytes='' @ ''1'' @ ''-'' @ ''3'') 5 in
     rg_ok g \<and> sliceReadCloser ''hello'' (rg_offset g) (rg_length g) = Inr ''ell''"
proof -
  have "digits ''1''" "digits ''3''" "dec_value ''1'' = 1" "dec_value ''3'' = 3"
    by (simp_all add: digits_def dec_value_def byte_def)
  with byte_range_delivers [of "''1''" "''3''" "''hello''"] show ?thesis
    by (simp add: Let_def MaxInt64_def)
qed

end
