(* ===== verification/Time_Text.thy ===== *)
theory Time_Text
  imports AV_Prelude
begin

text \<open>
  Instants survive the round trip through their RFC3339Nano text, and how the order of the texts
  relates to the order of the instants: the fraction loses its trailing zeros, so within one second
  the text order is not chronological; across seconds it is.
\<close>

type_synonym time_text = "int \<times> string"

lemma byte_digit: "q < 10 \<Longrightarrow> byte (char_of (48 + q)) = 48 + q"
  by (simp add: byte_def)

lemma byte_consts [simp]: "byte CHR ''0'' = 48" "byte CHR ''Z'' = 90" "byte CHR ''.'' = 46"
  by (simp_all add: byte_def)

lemma digit_not_Z: "(q :: nat) < 10 \<Longrightarrow> char_of (48 + q) \<noteq> CHR ''Z''"
  using byte_digit [of q] by auto

lemma digits_value_frac: "n < 10 ^ k \<Longrightarrow> digits_value k (frac_digits k n @ ''Z'') = n"
proof (induction k arbitrary: n)
  case (Suc k)
  have q: "n div 10 ^ k < 10" using Suc.prems by (simp add: less_mult_imp_div_less)
  have "n mod 10 ^ k < 10 ^ k" by simp
  from Suc.IH [OF this] q show ?case by (simp add: digit_not_Z byte_digit div_mult_mod_eq)
qed simp

lemma digits_value_zeros: "digits_value k (replicate m CHR ''0'' @ ''Z'') = 0"
  by (induction m arbitrary: k) (case_tac k; simp)+

lemma digits_value_strip: "digits_value k (s @ replicate m CHR ''0'' @ ''Z'') = digits_value k (s @ ''Z'')"
proof (induction s arbitrary: k)
  case Nil
  have "digits_value k ''Z'' = 0" by (cases k) simp_all
  then show ?case using digits_value_zeros [of k m] by simp
next
  case (Cons c s)
  then show ?case by (cases k) simp_all
qed

lemma takeWhile_const: "takeWhile (\<lambda>c. c = x) s = replicate (length (takeWhile (\<lambda>c. c = x) s)) x"
  by (induction s) auto

lemma strip_zeros_split: "\<exists>m. s = strip_zeros s @ replicate m CHR ''0''"
proof -
  let ?P = "\<lambda>c. c = CHR ''0''"
  have "rev s = takeWhile ?P (rev s) @ dropWhile ?P (rev s)" by simp
  then have "s = rev (dropWhile ?P (rev s)) @ rev (takeWhile ?P (rev s))" by (metis rev_append rev_rev_ident)
  also have "rev (takeWhile ?P (rev s)) = replicate (length (takeWhile ?P (rev s))) CHR ''0''"
    using takeWhile_const [of "CHR ''0''" "rev s"] by (metis rev_replicate)
  finally show ?thesis unfolding strip_zeros_def by blast
qed

lemma digits_value_frac_text:
  "n < 10 ^ 9 \<Longrightarrow> digits_value 9 (strip_zeros (frac_digits 9 n) @ ''Z'') = n"
proof -
  assume n: "n < 10 ^ 9"
  obtain m where "frac_digits 9 n = strip_zeros (frac_digits 9 n) @ replicate m CHR ''0''"
    using strip_zeros_split by blast
  then have "digits_value 9 (frac_digits 9 n @ ''Z'') = digits_value 9 (strip_zeros (frac_digits 9 n) @ replicate m CHR ''0'' @ ''Z'')"
    by (metis append.assoc)
  then show ?thesis using digits_value_frac [OF n] digits_value_strip by simp
qed

lemma parse_format_time [simp]: "parse_rfc3339nano (rfc3339nano t) = t"
proof -
  let ?n = "nat (t mod nanos_per_second)"
  have n: "?n < 10 ^ 9" and pos: "0 \<le> t mod nanos_per_second" by simp_all
  have "(case frac_text ?n of c # s \<Rightarrow> if c = CHR ''.'' then int (digits_value 9 s) else 0 | [] \<Rightarrow> 0) = t mod nanos_per_second"
    using digits_value_frac_text [OF n] pos by (auto simp: frac_text_def)
  then show ?thesis by (simp add: parse_rfc3339nano_def rfc3339nano_def)
qed

lemma rfc3339nano_inject [simp]: "rfc3339nano a = rfc3339nano b \<longleftrightarrow> a = b"
  by (metis parse_format_time)

lemma text_less_seconds: "rfc3339nano a < rfc3339nano b \<Longrightarrow> a div nanos_per_second \<le> b div nanos_per_second"
  by (auto simp: rfc3339nano_def less_prod_def)

lemma text_order_seconds: "a div nanos_per_second < b div nanos_per_second \<Longrightarrow> rfc3339nano a < rfc3339nano b"
  by (simp add: rfc3339nano_def less_prod_def)

lemma frac_digits_numeral:
  "frac_digits (numeral k) n = char_of (48 + n div 10 ^ pred_numeral k) # frac_digits (pred_numeral k) (n mod 10 ^ pred_numeral k)"
  by (simp add: numeral_eq_Suc)

text \<open>A text that is smaller but denotes a later instant: the fraction .15 against .1 of one second.\<close>

lemma text_order_not_chronological: "rfc3339nano 150000000 < rfc3339nano 100000000"
proof -
  have f: "frac_digits 9 150000000 = ''150000000''" "frac_digits 9 100000000 = ''100000000''"
    by (simp_all add: frac_digits_numeral char_of_def bit_0)
  show ?thesis
    by (simp add: rfc3339nano_def less_prod_def frac_text_def strip_zeros_def f less_char_def)
qed

end
