(* ===== verification/Job_Queue.thy ===== *)
theory Job_Queue
  imports SQL_Model Time_Text
begin

text \<open>
  The durable job table, \<^verbatim>\<open>internal/repository/jobs.go\<close>: enqueueing with deduplication, claiming, and the
  transitions a worker, an administrator and the reaper perform.  Instants are stored as the text the
  code formats; SQLite compares that text, PostgreSQL compares the instants (\<open>time_le\<close>).  The
  partial unique index on live deduplication keys is checked wherever a statement can make a row
  live.  Each operation takes the clock readings it makes.
\<close>

abbreviation (input) JobPending :: string where "JobPending \<equiv> ''pending''"
abbreviation (input) JobRunning :: string where "JobRunning \<equiv> ''running''"
abbreviation (input) JobSucceeded :: string where "JobSucceeded \<equiv> ''succeeded''"
abbreviation (input) JobFailed :: string where "JobFailed \<equiv> ''failed''"

record Job =
  jb_ID :: int
  jb_TenantID :: string
  jb_Type :: string
  jb_Payload :: string
  jb_Status :: string
  jb_Priority :: int
  jb_Attempts :: int
  jb_MaxAttempts :: int
  jb_RunAfter :: instant
  jb_LastError :: string
  jb_Worker :: string
  jb_Result :: string
  jb_DedupeKey :: string
  jb_CreatedAt :: instant
  jb_UpdatedAt :: instant
  jb_StartedAt :: instant
  jb_FinishedAt :: instant

record job_row =
  jr_id :: int
  jr_tenant_id :: string
  jr_type :: string
  jr_payload :: string
  jr_status :: string
  jr_priority :: int
  jr_attempts :: int
  jr_max_attempts :: int
  jr_run_after :: time_text
  jr_last_error :: string
  jr_worker :: string
  jr_result :: string
  jr_dedupe_key :: "string option"
  jr_created_at :: time_text
  jr_updated_at :: time_text
  jr_started_at :: "time_text option"
  jr_finished_at :: "time_text option"

record jobs_db =
  job_rows :: "job_row list"
  job_seq :: int

text \<open>\<open>a <= b\<close> on a time column.\<close>

definition time_le :: "sql_env \<Rightarrow> time_text \<Rightarrow> time_text \<Rightarrow> bool" where
  "time_le env a b =
     (case dialect_of env of dialectSQLite \<Rightarrow> a \<le> b | dialectPostgres \<Rightarrow> parse_rfc3339nano a \<le> parse_rfc3339nano b)"

definition time_of_null :: "time_text option \<Rightarrow> instant" where
  "time_of_null t = (case t of None \<Rightarrow> 0 | Some x \<Rightarrow> parse_rfc3339nano x)"

definition scanJob :: "job_row \<Rightarrow> Job" where
  "scanJob r =
     \<lparr>jb_ID = jr_id r, jb_TenantID = jr_tenant_id r, jb_Type = jr_type r, jb_Payload = jr_payload r, jb_Status = jr_status r,
      jb_Priority = jr_priority r, jb_Attempts = jr_attempts r, jb_MaxAttempts = jr_max_attempts r,
      jb_RunAfter = parse_rfc3339nano (jr_run_after r), jb_LastError = jr_last_error r, jb_Worker = jr_worker r,
      jb_Result = jr_result r, jb_DedupeKey = (case jr_dedupe_key r of None \<Rightarrow> [] | Some k \<Rightarrow> k),
      jb_CreatedAt = parse_rfc3339nano (jr_created_at r), jb_UpdatedAt = parse_rfc3339nano (jr_updated_at r),
      jb_StartedAt = time_of_null (jr_started_at r), jb_FinishedAt = time_of_null (jr_finished_at r)\<rparr>"

definition live :: "job_row \<Rightarrow> bool" where
  "live r \<longleftrightarrow> jr_status r = JobPending \<or> jr_status r = JobRunning"

text \<open>The unique index \<open>jobs_dedupe_idx\<close>: two live rows with one non-null key.\<close>

definition dedupe_clash :: "job_row \<Rightarrow> job_row \<Rightarrow> bool" where
  "dedupe_clash r r' \<longleftrightarrow> live r \<and> live r' \<and> jr_dedupe_key r \<noteq> None \<and> jr_dedupe_key r = jr_dedupe_key r' \<and> jr_id r \<noteq> jr_id r'"

section \<open>Enqueue\<close>

text \<open>
  \<open>EnqueueJob\<close> formats \<open>RunAfter\<close> in its own time zone.  No caller in the program sets it, so it is the
  current time in UTC; instants of the model are printed in UTC.
\<close>

definition normalize_job :: "instant \<Rightarrow> Job \<Rightarrow> Job" where
  "normalize_job now j =
     j\<lparr>jb_TenantID := defaultTenant (jb_TenantID j),
       jb_MaxAttempts := (if jb_MaxAttempts j \<le> 0 then 5 else jb_MaxAttempts j),
       jb_Payload := (if jb_Payload j = [] then ''{}'' else jb_Payload j),
       jb_RunAfter := (if jb_RunAfter j = 0 then now else jb_RunAfter j)\<rparr>"

definition new_job_row :: "instant \<Rightarrow> int \<Rightarrow> Job \<Rightarrow> job_row" where
  "new_job_row now id' j =
     \<lparr>jr_id = id', jr_tenant_id = jb_TenantID j, jr_type = jb_Type j, jr_payload = jb_Payload j, jr_status = JobPending,
      jr_priority = jb_Priority j, jr_attempts = 0, jr_max_attempts = jb_MaxAttempts j, jr_run_after = rfc3339nano (jb_RunAfter j),
      jr_last_error = [], jr_worker = [], jr_result = [],
      jr_dedupe_key = (if jb_DedupeKey j \<noteq> [] then Some (jb_DedupeKey j) else None),
      jr_created_at = rfc3339nano now, jr_updated_at = rfc3339nano now, jr_started_at = None, jr_finished_at = None\<rparr>"

definition insert_job :: "sql_env \<Rightarrow> instant \<Rightarrow> jobs_db \<Rightarrow> Job \<Rightarrow> (jobs_db \<times> int) res" where
  "insert_job env now db j =
     (let r = new_job_row now (job_seq db + 1) j in
      stmt env ''insert job''
        (if list_ex (dedupe_clash r) (job_rows db) then Inl (unique_violation env ''jobs_dedupe_idx'')
         else Inr (db\<lparr>job_rows := job_rows db @ [r], job_seq := job_seq db + 1\<rparr>, jr_id r)))"

definition EnqueueJob :: "sql_env \<Rightarrow> instant \<Rightarrow> jobs_db \<Rightarrow> Job \<Rightarrow> jobs_db \<times> int \<times> bool \<times> gerr option" where
  "EnqueueJob env now db j0 =
     (let j = normalize_job now j0 in
      case fault env ''begin'' of
        Some e \<Rightarrow> (db, 0, False, Some e)
      | None \<Rightarrow>
          (let existing =
             (if jb_DedupeKey j \<noteq> []
              then query_row env ''select live job''
                     (filter (\<lambda>r. jr_dedupe_key r = Some (jb_DedupeKey j) \<and> live r) (job_rows db))
              else Inl (Sentinel ErrNoRows)) in
           case existing of
             Inr r \<Rightarrow> (let (db', err) = tx_commit env db db in (db', jr_id r, True, err))
           | Inl e \<Rightarrow>
               if jb_DedupeKey j \<noteq> [] \<and> \<not> errors_is e ErrNoRows then (db, 0, False, Some e)
               else (case insert_job env now db j of
                       Inl e \<Rightarrow> (db, 0, False, Some e)
                     | Inr (db', id') \<Rightarrow> (let (db'', err) = tx_commit env db db' in (db'', id', False, err)))))"

section \<open>Claim\<close>

definition runnable :: "sql_env \<Rightarrow> time_text \<Rightarrow> job_row \<Rightarrow> bool" where
  "runnable env now r \<longleftrightarrow> jr_status r = JobPending \<and> time_le env (jr_run_after r) now"

text \<open>\<open>ORDER BY priority DESC, id ASC LIMIT 1\<close>.\<close>

definition next_job :: "sql_env \<Rightarrow> time_text \<Rightarrow> jobs_db \<Rightarrow> job_row list" where
  "next_job env now db =
     take 1 (sort_key (\<lambda>r. (- jr_priority r, jr_id r)) (filter (runnable env now) (job_rows db)))"

definition start_row :: "string \<Rightarrow> time_text \<Rightarrow> job_row \<Rightarrow> job_row" where
  "start_row worker now r =
     r\<lparr>jr_status := JobRunning, jr_attempts := jr_attempts r + 1, jr_worker := worker,
       jr_started_at := Some now, jr_updated_at := now\<rparr>"

definition update_rows :: "(job_row \<Rightarrow> bool) \<Rightarrow> (job_row \<Rightarrow> job_row) \<Rightarrow> jobs_db \<Rightarrow> jobs_db" where
  "update_rows P f db = db\<lparr>job_rows := map (\<lambda>r. if P r then f r else r) (job_rows db)\<rparr>"

text \<open>
  When the commit of the SQLite claim fails, the Go method returns the job and \<open>true\<close> beside the error; its
  caller looks at the error first, so the model returns the error alone.
\<close>

definition ClaimJob_postgres :: "sql_env \<Rightarrow> time_text \<Rightarrow> jobs_db \<Rightarrow> string \<Rightarrow> jobs_db \<times> (Job option) res" where
  "ClaimJob_postgres env now db worker =
     (case stmt env ''claim'' (Inr (next_job env now db)) of
        Inl e \<Rightarrow> if errors_is e ErrNoRows then (db, Inr None) else (db, Inl e)
      | Inr [] \<Rightarrow> (db, Inr None)
      | Inr (r # _) \<Rightarrow> (update_rows (\<lambda>x. jr_id x = jr_id r) (start_row worker now) db, Inr (Some (scanJob (start_row worker now r)))))"

definition ClaimJob_sqlite :: "sql_env \<Rightarrow> time_text \<Rightarrow> jobs_db \<Rightarrow> string \<Rightarrow> jobs_db \<times> (Job option) res" where
  "ClaimJob_sqlite env now db worker =
     (case fault env ''begin'' of
        Some e \<Rightarrow> (db, Inl e)
      | None \<Rightarrow>
          (case query_row env ''select claim'' (next_job env now db) of
             Inl e \<Rightarrow> if errors_is e ErrNoRows then (db, Inr None) else (db, Inl e)
           | Inr r \<Rightarrow>
               (let hit = (\<lambda>x. jr_id x = jr_id r \<and> jr_status x = JobPending);
                    db' = update_rows hit (start_row worker now) db in
                case fault env ''update claim'' of
                  Some e \<Rightarrow> (db, Inl e)
                | None \<Rightarrow>
                    if fault env ''claim rows affected'' \<noteq> None \<or> \<not> list_ex hit (job_rows db) then (db, Inr None)
                    else (case query_row env ''select claimed'' (filter (\<lambda>x. jr_id x = jr_id r) (job_rows db')) of
                            Inl e \<Rightarrow> (db, Inl e)
                          | Inr row \<Rightarrow>
                              (case tx_commit env db db' of
                                 (db'', None) \<Rightarrow> (db'', Inr (Some (scanJob row)))
                               | (db'', Some e) \<Rightarrow> (db'', Inl e))))))"

definition ClaimJob :: "sql_env \<Rightarrow> instant \<Rightarrow> jobs_db \<Rightarrow> string \<Rightarrow> jobs_db \<times> (Job option) res" where
  "ClaimJob env now db worker =
     (case dialect_of env of
        dialectPostgres \<Rightarrow> ClaimJob_postgres env (rfc3339nano now) db worker
      | dialectSQLite \<Rightarrow> ClaimJob_sqlite env (rfc3339nano now) db worker)"

section \<open>Completion, retry, failure\<close>

definition CompleteJob :: "sql_env \<Rightarrow> instant \<Rightarrow> jobs_db \<Rightarrow> int \<Rightarrow> string \<Rightarrow> jobs_db \<times> gerr option" where
  "CompleteJob env now db id' result =
     (let t = rfc3339nano now in
      case fault env ''complete'' of
        Some e \<Rightarrow> (db, Some e)
      | None \<Rightarrow> (update_rows (\<lambda>r. jr_id r = id' \<and> jr_status r = JobRunning)
                  (\<lambda>r. r\<lparr>jr_status := JobSucceeded, jr_result := result, jr_last_error := [], jr_finished_at := Some t, jr_updated_at := t\<rparr>) db, None))"

definition retry_row :: "string \<Rightarrow> time_text \<Rightarrow> time_text \<Rightarrow> job_row \<Rightarrow> job_row" where
  "retry_row lastErr runAfter now r =
     r\<lparr>jr_status := JobPending, jr_last_error := lastErr, jr_run_after := runAfter, jr_worker := [],
       jr_attempts := (if jr_status r = JobFailed then 0 else jr_attempts r),
       jr_started_at := None, jr_finished_at := None, jr_updated_at := now\<rparr>"

definition RetryJob :: "sql_env \<Rightarrow> instant \<Rightarrow> jobs_db \<Rightarrow> int \<Rightarrow> string \<Rightarrow> instant \<Rightarrow> jobs_db \<times> gerr option" where
  "RetryJob env now db id' lastErr runAfter =
     (let hit = (\<lambda>r. jr_id r = id' \<and> (jr_status r = JobRunning \<or> jr_status r = JobFailed));
          f = retry_row lastErr (rfc3339nano runAfter) (rfc3339nano now) in
      case fault env ''retry'' of
        Some e \<Rightarrow> (db, Some e)
      | None \<Rightarrow>
          if list_ex (\<lambda>r. hit r \<and> list_ex (dedupe_clash (f r)) (job_rows db)) (job_rows db)
          then (db, Some (unique_violation env ''jobs_dedupe_idx''))
          else (update_rows hit f db, None))"

definition FailJob :: "sql_env \<Rightarrow> instant \<Rightarrow> jobs_db \<Rightarrow> int \<Rightarrow> string \<Rightarrow> jobs_db \<times> gerr option" where
  "FailJob env now db id' lastErr =
     (let t = rfc3339nano now in
      case fault env ''fail'' of
        Some e \<Rightarrow> (db, Some e)
      | None \<Rightarrow> (update_rows (\<lambda>r. jr_id r = id' \<and> jr_status r = JobRunning)
                  (\<lambda>r. r\<lparr>jr_status := JobFailed, jr_last_error := lastErr, jr_finished_at := Some t, jr_updated_at := t\<rparr>) db, None))"

section \<open>Reaper\<close>

definition stuck :: "sql_env \<Rightarrow> time_text \<Rightarrow> job_row \<Rightarrow> bool" where
  "stuck env cutoff r \<longleftrightarrow>
     jr_status r = JobRunning \<and> (case jr_started_at r of None \<Rightarrow> False | Some t \<Rightarrow> time_le env t cutoff)"

definition ReapStuckJobs :: "sql_env \<Rightarrow> instant \<Rightarrow> instant \<Rightarrow> jobs_db \<Rightarrow> int \<Rightarrow> jobs_db \<times> int res" where
  "ReapStuckJobs env n1 n2 db maxAge =
     (let cutoff = rfc3339nano (n1 - maxAge); now = rfc3339nano n2;
          exhausted = (\<lambda>r. stuck env cutoff r \<and> jr_attempts r \<ge> jr_max_attempts r);
          again = (\<lambda>r. stuck env cutoff r \<and> jr_attempts r < jr_max_attempts r);
          db1 = update_rows exhausted
                  (\<lambda>r. r\<lparr>jr_status := JobFailed, jr_worker := [], jr_last_error := ''worker lease expired after maximum attempts'',
                         jr_finished_at := Some now, jr_updated_at := now\<rparr>) db;
          db2 = update_rows again (\<lambda>r. r\<lparr>jr_status := JobPending, jr_worker := [], jr_updated_at := now\<rparr>) db1 in
      case first_error [fault env ''begin'', fault env ''reap failed'', fault env ''reap pending''] of
        Some e \<Rightarrow> (db, Inl e)
      | None \<Rightarrow>
          (let requeued = (if fault env ''reap rows affected'' \<noteq> None then 0 else int (length (filter again (job_rows db1)))) in
           case tx_commit env db db2 of
             (db', None) \<Rightarrow> (db', Inr requeued)
           | (db', Some e) \<Rightarrow> (db', Inl e)))"

section \<open>Queries\<close>

definition CountJobsByStatus :: "sql_env \<Rightarrow> jobs_db \<Rightarrow> string \<Rightarrow> int res" where
  "CountJobsByStatus env db status =
     stmt env ''count'' (Inr (int (length (filter (\<lambda>r. jr_status r = status) (job_rows db)))))"

definition ListJobs :: "sql_env \<Rightarrow> jobs_db \<Rightarrow> string \<Rightarrow> string \<Rightarrow> int \<Rightarrow> Job list res" where
  "ListJobs env db status jobType lim0 =
     (let lim = (if lim0 \<le> 0 \<or> lim0 > 500 then 100 else lim0) in
      stmt env ''list jobs'' (Inr (map scanJob (limit_rows lim (sort_key (\<lambda>r. - jr_id r)
        (filter (\<lambda>r. (status = [] \<or> jr_status r = status) \<and> (jobType = [] \<or> jr_type r = jobType)) (job_rows db)))))))"

definition JobStats :: "sql_env \<Rightarrow> jobs_db \<Rightarrow> (string \<times> int) list res" where
  "JobStats env db =
     stmt env ''job stats'' (Inr (map (\<lambda>st. (st, int (length (filter (\<lambda>r. jr_status r = st) (job_rows db)))))
       (remdups (map jr_status (job_rows db)))))"

section \<open>The invariant of the table\<close>

definition row_ok :: "job_row \<Rightarrow> bool" where
  "row_ok r \<longleftrightarrow>
     jr_status r \<in> {JobPending, JobRunning, JobSucceeded, JobFailed} \<and> 0 \<le> jr_attempts r \<and> 1 \<le> jr_max_attempts r \<and>
     (jr_status r = JobPending \<longrightarrow> jr_worker r = []) \<and>
     (jr_status r = JobRunning \<longrightarrow> 1 \<le> jr_attempts r \<and> jr_started_at r \<noteq> None) \<and>
     (jr_status r = JobSucceeded \<or> jr_status r = JobFailed \<longrightarrow> jr_finished_at r \<noteq> None)"

definition jobs_inv :: "jobs_db \<Rightarrow> bool" where
  "jobs_inv db \<longleftrightarrow>
     distinct (map jr_id (job_rows db)) \<and> (\<forall>r \<in> set (job_rows db). jr_id r \<le> job_seq db \<and> row_ok r) \<and>
     (\<forall>r \<in> set (job_rows db). \<forall>r' \<in> set (job_rows db). \<not> dedupe_clash r r')"

lemma update_rows_seq [simp]: "job_seq (update_rows P f db) = job_seq db"
  by (simp add: update_rows_def)

lemma update_rows_set: "set (job_rows (update_rows P f db)) = (\<lambda>r. if P r then f r else r) ` set (job_rows db)"
  by (simp add: update_rows_def)

lemma update_rows_ids:
  "(\<And>r. jr_id (f r) = jr_id r) \<Longrightarrow> map jr_id (job_rows (update_rows P f db)) = map jr_id (job_rows db)"
  by (simp add: update_rows_def comp_def if_distrib cong: if_cong)

lemma map_rows_inv:
  assumes inv: "jobs_inv db"
    and g: "\<And>r. r \<in> set (job_rows db) \<Longrightarrow> jr_id (g r) = jr_id r \<and> row_ok (g r)"
    and clash: "\<And>r r'. r \<in> set (job_rows db) \<Longrightarrow> r' \<in> set (job_rows db) \<Longrightarrow> \<not> dedupe_clash (g r) (g r')"
  shows "jobs_inv (db\<lparr>job_rows := map g (job_rows db)\<rparr>)"
proof -
  have "map (jr_id \<circ> g) (job_rows db) = map jr_id (job_rows db)" using g by auto
  then have "distinct (map (jr_id \<circ> g) (job_rows db))" using inv by (metis jobs_inv_def)
  then show ?thesis using inv g clash by (simp add: jobs_inv_def)
qed

lemma update_rows_inv:
  assumes inv: "jobs_inv db" and id: "\<And>r. jr_id (f r) = jr_id r" and key: "\<And>r. jr_dedupe_key (f r) = jr_dedupe_key r"
    and lv: "\<And>r. P r \<Longrightarrow> live (f r) \<Longrightarrow> live r" and ok: "\<And>r. P r \<Longrightarrow> row_ok r \<Longrightarrow> row_ok (f r)"
  shows "jobs_inv (update_rows P f db)"
  unfolding update_rows_def
proof (rule map_rows_inv [OF inv])
  fix r r' assume r: "r \<in> set (job_rows db)" "r' \<in> set (job_rows db)"
  then have "\<not> dedupe_clash r r'" using inv by (simp add: jobs_inv_def)
  then show "\<not> dedupe_clash (if P r then f r else r) (if P r' then f r' else r')"
    using lv [of r] lv [of r'] by (auto simp: dedupe_clash_def id key)
qed (use inv ok in \<open>auto simp: jobs_inv_def id\<close>)

lemmas row_simps = row_ok_def live_def

lemma start_inv:
  assumes "jobs_inv db" and "\<And>r. P r \<Longrightarrow> r \<in> set (job_rows db) \<Longrightarrow> jr_status r = JobPending"
  shows "jobs_inv (update_rows P (start_row worker now) db)"
proof -
  have eq: "update_rows P (start_row worker now) db = update_rows (\<lambda>r. P r \<and> jr_status r = JobPending) (start_row worker now) db"
    using assms(2) by (simp add: update_rows_def)
  show ?thesis unfolding eq
    by (rule update_rows_inv [OF assms(1)]) (auto simp: start_row_def row_simps)
qed

lemma CompleteJob_inv: "jobs_inv db \<Longrightarrow> jobs_inv (fst (CompleteJob env now db id' result))"
  by (auto simp: CompleteJob_def Let_def row_simps split: option.splits intro!: update_rows_inv)

lemma FailJob_inv: "jobs_inv db \<Longrightarrow> jobs_inv (fst (FailJob env now db id' e))"
  by (auto simp: FailJob_def Let_def row_simps split: option.splits intro!: update_rows_inv)

lemma tx_commit_inv: "P a \<Longrightarrow> P b \<Longrightarrow> P (fst (tx_commit env a b))"
  using tx_commit_cases [of env a b] by (cases "tx_commit env a b") auto

lemma ReapStuckJobs_inv:
  assumes "jobs_inv db" shows "jobs_inv (fst (ReapStuckJobs env n1 n2 db maxAge))"
proof -
  let ?c = "rfc3339nano (n1 - maxAge)" and ?n = "rfc3339nano n2"
  let ?db1 = "update_rows (\<lambda>r. stuck env ?c r \<and> jr_attempts r \<ge> jr_max_attempts r)
     (\<lambda>r. r\<lparr>jr_status := JobFailed, jr_worker := [], jr_last_error := ''worker lease expired after maximum attempts'',
            jr_finished_at := Some ?n, jr_updated_at := ?n\<rparr>) db"
  let ?db2 = "update_rows (\<lambda>r. stuck env ?c r \<and> jr_attempts r < jr_max_attempts r)
     (\<lambda>r. r\<lparr>jr_status := JobPending, jr_worker := [], jr_updated_at := ?n\<rparr>) ?db1"
  have "jobs_inv ?db1" by (rule update_rows_inv [OF assms]) (auto simp: row_simps)
  then have "jobs_inv ?db2" by (rule update_rows_inv) (auto simp: row_simps stuck_def)
  with tx_commit_inv [of jobs_inv db ?db2 env] assms show ?thesis
    by (auto simp: ReapStuckJobs_def Let_def split: option.splits prod.splits)
qed

lemma unique_row:
  assumes "jobs_inv db" and "r \<in> set (job_rows db)" and "r' \<in> set (job_rows db)" and "jr_id r = jr_id r'"
  shows "r = r'"
  using assms by (auto simp: jobs_inv_def distinct_map inj_on_def)

lemma RetryJob_inv:
  assumes inv: "jobs_inv db" shows "jobs_inv (fst (RetryJob env now db id' e ra))"
proof -
  let ?hit = "\<lambda>r. jr_id r = id' \<and> (jr_status r = JobRunning \<or> jr_status r = JobFailed)"
  let ?f = "retry_row e (rfc3339nano ra) (rfc3339nano now)"
  let ?g = "\<lambda>r. if ?hit r then ?f r else r"
  have f: "jr_id (?f r) = jr_id r" "jr_dedupe_key (?f r) = jr_dedupe_key r" "live (?f r)" for r
    by (simp_all add: retry_row_def live_def)
  have ok: "row_ok r \<Longrightarrow> row_ok (?g r)" for r by (auto simp: row_ok_def retry_row_def)
  show ?thesis
  proof (cases "fault env ''retry'' = None \<and>
      \<not> list_ex (\<lambda>r. ?hit r \<and> list_ex (dedupe_clash (?f r)) (job_rows db)) (job_rows db)")
    case True
    have nc: "\<not> dedupe_clash (?g r) (?g r')" if r: "r \<in> set (job_rows db)" "r' \<in> set (job_rows db)" for r r'
    proof
      assume c: "dedupe_clash (?g r) (?g r')"
      then have ne: "jr_id r \<noteq> jr_id r'" by (auto simp: dedupe_clash_def f split: if_splits)
      consider "?hit r" "\<not> ?hit r'" | "\<not> ?hit r" "?hit r'" | "\<not> ?hit r" "\<not> ?hit r'" using ne by auto
      then show False
      proof cases
        case 1
        have "dedupe_clash (?f r) r'" using c unfolding if_P [OF 1(1)] if_not_P [OF 1(2)] .
        with 1 r True show False by (auto simp: list_ex_iff)
      next
        case 2
        have "dedupe_clash r (?f r')" using c unfolding if_P [OF 2(2)] if_not_P [OF 2(1)] .
        then have "dedupe_clash (?f r') r" by (auto simp: dedupe_clash_def)
        with 2 r True show False by (auto simp: list_ex_iff)
      next
        case 3
        have "dedupe_clash r r'" using c unfolding if_not_P [OF 3(1)] if_not_P [OF 3(2)] .
        with r inv show False by (auto simp: jobs_inv_def)
      qed
    qed
    have "jobs_inv (update_rows ?hit ?f db)"
      unfolding update_rows_def
    proof (rule map_rows_inv [OF inv])
      fix r assume "r \<in> set (job_rows db)"
      then have "row_ok r" using inv by (simp add: jobs_inv_def)
      then show "jr_id (?g r) = jr_id r \<and> row_ok (?g r)" using ok [of r] by (simp add: f)
    qed (rule nc)
    with True show ?thesis by (simp add: RetryJob_def Let_def)
  next
    case False
    then show ?thesis using inv by (auto simp: RetryJob_def Let_def split: option.splits)
  qed
qed

lemma insert_job_inv:
  assumes "jobs_inv db" and "insert_job env now db j = Inr (db', i)" and "1 \<le> jb_MaxAttempts j"
  shows "jobs_inv db'"
proof -
  let ?r = "new_job_row now (job_seq db + 1) j"
  have db': "db' = db\<lparr>job_rows := job_rows db @ [?r], job_seq := job_seq db + 1\<rparr>"
    and nc: "\<forall>r \<in> set (job_rows db). \<not> dedupe_clash ?r r"
    using assms(2) by (auto simp: insert_job_def Let_def stmt_Inr list_ex_iff split: if_splits)
  have nc': "\<forall>r \<in> set (job_rows db). \<not> dedupe_clash r ?r" using nc by (auto simp: dedupe_clash_def)
  have self: "\<not> dedupe_clash ?r ?r" by (simp add: dedupe_clash_def)
  have new: "jr_id ?r = job_seq db + 1" "row_ok ?r" using assms(3) by (simp_all add: new_job_row_def row_ok_def)
  have "jr_id ?r \<notin> jr_id ` set (job_rows db)" using assms(1) new by (auto simp: jobs_inv_def)
  moreover have "\<forall>r \<in> set (job_rows db). jr_id r \<le> job_seq db + 1 \<and> row_ok r"
    using assms(1) by (fastforce simp: jobs_inv_def)
  ultimately show ?thesis
    using assms(1) nc nc' self new(1,2) unfolding db' jobs_inv_def by simp
qed

lemma normalize_max: "1 \<le> jb_MaxAttempts (normalize_job now j)"
  by (simp add: normalize_job_def)

lemma EnqueueJob_inv:
  assumes "jobs_inv db" shows "jobs_inv (fst (EnqueueJob env now db j))"
proof -
  have "jobs_inv (fst (tx_commit env db db'))" if "insert_job env now db (normalize_job now j) = Inr (db', i)" for db' i
    by (rule tx_commit_inv [of jobs_inv]) (use assms insert_job_inv [OF assms that normalize_max] in simp_all)
  moreover have "jobs_inv (fst (tx_commit env db db))" by (rule tx_commit_inv [of jobs_inv]) (rule assms)+
  ultimately show ?thesis
    using assms by (auto simp: EnqueueJob_def Let_def split: option.splits sum.splits prod.splits if_splits)
qed

section \<open>Claims\<close>

lemma next_job_Cons:
  assumes "next_job env now db = r # rs"
  shows "r \<in> set (job_rows db) \<and> runnable env now r \<and>
    (\<forall>r' \<in> set (job_rows db). runnable env now r' \<longrightarrow> (- jr_priority r, jr_id r) \<le> (- jr_priority r', jr_id r'))"
proof -
  let ?k = "\<lambda>r. (- jr_priority r, jr_id r)" and ?xs = "filter (runnable env now) (job_rows db)"
  obtain ys where s: "sort_key ?k ?xs = r # ys"
    using assms by (cases "sort_key ?k ?xs") (auto simp: next_job_def)
  have "set (sort_key ?k ?xs) = set ?xs" by simp
  then have mem: "set ?xs = insert r (set ys)" using s by simp
  have "sorted (map ?k (r # ys))" using sorted_sort_key [of ?k ?xs] s by simp
  then have "\<forall>y \<in> set ys. ?k r \<le> ?k y" by auto
  with mem show ?thesis by (auto simp: set_eq_iff)
qed

lemma next_job_Nil: "next_job env now db = [] \<longleftrightarrow> (\<forall>r \<in> set (job_rows db). \<not> runnable env now r)"
proof -
  have "sort_key k xs = [] \<longleftrightarrow> xs = []" for k :: "job_row \<Rightarrow> int \<times> int" and xs
    by (metis length_0_conv length_sort)
  then have "next_job env now db = [] \<longleftrightarrow> filter (runnable env now) (job_rows db) = []"
    by (simp add: next_job_def)
  then show ?thesis by (simp add: filter_empty_conv)
qed

lemma start_row_simps [simp]: "jr_id (start_row w t r) = jr_id r" "jr_status (start_row w t r) = JobRunning"
  by (simp_all add: start_row_def)

lemma ClaimJob_Some:
  assumes "jobs_inv db" and "ClaimJob env now db worker = (db', Inr (Some j))"
  shows "\<exists>r \<in> set (job_rows db). next_job env (rfc3339nano now) db = [r] \<and> j = scanJob (start_row worker (rfc3339nano now) r) \<and>
    db' = update_rows (\<lambda>x. jr_id x = jr_id r) (start_row worker (rfc3339nano now)) db"
proof (cases "dialect_of env")
  case dialectPostgres
  with assms(2) obtain r rs where "next_job env (rfc3339nano now) db = r # rs" "j = scanJob (start_row worker (rfc3339nano now) r)"
    "db' = update_rows (\<lambda>x. jr_id x = jr_id r) (start_row worker (rfc3339nano now)) db"
    by (auto simp: ClaimJob_def ClaimJob_postgres_def stmt_def split: option.splits list.splits if_splits)
  moreover from this have "rs = []" by (cases "sort_key (\<lambda>r. (- jr_priority r, jr_id r)) (filter (runnable env (rfc3339nano now)) (job_rows db))") (auto simp: next_job_def)
  ultimately show ?thesis using next_job_Cons by blast
next
  case dialectSQLite
  let ?t = "rfc3339nano now"
  from dialectSQLite assms(2) obtain r where q: "query_row env ''select claim'' (next_job env ?t db) = Inr r"
    by (auto simp: ClaimJob_def ClaimJob_sqlite_def split: option.splits sum.splits if_splits)
  then obtain rs where n: "next_job env ?t db = r # rs" by (auto simp: query_row_Inr)
  then have rs: "rs = []" by (cases "sort_key (\<lambda>r. (- jr_priority r, jr_id r)) (filter (runnable env ?t) (job_rows db))") (auto simp: next_job_def)
  note r = next_job_Cons [OF n]
  let ?hit = "\<lambda>x. jr_id x = jr_id r \<and> jr_status x = JobPending"
  have hit: "(\<lambda>x. jr_id x = jr_id r) x = ?hit x" if "x \<in> set (job_rows db)" for x
    using unique_row [OF assms(1) that, of r] r by (auto simp: runnable_def)
  then have eq: "update_rows ?hit (start_row worker ?t) db = update_rows (\<lambda>x. jr_id x = jr_id r) (start_row worker ?t) db"
    by (simp add: update_rows_def)
  have filt: "x = start_row worker ?t r"
    if "x \<in> set (job_rows (update_rows ?hit (start_row worker ?t) db))" and "jr_id x = jr_id r" for x
  proof -
    from that(1) obtain y where y: "y \<in> set (job_rows db)" "x = (if jr_id y = jr_id r then start_row worker ?t y else y)"
      unfolding eq update_rows_set by auto
    with that(2) have "jr_id y = jr_id r" by (auto split: if_splits)
    with y unique_row [OF assms(1) y(1), of r] r show ?thesis by simp
  qed
  from dialectSQLite assms(2) q obtain row where
    "query_row env ''select claimed'' (filter (\<lambda>x. jr_id x = jr_id r) (job_rows (update_rows ?hit (start_row worker ?t) db))) = Inr row"
    "tx_commit env db (update_rows ?hit (start_row worker ?t) db) = (db', None)" "j = scanJob row"
    by (auto simp: ClaimJob_def ClaimJob_sqlite_def Let_def split: option.splits sum.splits if_splits prod.splits)
  with filt [of row] have "row = start_row worker ?t r" "db' = update_rows ?hit (start_row worker ?t) db"
    by (auto simp: query_row_Inr filter_eq_Cons_iff dest: tx_commit_ok)
  with \<open>j = scanJob row\<close> n r rs eq show ?thesis by auto
qed

lemma ClaimJob_inv:
  assumes inv: "jobs_inv db" shows "jobs_inv (fst (ClaimJob env now db worker))"
proof -
  let ?t = "rfc3339nano now"
  have "jobs_inv (update_rows (\<lambda>x. jr_id x = jr_id r) (start_row worker ?t) db)"
    "jobs_inv (fst (tx_commit env db (update_rows (\<lambda>x. jr_id x = jr_id r \<and> jr_status x = JobPending) (start_row worker ?t) db)))"
    if "next_job env ?t db = r # rs" for r rs
  proof -
    note r = next_job_Cons [OF that]
    show "jobs_inv (update_rows (\<lambda>x. jr_id x = jr_id r) (start_row worker ?t) db)"
      by (rule start_inv [OF inv]) (use r unique_row [OF inv, of _ r] in \<open>auto simp: runnable_def\<close>)
    show "jobs_inv (fst (tx_commit env db (update_rows (\<lambda>x. jr_id x = jr_id r \<and> jr_status x = JobPending) (start_row worker ?t) db)))"
      by (rule tx_commit_inv [of jobs_inv, OF inv], rule start_inv [OF inv]) simp
  qed
  then show ?thesis
    using inv
    by (fastforce simp: ClaimJob_def ClaimJob_postgres_def ClaimJob_sqlite_def Let_def stmt_def query_row_Inr
        split: dialect.splits option.splits sum.splits list.splits prod.splits if_splits)
qed

section \<open>Properties of the table\<close>

text \<open>Every database the operations can produce, whatever the drivers fail and however the calls interleave.\<close>

inductive jobs_reach :: "jobs_db \<Rightarrow> bool" where
  jobs_empty: "jobs_reach \<lparr>job_rows = [], job_seq = 0\<rparr>"
| jobs_enqueue: "jobs_reach db \<Longrightarrow> jobs_reach (fst (EnqueueJob env now db j))"
| jobs_claim: "jobs_reach db \<Longrightarrow> jobs_reach (fst (ClaimJob env now db worker))"
| jobs_complete: "jobs_reach db \<Longrightarrow> jobs_reach (fst (CompleteJob env now db id' result))"
| jobs_retry: "jobs_reach db \<Longrightarrow> jobs_reach (fst (RetryJob env now db id' e runAfter))"
| jobs_fail: "jobs_reach db \<Longrightarrow> jobs_reach (fst (FailJob env now db id' e))"
| jobs_reap: "jobs_reach db \<Longrightarrow> jobs_reach (fst (ReapStuckJobs env n1 n2 db maxAge))"

lemma jobs_reach_inv: "jobs_reach db \<Longrightarrow> jobs_inv db"
proof (induction rule: jobs_reach.induct)
  case jobs_empty
  show ?case by (simp add: jobs_inv_def)
qed (simp_all add: EnqueueJob_inv ClaimJob_inv CompleteJob_inv RetryJob_inv FailJob_inv ReapStuckJobs_inv)

text \<open>C28. In every reachable job table ids are unique, at most one pending or running job carries a given
  deduplication key, and every row is consistent with its status: a pending job has no worker, a
  running job has been started at least once, a finished job has a finishing time.\<close>

theorem job_table_invariant:
  assumes "jobs_reach db" and "r \<in> set (job_rows db)"
  shows "(\<forall>r' \<in> set (job_rows db). jr_id r' = jr_id r \<longrightarrow> r' = r) \<and>
    (\<forall>r' \<in> set (job_rows db). live r \<and> live r' \<and> jr_dedupe_key r \<noteq> None \<and> jr_dedupe_key r' = jr_dedupe_key r \<longrightarrow> r' = r) \<and>
    (jr_status r = JobPending \<and> jr_worker r = [] \<or>
     jr_status r = JobRunning \<and> 1 \<le> jr_attempts r \<and> jr_started_at r \<noteq> None \<or>
     (jr_status r = JobSucceeded \<or> jr_status r = JobFailed) \<and> jr_finished_at r \<noteq> None)"
proof -
  note inv = jobs_reach_inv [OF assms(1)]
  have "row_ok r" using inv assms(2) by (simp add: jobs_inv_def)
  then have ok: "jr_status r = JobPending \<and> jr_worker r = [] \<or> jr_status r = JobRunning \<and> 1 \<le> jr_attempts r \<and> jr_started_at r \<noteq> None \<or>
     (jr_status r = JobSucceeded \<or> jr_status r = JobFailed) \<and> jr_finished_at r \<noteq> None"
    by (auto simp: row_ok_def)
  have key: "r' = r" if "r' \<in> set (job_rows db)" "live r" "live r'" "jr_dedupe_key r \<noteq> None" "jr_dedupe_key r' = jr_dedupe_key r" for r'
  proof (rule unique_row [OF inv that(1) assms(2)])
    have "\<not> dedupe_clash r' r" using inv that(1) assms(2) by (simp add: jobs_inv_def)
    with that show "jr_id r' = jr_id r" by (auto simp: dedupe_clash_def)
  qed
  show ?thesis using ok key unique_row [OF inv _ assms(2)] by blast
qed

text \<open>A successful claim hands out the runnable pending job of highest priority and, among those, lowest id; it
  is marked running for that worker with one more attempt and no other job changes, and the next
  claim, by whichever worker, cannot return the same job.\<close>

lemma ClaimJob_exclusive:
  assumes "jobs_reach db" and "ClaimJob env now db worker = (db', Inr (Some j))"
  shows "\<exists>r \<in> set (job_rows db). runnable env (rfc3339nano now) r \<and>
    (\<forall>r' \<in> set (job_rows db). runnable env (rfc3339nano now) r' \<longrightarrow>
       jr_priority r' < jr_priority r \<or> jr_priority r' = jr_priority r \<and> jr_id r \<le> jr_id r') \<and>
    j = scanJob (r\<lparr>jr_status := JobRunning, jr_attempts := jr_attempts r + 1, jr_worker := worker,
                   jr_started_at := Some (rfc3339nano now), jr_updated_at := rfc3339nano now\<rparr>) \<and>
    (\<forall>r' \<in> set (job_rows db). r' \<noteq> r \<longrightarrow> r' \<in> set (job_rows db')) \<and>
    (\<forall>env2 now2 worker2 db2 j2. ClaimJob env2 now2 db' worker2 = (db2, Inr (Some j2)) \<longrightarrow> jb_ID j2 \<noteq> jb_ID j)"
proof -
  note inv = jobs_reach_inv [OF assms(1)]
  let ?t = "rfc3339nano now"
  obtain r where r: "r \<in> set (job_rows db)" "next_job env ?t db = [r]" "j = scanJob (start_row worker ?t r)"
    "db' = update_rows (\<lambda>x. jr_id x = jr_id r) (start_row worker ?t) db"
    using ClaimJob_Some [OF inv assms(2)] by blast
  have inv': "jobs_inv db'" using ClaimJob_inv [OF inv, of env now worker] assms(2) by simp
  have other: "r' \<in> set (job_rows db')" if "r' \<in> set (job_rows db)" "r' \<noteq> r" for r'
  proof -
    have "jr_id r' \<noteq> jr_id r" using unique_row [OF inv that(1) r(1)] that(2) by blast
    with that(1) show ?thesis unfolding r(4) update_rows_set by force
  qed
  have "jb_ID j2 \<noteq> jb_ID j" if c2: "ClaimJob env2 now2 db' worker2 = (db2, Inr (Some j2))" for env2 now2 worker2 db2 j2
  proof -
    obtain q where q: "q \<in> set (job_rows db')" "next_job env2 (rfc3339nano now2) db' = [q]"
      "j2 = scanJob (start_row worker2 (rfc3339nano now2) q)"
      using ClaimJob_Some [OF inv' c2] by blast
    then have "jr_status q = JobPending" using next_job_Cons [OF q(2)] by (simp add: runnable_def)
    moreover have "start_row worker ?t r \<in> set (job_rows db')" unfolding r(4) update_rows_set using r(1) by force
    ultimately have "jr_id q \<noteq> jr_id r" using unique_row [OF inv' q(1), of "start_row worker ?t r"] by auto
    then show ?thesis by (simp add: q(3) r(3) scanJob_def)
  qed
  with r next_job_Cons [OF r(2)] other show ?thesis
    by (intro bexI [OF _ r(1)]) (auto simp: start_row_def less_eq_prod_def)
qed

end
