(* ===== verification/Job_Pool.thy ===== *)
theory Job_Pool
  imports Job_Queue
begin

text \<open>
  The worker side of the job queue, \<^verbatim>\<open>internal/jobs/jobs.go\<close>: the handler registry, the depth-capped
  enqueue, one worker round, the reaper and the retry backoff.  A handler is a function of the job;
  it returns an error (nil is \<open>None\<close>) or panics.  \<open>rand.Int63n(n)\<close> is an arbitrary number reduced
  modulo \<open>n\<close>.  The text of an error (\<open>err.Error()\<close>) is a parameter.
\<close>

datatype handler_outcome = Returned "gerr option" | Panicked string

type_synonym Handler = "Job \<Rightarrow> handler_outcome"

type_synonym Registry = "string \<rightharpoonup> Handler"

definition NewRegistry :: Registry where
  "NewRegistry = Map.empty"

definition Register :: "Registry \<Rightarrow> string \<Rightarrow> Handler \<Rightarrow> Registry" where
  "Register r jobType h = r(jobType \<mapsto> h)"

definition lookup_handler :: "Registry \<Rightarrow> string \<Rightarrow> Handler option" where
  "lookup_handler r jobType = r jobType"

section \<open>Enqueue with a depth cap\<close>

record Queue =
  qu_maxDepth :: int

definition NewQueue :: Queue where
  "NewQueue = \<lparr>qu_maxDepth = 0\<rparr>"

definition WithMaxDepth :: "Queue \<Rightarrow> int \<Rightarrow> Queue" where
  "WithMaxDepth q n = q\<lparr>qu_maxDepth := n\<rparr>"

definition Enqueue :: "Queue \<Rightarrow> sql_env \<Rightarrow> instant \<Rightarrow> jobs_db \<Rightarrow> Job \<Rightarrow> jobs_db \<times> int \<times> bool \<times> gerr option" where
  "Enqueue q env now db j =
     (if qu_maxDepth q > 0 then
        (case CountJobsByStatus env db JobPending of
           Inl e \<Rightarrow> (db, 0, False, Some (Errorf ''count pending jobs'' [e]))
         | Inr n \<Rightarrow> if n \<ge> qu_maxDepth q then (db, 0, False, Some (Sentinel ErrQueueFull)) else EnqueueJob env now db j)
      else EnqueueJob env now db j)"

section \<open>The pool\<close>

record Pool =
  pl_reg :: Registry
  pl_workers :: int
  pl_pollEvery :: int
  pl_baseBackoff :: int
  pl_maxBackoff :: int
  pl_reapEvery :: int
  pl_reapAfter :: int

definition NewPool :: "Registry \<Rightarrow> int \<Rightarrow> Pool" where
  "NewPool reg workers =
     \<lparr>pl_reg = reg, pl_workers = (if workers \<le> 0 then 4 else workers), pl_pollEvery = nanos_per_second,
      pl_baseBackoff = nanos_per_second, pl_maxBackoff = 5 * 60 * nanos_per_second, pl_reapEvery = 60 * nanos_per_second,
      pl_reapAfter = 10 * 60 * nanos_per_second\<rparr>"

definition execute :: "Handler \<Rightarrow> Job \<Rightarrow> gerr option" where
  "execute h job = (case h job of Returned err \<Rightarrow> err | Panicked p \<Rightarrow> Some (NewError (''panic: '' @ p)))"

text \<open>The loop of \<open>backoff\<close>: \<open>k\<close> more doublings, each only below the maximum.\<close>

fun backoff_loop :: "Pool \<Rightarrow> nat \<Rightarrow> int \<Rightarrow> int" where
  "backoff_loop p 0 d = d"
| "backoff_loop p (Suc k) d = (if d < pl_maxBackoff p then backoff_loop p k (d * 2) else d)"

definition int63n :: "int \<Rightarrow> int \<Rightarrow> int" where
  "int63n rnd n = rnd mod n"

definition backoff :: "Pool \<Rightarrow> int \<Rightarrow> int \<Rightarrow> int" where
  "backoff p rnd attempt0 =
     (let attempt = (if attempt0 < 1 then 1 else attempt0);
          d0 = backoff_loop p (nat (attempt - 1)) (pl_baseBackoff p);
          d = (if d0 > pl_maxBackoff p then pl_maxBackoff p else d0);
          jitter = int63n rnd (d div 2 + 1) - d div 4 in
      d + jitter)"

text \<open>
  The two halves of \<open>runOne\<close>: the claim, and what happens to a claimed job once its handler has run.
  Other workers may use the table in between.
\<close>

definition settle ::
  "Pool \<Rightarrow> (gerr \<Rightarrow> string) \<Rightarrow> sql_env \<Rightarrow> instant \<Rightarrow> instant \<Rightarrow> int \<Rightarrow> jobs_db \<Rightarrow> Job \<Rightarrow> jobs_db" where
  "settle p err_text env now n2 rnd db job =
     (case lookup_handler (pl_reg p) (jb_Type job) of
        None \<Rightarrow> fst (FailJob env now db (jb_ID job) (''no handler registered for type '' @ jb_Type job))
      | Some h \<Rightarrow>
          (case execute h job of
             None \<Rightarrow> fst (CompleteJob env now db (jb_ID job) [])
           | Some runErr \<Rightarrow>
               if jb_Attempts job \<ge> jb_MaxAttempts job then fst (FailJob env now db (jb_ID job) (err_text runErr))
               else fst (RetryJob env now db (jb_ID job) (err_text runErr) (n2 + backoff p rnd (jb_Attempts job)))))"

definition runOne ::
  "Pool \<Rightarrow> (gerr \<Rightarrow> string) \<Rightarrow> sql_env \<Rightarrow> instant \<Rightarrow> instant \<Rightarrow> instant \<Rightarrow> int \<Rightarrow> jobs_db \<Rightarrow> string \<Rightarrow> jobs_db \<times> bool \<times> gerr option" where
  "runOne p err_text env n0 now n2 rnd db worker =
     (case ClaimJob env n0 db worker of
        (db', Inl e) \<Rightarrow> (db', False, Some e)
      | (db', Inr None) \<Rightarrow> (db', False, None)
      | (db', Inr (Some job)) \<Rightarrow> (settle p err_text env now n2 rnd db' job, True, None))"

text \<open>One tick of the reaper; an error is only logged.\<close>

definition reaper_tick :: "Pool \<Rightarrow> sql_env \<Rightarrow> instant \<Rightarrow> instant \<Rightarrow> jobs_db \<Rightarrow> jobs_db" where
  "reaper_tick p env n1 n2 db = fst (ReapStuckJobs env n1 n2 db (pl_reapAfter p))"

section \<open>Backoff\<close>

lemma backoff_loop_spec:
  assumes "0 < d" and "0 < pl_maxBackoff p"
  shows "min (pl_maxBackoff p) (backoff_loop p k d) = min (pl_maxBackoff p) (d * 2 ^ k)"
  using assms(1)
proof (induction k arbitrary: d)
  case (Suc k)
  show ?case
  proof (cases "d < pl_maxBackoff p")
    case True
    with Suc.IH [of "d * 2"] Suc.prems show ?thesis by (simp add: mult.assoc)
  next
    case False
    have "1 \<le> (2 :: int) ^ Suc k" by (rule one_le_power) simp
    then have "d * 1 \<le> d * 2 ^ Suc k" using Suc.prems by (intro mult_left_mono) simp_all
    with False show ?thesis by simp
  qed
qed simp

lemma jitter_bounds:
  fixes d rnd :: int
  assumes "0 < d" shows "0 \<le> rnd mod (d div 2 + 1)" "rnd mod (d div 2 + 1) \<le> d div 2"
proof -
  have "0 < d div 2 + 1" using assms by simp
  then show "0 \<le> rnd mod (d div 2 + 1)" "rnd mod (d div 2 + 1) \<le> d div 2"
    using pos_mod_bound [of "d div 2 + 1" rnd] pos_mod_sign [of "d div 2 + 1" rnd] by simp_all
qed

text \<open>The retry delay is exponential with a quarter of jitter either way: with d the base delay doubled once
  per earlier attempt and cut at the maximum, the delay lies between d - d/4 and d + d/4 (up to
  rounding).  The jitter is added after the cut, so a delay can exceed the configured maximum by a
  quarter.\<close>

lemma backoff_bounds:
  assumes "0 < pl_baseBackoff p" and "0 < pl_maxBackoff p"
  shows "let d = min (pl_maxBackoff p) (pl_baseBackoff p * 2 ^ nat (max 1 attempt - 1)) in
    d - d div 4 \<le> backoff p rnd attempt \<and> backoff p rnd attempt \<le> d - d div 4 + d div 2"
proof -
  let ?d = "min (pl_maxBackoff p) (pl_baseBackoff p * 2 ^ nat (max 1 attempt - 1))"
  have pos: "0 < ?d" using assms by simp
  have d: "(if backoff_loop p k (pl_baseBackoff p) > pl_maxBackoff p then pl_maxBackoff p else backoff_loop p k (pl_baseBackoff p)) =
        min (pl_maxBackoff p) (pl_baseBackoff p * 2 ^ k)" for k
  proof -
    have "(if x > m then m else x) = min m x" for x m :: int by (simp add: min_def)
    then show ?thesis using backoff_loop_spec [OF assms, of k] by simp
  qed
  have a: "(if attempt < 1 then 1 else attempt) = max 1 attempt" by simp
  have b: "backoff p rnd attempt = ?d + (rnd mod (?d div 2 + 1) - ?d div 4)"
    unfolding backoff_def Let_def a d int63n_def ..
  show ?thesis unfolding Let_def b using jitter_bounds [OF pos, of rnd] by linarith
qed

section \<open>Workers exclude each other and respect the attempt budget\<close>

text \<open>
  The states of a pool: the table, the jobs its workers currently hold, and the jobs that were requeued
  while they ran.  \<open>pool_crash\<close> drops a held job without settling it.  The reaper requeues whatever has run
  longer than \<open>reapAfter\<close>, also a job whose handler is only slow, and the administrator may retry a job
  that is running; \<open>lost\<close> records the first kind when a live worker holds the job and the second always.
\<close>

definition reaped_held :: "Pool \<Rightarrow> sql_env \<Rightarrow> instant \<Rightarrow> jobs_db \<Rightarrow> Job list \<Rightarrow> int set" where
  "reaped_held p env n1 db held =
     jr_id ` {r \<in> set (job_rows db). stuck env (rfc3339nano (n1 - pl_reapAfter p)) r} \<inter> jb_ID ` set held"

definition retried_running :: "jobs_db \<Rightarrow> int \<Rightarrow> int set" where
  "retried_running db i = jr_id ` {r \<in> set (job_rows db). jr_id r = i \<and> jr_status r = JobRunning}"

inductive pool_reach :: "Pool \<Rightarrow> (gerr \<Rightarrow> string) \<Rightarrow> jobs_db \<Rightarrow> Job list \<Rightarrow> int set \<Rightarrow> bool" for p err_text where
  pool_new: "pool_reach p err_text \<lparr>job_rows = [], job_seq = 0\<rparr> [] {}"
| pool_enqueue: "pool_reach p err_text db held lost \<Longrightarrow> pool_reach p err_text (fst (Enqueue q env now db j)) held lost"
| pool_claim: "pool_reach p err_text db held lost \<Longrightarrow> ClaimJob env n0 db worker = (db', Inr (Some job)) \<Longrightarrow>
    pool_reach p err_text db' (job # held) lost"
| pool_idle: "pool_reach p err_text db held lost \<Longrightarrow> ClaimJob env n0 db worker = (db', Inr None) \<or> ClaimJob env n0 db worker = (db', Inl e) \<Longrightarrow>
    pool_reach p err_text db' held lost"
| pool_settle: "pool_reach p err_text db held lost \<Longrightarrow> job \<in> set held \<Longrightarrow>
    pool_reach p err_text (settle p err_text env now n2 rnd db job) (remove1 job held) lost"
| pool_crash: "pool_reach p err_text db held lost \<Longrightarrow> job \<in> set held \<Longrightarrow> pool_reach p err_text db (remove1 job held) lost"
| pool_reap: "pool_reach p err_text db held lost \<Longrightarrow>
    pool_reach p err_text (reaper_tick p env n1 n2 db) held (lost \<union> reaped_held p env n1 db held)"
| pool_admin: "pool_reach p err_text db held lost \<Longrightarrow>
    pool_reach p err_text (fst (RetryJob env now db i e runAfter)) held (lost \<union> retried_running db i)"

definition fair :: "job_row \<Rightarrow> bool" where
  "fair r \<longleftrightarrow> jr_attempts r \<le> jr_max_attempts r \<and> (jr_status r = JobPending \<longrightarrow> jr_attempts r < jr_max_attempts r)"

definition budget :: "int set \<Rightarrow> jobs_db \<Rightarrow> bool" where
  "budget lost db \<longleftrightarrow> (\<forall>r \<in> set (job_rows db). jr_id r \<notin> lost \<longrightarrow> fair r)"

definition holds_row :: "jobs_db \<Rightarrow> Job \<Rightarrow> bool" where
  "holds_row db job \<longleftrightarrow> (\<exists>r \<in> set (job_rows db). jr_id r = jb_ID job \<and> jr_status r = JobRunning \<and>
     jr_attempts r = jb_Attempts job \<and> jr_max_attempts r = jb_MaxAttempts job)"

definition kept_jobs :: "int set \<Rightarrow> Job list \<Rightarrow> Job list" where
  "kept_jobs lost held = filter (\<lambda>job. jb_ID job \<notin> lost) held"

definition pool_inv :: "jobs_db \<Rightarrow> Job list \<Rightarrow> int set \<Rightarrow> bool" where
  "pool_inv db held lost \<longleftrightarrow> jobs_inv db \<and> budget lost db \<and> distinct (map jb_ID (kept_jobs lost held)) \<and>
     (\<forall>job \<in> set (kept_jobs lost held). holds_row db job)"

lemma kept_simps [simp]:
  "set (kept_jobs lost held) = {job \<in> set held. jb_ID job \<notin> lost}"
  "kept_jobs lost (job # held) = (if jb_ID job \<in> lost then kept_jobs lost held else job # kept_jobs lost held)"
  "kept_jobs lost (remove1 job held) = (if jb_ID job \<in> lost then kept_jobs lost held else remove1 job (kept_jobs lost held))"
  by (auto simp: kept_jobs_def filter_remove1 remove1_idem)

lemma distinct_ids_filter: "distinct (map f xs) \<Longrightarrow> distinct (map f (filter P xs))"
  by (simp add: distinct_map_filter)

text \<open>Losing more jobs claims less.\<close>

lemma pool_inv_mono:
  assumes "pool_inv db held lost" "lost \<subseteq> lost'"
  shows "pool_inv db held lost'"
proof -
  have "kept_jobs lost' held = filter (\<lambda>job. jb_ID job \<notin> lost') (kept_jobs lost held)"
    using assms(2) by (auto simp: kept_jobs_def intro!: filter_cong)
  with assms show ?thesis by (auto simp: pool_inv_def budget_def distinct_ids_filter)
qed

lemma update_budget:
  assumes "budget lost db" and "\<And>r. r \<in> set (job_rows db) \<Longrightarrow> P r \<Longrightarrow> jr_id (f r) \<notin> lost \<Longrightarrow> fair (f r)"
  shows "budget lost (update_rows P f db)"
  using assms unfolding budget_def update_rows_set by auto

lemma update_holds:
  assumes "holds_row db job" and "\<And>r. r \<in> set (job_rows db) \<Longrightarrow> jr_id r = jb_ID job \<Longrightarrow> jr_status r = JobRunning \<Longrightarrow> \<not> P r"
  shows "holds_row (update_rows P f db) job"
proof -
  obtain r where r: "r \<in> set (job_rows db)" "jr_id r = jb_ID job" "jr_status r = JobRunning"
     "jr_attempts r = jb_Attempts job" "jr_max_attempts r = jb_MaxAttempts job"
    using assms(1) by (auto simp: holds_row_def)
  then have "\<not> P r" using assms(2) by blast
  then have "r \<in> set (job_rows (update_rows P f db))" unfolding update_rows_set using r(1) by force
  with r show ?thesis by (auto simp: holds_row_def)
qed

lemma crash_inv: "pool_inv db held lost \<Longrightarrow> pool_inv db (remove1 job held) lost"
  by (auto simp: pool_inv_def distinct_map intro: inj_on_diff dest: set_remove1_subset [THEN subsetD])

text \<open>An update of one job leaves every other held job as it is.\<close>

lemma finish_inv:
  assumes inv: "pool_inv db held lost" and job: "job \<in> set held" and db': "jobs_inv (update_rows (\<lambda>r. jr_id r = jb_ID job \<and> Q r) f db)"
    and same: "\<And>r. jr_id (f r) = jr_id r"
    and fair: "\<And>r. r \<in> set (job_rows db) \<Longrightarrow> jr_id r = jb_ID job \<Longrightarrow> Q r \<Longrightarrow> jb_ID job \<notin> lost \<Longrightarrow> fair (f r)"
  shows "pool_inv (update_rows (\<lambda>r. jr_id r = jb_ID job \<and> Q r) f db) (remove1 job held) lost"
proof -
  let ?db' = "update_rows (\<lambda>r. jr_id r = jb_ID job \<and> Q r) f db"
  have "budget lost ?db'" using inv fair same by (intro update_budget) (auto simp: pool_inv_def)
  moreover have "holds_row ?db' other" if o: "other \<in> set (kept_jobs lost (remove1 job held))" for other
  proof -
    have d: "distinct (map jb_ID (kept_jobs lost held))" and h: "\<forall>job \<in> set (kept_jobs lost held). holds_row db job"
      using inv by (simp_all add: pool_inv_def)
    have k: "other \<in> set (kept_jobs lost held)" using o by (auto split: if_splits dest: set_remove1_subset [THEN subsetD])
    have "jb_ID other \<noteq> jb_ID job"
    proof
      assume eq: "jb_ID other = jb_ID job"
      have "distinct (kept_jobs lost held)" using d by (simp add: distinct_map)
      then have "other \<noteq> job" using o k eq by (auto split: if_splits)
      then show False using d k eq job by (auto simp: distinct_map inj_on_def)
    qed
    with h k show ?thesis by (intro update_holds) auto
  qed
  ultimately show ?thesis using db' crash_inv [OF inv, of job] by (simp add: pool_inv_def)
qed

lemma fair_row:
  "pool_inv db held lost \<Longrightarrow> r \<in> set (job_rows db) \<Longrightarrow> jr_id r \<notin> lost \<Longrightarrow> fair r"
  by (auto simp: pool_inv_def budget_def)

lemma RetryJob_cases:
  "fst (RetryJob env now db id' e ra) = db \<or>
   fst (RetryJob env now db id' e ra) =
     update_rows (\<lambda>r. jr_id r = id' \<and> (jr_status r = JobRunning \<or> jr_status r = JobFailed)) (retry_row e (rfc3339nano ra) (rfc3339nano now)) db"
  by (simp add: RetryJob_def Let_def split: option.splits)

lemma retry_row_simps [simp]:
  "jr_id (retry_row e ra t r) = jr_id r" "jr_status (retry_row e ra t r) = JobPending" "jr_max_attempts (retry_row e ra t r) = jr_max_attempts r"
  "jr_attempts (retry_row e ra t r) = (if jr_status r = JobFailed then 0 else jr_attempts r)"
  by (simp_all add: retry_row_def)

lemma settle_inv:
  assumes inv: "pool_inv db held lost" and job: "job \<in> set held"
  shows "pool_inv (settle p err_text env now n2 rnd db job) (remove1 job held) lost"
proof -
  have j: "jobs_inv db" using inv by (simp add: pool_inv_def)
  have fair: "jr_attempts r \<le> jr_max_attempts r" if "r \<in> set (job_rows db)" "jr_id r = jb_ID job" "jb_ID job \<notin> lost" for r
    using fair_row [OF inv that(1)] that(2,3) by (simp add: fair_def)
  have fail: "pool_inv (fst (FailJob env now db (jb_ID job) e)) (remove1 job held) lost" for e
    using FailJob_inv [OF j, of env now "jb_ID job" e] finish_inv [OF inv job] crash_inv [OF inv] fair
    by (simp add: FailJob_def Let_def fair_def split: option.splits)
  have complete: "pool_inv (fst (CompleteJob env now db (jb_ID job) res)) (remove1 job held) lost" for res
    using CompleteJob_inv [OF j, of env now "jb_ID job" res] finish_inv [OF inv job] crash_inv [OF inv] fair
    by (simp add: CompleteJob_def Let_def fair_def split: option.splits)
  have "pool_inv (fst (RetryJob env now db (jb_ID job) e ra)) (remove1 job held) lost" if less: "jb_Attempts job < jb_MaxAttempts job" for e ra
  proof -
    have row: "jr_attempts r < jr_max_attempts r \<and> jr_attempts r \<le> jr_max_attempts r \<and> jr_status r = JobRunning"
      if r: "r \<in> set (job_rows db)" "jr_id r = jb_ID job" "jb_ID job \<notin> lost" for r
    proof -
      obtain r0 where r0: "r0 \<in> set (job_rows db)" "jr_id r0 = jb_ID job" "jr_status r0 = JobRunning"
         "jr_attempts r0 = jb_Attempts job" "jr_max_attempts r0 = jb_MaxAttempts job"
        using inv job r(3) by (auto simp: pool_inv_def holds_row_def)
      then show ?thesis using unique_row [OF j r(1) r0(1)] r(2) less by auto
    qed
    from RetryJob_cases [of env now db "jb_ID job" e ra] show ?thesis
    proof
      assume "fst (RetryJob env now db (jb_ID job) e ra) = db"
      then show ?thesis using crash_inv [OF inv] by simp
    next
      assume eq: "fst (RetryJob env now db (jb_ID job) e ra) =
        update_rows (\<lambda>r. jr_id r = jb_ID job \<and> (jr_status r = JobRunning \<or> jr_status r = JobFailed)) (retry_row e (rfc3339nano ra) (rfc3339nano now)) db"
      show ?thesis unfolding eq
        by (rule finish_inv [OF inv job]) (use RetryJob_inv [OF j, of env now "jb_ID job" e ra] eq row in \<open>auto simp: fair_def\<close>)
    qed
  qed
  with fail complete show ?thesis
    by (simp add: settle_def split: option.splits)
qed

lemma start_pool_inv:
  assumes inv: "pool_inv db held lost" and r: "r \<in> set (job_rows db)" "jr_status r = JobPending"
    and db': "db' = update_rows (\<lambda>x. jr_id x = jr_id r) (start_row worker t) db"
  shows "pool_inv db' held lost" and "holds_row db' (scanJob (start_row worker t r))" and "jr_id r \<notin> lost \<Longrightarrow> jr_id r \<notin> jb_ID ` set held"
proof -
  have j: "jobs_inv db" using inv by (simp add: pool_inv_def)
  have one: "x = r" if "x \<in> set (job_rows db)" "jr_id x = jr_id r" for x using unique_row [OF j that(1) r(1) that(2)] .
  have "jobs_inv db'" unfolding db' by (rule start_inv [OF j]) (use one r(2) in auto)
  moreover have "budget lost db'" unfolding db'
  proof (rule update_budget)
    fix x assume x: "x \<in> set (job_rows db)" "jr_id x = jr_id r" and lost: "jr_id (start_row worker t x) \<notin> lost"
    have "fair x" using fair_row [OF inv x(1)] lost by (simp add: start_row_def)
    then show "fair (start_row worker t x)" using one [OF x] r(2) by (simp add: fair_def start_row_def)
  qed (use inv in \<open>simp add: pool_inv_def\<close>)
  moreover have "holds_row db' job" if "job \<in> set (kept_jobs lost held)" for job
    unfolding db' using inv that by (intro update_holds) (auto simp: pool_inv_def dest!: one, use r in auto)
  ultimately show "pool_inv db' held lost" using inv by (simp add: pool_inv_def)
  have "start_row worker t r \<in> set (job_rows db')" unfolding db' update_rows_set using r(1) by force
  then show "holds_row db' (scanJob (start_row worker t r))"
    unfolding holds_row_def by (rule bexI [rotated]) (simp add: scanJob_def)
  show "jr_id r \<notin> jb_ID ` set held" if lost: "jr_id r \<notin> lost"
  proof
    assume "jr_id r \<in> jb_ID ` set held"
    then obtain job where "job \<in> set held" "jb_ID job = jr_id r" by auto
    with inv lost obtain x where "x \<in> set (job_rows db)" "jr_id x = jr_id r" "jr_status x = JobRunning"
      by (auto simp: pool_inv_def holds_row_def)
    with one r(2) show False by force
  qed
qed

lemma claim_inv:
  assumes inv: "pool_inv db held lost" and c: "ClaimJob env n0 db worker = (db', Inr (Some job))"
  shows "pool_inv db' (job # held) lost"
proof -
  have "jobs_inv db" using inv by (simp add: pool_inv_def)
  from ClaimJob_Some [OF this c] obtain r where r: "r \<in> set (job_rows db)" "next_job env (rfc3339nano n0) db = [r]"
    "job = scanJob (start_row worker (rfc3339nano n0) r)" "db' = update_rows (\<lambda>x. jr_id x = jr_id r) (start_row worker (rfc3339nano n0)) db"
    by blast
  have "jr_status r = JobPending" using next_job_Cons [OF r(2)] by (simp add: runnable_def)
  note s = start_pool_inv [OF inv r(1) this r(4)]
  have "jb_ID job = jr_id r" using r(3) by (simp add: scanJob_def start_row_def)
  with s r(3) show ?thesis by (auto simp: pool_inv_def)
qed

lemma idle_inv:
  assumes inv: "pool_inv db held lost" and c: "ClaimJob env n0 db worker = (db', Inr None) \<or> ClaimJob env n0 db worker = (db', Inl e)"
  shows "pool_inv db' held lost"
proof (cases "db' = db")
  case True
  then show ?thesis using inv by simp
next
  case False
  let ?t = "rfc3339nano n0"
  from c False obtain r rs where n: "next_job env ?t db = r # rs"
    and db': "db' = update_rows (\<lambda>x. jr_id x = jr_id r \<and> jr_status x = JobPending) (start_row worker ?t) db"
    by (auto simp: ClaimJob_def ClaimJob_postgres_def ClaimJob_sqlite_def Let_def stmt_def query_row_Inr
        split: dialect.splits option.splits sum.splits list.splits prod.splits if_splits dest: tx_commit_cases)
  note r = next_job_Cons [OF n]
  have j: "jobs_inv db" using inv by (simp add: pool_inv_def)
  have "(jr_id x = jr_id r) = (jr_id x = jr_id r \<and> jr_status x = JobPending)" if "x \<in> set (job_rows db)" for x
    using unique_row [OF j that, of r] r by (auto simp: runnable_def)
  then have "update_rows (\<lambda>x. jr_id x = jr_id r \<and> jr_status x = JobPending) (start_row worker ?t) db =
      update_rows (\<lambda>x. jr_id x = jr_id r) (start_row worker ?t) db"
    by (simp add: update_rows_def)
  with db' r start_pool_inv(1) [OF inv, of r] show ?thesis by (auto simp: runnable_def)
qed

lemma holds_mono: "holds_row db job \<Longrightarrow> set (job_rows db) \<subseteq> set (job_rows db') \<Longrightarrow> holds_row db' job"
  unfolding holds_row_def by blast

lemma enqueue_rows:
  "\<exists>rs. job_rows (fst (EnqueueJob env now db j)) = job_rows db @ rs \<and>
     (\<forall>r \<in> set rs. jr_attempts r = 0 \<and> 1 \<le> jr_max_attempts r)"
proof -
  have ins: "\<exists>rs. job_rows db' = job_rows db @ rs \<and> (\<forall>r \<in> set rs. jr_attempts r = 0 \<and> 1 \<le> jr_max_attempts r)"
    if "insert_job env now db (normalize_job now j) = Inr (db', i)" for db' i
    using that normalize_max [of now j] by (auto simp: insert_job_def Let_def stmt_Inr new_job_row_def split: if_splits)
  have com: "fst (tx_commit env a b) = a \<or> fst (tx_commit env a b) = b" for a b :: jobs_db
    using tx_commit_cases [of env a b] by (cases "tx_commit env a b") auto
  have "fst (EnqueueJob env now db j) = db \<or> (\<exists>i. insert_job env now db (normalize_job now j) = Inr (fst (EnqueueJob env now db j), i))"
    using com [of db] by (auto simp: EnqueueJob_def Let_def split: option.splits sum.splits prod.splits if_splits) (metis fst_conv)+
  then show ?thesis using ins by auto
qed

lemma enqueue_pool_inv:
  assumes "pool_inv db held lost" shows "pool_inv (fst (Enqueue q env now db j)) held lost"
proof -
  have "pool_inv (fst (EnqueueJob env now db j)) held lost"
  proof -
    obtain rs where rs: "job_rows (fst (EnqueueJob env now db j)) = job_rows db @ rs" "\<forall>r \<in> set rs. jr_attempts r = 0 \<and> 1 \<le> jr_max_attempts r"
      using enqueue_rows [of env now db j] by blast
    have "budget lost (fst (EnqueueJob env now db j))"
      using assms rs by (force simp: pool_inv_def budget_def fair_def)
    moreover have "\<forall>job \<in> set (kept_jobs lost held). holds_row (fst (EnqueueJob env now db j)) job"
      using assms holds_mono [of db _ "fst (EnqueueJob env now db j)"] rs(1) by (simp add: pool_inv_def)
    ultimately show ?thesis using assms EnqueueJob_inv [of db env now j] by (simp add: pool_inv_def)
  qed
  with assms show ?thesis by (auto simp: Enqueue_def split: sum.splits)
qed

lemma reap_pool_inv:
  assumes inv: "pool_inv db held lost"
    and free: "\<forall>r \<in> set (job_rows db). stuck env (rfc3339nano (n1 - maxAge)) r \<longrightarrow> jr_id r \<in> lost \<or> jr_id r \<notin> jb_ID ` set held"
  shows "pool_inv (fst (ReapStuckJobs env n1 n2 db maxAge)) held lost"
proof -
  let ?c = "rfc3339nano (n1 - maxAge)" and ?n = "rfc3339nano n2"
  let ?f1 = "\<lambda>r. r\<lparr>jr_status := JobFailed, jr_worker := [], jr_last_error := ''worker lease expired after maximum attempts'',
            jr_finished_at := Some ?n, jr_updated_at := ?n\<rparr>"
  let ?f2 = "\<lambda>r. r\<lparr>jr_status := JobPending, jr_worker := [], jr_updated_at := ?n\<rparr>"
  let ?db1 = "update_rows (\<lambda>r. stuck env ?c r \<and> jr_attempts r \<ge> jr_max_attempts r) ?f1 db"
  let ?db2 = "update_rows (\<lambda>r. stuck env ?c r \<and> jr_attempts r < jr_max_attempts r) ?f2 ?db1"
  have cases: "fst (ReapStuckJobs env n1 n2 db maxAge) = db \<or> fst (ReapStuckJobs env n1 n2 db maxAge) = ?db2"
    using tx_commit_cases [of env db ?db2] by (auto simp: ReapStuckJobs_def Let_def split: option.splits prod.splits)
  have h1: "holds_row ?db1 job" if "job \<in> set (kept_jobs lost held)" for job
    using inv free that by (intro update_holds) (auto simp: pool_inv_def image_iff)
  have free1: "jr_id r \<in> lost \<or> jr_id r \<notin> jb_ID ` set held" if "r \<in> set (job_rows ?db1)" "stuck env ?c r" for r
    using that free unfolding update_rows_set by (auto simp: stuck_def split: if_splits)
  have "holds_row ?db2 job" if "job \<in> set (kept_jobs lost held)" for job
  proof (rule update_holds [OF h1 [OF that]])
    fix r assume "r \<in> set (job_rows ?db1)" "jr_id r = jb_ID job"
    then show "\<not> (stuck env ?c r \<and> jr_attempts r < jr_max_attempts r)" using free1 [of r] that by auto
  qed
  moreover have "budget lost ?db1" using inv by (intro update_budget) (auto simp: pool_inv_def budget_def fair_def)
  then have "budget lost ?db2" by (rule update_budget) (simp add: fair_def)
  moreover have "jobs_inv ?db2" if "fst (ReapStuckJobs env n1 n2 db maxAge) = ?db2"
    using ReapStuckJobs_inv [of db env n1 n2 maxAge] inv that by (simp add: pool_inv_def)
  ultimately show ?thesis using cases inv by (auto simp: pool_inv_def)
qed

lemma admin_inv:
  assumes inv: "pool_inv db held lost" and idle: "i \<in> lost \<or> (\<forall>r \<in> set (job_rows db). jr_id r = i \<longrightarrow> jr_status r \<noteq> JobRunning)"
  shows "pool_inv (fst (RetryJob env now db i e ra)) held lost"
proof -
  let ?hit = "\<lambda>r. jr_id r = i \<and> (jr_status r = JobRunning \<or> jr_status r = JobFailed)"
  let ?f = "retry_row e (rfc3339nano ra) (rfc3339nano now)"
  have j: "jobs_inv (fst (RetryJob env now db i e ra))" using RetryJob_inv inv by (simp add: pool_inv_def)
  have max: "1 \<le> jr_max_attempts r" if "r \<in> set (job_rows db)" for r
    using inv that by (auto simp: pool_inv_def jobs_inv_def row_ok_def)
  have "budget lost (update_rows ?hit ?f db)"
    by (rule update_budget) (use inv idle max in \<open>fastforce simp: pool_inv_def fair_def retry_row_def\<close>)+
  moreover have "holds_row (update_rows ?hit ?f db) job" if "job \<in> set (kept_jobs lost held)" for job
    using inv idle that by (intro update_holds) (auto simp: pool_inv_def)
  ultimately show ?thesis using RetryJob_cases [of env now db i e ra] j inv by (auto simp: pool_inv_def)
qed

lemma pool_reach_inv: "pool_reach p err_text db held lost \<Longrightarrow> pool_inv db held lost"
proof (induction rule: pool_reach.induct)
  case pool_new
  show ?case by (simp add: pool_inv_def jobs_inv_def budget_def kept_jobs_def)
next
  case (pool_claim db held lost env n0 worker db' job)
  then show ?case using claim_inv by blast
next
  case (pool_idle db held lost env n0 worker db' e)
  then show ?case using idle_inv by blast
next
  case (pool_reap db held lost env n1 n2)
  from pool_reap.IH have "pool_inv db held (lost \<union> reaped_held p env n1 db held)" by (rule pool_inv_mono) simp
  then show ?case unfolding reaper_tick_def by (rule reap_pool_inv) (auto simp: reaped_held_def)
next
  case (pool_admin db held lost env now i e runAfter)
  from pool_admin.IH have "pool_inv db held (lost \<union> retried_running db i)" by (rule pool_inv_mono) simp
  then show ?case by (rule admin_inv) (auto simp: retried_running_def)
qed (simp_all add: enqueue_pool_inv settle_inv crash_inv)

text \<open>
  C29. Workers exclude each other and respect the attempt budget.  In every interleaving of enqueues, claims,
  completions, retries, failures, crashes, reaper ticks and administrator's retries, for a job that the
  reaper never requeued while a live worker held it and that no administrator retried while it ran: at
  most one worker holds it, it is marked running while it is held, it has not been attempted more often
  than its maximum, and while it is pending it has an attempt left.
\<close>

theorem pool_exclusion_and_budget:
  assumes "pool_reach p err_text db held lost" "i \<notin> lost"
  shows "length (filter (\<lambda>job. jb_ID job = i) held) \<le> 1 \<and>
    (i \<in> jb_ID ` set held \<longrightarrow> (\<exists>r \<in> set (job_rows db). jr_id r = i \<and> jr_status r = JobRunning)) \<and>
    (\<forall>r \<in> set (job_rows db). jr_id r = i \<longrightarrow> jr_attempts r \<le> jr_max_attempts r \<and> (jr_status r = JobPending \<longrightarrow> jr_attempts r < jr_max_attempts r))"
proof -
  note inv = pool_reach_inv [OF assms(1)]
  have "filter (\<lambda>job. jb_ID job = i) held = filter (\<lambda>job. jb_ID job = i) (kept_jobs lost held)"
    using assms(2) by (auto simp: kept_jobs_def intro!: filter_cong)
  moreover have "distinct (map jb_ID (filter (\<lambda>job. jb_ID job = i) (kept_jobs lost held)))"
    using inv by (simp add: pool_inv_def distinct_ids_filter)
  moreover have "length xs \<le> 1" if "distinct (map jb_ID xs)" "\<forall>x \<in> set xs. jb_ID x = i" for xs
    using that by (cases xs; cases "tl xs") auto
  ultimately have "length (filter (\<lambda>job. jb_ID job = i) held) \<le> 1" by (metis (mono_tags, lifting) mem_Collect_eq set_filter)
  moreover have "\<exists>r \<in> set (job_rows db). jr_id r = i \<and> jr_status r = JobRunning" if "i \<in> jb_ID ` set held"
    using inv assms(2) that by (auto simp: pool_inv_def holds_row_def)
  moreover have "fair r" if "r \<in> set (job_rows db)" "jr_id r = i" for r
    using fair_row [OF inv that(1)] that(2) assms(2) by simp
  ultimately show ?thesis by (simp add: fair_def)
qed

text \<open>The row a transition touches, and the rows it does not.\<close>

lemma touched: "r \<in> set (job_rows db) \<Longrightarrow> P r \<Longrightarrow> y = f r \<Longrightarrow> y \<in> set (job_rows (update_rows P f db))"
  unfolding update_rows_set by (rule image_eqI [of _ _ r]) simp_all

lemma untouched: "x \<in> set (job_rows db) \<Longrightarrow> \<not> P x \<Longrightarrow> x \<in> set (job_rows (update_rows P f db))"
  unfolding update_rows_set by (rule image_eqI [of _ _ x]) simp_all

lemma FailJob_rows:
  assumes "fault_free env" and "r \<in> set (job_rows db)" and "jr_id r = i" and "jr_status r = JobRunning"
  shows "r\<lparr>jr_status := JobFailed, jr_last_error := e, jr_finished_at := Some (rfc3339nano now), jr_updated_at := rfc3339nano now\<rparr>
      \<in> set (job_rows (fst (FailJob env now db i e)))"
    and "x \<in> set (job_rows db) \<Longrightarrow> jr_id x \<noteq> i \<Longrightarrow> x \<in> set (job_rows (fst (FailJob env now db i e)))"
  using assms by (auto simp: FailJob_def Let_def fault_free_def intro: touched untouched)

lemma CompleteJob_rows:
  assumes "fault_free env" and "r \<in> set (job_rows db)" and "jr_id r = i" and "jr_status r = JobRunning"
  shows "r\<lparr>jr_status := JobSucceeded, jr_result := res, jr_last_error := [], jr_finished_at := Some (rfc3339nano now), jr_updated_at := rfc3339nano now\<rparr>
      \<in> set (job_rows (fst (CompleteJob env now db i res)))"
    and "x \<in> set (job_rows db) \<Longrightarrow> jr_id x \<noteq> i \<Longrightarrow> x \<in> set (job_rows (fst (CompleteJob env now db i res)))"
  using assms by (auto simp: CompleteJob_def Let_def fault_free_def intro: touched untouched)

text \<open>A running job was live before the retry, so the retry cannot clash with another live job.\<close>

lemma RetryJob_rows:
  assumes "fault_free env" and "jobs_inv db" and "r \<in> set (job_rows db)" and "jr_id r = i" and "jr_status r = JobRunning"
  shows "r\<lparr>jr_status := JobPending, jr_last_error := e, jr_run_after := rfc3339nano ra, jr_worker := [], jr_started_at := None,
      jr_finished_at := None, jr_updated_at := rfc3339nano now\<rparr> \<in> set (job_rows (fst (RetryJob env now db i e ra)))"
    and "x \<in> set (job_rows db) \<Longrightarrow> jr_id x \<noteq> i \<Longrightarrow> x \<in> set (job_rows (fst (RetryJob env now db i e ra)))"
proof -
  let ?hit = "\<lambda>x. jr_id x = i \<and> (jr_status x = JobRunning \<or> jr_status x = JobFailed)"
  let ?f = "retry_row e (rfc3339nano ra) (rfc3339nano now)"
  have "\<not> dedupe_clash (?f x) y" if x: "x \<in> set (job_rows db)" "?hit x" "y \<in> set (job_rows db)" for x y
  proof
    assume c: "dedupe_clash (?f x) y"
    have "x = r" using unique_row [OF assms(2) x(1) assms(3)] x(2) assms(4) by simp
    with c assms(5) have "dedupe_clash r y" by (auto simp: dedupe_clash_def retry_row_def live_def)
    with assms(2,3) x(3) show False by (auto simp: jobs_inv_def)
  qed
  then have "\<not> list_ex (\<lambda>r. ?hit r \<and> list_ex (dedupe_clash (?f r)) (job_rows db)) (job_rows db)"
    unfolding list_ex_iff by blast
  then have eq: "fst (RetryJob env now db i e ra) = update_rows ?hit ?f db"
    using assms(1) by (simp add: RetryJob_def Let_def fault_free_def)
  show "r\<lparr>jr_status := JobPending, jr_last_error := e, jr_run_after := rfc3339nano ra, jr_worker := [], jr_started_at := None,
      jr_finished_at := None, jr_updated_at := rfc3339nano now\<rparr> \<in> set (job_rows (fst (RetryJob env now db i e ra)))"
    unfolding eq by (rule touched [OF assms(3)]) (simp_all add: assms(4,5) retry_row_def)
  show "x \<in> set (job_rows db) \<Longrightarrow> jr_id x \<noteq> i \<Longrightarrow> x \<in> set (job_rows (fst (RetryJob env now db i e ra)))"
    unfolding eq by (rule untouched) simp_all
qed

text \<open>What one settled round does to its job, on every branch: with no registered handler or with the attempts
  used up the job fails permanently, a handler without error completes it, and any other error
  (a panic included) puts it back to pending, to run again after the backoff, with its attempt count
  kept and the error recorded; in each case only this job's row changes.\<close>

lemma settle_outcome:
  assumes "pool_reach p err_text db held lost" and "job \<in> set held" and "jb_ID job \<notin> lost" and "fault_free env"
  shows "\<exists>r \<in> set (job_rows db). jr_id r = jb_ID job \<and>
    (let db' = settle p err_text env now n2 rnd db job; t = rfc3339nano now;
         failed = (\<lambda>e. r\<lparr>jr_status := JobFailed, jr_last_error := e, jr_finished_at := Some t, jr_updated_at := t\<rparr>) in
     (\<forall>x \<in> set (job_rows db). x \<noteq> r \<longrightarrow> x \<in> set (job_rows db')) \<and>
     (case pl_reg p (jb_Type job) of
        None \<Rightarrow> failed (''no handler registered for type '' @ jb_Type job) \<in> set (job_rows db')
      | Some h \<Rightarrow>
          (case execute h job of
             None \<Rightarrow> r\<lparr>jr_status := JobSucceeded, jr_result := [], jr_last_error := [], jr_finished_at := Some t, jr_updated_at := t\<rparr> \<in> set (job_rows db')
           | Some e \<Rightarrow>
               (if jb_Attempts job \<ge> jb_MaxAttempts job then failed (err_text e)
                else r\<lparr>jr_status := JobPending, jr_last_error := err_text e, jr_run_after := rfc3339nano (n2 + backoff p rnd (jb_Attempts job)),
                       jr_worker := [], jr_started_at := None, jr_finished_at := None, jr_updated_at := t\<rparr>) \<in> set (job_rows db'))))"
proof -
  note inv = pool_reach_inv [OF assms(1)]
  have j: "jobs_inv db" using inv by (simp add: pool_inv_def)
  obtain r where r: "r \<in> set (job_rows db)" "jr_id r = jb_ID job" "jr_status r = JobRunning"
    using inv assms(2,3) by (auto simp: pool_inv_def holds_row_def)
  note rows = FailJob_rows [OF assms(4) r] CompleteJob_rows [OF assms(4) r] RetryJob_rows [OF assms(4) j r]
  have ne: "jr_id x \<noteq> jb_ID job" if "x \<in> set (job_rows db)" "x \<noteq> r" for x
    using unique_row [OF j that(1) r(1)] that(2) r(2) by auto
  have other: "\<forall>x \<in> set (job_rows db). x \<noteq> r \<longrightarrow> x \<in> set (job_rows (settle p err_text env now n2 rnd db job))"
    using rows(2) [OF _ ne] rows(4) [OF _ ne] rows(6) [OF _ ne]
    by (simp add: settle_def lookup_handler_def split: option.splits)
  show ?thesis
    unfolding Let_def
    by (intro bexI [OF _ r(1)] conjI r(2) other)
      (use rows(1,3,5) in \<open>simp add: settle_def lookup_handler_def split: option.splits\<close>)
qed

end
