(* ===== verification/Job_Examples.thy ===== *)
theory Job_Examples
  imports Job_Pool
begin

text \<open>A concrete run of the job queue: one thumbnail job is enqueued and claimed, its handler panics.\<close>

definition thumb_job :: Job where
  "thumb_job = \<lparr>jb_ID = 0, jb_TenantID = [], jb_Type = ''thumb'', jb_Payload = [], jb_Status = [], jb_Priority = 3, jb_Attempts = 0,
     jb_MaxAttempts = 2, jb_RunAfter = 0, jb_LastError = [], jb_Worker = [], jb_Result = [], jb_DedupeKey = ''k'', jb_CreatedAt = 0,
     jb_UpdatedAt = 0, jb_StartedAt = 0, jb_FinishedAt = 0\<rparr>"

definition jobs0 :: jobs_db where
  "jobs0 = \<lparr>job_rows = [], job_seq = 0\<rparr>"

definition pending_row :: job_row where
  "pending_row = \<lparr>jr_id = 1, jr_tenant_id = ''default'', jr_type = ''thumb'', jr_payload = ''{}'', jr_status = JobPending, jr_priority = 3,
     jr_attempts = 0, jr_max_attempts = 2, jr_run_after = rfc3339nano 100, jr_last_error = [], jr_worker = [], jr_result = [],
     jr_dedupe_key = Some ''k'', jr_created_at = rfc3339nano 100, jr_updated_at = rfc3339nano 100, jr_started_at = None, jr_finished_at = None\<rparr>"

definition jobs1 :: jobs_db where
  "jobs1 = \<lparr>job_rows = [pending_row], job_seq = 1\<rparr>"

definition jobs2 :: jobs_db where
  "jobs2 = \<lparr>job_rows = [start_row ''w0'' (rfc3339nano 200) pending_row], job_seq = 1\<rparr>"

definition held_job :: Job where
  "held_job = scanJob (start_row ''w0'' (rfc3339nano 200) pending_row)"

definition demo_pool :: Pool where
  "demo_pool = NewPool (Register NewRegistry ''thumb'' (\<lambda>_. Panicked ''boom'')) 0"

abbreviation pg :: sql_env where
  "pg \<equiv> no_faults dialectPostgres"

lemma run_enqueue: "Enqueue NewQueue pg 100 jobs0 thumb_job = (jobs1, 1, False, None)"
  by (simp add: Enqueue_def NewQueue_def EnqueueJob_def Let_def normalize_job_def thumb_job_def jobs0_def insert_job_def
      new_job_row_def defaultTenant_def jobs1_def pending_row_def query_row_def
      no_faults_def stmt_def tx_commit_def)

lemma enqueue_plain: "fst (EnqueueJob pg 100 jobs0 thumb_job) = jobs1"
  using run_enqueue by (simp add: Enqueue_def NewQueue_def)

lemma run_claim: "ClaimJob pg 200 jobs1 ''w0'' = (jobs2, Inr (Some held_job))"
proof -
  have "next_job pg (rfc3339nano 200) jobs1 = [pending_row]"
    by (simp add: next_job_def jobs1_def runnable_def time_le_def) (simp add: pending_row_def)
  then show ?thesis
    by (simp add: ClaimJob_def ClaimJob_postgres_def jobs2_def held_job_def update_rows_def jobs1_def)
qed

lemma reach_jobs2: "jobs_reach jobs1" "pool_reach demo_pool f jobs2 [held_job] {}"
proof -
  have "jobs_reach jobs0" unfolding jobs0_def by (rule jobs_empty)
  from jobs_enqueue [OF this, of pg 100 thumb_job] show "jobs_reach jobs1" by (simp add: enqueue_plain)
  have "pool_reach demo_pool f jobs0 [] {}" unfolding jobs0_def by (rule pool_new)
  from pool_enqueue [OF this, of NewQueue pg 100 thumb_job] have "pool_reach demo_pool f jobs1 [] {}" by (simp add: run_enqueue)
  from pool_claim [OF this run_claim] show "pool_reach demo_pool f jobs2 [held_job] {}" .
qed

theorem job_table_invariant_witness: "jobs_reach jobs1 \<and> pending_row \<in> set (job_rows jobs1) \<and> jr_worker pending_row = []"
proof -
  have p: "pending_row \<in> set (job_rows jobs1)" by (simp add: jobs1_def)
  have "jr_status pending_row = JobPending" by (simp add: pending_row_def)
  with Job_Queue.job_table_invariant [OF reach_jobs2(1) p] have "jr_worker pending_row = []" by auto
  with p reach_jobs2(1) show ?thesis by blast
qed

theorem ClaimJob_exclusive_witness:
  "\<exists>r \<in> set (job_rows jobs1). runnable pg (rfc3339nano 200) r \<and>
     held_job = scanJob (r\<lparr>jr_status := JobRunning, jr_attempts := jr_attempts r + 1, jr_worker := ''w0'',
                   jr_started_at := Some (rfc3339nano 200), jr_updated_at := rfc3339nano 200\<rparr>)"
  using Job_Queue.ClaimJob_exclusive [OF reach_jobs2(1) run_claim] by blast

theorem pool_exclusion_and_budget_witness:
  "jr_attempts (start_row ''w0'' (rfc3339nano 200) pending_row) \<le> jr_max_attempts pending_row"
proof -
  have "start_row ''w0'' (rfc3339nano 200) pending_row \<in> set (job_rows jobs2)" by (simp add: jobs2_def)
  then have "jr_attempts (start_row ''w0'' (rfc3339nano 200) pending_row) \<le> jr_max_attempts (start_row ''w0'' (rfc3339nano 200) pending_row)"
    using Job_Pool.pool_exclusion_and_budget [OF reach_jobs2(2) [of "\<lambda>_. ''err''"], of 1] by (simp add: jobs2_def start_row_def pending_row_def)
  then show ?thesis by (simp add: start_row_def)
qed

theorem settle_outcome_witness:
  "\<exists>r \<in> set (job_rows (settle demo_pool (\<lambda>_. ''err'') pg 300 300 0 jobs2 held_job)). jr_status r = JobPending \<and> jr_last_error r = ''err''"
proof -
  have h: "pl_reg demo_pool (jb_Type held_job) = Some (\<lambda>_. Panicked ''boom'')"
    "jb_Attempts held_job = 1" "jb_MaxAttempts held_job = 2"
    by (simp_all add: demo_pool_def NewPool_def Register_def held_job_def scanJob_def start_row_def pending_row_def)
  have "held_job \<in> set [held_job]" "jb_ID held_job \<notin> {}" "fault_free pg" by simp_all
  from Job_Pool.settle_outcome [OF reach_jobs2(2) [of "\<lambda>_. ''err''"] this, of 300 300 0]
  obtain r where "r\<lparr>jr_status := JobPending, jr_last_error := ''err'', jr_run_after := rfc3339nano (300 + backoff demo_pool 0 1),
      jr_worker := [], jr_started_at := None, jr_finished_at := None, jr_updated_at := rfc3339nano 300\<rparr>
      \<in> set (job_rows (settle demo_pool (\<lambda>_. ''err'') pg 300 300 0 jobs2 held_job))"
    by (auto simp: Let_def h execute_def)
  then show ?thesis by (rule bexI [rotated]) simp
qed

section \<open>A slow handler\<close>

text \<open>
  The reaper cannot tell a slow handler from a dead worker: eleven minutes after the claim it requeues the
  job of a worker that is still running it, and a second worker claims it.
\<close>

definition late :: instant where
  "late = 11 * 60 * nanos_per_second"

definition requeued_row :: job_row where
  "requeued_row = (start_row ''w0'' (rfc3339nano 200) pending_row)\<lparr>jr_status := JobPending, jr_worker := [], jr_updated_at := rfc3339nano late\<rparr>"

definition second_job :: Job where
  "second_job = scanJob (start_row ''w1'' (rfc3339nano late) requeued_row)"

lemma slow_reaped: "reaper_tick demo_pool pg late late jobs2 = \<lparr>job_rows = [requeued_row], job_seq = 1\<rparr>"
proof -
  let ?r = "start_row ''w0'' (rfc3339nano 200) pending_row"
  have "stuck pg (rfc3339nano (late - pl_reapAfter demo_pool)) ?r" "jr_attempts ?r < jr_max_attempts ?r"
    by (simp_all add: stuck_def start_row_def pending_row_def demo_pool_def NewPool_def late_def time_le_def)
  then show ?thesis
    by (simp add: reaper_tick_def ReapStuckJobs_def Let_def jobs2_def update_rows_def requeued_row_def no_faults_def tx_commit_def)
qed

lemma slow_claimed:
  "ClaimJob pg late \<lparr>job_rows = [requeued_row], job_seq = 1\<rparr> ''w1'' = (\<lparr>job_rows = [start_row ''w1'' (rfc3339nano late) requeued_row], job_seq = 1\<rparr>, Inr (Some second_job))"
proof -
  have "next_job pg (rfc3339nano late) \<lparr>job_rows = [requeued_row], job_seq = 1\<rparr> = [requeued_row]"
    by (simp add: next_job_def runnable_def requeued_row_def start_row_def pending_row_def late_def time_le_def)
  then show ?thesis by (simp add: ClaimJob_def ClaimJob_postgres_def second_job_def update_rows_def)
qed

lemma slow_job_runs_twice:
  "\<exists>db lost. pool_reach demo_pool f db [second_job, held_job] lost \<and> jb_ID second_job = jb_ID held_job"
proof -
  from pool_reap [OF reach_jobs2(2), of f pg late late] have "pool_reach demo_pool f \<lparr>job_rows = [requeued_row], job_seq = 1\<rparr> [held_job]
      ({} \<union> reaped_held demo_pool pg late jobs2 [held_job])"
    unfolding slow_reaped .
  from pool_claim [OF this slow_claimed] show ?thesis
    by (intro exI conjI, assumption) (simp add: second_job_def held_job_def scanJob_def requeued_row_def start_row_def)
qed

end
