(* ===== verification/Cluster_Lease.thy ===== *)
theory Cluster_Lease
  imports SQL_Model Time_Text
begin

text \<open>
  Leader election: the expiring leases of \<^verbatim>\<open>internal/repository/leases.go\<close> and the gate of
  \<^verbatim>\<open>internal/cluster/singleton.go\<close> on top of them.  Both dialects keep \<open>expires_at\<close> as the RFC3339Nano
  text and compare texts.
\<close>

record lease_row =
  ls_name :: string
  ls_holder :: string
  ls_expires_at :: time_text

type_synonym leases_db = "lease_row list"

definition lease_claimable :: "string \<Rightarrow> string \<Rightarrow> time_text \<Rightarrow> lease_row \<Rightarrow> bool" where
  "lease_claimable name holder now r \<longleftrightarrow> ls_name r = name \<and> (ls_holder r = holder \<or> ls_expires_at r < now)"

definition renew_rows :: "string \<Rightarrow> string \<Rightarrow> time_text \<Rightarrow> time_text \<Rightarrow> leases_db \<Rightarrow> leases_db" where
  "renew_rows name holder now expiry db =
     map (\<lambda>r. if lease_claimable name holder now r then r\<lparr>ls_holder := holder, ls_expires_at := expiry\<rparr> else r) db"

definition AcquireLease :: "sql_env \<Rightarrow> instant \<Rightarrow> leases_db \<Rightarrow> string \<Rightarrow> string \<Rightarrow> int \<Rightarrow> leases_db \<times> bool res" where
  "AcquireLease env now db name holder ttl =
     (let nowStr = rfc3339nano now; expiryStr = rfc3339nano (now + ttl);
          hit = lease_claimable name holder nowStr;
          db1 = renew_rows name holder nowStr expiryStr db in
      case fault env ''update lease'' of
        Some e \<Rightarrow> (db, Inl (Errorf ''acquire lease: update'' [e]))
      | None \<Rightarrow>
          if fault env ''update lease rows'' = None \<and> length (filter hit db) = 1 then (db1, Inr True)
          else
            (case fault env ''insert lease'' of
               Some e \<Rightarrow> (db1, Inl (Errorf ''acquire lease: insert'' [e]))
             | None \<Rightarrow>
                 if list_ex (\<lambda>r. ls_name r = name) db1 then (db1, Inr False)
                 else (db1 @ [\<lparr>ls_name = name, ls_holder = holder, ls_expires_at = expiryStr\<rparr>],
                       Inr (fault env ''insert lease rows'' = None))))"

section \<open>The gate\<close>

record Singleton =
  sg_lease :: string
  sg_holder :: string
  sg_enabled :: bool

definition NewSingleton :: "string \<Rightarrow> Singleton" where
  "NewSingleton lease = \<lparr>sg_lease = lease, sg_holder = [], sg_enabled = False\<rparr>"

definition Enable :: "Singleton \<Rightarrow> string \<Rightarrow> Singleton" where
  "Enable s holder = s\<lparr>sg_enabled := True, sg_holder := holder\<rparr>"

definition singleton_Enabled :: "Singleton \<Rightarrow> bool" where
  "singleton_Enabled s = sg_enabled s"

text \<open>\<open>fn\<close> acts on the state the sweep works on.\<close>

definition Guard :: "Singleton \<Rightarrow> sql_env \<Rightarrow> instant \<Rightarrow> int \<Rightarrow> ('w \<Rightarrow> 'w) \<Rightarrow> leases_db \<Rightarrow> 'w \<Rightarrow> leases_db \<times> 'w" where
  "Guard s env now ttl fn db w =
     (if sg_enabled s then
        (case AcquireLease env now db (sg_lease s) (sg_holder s) ttl of
           (db', Inl e) \<Rightarrow> (db', w)
         | (db', Inr held) \<Rightarrow> if \<not> held then (db', w) else (db', fn w))
      else (db, fn w))"

section \<open>A lease is exclusive\<close>

definition lease_inv :: "leases_db \<Rightarrow> bool" where
  "lease_inv db \<longleftrightarrow> distinct (map ls_name db)"

lemma renew_names [simp]: "map ls_name (renew_rows name holder now expiry db) = map ls_name db"
  by (simp add: renew_rows_def)

lemma AcquireLease_inv:
  assumes "lease_inv db" shows "lease_inv (fst (AcquireLease env now db name holder ttl))"
proof -
  let ?db1 = "renew_rows name holder (rfc3339nano now) (rfc3339nano (now + ttl)) db"
  have "lease_inv ?db1" using assms by (simp add: lease_inv_def)
  moreover have "lease_inv (?db1 @ [\<lparr>ls_name = name, ls_holder = holder, ls_expires_at = e\<rparr>])"
    if "\<not> list_ex (\<lambda>r. ls_name r = name) ?db1" for e
    using calculation that by (auto simp: lease_inv_def list_ex_iff simp del: renew_names)
  ultimately show ?thesis using assms by (simp add: AcquireLease_def Let_def split: option.splits)
qed

lemma unique_lease: "lease_inv db \<Longrightarrow> r \<in> set db \<Longrightarrow> r' \<in> set db \<Longrightarrow> ls_name r = ls_name r' \<Longrightarrow> r = r'"
  by (auto simp: lease_inv_def distinct_map inj_on_def)

lemma acquired:
  assumes "AcquireLease env now db name holder ttl = (db', Inr True)"
  shows "\<lparr>ls_name = name, ls_holder = holder, ls_expires_at = rfc3339nano (now + ttl)\<rparr> \<in> set db'"
proof (cases "fault env ''update lease rows'' = None \<and> length (filter (lease_claimable name holder (rfc3339nano now)) db) = 1")
  case True
  let ?hit = "lease_claimable name holder (rfc3339nano now)"
  have db': "db' = renew_rows name holder (rfc3339nano now) (rfc3339nano (now + ttl)) db"
    using assms True by (auto simp: AcquireLease_def Let_def split: option.splits)
  from True have "filter ?hit db \<noteq> []" by auto
  then obtain r where r: "r \<in> set db" "?hit r" by (auto simp: filter_empty_conv)
  then have eq: "\<lparr>ls_name = name, ls_holder = holder, ls_expires_at = rfc3339nano (now + ttl)\<rparr> =
      r\<lparr>ls_holder := holder, ls_expires_at := rfc3339nano (now + ttl)\<rparr>" by (simp add: lease_claimable_def)
  show ?thesis unfolding db' renew_rows_def set_map eq by (rule image_eqI [of _ _ r]) (simp_all add: r)
next
  case False
  then show ?thesis using assms by (auto simp: AcquireLease_def Let_def split: option.splits if_splits)
qed

lemma refused:
  assumes inv: "lease_inv db" and r: "r \<in> set db" "ls_name r = name" "ls_holder r \<noteq> holder" "\<not> ls_expires_at r < rfc3339nano now"
  shows "r \<in> set (fst (AcquireLease env now db name holder ttl)) \<and> snd (AcquireLease env now db name holder ttl) \<noteq> Inr True"
proof -
  let ?hit = "lease_claimable name holder (rfc3339nano now)"
  have "\<not> ?hit r" using r by (simp add: lease_claimable_def)
  moreover have "x = r" if "x \<in> set db" "?hit x" for x
    using unique_lease [OF inv that(1) r(1)] that(2) r(2) by (simp add: lease_claimable_def)
  ultimately have "\<not> ?hit x" if "x \<in> set db" for x using that by blast
  then have f: "filter ?hit db = []" "renew_rows name holder (rfc3339nano now) (rfc3339nano (now + ttl)) db = db"
    by (simp_all add: renew_rows_def map_idI)
  have "list_ex (\<lambda>r. ls_name r = name) db" using r by (auto simp: list_ex_iff)
  with r(1) show ?thesis by (simp add: AcquireLease_def Let_def f split: option.splits)
qed

text \<open>A history of gated rounds, each with its replica, driver faults and clock reading.\<close>

primrec rounds :: "(Singleton \<times> sql_env \<times> instant \<times> int) list \<Rightarrow> ('w \<Rightarrow> 'w) \<Rightarrow> leases_db \<Rightarrow> 'w \<Rightarrow> leases_db \<times> 'w" where
  "rounds [] fn db w = (db, w)"
| "rounds (c # cs) fn db w =
     (case c of (s, env, now, ttl) \<Rightarrow> case Guard s env now ttl fn db w of (db', w') \<Rightarrow> rounds cs fn db' w')"

lemma rounds_refused:
  assumes "lease_inv db" and "r \<in> set db"
    and "\<forall>(s, env, now, ttl) \<in> set cs. sg_enabled s \<and> sg_lease s = ls_name r \<and> sg_holder s \<noteq> ls_holder r \<and> \<not> ls_expires_at r < rfc3339nano now"
  shows "r \<in> set (fst (rounds cs fn db w)) \<and> snd (rounds cs fn db w) = w"
  using assms
proof (induction cs arbitrary: db w)
  case (Cons c cs)
  obtain s env now ttl where c: "c = (s, env, now, ttl)" by (cases c)
  with Cons.prems(3) have s: "sg_enabled s" "sg_lease s = ls_name r" "sg_holder s \<noteq> ls_holder r" "\<not> ls_expires_at r < rfc3339nano now" by auto
  let ?a = "AcquireLease env now db (sg_lease s) (sg_holder s) ttl"
  have ref: "r \<in> set (fst ?a)" "snd ?a \<noteq> Inr True"
    using refused [OF Cons.prems(1,2) s(2) [symmetric] s(3) [symmetric] s(4), of env ttl] by simp_all
  have g: "Guard s env now ttl fn db w = (fst ?a, w)"
    using ref(2) s(1) by (cases ?a) (auto simp: Guard_def split: sum.splits)
  have "lease_inv (fst ?a)" using AcquireLease_inv [OF Cons.prems(1)] .
  from Cons.IH [OF this ref(1), of w] Cons.prems(3) c g show ?case by simp
qed simp

text \<open>C30. Only one replica sweeps at a time: once a gated replica has run its action under a lease, then however many
  rounds other replicas attempt on that lease, with whatever database failures, none of them runs the
  action while the lease has at least until the next full second to live; the holder's row stays.
  (The expiry is compared as text, which is exact only to the second.)\<close>

theorem singleton_exclusive:
  assumes "lease_inv db" and "sg_enabled s1" and "Guard s1 env1 n1 ttl fn db w = (db1, fn w)" and "fn w \<noteq> w"
    and "\<forall>(s, env, now, t) \<in> set cs. sg_enabled s \<and> sg_lease s = sg_lease s1 \<and> sg_holder s \<noteq> sg_holder s1 \<and>
           now div nanos_per_second < (n1 + ttl) div nanos_per_second"
  shows "snd (rounds cs fn db1 (fn w)) = fn w \<and>
    \<lparr>ls_name = sg_lease s1, ls_holder = sg_holder s1, ls_expires_at = rfc3339nano (n1 + ttl)\<rparr> \<in> set (fst (rounds cs fn db1 (fn w)))"
proof -
  let ?r = "\<lparr>ls_name = sg_lease s1, ls_holder = sg_holder s1, ls_expires_at = rfc3339nano (n1 + ttl)\<rparr>"
  have a: "AcquireLease env1 n1 db (sg_lease s1) (sg_holder s1) ttl = (db1, Inr True)"
    using assms(2-4) by (auto simp: Guard_def split: prod.splits sum.splits if_splits)
  have "\<not> rfc3339nano (n1 + ttl) < rfc3339nano now" if "now div nanos_per_second < (n1 + ttl) div nanos_per_second" for now
    using text_less_seconds [of "n1 + ttl" now] that by auto
  then have "\<forall>(s, env, now, t) \<in> set cs. sg_enabled s \<and> sg_lease s = ls_name ?r \<and> sg_holder s \<noteq> ls_holder ?r \<and> \<not> ls_expires_at ?r < rfc3339nano now"
    using assms(5) by fastforce
  moreover have "lease_inv db1" using AcquireLease_inv [OF assms(1), of env1 n1 "sg_lease s1" "sg_holder s1" ttl] a by simp
  ultimately show ?thesis using rounds_refused [OF _ acquired [OF a], of cs fn "fn w"] by simp
qed

text \<open>The text comparison frees a lease early: at 0.10 s a lease that runs until 0.15 s is taken over.\<close>

lemma early_takeover:
  "AcquireLease (no_faults d) 100000000 [\<lparr>ls_name = n, ls_holder = ''a'', ls_expires_at = rfc3339nano 150000000\<rparr>] n ''b'' ttl =
     ([\<lparr>ls_name = n, ls_holder = ''b'', ls_expires_at = rfc3339nano (100000000 + ttl)\<rparr>], Inr True)"
  by (simp add: AcquireLease_def Let_def lease_claimable_def text_order_not_chronological no_faults_def renew_rows_def)

theorem singleton_exclusive_witness:
  "snd (rounds [(Enable (NewSingleton ''sweep'') ''b'', no_faults dialectSQLite, 2000000000, 5)] Suc
     [\<lparr>ls_name = ''sweep'', ls_holder = ''a'', ls_expires_at = rfc3339nano 5000000000\<rparr>] 1) = 1"
proof -
  let ?s = "Enable (NewSingleton ''sweep'') ''a''"
  have "Guard ?s (no_faults dialectSQLite) 1000000000 4000000000 Suc [] 0 =
      ([\<lparr>ls_name = ''sweep'', ls_holder = ''a'', ls_expires_at = rfc3339nano 5000000000\<rparr>], Suc 0)"
    by (simp add: Guard_def Enable_def NewSingleton_def AcquireLease_def Let_def no_faults_def renew_rows_def)
  from singleton_exclusive [OF _ _ this, of "[(Enable (NewSingleton ''sweep'') ''b'', no_faults dialectSQLite, 2000000000, 5)]"]
  show ?thesis by (simp add: lease_inv_def Enable_def NewSingleton_def)
qed

end
