(* ===== verification/Http_Exchange.thy ===== *)
theory Http_Exchange
  imports AV_Prelude "HOL-Library.AList"
begin

text \<open>
  What the REST layer uses of \<open>net/http\<close>: header maps with canonical keys and the response writer of a
  server, which takes the headers of the response when the status is written.  Headers are
  association lists with distinct keys.  Status codes that \<open>net/http\<close> refuses (below 100, above
  999) make it panic, and do not occur in the actions of a handler here.
\<close>

section \<open>Headers\<close>

type_synonym header = "(string \<times> string list) list"

definition lower_letter :: "char \<Rightarrow> bool" where
  "lower_letter c \<longleftrightarrow> CHR ''a'' \<le> c \<and> c \<le> CHR ''z''"

definition upper_letter :: "char \<Rightarrow> bool" where
  "upper_letter c \<longleftrightarrow> CHR ''A'' \<le> c \<and> c \<le> CHR ''Z''"

definition to_lower_byte :: "char \<Rightarrow> char" where
  "to_lower_byte c = (if upper_letter c then char_of (of_char c + 32 :: nat) else c)"

definition to_upper_byte :: "char \<Rightarrow> char" where
  "to_upper_byte c = (if lower_letter c then char_of (of_char c - 32 :: nat) else c)"

text \<open>\<open>strings.EqualFold\<close> on ASCII names, which header names are.\<close>

definition equal_fold :: "string \<Rightarrow> string \<Rightarrow> bool" where
  "equal_fold s t \<longleftrightarrow> map to_lower_byte s = map to_lower_byte t"

definition token_byte :: "char \<Rightarrow> bool" where
  "token_byte c \<longleftrightarrow> lower_letter c \<or> upper_letter c \<or> CHR ''0'' \<le> c \<and> c \<le> CHR ''9'' \<or> c \<in> set ''!#$%&*+-.^_|~`'' \<or> c = CHR 0x27"

fun canonical_loop :: "bool \<Rightarrow> string \<Rightarrow> string" where
  "canonical_loop up [] = []"
| "canonical_loop up (c # s) =
     (let d = (if up then to_upper_byte c else to_lower_byte c) in
      d # canonical_loop (d = CHR ''-'') s)"

definition CanonicalHeaderKey :: "string \<Rightarrow> string" where
  "CanonicalHeaderKey s = (if list_all token_byte s then canonical_loop True s else s)"

definition header_values :: "header \<Rightarrow> string \<Rightarrow> string list" where
  "header_values h k = (case map_of h k of None \<Rightarrow> [] | Some vs \<Rightarrow> vs)"

definition header_Get :: "header \<Rightarrow> string \<Rightarrow> string" where
  "header_Get h k = (case header_values h (CanonicalHeaderKey k) of [] \<Rightarrow> [] | v # _ \<Rightarrow> v)"

definition header_Set :: "header \<Rightarrow> string \<Rightarrow> string \<Rightarrow> header" where
  "header_Set h k v = AList.update (CanonicalHeaderKey k) [v] h"

definition header_Add :: "header \<Rightarrow> string \<Rightarrow> string \<Rightarrow> header" where
  "header_Add h k v = AList.update (CanonicalHeaderKey k) (header_values h (CanonicalHeaderKey k) @ [v]) h"

definition header_Del :: "header \<Rightarrow> string \<Rightarrow> header" where
  "header_Del h k = AList.delete (CanonicalHeaderKey k) h"

section \<open>Response writers\<close>

record response_writer =
  rw_Header :: header
  rw_sent :: "(int \<times> header) option"
  rw_body :: string

definition body_allowed :: "int \<Rightarrow> bool" where
  "body_allowed status \<longleftrightarrow> \<not> (100 \<le> status \<and> status \<le> 199) \<and> status \<noteq> 204 \<and> status \<noteq> 304"

definition http_WriteHeader :: "int \<Rightarrow> response_writer \<Rightarrow> response_writer" where
  "http_WriteHeader status w =
     (if rw_sent w \<noteq> None \<or> 100 \<le> status \<and> status \<le> 199 \<and> status \<noteq> 101 then w
      else w\<lparr>rw_sent := Some (status, rw_Header w)\<rparr>)"

definition http_Write :: "string \<Rightarrow> response_writer \<Rightarrow> response_writer" where
  "http_Write b w =
     (let w' = (if rw_sent w = None then http_WriteHeader 200 w else w) in
      case rw_sent w' of
        Some (status, _) \<Rightarrow> if body_allowed status then w'\<lparr>rw_body := rw_body w' @ b\<rparr> else w'
      | None \<Rightarrow> w')"

text \<open>A handler that returns without writing answers 200; \<open>http_finish\<close> gives what the client receives.\<close>

definition http_finish :: "response_writer \<Rightarrow> int \<times> header \<times> string" where
  "http_finish w = (case rw_sent w of Some (st, h) \<Rightarrow> (st, h, rw_body w) | None \<Rightarrow> (200, rw_Header w, rw_body w))"

section \<open>Facts about headers\<close>

lemma header_values_Set: "header_values (header_Set h k v) x = (if x = CanonicalHeaderKey k then [v] else header_values h x)"
  by (simp add: header_values_def header_Set_def update_conv')

lemma header_values_Add:
  "header_values (header_Add h k v) x = header_values h x @ (if x = CanonicalHeaderKey k then [v] else [])"
  by (simp add: header_values_def header_Add_def update_conv')

lemma header_values_Add_list:
  "header_values (fold (\<lambda>v h. header_Add h k v) vs h) x = header_values h x @ (if x = CanonicalHeaderKey k then vs else [])"
  by (induction vs arbitrary: h) (simp_all add: header_values_Add)

text \<open>Keys written through \<open>Set\<close> and \<open>Add\<close> are canonical, and canonical keys are fixed points.\<close>

lemma to_upper_upper: "to_upper_byte (to_upper_byte c) = to_upper_byte c"
  by (auto simp: to_upper_byte_def lower_letter_def less_eq_char_def)

lemma to_lower_lower: "to_lower_byte (to_lower_byte c) = to_lower_byte c"
  by (auto simp: to_lower_byte_def upper_letter_def less_eq_char_def)

lemma canonical_loop_idem: "canonical_loop up (canonical_loop up s) = canonical_loop up s"
  by (induction up s rule: canonical_loop.induct) (auto simp: Let_def to_upper_upper to_lower_lower split: if_splits)

lemma token_upper: "token_byte c \<Longrightarrow> token_byte (to_upper_byte c)" "token_byte c \<Longrightarrow> token_byte (to_lower_byte c)"
  by (auto simp: token_byte_def to_upper_byte_def to_lower_byte_def upper_letter_def lower_letter_def less_eq_char_def)

lemma canonical_loop_token: "list_all token_byte s \<Longrightarrow> list_all token_byte (canonical_loop up s)"
  by (induction up s rule: canonical_loop.induct) (simp_all add: Let_def token_upper)

lemma CanonicalHeaderKey_idem [simp]: "CanonicalHeaderKey (CanonicalHeaderKey s) = CanonicalHeaderKey s"
  by (simp add: CanonicalHeaderKey_def canonical_loop_token canonical_loop_idem)

definition header_ok :: "header \<Rightarrow> bool" where
  "header_ok h \<longleftrightarrow> distinct (map fst h) \<and> (\<forall>k \<in> fst ` set h. CanonicalHeaderKey k = k)"

lemma header_ok_update: "header_ok h \<Longrightarrow> header_ok (AList.update (CanonicalHeaderKey k) vs h)"
  by (auto simp: header_ok_def distinct_update dom_update)

lemma header_ok_Set [simp]: "header_ok h \<Longrightarrow> header_ok (header_Set h k v)"
  and header_ok_Add [simp]: "header_ok h \<Longrightarrow> header_ok (header_Add h k v)"
  by (simp_all add: header_Set_def header_Add_def header_ok_update)

lemma header_ok_filter: "header_ok h \<Longrightarrow> header_ok (filter P h)"
  by (auto simp: header_ok_def distinct_map_filter)

lemma header_ok_Del [simp]: "header_ok h \<Longrightarrow> header_ok (header_Del h k)"
  by (simp add: header_Del_def AList.delete_eq header_ok_filter)

lemma header_values_filter:
  "header_ok h \<Longrightarrow> header_values (filter (\<lambda>(k, _). P k) h) x = (if P x then header_values h x else [])"
  by (induction h) (auto simp: header_ok_def header_values_def)

end
