(* ===== verification/Idempotency_Store.thy ===== *)
theory Idempotency_Store
  imports SQL_Model Time_Text Http_Exchange
begin

text \<open>
  The persisted idempotency keys, \<^verbatim>\<open>internal/repository/idempotency.go\<close>: claim, completion, release and
  expiry.  Response headers are stored as JSON text; \<open>encoding/json\<close> is a pair of functions.
\<close>

abbreviation (input) IdempotencyInProgress :: string where "IdempotencyInProgress \<equiv> ''in_progress''"
abbreviation (input) IdempotencyCompleted :: string where "IdempotencyCompleted \<equiv> ''completed''"

record json_codec =
  js_marshal :: "header \<Rightarrow> string res"
  js_unmarshal :: "string \<Rightarrow> header res"

record IdempotencyRecord =
  ir_TenantID :: string
  ir_Key :: string
  ir_Fingerprint :: string
  ir_Status :: string
  ir_RequestID :: string
  ir_ResponseStatus :: int
  ir_ResponseBody :: string
  ir_ResponseCT :: string
  ir_ResponseHeaders :: header
  ir_CompletedAt :: "time_text option"
  ir_CreatedAt :: "time_text option"

record idem_row =
  ik_tenant_id :: string
  ik_idem_key :: string
  ik_fingerprint :: string
  ik_status :: string
  ik_response_status :: int
  ik_response_body :: string
  ik_response_ct :: string
  ik_response_headers :: string
  ik_request_id :: string
  ik_created_at :: time_text
  ik_completed_at :: "time_text option"

type_synonym idem_db = "idem_row list"

definition same_key :: "string \<Rightarrow> string \<Rightarrow> idem_row \<Rightarrow> bool" where
  "same_key tenant key r \<longleftrightarrow> ik_tenant_id r = tenant \<and> ik_idem_key r = key"

definition scan_idem :: "json_codec \<Rightarrow> idem_row \<Rightarrow> IdempotencyRecord res" where
  "scan_idem js r =
     (let base = \<lparr>ir_TenantID = ik_tenant_id r, ir_Key = ik_idem_key r, ir_Fingerprint = ik_fingerprint r, ir_Status = ik_status r,
                  ir_RequestID = ik_request_id r, ir_ResponseStatus = ik_response_status r, ir_ResponseBody = ik_response_body r,
                  ir_ResponseCT = ik_response_ct r, ir_ResponseHeaders = [], ir_CompletedAt = ik_completed_at r,
                  ir_CreatedAt = Some (ik_created_at r)\<rparr> in
      if ik_response_headers r \<noteq> [] then
        (case js_unmarshal js (ik_response_headers r) of
           Inl e \<Rightarrow> Inl (Errorf ''decode persisted idempotency response headers'' [e])
         | Inr h \<Rightarrow> Inr (base\<lparr>ir_ResponseHeaders := h\<rparr>))
      else Inr base)"

definition getIdempotencyKey :: "json_codec \<Rightarrow> sql_env \<Rightarrow> idem_db \<Rightarrow> string \<Rightarrow> string \<Rightarrow> IdempotencyRecord res" where
  "getIdempotencyKey js env db tenant key =
     (case query_row env ''get idempotency'' (filter (same_key tenant key) db) of
        Inl e \<Rightarrow> Inl (if errors_is e ErrNoRows then Sentinel ErrNotFound else e)
      | Inr r \<Rightarrow> scan_idem js r)"

definition new_idem_row :: "string \<Rightarrow> string \<Rightarrow> string \<Rightarrow> string \<Rightarrow> time_text \<Rightarrow> idem_row" where
  "new_idem_row tenant key fp requestID now =
     \<lparr>ik_tenant_id = tenant, ik_idem_key = key, ik_fingerprint = fp, ik_status = IdempotencyInProgress, ik_response_status = 0,
      ik_response_body = [], ik_response_ct = [], ik_response_headers = [], ik_request_id = requestID, ik_created_at = now,
      ik_completed_at = None\<rparr>"

definition ClaimIdempotencyKey ::
  "json_codec \<Rightarrow> sql_env \<Rightarrow> instant \<Rightarrow> idem_db \<Rightarrow> string \<Rightarrow> string \<Rightarrow> string \<Rightarrow> string \<Rightarrow> idem_db \<times> (IdempotencyRecord \<times> bool) res" where
  "ClaimIdempotencyKey js env t db tenant0 key fp requestID =
     (let tenant = defaultTenant tenant0; now = rfc3339nano t;
          fresh = \<not> list_ex (same_key tenant key) db;
          db' = (if fresh then db @ [new_idem_row tenant key fp requestID now] else db) in
      case fault env ''claim idempotency'' of
        Some e \<Rightarrow> (db, Inl e)
      | None \<Rightarrow>
          if fresh \<and> fault env ''claim idempotency rows'' = None then
            (db', Inr (\<lparr>ir_TenantID = tenant, ir_Key = key, ir_Fingerprint = fp, ir_Status = IdempotencyInProgress, ir_RequestID = requestID,
                        ir_ResponseStatus = 0, ir_ResponseBody = [], ir_ResponseCT = [], ir_ResponseHeaders = [], ir_CompletedAt = None,
                        ir_CreatedAt = Some now\<rparr>, True))
          else (case getIdempotencyKey js env db' tenant key of
                  Inl e \<Rightarrow> (db', Inl e)
                | Inr rec \<Rightarrow> (db', Inr (rec, False))))"

definition complete_row :: "int \<Rightarrow> string \<Rightarrow> string \<Rightarrow> string \<Rightarrow> time_text \<Rightarrow> idem_row \<Rightarrow> idem_row" where
  "complete_row status body ct hdrs now r =
     r\<lparr>ik_status := IdempotencyCompleted, ik_response_status := status, ik_response_body := body, ik_response_ct := ct,
       ik_response_headers := hdrs, ik_completed_at := Some now\<rparr>"

definition CompleteIdempotencyKey ::
  "json_codec \<Rightarrow> sql_env \<Rightarrow> instant \<Rightarrow> idem_db \<Rightarrow> string \<Rightarrow> string \<Rightarrow> int \<Rightarrow> string \<Rightarrow> string \<Rightarrow> header \<Rightarrow> idem_db \<times> gerr option" where
  "CompleteIdempotencyKey js env t db tenant0 key status body ct headers =
     (let tenant = defaultTenant tenant0 in
      case (if headers \<noteq> [] then js_marshal js headers else Inr []) of
        Inl e \<Rightarrow> (db, Some e)
      | Inr headerJSON \<Rightarrow>
          (case fault env ''complete idempotency'' of
             Some e \<Rightarrow> (db, Some e)
           | None \<Rightarrow> (map (\<lambda>r. if same_key tenant key r then complete_row status body ct headerJSON (rfc3339nano t) r else r) db, None)))"

definition DeleteIdempotencyKey :: "sql_env \<Rightarrow> idem_db \<Rightarrow> string \<Rightarrow> string \<Rightarrow> idem_db \<times> gerr option" where
  "DeleteIdempotencyKey env db tenant0 key =
     (case fault env ''delete idempotency'' of
        Some e \<Rightarrow> (db, Some e)
      | None \<Rightarrow> (filter (\<lambda>r. \<not> same_key (defaultTenant tenant0) key r) db, None))"

definition DeleteIdempotencyKeysBefore :: "sql_env \<Rightarrow> idem_db \<Rightarrow> time_text \<Rightarrow> idem_db \<times> int res" where
  "DeleteIdempotencyKeysBefore env db before =
     (case fault env ''purge idempotency'' of
        Some e \<Rightarrow> (db, Inl e)
      | None \<Rightarrow> (filter (\<lambda>r. \<not> ik_created_at r < before) db,
                 Inr (if fault env ''purge rows'' = None then int (length (filter (\<lambda>r. ik_created_at r < before) db)) else 0)))"

section \<open>Keys are unique\<close>

definition idem_inv :: "idem_db \<Rightarrow> bool" where
  "idem_inv db \<longleftrightarrow> distinct (map (\<lambda>r. (ik_tenant_id r, ik_idem_key r)) db)"

lemma complete_row_key [simp]:
  "ik_tenant_id (complete_row s b c h n r) = ik_tenant_id r" "ik_idem_key (complete_row s b c h n r) = ik_idem_key r"
  "ik_fingerprint (complete_row s b c h n r) = ik_fingerprint r"
  by (simp_all add: complete_row_def)

lemma Claim_inv:
  assumes "idem_inv db" shows "idem_inv (fst (ClaimIdempotencyKey js env t db tenant key fp rid))"
  using assms
  by (auto simp: ClaimIdempotencyKey_def Let_def idem_inv_def new_idem_row_def same_key_def list_ex_iff split: option.splits sum.splits)

lemma Complete_inv:
  assumes "idem_inv db" shows "idem_inv (fst (CompleteIdempotencyKey js env t db tenant key st b c h))"
  using assms
  by (auto simp: CompleteIdempotencyKey_def Let_def idem_inv_def comp_def if_distrib split: option.splits sum.splits cong: if_cong)

lemma filter_idem_inv: "idem_inv db \<Longrightarrow> idem_inv (filter P db)"
  by (simp add: idem_inv_def distinct_map_filter)

lemma Delete_inv: "idem_inv db \<Longrightarrow> idem_inv (fst (DeleteIdempotencyKey env db tenant key))"
  by (simp add: DeleteIdempotencyKey_def filter_idem_inv split: option.splits)

lemma same_key_unique:
  assumes "idem_inv db" and "r \<in> set db" and "same_key tenant key r"
  shows "filter (same_key tenant key) db = [r]"
proof -
  have "same_key tenant key = (\<lambda>y. (ik_tenant_id y, ik_idem_key y) = (ik_tenant_id r, ik_idem_key r))"
    using assms(3) by (intro ext) (auto simp: same_key_def)
  then show ?thesis using filter_key_unique [OF _ assms(2), of "\<lambda>y. (ik_tenant_id y, ik_idem_key y)"] assms(1)
    by (simp add: idem_inv_def)
qed


lemma getIdempotencyKey_found:
  assumes "idem_inv db" and "fault_free env" and "List.find (same_key tenant key) db = Some r"
  shows "getIdempotencyKey js env db tenant key = scan_idem js r"
proof -
  have "r \<in> set db" "same_key tenant key r" using assms(3) by (auto simp: find_Some_iff)
  then have "filter (same_key tenant key) db = [r]" by (rule same_key_unique [OF assms(1)])
  with assms(2) show ?thesis by (simp add: getIdempotencyKey_def query_row_def)
qed

section \<open>The table implements a memo of answers\<close>

text \<open>
  What the handler relies on: each key is unused, owned by a running request, or carries the stored answer.
\<close>

datatype idem_slot = InProgress (slot_fp: string) | Done (slot_fp: string) int string string string

type_synonym memo = "string \<times> string \<rightharpoonup> idem_slot"

definition memo_claim :: "string \<times> string \<Rightarrow> string \<Rightarrow> memo \<Rightarrow> memo" where
  "memo_claim k fp m = (if m k = None then m(k \<mapsto> InProgress fp) else m)"

definition memo_complete :: "string \<times> string \<Rightarrow> int \<Rightarrow> string \<Rightarrow> string \<Rightarrow> string \<Rightarrow> memo \<Rightarrow> memo" where
  "memo_complete k status body ct hdrs m =
     (case m k of None \<Rightarrow> m | Some s \<Rightarrow> m(k \<mapsto> Done (slot_fp s) status body ct hdrs))"

definition memo_release :: "string \<times> string \<Rightarrow> memo \<Rightarrow> memo" where
  "memo_release k m = m(k := None)"

definition slot_of :: "idem_row \<Rightarrow> idem_slot" where
  "slot_of r = (if ik_status r = IdempotencyCompleted
     then Done (ik_fingerprint r) (ik_response_status r) (ik_response_body r) (ik_response_ct r) (ik_response_headers r)
     else InProgress (ik_fingerprint r))"

definition memo_of :: "idem_db \<Rightarrow> memo" where
  "memo_of db = (\<lambda>(t, k). map_option slot_of (List.find (same_key t k) db))"

text \<open>The record a client reads back for a slot, the headers decoded.\<close>

definition shows_slot :: "json_codec \<Rightarrow> IdempotencyRecord \<Rightarrow> idem_slot \<Rightarrow> bool" where
  "shows_slot js rec s \<longleftrightarrow> ir_Fingerprint rec = slot_fp s \<and>
     (case s of
        InProgress _ \<Rightarrow> ir_Status rec \<noteq> IdempotencyCompleted
      | Done _ status body ct hdrs \<Rightarrow> ir_Status rec = IdempotencyCompleted \<and> ir_ResponseStatus rec = status \<and>
          ir_ResponseBody rec = body \<and> ir_ResponseCT rec = ct \<and>
          (if hdrs = [] then ir_ResponseHeaders rec = [] else js_unmarshal js hdrs = Inr (ir_ResponseHeaders rec)))"

lemma find_append: "List.find P (xs @ ys) = (case List.find P xs of None \<Rightarrow> List.find P ys | Some x \<Rightarrow> Some x)"
  by (induction xs) auto

lemma find_map_key:
  "(\<And>r. same_key t k (g r) = same_key t k r) \<Longrightarrow>
     List.find (same_key t k) (map g db) = map_option g (List.find (same_key t k) db)"
  by (induction db) auto

lemma find_delete_key:
  "List.find (same_key t k) (filter (\<lambda>r. \<not> same_key t' k' r) db) =
     (if t = t' \<and> k = k' then None else List.find (same_key t k) db)"
proof (induction db)
  case (Cons r db)
  have "same_key t k r \<Longrightarrow> same_key t' k' r \<longleftrightarrow> t = t' \<and> k = k'" by (auto simp: same_key_def)
  with Cons show ?case by auto
qed simp

lemma find_filter_sub:
  assumes "idem_inv db" and "List.find (same_key t k) (filter P db) = Some r"
  shows "List.find (same_key t k) db = Some r"
proof -
  have r: "r \<in> set db" "same_key t k r" using assms(2) by (auto simp: find_Some_iff dest: nth_mem)
  then have "filter (same_key t k) db = [r]" by (rule same_key_unique [OF assms(1)])
  moreover have "List.find (same_key t k) db = (case filter (same_key t k) db of [] \<Rightarrow> None | x # _ \<Rightarrow> Some x)"
    by (induction db) auto
  ultimately show ?thesis by simp
qed

lemma memo_of_none: "memo_of db (t, k) = None \<longleftrightarrow> \<not> list_ex (same_key t k) db"
  by (auto simp: memo_of_def find_None_iff list_ex_iff)

lemma Claim_refines:
  assumes "fault_free env"
  shows "memo_of (fst (ClaimIdempotencyKey js env t db tenant key fp rid)) = memo_claim (defaultTenant tenant, key) fp (memo_of db)"
proof (cases "list_ex (same_key (defaultTenant tenant) key) db")
  case True
  then have "memo_of db (defaultTenant tenant, key) \<noteq> None" by (simp add: memo_of_none)
  moreover have "fst (ClaimIdempotencyKey js env t db tenant key fp rid) = db"
    using True assms by (simp add: ClaimIdempotencyKey_def Let_def fault_free_def split: sum.splits)
  ultimately show ?thesis by (auto simp: memo_claim_def)
next
  case False
  let ?new = "new_idem_row (defaultTenant tenant) key fp rid (rfc3339nano t)"
  have "fst (ClaimIdempotencyKey js env t db tenant key fp rid) = db @ [?new]"
    using False assms by (simp add: ClaimIdempotencyKey_def Let_def fault_free_def)
  moreover have "slot_of ?new = InProgress fp" by (simp add: slot_of_def new_idem_row_def)
  moreover have "same_key x y ?new \<longleftrightarrow> x = defaultTenant tenant \<and> y = key" for x y
    by (auto simp: same_key_def new_idem_row_def)
  moreover have "List.find (same_key (defaultTenant tenant) key) db = None"
    using False by (auto simp: find_None_iff list_ex_iff)
  ultimately show ?thesis using False
    by (auto simp: memo_of_def memo_claim_def find_append fun_eq_iff split: option.splits)
qed

lemma Complete_refines:
  assumes "fault_free env" and "(if headers \<noteq> [] then js_marshal js headers else Inr []) = Inr hdrs"
  shows "memo_of (fst (CompleteIdempotencyKey js env t db tenant key status body ct headers)) =
    memo_complete (defaultTenant tenant, key) status body ct hdrs (memo_of db)"
proof -
  let ?g = "\<lambda>r. if same_key (defaultTenant tenant) key r then complete_row status body ct hdrs (rfc3339nano t) r else r"
  have db': "fst (CompleteIdempotencyKey js env t db tenant key status body ct headers) = map ?g db"
    using assms by (simp add: CompleteIdempotencyKey_def Let_def fault_free_def)
  have slot: "slot_of (complete_row status body ct hdrs n r) = Done (slot_fp (slot_of r)) status body ct hdrs" for n r
    by (simp add: slot_of_def complete_row_def)
  have k: "same_key x y (?g r) = same_key x y r" for x y r by (simp add: same_key_def)
  have f: "List.find (same_key x y) db = Some r \<Longrightarrow> same_key x y r" for x y r by (auto simp: find_Some_iff)
  have "memo_of (map ?g db) (x, y) = memo_complete (defaultTenant tenant, key) status body ct hdrs (memo_of db) (x, y)" for x y
  proof (cases "List.find (same_key x y) db")
    case None
    then show ?thesis unfolding memo_of_def memo_complete_def find_map_key [OF k] prod.case
      by (auto split: option.splits)
  next
    case (Some r)
    then have "ik_tenant_id r = x" "ik_idem_key r = y" using f by (auto simp: same_key_def)
    with Some show ?thesis unfolding memo_of_def memo_complete_def find_map_key [OF k] prod.case
      by (auto simp: slot same_key_def split: option.splits)
  qed
  then show ?thesis unfolding db' by (simp add: fun_eq_iff)
qed

lemma Delete_refines:
  assumes "fault_free env"
  shows "memo_of (fst (DeleteIdempotencyKey env db tenant key)) = memo_release (defaultTenant tenant, key) (memo_of db)"
  using assms by (auto simp: DeleteIdempotencyKey_def fault_free_def memo_of_def memo_release_def find_delete_key fun_eq_iff)

lemma Purge_refines:
  assumes "idem_inv db"
  shows "memo_of (fst (DeleteIdempotencyKeysBefore env db before)) \<subseteq>\<^sub>m memo_of db"
  using find_filter_sub [OF assms]
  by (auto simp: DeleteIdempotencyKeysBefore_def memo_of_def map_le_def split: option.splits)

lemma Claim_answer:
  assumes "idem_inv db" and "fault_free env" and "snd (ClaimIdempotencyKey js env t db tenant key fp rid) = Inr (rec, claimed)"
  shows "claimed \<longleftrightarrow> memo_of db (defaultTenant tenant, key) = None"
    and "memo_of db (defaultTenant tenant, key) = Some s \<Longrightarrow> shows_slot js rec s"
proof -
  let ?k = "same_key (defaultTenant tenant) key"
  show "claimed \<longleftrightarrow> memo_of db (defaultTenant tenant, key) = None"
    using assms(2,3) by (auto simp: memo_of_none ClaimIdempotencyKey_def Let_def fault_free_def split: if_splits sum.splits)
  assume "memo_of db (defaultTenant tenant, key) = Some s"
  then obtain r where r: "List.find ?k db = Some r" "s = slot_of r" by (auto simp: memo_of_def)
  then have "list_ex ?k db" by (auto simp: find_Some_iff list_ex_iff dest: nth_mem)
  then have "snd (ClaimIdempotencyKey js env t db tenant key fp rid) =
      (case scan_idem js r of Inl e \<Rightarrow> Inl e | Inr rec \<Rightarrow> Inr (rec, False))"
    using getIdempotencyKey_found [OF assms(1,2) r(1), of js] assms(2)
    by (auto simp: ClaimIdempotencyKey_def Let_def fault_free_def split: sum.splits)
  then have "scan_idem js r = Inr rec" using assms(3) by (auto split: sum.splits)
  then show "shows_slot js rec s"
    unfolding r(2) by (auto simp: scan_idem_def Let_def shows_slot_def slot_of_def split: if_splits sum.splits)
qed

text \<open>C31. The idempotency table implements a memo from (tenant, key) to an unused key, a running request or a
  stored answer: without driver faults a claim takes exactly the unused keys and otherwise reports
  the slot, completion stores the answer under the claimed fingerprint, release frees the key and
  expiry only removes slots.\<close>

theorem idempotency_store_refines:
  assumes "idem_inv db" and "fault_free env"
    and "(if headers \<noteq> [] then js_marshal js headers else Inr []) = Inr hdrs"
  shows "let k = (defaultTenant tenant, key); c = ClaimIdempotencyKey js env t db tenant key fp rid in
    memo_of (fst c) = memo_claim k fp (memo_of db) \<and>
    (\<forall>rec claimed. snd c = Inr (rec, claimed) \<longrightarrow>
       claimed = (memo_of db k = None) \<and> (\<forall>s. memo_of db k = Some s \<longrightarrow> shows_slot js rec s)) \<and>
    memo_of (fst (CompleteIdempotencyKey js env t db tenant key status body ct headers)) =
      memo_complete k status body ct hdrs (memo_of db) \<and>
    memo_of (fst (DeleteIdempotencyKey env db tenant key)) = memo_release k (memo_of db) \<and>
    memo_of (fst (DeleteIdempotencyKeysBefore env db before)) \<subseteq>\<^sub>m memo_of db \<and>
    idem_inv (fst c)"
  unfolding Let_def
proof (intro conjI allI impI)
  fix rec claimed s
  assume c: "snd (ClaimIdempotencyKey js env t db tenant key fp rid) = Inr (rec, claimed)"
  then show "claimed = (memo_of db (defaultTenant tenant, key) = None)" by (rule Claim_answer(1) [OF assms(1,2)])
  show "memo_of db (defaultTenant tenant, key) = Some s \<Longrightarrow> shows_slot js rec s" by (rule Claim_answer(2) [OF assms(1,2) c])
qed (simp_all add: Claim_refines [OF assms(2)] Complete_refines [OF assms(2,3)] Delete_refines [OF assms(2)]
    Purge_refines [OF assms(1)] Claim_inv [OF assms(1)])

end
