(* ===== verification/Idempotency_Handler.thy ===== *)
theory Idempotency_Handler
  imports Idempotency_Store Access_Types
begin

text \<open>
  The \<open>Idempotency-Key\<close> middleware, \<open>internal/api/rest/idempotency.go\<close>, with the parts of
  \<open>idempotency_boundary.go\<close> and \<open>idempotency_cached_response.go\<close> it calls directly.  SHA-256,
  the JSON text of an error or of an admission, the error classification, the replay boundary (an
  interface) and the wrapped handler are arguments.  A handler is what it does to the world and to
  its response writer, whether it panicked, and the admission it had observed.
\<close>

section \<open>Requests and handlers\<close>

record http_request =
  rq_Method :: string
  rq_Path :: string
  rq_RawQuery :: string
  rq_Header :: header
  rq_Body :: "(string list \<times> gerr option) option"
  rq_tenant :: string
  rq_requestID :: string
  rq_ctx_err :: "gerr option"

record 'o ReplayAdmission =
  ra_Action :: string
  ra_Resource :: Resource
  ra_Object :: "'o option"

datatype rw_action = HeaderSet string string | HeaderAdd string string | HeaderDel string | WriteStatus int | WriteBytes string

fun writer_step :: "rw_action \<Rightarrow> response_writer \<Rightarrow> response_writer" where
  "writer_step (HeaderSet k v) w = w\<lparr>rw_Header := header_Set (rw_Header w) k v\<rparr>"
| "writer_step (HeaderAdd k v) w = w\<lparr>rw_Header := header_Add (rw_Header w) k v\<rparr>"
| "writer_step (HeaderDel k) w = w\<lparr>rw_Header := header_Del (rw_Header w) k\<rparr>"
| "writer_step (WriteStatus status) w = http_WriteHeader status w"
| "writer_step (WriteBytes b) w = http_Write b w"

record ('w, 'o) served =
  sv_world :: 'w
  sv_actions :: "rw_action list"
  sv_panicked :: bool
  sv_observed :: "'o ReplayAdmission"

record 'o rest_lib =
  rl_sha256_hex :: "string \<Rightarrow> string"
  rl_error_json :: "string \<Rightarrow> string \<Rightarrow> string \<Rightarrow> string"
  rl_classify :: "gerr \<Rightarrow> string \<times> string \<times> int"
  rl_admission_json :: "'o ReplayAdmission \<Rightarrow> string res"

record IdempotencyHandler =
  ih_hashBody :: bool
  ih_boundary :: "(http_request \<Rightarrow> IdempotencyRecord \<Rightarrow> gerr option) option"

text \<open>\<open>mw.TenantFrom\<close> never returns the empty string.\<close>

definition TenantFrom :: "http_request \<Rightarrow> string" where
  "TenantFrom r = (if rq_tenant r = [] then ''default'' else rq_tenant r)"

definition writeJSON :: "'o rest_lib \<Rightarrow> int \<Rightarrow> string \<Rightarrow> string \<Rightarrow> string \<Rightarrow> response_writer \<Rightarrow> response_writer" where
  "writeJSON lib status code message reqID w =
     http_Write (rl_error_json lib code message reqID)
       (http_WriteHeader status (w\<lparr>rw_Header := header_Set (rw_Header w) ''Content-Type'' ''application/json; charset=utf-8''\<rparr>))"

section \<open>Fingerprints\<close>

definition fingerprintInput :: "http_request \<Rightarrow> string \<Rightarrow> string" where
  "fingerprintInput r bodyHash =
     rq_Method r @ '' '' @ rq_Path r @ (if rq_RawQuery r \<noteq> [] then ''?'' @ rq_RawQuery r else []) @
     (if bodyHash \<noteq> [] then '' '' @ bodyHash else [])"

definition fingerprint :: "'o rest_lib \<Rightarrow> http_request \<Rightarrow> string" where
  "fingerprint lib r = rl_sha256_hex lib (fingerprintInput r [])"

definition bodyFingerprint :: "'o rest_lib \<Rightarrow> http_request \<Rightarrow> string \<Rightarrow> string" where
  "bodyFingerprint lib r bodyHash = rl_sha256_hex lib (fingerprintInput r bodyHash)"

definition idemSpoolThreshold :: nat where
  "idemSpoolThreshold = 8388608"

record idemSpool =
  sp_mem :: string
  sp_file :: "string option"

text \<open>The file system as the spool sees it: which of its calls fail.\<close>

record spool_env =
  se_create :: "gerr option"
  se_write :: "string \<Rightarrow> gerr option"
  se_seek :: "gerr option"

definition spool_Write :: "spool_env \<Rightarrow> idemSpool \<Rightarrow> string \<Rightarrow> idemSpool res" where
  "spool_Write se sp p =
     (let append = (\<lambda>sp. case sp_file sp of
          Some f \<Rightarrow> (case se_write se p of Some e \<Rightarrow> Inl e | None \<Rightarrow> Inr (sp\<lparr>sp_file := Some (f @ p)\<rparr>))
        | None \<Rightarrow> Inr (sp\<lparr>sp_mem := sp_mem sp @ p\<rparr>)) in
      if sp_file sp = None \<and> length (sp_mem sp) + length p > idemSpoolThreshold then
        (case se_create se of
           Some e \<Rightarrow> Inl e
         | None \<Rightarrow> (case se_write se (sp_mem sp) of
              Some e \<Rightarrow> Inl e
            | None \<Rightarrow> append (sp\<lparr>sp_file := Some (sp_mem sp), sp_mem := []\<rparr>)))
      else append sp)"

definition spool_reader :: "spool_env \<Rightarrow> idemSpool \<Rightarrow> string res" where
  "spool_reader se sp =
     (case sp_file sp of
        Some f \<Rightarrow> (case se_seek se of Some e \<Rightarrow> Inl e | None \<Rightarrow> Inr f)
      | None \<Rightarrow> Inr (sp_mem sp))"

fun spool_copy :: "spool_env \<Rightarrow> idemSpool \<Rightarrow> string list \<Rightarrow> idemSpool res" where
  "spool_copy se sp [] = Inr sp"
| "spool_copy se sp (c # cs) = (case spool_Write se sp c of Inl e \<Rightarrow> Inl e | Inr sp' \<Rightarrow> spool_copy se sp' cs)"

definition spoolBody :: "'o rest_lib \<Rightarrow> spool_env \<Rightarrow> http_request \<Rightarrow> (http_request \<times> string) res" where
  "spoolBody lib se r =
     (case rq_Body r of
        None \<Rightarrow> Inr (r, rl_sha256_hex lib [])
      | Some (chunks, err) \<Rightarrow>
          (case spool_copy se \<lparr>sp_mem = [], sp_file = None\<rparr> chunks of
             Inl e \<Rightarrow> Inl e
           | Inr sp \<Rightarrow>
               (case err of
                  Some e \<Rightarrow> Inl e
                | None \<Rightarrow>
                    (case spool_reader se sp of
                       Inl e \<Rightarrow> Inl e
                     | Inr body \<Rightarrow> Inr (r\<lparr>rq_Body := Some ([body], None)\<rparr>, rl_sha256_hex lib (concat chunks))))))"

section \<open>Capture and replay\<close>

record idemCapture =
  ic_writer :: response_writer
  ic_status :: int
  ic_wroteHeader :: bool
  ic_body :: string

definition capture_WriteHeader :: "int \<Rightarrow> idemCapture \<Rightarrow> idemCapture" where
  "capture_WriteHeader status c =
     (if ic_wroteHeader c then c
      else c\<lparr>ic_status := status, ic_wroteHeader := True, ic_writer := http_WriteHeader status (ic_writer c)\<rparr>)"

definition capture_Write :: "string \<Rightarrow> idemCapture \<Rightarrow> idemCapture" where
  "capture_Write b c =
     (let c' = (if \<not> ic_wroteHeader c then capture_WriteHeader 200 c else c) in
      c'\<lparr>ic_body := ic_body c' @ b, ic_writer := http_Write b (ic_writer c')\<rparr>)"

text \<open>The headers are those of the wrapped writer; status and body go through the capture.\<close>

fun capture_step :: "rw_action \<Rightarrow> idemCapture \<Rightarrow> idemCapture" where
  "capture_step (WriteStatus status) c = capture_WriteHeader status c"
| "capture_step (WriteBytes b) c = capture_Write b c"
| "capture_step a c = c\<lparr>ic_writer := writer_step a (ic_writer c)\<rparr>"

definition new_capture :: "response_writer \<Rightarrow> idemCapture" where
  "new_capture w = \<lparr>ic_writer = w, ic_status = 200, ic_wroteHeader = False, ic_body = []\<rparr>"

abbreviation replayAdmissionHeader :: string where
  "replayAdmissionHeader \<equiv> ''Aero-Internal-Replay-Admission''"

definition replayableHeaders :: "header \<Rightarrow> header" where
  "replayableHeaders h = filter (\<lambda>(k, _). CanonicalHeaderKey k \<notin> {''Content-Type'', ''Content-Length'', ''Date''}) h"

definition replayAdmissionHeaders :: "'o rest_lib \<Rightarrow> header \<Rightarrow> 'o ReplayAdmission \<Rightarrow> header" where
  "replayAdmissionHeaders lib headers admission =
     (let hs = filter (\<lambda>(k, _). \<not> equal_fold k replayAdmissionHeader) headers in
      if r_Key (ra_Resource admission) \<noteq> [] then
        (case rl_admission_json lib admission of
           Inr body \<Rightarrow> AList.update replayAdmissionHeader [body] hs
         | Inl _ \<Rightarrow> hs)
      else hs)"

definition replay_headers :: "IdempotencyRecord \<Rightarrow> header \<Rightarrow> header" where
  "replay_headers rec h =
     (let h1 = (if ir_ResponseCT rec \<noteq> [] then header_Set h ''Content-Type'' (ir_ResponseCT rec) else h);
          h2 = fold (\<lambda>(k, vals) h. if CanonicalHeaderKey k = replayAdmissionHeader then h else fold (\<lambda>v h. header_Add h k v) vals h)
                 (ir_ResponseHeaders rec) h1 in
      header_Set h2 ''Idempotency-Replayed'' ''true'')"

definition replay :: "response_writer \<Rightarrow> IdempotencyRecord \<Rightarrow> response_writer" where
  "replay w rec =
     http_Write (ir_ResponseBody rec)
       (http_WriteHeader (ir_ResponseStatus rec) (w\<lparr>rw_Header := replay_headers rec (rw_Header w)\<rparr>))"

section \<open>The middleware\<close>

definition idemConflict :: "'o rest_lib \<Rightarrow> string \<Rightarrow> string \<Rightarrow> response_writer \<Rightarrow> response_writer" where
  "idemConflict lib reqID msg w = writeJSON lib 409 ''IdempotencyConflict'' msg reqID w"

definition isWriteMethod :: "string \<Rightarrow> bool" where
  "isWriteMethod m \<longleftrightarrow> m \<in> {''PUT'', ''POST'', ''PATCH'', ''DELETE''}"

definition extractIdempotencyKey :: "http_request \<Rightarrow> string \<times> bool" where
  "extractIdempotencyKey r = (let key = header_Get (rq_Header r) ''Idempotency-Key'' in (key, key \<noteq> [] \<and> isWriteMethod (rq_Method r)))"

definition replayFault :: "gerr \<Rightarrow> gerr" where
  "replayFault cause = Errorf ''replay'' [Sentinel ErrResourceBoundaryFault, cause]"

definition admitReplay :: "IdempotencyHandler \<Rightarrow> http_request \<Rightarrow> IdempotencyRecord \<Rightarrow> gerr option" where
  "admitReplay ih r rec =
     (case ih_boundary ih of
        None \<Rightarrow> Some (replayFault (NewError ''missing idempotency replay boundary''))
      | Some admit \<Rightarrow>
          if ir_TenantID rec \<noteq> TenantFrom r \<or> ir_Key rec \<noteq> header_Get (rq_Header r) ''Idempotency-Key'' then
            Some (replayFault (NewError ''idempotency record scope conflict''))
          else (case admit r rec of
                  Some e \<Rightarrow> Some e
                | None \<Rightarrow> map_option replayFault (rq_ctx_err r)))"

definition handleIdempotentRequest ::
  "'o rest_lib \<Rightarrow> IdempotencyHandler \<Rightarrow> json_codec \<Rightarrow> sql_env \<Rightarrow> instant \<Rightarrow> idem_db \<Rightarrow> response_writer \<Rightarrow> http_request \<Rightarrow>
     string \<Rightarrow> string \<Rightarrow> string \<Rightarrow> string \<Rightarrow> idem_db \<times> response_writer option" where
  "handleIdempotentRequest lib ih js env t db w r key fp tenant reqID =
     (case ClaimIdempotencyKey js env t db tenant key fp reqID of
        (db', Inl e) \<Rightarrow> (db', Some (writeJSON lib 500 ''InternalError'' ''idempotency store unavailable'' reqID w))
      | (db', Inr (rec, claimed)) \<Rightarrow>
          if claimed then (db', None)
          else (db', Some (
            if ir_Fingerprint rec \<noteq> fp then idemConflict lib reqID ''Idempotency-Key reused for a different request'' w
            else if ir_Status rec = ''completed'' then
              (case admitReplay ih r rec of
                 Some e \<Rightarrow> (case rl_classify lib e of (code, message, status) \<Rightarrow> writeJSON lib status code message reqID w)
               | None \<Rightarrow> replay w rec)
            else idemConflict lib reqID ''a request with this Idempotency-Key is already in progress'' w)))"

definition settleIdempotent ::
  "'o rest_lib \<Rightarrow> json_codec \<Rightarrow> sql_env \<Rightarrow> instant \<Rightarrow> idem_db \<Rightarrow> string \<Rightarrow> string \<Rightarrow> ('w, 'o) served \<Rightarrow> idemCapture \<Rightarrow> idem_db" where
  "settleIdempotent lib js env t db key tenant sv cap =
     (if sv_panicked sv \<or> ic_status cap \<ge> 500 then fst (DeleteIdempotencyKey env db tenant key)
      else fst (CompleteIdempotencyKey js env t db tenant key (ic_status cap) (ic_body cap)
             (header_Get (rw_Header (ic_writer cap)) ''Content-Type'')
             (replayAdmissionHeaders lib (replayableHeaders (rw_Header (ic_writer cap))) (sv_observed sv))))"

definition executeIdempotent ::
  "'o rest_lib \<Rightarrow> json_codec \<Rightarrow> sql_env \<Rightarrow> instant \<Rightarrow> idem_db \<Rightarrow> response_writer \<Rightarrow> ('w, 'o) served \<Rightarrow> string \<Rightarrow> string \<Rightarrow>
     idem_db \<times> response_writer" where
  "executeIdempotent lib js env t db w sv key tenant =
     (let cap = fold capture_step (sv_actions sv) (new_capture w) in
      (settleIdempotent lib js env t db key tenant sv cap, ic_writer cap))"

definition request_fingerprint :: "'o rest_lib \<Rightarrow> IdempotencyHandler \<Rightarrow> spool_env \<Rightarrow> http_request \<Rightarrow> (http_request \<times> string) res" where
  "request_fingerprint lib ih se r =
     (if ih_hashBody ih then
        (case spoolBody lib se r of
           Inl e \<Rightarrow> Inl e
         | Inr (r', bodyHash) \<Rightarrow> Inr (r', bodyFingerprint lib r' bodyHash))
      else Inr (r, fingerprint lib r))"

text \<open>
  \<open>serveIdempotent\<close>: the table is read at the claim (driver \<open>env\<close>, time \<open>t\<close>) and written when the
  handler has returned (\<open>env'\<close>, \<open>t'\<close>).  The result is the table, the world, the response writer and
  whether a panic goes on unwinding.
\<close>

definition serveIdempotent ::
  "'o rest_lib \<Rightarrow> IdempotencyHandler \<Rightarrow> json_codec \<Rightarrow> spool_env \<Rightarrow> sql_env \<Rightarrow> instant \<Rightarrow> sql_env \<Rightarrow> instant \<Rightarrow>
     (http_request \<Rightarrow> 'w \<Rightarrow> ('w, 'o) served) \<Rightarrow> idem_db \<Rightarrow> 'w \<Rightarrow> response_writer \<Rightarrow> http_request \<Rightarrow>
     idem_db \<times> 'w \<times> response_writer \<times> bool" where
  "serveIdempotent lib ih js se env t env' t' next_h db world w r =
     (case extractIdempotencyKey r of
        (key, ok) \<Rightarrow>
          if \<not> ok then
            (let sv = next_h r world in
             (db, sv_world sv, fold writer_step (sv_actions sv) w, sv_panicked sv))
          else
            (case request_fingerprint lib ih se r of
               Inl e \<Rightarrow> (db, world, writeJSON lib 500 ''InternalError'' ''could not buffer request body'' (rq_requestID r) w, False)
             | Inr (r', fp) \<Rightarrow>
                 (case handleIdempotentRequest lib ih js env t db w r' key fp (TenantFrom r) (rq_requestID r) of
                    (db', Some w') \<Rightarrow> (db', world, w', False)
                  | (db', None) \<Rightarrow>
                      (let sv = next_h r' world; (db'', w') = executeIdempotent lib js env' t' db' w sv key (TenantFrom r) in
                       (db'', sv_world sv, w', sv_panicked sv)))))"


section \<open>The spool hands the body on unchanged within its memory bound\<close>

definition spool_content :: "idemSpool \<Rightarrow> string" where
  "spool_content sp = (case sp_file sp of Some f \<Rightarrow> f | None \<Rightarrow> sp_mem sp)"

lemma spool_Write_content:
  assumes "spool_Write se sp p = Inr sp'" and "length (sp_mem sp) \<le> idemSpoolThreshold"
  shows "spool_content sp' = spool_content sp @ p \<and> length (sp_mem sp') \<le> idemSpoolThreshold"
  using assms by (auto simp: spool_Write_def spool_content_def Let_def split: option.splits if_splits)

lemma spool_copy_content:
  "spool_copy se sp cs = Inr sp' \<Longrightarrow> length (sp_mem sp) \<le> idemSpoolThreshold \<Longrightarrow>
     spool_content sp' = spool_content sp @ concat cs \<and> length (sp_mem sp') \<le> idemSpoolThreshold"
  by (induction se sp cs rule: spool_copy.induct) (auto split: sum.splits dest!: spool_Write_content)

lemma spoolBody_content:
  assumes "spoolBody lib se r = Inr (r', hash)" and "rq_Body r = Some (chunks, err)"
  shows "rq_Body r' = Some ([concat chunks], None) \<and> hash = rl_sha256_hex lib (concat chunks)"
proof -
  obtain sp where sp: "spool_copy se \<lparr>sp_mem = [], sp_file = None\<rparr> chunks = Inr sp"
    using assms by (auto simp: spoolBody_def split: sum.splits)
  from spool_copy_content [OF this] have "spool_content sp = concat chunks" by (simp add: spool_content_def)
  with sp assms show ?thesis
    by (auto simp: spoolBody_def spool_reader_def spool_content_def split: sum.splits option.splits)
qed

lemma request_fingerprint_frame:
  assumes "request_fingerprint lib ih se r = Inr (r', fp)"
  shows "rq_Header r' = rq_Header r" "rq_tenant r' = rq_tenant r" "rq_ctx_err r' = rq_ctx_err r"
  using assms by (auto simp: request_fingerprint_def spoolBody_def split: if_splits sum.splits option.splits)

section \<open>What the client and the memo see of a captured response\<close>

definition final_status :: "rw_action \<Rightarrow> bool" where
  "final_status a = (case a of WriteStatus st \<Rightarrow> 200 \<le> st | _ \<Rightarrow> True)"

definition fresh_writer :: "response_writer \<Rightarrow> bool" where
  "fresh_writer w \<longleftrightarrow> rw_sent w = None \<and> rw_body w = [] \<and> header_ok (rw_Header w)"

definition cap_ok :: "idemCapture \<Rightarrow> bool" where
  "cap_ok c \<longleftrightarrow> header_ok (rw_Header (ic_writer c)) \<and>
     (if ic_wroteHeader c
      then 200 \<le> ic_status c \<and> map_option fst (rw_sent (ic_writer c)) = Some (ic_status c) \<and>
           rw_body (ic_writer c) = (if body_allowed (ic_status c) then ic_body c else [])
      else ic_status c = 200 \<and> rw_sent (ic_writer c) = None \<and> ic_body c = [] \<and> rw_body (ic_writer c) = [])"

lemma cap_ok_new: "fresh_writer w \<Longrightarrow> cap_ok (new_capture w)"
  by (simp add: fresh_writer_def cap_ok_def new_capture_def)

lemma cap_ok_WriteHeader: "cap_ok c \<Longrightarrow> 200 \<le> st \<Longrightarrow> cap_ok (capture_WriteHeader st c)"
  by (auto simp: cap_ok_def capture_WriteHeader_def http_WriteHeader_def)

lemma cap_ok_append:
  assumes "cap_ok c" and "ic_wroteHeader c"
  shows "cap_ok (c\<lparr>ic_body := ic_body c @ b, ic_writer := http_Write b (ic_writer c)\<rparr>)"
proof -
  obtain h where "rw_sent (ic_writer c) = Some (ic_status c, h)" using assms by (auto simp: cap_ok_def)
  then have "http_Write b (ic_writer c) =
      (if body_allowed (ic_status c) then (ic_writer c)\<lparr>rw_body := rw_body (ic_writer c) @ b\<rparr> else ic_writer c)"
    by (simp add: http_Write_def Let_def)
  with assms show ?thesis by (simp add: cap_ok_def)
qed

lemma cap_ok_Write:
  assumes "cap_ok c" shows "cap_ok (capture_Write b c)"
proof (cases "ic_wroteHeader c")
  case True
  with assms show ?thesis by (simp add: capture_Write_def cap_ok_append)
next
  case False
  then have "ic_wroteHeader (capture_WriteHeader 200 c)" by (simp add: capture_WriteHeader_def)
  with False cap_ok_append [OF cap_ok_WriteHeader [OF assms, of 200]] show ?thesis by (simp add: capture_Write_def Let_def)
qed

lemma cap_ok_step: "cap_ok c \<Longrightarrow> final_status a \<Longrightarrow> cap_ok (capture_step a c)"
  by (cases a) (simp_all add: cap_ok_WriteHeader cap_ok_Write final_status_def, simp_all add: cap_ok_def)

lemma cap_ok_fold: "cap_ok c \<Longrightarrow> list_all final_status as \<Longrightarrow> cap_ok (fold capture_step as c)"
  by (induction as arbitrary: c) (simp_all add: cap_ok_step)

lemma cap_ok_client:
  "cap_ok c \<Longrightarrow> \<exists>h. http_finish (ic_writer c) = (ic_status c, h, if body_allowed (ic_status c) then ic_body c else [])"
  by (auto simp: cap_ok_def http_finish_def body_allowed_def split: if_splits option.splits)

lemma replay_client:
  "fresh_writer w \<Longrightarrow> 200 \<le> ir_ResponseStatus rec \<Longrightarrow>
     http_finish (replay w rec) =
       (ir_ResponseStatus rec, replay_headers rec (rw_Header w),
        if body_allowed (ir_ResponseStatus rec) then ir_ResponseBody rec else [])"
  by (simp add: fresh_writer_def replay_def http_WriteHeader_def http_Write_def http_finish_def Let_def)

section \<open>Headers of a replayed response\<close>

lemma header_values_Cons: "header_values ((k, vs) # h) x = (if x = k then vs else header_values h x)"
  by (simp add: header_values_def)

lemma header_values_absent: "x \<notin> fst ` set h \<Longrightarrow> header_values h x = []"
  by (simp add: header_values_def map_of_eq_None_iff [symmetric])

lemma replay_fold_values:
  "header_ok hs \<Longrightarrow>
     header_values (fold (\<lambda>(k, vals) h. if CanonicalHeaderKey k = replayAdmissionHeader then h else fold (\<lambda>v h. header_Add h k v) vals h) hs h) x
       = header_values h x @ (if x = replayAdmissionHeader then [] else header_values hs x)"
proof (induction hs arbitrary: h)
  case Nil
  show ?case by (simp add: header_values_def)
next
  case (Cons kv hs)
  obtain k vs where kv: "kv = (k, vs)" by (cases kv)
  from Cons.prems have k: "CanonicalHeaderKey k = k" "k \<notin> fst ` set hs" "header_ok hs"
    by (auto simp: kv header_ok_def)
  then show ?case
    using Cons.IH [OF k(3)] header_values_absent [OF k(2)]
    by (simp add: kv header_values_Cons header_values_Add_list)
qed

lemma canonical_names [simp]:
  "CanonicalHeaderKey replayAdmissionHeader = replayAdmissionHeader"
  "CanonicalHeaderKey ''Content-Type'' = ''Content-Type''"
  "CanonicalHeaderKey ''Idempotency-Replayed'' = ''Idempotency-Replayed''"
  by code_simp+

lemma stored_headers_ok: "header_ok h \<Longrightarrow> header_ok (replayAdmissionHeaders lib (replayableHeaders h) adm)"
  using header_ok_update [of _ replayAdmissionHeader]
  by (auto simp: replayAdmissionHeaders_def replayableHeaders_def header_ok_filter Let_def split: sum.splits)

lemma stored_header_values:
  assumes "header_ok h" and "CanonicalHeaderKey x = x" and "x \<noteq> replayAdmissionHeader"
  shows "header_values (replayAdmissionHeaders lib (replayableHeaders h) adm) x =
    (if x \<in> {''Content-Type'', ''Content-Length'', ''Date''} \<or> equal_fold x replayAdmissionHeader then [] else header_values h x)"
proof -
  let ?P = "\<lambda>k. CanonicalHeaderKey k \<notin> {''Content-Type'', ''Content-Length'', ''Date''}"
  let ?h = "filter (\<lambda>(k, _). \<not> equal_fold k replayAdmissionHeader) (replayableHeaders h)"
  have h: "header_values ?h x =
      (if x \<in> {''Content-Type'', ''Content-Length'', ''Date''} \<or> equal_fold x replayAdmissionHeader then [] else header_values h x)"
    unfolding replayableHeaders_def
    using header_values_filter [OF header_ok_filter [OF assms(1)], of "\<lambda>k. \<not> equal_fold k replayAdmissionHeader" "\<lambda>(k, _). ?P k"]
      header_values_filter [OF assms(1), of ?P] assms(2) by auto
  have "header_values (AList.update replayAdmissionHeader b ?h) x = header_values ?h x" for b
    using assms(3) by (simp add: header_values_def update_conv')
  with h show ?thesis unfolding replayAdmissionHeaders_def Let_def by (auto split: sum.splits)
qed

lemma replay_header_values:
  assumes "header_ok (ir_ResponseHeaders rec)" and "x \<noteq> ''Content-Type''" and "x \<noteq> ''Idempotency-Replayed''"
  shows "header_values (replay_headers rec h) x =
    header_values h x @ (if x = replayAdmissionHeader then [] else header_values (ir_ResponseHeaders rec) x)"
  using assms by (simp add: replay_headers_def Let_def header_values_Set replay_fold_values)


section \<open>A completed key is replayed, not executed again\<close>

definition codec_ok :: "json_codec \<Rightarrow> header \<Rightarrow> string \<Rightarrow> bool" where
  "codec_ok js h txt \<longleftrightarrow> (if h = [] then txt = [] else js_marshal js h = Inr txt \<and> txt \<noteq> [] \<and> js_unmarshal js txt = Inr h)"

lemma defaultTenant_TenantFrom [simp]: "defaultTenant (TenantFrom r) = TenantFrom r"
  by (simp add: defaultTenant_def TenantFrom_def)

lemma Claim_fresh:
  assumes "fault_free env" and "memo_of db (defaultTenant tenant, key) = None"
  shows "\<exists>db' rec. ClaimIdempotencyKey js env t db tenant key fp rid = (db', Inr (rec, True)) \<and>
    memo_of db' (defaultTenant tenant, key) = Some (InProgress fp)"
proof -
  have "\<exists>db' rec. ClaimIdempotencyKey js env t db tenant key fp rid = (db', Inr (rec, True))"
    using assms by (simp add: memo_of_none ClaimIdempotencyKey_def Let_def fault_free_def)
  with Claim_refines [OF assms(1), of js t db tenant key fp rid] assms(2) show ?thesis
    by (auto simp: memo_claim_def)
qed

lemma Claim_done:
  assumes "idem_inv db" and "fault_free env" and "memo_of db (defaultTenant tenant, key) = Some (Done fp' st b ct hdrs)"
    and "if hdrs = [] then h = [] else js_unmarshal js hdrs = Inr h"
  shows "\<exists>rec. ClaimIdempotencyKey js env t db tenant key fp rid = (db, Inr (rec, False)) \<and>
    ir_TenantID rec = defaultTenant tenant \<and> ir_Key rec = key \<and> ir_Fingerprint rec = fp' \<and> ir_Status rec = IdempotencyCompleted \<and>
    ir_ResponseStatus rec = st \<and> ir_ResponseBody rec = b \<and> ir_ResponseCT rec = ct \<and> ir_ResponseHeaders rec = h"
proof -
  let ?k = "same_key (defaultTenant tenant) key"
  from assms(3) obtain r where r: "List.find ?k db = Some r" "slot_of r = Done fp' st b ct hdrs" by (auto simp: memo_of_def)
  then have k: "list_ex ?k db" "?k r" by (auto simp: find_Some_iff list_ex_iff dest: nth_mem)
  from r(2) have row: "ik_status r = IdempotencyCompleted" "ik_fingerprint r = fp'" "ik_response_status r = st"
    "ik_response_body r = b" "ik_response_ct r = ct" "ik_response_headers r = hdrs"
    by (auto simp: slot_of_def split: if_splits)
  define rec where "rec = \<lparr>ir_TenantID = ik_tenant_id r, ir_Key = ik_idem_key r, ir_Fingerprint = ik_fingerprint r, ir_Status = ik_status r,
      ir_RequestID = ik_request_id r, ir_ResponseStatus = ik_response_status r, ir_ResponseBody = ik_response_body r,
      ir_ResponseCT = ik_response_ct r, ir_ResponseHeaders = h, ir_CompletedAt = ik_completed_at r,
      ir_CreatedAt = Some (ik_created_at r)\<rparr>"
  have "scan_idem js r = Inr rec" using assms(4) by (auto simp: scan_idem_def Let_def row rec_def split: if_splits)
  then have "ClaimIdempotencyKey js env t db tenant key fp rid = (db, Inr (rec, False))"
    using k getIdempotencyKey_found [OF assms(1,2) r(1), of js] assms(2)
    by (simp add: ClaimIdempotencyKey_def Let_def fault_free_def)
  with k(2) row show ?thesis by (intro exI [of _ rec]) (simp add: rec_def same_key_def)
qed

text \<open>The first request leaves its answer in the memo.\<close>

lemma first_request_memo:
  assumes key: "extractIdempotencyKey r = (key, True)" and fp: "request_fingerprint lib ih se r = Inr (r', fp)"
    and ff: "fault_free env" "fault_free env'" and free: "memo_of db (TenantFrom r, key) = None"
    and cap: "cap = fold capture_step (sv_actions (next_h r' world)) (new_capture w)"
    and ok: "\<not> sv_panicked (next_h r' world)" "ic_status cap < 500"
    and hs: "hs = replayAdmissionHeaders lib (replayableHeaders (rw_Header (ic_writer cap))) (sv_observed (next_h r' world))"
    and codec: "codec_ok js hs txt"
  shows "\<exists>db1. serveIdempotent lib ih js se env t env' t' next_h db world w r = (db1, sv_world (next_h r' world), ic_writer cap, False) \<and>
    memo_of db1 (TenantFrom r, key) =
      Some (Done fp (ic_status cap) (ic_body cap) (header_Get (rw_Header (ic_writer cap)) ''Content-Type'') txt)"
proof -
  have free': "memo_of db (defaultTenant (TenantFrom r), key) = None" using free by simp
  obtain db' rec where c: "ClaimIdempotencyKey js env t db (TenantFrom r) key fp (rq_requestID r) = (db', Inr (rec, True))"
    and m: "memo_of db' (TenantFrom r, key) = Some (InProgress fp)"
    using Claim_fresh [OF ff(1) free', of js t fp "rq_requestID r"] by auto
  have enc: "(if hs \<noteq> [] then js_marshal js hs else Inr []) = Inr txt" using codec by (auto simp: codec_ok_def split: if_splits)
  let ?ct = "header_Get (rw_Header (ic_writer cap)) ''Content-Type''"
  let ?db1 = "fst (CompleteIdempotencyKey js env' t' db' (TenantFrom r) key (ic_status cap) (ic_body cap) ?ct hs)"
  have "memo_of ?db1 (TenantFrom r, key) = Some (Done fp (ic_status cap) (ic_body cap) ?ct txt)"
    unfolding Complete_refines [OF ff(2) enc] by (simp add: memo_complete_def m)
  moreover have "serveIdempotent lib ih js se env t env' t' next_h db world w r = (?db1, sv_world (next_h r' world), ic_writer cap, False)"
    using ok by (simp add: serveIdempotent_def key fp handleIdempotentRequest_def c executeIdempotent_def Let_def settleIdempotent_def
        cap [symmetric] hs [symmetric])
  ultimately show ?thesis by blast
qed

text \<open>
  A request that finds a completed key with its fingerprint is answered without the handler: from the memo
  when the boundary admits the record, with the error of the boundary otherwise.
\<close>

lemma repeat_request_answered:
  assumes key: "extractIdempotencyKey r = (key, True)" and fp: "request_fingerprint lib ih se r = Inr (r', fp)"
    and ff: "fault_free env" and inv: "idem_inv db" and m: "memo_of db (TenantFrom r, key) = Some (Done fp st b ct txt)"
    and h: "if txt = [] then h = [] else js_unmarshal js txt = Inr h"
  shows "\<exists>rec. serveIdempotent lib ih js se env t env' t' next_h db world w r = (db, world,
       case admitReplay ih r' rec of
         Some e \<Rightarrow> (case rl_classify lib e of (code, message, status) \<Rightarrow> writeJSON lib status code message (rq_requestID r) w)
       | None \<Rightarrow> replay w rec, False) \<and>
    ir_TenantID rec = TenantFrom r \<and> ir_Key rec = key \<and>
    ir_ResponseStatus rec = st \<and> ir_ResponseBody rec = b \<and> ir_ResponseCT rec = ct \<and> ir_ResponseHeaders rec = h"
proof -
  have m': "memo_of db (defaultTenant (TenantFrom r), key) = Some (Done fp st b ct txt)" using m by simp
  obtain rec where c: "ClaimIdempotencyKey js env t db (TenantFrom r) key fp (rq_requestID r) = (db, Inr (rec, False))"
    and rec: "ir_TenantID rec = TenantFrom r" "ir_Key rec = key" "ir_Fingerprint rec = fp" "ir_Status rec = ''completed''"
    and ans: "ir_ResponseStatus rec = st" "ir_ResponseBody rec = b" "ir_ResponseCT rec = ct" "ir_ResponseHeaders rec = h"
    using Claim_done [OF inv ff m' h, of t fp "rq_requestID r"] by auto
  show ?thesis
    by (rule exI [of _ rec]) (simp add: serveIdempotent_def key fp handleIdempotentRequest_def c rec ans)
qed

lemma first_request_writer:
  assumes "extractIdempotencyKey r = (key, True)" and "request_fingerprint lib ih se r = Inr (r', fp)"
    and "fault_free env" and "memo_of db (TenantFrom r, key) = None"
    and "serveIdempotent lib ih js se env t env' t' next_h db world w r = (db1, world1, w1, panicked)"
  shows "w1 = ic_writer (fold capture_step (sv_actions (next_h r' world)) (new_capture w)) \<and> panicked = sv_panicked (next_h r' world)"
proof -
  have free: "memo_of db (defaultTenant (TenantFrom r), key) = None" using assms(4) by simp
  obtain db' rec where "ClaimIdempotencyKey js env t db (TenantFrom r) key fp (rq_requestID r) = (db', Inr (rec, True))"
    using Claim_fresh [OF assms(3) free, of js t fp "rq_requestID r"] by auto
  with assms(5) show ?thesis
    by (simp add: serveIdempotent_def assms(1,2) handleIdempotentRequest_def executeIdempotent_def Let_def)
qed


end
