(* ===== verification/Idempotency_Examples.thy ===== *)
theory Idempotency_Examples
  imports Idempotency_Handler
begin

text \<open>
  A PUT is executed and repeated under one key; the request id header, which a middleware sets on every
  response, is on both writers.
\<close>

definition demo_lib :: "unit rest_lib" where
  "demo_lib = \<lparr>rl_sha256_hex = (\<lambda>s. s), rl_error_json = (\<lambda>_ _ _. ''{}''), rl_classify = (\<lambda>_. (''InternalError'', [], 500)),
     rl_admission_json = (\<lambda>_. Inr ''{}'')\<rparr>"

definition demo_ih :: IdempotencyHandler where
  "demo_ih = \<lparr>ih_hashBody = False, ih_boundary = Some (\<lambda>r rec. if ir_TenantID rec = TenantFrom r \<and> header_values (ir_ResponseHeaders rec) ''X-Request-Id'' = [''one'']
     then None else Some (NewError ''refused''))\<rparr>"

definition demo_headers :: "string \<Rightarrow> header" where
  "demo_headers i = [(''X-Request-Id'', [i])]"

definition demo_codec :: json_codec where
  "demo_codec = \<lparr>js_marshal = (\<lambda>_. Inr ''{}''), js_unmarshal = (\<lambda>_. Inr (demo_headers ''one''))\<rparr>"

definition demo_put :: http_request where
  "demo_put = \<lparr>rq_Method = ''PUT'', rq_Path = ''/f'', rq_RawQuery = [], rq_Header = [(''Idempotency-Key'', [''k''])], rq_Body = None,
     rq_tenant = ''t'', rq_requestID = ''one'', rq_ctx_err = None\<rparr>"

definition demo_next :: "http_request \<Rightarrow> nat \<Rightarrow> (nat, unit) served" where
  "demo_next r n = \<lparr>sv_world = Suc n, sv_actions = [WriteStatus 201, WriteBytes ''ok''], sv_panicked = False,
     sv_observed = \<lparr>ra_Action = [], ra_Resource = \<lparr>r_TenantID = [], r_Bucket = [], r_Key = [], r_Kind = [], r_OwnerID = []\<rparr>,
       ra_Object = None\<rparr>\<rparr>"

definition demo_writer :: "string \<Rightarrow> response_writer" where
  "demo_writer i = \<lparr>rw_Header = demo_headers i, rw_sent = None, rw_body = []\<rparr>"

abbreviation sq :: sql_env where
  "sq \<equiv> no_faults dialectSQLite"

abbreviation sp_ok :: spool_env where
  "sp_ok \<equiv> \<lparr>se_create = None, se_write = (\<lambda>_. None), se_seek = None\<rparr>"

definition demo_row :: idem_row where
  "demo_row = complete_row 201 ''ok'' [] ''{}'' (rfc3339nano 2) (new_idem_row ''t'' ''k'' ''PUT /f'' ''one'' (rfc3339nano 1))"

definition demo_sent :: response_writer where
  "demo_sent = \<lparr>rw_Header = demo_headers ''one'', rw_sent = Some (201, demo_headers ''one''), rw_body = ''ok''\<rparr>"

lemma demo_canonical:
  "CanonicalHeaderKey ''Idempotency-Key'' = ''Idempotency-Key''" "CanonicalHeaderKey ''X-Request-Id'' = ''X-Request-Id''"
  by code_simp+

lemma demo_fold: "\<not> equal_fold ''X-Request-Id'' replayAdmissionHeader"
  by code_simp

lemma demo_key: "extractIdempotencyKey demo_put = (''k'', True)"
  by (simp add: extractIdempotencyKey_def demo_put_def header_Get_def header_values_def demo_canonical isWriteMethod_def Let_def)

lemma demo_fingerprint: "request_fingerprint demo_lib demo_ih se demo_put = Inr (demo_put, ''PUT /f'')"
  by (simp add: request_fingerprint_def demo_ih_def demo_lib_def fingerprint_def fingerprintInput_def demo_put_def)

lemma demo_tenant: "TenantFrom demo_put = ''t''"
  by (simp add: TenantFrom_def demo_put_def)

lemma demo_capture: "fold capture_step (sv_actions (demo_next q n)) (new_capture (demo_writer ''one'')) =
    \<lparr>ic_writer = demo_sent, ic_status = 201, ic_wroteHeader = True, ic_body = ''ok''\<rparr>"
  by (simp add: demo_next_def new_capture_def demo_writer_def capture_WriteHeader_def capture_Write_def http_WriteHeader_def
      http_Write_def body_allowed_def demo_sent_def)

lemma demo_stored: "replayAdmissionHeaders demo_lib (replayableHeaders (rw_Header demo_sent)) (sv_observed (demo_next q n)) = demo_headers ''one''"
  by (simp add: replayAdmissionHeaders_def replayableHeaders_def demo_sent_def demo_headers_def demo_next_def demo_canonical demo_fold Let_def)

lemma demo_first:
  "serveIdempotent demo_lib demo_ih demo_codec sp_ok sq 1 sq 2 demo_next [] 0 (demo_writer ''one'') demo_put =
     ([demo_row], 1, demo_sent, False)"
proof -
  have "header_Get (rw_Header demo_sent) ''Content-Type'' = []"
    by (simp add: header_Get_def header_values_def demo_sent_def demo_headers_def)
  then show ?thesis
    by (simp add: serveIdempotent_def demo_key demo_fingerprint handleIdempotentRequest_def demo_tenant ClaimIdempotencyKey_def
        Let_def defaultTenant_def no_faults_def executeIdempotent_def demo_capture settleIdempotent_def demo_stored demo_row_def)
      (simp add: CompleteIdempotencyKey_def Let_def demo_next_def demo_headers_def demo_codec_def defaultTenant_def
        same_key_def new_idem_row_def demo_put_def)
qed


text \<open>A header that an outer middleware sets on every response is added to the one it has set again.\<close>

lemma outer_header_replayed_twice:
  "ir_ResponseHeaders rec = demo_headers ''one'' \<Longrightarrow> header_values (replay_headers rec (demo_headers ''two'')) ''X-Request-Id'' = [''two'', ''one'']"
  using replay_header_values [of rec "''X-Request-Id''" "demo_headers ''two''"] demo_canonical
  by (simp add: demo_headers_def header_ok_def header_values_def)

theorem idempotency_store_refines_witness:
  "memo_of (fst (ClaimIdempotencyKey demo_codec sq 5 [demo_row] ''t'' ''k2'' ''fp'' ''r'')) =
     memo_claim (''t'', ''k2'') ''fp'' (memo_of [demo_row])"
proof -
  have inv: "idem_inv [demo_row]" by (simp add: idem_inv_def)
  have js: "(if demo_headers ''one'' \<noteq> [] then js_marshal demo_codec (demo_headers ''one'') else Inr []) = Inr ''{}''"
    by (simp add: demo_headers_def demo_codec_def)
  show ?thesis
    using Idempotency_Store.idempotency_store_refines [OF inv fault_free_no_faults [of dialectSQLite] js, where tenant = "''t''" and key = "''k2''" and t = 5 and fp = "''fp''" and rid = "''r''"]
    by (simp add: Let_def defaultTenant_def)
qed

end
