(* ===== verification/Object_Rows.thy ===== *)
theory Object_Rows
  imports Access_Store Time_Text "HOL-Library.AList"
begin

text \<open>
  The objects and legal_holds tables as the statements of \<open>internal/repository/sql_objects*.go\<close>,
  \<open>sql_legal_holds.go\<close> and \<open>sql_tags_acl.go\<close> see them, with the helpers of \<open>sql_helpers.go\<close>.
  A row keeps each timestamp as the instant it denotes; \<open>time_key\<close> is the value by which the dialect
  orders it: SQLite compares the RFC3339Nano texts, PostgreSQL the instants.  A JSON column holds an
  object of strings and is kept as its members.  A Go \<open>map[string]string\<close> is the list of its entries
  in the order of the keys, in which \<open>json.Marshal\<close> writes it.  PostgreSQL orders text by the
  collation of the database; \<open>coll\<close> stands for its sort key (the identity for collation C).
\<close>

section \<open>Maps of strings and their JSON\<close>

type_synonym kv = "(string \<times> string) list"

text \<open>\<open>json.Marshal\<close> replaces each invalid byte of a string by U+FFFD.\<close>

definition replacement_char :: string where
  "replacement_char = [char_of (0xEF :: nat), char_of (0xBF :: nat), char_of (0xBD :: nat)]"

definition json_string :: "string \<Rightarrow> string" where
  "json_string s = concat (map (\<lambda>(r, bytes). case r of None \<Rightarrow> replacement_char | Some _ \<Rightarrow> bytes) (runes s))"

definition jsonOrEmpty :: "kv \<Rightarrow> kv" where
  "jsonOrEmpty m = map (\<lambda>(k, v). (json_string k, json_string v)) m"

definition put_entries :: "kv \<Rightarrow> kv \<Rightarrow> kv" where
  "put_entries m entries = foldl (\<lambda>m (k, v). AList.update k v m) m entries"

definition unmarshalKV :: "kv \<Rightarrow> kv" where
  "unmarshalKV members = put_entries [] members"

definition kv_get :: "kv \<Rightarrow> string \<Rightarrow> string" where
  "kv_get m k = (case map_of m k of None \<Rightarrow> [] | Some v \<Rightarrow> v)"

definition valid_kv :: "kv \<Rightarrow> bool" where
  "valid_kv m \<longleftrightarrow> distinct (map fst m) \<and> list_all (\<lambda>(k, v). valid_utf8 k \<and> valid_utf8 v) m"

section \<open>Identifiers\<close>

text \<open>
  \<open>uuidLike\<close>: sixteen bytes, the first eight overwritten by the clock; \<open>rnd\<close> are the bytes of
  \<open>crypto/rand\<close>.  The \<open>binaryPutUint64\<close> it calls (\<open>sql.go\<close>) is little-endian.
\<close>

definition hex_digit :: "nat \<Rightarrow> char" where
  "hex_digit n = ''0123456789abcdef'' ! n"

fun le_bytes :: "nat \<Rightarrow> nat \<Rightarrow> nat list" where
  "le_bytes 0 n = []"
| "le_bytes (Suc k) n = n mod 256 # le_bytes k (n div 256)"

fun uuid_text :: "nat \<Rightarrow> nat list \<Rightarrow> string" where
  "uuid_text i [] = []"
| "uuid_text i (x # xs) =
     (if i \<in> {4, 6, 8, 10} then ''-'' else []) @ [hex_digit (x div 16), hex_digit (x mod 16)] @ uuid_text (Suc i) xs"

definition uuidLike :: "int \<Rightarrow> nat list \<Rightarrow> string" where
  "uuidLike unixNano rnd = uuid_text 0 (le_bytes 8 (nat (unixNano mod 2 ^ 64)) @ drop 8 rnd)"

definition NewVersionID :: "int \<Rightarrow> nat list \<Rightarrow> string" where
  "NewVersionID = uuidLike"

section \<open>Rows\<close>

record Object =
  o_ID :: int
  o_TenantID :: string
  o_Bucket :: string
  o_Key :: string
  o_VersionID :: string
  o_Backend :: string
  o_StorageKey :: string
  o_Size :: int
  o_ETag :: string
  o_ContentType :: string
  o_Metadata :: kv
  o_Tags :: kv
  o_StorageClass :: string
  o_CreatedAt :: instant
  o_UpdatedAt :: instant
  o_DeletedAt :: "instant option"
  o_LockedUntil :: "instant option"
  o_VersionTombstone :: bool

text \<open>A row of table objects has the columns of an \<open>Object\<close> and the canned ACL.\<close>

record objects_row = Object +
  o_acl :: string

record LegalHold =
  lh_ObjectID :: int
  lh_VersionID :: string
  lh_TenantID :: string
  lh_HoldReason :: string
  lh_CreatedAt :: instant
  lh_CreatedBy :: string

record hold_row =
  hr_object_id :: int
  hr_tenant_id :: string
  hr_version_id :: "string option"
  hr_hold_reason :: string
  hr_created_by :: string
  hr_created_at :: instant

record objects_db =
  od_objects :: "objects_row list"
  od_holds :: "hold_row list"
  od_access :: access_db
  od_seq :: int

section \<open>Clocks and timestamps\<close>

text \<open>\<open>time.Now()\<close> of the process and \<open>now()\<close> of the PostgreSQL server.\<close>

record clocks =
  go_now :: instant
  db_now :: instant

text \<open>A \<open>TIMESTAMPTZ\<close> column holds microseconds; a SQLite text column the nanoseconds of the text.\<close>

definition column_time :: "sql_env \<Rightarrow> instant \<Rightarrow> instant" where
  "column_time env t = (case dialect_of env of dialectSQLite \<Rightarrow> t | dialectPostgres \<Rightarrow> (t + 500) div 1000 * 1000)"

definition stamp :: "sql_env \<Rightarrow> clocks \<Rightarrow> instant" where
  "stamp env clk = (case dialect_of env of dialectSQLite \<Rightarrow> go_now clk | dialectPostgres \<Rightarrow> column_time env (db_now clk))"

definition time_key :: "sql_env \<Rightarrow> instant \<Rightarrow> int \<times> string" where
  "time_key env t = (case dialect_of env of dialectSQLite \<Rightarrow> rfc3339nano t | dialectPostgres \<Rightarrow> (t, []))"

definition text_key :: "(string \<Rightarrow> string) \<Rightarrow> sql_env \<Rightarrow> string \<Rightarrow> string" where
  "text_key coll env s = (case dialect_of env of dialectSQLite \<Rightarrow> s | dialectPostgres \<Rightarrow> coll s)"

definition nullableTime :: "sql_env \<Rightarrow> instant option \<Rightarrow> instant option" where
  "nullableTime env t = map_option (column_time env) t"

text \<open>\<open>flexNullTime\<close>: a zero time counts as NULL.\<close>

definition flexNullTime :: "instant option \<Rightarrow> instant option" where
  "flexNullTime t = (case t of None \<Rightarrow> None | Some x \<Rightarrow> if x = 0 then None else Some x)"

definition scanObject :: "objects_row \<Rightarrow> Object" where
  "scanObject r = (Object.truncate r)
     \<lparr>o_Metadata := unmarshalKV (o_Metadata r), o_Tags := unmarshalKV (o_Tags r),
      o_DeletedAt := flexNullTime (o_DeletedAt r), o_LockedUntil := flexNullTime (o_LockedUntil r)\<rparr>"

section \<open>Selecting rows\<close>

definition at_key :: "string \<Rightarrow> string \<Rightarrow> string \<Rightarrow> objects_row \<Rightarrow> bool" where
  "at_key tenant bucket key r \<longleftrightarrow> o_TenantID r = tenant \<and> o_Bucket r = bucket \<and> o_Key r = key"

definition is_live :: "objects_row \<Rightarrow> bool" where
  "is_live r \<longleftrightarrow> o_DeletedAt r = None"

definition live_at :: "string \<Rightarrow> string \<Rightarrow> string \<Rightarrow> objects_row \<Rightarrow> bool" where
  "live_at tenant bucket key r \<longleftrightarrow> at_key tenant bucket key r \<and> is_live r"

definition has_id :: "int \<Rightarrow> objects_row \<Rightarrow> bool" where
  "has_id i r \<longleftrightarrow> o_ID r = i"

text \<open>\<open>UPDATE objects SET f WHERE p\<close>.\<close>

definition set_rows :: "('r \<Rightarrow> bool) \<Rightarrow> ('r \<Rightarrow> 'r) \<Rightarrow> 'r list \<Rightarrow> 'r list" where
  "set_rows p f rows = map (\<lambda>r. if p r then f r else r) rows"

definition update_objects :: "(objects_row \<Rightarrow> bool) \<Rightarrow> (objects_row \<Rightarrow> objects_row) \<Rightarrow> objects_db \<Rightarrow> objects_db" where
  "update_objects p f db = db\<lparr>od_objects := set_rows p f (od_objects db)\<rparr>"

text \<open>\<open>DELETE FROM objects WHERE p\<close>; legal holds refer to objects \<open>ON DELETE CASCADE\<close>.\<close>

definition delete_objects :: "(objects_row \<Rightarrow> bool) \<Rightarrow> objects_db \<Rightarrow> objects_db" where
  "delete_objects p db =
     (let gone = map o_ID (filter p (od_objects db)) in
      db\<lparr>od_objects := filter (\<lambda>r. \<not> p r) (od_objects db),
         od_holds := filter (\<lambda>h. hr_object_id h \<notin> set gone) (od_holds db)\<rparr>)"

text \<open>\<open>INSERT INTO objects\<close>: the next id, and the unique index of live rows.\<close>

definition insert_object :: "sql_env \<Rightarrow> (int \<Rightarrow> objects_row) \<Rightarrow> objects_db \<Rightarrow> (objects_db \<times> objects_row) res" where
  "insert_object env mk db =
     (let r = mk (od_seq db + 1) in
      if is_live r \<and> list_ex (live_at (o_TenantID r) (o_Bucket r) (o_Key r)) (od_objects db)
      then Inl (unique_violation env ''objects_live_unique_idx'')
      else Inr (db\<lparr>od_objects := od_objects db @ [r], od_seq := od_seq db + 1\<rparr>, r))"

definition drop_access :: "sql_env \<Rightarrow> string \<Rightarrow> string \<Rightarrow> string \<Rightarrow> objects_db \<Rightarrow> objects_db res" where
  "drop_access env tenant bucket key db =
     rbind (deleteObjectAccessState env (od_access db) tenant bucket key) (\<lambda>a. Inr (db\<lparr>od_access := a\<rparr>))"

section \<open>The table invariant\<close>

text \<open>
  What the primary key, the unique index and the foreign key of the migrations keep: ids are distinct
  and were handed out by the sequence, at most one row of a key is live, and a hold refers to a row.
  A live row is not a tombstone.
\<close>

definition resource_of :: "objects_row \<Rightarrow> string \<times> string \<times> string" where
  "resource_of r = (o_TenantID r, o_Bucket r, o_Key r)"

definition one_live :: "objects_row list \<Rightarrow> bool" where
  "one_live rows \<longleftrightarrow> distinct (map resource_of (filter is_live rows))"

definition objects_ok :: "objects_db \<Rightarrow> bool" where
  "objects_ok db \<longleftrightarrow> distinct (map o_ID (od_objects db)) \<and> (\<forall>r \<in> set (od_objects db). o_ID r \<le> od_seq db)
     \<and> one_live (od_objects db) \<and> (\<forall>r \<in> set (od_objects db). is_live r \<longrightarrow> \<not> o_VersionTombstone r)
     \<and> (\<forall>h \<in> set (od_holds db). hr_object_id h \<in> o_ID ` set (od_objects db))"

section \<open>Lemmas\<close>

lemma json_string_valid: "valid_utf8 s \<Longrightarrow> json_string s = s"
proof -
  assume "valid_utf8 s"
  then have "map (\<lambda>(r, bytes). case r of None \<Rightarrow> replacement_char | Some _ \<Rightarrow> bytes) (runes s) = map snd (runes s)"
    by (auto simp: valid_utf8_def list_all_iff split: option.splits prod.splits)
  then show ?thesis unfolding json_string_def by (simp only: concat_runes)
qed

lemma update_fresh: "k \<notin> fst ` set m \<Longrightarrow> AList.update k v m = m @ [(k, v)]"
  by (induction m) auto

lemma put_entries_append:
  "distinct (map fst (m @ entries)) \<Longrightarrow> put_entries m entries = m @ entries"
proof (induction entries arbitrary: m)
  case (Cons e entries)
  then show ?case
    by (cases e) (use Cons.IH [of "m @ [e]"] in \<open>simp add: put_entries_def update_fresh\<close>)
qed (simp add: put_entries_def)

lemma unmarshal_distinct: "distinct (map fst m) \<Longrightarrow> unmarshalKV m = m"
  using put_entries_append [of "[]" m] by (simp add: unmarshalKV_def)

lemma json_round_trip [simp]: "valid_kv m \<Longrightarrow> unmarshalKV (jsonOrEmpty m) = m"
proof -
  assume v: "valid_kv m"
  then have "jsonOrEmpty m = m"
    by (auto simp: jsonOrEmpty_def valid_kv_def list_all_iff json_string_valid intro!: map_idI)
  with v show ?thesis by (simp add: valid_kv_def unmarshal_distinct)
qed

lemma map_of_put_entries: "map_of (put_entries m entries) = map_of m ++ map_of (rev entries)"
proof (induction entries arbitrary: m)
  case (Cons e entries)
  then show ?case
    by (cases e) (simp add: put_entries_def update_conv map_add_def fun_eq_iff split: option.splits)
qed (simp add: put_entries_def)

lemma time_key_inject [simp]: "time_key env a = time_key env b \<longleftrightarrow> a = b"
  by (simp add: time_key_def split: dialect.splits)

lemma at_key_resource: "at_key t b k r \<longleftrightarrow> resource_of r = (t, b, k)"
  by (simp add: at_key_def resource_of_def)

lemma set_rows_simps [simp]:
  "length (set_rows p f rows) = length rows"
  "(\<And>r. g (f r) = g r) \<Longrightarrow> map g (set_rows p f rows) = map g rows"
  by (auto simp: set_rows_def)

lemma set_set_rows: "set (set_rows p f rows) = f ` {r \<in> set rows. p r} \<union> {r \<in> set rows. \<not> p r}"
  by (auto simp: set_rows_def)

text \<open>Updates that touch neither the key columns nor \<open>deleted_at\<close> keep the live rows apart.\<close>

lemma filter_set_rows:
  "(\<And>r. q (f r) = q r) \<Longrightarrow> filter q (set_rows p f rows) = set_rows p f (filter q rows)"
  by (induction rows) (auto simp: set_rows_def)

lemma one_live_unique:
  assumes "one_live rows" "r \<in> set rows" "live_at t b k r"
  shows "filter (live_at t b k) rows = [r]"
proof -
  have eq: "filter (live_at t b k) rows = filter (\<lambda>x. resource_of x = resource_of r) (filter is_live rows)"
    using assms(3) by (auto simp: live_at_def at_key_resource intro: filter_cong)
  show ?thesis
    unfolding eq using assms filter_key_unique [of resource_of "filter is_live rows" r]
    by (simp add: one_live_def live_at_def)
qed

lemma live_rows_at_most_one:
  assumes "one_live rows"
  shows "filter (live_at t b k) rows = [] \<or> (\<exists>r. filter (live_at t b k) rows = [r] \<and> r \<in> set rows \<and> live_at t b k r)"
proof (cases "filter (live_at t b k) rows")
  case (Cons r rs)
  then have "r \<in> set rows" "live_at t b k r" by (auto dest: filter_hd)
  with one_live_unique [OF assms this] show ?thesis by blast
qed simp

lemma id_unique: "distinct (map o_ID rows) \<Longrightarrow> r \<in> set rows \<Longrightarrow> filter (has_id (o_ID r)) rows = [r]"
  using filter_key_unique [of o_ID rows r] by (simp add: has_id_def [abs_def])

end
