(* ===== verification/Legal_Holds.thy ===== *)
theory Legal_Holds
  imports Object_Rows
begin

text \<open>
  \<open>internal/repository/sql_legal_holds.go\<close>.  The primary key of legal_holds is
  \<open>(object_id, version_id)\<close> with a nullable \<open>version_id\<close>: SQLite treats NULLs of a key as distinct, so
  an insert with NULL never conflicts; PostgreSQL makes key columns NOT NULL, so it fails there.
\<close>

definition nullVersionID :: "string \<Rightarrow> string option" where
  "nullVersionID vid = (if vid = [] then None else Some vid)"

definition hold_key :: "hold_row \<Rightarrow> int \<times> string option" where
  "hold_key h = (hr_object_id h, hr_version_id h)"

definition hold_conflict :: "hold_row \<Rightarrow> hold_row \<Rightarrow> bool" where
  "hold_conflict n h \<longleftrightarrow> hr_version_id n \<noteq> None \<and> hold_key h = hold_key n"

text \<open>\<open>strftime('%f')\<close> has milliseconds.\<close>

definition hold_time :: "sql_env \<Rightarrow> instant \<Rightarrow> instant" where
  "hold_time env t =
     (case dialect_of env of dialectSQLite \<Rightarrow> t div 1000000 * 1000000 | dialectPostgres \<Rightarrow> column_time env t)"

definition put_hold :: "sql_env \<Rightarrow> hold_row \<Rightarrow> objects_db \<Rightarrow> objects_db res" where
  "put_hold env n db =
     (if hr_version_id n = None \<and> dialect_of env = dialectPostgres then Inl (PgError ''23502'' [])
      else if list_ex (hold_conflict n) (od_holds db)
      then Inr (db\<lparr>od_holds := set_rows (hold_conflict n)
             (\<lambda>h. h\<lparr>hr_hold_reason := hr_hold_reason n, hr_created_by := hr_created_by n\<rparr>) (od_holds db)\<rparr>)
      else if \<not> list_ex (has_id (hr_object_id n)) (od_objects db) then Inl (fkey_violation env ''legal_holds_object_id_fkey'')
      else Inr (db\<lparr>od_holds := od_holds db @ [n]\<rparr>))"

text \<open>\<open>now\<close> is the clock of the database.\<close>

definition PutLegalHold :: "sql_env \<Rightarrow> instant \<Rightarrow> objects_db \<Rightarrow> LegalHold \<Rightarrow> objects_db \<times> gerr option" where
  "PutLegalHold env now db l =
     run db (stmt env ''put hold'' (put_hold env
       \<lparr>hr_object_id = lh_ObjectID l, hr_tenant_id = defaultTenant (lh_TenantID l), hr_version_id = nullVersionID (lh_VersionID l),
        hr_hold_reason = lh_HoldReason l, hr_created_by = lh_CreatedBy l, hr_created_at = hold_time env now\<rparr> db))"

definition scanHold :: "hold_row \<Rightarrow> LegalHold" where
  "scanHold h =
     \<lparr>lh_ObjectID = hr_object_id h, lh_VersionID = (case hr_version_id h of None \<Rightarrow> [] | Some v \<Rightarrow> v), lh_TenantID = hr_tenant_id h,
      lh_HoldReason = hr_hold_reason h, lh_CreatedAt = hr_created_at h, lh_CreatedBy = hr_created_by h\<rparr>"

text \<open>\<open>version_id IS NULL\<close> for the empty version, equality otherwise.\<close>

definition holds_version :: "int \<Rightarrow> string \<Rightarrow> hold_row \<Rightarrow> bool" where
  "holds_version objectID versionID h \<longleftrightarrow> hr_object_id h = objectID \<and> hr_version_id h = nullVersionID versionID"

definition GetLegalHold :: "sql_env \<Rightarrow> objects_db \<Rightarrow> int \<Rightarrow> string \<Rightarrow> LegalHold res" where
  "GetLegalHold env db objectID versionID =
     rbind (not_found (query_row env ''get hold'' (filter (holds_version objectID versionID) (od_holds db)))) (\<lambda>h. Inr (scanHold h))"

definition ListLegalHolds :: "sql_env \<Rightarrow> objects_db \<Rightarrow> int \<Rightarrow> LegalHold list res" where
  "ListLegalHolds env db objectID =
     stmt env ''list holds''
       (Inr (map scanHold (rev (sort_key hr_created_at (filter (\<lambda>h. hr_object_id h = objectID) (od_holds db))))))"

definition RemoveLegalHold :: "sql_env \<Rightarrow> objects_db \<Rightarrow> int \<Rightarrow> string \<Rightarrow> objects_db \<times> gerr option" where
  "RemoveLegalHold env db objectID versionID =
     (let hit = holds_version objectID versionID in
      case fault env ''remove hold'' of
        Some e \<Rightarrow> (db, Some e)
      | None \<Rightarrow> (db\<lparr>od_holds := filter (\<lambda>h. \<not> hit h) (od_holds db)\<rparr>,
                 if affected env (filter hit (od_holds db)) = 0 then Some (Sentinel ErrNotFound) else None))"

definition held_ids :: "objects_db \<Rightarrow> int list" where
  "held_ids db = map hr_object_id (od_holds db)"

definition ObjectHasLegalHold :: "sql_env \<Rightarrow> objects_db \<Rightarrow> int \<Rightarrow> bool res" where
  "ObjectHasLegalHold env db objectID =
     stmt env ''count holds'' (Inr (length (filter (\<lambda>h. hr_object_id h = objectID) (od_holds db)) > 0))"

definition ListObjectsOnLegalHold :: "sql_env \<Rightarrow> objects_db \<Rightarrow> string \<Rightarrow> int \<Rightarrow> int list res" where
  "ListObjectsOnLegalHold env db tenant limit0 =
     (let limit = (if limit0 \<le> 0 \<or> limit0 > 10000 then 10000 else limit0) in
      stmt env ''list held''
        (Inr (limit_rows limit (remdups (map hr_object_id (filter (\<lambda>h. hr_tenant_id h = defaultTenant tenant) (od_holds db)))))))"

section \<open>Lemmas\<close>

lemma ObjectHasLegalHold_iff: "ObjectHasLegalHold env db i = Inr b \<Longrightarrow> b \<longleftrightarrow> i \<in> set (held_ids db)"
  by (auto simp: ObjectHasLegalHold_def held_ids_def stmt_Inr filter_empty_conv)

text \<open>Placing a hold holds the object, under either dialect and in each branch of the upsert.\<close>

lemma put_hold_cases:
  assumes "put_hold env n db = Inr db'"
  obtains (conflict) h where "h \<in> set (od_holds db)" "hold_conflict n h" "held_ids db' = held_ids db" "od_objects db' = od_objects db"
      "od_access db' = od_access db" "od_seq db' = od_seq db"
  | (insert) r where "r \<in> set (od_objects db)" "o_ID r = hr_object_id n" "db' = db\<lparr>od_holds := od_holds db @ [n]\<rparr>"
  using assms by (auto simp: put_hold_def list_ex_iff has_id_def held_ids_def split: if_splits)

lemma put_hold_held: "put_hold env n db = Inr db' \<Longrightarrow> hr_object_id n \<in> set (held_ids db')"
  by (erule put_hold_cases) (auto simp: held_ids_def hold_conflict_def hold_key_def intro: image_eqI [OF sym])

lemma put_hold_objects: "put_hold env n db = Inr db' \<Longrightarrow> od_objects db' = od_objects db \<and> od_access db' = od_access db \<and> od_seq db' = od_seq db"
  by (erule put_hold_cases) simp_all

lemma put_hold_keeps: "put_hold env n db = Inr db' \<Longrightarrow> set (held_ids db) \<subseteq> set (held_ids db')"
  by (erule put_hold_cases) (auto simp: held_ids_def)

lemma objects_ok_held: "objects_ok db \<longleftrightarrow> distinct (map o_ID (od_objects db)) \<and> (\<forall>r \<in> set (od_objects db). o_ID r \<le> od_seq db)
     \<and> one_live (od_objects db) \<and> (\<forall>r \<in> set (od_objects db). is_live r \<longrightarrow> \<not> o_VersionTombstone r)
     \<and> set (held_ids db) \<subseteq> o_ID ` set (od_objects db)"
  by (auto simp: objects_ok_def held_ids_def)

lemma put_hold_ok: "put_hold env n db = Inr db' \<Longrightarrow> objects_ok db \<Longrightarrow> objects_ok db'"
proof (erule put_hold_cases)
  fix r assume "objects_ok db" "r \<in> set (od_objects db)" "o_ID r = hr_object_id n" "db' = db\<lparr>od_holds := od_holds db @ [n]\<rparr>"
  then show "objects_ok db'" by (auto simp: objects_ok_held held_ids_def intro: image_eqI [OF sym])
qed (simp add: objects_ok_held)

end
