(* ===== verification/Event_Outbox.thy ===== *)
theory Event_Outbox
  imports Legal_Holds
begin

text \<open>
  The transactional outbox of object deletions, \<open>internal/repository/event_outbox.go\<close>: deletions that
  write their audit row and event facts in the same transaction, and the claim, completion, retry
  and pruning of facts by relays.  The tables they touch are those of \<open>Object_Rows\<close>, the audit log
  and the outbox; the number of a JSON document's schema is an argument (\<open>None\<close>: not a JSON object).  The
  columns \<open>*_ns\<close> hold integers, so they are compared as such.
\<close>

section \<open>Rows\<close>

abbreviation (input) EventTypeFileDeleted11 :: string where "EventTypeFileDeleted11 \<equiv> ''vault.file.deleted@1.1''"
abbreviation (input) EventTypeFileNotify11 :: string where "EventTypeFileNotify11 \<equiv> ''vault.file.notify@1.1''"

definition maxOutboxFactPayloadBytes :: nat where
  "maxOutboxFactPayloadBytes = 1048576"

record OutboxFact =
  of_EventType :: string
  of_OriginID :: int
  of_TenantID :: string
  of_Payload :: string

record EventOutboxRow =
  er_ID :: int
  er_EventType :: string
  er_OriginID :: int
  er_TenantID :: string
  er_Payload :: string
  er_Attempts :: int
  er_ClaimOwner :: string
  er_ClaimToken :: string
  er_LeaseExpiresAt :: instant

record outbox_row =
  eo_id :: int
  eo_event_type :: string
  eo_origin_id :: int
  eo_tenant_id :: string
  eo_payload :: string
  eo_attempts :: int
  eo_status :: string
  eo_available_at :: instant
  eo_claim_owner :: string
  eo_claim_token :: string
  eo_lease_expires_at :: instant
  eo_last_error :: string
  eo_created_at :: instant
  eo_delivered_at :: instant

record AuditEntry =
  ae_Actor :: string
  ae_Action :: string
  ae_Target :: string
  ae_TenantID :: string
  ae_Detail :: string
  ae_CreatedAt :: "time_text option"

record events_db =
  ev_db :: objects_db
  ev_audit :: "AuditEntry list"
  ev_outbox :: "outbox_row list"
  ev_seq :: int
  ev_delivered :: "(int \<times> instant) list"

section \<open>Validation\<close>

definition validOutboxPayload :: "(string \<Rightarrow> string option) \<Rightarrow> string \<Rightarrow> bool" where
  "validOutboxPayload version payload \<longleftrightarrow> version payload = Some ''1.1''"

definition validate_fact :: "(string \<Rightarrow> string option) \<Rightarrow> OutboxFact \<Rightarrow> gerr option" where
  "validate_fact version f = first_error
     [fails (of_EventType f \<noteq> EventTypeFileDeleted11 \<and> of_EventType f \<noteq> EventTypeFileNotify11) (NewError ''fact type is invalid''),
      fails (of_OriginID f \<le> 0) (NewError ''fact origin is invalid''),
      fails (trim_space (of_TenantID f) = []) (NewError ''fact tenant is required''),
      fails (of_Payload f = [] \<or> length (of_Payload f) > maxOutboxFactPayloadBytes) (NewError ''fact payload size''),
      fails (\<not> validOutboxPayload version (of_Payload f)) (NewError ''fact payload schema'')]"

definition validateOutboxFacts :: "(string \<Rightarrow> string option) \<Rightarrow> OutboxFact list \<Rightarrow> gerr option" where
  "validateOutboxFacts version facts =
     (if facts = [] then Some (NewError ''facts must not be empty'') else first_error (map (validate_fact version) facts))"

section \<open>Deletions with events\<close>

definition insertAuditEntry :: "sql_env \<Rightarrow> instant \<Rightarrow> AuditEntry \<Rightarrow> events_db \<Rightarrow> events_db res" where
  "insertAuditEntry env now e db =
     (let e' = (if ae_CreatedAt e = None then e\<lparr>ae_CreatedAt := Some (rfc3339nano now)\<rparr> else e) in
      stmt env ''insert audit'' (Inr (db\<lparr>ev_audit := ev_audit db @ [e']\<rparr>)))"

definition new_outbox_row :: "instant \<Rightarrow> int \<Rightarrow> OutboxFact \<Rightarrow> outbox_row" where
  "new_outbox_row now i f =
     \<lparr>eo_id = i, eo_event_type = of_EventType f, eo_origin_id = of_OriginID f, eo_tenant_id = of_TenantID f, eo_payload = of_Payload f,
      eo_attempts = 0, eo_status = ''pending'', eo_available_at = now, eo_claim_owner = [], eo_claim_token = [],
      eo_lease_expires_at = 0, eo_last_error = [], eo_created_at = now, eo_delivered_at = 0\<rparr>"

definition insert_fact :: "instant \<Rightarrow> OutboxFact \<Rightarrow> events_db \<Rightarrow> events_db" where
  "insert_fact now f db =
     db\<lparr>ev_outbox := ev_outbox db @ [new_outbox_row now (ev_seq db + 1) f], ev_seq := ev_seq db + 1\<rparr>"

text \<open>The driver may fail any of the inserts: the label carries the position.\<close>

fun insertOutboxFacts :: "sql_env \<Rightarrow> string \<Rightarrow> instant \<Rightarrow> OutboxFact list \<Rightarrow> events_db \<Rightarrow> events_db res" where
  "insertOutboxFacts env l now [] db = Inr db"
| "insertOutboxFacts env l now (f # fs) db =
     rbind (stmt env l (Inr (insert_fact now f db))) (insertOutboxFacts env (l @ ''+'') now fs)"

definition delete_access :: "sql_env \<Rightarrow> string \<Rightarrow> string \<Rightarrow> string \<Rightarrow> events_db \<Rightarrow> events_db res" where
  "delete_access env tenant bucket key db =
     rbind (drop_access env tenant bucket key (ev_db db)) (\<lambda>d. Inr (db\<lparr>ev_db := d\<rparr>))"

definition record_events :: "sql_env \<Rightarrow> instant \<Rightarrow> instant \<Rightarrow> AuditEntry \<Rightarrow> OutboxFact list \<Rightarrow> events_db \<Rightarrow> events_db res" where
  "record_events env now now' entry facts db =
     rbind (insertAuditEntry env now entry db) (insertOutboxFacts env ''insert fact'' now' facts)"

definition hard_delete_tx ::
  "sql_env \<Rightarrow> instant \<Rightarrow> instant \<Rightarrow> string \<Rightarrow> string \<Rightarrow> string \<Rightarrow> AuditEntry \<Rightarrow> OutboxFact list \<Rightarrow> events_db \<Rightarrow> events_db res" where
  "hard_delete_tx env now now' tenant bucket key entry facts db =
     (let hit = at_key tenant bucket key in
      rbind (stmt env ''select holds'' (Inr (list_ex (\<lambda>r. hit r \<and> o_ID r \<in> set (held_ids (ev_db db))) (od_objects (ev_db db))))) (\<lambda>held.
      if held then Inl (Sentinel ErrLegalHoldActive)
      else rbind (delete_access env tenant bucket key db) (\<lambda>db1.
        rbind (stmt env ''delete object'' (Inr (db1\<lparr>ev_db := delete_objects hit (ev_db db1)\<rparr>))) (\<lambda>db2.
        if affected env (filter hit (od_objects (ev_db db1))) = 0 then Inl (Sentinel ErrNotFound)
        else record_events env now now' entry facts db2))))"

definition HardDeleteObjectWithEvent ::
  "(string \<Rightarrow> string option) \<Rightarrow> sql_env \<Rightarrow> instant \<Rightarrow> instant \<Rightarrow> events_db \<Rightarrow> string \<Rightarrow> string \<Rightarrow> string \<Rightarrow> AuditEntry \<Rightarrow> OutboxFact list \<Rightarrow>
     events_db \<times> gerr option" where
  "HardDeleteObjectWithEvent version env now now' db tenant bucket key entry facts =
     (case validateOutboxFacts version facts of
        Some e \<Rightarrow> (db, Some e)
      | None \<Rightarrow> in_tx env db (hard_delete_tx env now now' (defaultTenant tenant) bucket key entry facts db))"

definition mark_deleted :: "instant \<Rightarrow> (objects_row \<Rightarrow> bool) \<Rightarrow> events_db \<Rightarrow> events_db" where
  "mark_deleted t hit db = db\<lparr>ev_db := update_objects hit (\<lambda>r. r\<lparr>o_DeletedAt := Some t\<rparr>) (ev_db db)\<rparr>"

definition soft_delete_tx ::
  "sql_env \<Rightarrow> instant \<Rightarrow> instant \<Rightarrow> instant \<Rightarrow> (objects_row \<Rightarrow> bool) \<Rightarrow> string \<times> string \<times> string \<Rightarrow> AuditEntry \<Rightarrow> OutboxFact list \<Rightarrow> events_db \<Rightarrow>
     events_db res" where
  "soft_delete_tx env t now now' hit target entry facts db =
     (case target of (tenant, bucket, key) \<Rightarrow>
      rbind (stmt env ''soft delete object'' (Inr (mark_deleted (column_time env t) hit db))) (\<lambda>db1.
      if affected env (filter hit (od_objects (ev_db db))) = 0 then Inl (Sentinel ErrNotFound)
      else rbind (delete_access env tenant bucket key db1) (record_events env now now' entry facts)))"

definition SoftDeleteObjectWithEvent ::
  "(string \<Rightarrow> string option) \<Rightarrow> sql_env \<Rightarrow> instant \<Rightarrow> instant \<Rightarrow> instant \<Rightarrow> events_db \<Rightarrow> string \<Rightarrow> string \<Rightarrow> string \<Rightarrow> AuditEntry \<Rightarrow>
     OutboxFact list \<Rightarrow> events_db \<times> gerr option" where
  "SoftDeleteObjectWithEvent version env t now now' db tenant0 bucket key entry facts =
     (let tenant = defaultTenant tenant0 in
      case validateOutboxFacts version facts of
        Some e \<Rightarrow> (db, Some e)
      | None \<Rightarrow> in_tx env db
          (soft_delete_tx env t now now' (live_at tenant bucket key) (tenant, bucket, key) entry facts db))"

definition SoftDeleteObjectByIDWithEvent ::
  "(string \<Rightarrow> string option) \<Rightarrow> sql_env \<Rightarrow> instant \<Rightarrow> instant \<Rightarrow> instant \<Rightarrow> events_db \<Rightarrow> int \<Rightarrow> AuditEntry \<Rightarrow> OutboxFact list \<Rightarrow>
     events_db \<times> gerr option" where
  "SoftDeleteObjectByIDWithEvent version env t now now' db i entry facts =
     (let hit = (\<lambda>r. has_id i r \<and> is_live r) in
      in_tx env db
        (case validateOutboxFacts version facts of
           Some e \<Rightarrow> Inl e
         | None \<Rightarrow>
             rbind (not_found (query_row env ''select object'' (filter hit (od_objects (ev_db db))))) (\<lambda>r.
             soft_delete_tx env t now now' hit (resource_of r) entry facts db)))"

section \<open>Claims\<close>

definition scanEventOutboxRow :: "outbox_row \<Rightarrow> EventOutboxRow" where
  "scanEventOutboxRow r =
     \<lparr>er_ID = eo_id r, er_EventType = eo_event_type r, er_OriginID = eo_origin_id r, er_TenantID = eo_tenant_id r, er_Payload = eo_payload r,
      er_Attempts = eo_attempts r, er_ClaimOwner = eo_claim_owner r, er_ClaimToken = eo_claim_token r,
      er_LeaseExpiresAt = eo_lease_expires_at r\<rparr>"

definition due :: "instant \<Rightarrow> outbox_row \<Rightarrow> bool" where
  "due now r \<longleftrightarrow> eo_status r = ''pending'' \<and> eo_available_at r \<le> now \<or> eo_status r = ''inflight'' \<and> eo_lease_expires_at r \<le> now"

definition due_ids :: "instant \<Rightarrow> int \<Rightarrow> outbox_row list \<Rightarrow> int list" where
  "due_ids now limit rows =
     limit_rows limit (map eo_id (sort_key (\<lambda>r. (eo_available_at r, eo_created_at r, eo_id r)) (filter (due now) rows)))"

definition claim_row :: "string \<Rightarrow> string \<Rightarrow> instant \<Rightarrow> outbox_row \<Rightarrow> outbox_row" where
  "claim_row owner token until r =
     r\<lparr>eo_status := ''inflight'', eo_attempts := eo_attempts r + 1, eo_claim_owner := owner, eo_claim_token := token,
       eo_lease_expires_at := until\<rparr>"

definition update_outbox :: "(outbox_row \<Rightarrow> bool) \<Rightarrow> (outbox_row \<Rightarrow> outbox_row) \<Rightarrow> events_db \<Rightarrow> events_db" where
  "update_outbox p f db = db\<lparr>ev_outbox := map (\<lambda>r. if p r then f r else r) (ev_outbox db)\<rparr>"

definition claimEventOutboxPostgres ::
  "sql_env \<Rightarrow> instant \<Rightarrow> instant \<Rightarrow> events_db \<Rightarrow> string \<Rightarrow> string \<Rightarrow> int \<Rightarrow> int \<Rightarrow> events_db \<times> EventOutboxRow list res" where
  "claimEventOutboxPostgres env now now' db owner token limit ttl =
     (let ids = due_ids now limit (ev_outbox db); until = now' + ttl; hit = (\<lambda>r. eo_id r \<in> set ids) in
      case fault env ''claim outbox'' of
        Some e \<Rightarrow> (db, Inl e)
      | None \<Rightarrow>
          (let db' = update_outbox hit (claim_row owner token until) db in
           (db', stmt env ''scan outbox'' (Inr (map (\<lambda>r. scanEventOutboxRow (claim_row owner token until r)) (filter hit (ev_outbox db)))))))"

fun claimEventOutboxIDs ::
  "sql_env \<Rightarrow> string \<Rightarrow> string \<Rightarrow> int list \<Rightarrow> instant \<Rightarrow> int \<Rightarrow> events_db \<Rightarrow> (events_db \<times> EventOutboxRow list) res" where
  "claimEventOutboxIDs env owner token [] now ttl db = Inr (db, [])"
| "claimEventOutboxIDs env owner token (i # is) now ttl db =
     (let hit = (\<lambda>r. eo_id r = i \<and> due now r); claim = claim_row owner token (now + ttl) in
      case query_row env ''claim outbox row'' (filter hit (ev_outbox db)) of
        Inr r \<Rightarrow>
          rbind (claimEventOutboxIDs env owner token is now ttl (update_outbox hit claim db))
            (\<lambda>(db', facts). Inr (db', scanEventOutboxRow (claim r) # facts))
      | Inl e \<Rightarrow> if errors_is e ErrNoRows then claimEventOutboxIDs env owner token is now ttl db else Inl e)"

definition claimEventOutboxSQLite ::
  "sql_env \<Rightarrow> instant \<Rightarrow> events_db \<Rightarrow> string \<Rightarrow> string \<Rightarrow> int \<Rightarrow> int \<Rightarrow> events_db \<times> EventOutboxRow list res" where
  "claimEventOutboxSQLite env now db owner token limit ttl =
     (case stmt env ''begin'' (stmt env ''select due'' (Inr (due_ids now limit (ev_outbox db)))) of
        Inl e \<Rightarrow> (db, Inl e)
      | Inr ids \<Rightarrow>
          (case claimEventOutboxIDs env owner token ids now ttl db of
             Inl e \<Rightarrow> (db, Inl e)
           | Inr (db', facts) \<Rightarrow>
               (case tx_commit env db db' of (db'', err) \<Rightarrow> (db'', case err of None \<Rightarrow> Inr facts | Some e \<Rightarrow> Inl e))))"

definition ClaimEventOutbox ::
  "sql_env \<Rightarrow> instant \<Rightarrow> instant \<Rightarrow> events_db \<Rightarrow> string \<Rightarrow> string \<Rightarrow> int \<Rightarrow> int \<Rightarrow> events_db \<times> EventOutboxRow list res" where
  "ClaimEventOutbox env now now' db owner token limit0 ttl =
     (if owner = [] \<or> token = [] \<or> ttl \<le> 0 then (db, Inl (NewError ''claim identity is invalid''))
      else (let limit = (if limit0 \<le> 0 \<or> limit0 > 500 then 32 else limit0) in
            case dialect_of env of
              dialectPostgres \<Rightarrow> claimEventOutboxPostgres env now now' db owner token limit ttl
            | dialectSQLite \<Rightarrow> claimEventOutboxSQLite env now db owner token limit ttl))"

section \<open>Completion, retry and pruning\<close>

text \<open>The fence: the claim of this owner and token, its lease still running.\<close>

definition fenced :: "int \<Rightarrow> string \<Rightarrow> string \<Rightarrow> instant \<Rightarrow> outbox_row \<Rightarrow> bool" where
  "fenced i owner token now r \<longleftrightarrow>
     eo_id r = i \<and> eo_status r = ''inflight'' \<and> eo_claim_owner r = owner \<and> eo_claim_token r = token \<and> eo_lease_expires_at r > now"

definition deliver_row :: "instant \<Rightarrow> outbox_row \<Rightarrow> outbox_row" where
  "deliver_row now r =
     r\<lparr>eo_status := ''delivered'', eo_delivered_at := now, eo_claim_owner := [], eo_claim_token := [], eo_lease_expires_at := 0,
       eo_last_error := []\<rparr>"

definition CompleteEventOutbox :: "sql_env \<Rightarrow> instant \<Rightarrow> events_db \<Rightarrow> int \<Rightarrow> string \<Rightarrow> string \<Rightarrow> events_db \<times> gerr option" where
  "CompleteEventOutbox env now db i owner token =
     (let hit = fenced i owner token now in
      in_tx env db
        (rbind (stmt env ''complete outbox'' (Inr (update_outbox hit (deliver_row now) db))) (\<lambda>db1.
         if affected env (filter hit (ev_outbox db)) \<noteq> 1 then Inl (Sentinel ErrEventOutboxClaimLost)
         else stmt env ''insert delivered''
           (if i \<in> fst ` set (ev_delivered db1) then Inl (pkey_violation env ''event_outbox_delivered_pkey'')
            else Inr (db1\<lparr>ev_delivered := ev_delivered db1 @ [(i, now)]\<rparr>)))))"

definition requeue_row :: "int \<Rightarrow> instant \<Rightarrow> string \<Rightarrow> outbox_row \<Rightarrow> outbox_row" where
  "requeue_row maxAttempts next_at lastErr r =
     r\<lparr>eo_status := (if eo_attempts r \<ge> maxAttempts then ''failed'' else ''pending''), eo_available_at := next_at, eo_claim_owner := [],
       eo_claim_token := [], eo_lease_expires_at := 0, eo_last_error := lastErr\<rparr>"

definition RetryEventOutbox ::
  "sql_env \<Rightarrow> instant \<Rightarrow> events_db \<Rightarrow> int \<Rightarrow> string \<Rightarrow> string \<Rightarrow> string \<Rightarrow> instant \<Rightarrow> int \<Rightarrow> events_db \<times> gerr option" where
  "RetryEventOutbox env now db i owner token lastErr next_at maxAttempts0 =
     (let maxAttempts = (if maxAttempts0 \<le> 0 then 1 else maxAttempts0);
          hit = fenced i owner token now in
      case fault env ''retry outbox'' of
        Some e \<Rightarrow> (db, Some e)
      | None \<Rightarrow> (update_outbox hit (requeue_row maxAttempts next_at (trim_space (take 512 lastErr))) db,
                 if affected env (filter hit (ev_outbox db)) \<noteq> 1 then Some (Sentinel ErrEventOutboxClaimLost) else None))"

definition PruneEventOutbox :: "sql_env \<Rightarrow> events_db \<Rightarrow> instant \<Rightarrow> instant \<Rightarrow> events_db \<times> int res" where
  "PruneEventOutbox env db deliveredBefore failedBefore =
     (let old = (\<lambda>r. eo_status r = ''delivered'' \<and> eo_delivered_at r < deliveredBefore);
          dead = (\<lambda>r. eo_status r = ''failed'' \<and> eo_created_at r < failedBefore);
          gone = eo_id ` set (filter old (ev_outbox db));
          db1 = db\<lparr>ev_delivered := filter (\<lambda>(i, _). i \<notin> gone) (ev_delivered db)\<rparr>;
          db2 = db1\<lparr>ev_outbox := filter (\<lambda>r. \<not> old r) (ev_outbox db1)\<rparr>;
          db3 = db2\<lparr>ev_outbox := filter (\<lambda>r. \<not> dead r) (ev_outbox db2)\<rparr>;
          removed = int (affected env (filter old (ev_outbox db1))) + int (affected env (filter dead (ev_outbox db2))) in
      if deliveredBefore = 0 \<or> failedBefore = 0 then (db, Inl (NewError ''prune times are required''))
      else (case in_tx env db (stmt env ''prune records'' (stmt env ''prune delivered'' (stmt env ''prune failed'' (Inr db3)))) of
              (db', None) \<Rightarrow> (db', Inr removed)
            | (db', Some e) \<Rightarrow> (db', Inl e)))"

definition CountPendingEventOutbox :: "sql_env \<Rightarrow> events_db \<Rightarrow> int res" where
  "CountPendingEventOutbox env db =
     stmt env ''count pending'' (Inr (int (length (filter (\<lambda>r. eo_status r \<in> {''pending'', ''inflight''}) (ev_outbox db)))))"

definition HasEventOutboxFact :: "sql_env \<Rightarrow> events_db \<Rightarrow> int \<Rightarrow> string \<Rightarrow> bool res" where
  "HasEventOutboxFact env db originID eventType =
     stmt env ''has fact'' (Inr (list_ex (\<lambda>r. eo_origin_id r = originID \<and> eo_event_type r = eventType) (ev_outbox db)))"

definition CountEventOutbox :: "sql_env \<Rightarrow> events_db \<Rightarrow> int res" where
  "CountEventOutbox env db = stmt env ''count outbox'' (Inr (int (length (ev_outbox db))))"

section \<open>Deletions are atomic with their events\<close>

fun fact_rows :: "instant \<Rightarrow> int \<Rightarrow> OutboxFact list \<Rightarrow> outbox_row list" where
  "fact_rows now s [] = []"
| "fact_rows now s (f # fs) = new_outbox_row now (s + 1) f # fact_rows now (s + 1) fs"

lemma insertOutboxFacts_Inr:
  "insertOutboxFacts env l now fs db = Inr db' \<Longrightarrow>
     db' = db\<lparr>ev_outbox := ev_outbox db @ fact_rows now (ev_seq db) fs, ev_seq := ev_seq db + int (length fs)\<rparr>"
proof (induction fs arbitrary: l db)
  case (Cons f fs)
  then have "insertOutboxFacts env (l @ ''+'') now fs (insert_fact now f db) = Inr db'" by (auto simp: rbind_Inr stmt_Inr)
  from Cons.IH [OF this] show ?case by (simp add: insert_fact_def)
qed simp

lemma delete_access_Inr:
  "delete_access env tenant bucket key db = Inr db' \<Longrightarrow>
     \<exists>a. db' = db\<lparr>ev_db := (ev_db db)\<lparr>od_access := a\<rparr>\<rparr>"
  by (auto simp: delete_access_def drop_access_def rbind_Inr)

text \<open>What a committed deletion adds to the audit log and the outbox.\<close>

definition stamped :: "instant \<Rightarrow> AuditEntry \<Rightarrow> AuditEntry" where
  "stamped now e = (if ae_CreatedAt e = None then e\<lparr>ae_CreatedAt := Some (rfc3339nano now)\<rparr> else e)"

definition with_events :: "instant \<Rightarrow> instant \<Rightarrow> AuditEntry \<Rightarrow> OutboxFact list \<Rightarrow> events_db \<Rightarrow> events_db" where
  "with_events now now' entry facts db =
     db\<lparr>ev_audit := ev_audit db @ [stamped now entry], ev_outbox := ev_outbox db @ fact_rows now' (ev_seq db) facts,
        ev_seq := ev_seq db + int (length facts)\<rparr>"

lemma record_events_Inr:
  "record_events env now now' entry facts db = Inr db' \<Longrightarrow> db' = with_events now now' entry facts db"
  by (auto simp: record_events_def rbind_Inr insertAuditEntry_def Let_def stmt_Inr with_events_def stamped_def
      dest!: insertOutboxFacts_Inr)

text \<open>An object deletion with events: nothing happened, or everything.\<close>

definition hard_effect :: "instant \<Rightarrow> instant \<Rightarrow> events_db \<Rightarrow> string \<Rightarrow> string \<Rightarrow> string \<Rightarrow> AuditEntry \<Rightarrow> OutboxFact list \<Rightarrow> events_db \<Rightarrow> bool" where
  "hard_effect now now' db tenant bucket key entry facts db' \<longleftrightarrow>
     (\<exists>r \<in> set (od_objects (ev_db db)). at_key tenant bucket key r) \<and>
     (\<forall>r \<in> set (od_objects (ev_db db)). at_key tenant bucket key r \<longrightarrow> o_ID r \<notin> set (held_ids (ev_db db))) \<and>
     (\<exists>a. db' = with_events now now' entry facts
        (db\<lparr>ev_db := delete_objects (at_key tenant bucket key) ((ev_db db)\<lparr>od_access := a\<rparr>)\<rparr>))"

definition soft_effect :: "sql_env \<Rightarrow> instant \<Rightarrow> instant \<Rightarrow> instant \<Rightarrow> events_db \<Rightarrow> (objects_row \<Rightarrow> bool) \<Rightarrow> AuditEntry \<Rightarrow> OutboxFact list \<Rightarrow> events_db \<Rightarrow> bool" where
  "soft_effect env t now now' db hit entry facts db' \<longleftrightarrow>
     (\<exists>r \<in> set (od_objects (ev_db db)). hit r) \<and>
     (\<exists>a. db' = with_events now now' entry facts
        (mark_deleted (column_time env t) hit (db\<lparr>ev_db := (ev_db db)\<lparr>od_access := a\<rparr>\<rparr>)))"

lemma hard_delete_tx_Inr:
  assumes "hard_delete_tx env now now' tenant bucket key entry facts db = Inr db'"
  shows "hard_effect now now' db tenant bucket key entry facts db'"
proof -
  let ?hit = "at_key tenant bucket key"
  from assms obtain db1 where held: "\<not> list_ex (\<lambda>r. ?hit r \<and> o_ID r \<in> set (held_ids (ev_db db))) (od_objects (ev_db db))"
    and db1: "delete_access env tenant bucket key db = Inr db1"
    and tail: "affected env (filter ?hit (od_objects (ev_db db1))) \<noteq> 0"
      "record_events env now now' entry facts (db1\<lparr>ev_db := delete_objects ?hit (ev_db db1)\<rparr>) = Inr db'"
    by (auto simp: hard_delete_tx_def Let_def rbind_Inr stmt_Inr split: if_splits)
  from delete_access_Inr [OF db1] obtain a where a: "db1 = db\<lparr>ev_db := (ev_db db)\<lparr>od_access := a\<rparr>\<rparr>" by blast
  have "\<exists>r \<in> set (od_objects (ev_db db)). ?hit r" using affected_pos [OF tail(1)] by (simp add: a)
  moreover have "db' = with_events now now' entry facts (db\<lparr>ev_db := delete_objects ?hit ((ev_db db)\<lparr>od_access := a\<rparr>)\<rparr>)"
    using record_events_Inr [OF tail(2)] by (simp add: a)
  ultimately show ?thesis using held unfolding hard_effect_def by (auto simp: list_ex_iff)
qed

lemma soft_delete_tx_Inr:
  assumes "soft_delete_tx env t now now' hit target entry facts db = Inr db'"
  shows "soft_effect env t now now' db hit entry facts db'"
proof -
  obtain tenant bucket key where target: "target = (tenant, bucket, key)" by (cases target)
  from assms obtain db1 where db1: "delete_access env tenant bucket key (mark_deleted (column_time env t) hit db) = Inr db1"
    and tail: "affected env (filter hit (od_objects (ev_db db))) \<noteq> 0" "record_events env now now' entry facts db1 = Inr db'"
    by (auto simp: soft_delete_tx_def target rbind_Inr stmt_Inr split: if_splits)
  from delete_access_Inr [OF db1] obtain a
    where "db1 = (mark_deleted (column_time env t) hit db)\<lparr>ev_db := (ev_db (mark_deleted (column_time env t) hit db))\<lparr>od_access := a\<rparr>\<rparr>"
    by blast
  then have a: "db1 = mark_deleted (column_time env t) hit (db\<lparr>ev_db := (ev_db db)\<lparr>od_access := a\<rparr>\<rparr>)"
    by (cases "ev_db db") (simp add: mark_deleted_def update_objects_def)
  show ?thesis unfolding soft_effect_def using affected_pos [OF tail(1)] record_events_Inr [OF tail(2)] a by blast
qed

lemma HardDelete_effect:
  assumes "HardDeleteObjectWithEvent version env now now' db tenant bucket key entry facts = (db', err)"
  shows "(err = None \<longrightarrow> hard_effect now now' db (defaultTenant tenant) bucket key entry facts db') \<and>
    (db' = db \<or> hard_effect now now' db (defaultTenant tenant) bucket key entry facts db')"
proof (cases "validateOutboxFacts version facts")
  case None
  with assms have "in_tx env db (hard_delete_tx env now now' (defaultTenant tenant) bucket key entry facts db) = (db', err)"
    by (simp add: HardDeleteObjectWithEvent_def)
  then show ?thesis by (rule in_tx_atomic) (rule hard_delete_tx_Inr)
qed (use assms in \<open>auto simp: HardDeleteObjectWithEvent_def\<close>)

lemma SoftDelete_effect:
  assumes "SoftDeleteObjectWithEvent version env t now now' db tenant bucket key entry facts = (db', err)"
  shows "(err = None \<longrightarrow> soft_effect env t now now' db (live_at (defaultTenant tenant) bucket key) entry facts db') \<and>
    (db' = db \<or> soft_effect env t now now' db (live_at (defaultTenant tenant) bucket key) entry facts db')"
proof (cases "validateOutboxFacts version facts")
  case None
  with assms have "in_tx env db (soft_delete_tx env t now now' (live_at (defaultTenant tenant) bucket key)
      (defaultTenant tenant, bucket, key) entry facts db) = (db', err)"
    by (simp add: SoftDeleteObjectWithEvent_def Let_def)
  then show ?thesis by (rule in_tx_atomic) (rule soft_delete_tx_Inr)
qed (use assms in \<open>auto simp: SoftDeleteObjectWithEvent_def Let_def\<close>)

lemma SoftDeleteByID_effect:
  assumes "SoftDeleteObjectByIDWithEvent version env t now now' db i entry facts = (db', err)"
  shows "(err = None \<longrightarrow> soft_effect env t now now' db (\<lambda>r. has_id i r \<and> is_live r) entry facts db') \<and>
    (db' = db \<or> soft_effect env t now now' db (\<lambda>r. has_id i r \<and> is_live r) entry facts db')"
  using assms unfolding SoftDeleteObjectByIDWithEvent_def Let_def
proof (rule in_tx_atomic)
  fix x
  assume "(case validateOutboxFacts version facts of Some e \<Rightarrow> Inl e
    | None \<Rightarrow> rbind (not_found (query_row env ''select object'' (filter (\<lambda>r. has_id i r \<and> is_live r) (od_objects (ev_db db)))))
        (\<lambda>r. soft_delete_tx env t now now' (\<lambda>r. has_id i r \<and> is_live r) (resource_of r) entry facts db)) = Inr x"
  then show "soft_effect env t now now' db (\<lambda>r. has_id i r \<and> is_live r) entry facts x"
    by (auto simp: rbind_Inr split: option.splits dest: soft_delete_tx_Inr)
qed

text \<open>C33. Deletion and its events are one transaction.  Whatever the driver fails, each of the three deletions
  either leaves the database as it was or removes (marks) exactly the objects it names, appends
  one audit entry and appends one pending outbox row per fact, in order, under fresh ids; when it
  reports success it did the latter, the object existed, and for a hard delete no legal hold was
  on it.\<close>

theorem delete_with_events_atomic:
  "(HardDeleteObjectWithEvent version env now now' db tenant bucket key entry facts = (db1, err1) \<longrightarrow>
      (err1 = None \<longrightarrow> hard_effect now now' db (defaultTenant tenant) bucket key entry facts db1) \<and>
      (db1 = db \<or> hard_effect now now' db (defaultTenant tenant) bucket key entry facts db1)) \<and>
   (SoftDeleteObjectWithEvent version env t now now' db tenant bucket key entry facts = (db2, err2) \<longrightarrow>
      (err2 = None \<longrightarrow> soft_effect env t now now' db (live_at (defaultTenant tenant) bucket key) entry facts db2) \<and>
      (db2 = db \<or> soft_effect env t now now' db (live_at (defaultTenant tenant) bucket key) entry facts db2)) \<and>
   (SoftDeleteObjectByIDWithEvent version env t now now' db i entry facts = (db3, err3) \<longrightarrow>
      (err3 = None \<longrightarrow> soft_effect env t now now' db (\<lambda>r. has_id i r \<and> is_live r) entry facts db3) \<and>
      (db3 = db \<or> soft_effect env t now now' db (\<lambda>r. has_id i r \<and> is_live r) entry facts db3))"
  by (rule conjI [OF impI [OF HardDelete_effect] conjI [OF impI [OF SoftDelete_effect] impI [OF SoftDeleteByID_effect]]])

end
