(* ===== verification/Outbox_Delivery.thy ===== *)
theory Outbox_Delivery
  imports Event_Outbox
begin

text \<open>
  Relays over the outbox of \<open>internal/repository/event_outbox.go\<close>: every interleaving of deletions,
  claims, completions, retries and prunings, with arbitrary driver faults and clocks.  A fact whose
  completion succeeded is settled: no relay can claim, complete or retry it again, and it has
  exactly one delivery record.
\<close>

section \<open>The invariant\<close>

definition delivered_rows :: "events_db \<Rightarrow> outbox_row set" where
  "delivered_rows db = {r \<in> set (ev_outbox db). eo_status r = ''delivered''}"

definition orow_ok :: "outbox_row \<Rightarrow> bool" where
  "orow_ok r \<longleftrightarrow> eo_status r \<in> {''pending'', ''inflight'', ''delivered'', ''failed''} \<and> 0 \<le> eo_attempts r \<and>
     (eo_status r = ''inflight'' \<longrightarrow> eo_claim_owner r \<noteq> [] \<and> eo_claim_token r \<noteq> []) \<and>
     (eo_status r \<noteq> ''pending'' \<longrightarrow> 1 \<le> eo_attempts r)"

definition outbox_inv :: "events_db \<Rightarrow> bool" where
  "outbox_inv db \<longleftrightarrow> distinct (map eo_id (ev_outbox db)) \<and> (\<forall>r \<in> set (ev_outbox db). eo_id r \<le> ev_seq db \<and> orow_ok r) \<and>
     distinct (map fst (ev_delivered db)) \<and> set (ev_delivered db) = (\<lambda>r. (eo_id r, eo_delivered_at r)) ` delivered_rows db"

lemma outbox_unique: "outbox_inv db \<Longrightarrow> r \<in> set (ev_outbox db) \<Longrightarrow> r' \<in> set (ev_outbox db) \<Longrightarrow> eo_id r = eo_id r' \<Longrightarrow> r = r'"
  unfolding outbox_inv_def distinct_map inj_on_def by blast

lemma update_outbox_set: "set (ev_outbox (update_outbox p f db)) = (\<lambda>r. if p r then f r else r) ` set (ev_outbox db)"
  by (simp add: update_outbox_def)

lemma update_outbox_other [simp]:
  "ev_seq (update_outbox p f db) = ev_seq db" "ev_delivered (update_outbox p f db) = ev_delivered db"
  by (simp_all add: update_outbox_def)

lemma update_outbox_ids: "(\<And>r. eo_id (f r) = eo_id r) \<Longrightarrow> map eo_id (ev_outbox (update_outbox p f db)) = map eo_id (ev_outbox db)"
  by (simp add: update_outbox_def comp_def if_distrib cong: if_cong)

text \<open>An update that neither starts from nor produces a delivered row.\<close>

lemma update_outbox_inv:
  assumes inv: "outbox_inv db" and f: "\<And>r. eo_id (f r) = eo_id r"
    and ok: "\<And>r. r \<in> set (ev_outbox db) \<Longrightarrow> p r \<Longrightarrow> orow_ok r \<Longrightarrow> orow_ok (f r) \<and> eo_status r \<noteq> ''delivered'' \<and> eo_status (f r) \<noteq> ''delivered''"
  shows "outbox_inv (update_outbox p f db)"
proof -
  let ?g = "\<lambda>r. if p r then f r else r"
  have row: "eo_id (?g r) \<le> ev_seq db \<and> orow_ok (?g r)" if "r \<in> set (ev_outbox db)" for r
    using inv ok [OF that] that f by (auto simp: outbox_inv_def)
  have "delivered_rows (update_outbox p f db) \<subseteq> delivered_rows db"
    unfolding delivered_rows_def update_outbox_set using ok inv by (auto simp: outbox_inv_def split: if_splits)
  moreover have "delivered_rows db \<subseteq> delivered_rows (update_outbox p f db)"
  proof
    fix r assume r: "r \<in> delivered_rows db"
    then have "\<not> p r" using ok [of r] inv by (auto simp: delivered_rows_def outbox_inv_def)
    then show "r \<in> delivered_rows (update_outbox p f db)"
      using r unfolding delivered_rows_def update_outbox_set by (auto intro: image_eqI [of _ _ r])
  qed
  ultimately have "delivered_rows (update_outbox p f db) = delivered_rows db" by blast
  moreover have "\<forall>x \<in> ?g ` set (ev_outbox db). eo_id x \<le> ev_seq db \<and> orow_ok x" using row by blast
  ultimately show ?thesis
    using inv unfolding outbox_inv_def update_outbox_other update_outbox_ids [OF f] update_outbox_set by blast
qed

lemma fact_rows_props:
  "map eo_id (fact_rows now s fs) = map (\<lambda>k. s + 1 + int k) [0..<length fs]"
  "\<forall>r \<in> set (fact_rows now s fs). s < eo_id r \<and> eo_id r \<le> s + int (length fs) \<and> orow_ok r \<and> eo_status r = ''pending''"
proof -
  show "map eo_id (fact_rows now s fs) = map (\<lambda>k. s + 1 + int k) [0..<length fs]"
  proof (induction fs arbitrary: s)
    case (Cons f fs)
    have "map (\<lambda>k. s + 1 + int k) [0..<length (f # fs)] = (s + 1) # map (\<lambda>k. s + 1 + 1 + int k) [0..<length fs]"
      by (simp add: upt_conv_Cons map_Suc_upt [symmetric] del: upt_Suc)
    with Cons show ?case by (simp add: new_outbox_row_def)
  qed simp
  show "\<forall>r \<in> set (fact_rows now s fs). s < eo_id r \<and> eo_id r \<le> s + int (length fs) \<and> orow_ok r \<and> eo_status r = ''pending''"
  proof (induction fs arbitrary: s)
    case (Cons f fs)
    from Cons.IH [of "s + 1"] show ?case by (auto simp: new_outbox_row_def orow_ok_def)
  qed simp
qed

text \<open>Deletions append pending rows under fresh ids.\<close>

definition appends :: "events_db \<Rightarrow> events_db \<Rightarrow> bool" where
  "appends db db' \<longleftrightarrow> (\<exists>now fs. ev_outbox db' = ev_outbox db @ fact_rows now (ev_seq db) fs \<and> ev_seq db' = ev_seq db + int (length fs)) \<and>
     ev_delivered db' = ev_delivered db"

lemma appends_inv:
  assumes inv: "outbox_inv db" and "appends db db'"
  shows "outbox_inv db'"
proof -
  from assms(2) obtain now fs where o: "ev_outbox db' = ev_outbox db @ fact_rows now (ev_seq db) fs"
    and s: "ev_seq db' = ev_seq db + int (length fs)" and d: "ev_delivered db' = ev_delivered db"
    by (auto simp: appends_def)
  note new = fact_rows_props [of now "ev_seq db" fs]
  have "distinct (map eo_id (fact_rows now (ev_seq db) fs))" unfolding new(1) by (simp add: distinct_map inj_on_def)
  moreover have "eo_id r \<noteq> eo_id r'" if "r \<in> set (ev_outbox db)" "r' \<in> set (fact_rows now (ev_seq db) fs)" for r r'
    using inv new(2) that by (force simp: outbox_inv_def)
  ultimately have "distinct (map eo_id (ev_outbox db'))" using inv by (auto simp: o outbox_inv_def)
  moreover have "delivered_rows db' = delivered_rows db" using new(2) by (auto simp: delivered_rows_def o)
  moreover have "eo_id r \<le> ev_seq db' \<and> orow_ok r" if "r \<in> set (ev_outbox db')" for r
    using that inv new(2) by (force simp: o s outbox_inv_def)
  ultimately show ?thesis using inv by (simp add: outbox_inv_def d)
qed

lemma with_events_appends:
  "ev_outbox x = ev_outbox db \<Longrightarrow> ev_seq x = ev_seq db \<Longrightarrow> ev_delivered x = ev_delivered db \<Longrightarrow>
     appends db (with_events now now' entry facts x)"
  unfolding appends_def by (intro conjI exI [of _ now'] exI [of _ facts]) (simp_all add: with_events_def)

lemma appends_refl: "ev_outbox db' = ev_outbox db \<Longrightarrow> ev_seq db' = ev_seq db \<Longrightarrow> ev_delivered db' = ev_delivered db \<Longrightarrow> appends db db'"
  unfolding appends_def by (intro conjI exI [of _ 0] exI [of _ "[]"]) simp_all

lemma delete_appends:
  "appends db (fst (HardDeleteObjectWithEvent version env now now' db tenant bucket key entry facts))"
  "appends db (fst (SoftDeleteObjectWithEvent version env t now now' db tenant bucket key entry facts))"
  "appends db (fst (SoftDeleteObjectByIDWithEvent version env t now now' db i entry facts))"
proof -
  have hard: "appends db x" if "x = db \<or> hard_effect now now' db tn bucket key entry facts x" for x tn
    using that appends_refl by (auto simp: hard_effect_def intro!: with_events_appends)
  have soft: "appends db x" if "x = db \<or> soft_effect env t now now' db hit entry facts x" for x hit
    using that appends_refl by (auto simp: soft_effect_def mark_deleted_def intro!: with_events_appends)
  show "appends db (fst (HardDeleteObjectWithEvent version env now now' db tenant bucket key entry facts))"
    using HardDelete_effect [OF prod.collapse [symmetric]] hard by blast
  show "appends db (fst (SoftDeleteObjectWithEvent version env t now now' db tenant bucket key entry facts))"
    using SoftDelete_effect [OF prod.collapse [symmetric]] soft by blast
  show "appends db (fst (SoftDeleteObjectByIDWithEvent version env t now now' db i entry facts))"
    using SoftDeleteByID_effect [OF prod.collapse [symmetric]] soft by blast
qed

section \<open>Claims\<close>

lemma claim_row_simps [simp]:
  "eo_id (claim_row owner token until r) = eo_id r" "eo_status (claim_row owner token until r) = ''inflight''"
  "eo_lease_expires_at (claim_row owner token until r) = until"
  by (simp_all add: claim_row_def)

lemma due_open: "due now r \<Longrightarrow> eo_status r = ''pending'' \<or> eo_status r = ''inflight''"
  by (auto simp: due_def)

lemma claim_update_inv:
  assumes "outbox_inv db" and "\<And>r. r \<in> set (ev_outbox db) \<Longrightarrow> p r \<Longrightarrow> due now r" and "owner \<noteq> []" and "token \<noteq> []"
  shows "outbox_inv (update_outbox p (claim_row owner token until) db)"
proof (rule update_outbox_inv [OF assms(1)])
  fix r assume "r \<in> set (ev_outbox db)" "p r" "orow_ok r"
  with due_open [OF assms(2)] assms(3,4)
  show "orow_ok (claim_row owner token until r) \<and> eo_status r \<noteq> ''delivered'' \<and> eo_status (claim_row owner token until r) \<noteq> ''delivered''"
    by (fastforce simp: orow_ok_def claim_row_def)
qed simp

lemma due_ids_due: "i \<in> set (due_ids now limit rows) \<Longrightarrow> \<exists>r \<in> set rows. due now r \<and> eo_id r = i"
  by (auto simp: due_ids_def limit_rows_def dest!: in_set_takeD)

text \<open>
  What a claim does, for both dialects: it updates due rows only and returns only their ids.
  \<open>Q\<close> stands for any property that updates of due rows keep.
\<close>

definition claim_closed :: "(events_db \<Rightarrow> bool) \<Rightarrow> bool" where
  "claim_closed Q \<longleftrightarrow> (\<forall>db p owner token until now. Q db \<and> outbox_inv db \<and> owner \<noteq> [] \<and> token \<noteq> [] \<and>
     (\<forall>r \<in> set (ev_outbox db). p r \<longrightarrow> due now r) \<longrightarrow> Q (update_outbox p (claim_row owner token until) db))"

definition due_now :: "instant \<Rightarrow> events_db \<Rightarrow> int set" where
  "due_now now db = eo_id ` {r \<in> set (ev_outbox db). due now r}"

lemma claim_closedD:
  assumes "claim_closed Q" and "Q db" and "outbox_inv db" and "owner \<noteq> []" and "token \<noteq> []"
    and "\<And>r. r \<in> set (ev_outbox db) \<Longrightarrow> p r \<Longrightarrow> due now r"
  shows "Q (update_outbox p (claim_row owner token until) db)"
  using assms unfolding claim_closed_def by blast

lemma claimIDs_spec:
  assumes "claim_closed Q" and "owner \<noteq> []" and "token \<noteq> []" and "0 < ttl"
  shows "claimEventOutboxIDs env owner token is now ttl db = Inr (db', facts) \<Longrightarrow> outbox_inv db \<Longrightarrow> Q db \<Longrightarrow>
    outbox_inv db' \<and> Q db' \<and> er_ID ` set facts \<subseteq> due_now now db"
proof (induction "is" arbitrary: db facts)
  case (Cons i "is")
  let ?hit = "\<lambda>r. eo_id r = i \<and> due now r" and ?claim = "claim_row owner token (now + ttl)"
  show ?case
  proof (cases "query_row env ''claim outbox row'' (filter ?hit (ev_outbox db))")
    case (Inl e)
    with Cons show ?thesis by (auto simp: Let_def split: if_splits)
  next
    case (Inr r)
    then have r: "r \<in> set (ev_outbox db)" "?hit r"
      by (auto simp: query_row_def stmt_Inr split: list.splits dest!: filter_hd)
    let ?db1 = "update_outbox ?hit ?claim db"
    from Cons.prems(1) Inr obtain facts' where f: "claimEventOutboxIDs env owner token is now ttl ?db1 = Inr (db', facts')"
      "facts = scanEventOutboxRow (?claim r) # facts'"
      by (auto simp: Let_def rbind_Inr)
    have "outbox_inv ?db1" using claim_update_inv [OF Cons.prems(2), of ?hit now owner token "now + ttl"] assms(2,3) by simp
    moreover have "Q ?db1" by (rule claim_closedD [OF assms(1) Cons.prems(3,2) assms(2,3), of _ now]) simp
    ultimately have ih: "outbox_inv db' \<and> Q db' \<and> er_ID ` set facts' \<subseteq> due_now now ?db1" using Cons.IH [OF f(1)] by blast
    have "due_now now ?db1 \<subseteq> due_now now db"
      using assms(4) unfolding due_now_def update_outbox_set by (auto simp: due_def split: if_splits)
    moreover have "er_ID (scanEventOutboxRow (?claim r)) \<in> due_now now db"
      using r by (auto simp: scanEventOutboxRow_def due_now_def)
    ultimately show ?thesis using ih by (auto simp: f(2))
  qed
qed auto

lemma ClaimEventOutbox_spec:
  assumes closed: "claim_closed Q" and inv: "outbox_inv db" and Q: "Q db"
    and res: "ClaimEventOutbox env now now' db owner token limit ttl = (db', answer)"
  shows "outbox_inv db' \<and> Q db'" and "answer = Inr facts \<Longrightarrow> er_ID ` set facts \<subseteq> due_now now db"
proof -
  have "(outbox_inv db' \<and> Q db') \<and> (\<forall>facts. answer = Inr facts \<longrightarrow> er_ID ` set facts \<subseteq> due_now now db)"
  proof (cases "owner = [] \<or> token = [] \<or> ttl \<le> 0")
    case True
    with res inv Q show ?thesis by (auto simp: ClaimEventOutbox_def)
  next
    case False
    define lim where "lim = (if limit \<le> 0 \<or> limit > 500 then 32 else limit)"
    let ?ids = "due_ids now lim (ev_outbox db)"
    show ?thesis
    proof (cases "dialect_of env")
      case dialectPostgres
      let ?hit = "\<lambda>r. eo_id r \<in> set ?ids" and ?claim = "claim_row owner token (now' + ttl)"
      have hit: "due now r" if "r \<in> set (ev_outbox db)" "?hit r" for r
      proof -
        note d = due_ids_due [OF that(2)]
        then obtain q where "q \<in> set (ev_outbox db)" "due now q" "eo_id q = eo_id r" by blast
        moreover have "r = q" if "q \<in> set (ev_outbox db)" "eo_id q = eo_id r" for q
          using outbox_unique [OF inv \<open>r \<in> set (ev_outbox db)\<close>] that by simp
        ultimately show ?thesis by blast
      qed
      have id: "owner \<noteq> []" "token \<noteq> []" using False by auto
      have upd: "outbox_inv (update_outbox ?hit ?claim db) \<and> Q (update_outbox ?hit ?claim db)"
        by (rule conjI) (rule claim_update_inv [OF inv hit id] claim_closedD [OF closed Q inv id hit]; assumption)+
      have "er_ID ` set (map (\<lambda>r. scanEventOutboxRow (?claim r)) (filter ?hit (ev_outbox db))) \<subseteq> due_now now db"
        using hit by (auto simp: scanEventOutboxRow_def due_now_def)
      with res upd inv Q False dialectPostgres show ?thesis
        by (auto simp: ClaimEventOutbox_def claimEventOutboxPostgres_def Let_def lim_def [symmetric] stmt_Inr split: option.splits)
    next
      case dialectSQLite
      have "outbox_inv db2 \<and> Q db2 \<and> er_ID ` set facts \<subseteq> due_now now db"
        if "claimEventOutboxIDs env owner token ?ids now ttl db = Inr (db2, facts)" for db2 facts
        using claimIDs_spec [OF closed _ _ _ that inv Q] False by simp
      with res inv Q False dialectSQLite show ?thesis
        by (auto simp: ClaimEventOutbox_def claimEventOutboxSQLite_def Let_def lim_def [symmetric] stmt_Inr tx_commit_def
            split: option.splits sum.splits if_splits dest!: subsetD [OF _ imageI])
    qed
  qed
  then show "outbox_inv db' \<and> Q db'" and "answer = Inr facts \<Longrightarrow> er_ID ` set facts \<subseteq> due_now now db" by blast+
qed

section \<open>Completion, retry, pruning\<close>

text \<open>What a completion that changes the table has done.\<close>

definition completes :: "instant \<Rightarrow> events_db \<Rightarrow> int \<Rightarrow> string \<Rightarrow> string \<Rightarrow> events_db \<Rightarrow> bool" where
  "completes now db i owner token db' \<longleftrightarrow> (\<exists>r \<in> set (ev_outbox db). fenced i owner token now r) \<and> i \<notin> fst ` set (ev_delivered db) \<and>
     db' = (update_outbox (fenced i owner token now) (deliver_row now) db)\<lparr>ev_delivered := ev_delivered db @ [(i, now)]\<rparr>"

lemma Complete_cases:
  assumes "CompleteEventOutbox env now db i owner token = (db', err)"
  shows "(err = None \<longrightarrow> completes now db i owner token db') \<and> (db' = db \<or> completes now db i owner token db')"
  using assms unfolding CompleteEventOutbox_def Let_def
proof (rule in_tx_atomic)
  fix x
  let ?hit = "fenced i owner token now"
  assume "rbind (stmt env ''complete outbox'' (Inr (update_outbox ?hit (deliver_row now) db))) (\<lambda>db1.
         if affected env (filter ?hit (ev_outbox db)) \<noteq> 1 then Inl (Sentinel ErrEventOutboxClaimLost)
         else stmt env ''insert delivered''
           (if i \<in> fst ` set (ev_delivered db1) then Inl (pkey_violation env ''event_outbox_delivered_pkey'')
            else Inr (db1\<lparr>ev_delivered := ev_delivered db1 @ [(i, now)]\<rparr>))) = Inr x"
  then have "affected env (filter ?hit (ev_outbox db)) = 1" "i \<notin> fst ` set (ev_delivered db)"
    "x = (update_outbox ?hit (deliver_row now) db)\<lparr>ev_delivered := ev_delivered db @ [(i, now)]\<rparr>"
    by (simp_all add: rbind_Inr stmt_Inr split: if_splits)
  moreover have "\<exists>r \<in> set (ev_outbox db). ?hit r" using calculation(1) affected_pos [of env ?hit "ev_outbox db"] by simp
  ultimately show "completes now db i owner token x" unfolding completes_def by blast
qed

lemma deliver_row_simps [simp]:
  "eo_id (deliver_row now r) = eo_id r" "eo_status (deliver_row now r) = ''delivered''" "eo_delivered_at (deliver_row now r) = now"
  by (simp_all add: deliver_row_def)

lemma completes_inv:
  assumes inv: "outbox_inv db" and "completes now db i owner token db'"
  shows "outbox_inv db'"
proof -
  let ?hit = "fenced i owner token now"
  let ?g = "\<lambda>r. if ?hit r then deliver_row now r else r"
  from assms(2) obtain q where q: "q \<in> set (ev_outbox db)" "?hit q" and fresh: "i \<notin> fst ` set (ev_delivered db)"
    and db': "db' = (update_outbox ?hit (deliver_row now) db)\<lparr>ev_delivered := ev_delivered db @ [(i, now)]\<rparr>"
    by (auto simp: completes_def)
  have rows: "ev_outbox db' = map ?g (ev_outbox db)" "ev_seq db' = ev_seq db" by (simp_all add: db' update_outbox_def)
  have ids: "map eo_id (ev_outbox db') = map eo_id (ev_outbox db)" by (simp add: rows)
  have ok: "eo_id (?g r) \<le> ev_seq db \<and> orow_ok (?g r)" if "r \<in> set (ev_outbox db)" for r
  proof -
    have "eo_id r \<le> ev_seq db" "orow_ok r" using inv that by (auto simp: outbox_inv_def)
    then show ?thesis by (auto simp: orow_ok_def fenced_def) (simp_all add: deliver_row_def)
  qed
  have hit: "?hit r \<longleftrightarrow> r = q" if "r \<in> set (ev_outbox db)" for r
    using outbox_unique [OF inv that q(1)] q(2) by (auto simp: fenced_def)
  have "delivered_rows db' = insert (deliver_row now q) (delivered_rows db)"
  proof -
    have "set (ev_outbox db') = insert (deliver_row now q) (set (ev_outbox db) - {q})"
      unfolding rows using q(1) hit by auto
    moreover have "eo_status q \<noteq> ''delivered''" using q(2) by (auto simp: fenced_def)
    ultimately show ?thesis unfolding delivered_rows_def by auto
  qed
  moreover have "eo_id q = i" using q(2) by (simp add: fenced_def)
  ultimately have "set (ev_delivered db') = (\<lambda>r. (eo_id r, eo_delivered_at r)) ` delivered_rows db'"
    using inv by (simp add: db' outbox_inv_def)
  moreover have "distinct (map fst (ev_delivered db'))" using inv fresh by (simp add: db' outbox_inv_def)
  moreover have "\<forall>x \<in> set (ev_outbox db'). eo_id x \<le> ev_seq db' \<and> orow_ok x" unfolding rows set_map using ok by blast
  ultimately show ?thesis using inv ids by (simp add: outbox_inv_def)
qed

lemma Retry_inv:
  assumes "outbox_inv db"
  shows "outbox_inv (fst (RetryEventOutbox env now db i owner token e next_at m))"
proof -
  have "outbox_inv (update_outbox (fenced i owner token now) (requeue_row m' next_at e') db)" for m' e'
    by (rule update_outbox_inv [OF assms]) (auto simp: requeue_row_def fenced_def orow_ok_def)
  then show ?thesis using assms by (simp add: RetryEventOutbox_def Let_def split: option.splits)
qed

definition pruned :: "instant \<Rightarrow> instant \<Rightarrow> events_db \<Rightarrow> events_db" where
  "pruned deliveredBefore failedBefore db =
     db\<lparr>ev_delivered := filter (\<lambda>(i, _). i \<notin> eo_id ` {r \<in> set (ev_outbox db). eo_status r = ''delivered'' \<and> eo_delivered_at r < deliveredBefore})
           (ev_delivered db),
        ev_outbox := filter (\<lambda>r. \<not> (eo_status r = ''failed'' \<and> eo_created_at r < failedBefore))
           (filter (\<lambda>r. \<not> (eo_status r = ''delivered'' \<and> eo_delivered_at r < deliveredBefore)) (ev_outbox db))\<rparr>"

lemma Prune_cases: "fst (PruneEventOutbox env db dB fB) = db \<or> fst (PruneEventOutbox env db dB fB) = pruned dB fB db"
proof -
  have "fst (in_tx env db (stmt env a (stmt env b (stmt env c (Inr x))))) = db \<or> fst (in_tx env db (stmt env a (stmt env b (stmt env c (Inr x))))) = x" for a b c x
    by (auto simp: in_tx_def stmt_def tx_commit_def split: option.splits)
  moreover have "fst (case y of (db', None) \<Rightarrow> (db', Inr n) | (db', Some e) \<Rightarrow> (db', Inl e)) = fst y" for y :: "events_db \<times> gerr option" and n :: int
    by (auto split: prod.splits option.splits)
  ultimately show ?thesis unfolding PruneEventOutbox_def Let_def pruned_def by auto
qed

lemma pruned_inv:
  assumes inv: "outbox_inv db"
  shows "outbox_inv (pruned dB fB db)"
proof -
  let ?old = "\<lambda>r. eo_status r = ''delivered'' \<and> eo_delivered_at r < dB"
  let ?gone = "eo_id ` {r \<in> set (ev_outbox db). ?old r}"
  have rows: "delivered_rows (pruned dB fB db) = {r \<in> delivered_rows db. \<not> ?old r}"
    by (auto simp: delivered_rows_def pruned_def)
  have old: "eo_id r \<in> ?gone \<longleftrightarrow> ?old r" if "r \<in> delivered_rows db" for r
  proof
    have r: "r \<in> set (ev_outbox db)" using that by (simp add: delivered_rows_def)
    show "?old r" if "eo_id r \<in> ?gone"
    proof -
      from that obtain q where q: "q \<in> set (ev_outbox db)" "?old q" "eo_id r = eo_id q" by blast
      from outbox_unique [OF inv r q(1,3)] q(2) show ?thesis by simp
    qed
    show "eo_id r \<in> ?gone" if "?old r" using that r by blast
  qed
  have "set (ev_delivered (pruned dB fB db)) = {(i, t) \<in> set (ev_delivered db). i \<notin> ?gone}" by (auto simp: pruned_def)
  also have "\<dots> = {(i, t) \<in> (\<lambda>r. (eo_id r, eo_delivered_at r)) ` delivered_rows db. i \<notin> ?gone}" using inv by (simp add: outbox_inv_def)
  also have "\<dots> = (\<lambda>r. (eo_id r, eo_delivered_at r)) ` {r \<in> delivered_rows db. eo_id r \<notin> ?gone}" by auto
  also have "{r \<in> delivered_rows db. eo_id r \<notin> ?gone} = {r \<in> delivered_rows db. \<not> ?old r}"
    by (intro Collect_cong conj_cong refl) (simp only: old)
  finally have rec: "set (ev_delivered (pruned dB fB db)) = (\<lambda>r. (eo_id r, eo_delivered_at r)) ` delivered_rows (pruned dB fB db)"
    by (simp only: rows)
  have "distinct (map eo_id (ev_outbox (pruned dB fB db)))" "distinct (map fst (ev_delivered (pruned dB fB db)))"
    using inv by (simp_all add: pruned_def outbox_inv_def distinct_map_filter)
  moreover have "\<forall>r \<in> set (ev_outbox (pruned dB fB db)). eo_id r \<le> ev_seq (pruned dB fB db) \<and> orow_ok r"
    using inv by (simp add: pruned_def outbox_inv_def)
  ultimately show ?thesis using rec unfolding outbox_inv_def by blast
qed

section \<open>Runs\<close>

text \<open>
  One operation of a process on the database.  \<open>other\<close> is any transaction that does not touch the
  outbox tables.
\<close>

inductive outbox_step :: "events_db \<Rightarrow> events_db \<Rightarrow> bool" where
  hard: "outbox_step db (fst (HardDeleteObjectWithEvent version env now now' db tenant bucket key entry facts))"
| soft: "outbox_step db (fst (SoftDeleteObjectWithEvent version env t now now' db tenant bucket key entry facts))"
| soft_id: "outbox_step db (fst (SoftDeleteObjectByIDWithEvent version env t now now' db i entry facts))"
| claim: "outbox_step db (fst (ClaimEventOutbox env now now' db owner token limit ttl))"
| complete: "outbox_step db (fst (CompleteEventOutbox env now db i owner token))"
| retry: "outbox_step db (fst (RetryEventOutbox env now db i owner token e next_at m))"
| prune: "outbox_step db (fst (PruneEventOutbox env db dB fB))"
| other: "ev_outbox db' = ev_outbox db \<Longrightarrow> ev_seq db' = ev_seq db \<Longrightarrow> ev_delivered db' = ev_delivered db \<Longrightarrow> outbox_step db db'"

definition outbox_reach :: "events_db \<Rightarrow> bool" where
  "outbox_reach db \<longleftrightarrow> (\<exists>db0. ev_outbox db0 = [] \<and> ev_delivered db0 = [] \<and> outbox_step\<^sup>*\<^sup>* db0 db)"

text \<open>A settled fact: delivered, failed, or pruned.\<close>

definition settled :: "int \<Rightarrow> events_db \<Rightarrow> bool" where
  "settled i db \<longleftrightarrow> i \<le> ev_seq db \<and> (\<forall>r \<in> set (ev_outbox db). eo_id r = i \<longrightarrow> eo_status r = ''delivered'' \<or> eo_status r = ''failed'')"

lemma settled_update:
  assumes "settled i db" and "\<And>r. eo_id (f r) = eo_id r"
    and "\<And>r. r \<in> set (ev_outbox db) \<Longrightarrow> p r \<Longrightarrow> eo_status r = ''pending'' \<or> eo_status r = ''inflight''"
  shows "settled i (update_outbox p f db)"
proof -
  have "eo_status (if p r then f r else r) = ''delivered'' \<or> eo_status (if p r then f r else r) = ''failed''"
    if "r \<in> set (ev_outbox db)" "eo_id (if p r then f r else r) = i" for r
    using assms(1,2) assms(3) [OF that(1)] that by (cases "p r") (auto simp: settled_def)
  with assms(1) show ?thesis unfolding settled_def update_outbox_set update_outbox_other by blast
qed

lemma settled_claim_closed: "claim_closed (settled i)"
  unfolding claim_closed_def by (intro allI impI settled_update) (auto dest: due_open)

lemma true_claim_closed: "claim_closed (\<lambda>_. True)"
  by (simp add: claim_closed_def)

lemma settled_appends:
  assumes "settled i db" and "appends db db'"
  shows "settled i db'"
proof -
  from assms(2) obtain now fs where "ev_outbox db' = ev_outbox db @ fact_rows now (ev_seq db) fs" "ev_seq db' = ev_seq db + int (length fs)"
    by (auto simp: appends_def)
  then show ?thesis using assms(1) fact_rows_props(2) [of now "ev_seq db" fs] by (force simp: settled_def)
qed

lemma step_inv:
  assumes "outbox_step db db'" and "outbox_inv db"
  shows "outbox_inv db' \<and> (settled i db \<longrightarrow> settled i db')"
proof -
  have app: "outbox_inv x \<and> (settled i db \<longrightarrow> settled i x)" if "appends db x" for x
    using appends_inv [OF assms(2) that] settled_appends [OF _ that] by blast
  from assms(1) show ?thesis
proof (cases rule: outbox_step.cases)
  case hard
  show ?thesis unfolding hard by (rule app [OF delete_appends(1)])
next
  case soft
  show ?thesis unfolding soft by (rule app [OF delete_appends(2)])
next
  case soft_id
  show ?thesis unfolding soft_id by (rule app [OF delete_appends(3)])
next
  case (claim env now now' owner token limit ttl)
  note res = prod.collapse [of "ClaimEventOutbox env now now' db owner token limit ttl", symmetric]
  show ?thesis unfolding claim
    using ClaimEventOutbox_spec(1) [OF true_claim_closed assms(2) TrueI res] ClaimEventOutbox_spec(1) [OF settled_claim_closed assms(2) _ res]
    by blast
next
  case (complete env now j owner token)
  note res = Complete_cases [OF prod.collapse [of "CompleteEventOutbox env now db j owner token", symmetric]]
  have "settled i x" if "completes now db j owner token x" "settled i db" for x
  proof -
    from that(1) have "ev_outbox x = ev_outbox (update_outbox (fenced j owner token now) (deliver_row now) db)" "ev_seq x = ev_seq db"
      by (auto simp: completes_def)
    moreover have "settled i (update_outbox (fenced j owner token now) (deliver_row now) db)"
      by (rule settled_update [OF that(2)]) (auto simp: fenced_def)
    ultimately show ?thesis by (simp add: settled_def)
  qed
  then show ?thesis unfolding complete using res completes_inv [OF assms(2)] assms(2) by metis
next
  case (retry env now j owner token e next_at m)
  have "settled i (update_outbox (fenced j owner token now) (requeue_row m' next_at e') db)" if "settled i db" for m' e'
    by (rule settled_update [OF that]) (auto simp: fenced_def requeue_row_def)
  then show ?thesis unfolding retry using Retry_inv [OF assms(2)] by (simp add: RetryEventOutbox_def Let_def split: option.splits)
next
  case (prune env dB fB)
  have "settled i (pruned dB fB db)" if "settled i db" using that by (auto simp: settled_def pruned_def)
  then show ?thesis unfolding prune using Prune_cases [of env db dB fB] pruned_inv [OF assms(2)] assms(2) by metis
next
  case other
  then show ?thesis by (intro app appends_refl)
qed
qed

lemma steps_inv: "outbox_step\<^sup>*\<^sup>* db db' \<Longrightarrow> outbox_inv db \<Longrightarrow> outbox_inv db' \<and> (settled i db \<longrightarrow> settled i db')"
  by (induction rule: rtranclp_induct) (use step_inv in blast)+

lemma reach_inv: "outbox_reach db \<Longrightarrow> outbox_inv db"
  unfolding outbox_reach_def using steps_inv by (auto simp: outbox_inv_def delivered_rows_def)

section \<open>Delivered once\<close>

lemma completes_settled:
  assumes inv: "outbox_inv db" and "completes now db i owner token db'"
  shows "settled i db'" and "filter (\<lambda>(j, _). j = i) (ev_delivered db') = [(i, now)]"
proof -
  let ?hit = "fenced i owner token now"
  from assms(2) obtain q where q: "q \<in> set (ev_outbox db)" "?hit q" and fresh: "i \<notin> fst ` set (ev_delivered db)"
    and db': "db' = (update_outbox ?hit (deliver_row now) db)\<lparr>ev_delivered := ev_delivered db @ [(i, now)]\<rparr>"
    by (auto simp: completes_def)
  have id: "eo_id q = i" using q(2) by (simp add: fenced_def)
  have "?hit r" if "r \<in> set (ev_outbox db)" "eo_id r = i" for r
    using outbox_unique [OF inv that(1) q(1)] that(2) id q(2) by simp
  moreover have "i \<le> ev_seq db" using inv q(1) id by (auto simp: outbox_inv_def)
  ultimately show "settled i db'" by (auto simp: settled_def db' update_outbox_def)
  have "filter (\<lambda>(j, _). j = i) (ev_delivered db) = []" using fresh by (force simp: filter_empty_conv)
  then show "filter (\<lambda>(j, _). j = i) (ev_delivered db') = [(i, now)]" by (simp add: db')
qed

lemma settled_not_fenced: "settled i db \<Longrightarrow> filter (fenced i owner token now) (ev_outbox db) = []"
  by (auto simp: settled_def fenced_def filter_empty_conv)

lemma settled_stays:
  assumes "outbox_inv db" and "settled i db"
  shows "ClaimEventOutbox env now now' db owner token limit ttl = (db', Inr facts) \<Longrightarrow> i \<notin> er_ID ` set facts"
    and "snd (CompleteEventOutbox env now db i owner token) \<noteq> None"
    and "snd (RetryEventOutbox env now db i owner token e next_at m) \<noteq> None"
proof -
  note none = settled_not_fenced [OF assms(2)]
  show "i \<notin> er_ID ` set facts" if "ClaimEventOutbox env now now' db owner token limit ttl = (db', Inr facts)"
    using ClaimEventOutbox_spec(2) [OF true_claim_closed assms(1) TrueI that refl] assms(2)
    by (fastforce simp: due_now_def settled_def due_def)
  have "\<not> completes now db i owner token x" for x using none [of owner token now] by (auto simp: completes_def filter_empty_conv)
  then show "snd (CompleteEventOutbox env now db i owner token) \<noteq> None"
    using Complete_cases [OF prod.collapse [of "CompleteEventOutbox env now db i owner token", symmetric]] by blast
  show "snd (RetryEventOutbox env now db i owner token e next_at m) \<noteq> None"
    by (simp add: RetryEventOutbox_def Let_def none affected_def split: option.splits)
qed

text \<open>C34. Delivery is recorded once.  In every run of deletions, relays and prunings, under arbitrary driver
  faults and clocks, a completion succeeds only for the claim that still holds a live lease on the
  fact; it leaves exactly one delivery record, and from then on, whatever else happens, no claim
  hands the fact out again and every further completion or retry of it is refused, by whichever
  relay.\<close>

theorem outbox_delivered_once:
  assumes "outbox_reach db" and "CompleteEventOutbox env now db i owner token = (db1, None)" and "outbox_step\<^sup>*\<^sup>* db1 db2"
  shows "(\<exists>r \<in> set (ev_outbox db). fenced i owner token now r) \<and>
    filter (\<lambda>(j, _). j = i) (ev_delivered db1) = [(i, now)] \<and>
    (\<forall>env2 t t' owner2 token2 limit ttl db3 facts.
       ClaimEventOutbox env2 t t' db2 owner2 token2 limit ttl = (db3, Inr facts) \<longrightarrow> i \<notin> er_ID ` set facts) \<and>
    (\<forall>env2 t owner2 token2. snd (CompleteEventOutbox env2 t db2 i owner2 token2) \<noteq> None) \<and>
    (\<forall>env2 t owner2 token2 e next_at m. snd (RetryEventOutbox env2 t db2 i owner2 token2 e next_at m) \<noteq> None)"
proof -
  note inv = reach_inv [OF assms(1)]
  have c: "completes now db i owner token db1" using Complete_cases [OF assms(2)] by blast
  have "outbox_inv db2" "settled i db2"
    using steps_inv [OF assms(3) completes_inv [OF inv c], of i] completes_settled(1) [OF inv c] by blast+
  note stays = settled_stays [OF this]
  have "\<exists>r \<in> set (ev_outbox db). fenced i owner token now r" using c by (simp add: completes_def)
  then show ?thesis using completes_settled(2) [OF inv c] stays by (intro conjI allI impI)
qed

section \<open>A run\<close>

text \<open>An object is deleted; a relay claims the fact of the deletion and completes it.\<close>

definition demo_fact :: OutboxFact where
  "demo_fact = \<lparr>of_EventType = EventTypeFileDeleted11, of_OriginID = 7, of_TenantID = ''t'', of_Payload = ''{}''\<rparr>"

definition demo_audit :: AuditEntry where
  "demo_audit = \<lparr>ae_Actor = ''u'', ae_Action = ''delete'', ae_Target = ''k'', ae_TenantID = ''t'', ae_Detail = [], ae_CreatedAt = None\<rparr>"

definition no_access :: access_db where
  "no_access = \<lparr>departments = [], department_members = [], resource_acls = [], shares = [], public_assets = []\<rparr>"

definition doomed_row :: objects_row where
  "doomed_row = \<lparr>o_ID = 7, o_TenantID = ''t'', o_Bucket = ''b'', o_Key = ''k'', o_VersionID = ''v'', o_Backend = ''local'',
     o_StorageKey = ''t/b/k'', o_Size = 1, o_ETag = ''e'', o_ContentType = [], o_Metadata = [], o_Tags = [], o_StorageClass = ''STANDARD'',
     o_CreatedAt = 1, o_UpdatedAt = 1, o_DeletedAt = None, o_LockedUntil = None, o_VersionTombstone = False, o_acl = []\<rparr>"

definition events0 :: events_db where
  "events0 = \<lparr>ev_db = \<lparr>od_objects = [doomed_row], od_holds = [], od_access = no_access, od_seq = 7\<rparr>,
     ev_audit = [], ev_outbox = [], ev_seq = 0, ev_delivered = []\<rparr>"

definition events1 :: events_db where
  "events1 = with_events 10 11 demo_audit [demo_fact] (events0\<lparr>ev_db := (ev_db events0)\<lparr>od_objects := []\<rparr>\<rparr>)"

definition events2 :: events_db where
  "events2 = events1\<lparr>ev_outbox := [claim_row ''relay'' ''tok'' 50 (new_outbox_row 11 1 demo_fact)]\<rparr>"

abbreviation ev_env :: sql_env where
  "ev_env \<equiv> no_faults dialectPostgres"

lemma demo_fact_valid: "validateOutboxFacts (\<lambda>_. Some ''1.1'') [demo_fact] = None"
proof -
  have "visible_ascii ''t''" by (simp add: visible_ascii_def byte_def)
  then show ?thesis
    by (simp add: validateOutboxFacts_def validate_fact_def demo_fact_def validOutboxPayload_def visible_ascii_text
        maxOutboxFactPayloadBytes_def)
qed

lemma ev_env_fault [simp]: "fault (no_faults d) l = None"
  by (simp add: no_faults_def)

lemma demo_delete:
  "HardDeleteObjectWithEvent (\<lambda>_. Some ''1.1'') ev_env 10 11 events0 ''t'' ''b'' ''k'' demo_audit [demo_fact] = (events1, None)"
  unfolding HardDeleteObjectWithEvent_def demo_fact_valid
  by (simp add: in_tx_def hard_delete_tx_def Let_def at_key_def doomed_row_def held_ids_def delete_objects_def events0_def
      defaultTenant_def delete_access_def drop_access_def
      deleteObjectAccessState_def deleteObjectCapabilities_def delete_shares_where_def delete_assets_where_def delete_acls_where_def
      no_access_def rbind_def affected_def record_events_def insertAuditEntry_def insert_fact_def events1_def with_events_def
      stamped_def demo_audit_def)

lemma demo_claim: "ClaimEventOutbox ev_env 20 20 events1 ''relay'' ''tok'' 0 30 =
    (events2, Inr [scanEventOutboxRow (claim_row ''relay'' ''tok'' 50 (new_outbox_row 11 1 demo_fact))])"
proof -
  have o: "ev_outbox events1 = [new_outbox_row 11 1 demo_fact]" by (simp add: events1_def with_events_def events0_def)
  have ids: "due_ids 20 32 [new_outbox_row 11 1 demo_fact] = [1]"
    by (simp add: due_ids_def limit_rows_def due_def new_outbox_row_def)
  show ?thesis
    by (simp add: ClaimEventOutbox_def claimEventOutboxPostgres_def Let_def o ids update_outbox_def events2_def)
      (simp add: new_outbox_row_def)
qed

lemma demo_complete: "snd (CompleteEventOutbox ev_env 30 events2 1 ''relay'' ''tok'') = None"
  by (simp add: CompleteEventOutbox_def Let_def in_tx_def rbind_def affected_def fenced_def events2_def claim_row_def new_outbox_row_def
      events1_def with_events_def events0_def update_outbox_def)

lemma outbox_run: "outbox_reach events2"
proof -
  have "outbox_step events0 events1"
    using outbox_step.hard [of events0 "\<lambda>_. Some ''1.1''" ev_env 10 11 "''t''" "''b''" "''k''" demo_audit "[demo_fact]"] by (simp add: demo_delete)
  moreover have "outbox_step events1 events2"
    using outbox_step.claim [of events1 ev_env 20 20 "''relay''" "''tok''" 0 30] by (simp add: demo_claim)
  ultimately have "outbox_step\<^sup>*\<^sup>* events0 events2" by (meson r_into_rtranclp rtranclp_trans)
  then show ?thesis unfolding outbox_reach_def by (intro exI [of _ events0]) (simp add: events0_def)
qed

theorem outbox_delivered_once_witness:
  "snd (CompleteEventOutbox ev_env 31 (fst (CompleteEventOutbox ev_env 30 events2 1 ''relay'' ''tok'')) 1 ''relay'' ''tok'') \<noteq> None"
proof -
  have c: "CompleteEventOutbox ev_env 30 events2 1 ''relay'' ''tok'' = (fst (CompleteEventOutbox ev_env 30 events2 1 ''relay'' ''tok''), None)"
    using demo_complete by (metis prod.collapse)
  from outbox_delivered_once [OF outbox_run c rtranclp.rtrancl_refl] show ?thesis by blast
qed

theorem delete_with_events_atomic_witness: "hard_effect 10 11 events0 ''t'' ''b'' ''k'' demo_audit [demo_fact] events1"
  using conjunct1 [OF delete_with_events_atomic, THEN mp, OF demo_delete] by (simp add: defaultTenant_def)

end
