(* ===== verification/Object_Store.thy ===== *)
theory Object_Store
  imports Object_Rows
begin

text \<open>
  \<open>internal/repository/sql_objects.go\<close> and \<open>sql_objects_versions.go\<close>: writing the current object of
  a key, adding a version, adding a delete marker, and reading objects and versions.
\<close>

section \<open>Writes\<close>

text \<open>\<open>obj.TenantID = defaultTenant(...)\<close> and the version id, \<open>vid\<close> being the fresh one.\<close>

definition identify :: "string \<Rightarrow> Object \<Rightarrow> Object" where
  "identify vid obj =
     obj\<lparr>o_TenantID := defaultTenant (o_TenantID obj),
         o_VersionID := (if o_VersionID obj = [] then vid else o_VersionID obj)\<rparr>"

definition new_object_row :: "sql_env \<Rightarrow> instant \<Rightarrow> Object \<Rightarrow> int \<Rightarrow> objects_row" where
  "new_object_row env t obj i =
     \<lparr>o_ID = i, o_TenantID = o_TenantID obj, o_Bucket = o_Bucket obj, o_Key = o_Key obj, o_VersionID = o_VersionID obj,
      o_Backend = o_Backend obj, o_StorageKey = o_StorageKey obj, o_Size = o_Size obj, o_ETag = o_ETag obj,
      o_ContentType = o_ContentType obj, o_Metadata = jsonOrEmpty (o_Metadata obj), o_Tags = jsonOrEmpty (o_Tags obj),
      o_StorageClass = o_StorageClass obj, o_CreatedAt = t, o_UpdatedAt = t, o_DeletedAt = None,
      o_LockedUntil = nullableTime env (o_LockedUntil obj), o_VersionTombstone = False, o_acl = ''private''\<rparr>"

text \<open>\<open>DO UPDATE SET\<close> of the upsert: \<open>n\<close> is the excluded row.\<close>

definition upsert_row :: "objects_row \<Rightarrow> objects_row \<Rightarrow> objects_row" where
  "upsert_row n r =
     r\<lparr>o_Backend := o_Backend n, o_StorageKey := o_StorageKey n, o_Size := o_Size n, o_ETag := o_ETag n,
       o_ContentType := o_ContentType n, o_Metadata := o_Metadata n, o_Tags := o_Tags n, o_StorageClass := o_StorageClass n,
       o_VersionID := o_VersionID n, o_LockedUntil := o_LockedUntil n, o_UpdatedAt := o_UpdatedAt n\<rparr>"

text \<open>\<open>RETURNING id, version_id, created_at, updated_at\<close> into the caller's object.\<close>

definition returned :: "Object \<Rightarrow> objects_row \<Rightarrow> Object" where
  "returned obj r = obj\<lparr>o_ID := o_ID r, o_VersionID := o_VersionID r, o_CreatedAt := o_CreatedAt r, o_UpdatedAt := o_UpdatedAt r\<rparr>"

definition upsert_object :: "sql_env \<Rightarrow> (int \<Rightarrow> objects_row) \<Rightarrow> objects_db \<Rightarrow> (objects_db \<times> objects_row) res" where
  "upsert_object env mk db =
     (let n = mk (od_seq db + 1); hit = live_at (o_TenantID n) (o_Bucket n) (o_Key n) in
      case filter hit (od_objects db) of
        [] \<Rightarrow> insert_object env mk db
      | r # _ \<Rightarrow> Inr (update_objects hit (upsert_row n) db, upsert_row n r))"

definition UpsertObject :: "sql_env \<Rightarrow> clocks \<Rightarrow> string \<Rightarrow> objects_db \<Rightarrow> Object \<Rightarrow> objects_db \<times> Object res" where
  "UpsertObject env clk vid db obj0 =
     (let obj = identify vid obj0 in
      case stmt env ''upsert object'' (upsert_object env (new_object_row env (stamp env clk) obj) db) of
        Inl e \<Rightarrow> (db, Inl e)
      | Inr (db', r) \<Rightarrow> (db', stmt env ''scan upserted'' (Inr (returned obj r))))"

definition tombstone_live :: "instant \<Rightarrow> string \<Rightarrow> string \<Rightarrow> string \<Rightarrow> objects_db \<Rightarrow> objects_db" where
  "tombstone_live t tenant bucket key db =
     update_objects (live_at tenant bucket key) (\<lambda>r. r\<lparr>o_DeletedAt := Some t, o_VersionTombstone := True\<rparr>) db"

definition InsertObjectVersion :: "sql_env \<Rightarrow> clocks \<Rightarrow> string \<Rightarrow> objects_db \<Rightarrow> Object \<Rightarrow> objects_db \<times> Object res" where
  "InsertObjectVersion env clk vid db obj0 =
     (let obj = identify vid obj0; t = stamp env clk in
      in_tx_val env db
        (rbind (stmt env ''tombstone current'' (Inr (tombstone_live t (o_TenantID obj) (o_Bucket obj) (o_Key obj) db))) (\<lambda>db1.
         rbind (stmt env ''insert version'' (insert_object env (new_object_row env t obj) db1)) (\<lambda>(db2, r).
         stmt env ''scan version'' (Inr (db2, returned obj r))))))"

text \<open>The row of a delete marker: no blob, deleted at once, not a tombstone.\<close>

definition marker_row :: "instant \<Rightarrow> Object \<Rightarrow> int \<Rightarrow> objects_row" where
  "marker_row t obj i =
     \<lparr>o_ID = i, o_TenantID = o_TenantID obj, o_Bucket = o_Bucket obj, o_Key = o_Key obj, o_VersionID = o_VersionID obj,
      o_Backend = [], o_StorageKey = [], o_Size = 0, o_ETag = [], o_ContentType = [],
      o_Metadata = jsonOrEmpty (o_Metadata obj), o_Tags = [], o_StorageClass = [], o_CreatedAt = t, o_UpdatedAt = t,
      o_DeletedAt = Some t, o_LockedUntil = None, o_VersionTombstone = False, o_acl = ''private''\<rparr>"

definition InsertDeleteMarker :: "sql_env \<Rightarrow> clocks \<Rightarrow> string \<Rightarrow> objects_db \<Rightarrow> Object \<Rightarrow> objects_db \<times> Object res" where
  "InsertDeleteMarker env clk vid db obj0 =
     (let obj = identify vid obj0; tenant = o_TenantID obj; bucket = o_Bucket obj; key = o_Key obj in
      in_tx_val env db
        (rbind (stmt env ''tombstone current'' (Inr (tombstone_live (column_time env (go_now clk)) tenant bucket key db))) (\<lambda>db1.
         rbind (drop_access env tenant bucket key db1) (\<lambda>db2.
         rbind (stmt env ''insert marker'' (insert_object env (marker_row (stamp env clk) obj) db2)) (\<lambda>(db3, r).
         stmt env ''scan marker'' (Inr (db3,
           obj\<lparr>o_ID := o_ID r, o_CreatedAt := o_CreatedAt r, o_UpdatedAt := o_UpdatedAt r, o_DeletedAt := Some (o_UpdatedAt r)\<rparr>)))))))"

section \<open>Reads\<close>

definition get_object :: "sql_env \<Rightarrow> string \<Rightarrow> (objects_row \<Rightarrow> bool) \<Rightarrow> objects_db \<Rightarrow> Object res" where
  "get_object env l p db =
     rbind (not_found (query_row env l (filter p (od_objects db)))) (\<lambda>r. Inr (scanObject r))"

definition GetObject :: "sql_env \<Rightarrow> objects_db \<Rightarrow> string \<Rightarrow> string \<Rightarrow> string \<Rightarrow> Object res" where
  "GetObject env db tenant bucket key = get_object env ''get object'' (live_at (defaultTenant tenant) bucket key) db"

definition GetObjectByID :: "sql_env \<Rightarrow> objects_db \<Rightarrow> int \<Rightarrow> Object res" where
  "GetObjectByID env db i = get_object env ''get object by id'' (has_id i) db"

definition is_version :: "string \<Rightarrow> string \<Rightarrow> string \<Rightarrow> string \<Rightarrow> objects_row \<Rightarrow> bool" where
  "is_version tenant bucket key versionID r \<longleftrightarrow> at_key tenant bucket key r \<and> o_VersionID r = versionID"

definition GetObjectVersion :: "sql_env \<Rightarrow> objects_db \<Rightarrow> string \<Rightarrow> string \<Rightarrow> string \<Rightarrow> string \<Rightarrow> Object res" where
  "GetObjectVersion env db tenant bucket key versionID =
     get_object env ''get version'' (is_version (defaultTenant tenant) bucket key versionID) db"

text \<open>\<open>ORDER BY updated_at DESC, id DESC\<close>.\<close>

definition version_key :: "sql_env \<Rightarrow> objects_row \<Rightarrow> (int \<times> string) \<times> int" where
  "version_key env r = (time_key env (o_UpdatedAt r), o_ID r)"

definition newest_first :: "sql_env \<Rightarrow> objects_row list \<Rightarrow> objects_row list" where
  "newest_first env rows = rev (sort_key (version_key env) rows)"

definition ListObjectVersions :: "sql_env \<Rightarrow> objects_db \<Rightarrow> string \<Rightarrow> string \<Rightarrow> string \<Rightarrow> Object list res" where
  "ListObjectVersions env db tenant bucket key =
     stmt env ''list versions''
       (Inr (map scanObject (newest_first env (filter (at_key (defaultTenant tenant) bucket key) (od_objects db)))))"

text \<open>
  \<open>StorageClassCounts\<close>: one row per stored class (in the order of the class, as a sorting GROUP BY
  emits them), then the Go map.  The column is NOT NULL.  A row with the empty class goes to entry
  STANDARD, and each row overwrites the entry.  \<open>rows.Err()\<close> is not consulted: when the cursor
  breaks after \<open>n\<close> rows (\<open>broken = Some n\<close>), the rows read so far are the answer.
\<close>

definition delivered :: "nat option \<Rightarrow> 'r list \<Rightarrow> 'r list" where
  "delivered broken rows = (case broken of None \<Rightarrow> rows | Some n \<Rightarrow> take n rows)"

definition class_name :: "string \<Rightarrow> string" where
  "class_name c = (if c = [] then ''STANDARD'' else c)"

definition group_counts :: "string list \<Rightarrow> (string \<times> int) list" where
  "group_counts cs = map (\<lambda>c. (c, int (count_list cs c))) (sort (remdups cs))"

definition StorageClassCounts :: "sql_env \<Rightarrow> nat option \<Rightarrow> objects_db \<Rightarrow> string \<Rightarrow> (string \<times> int) list res" where
  "StorageClassCounts env broken db tenant =
     stmt env ''count classes''
       (Inr (foldl (\<lambda>m (c, n). AList.update (class_name c) n m) []
         (delivered broken
           (group_counts (map o_StorageClass (filter (\<lambda>r. o_TenantID r = defaultTenant tenant \<and> is_live r) (od_objects db)))))))"

end
