(* ===== verification/Object_Maintenance.thy ===== *)
theory Object_Maintenance
  imports Object_Store Legal_Holds
begin

text \<open>
  \<open>internal/repository/sql_objects_maint.go\<close> and \<open>sql_tags_acl.go\<close>: deleting, restoring and updating
  rows of table objects.
\<close>

section \<open>Single updates\<close>

text \<open>
  \<open>n, _ := res.RowsAffected(); if n == 0 { return ErrNotFound }\<close>, and the variant that returns the
  error of \<open>RowsAffected\<close>.
\<close>

definition update_found :: "sql_env \<Rightarrow> string \<Rightarrow> (objects_row \<Rightarrow> bool) \<Rightarrow> (objects_row \<Rightarrow> objects_row) \<Rightarrow> objects_db \<Rightarrow> objects_db \<times> gerr option" where
  "update_found env l hit f db =
     (case fault env l of
        Some e \<Rightarrow> (db, Some e)
      | None \<Rightarrow> (update_objects hit f db, fails (affected env (filter hit (od_objects db)) = 0) (Sentinel ErrNotFound)))"

definition update_counted :: "sql_env \<Rightarrow> string \<Rightarrow> (objects_row \<Rightarrow> bool) \<Rightarrow> (objects_row \<Rightarrow> objects_row) \<Rightarrow> objects_db \<Rightarrow> objects_db \<times> gerr option" where
  "update_counted env l hit f db =
     (case fault env l of
        Some e \<Rightarrow> (db, Some e)
      | None \<Rightarrow> (update_objects hit f db,
          case fault env ''rows affected'' of
            Some e \<Rightarrow> Some e
          | None \<Rightarrow> fails (filter hit (od_objects db) = []) (Sentinel ErrNotFound)))"

definition UpdateObjectStorageClass ::
  "sql_env \<Rightarrow> clocks \<Rightarrow> objects_db \<Rightarrow> string \<Rightarrow> string \<Rightarrow> string \<Rightarrow> string \<Rightarrow> objects_db \<times> gerr option" where
  "UpdateObjectStorageClass env clk db tenant bucket key storageClass =
     run db (stmt env ''update class'' (Inr (update_objects (live_at tenant bucket key)
       (\<lambda>r. r\<lparr>o_StorageClass := storageClass, o_UpdatedAt := column_time env (go_now clk)\<rparr>) db)))"

section \<open>Deletion\<close>

definition soft_delete :: "sql_env \<Rightarrow> instant \<Rightarrow> (objects_row \<Rightarrow> bool) \<Rightarrow> string \<times> string \<times> string \<Rightarrow> objects_db \<Rightarrow> objects_db res" where
  "soft_delete env t hit target db =
     (case target of (tenant, bucket, key) \<Rightarrow>
      rbind (stmt env ''soft delete'' (Inr (update_objects hit (\<lambda>r. r\<lparr>o_DeletedAt := Some t\<rparr>) db))) (\<lambda>db1.
      if affected env (filter hit (od_objects db)) = 0 then Inl (Sentinel ErrNotFound)
      else drop_access env tenant bucket key db1))"

definition SoftDeleteObject :: "sql_env \<Rightarrow> clocks \<Rightarrow> objects_db \<Rightarrow> string \<Rightarrow> string \<Rightarrow> string \<Rightarrow> objects_db \<times> gerr option" where
  "SoftDeleteObject env clk db tenant0 bucket key =
     (let tenant = defaultTenant tenant0 in
      in_tx env db (soft_delete env (column_time env (go_now clk)) (live_at tenant bucket key) (tenant, bucket, key) db))"

definition SoftDeleteObjectByID :: "sql_env \<Rightarrow> clocks \<Rightarrow> objects_db \<Rightarrow> int \<Rightarrow> objects_db \<times> gerr option" where
  "SoftDeleteObjectByID env clk db i =
     (let hit = (\<lambda>r. has_id i r \<and> is_live r) in
      in_tx env db
        (rbind (not_found (query_row env ''select object'' (filter hit (od_objects db)))) (\<lambda>r.
         soft_delete env (column_time env (go_now clk)) hit (resource_of r) db)))"

definition HardDeleteObject :: "sql_env \<Rightarrow> objects_db \<Rightarrow> string \<Rightarrow> string \<Rightarrow> string \<Rightarrow> objects_db \<times> gerr option" where
  "HardDeleteObject env db tenant0 bucket key =
     (let tenant = defaultTenant tenant0; hit = at_key tenant bucket key in
      in_tx env db
        (rbind (stmt env ''select holds'' (Inr (list_ex (\<lambda>r. hit r \<and> o_ID r \<in> set (held_ids db)) (od_objects db)))) (\<lambda>held.
         if held then Inl (Sentinel ErrLegalHoldActive)
         else rbind (drop_access env tenant bucket key db) (\<lambda>db1.
           stmt env ''delete object'' (Inr (delete_objects hit db1))))))"

definition objectVersionCount :: "sql_env \<Rightarrow> objects_db \<Rightarrow> string \<Rightarrow> string \<Rightarrow> string \<Rightarrow> nat res" where
  "objectVersionCount env db tenant bucket key =
     stmt env ''count versions'' (Inr (length (filter (at_key tenant bucket key) (od_objects db))))"

text \<open>\<open>if remaining == 0 { deleteObjectAccessState(...) }\<close>.\<close>

definition clean_if_last :: "sql_env \<Rightarrow> string \<Rightarrow> string \<Rightarrow> string \<Rightarrow> objects_db \<Rightarrow> objects_db res" where
  "clean_if_last env tenant bucket key db =
     rbind (objectVersionCount env db tenant bucket key) (\<lambda>remaining.
     if remaining = 0 then drop_access env tenant bucket key db else Inr db)"

definition HardDeleteObjectByID :: "sql_env \<Rightarrow> objects_db \<Rightarrow> int \<Rightarrow> objects_db \<times> gerr option" where
  "HardDeleteObjectByID env db i =
     in_tx env db
       (rbind (not_found (query_row env ''select object'' (filter (has_id i) (od_objects db)))) (\<lambda>r.
        case resource_of r of (tenant, bucket, key) \<Rightarrow>
        rbind (stmt env ''select hold'' (Inr (i \<in> set (held_ids db)))) (\<lambda>held.
        if held then Inl (Sentinel ErrLegalHoldActive)
        else rbind (stmt env ''delete object'' (Inr (delete_objects (has_id i) db))) (\<lambda>db1.
          if affected env (filter (has_id i) (od_objects db)) = 0 then Inl (Sentinel ErrNotFound)
          else clean_if_last env tenant bucket key db1))))"

definition promoteLatestObjectVersion :: "sql_env \<Rightarrow> string \<Rightarrow> string \<Rightarrow> string \<Rightarrow> objects_db \<Rightarrow> objects_db res" where
  "promoteLatestObjectVersion env tenant bucket key db =
     rbind (stmt env ''count active'' (Inr (length (filter (live_at tenant bucket key) (od_objects db))))) (\<lambda>active.
     if active \<noteq> 0 then Inr db
     else (case query_row env ''select latest'' (newest_first env (filter (at_key tenant bucket key) (od_objects db))) of
             Inl e \<Rightarrow> if errors_is e ErrNoRows then Inr db else Inl e
           | Inr r \<Rightarrow>
               if kv_get (unmarshalKV (o_Metadata r)) ''_aero_delete_marker'' = ''true'' then Inr db
               else stmt env ''promote''
                 (Inr (update_objects (has_id (o_ID r)) (\<lambda>r. r\<lparr>o_DeletedAt := None, o_VersionTombstone := False\<rparr>) db))))"

definition DeleteObjectVersion :: "sql_env \<Rightarrow> objects_db \<Rightarrow> string \<Rightarrow> string \<Rightarrow> string \<Rightarrow> string \<Rightarrow> objects_db \<times> gerr option" where
  "DeleteObjectVersion env db tenant0 bucket key versionID =
     (let tenant = defaultTenant tenant0 in
      in_tx env db
        (rbind (not_found (query_row env ''select version'' (filter (is_version tenant bucket key versionID) (od_objects db)))) (\<lambda>r.
         rbind (stmt env ''select hold'' (Inr (o_ID r \<in> set (held_ids db)))) (\<lambda>held.
         if held then Inl (Sentinel ErrLegalHoldActive)
         else rbind (if is_live r then drop_access env tenant bucket key db else Inr db) (\<lambda>db1.
           rbind (stmt env ''delete version'' (Inr (delete_objects (has_id (o_ID r)) db1))) (\<lambda>db2.
           rbind (promoteLatestObjectVersion env tenant bucket key db2) (\<lambda>db3.
           clean_if_last env tenant bucket key db3)))))))"

text \<open>
  \<open>RestoreObject\<close>: the deleted row that is not a tombstone with the greatest \<open>updated_at\<close> (the index
  \<open>objects_version_idx\<close> yields equal times in the order of the rows), if no row of the key is live.
\<close>

definition latest_first :: "sql_env \<Rightarrow> objects_row list \<Rightarrow> objects_row list" where
  "latest_first env rows = rev (sort_key (\<lambda>r. time_key env (o_UpdatedAt r)) (rev rows))"

definition restorable :: "string \<Rightarrow> string \<Rightarrow> string \<Rightarrow> objects_row \<Rightarrow> bool" where
  "restorable tenant bucket key r \<longleftrightarrow> at_key tenant bucket key r \<and> \<not> is_live r \<and> \<not> o_VersionTombstone r"

definition restore_hit :: "sql_env \<Rightarrow> string \<Rightarrow> string \<Rightarrow> string \<Rightarrow> objects_row list \<Rightarrow> objects_row \<Rightarrow> bool" where
  "restore_hit env tenant bucket key rows r \<longleftrightarrow>
     (case latest_first env (filter (restorable tenant bucket key) rows) of [] \<Rightarrow> False | x # _ \<Rightarrow> has_id (o_ID x) r)
     \<and> \<not> list_ex (live_at tenant bucket key) rows"

definition RestoreObject :: "sql_env \<Rightarrow> objects_db \<Rightarrow> string \<Rightarrow> string \<Rightarrow> string \<Rightarrow> objects_db \<times> gerr option" where
  "RestoreObject env db tenant bucket key =
     update_found env ''restore'' (restore_hit env (defaultTenant tenant) bucket key (od_objects db))
       (\<lambda>r. r\<lparr>o_DeletedAt := None\<rparr>) db"

section \<open>Metadata\<close>

text \<open>\<open>json_patch\<close> and \<open>||\<close> merge an object of strings entry by entry.\<close>

definition mergeObjectMetadata :: "sql_env \<Rightarrow> objects_db \<Rightarrow> string \<Rightarrow> string \<Rightarrow> string \<Rightarrow> kv \<Rightarrow> objects_db \<times> gerr option" where
  "mergeObjectMetadata env db tenant bucket key patch =
     update_counted env ''merge metadata'' (live_at (defaultTenant tenant) bucket key)
       (\<lambda>r. r\<lparr>o_Metadata := put_entries (o_Metadata r) (jsonOrEmpty patch)\<rparr>) db"

definition SetObjectMetaKey :: "sql_env \<Rightarrow> objects_db \<Rightarrow> string \<Rightarrow> string \<Rightarrow> string \<Rightarrow> string \<Rightarrow> string \<Rightarrow> objects_db \<times> gerr option" where
  "SetObjectMetaKey env db tenant bucket key metaKey metaValue = mergeObjectMetadata env db tenant bucket key [(metaKey, metaValue)]"

definition SetObjectMetaKeys :: "sql_env \<Rightarrow> objects_db \<Rightarrow> string \<Rightarrow> string \<Rightarrow> string \<Rightarrow> kv \<Rightarrow> objects_db \<times> gerr option" where
  "SetObjectMetaKeys env db tenant bucket key meta =
     (if meta = [] then (db, None) else mergeObjectMetadata env db tenant bucket key meta)"

definition ReplaceObjectMetadata :: "sql_env \<Rightarrow> objects_db \<Rightarrow> string \<Rightarrow> string \<Rightarrow> string \<Rightarrow> kv \<Rightarrow> objects_db \<times> gerr option" where
  "ReplaceObjectMetadata env db tenant bucket key meta =
     update_counted env ''replace metadata'' (live_at (defaultTenant tenant) bucket key) (\<lambda>r. r\<lparr>o_Metadata := jsonOrEmpty meta\<rparr>) db"

definition hex4 :: "nat \<Rightarrow> string" where
  "hex4 n = [hex_digit (n div 4096 mod 16), hex_digit (n div 256 mod 16), hex_digit (n div 16 mod 16), hex_digit (n mod 16)]"

definition path_char :: "char \<Rightarrow> string" where
  "path_char c =
     (if byte c = 0x5C then [c, c]
      else if byte c = 0x22 then [char_of (0x5C :: nat), c]
      else if byte c = 10 then [char_of (0x5C :: nat), CHR ''n'']
      else if byte c = 13 then [char_of (0x5C :: nat), CHR ''r'']
      else if byte c = 9 then [char_of (0x5C :: nat), CHR ''t'']
      else if byte c < 0x20 then [char_of (0x5C :: nat), CHR ''u''] @ hex4 (byte c)
      else [c])"

definition jsonPath :: "string \<Rightarrow> string" where
  "jsonPath key = [CHR ''$'', CHR ''.'', char_of (0x22 :: nat)] @ concat (map path_char key) @ [char_of (0x22 :: nat)]"

text \<open>\<open>json_remove\<close> of SQLite is a parameter; \<open>metadata - key\<close> of PostgreSQL drops the entry.\<close>

definition DeleteObjectMetaKey ::
  "(kv \<Rightarrow> string \<Rightarrow> kv) \<Rightarrow> sql_env \<Rightarrow> objects_db \<Rightarrow> string \<Rightarrow> string \<Rightarrow> string \<Rightarrow> string \<Rightarrow> objects_db \<times> gerr option" where
  "DeleteObjectMetaKey json_remove env db tenant bucket key metaKey =
     update_counted env ''delete metadata'' (live_at (defaultTenant tenant) bucket key)
       (\<lambda>r. r\<lparr>o_Metadata := (case dialect_of env of
                dialectPostgres \<Rightarrow> AList.delete metaKey (o_Metadata r)
              | dialectSQLite \<Rightarrow> json_remove (o_Metadata r) (jsonPath metaKey))\<rparr>) db"

section \<open>Tags, retention and ACL\<close>

definition UpdateTags :: "sql_env \<Rightarrow> clocks \<Rightarrow> objects_db \<Rightarrow> string \<Rightarrow> string \<Rightarrow> string \<Rightarrow> kv \<Rightarrow> objects_db \<times> gerr option" where
  "UpdateTags env clk db tenant bucket key tags =
     update_found env ''update tags'' (live_at (defaultTenant tenant) bucket key)
       (\<lambda>r. r\<lparr>o_Tags := jsonOrEmpty tags, o_UpdatedAt := stamp env clk\<rparr>) db"

definition UpdateObjectTagsByID :: "sql_env \<Rightarrow> clocks \<Rightarrow> objects_db \<Rightarrow> int \<Rightarrow> kv \<Rightarrow> objects_db \<times> gerr option" where
  "UpdateObjectTagsByID env clk db i tags =
     update_found env ''update tags by id'' (has_id i) (\<lambda>r. r\<lparr>o_Tags := jsonOrEmpty tags, o_UpdatedAt := stamp env clk\<rparr>) db"

definition SetLockedUntil :: "sql_env \<Rightarrow> objects_db \<Rightarrow> string \<Rightarrow> string \<Rightarrow> string \<Rightarrow> instant \<Rightarrow> objects_db \<times> gerr option" where
  "SetLockedUntil env db tenant bucket key until =
     update_found env ''set lock'' (live_at (defaultTenant tenant) bucket key) (\<lambda>r. r\<lparr>o_LockedUntil := Some (column_time env until)\<rparr>) db"

definition SetObjectRetention :: "sql_env \<Rightarrow> objects_db \<Rightarrow> int \<Rightarrow> instant \<Rightarrow> kv \<Rightarrow> objects_db \<times> gerr option" where
  "SetObjectRetention env db objectID until metadata =
     update_found env ''set retention'' (has_id objectID)
       (\<lambda>r. r\<lparr>o_LockedUntil := Some (column_time env until), o_Metadata := jsonOrEmpty metadata\<rparr>) db"

definition StorageKeyReferenced :: "sql_env \<Rightarrow> objects_db \<Rightarrow> string \<Rightarrow> bool res" where
  "StorageKeyReferenced env db storageKey =
     (case query_row env ''storage key'' (filter (\<lambda>r. o_StorageKey r = storageKey) (od_objects db)) of
        Inl e \<Rightarrow> if errors_is e ErrNoRows then Inr False else Inl e
      | Inr _ \<Rightarrow> Inr True)"

definition ListStorageKeys :: "sql_env \<Rightarrow> objects_db \<Rightarrow> string list res" where
  "ListStorageKeys env db =
     stmt env ''list storage keys'' (Inr (remdups (filter (\<lambda>k. k \<noteq> []) (map o_StorageKey (od_objects db)))))"

definition SetObjectACL :: "sql_env \<Rightarrow> objects_db \<Rightarrow> string \<Rightarrow> string \<Rightarrow> string \<Rightarrow> string \<Rightarrow> objects_db \<times> gerr option" where
  "SetObjectACL env db tenant bucket key acl =
     update_found env ''set acl'' (live_at (defaultTenant tenant) bucket key) (\<lambda>r. r\<lparr>o_acl := acl\<rparr>) db"

definition GetObjectACL :: "sql_env \<Rightarrow> objects_db \<Rightarrow> string \<Rightarrow> string \<Rightarrow> string \<Rightarrow> string res" where
  "GetObjectACL env db tenant bucket key =
     rbind (not_found (query_row env ''get acl'' (filter (live_at (defaultTenant tenant) bucket key) (od_objects db)))) (\<lambda>r.
     Inr (if o_acl r = [] then ''private'' else o_acl r))"

end
