(* ===== verification/Object_History.thy ===== *)
theory Object_History
  imports Object_Maintenance
begin

text \<open>
  Every operation on table objects keeps its invariant, and what the operations mean for the history
  of a key: the current objects form a map, versions stay readable, holds keep rows.
\<close>

section \<open>Sequences of operations\<close>

datatype object_op =
    OpUpsert clocks string Object
  | OpInsertVersion clocks string Object
  | OpDeleteMarker clocks string Object
  | OpStorageClass clocks string string string string
  | OpSoftDelete clocks string string string
  | OpSoftDeleteByID clocks int
  | OpHardDelete string string string
  | OpHardDeleteByID int
  | OpDeleteVersion string string string string
  | OpRestore string string string
  | OpMergeMetadata string string string kv
  | OpReplaceMetadata string string string kv
  | OpDeleteMetaKey string string string string
  | OpTags clocks string string string kv
  | OpTagsByID clocks int kv
  | OpLock string string string instant
  | OpRetention int instant kv
  | OpACL string string string string
  | OpPutHold instant LegalHold
  | OpRemoveHold int string

fun exec_op :: "(kv \<Rightarrow> string \<Rightarrow> kv) \<Rightarrow> sql_env \<Rightarrow> object_op \<Rightarrow> objects_db \<Rightarrow> objects_db" where
  "exec_op jr env (OpUpsert clk vid obj) db = fst (UpsertObject env clk vid db obj)"
| "exec_op jr env (OpInsertVersion clk vid obj) db = fst (InsertObjectVersion env clk vid db obj)"
| "exec_op jr env (OpDeleteMarker clk vid obj) db = fst (InsertDeleteMarker env clk vid db obj)"
| "exec_op jr env (OpStorageClass clk t b k c) db = fst (UpdateObjectStorageClass env clk db t b k c)"
| "exec_op jr env (OpSoftDelete clk t b k) db = fst (SoftDeleteObject env clk db t b k)"
| "exec_op jr env (OpSoftDeleteByID clk i) db = fst (SoftDeleteObjectByID env clk db i)"
| "exec_op jr env (OpHardDelete t b k) db = fst (HardDeleteObject env db t b k)"
| "exec_op jr env (OpHardDeleteByID i) db = fst (HardDeleteObjectByID env db i)"
| "exec_op jr env (OpDeleteVersion t b k v) db = fst (DeleteObjectVersion env db t b k v)"
| "exec_op jr env (OpRestore t b k) db = fst (RestoreObject env db t b k)"
| "exec_op jr env (OpMergeMetadata t b k m) db = fst (SetObjectMetaKeys env db t b k m)"
| "exec_op jr env (OpReplaceMetadata t b k m) db = fst (ReplaceObjectMetadata env db t b k m)"
| "exec_op jr env (OpDeleteMetaKey t b k mk) db = fst (DeleteObjectMetaKey jr env db t b k mk)"
| "exec_op jr env (OpTags clk t b k tags) db = fst (UpdateTags env clk db t b k tags)"
| "exec_op jr env (OpTagsByID clk i tags) db = fst (UpdateObjectTagsByID env clk db i tags)"
| "exec_op jr env (OpLock t b k u) db = fst (SetLockedUntil env db t b k u)"
| "exec_op jr env (OpRetention i u m) db = fst (SetObjectRetention env db i u m)"
| "exec_op jr env (OpACL t b k a) db = fst (SetObjectACL env db t b k a)"
| "exec_op jr env (OpPutHold now l) db = fst (PutLegalHold env now db l)"
| "exec_op jr env (OpRemoveHold i v) db = fst (RemoveLegalHold env db i v)"

text \<open>Each call meets its own environment.\<close>

fun run_ops :: "(kv \<Rightarrow> string \<Rightarrow> kv) \<Rightarrow> (sql_env \<times> object_op) list \<Rightarrow> objects_db \<Rightarrow> objects_db" where
  "run_ops jr [] db = db"
| "run_ops jr ((env, op) # ops) db = run_ops jr ops (exec_op jr env op db)"

fun released :: "object_op \<Rightarrow> int set" where
  "released (OpRemoveHold i v) = {i}"
| "released _ = {}"

section \<open>What a step keeps\<close>

text \<open>
  \<open>evolves R\<close>: the invariant is kept, and every object held before that is not in \<open>R\<close> is still held and
  its row is still there, under the same key.
\<close>

definition row_kept :: "int \<Rightarrow> objects_db \<Rightarrow> objects_db \<Rightarrow> bool" where
  "row_kept i db db' \<longleftrightarrow> (\<forall>r \<in> set (od_objects db). o_ID r = i \<longrightarrow> (\<exists>r' \<in> set (od_objects db'). o_ID r' = i \<and> resource_of r' = resource_of r))"

definition evolves :: "int set \<Rightarrow> objects_db \<Rightarrow> objects_db \<Rightarrow> bool" where
  "evolves R db db' \<longleftrightarrow>
     (objects_ok db \<longrightarrow> objects_ok db' \<and> (\<forall>i \<in> set (held_ids db) - R. i \<in> set (held_ids db') \<and> row_kept i db db'))"

lemma row_kept_trans: "row_kept i a b \<Longrightarrow> row_kept i b c \<Longrightarrow> row_kept i a c"
  unfolding row_kept_def by (metis (no_types, lifting))

lemma row_kept_same [simp]: "od_objects db' = od_objects db \<Longrightarrow> row_kept i db db'"
  by (auto simp: row_kept_def)

lemma evolves_refl [simp]: "evolves R db db"
  by (simp add: evolves_def)

lemma evolves_trans: "evolves R a b \<Longrightarrow> evolves R b c \<Longrightarrow> evolves R a c"
  unfolding evolves_def by (meson DiffD1 DiffD2 DiffI row_kept_trans)

lemma one_live_update:
  assumes "one_live rows" "\<And>r. resource_of (f r) = resource_of r" "\<And>r. is_live (f r) \<Longrightarrow> is_live r"
  shows "one_live (set_rows p f rows)"
proof -
  have sub: "set (map resource_of (filter is_live (set_rows p f xs))) \<subseteq> set (map resource_of (filter is_live xs))" for xs
    using assms(2,3) by (force simp: set_rows_def)
  from assms(1) show ?thesis
  proof (induction rows)
    case (Cons r rows)
    then have "one_live (set_rows p f rows)" by (auto simp: one_live_def split: if_splits)
    moreover have "resource_of r \<notin> set (map resource_of (filter is_live rows))" if "is_live r"
      using Cons.prems that by (simp add: one_live_def)
    ultimately show ?case
      using sub [of rows] assms(2,3) by (auto simp: one_live_def set_rows_def)
  qed (simp add: one_live_def set_rows_def)
qed

lemma update_row_kept:
  assumes "\<And>r. o_ID (f r) = o_ID r" "\<And>r. resource_of (f r) = resource_of r"
  shows "row_kept i db (update_objects p f db)"
  unfolding row_kept_def
proof (intro ballI impI)
  fix r assume r: "r \<in> set (od_objects db)" "o_ID r = i"
  let ?r = "if p r then f r else r"
  have "?r \<in> set (od_objects (update_objects p f db))" using r(1) by (auto simp: update_objects_def set_rows_def)
  moreover have "o_ID ?r = i" "resource_of ?r = resource_of r" using assms r(2) by simp_all
  ultimately show "\<exists>r' \<in> set (od_objects (update_objects p f db)). o_ID r' = i \<and> resource_of r' = resource_of r" by blast
qed

lemma update_ids:
  assumes "\<And>r. o_ID (f r) = o_ID r"
  shows "map o_ID (od_objects (update_objects p f db)) = map o_ID (od_objects db)"
    and "o_ID ` set (od_objects (update_objects p f db)) = o_ID ` set (od_objects db)"
    and "(\<forall>r \<in> set (od_objects (update_objects p f db)). o_ID r \<le> n) \<longleftrightarrow> (\<forall>r \<in> set (od_objects db). o_ID r \<le> n)"
proof -
  show ids: "map o_ID (od_objects (update_objects p f db)) = map o_ID (od_objects db)"
    using assms by (simp add: update_objects_def)
  show image: "o_ID ` set (od_objects (update_objects p f db)) = o_ID ` set (od_objects db)"
    using arg_cong [OF ids, of set] by simp
  have all: "(\<forall>r \<in> set rows. o_ID r \<le> n) \<longleftrightarrow> (\<forall>i \<in> o_ID ` set rows. i \<le> n)" for rows :: "objects_row list" by simp
  show "(\<forall>r \<in> set (od_objects (update_objects p f db)). o_ID r \<le> n) \<longleftrightarrow> (\<forall>r \<in> set (od_objects db). o_ID r \<le> n)"
    by (simp only: all image)
qed

lemma update_objects_same [simp]:
  "od_holds (update_objects p f db) = od_holds db" "held_ids (update_objects p f db) = held_ids db"
  "od_seq (update_objects p f db) = od_seq db" "od_access (update_objects p f db) = od_access db"
  "od_objects (update_objects p f db) = set_rows p f (od_objects db)"
  by (simp_all add: update_objects_def held_ids_def)

lemma update_evolves:
  assumes "\<And>r. o_ID (f r) = o_ID r" "\<And>r. resource_of (f r) = resource_of r"
    "\<And>r. is_live (f r) \<Longrightarrow> is_live r \<and> o_VersionTombstone (f r) = o_VersionTombstone r"
  shows "evolves R db (update_objects p f db)"
proof -
  have "\<forall>r \<in> set (set_rows p f (od_objects db)). is_live r \<longrightarrow> \<not> o_VersionTombstone r"
    if "\<forall>r \<in> set (od_objects db). is_live r \<longrightarrow> \<not> o_VersionTombstone r"
    using that assms(3) by (auto simp: set_set_rows)
  with one_live_update [of "od_objects db" f p, OF _ assms(2)] update_ids [of f p db, OF assms(1)] update_row_kept [of f, OF assms(1,2)]
  show ?thesis using assms(3) by (auto simp: evolves_def objects_ok_held)
qed

lemma set_rows_id:
  assumes "distinct (map o_ID rows)" "r \<in> set rows"
  obtains xs ys where "rows = xs @ r # ys" "set_rows (has_id (o_ID r)) f rows = xs @ f r # ys"
proof -
  obtain xs ys where split: "rows = xs @ r # ys" using assms(2) by (meson split_list)
  have "\<not> has_id (o_ID r) x" if "x \<in> set xs \<union> set ys" for x
    using assms(1) that split by (auto simp: has_id_def image_iff)
  then have "set_rows (has_id (o_ID r)) f xs = xs" "set_rows (has_id (o_ID r)) f ys = ys"
    by (auto simp: set_rows_def intro!: map_idI)
  then have "set_rows (has_id (o_ID r)) f rows = xs @ f r # ys"
    unfolding split by (simp add: set_rows_def has_id_def)
  with split show ?thesis by (rule that)
qed

lemma one_live_revive:
  assumes "one_live rows" "distinct (map o_ID rows)" "r \<in> set rows" "\<And>x. x \<in> set rows \<Longrightarrow> is_live x \<Longrightarrow> resource_of x \<noteq> resource_of r"
    and "resource_of (f r) = resource_of r"
  shows "one_live (set_rows (has_id (o_ID r)) f rows)"
proof -
  obtain xs ys where split: "rows = xs @ r # ys" and mid: "set_rows (has_id (o_ID r)) f rows = xs @ f r # ys"
    using set_rows_id [OF assms(2,3)] by blast
  have "\<not> is_live r" using assms(3,4) by blast
  then have "distinct (map resource_of (filter is_live (xs @ ys)))"
    using assms(1) by (simp add: one_live_def split)
  moreover have "resource_of r \<notin> resource_of ` {x \<in> set (xs @ ys). is_live x}"
    using assms(4) split by force
  ultimately show ?thesis
    unfolding mid one_live_def using assms(5) by auto
qed

lemma revive_evolves:
  assumes r: "r \<in> set (od_objects db)" and free: "\<And>x. x \<in> set (od_objects db) \<Longrightarrow> is_live x \<Longrightarrow> resource_of x \<noteq> resource_of r"
    and f: "\<And>r. o_ID (f r) = o_ID r" "\<And>r. resource_of (f r) = resource_of r" "\<not> o_VersionTombstone (f r)"
  shows "evolves R db (update_objects (has_id (o_ID r)) f db)"
proof -
  have "\<not> o_VersionTombstone x'" if d: "distinct (map o_ID (od_objects db))"
      and t: "\<forall>r \<in> set (od_objects db). is_live r \<longrightarrow> \<not> o_VersionTombstone r"
      and x: "x' \<in> set (set_rows (has_id (o_ID r)) f (od_objects db))" "is_live x'" for x'
  proof -
    from x(1) obtain x where "x \<in> set (od_objects db)" "x' = (if has_id (o_ID r) x then f x else x)"
      by (auto simp: set_rows_def)
    moreover have "x = r" if "has_id (o_ID r) x"
      using that calculation(1) d r by (auto simp: has_id_def distinct_map inj_on_def)
    ultimately show ?thesis using f(3) t x(2) by (auto split: if_splits)
  qed
  moreover have "one_live (set_rows (has_id (o_ID r)) f (od_objects db))"
    if "one_live (od_objects db)" "distinct (map o_ID (od_objects db))"
    using one_live_revive [of "od_objects db" r f] that r free f(2) by blast
  ultimately show ?thesis
    using update_ids [of f "has_id (o_ID r)" db, OF f(1)] update_row_kept [of f, OF f(1,2)]
    by (auto simp: evolves_def objects_ok_held)
qed

lemma delete_row_kept:
  assumes "\<And>r. r \<in> set (od_objects db) \<Longrightarrow> p r \<Longrightarrow> o_ID r \<noteq> i"
  shows "row_kept i db (delete_objects p db)"
  using assms by (force simp: row_kept_def delete_objects_def Let_def)

lemma delete_evolves:
  assumes "\<And>r. r \<in> set (od_objects db) \<Longrightarrow> p r \<Longrightarrow> o_ID r \<notin> set (held_ids db)"
  shows "evolves R db (delete_objects p db)"
proof -
  have held: "held_ids (delete_objects p db) = held_ids db"
  proof -
    have "hr_object_id h \<notin> set (map o_ID (filter p (od_objects db)))" if "h \<in> set (od_holds db)" for h
      using assms that by (force simp: held_ids_def)
    then show ?thesis by (simp add: held_ids_def delete_objects_def Let_def filter_id_conv [THEN iffD2])
  qed
  have objs: "od_objects (delete_objects p db) = filter (\<lambda>r. \<not> p r) (od_objects db)" "od_seq (delete_objects p db) = od_seq db"
    by (simp_all add: delete_objects_def Let_def)
  have sub: "set (held_ids db) \<subseteq> o_ID ` set (filter (\<lambda>r. \<not> p r) (od_objects db))" if "set (held_ids db) \<subseteq> o_ID ` set (od_objects db)"
    using that assms by fastforce
  have is_live: "one_live (filter (\<lambda>r. \<not> p r) (od_objects db))" if "one_live (od_objects db)"
  proof -
    have "filter is_live (filter (\<lambda>r. \<not> p r) (od_objects db)) = filter (\<lambda>r. \<not> p r) (filter is_live (od_objects db))"
      by (simp add: conj_commute)
    with that show ?thesis by (simp add: one_live_def distinct_map_filter del: filter_filter)
  qed
  show ?thesis
    unfolding evolves_def objects_ok_held held objs
    using sub is_live assms by (auto intro!: delete_row_kept distinct_map_filter)
qed

lemma insert_evolves:
  assumes "insert_object env mk db = Inr (db', r)" "\<And>i. o_ID (mk i) = i" "\<And>i. \<not> o_VersionTombstone (mk i)"
  shows "evolves R db db'"
proof -
  let ?r = "mk (od_seq db + 1)"
  from assms(1) have db': "db' = db\<lparr>od_objects := od_objects db @ [?r], od_seq := od_seq db + 1\<rparr>"
    and free: "is_live ?r \<Longrightarrow> x \<in> set (od_objects db) \<Longrightarrow> is_live x \<Longrightarrow> resource_of x \<noteq> resource_of ?r" for x
    by (auto simp: insert_object_def Let_def list_ex_iff live_at_def at_key_resource resource_of_def split: if_splits)
  have "one_live (od_objects db @ [?r])" if "one_live (od_objects db)"
    using that free by (auto simp: one_live_def dest: sym)
  moreover have "o_ID ?r \<notin> o_ID ` set (od_objects db)" if "\<forall>r \<in> set (od_objects db). o_ID r \<le> od_seq db"
    using that assms(2) by force
  moreover have "\<forall>r \<in> set (od_objects db'). o_ID r \<le> od_seq db'" if "\<forall>r \<in> set (od_objects db). o_ID r \<le> od_seq db"
    using that assms(2) by (fastforce simp: db')
  moreover have "row_kept i db db'" for i by (auto simp: row_kept_def db')
  moreover have "\<forall>r \<in> set (od_objects db'). is_live r \<longrightarrow> \<not> o_VersionTombstone r"
    if "\<forall>r \<in> set (od_objects db). is_live r \<longrightarrow> \<not> o_VersionTombstone r"
    using that assms(3) by (auto simp: db')
  ultimately show ?thesis
    unfolding evolves_def objects_ok_held by (auto simp: db' held_ids_def)
qed

lemma drop_access_same:
  "drop_access env t b k db = Inr db' \<Longrightarrow> od_objects db' = od_objects db \<and> od_holds db' = od_holds db \<and> od_seq db' = od_seq db"
  by (auto simp: drop_access_def rbind_Inr)

lemma evolves_same:
  "od_objects db' = od_objects db \<and> od_holds db' = od_holds db \<and> od_seq db' = od_seq db \<Longrightarrow> evolves R db db'"
  by (simp add: evolves_def objects_ok_held held_ids_def)

lemmas drop_access_evolves = drop_access_same [THEN evolves_same]

section \<open>Every operation\<close>

lemma in_tx_evolves: "(\<And>x. body = Inr x \<Longrightarrow> evolves R db x) \<Longrightarrow> evolves R db (fst (in_tx env db body))"
  using in_tx_cases(1) [of env db body] by (metis evolves_refl prod.collapse)

lemma in_tx_val_evolves: "(\<And>x y. body = Inr (x, y) \<Longrightarrow> evolves R db x) \<Longrightarrow> evolves R db (fst (in_tx_val env db body))"
  using in_tx_val_cases(1) [of env db body] by (metis evolves_refl prod.collapse)

lemma run_evolves: "(\<And>x. m = Inr x \<Longrightarrow> evolves R db x) \<Longrightarrow> evolves R db (fst (run db m))"
  by (auto simp: run_def split: sum.splits)

lemma update_found_evolves:
  "evolves R db (update_objects hit f db) \<Longrightarrow> evolves R db (fst (update_found env l hit f db))"
  "evolves R db (update_objects hit f db) \<Longrightarrow> evolves R db (fst (update_counted env l hit f db))"
  by (auto simp: update_found_def update_counted_def split: option.splits)

text \<open>Updates of columns that are neither key columns nor \<open>deleted_at\<close>, and soft deletions.\<close>

lemma column_evolves:
  assumes "\<And>r. o_ID (f r) = o_ID r" "\<And>r. resource_of (f r) = resource_of r" "\<And>r. o_DeletedAt (f r) = o_DeletedAt r"
    "\<And>r. o_VersionTombstone (f r) = o_VersionTombstone r"
  shows "evolves R db (update_objects p f db)"
  using assms by (intro update_evolves) (auto simp: is_live_def)

lemma retire_evolves:
  assumes "\<And>r. o_ID (f r) = o_ID r" "\<And>r. resource_of (f r) = resource_of r" "\<And>r. o_DeletedAt (f r) \<noteq> None"
  shows "evolves R db (update_objects p f db)"
  by (rule update_evolves) (use assms in \<open>simp_all add: is_live_def\<close>)

lemma tombstone_evolves: "evolves R db (tombstone_live t tenant bucket key db)"
  unfolding tombstone_live_def by (rule retire_evolves) (auto simp: resource_of_def)

lemma upsert_object_evolves:
  assumes "upsert_object env (new_object_row env' t obj) db = Inr (db', r)"
  shows "evolves R db db'"
proof -
  have "evolves R db (update_objects p (upsert_row n) db)" for p n
    by (rule column_evolves) (auto simp: upsert_row_def resource_of_def)
  with assms show ?thesis
    by (auto simp: upsert_object_def Let_def new_object_row_def split: list.splits dest: insert_evolves)
qed

lemma soft_delete_evolves: "soft_delete env t hit target db = Inr db' \<Longrightarrow> evolves R db db'"
proof -
  assume "soft_delete env t hit target db = Inr db'"
  then obtain tenant bucket key where
    "drop_access env tenant bucket key (update_objects hit (\<lambda>r. r\<lparr>o_DeletedAt := Some t\<rparr>) db) = Inr db'"
    by (auto simp: soft_delete_def go_simps split: prod.splits if_splits)
  moreover have "evolves R db (update_objects hit (\<lambda>r. r\<lparr>o_DeletedAt := Some t\<rparr>) db)"
    by (rule retire_evolves) (auto simp: resource_of_def)
  ultimately show ?thesis using drop_access_evolves evolves_trans by blast
qed

lemma clean_evolves: "clean_if_last env t b k db = Inr db' \<Longrightarrow> evolves R db db'"
  by (auto simp: clean_if_last_def go_simps split: if_splits dest: drop_access_evolves)

text \<open>The two ways a deleted row becomes current again.\<close>

lemma promote_cases:
  assumes "promoteLatestObjectVersion env t b k db = Inr db'"
  obtains (same) "db' = db"
  | (promoted) r rs where "newest_first env (filter (at_key t b k) (od_objects db)) = r # rs"
      "filter (live_at t b k) (od_objects db) = []"
      "db' = update_objects (has_id (o_ID r)) (\<lambda>r. r\<lparr>o_DeletedAt := None, o_VersionTombstone := False\<rparr>) db"
      "kv_get (unmarshalKV (o_Metadata r)) ''_aero_delete_marker'' \<noteq> ''true''"
proof (cases "length (filter (live_at t b k) (od_objects db)) \<noteq> 0")
  case True
  with assms same show ?thesis by (simp add: promoteLatestObjectVersion_def go_simps)
next
  case False
  show ?thesis
  proof (cases "query_row env ''select latest'' (newest_first env (filter (at_key t b k) (od_objects db)))")
    case (Inl e)
    with assms False same show ?thesis
      by (simp add: promoteLatestObjectVersion_def rbind_Inr stmt_Inr split: if_splits)
  next
    case (Inr r)
    show ?thesis
    proof (cases "kv_get (unmarshalKV (o_Metadata r)) ''_aero_delete_marker'' = ''true''")
      case True
      with Inr assms False same show ?thesis by (simp add: promoteLatestObjectVersion_def rbind_Inr stmt_Inr)
    next
      case marker: False
      with Inr assms False have "db' = update_objects (has_id (o_ID r)) (\<lambda>r. r\<lparr>o_DeletedAt := None, o_VersionTombstone := False\<rparr>) db"
        by (simp add: promoteLatestObjectVersion_def rbind_Inr stmt_Inr)
      with Inr False marker promoted show ?thesis by (auto simp: query_row_Inr)
    qed
  qed
qed

lemma newest_first_set: "set (newest_first env rows) = set rows"
  by (simp add: newest_first_def)

lemma promote_evolves: "promoteLatestObjectVersion env t b k db = Inr db' \<Longrightarrow> evolves R db db'"
proof (erule promote_cases)
  fix r rs
  assume r: "newest_first env (filter (at_key t b k) (od_objects db)) = r # rs" and free: "filter (live_at t b k) (od_objects db) = []"
    and db': "db' = update_objects (has_id (o_ID r)) (\<lambda>r. r\<lparr>o_DeletedAt := None, o_VersionTombstone := False\<rparr>) db"
  have "r \<in> set (filter (at_key t b k) (od_objects db))" using r newest_first_set [of env] by (metis list.set_intros(1))
  then have "r \<in> set (od_objects db)" "resource_of r = (t, b, k)" by (simp_all add: at_key_resource)
  moreover have "resource_of x \<noteq> resource_of r" if "x \<in> set (od_objects db)" "is_live x" for x
    using free that calculation(2) by (auto simp: filter_empty_conv live_at_def at_key_resource)
  ultimately show ?thesis unfolding db' by (intro revive_evolves) (auto simp: resource_of_def)
qed simp

lemma restore_evolves: "evolves R db (fst (RestoreObject env db tenant bucket key))"
proof -
  let ?t = "defaultTenant tenant" let ?rows = "od_objects db" let ?f = "\<lambda>r. r\<lparr>o_DeletedAt := None\<rparr> :: objects_row"
  let ?cands = "latest_first env (filter (restorable ?t bucket key) ?rows)"
  let ?hit = "restore_hit env ?t bucket key ?rows"
  have "evolves R db (update_objects ?hit ?f db)"
  proof (cases "?cands = [] \<or> list_ex (live_at ?t bucket key) ?rows")
    case True
    then have "?hit = (\<lambda>_. False)" by (auto simp: restore_hit_def fun_eq_iff)
    then have "update_objects ?hit ?f db = db" by (simp add: update_objects_def set_rows_def)
    then show ?thesis by simp
  next
    case False
    then obtain r rs where r: "?cands = r # rs" by (cases ?cands) auto
    then have hit: "?hit = has_id (o_ID r)" using False by (simp add: restore_hit_def fun_eq_iff)
    have "r \<in> set ?cands" using r by simp
    then have mem: "r \<in> set ?rows" "restorable ?t bucket key r" by (simp_all add: latest_first_def)
    have "resource_of x \<noteq> resource_of r" if "x \<in> set ?rows" "is_live x" for x
      using False that mem(2) by (auto simp: list_ex_iff live_at_def restorable_def at_key_resource)
    then show ?thesis unfolding hit
      by (intro revive_evolves) (use mem in \<open>auto simp: resource_of_def restorable_def\<close>)
  qed
  then show ?thesis unfolding RestoreObject_def by (rule update_found_evolves(1))
qed

lemma drop_then_delete:
  assumes "drop_access env t b k db = Inr db1" "\<And>r. r \<in> set (od_objects db) \<Longrightarrow> p r \<Longrightarrow> o_ID r \<notin> set (held_ids db)"
  shows "evolves R db (delete_objects p db1)"
proof -
  have "evolves R db1 (delete_objects p db1)"
    using drop_access_same [OF assms(1)] assms(2) by (intro delete_evolves) (auto simp: held_ids_def)
  with drop_access_evolves [OF assms(1)] show ?thesis using evolves_trans by blast
qed

lemma hard_delete_evolves: "evolves R db (fst (HardDeleteObject env db tenant bucket key))"
  unfolding HardDeleteObject_def Let_def
  by (rule in_tx_evolves) (auto simp: go_simps list_ex_iff split: if_splits intro!: drop_then_delete)

lemma hard_delete_id_evolves: "evolves R db (fst (HardDeleteObjectByID env db i))"
proof -
  let ?rest = "\<lambda>r. case resource_of r of (t, b, k) \<Rightarrow> rbind (stmt env ''select hold'' (Inr (i \<in> set (held_ids db)))) (\<lambda>held.
        if held then Inl (Sentinel ErrLegalHoldActive)
        else rbind (stmt env ''delete object'' (Inr (delete_objects (has_id i) db))) (\<lambda>db1.
          if affected env (filter (has_id i) (od_objects db)) = 0 then Inl (Sentinel ErrNotFound)
          else clean_if_last env t b k db1))"
  have "evolves R db (delete_objects (has_id i) db)" if "i \<notin> set (held_ids db)"
    using that by (intro delete_evolves) (auto simp: has_id_def)
  moreover have "i \<notin> set (held_ids db) \<and> (\<exists>t b k. clean_if_last env t b k (delete_objects (has_id i) db) = Inr x)"
    if "?rest r = Inr x" for r x
  proof -
    obtain t b k where "resource_of r = (t, b, k)" by (cases "resource_of r")
    with that show ?thesis by (auto simp: rbind_Inr stmt_Inr split: if_splits)
  qed
  ultimately have "evolves R db x" if "?rest r = Inr x" for r x
    using that clean_evolves evolves_trans by (metis (lifting))
  then show ?thesis
    unfolding HardDeleteObjectByID_def by (intro in_tx_evolves) (auto simp only: rbind_Inr)
qed

lemma delete_version_body:
  assumes "(rbind (if is_live r then drop_access env t b k db else Inr db) (\<lambda>db1.
           rbind (stmt env l (Inr (delete_objects (has_id (o_ID r)) db1))) (\<lambda>db2.
           rbind (promoteLatestObjectVersion env t b k db2) (\<lambda>db3. clean_if_last env t b k db3)))) = Inr db'"
    and "o_ID r \<notin> set (held_ids db)"
  shows "evolves R db db'"
proof -
  from assms(1) obtain db1 db3 where db1: "(if is_live r then drop_access env t b k db else Inr db) = Inr db1"
    and db3: "promoteLatestObjectVersion env t b k (delete_objects (has_id (o_ID r)) db1) = Inr db3" "clean_if_last env t b k db3 = Inr db'"
    by (auto simp: go_simps)
  have unheld: "o_ID x \<notin> set (held_ids db)" if "has_id (o_ID r) x" for x using that assms(2) by (simp add: has_id_def)
  have "evolves R db (delete_objects (has_id (o_ID r)) db1)"
  proof (cases "is_live r")
    case True
    with db1 show ?thesis using drop_then_delete unheld by fastforce
  next
    case False
    with db1 show ?thesis using delete_evolves [of db] unheld by auto
  qed
  with promote_evolves [OF db3(1)] clean_evolves [OF db3(2)] show ?thesis using evolves_trans by blast
qed

lemma delete_version_evolves: "evolves R db (fst (DeleteObjectVersion env db tenant bucket key v))"
  unfolding DeleteObjectVersion_def Let_def
proof (rule in_tx_evolves)
  let ?t = "defaultTenant tenant"
  let ?rest = "\<lambda>r. rbind (if is_live r then drop_access env ?t bucket key db else Inr db) (\<lambda>db1.
           rbind (stmt env ''delete version'' (Inr (delete_objects (has_id (o_ID r)) db1))) (\<lambda>db2.
           rbind (promoteLatestObjectVersion env ?t bucket key db2) (\<lambda>db3. clean_if_last env ?t bucket key db3)))"
  fix x
  assume "rbind (not_found (query_row env ''select version'' (filter (is_version ?t bucket key v) (od_objects db)))) (\<lambda>r.
         rbind (stmt env ''select hold'' (Inr (o_ID r \<in> set (held_ids db)))) (\<lambda>held.
         if held then Inl (Sentinel ErrLegalHoldActive) else ?rest r)) = Inr x"
  then obtain r where "(if o_ID r \<in> set (held_ids db) then Inl (Sentinel ErrLegalHoldActive) else ?rest r) = Inr x"
    by (auto simp only: rbind_Inr [of "not_found _"] rbind_Inr [of "stmt env ''select hold'' _"] stmt_Inr)
  then have "?rest r = Inr x" "o_ID r \<notin> set (held_ids db)" by (auto split: if_splits)
  then show "evolves R db x" by (rule delete_version_body)
qed

lemma remove_hold_evolves: "i \<in> R \<Longrightarrow> evolves R db (fst (RemoveLegalHold env db i v))"
proof -
  assume i: "i \<in> R"
  let ?db' = "db\<lparr>od_holds := filter (\<lambda>h. \<not> holds_version i v h) (od_holds db)\<rparr>"
  have "j \<in> set (held_ids ?db')" if "j \<in> set (held_ids db) - R" for j
    using that i by (force simp: held_ids_def holds_version_def)
  moreover have "set (held_ids ?db') \<subseteq> set (held_ids db)" by (auto simp: held_ids_def)
  ultimately have "evolves R db ?db'" by (auto simp: evolves_def objects_ok_held)
  then show ?thesis by (simp add: RemoveLegalHold_def Let_def split: option.splits)
qed

lemma put_hold_evolves: "evolves R db (fst (PutLegalHold env now db l))"
proof -
  have "evolves R db db'" if "put_hold env n db = Inr db'" for n db'
    using put_hold_ok [OF that] put_hold_keeps [OF that] put_hold_objects [OF that] by (auto simp: evolves_def)
  then show ?thesis unfolding PutLegalHold_def by (intro run_evolves) (auto simp: go_simps)
qed

lemma upsert_evolves: "evolves R db (fst (UpsertObject env clk vid db obj))"
  by (auto simp: UpsertObject_def Let_def stmt_Inr split: sum.splits dest: upsert_object_evolves)

lemma insert_version_evolves: "evolves R db (fst (InsertObjectVersion env clk vid db obj))"
proof -
  have "evolves R db db2"
    if "insert_object env (new_object_row env t o') (tombstone_live t a b c db) = Inr (db2, r)" for t a b c o' r db2
    using insert_evolves [OF that] tombstone_evolves evolves_trans by (fastforce simp: new_object_row_def)
  then show ?thesis
    unfolding InsertObjectVersion_def Let_def by (intro in_tx_val_evolves) (auto simp: rbind_Inr stmt_Inr)
qed

lemma marker_evolves: "evolves R db (fst (InsertDeleteMarker env clk vid db obj))"
proof -
  have "evolves R db db3"
    if "drop_access env a b c (tombstone_live t' a b c db) = Inr db2" "insert_object env (marker_row t o') db2 = Inr (db3, r)"
    for t t' a b c o' r db2 db3
  proof -
    have "evolves R db2 db3" by (rule insert_evolves [OF that(2)]) (simp_all add: marker_row_def)
    then show ?thesis by (rule evolves_trans [OF evolves_trans [OF tombstone_evolves drop_access_evolves [OF that(1)]]])
  qed
  then show ?thesis
    unfolding InsertDeleteMarker_def Let_def by (intro in_tx_val_evolves) (auto simp: rbind_Inr stmt_Inr)
qed

lemma soft_deletes_evolve:
  "evolves R db (fst (SoftDeleteObject env clk db t b k))" "evolves R db (fst (SoftDeleteObjectByID env clk db i))"
  unfolding SoftDeleteObject_def SoftDeleteObjectByID_def Let_def
  by (rule in_tx_evolves, auto simp only: rbind_Inr intro: soft_delete_evolves)+

lemma class_evolves: "evolves R db (fst (UpdateObjectStorageClass env clk db t b k c))"
  unfolding UpdateObjectStorageClass_def
  by (rule run_evolves) (auto simp: stmt_Inr resource_of_def intro!: column_evolves)

lemma metadata_evolves:
  "evolves R db (fst (SetObjectMetaKeys env db t b k m))" "evolves R db (fst (ReplaceObjectMetadata env db t b k m))"
  "evolves R db (fst (DeleteObjectMetaKey jr env db t b k mk))"
  by (auto simp: SetObjectMetaKeys_def mergeObjectMetadata_def ReplaceObjectMetadata_def DeleteObjectMetaKey_def resource_of_def
      intro!: update_found_evolves column_evolves)

lemma row_updates_evolve:
  "evolves R db (fst (UpdateTags env clk db t b k tags))" "evolves R db (fst (UpdateObjectTagsByID env clk db i tags))"
  "evolves R db (fst (SetLockedUntil env db t b k u))" "evolves R db (fst (SetObjectRetention env db i u m))"
  "evolves R db (fst (SetObjectACL env db t b k a))"
  by (auto simp: UpdateTags_def UpdateObjectTagsByID_def SetLockedUntil_def SetObjectRetention_def SetObjectACL_def resource_of_def
      intro!: update_found_evolves column_evolves)

lemmas op_evolves = upsert_evolves insert_version_evolves marker_evolves soft_deletes_evolve class_evolves metadata_evolves
  row_updates_evolve hard_delete_evolves hard_delete_id_evolves delete_version_evolves restore_evolves put_hold_evolves

lemma exec_op_evolves: "released op \<subseteq> R \<Longrightarrow> evolves R db (exec_op jr env op db)"
  by (cases op) (simp_all add: op_evolves remove_hold_evolves)

lemma run_ops_evolves: "(\<And>env op. (env, op) \<in> set ops \<Longrightarrow> released op \<subseteq> R) \<Longrightarrow> evolves R db (run_ops jr ops db)"
proof (induction ops arbitrary: db)
  case (Cons x ops)
  obtain env op where x: "x = (env, op)" by (cases x)
  have "released op \<subseteq> R" using Cons.prems [of env op] x by simp
  then have "evolves R db (exec_op jr env op db)" by (rule exec_op_evolves)
  moreover have "evolves R (exec_op jr env op db) (run_ops jr ops (exec_op jr env op db))"
    by (rule Cons.IH) (use Cons.prems in auto)
  ultimately show ?case by (auto simp: x intro: evolves_trans)
qed simp

text \<open>
  C35. Table objects keeps its invariant under every sequence of calls of \<open>sql_objects.go\<close>,
  \<open>sql_objects_versions.go\<close>, \<open>sql_objects_maint.go\<close>, \<open>sql_tags_acl.go\<close> and \<open>sql_legal_holds.go\<close>, with any
  statement failing in any of them: ids stay distinct, at most one row per (tenant, bucket, key) is
  live, no live row is a tombstone, and every hold belongs to a row.
\<close>

theorem object_table_invariant: "objects_ok db \<Longrightarrow> objects_ok (run_ops jr ops db)"
  using run_ops_evolves [of ops UNIV db jr] by (simp add: evolves_def)

text \<open>
  An object under legal hold survives: whatever calls are made, in any order and with any
  failures, as long as none of them removes a hold of this object, its row is still there under the
  same tenant, bucket and key, and it is still held.
\<close>

lemma held_object_survives:
  assumes "objects_ok db" "r \<in> set (od_objects db)" "o_ID r \<in> set (held_ids db)"
    and "\<And>env op v. (env, op) \<in> set ops \<Longrightarrow> op \<noteq> OpRemoveHold (o_ID r) v"
  shows "o_ID r \<in> set (held_ids (run_ops jr ops db)) \<and>
    (\<exists>r' \<in> set (od_objects (run_ops jr ops db)). o_ID r' = o_ID r \<and> resource_of r' = resource_of r)"
proof -
  have "released op \<subseteq> - {o_ID r}" if "(env, op) \<in> set ops" for env op
    using assms(4) [OF that] by (cases op) auto
  from run_ops_evolves [of ops, OF this] assms(1-3) show ?thesis by (auto simp: evolves_def row_kept_def)
qed

end
