(* ===== verification/Object_Map.thy ===== *)
theory Object_Map
  imports Object_History
begin

text \<open>
  The current objects as a map from (tenant, bucket, key): the writes and deletions of the table are
  updates of that map, and versions that are no longer current stay readable.
\<close>

section \<open>The current row of a key\<close>

definition cur :: "objects_row list \<Rightarrow> string \<times> string \<times> string \<Rightarrow> objects_row option" where
  "cur rows res = List.find (\<lambda>r. is_live r \<and> resource_of r = res) rows"

definition current :: "objects_db \<Rightarrow> string \<times> string \<times> string \<Rightarrow> Object option" where
  "current db res = map_option scanObject (cur (od_objects db) res)"

lemma cur_simps [simp]:
  "cur [] res = None"
  "cur (r # rows) res = (if is_live r \<and> resource_of r = res then Some r else cur rows res)"
  by (simp_all add: cur_def)

lemma live_at_iff: "live_at t b k r \<longleftrightarrow> is_live r \<and> resource_of r = (t, b, k)"
  by (auto simp: live_at_def at_key_resource)

lemma cur_filter: "filter (live_at t b k) rows = [] \<longleftrightarrow> cur rows (t, b, k) = None"
  "filter (live_at t b k) rows = r # rs \<Longrightarrow> cur rows (t, b, k) = Some r"
  by (induction rows) (auto simp: live_at_iff)

lemma cur_append: "cur (xs @ ys) res = (case cur xs res of None \<Rightarrow> cur ys res | Some r \<Rightarrow> Some r)"
  by (induction xs) auto

lemma cur_SomeD: "cur rows res = Some r \<Longrightarrow> r \<in> set rows \<and> is_live r \<and> resource_of r = res"
  by (induction rows) (auto split: if_splits)

lemma cur_update:
  assumes "\<And>r. resource_of (f r) = resource_of r" "\<And>r. is_live (f r) = is_live r"
  shows "cur (set_rows p f rows) res = map_option (\<lambda>r. if p r then f r else r) (cur rows res)"
  using assms by (induction rows) (auto simp: set_rows_def)

lemma cur_retire:
  assumes "\<And>r. resource_of (f r) = resource_of r" "\<And>r. \<not> is_live (f r)"
  shows "cur (set_rows (live_at t b k) f rows) = (cur rows)((t, b, k) := None)"
  using assms by (induction rows) (auto simp: set_rows_def live_at_iff fun_eq_iff)

lemma cur_remove: "cur (filter (\<lambda>r. \<not> at_key t b k r) rows) = (cur rows)((t, b, k) := None)"
  by (induction rows) (auto simp: at_key_resource fun_eq_iff)

lemma GetObject_current:
  "fault_free env \<Longrightarrow> GetObject env db t b k =
     (case current db (defaultTenant t, b, k) of None \<Rightarrow> Inl (Sentinel ErrNotFound) | Some x \<Rightarrow> Inr x)"
  by (cases "filter (live_at (defaultTenant t) b k) (od_objects db)")
     (simp_all add: GetObject_def get_object_def not_found_def query_row_def current_def cur_filter(2) cur_filter(1) [THEN iffD1])

section \<open>Writes\<close>

text \<open>The entry an object is written to.\<close>

definition target :: "Object \<Rightarrow> string \<times> string \<times> string" where
  "target obj = (defaultTenant (o_TenantID obj), o_Bucket obj, o_Key obj)"

text \<open>The object as it is read back: strings through JSON, times through their columns.\<close>

definition stored_form :: "sql_env \<Rightarrow> Object \<Rightarrow> Object" where
  "stored_form env obj =
     obj\<lparr>o_Metadata := unmarshalKV (jsonOrEmpty (o_Metadata obj)), o_Tags := unmarshalKV (jsonOrEmpty (o_Tags obj)),
         o_DeletedAt := None, o_LockedUntil := flexNullTime (nullableTime env (o_LockedUntil obj)), o_VersionTombstone := False\<rparr>"

lemma scan_new_row: "scanObject (new_object_row env t obj i) = stored_form env (returned obj (new_object_row env t obj i))"
  by (simp add: scanObject_def new_object_row_def stored_form_def returned_def Object.truncate_def flexNullTime_def)

lemma scan_upsert_row:
  assumes "resource_of r = (o_TenantID obj, o_Bucket obj, o_Key obj)" "is_live r" "\<not> o_VersionTombstone r"
  shows "scanObject (upsert_row (new_object_row env t obj i) r) = stored_form env (returned obj (upsert_row (new_object_row env t obj i) r))"
  using assms by (simp add: scanObject_def upsert_row_def new_object_row_def stored_form_def returned_def Object.truncate_def
      flexNullTime_def is_live_def resource_of_def)

lemma upsert_current:
  assumes ff: "fault_free env" and ok: "objects_ok db"
  shows "\<exists>x. snd (UpsertObject env clk vid db obj) = Inr x \<and>
    current (fst (UpsertObject env clk vid db obj)) = (current db)((defaultTenant (o_TenantID obj), o_Bucket obj, o_Key obj) \<mapsto> stored_form env x)"
proof -
  let ?o = "identify vid obj" let ?n = "new_object_row env (stamp env clk) ?o (od_seq db + 1)"
  let ?t = "defaultTenant (o_TenantID obj)" let ?res = "(?t, o_Bucket obj, o_Key obj)"
  let ?hit = "live_at ?t (o_Bucket obj) (o_Key obj)"
  have n: "o_TenantID ?n = ?t" "o_Bucket ?n = o_Bucket obj" "o_Key ?n = o_Key obj" "is_live ?n" "resource_of ?n = ?res"
    by (simp_all add: new_object_row_def identify_def is_live_def resource_of_def)
  show ?thesis
  proof (cases "filter ?hit (od_objects db)")
    case Nil
    then have none: "cur (od_objects db) ?res = None" by (simp add: cur_filter)
    have free: "\<not> list_ex ?hit (od_objects db)" using Nil by (auto simp: list_ex_iff filter_empty_conv)
    have "UpsertObject env clk vid db obj = (db\<lparr>od_objects := od_objects db @ [?n], od_seq := od_seq db + 1\<rparr>, Inr (returned ?o ?n))"
      using ff Nil free n by (simp add: UpsertObject_def Let_def upsert_object_def insert_object_def)
    then show ?thesis
      using none n scan_new_row [of env "stamp env clk" ?o "od_seq db + 1"]
      by (auto simp: current_def cur_append fun_eq_iff split: option.splits)
  next
    case (Cons r rs)
    then have c: "cur (od_objects db) ?res = Some r" by (rule cur_filter(2))
    from cur_SomeD [OF this] have r: "r \<in> set (od_objects db)" "is_live r" "resource_of r = ?res" by simp_all
    with ok have "\<not> o_VersionTombstone r" by (simp add: objects_ok_def)
    have keeps: "resource_of (upsert_row ?n x) = resource_of x" "is_live (upsert_row ?n x) = is_live x" for x
      by (simp_all add: upsert_row_def resource_of_def is_live_def)
    have "UpsertObject env clk vid db obj = (update_objects ?hit (upsert_row ?n) db, Inr (returned ?o (upsert_row ?n r)))"
      using ff Cons n by (simp add: UpsertObject_def Let_def upsert_object_def)
    moreover have "scanObject (upsert_row ?n r) = stored_form env (returned ?o (upsert_row ?n r))"
      using r \<open>\<not> o_VersionTombstone r\<close> by (intro scan_upsert_row) (simp_all add: identify_def)
    moreover have "?hit x \<longleftrightarrow> res = ?res" if "cur (od_objects db) res = Some x" for res x
      using cur_SomeD [OF that] by (simp add: live_at_iff)
    ultimately show ?thesis
      using c by (auto simp: current_def cur_update [OF keeps] fun_eq_iff option.map_comp intro!: map_option_cong split: option.splits)
  qed
qed

lemma tombstone_current: "cur (od_objects (tombstone_live t tenant b k db)) = (cur (od_objects db))((tenant, b, k) := None)"
  unfolding tombstone_live_def update_objects_same by (rule cur_retire) (simp_all add: resource_of_def is_live_def)

lemma insert_version_current:
  assumes ff: "fault_free env"
  shows "\<exists>x. snd (InsertObjectVersion env clk vid db obj) = Inr x \<and>
    current (fst (InsertObjectVersion env clk vid db obj)) = (current db)((defaultTenant (o_TenantID obj), o_Bucket obj, o_Key obj) \<mapsto> stored_form env x)"
proof -
  let ?o = "identify vid obj" let ?t = "stamp env clk" let ?n = "new_object_row env ?t ?o (od_seq db + 1)"
  let ?tn = "defaultTenant (o_TenantID obj)" let ?res = "(?tn, o_Bucket obj, o_Key obj)"
  let ?db1 = "tombstone_live ?t ?tn (o_Bucket obj) (o_Key obj) db"
  have n: "o_TenantID ?n = ?tn" "o_Bucket ?n = o_Bucket obj" "o_Key ?n = o_Key obj" "is_live ?n" "resource_of ?n = ?res"
    by (simp_all add: new_object_row_def identify_def is_live_def resource_of_def)
  have o: "o_TenantID ?o = ?tn" "o_Bucket ?o = o_Bucket obj" "o_Key ?o = o_Key obj" by (simp_all add: identify_def)
  have seq: "od_seq ?db1 = od_seq db" by (simp add: tombstone_live_def)
  have none: "cur (od_objects ?db1) ?res = None" by (simp add: tombstone_current)
  then have "\<not> list_ex (live_at ?tn (o_Bucket obj) (o_Key obj)) (od_objects ?db1)"
    by (auto simp: list_ex_iff filter_empty_conv simp flip: cur_filter(1))
  then have "InsertObjectVersion env clk vid db obj =
      (?db1\<lparr>od_objects := od_objects ?db1 @ [?n], od_seq := od_seq db + 1\<rparr>, Inr (returned ?o ?n))"
    using ff n by (simp add: InsertObjectVersion_def Let_def insert_object_def seq in_tx_val_def o fault_free_def)
  then show ?thesis
    using n scan_new_row [of env ?t ?o "od_seq db + 1"]
    by (auto simp: current_def cur_append tombstone_current fun_eq_iff split: option.splits)
qed

section \<open>Deletions\<close>

lemma drop_access_ok: "fault_free env \<Longrightarrow> \<exists>a. drop_access env t b k db = Inr (db\<lparr>od_access := a\<rparr>)"
proof -
  assume "fault_free env"
  then have "\<exists>a. deleteObjectAccessState env (od_access db) t b k = Inr a"
    by (simp add: deleteObjectAccessState_def deleteObjectCapabilities_def delete_shares_where_def delete_assets_where_def
        delete_acls_where_def)
  then show ?thesis by (auto simp: drop_access_def)
qed

lemma marker_current:
  assumes ff: "fault_free env"
  shows "current (fst (InsertDeleteMarker env clk vid db obj)) = (current db)((defaultTenant (o_TenantID obj), o_Bucket obj, o_Key obj) := None)"
proof -
  let ?o = "identify vid obj" let ?tn = "defaultTenant (o_TenantID obj)"
  let ?db1 = "tombstone_live (column_time env (go_now clk)) ?tn (o_Bucket obj) (o_Key obj) db"
  let ?n = "marker_row (stamp env clk) ?o (od_seq db + 1)"
  have o: "o_TenantID ?o = ?tn" "o_Bucket ?o = o_Bucket obj" "o_Key ?o = o_Key obj" by (simp_all add: identify_def)
  have seq: "od_seq ?db1 = od_seq db" by (simp add: tombstone_live_def)
  have n: "\<not> is_live ?n" by (simp add: marker_row_def is_live_def)
  obtain a where "drop_access env ?tn (o_Bucket obj) (o_Key obj) ?db1 = Inr (?db1\<lparr>od_access := a\<rparr>)" using drop_access_ok [OF ff] by blast
  then have "fst (InsertDeleteMarker env clk vid db obj) = ?db1\<lparr>od_access := a, od_objects := od_objects ?db1 @ [?n], od_seq := od_seq db + 1\<rparr>"
    using ff n by (simp add: InsertDeleteMarker_def Let_def insert_object_def seq in_tx_val_def o fault_free_def)
  then show ?thesis
    using n by (simp add: current_def cur_append tombstone_current fun_eq_iff split: option.splits)
qed

lemma soft_delete_current:
  assumes ff: "fault_free env"
  shows "current (fst (SoftDeleteObject env clk db t b k)) = (current db)((defaultTenant t, b, k) := None)"
proof (cases "filter (live_at (defaultTenant t) b k) (od_objects db)")
  case Nil
  then have "cur (od_objects db) (defaultTenant t, b, k) = None" by (simp add: cur_filter)
  moreover have "fst (SoftDeleteObject env clk db t b k) = db"
    using ff Nil by (simp add: SoftDeleteObject_def Let_def soft_delete_def affected_def in_tx_def fault_free_def)
  ultimately show ?thesis by (auto simp: current_def)
next
  case (Cons r rs)
  let ?db1 = "update_objects (live_at (defaultTenant t) b k) (\<lambda>r. r\<lparr>o_DeletedAt := Some (column_time env (go_now clk))\<rparr>) db"
  obtain a where "drop_access env (defaultTenant t) b k ?db1 = Inr (?db1\<lparr>od_access := a\<rparr>)" using drop_access_ok [OF ff] by blast
  then have "fst (SoftDeleteObject env clk db t b k) = ?db1\<lparr>od_access := a\<rparr>"
    using ff Cons by (simp add: SoftDeleteObject_def Let_def soft_delete_def affected_def in_tx_def fault_free_def)
  moreover have "cur (od_objects ?db1) = (cur (od_objects db))((defaultTenant t, b, k) := None)"
    unfolding update_objects_same by (rule cur_retire) (simp_all add: resource_of_def is_live_def)
  ultimately show ?thesis by (auto simp: current_def fun_eq_iff)
qed

definition on_hold :: "objects_db \<Rightarrow> string \<times> string \<times> string \<Rightarrow> bool" where
  "on_hold db res \<longleftrightarrow> (\<exists>r \<in> set (od_objects db). resource_of r = res \<and> o_ID r \<in> set (held_ids db))"

lemma hard_delete_current:
  assumes ff: "fault_free env"
  shows "HardDeleteObject env db t b k = (db, Some (Sentinel ErrLegalHoldActive)) \<and> on_hold db (defaultTenant t, b, k)
    \<or> snd (HardDeleteObject env db t b k) = None \<and> \<not> on_hold db (defaultTenant t, b, k)
      \<and> current (fst (HardDeleteObject env db t b k)) = (current db)((defaultTenant t, b, k) := None)"
proof (cases "on_hold db (defaultTenant t, b, k)")
  case True
  then have "list_ex (\<lambda>r. at_key (defaultTenant t) b k r \<and> o_ID r \<in> set (held_ids db)) (od_objects db)"
    by (auto simp: on_hold_def list_ex_iff at_key_resource)
  with ff True show ?thesis by (simp add: HardDeleteObject_def Let_def in_tx_def fault_free_def)
next
  case False
  then have "\<not> list_ex (\<lambda>r. at_key (defaultTenant t) b k r \<and> o_ID r \<in> set (held_ids db)) (od_objects db)"
    by (auto simp: on_hold_def list_ex_iff at_key_resource)
  moreover obtain a where "drop_access env (defaultTenant t) b k db = Inr (db\<lparr>od_access := a\<rparr>)" using drop_access_ok [OF ff] by blast
  ultimately have "HardDeleteObject env db t b k = (delete_objects (at_key (defaultTenant t) b k) (db\<lparr>od_access := a\<rparr>), None)"
    using ff by (simp add: HardDeleteObject_def Let_def in_tx_def fault_free_def)
  then show ?thesis
    using False cur_remove by (auto simp: delete_objects_def Let_def current_def fun_eq_iff)
qed

text \<open>
  C36. The objects table refines a map from (tenant, bucket, key) to objects: with no failing statement,
  an upsert and a new version both set the entry of the key to the object as stored (and return the
  object they stored), a delete marker and a soft deletion clear the entry, and a hard deletion clears
  it unless a version of the key is under legal hold, in which case it changes nothing and says so.
  No entry of another key changes, and \<open>GetObject\<close> looks the entry up.
\<close>

theorem object_table_refines_map:
  assumes "fault_free env" "objects_ok db"
  shows "(\<exists>x. snd (UpsertObject env clk vid db obj) = Inr x \<and> current (fst (UpsertObject env clk vid db obj)) = (current db)(target obj \<mapsto> stored_form env x))
    \<and> (\<exists>x. snd (InsertObjectVersion env clk vid db obj) = Inr x
          \<and> current (fst (InsertObjectVersion env clk vid db obj)) = (current db)(target obj \<mapsto> stored_form env x))
    \<and> current (fst (InsertDeleteMarker env clk vid db obj)) = (current db)(target obj := None)
    \<and> current (fst (SoftDeleteObject env clk db t b k)) = (current db)((defaultTenant t, b, k) := None)
    \<and> (HardDeleteObject env db t b k = (db, Some (Sentinel ErrLegalHoldActive)) \<and> on_hold db (defaultTenant t, b, k)
       \<or> snd (HardDeleteObject env db t b k) = None \<and> \<not> on_hold db (defaultTenant t, b, k)
         \<and> current (fst (HardDeleteObject env db t b k)) = (current db)((defaultTenant t, b, k) := None))
    \<and> GetObject env db t b k = (case current db (defaultTenant t, b, k) of None \<Rightarrow> Inl (Sentinel ErrNotFound) | Some x \<Rightarrow> Inr x)"
  unfolding target_def
  by (intro conjI upsert_current insert_version_current marker_current soft_delete_current hard_delete_current GetObject_current assms)

section \<open>Reading back what was written\<close>

text \<open>Objects that the columns hold without loss.\<close>

definition storable :: "sql_env \<Rightarrow> Object \<Rightarrow> bool" where
  "storable env obj \<longleftrightarrow> valid_kv (o_Metadata obj) \<and> valid_kv (o_Tags obj) \<and> o_DeletedAt obj = None \<and> \<not> o_VersionTombstone obj
     \<and> flexNullTime (nullableTime env (o_LockedUntil obj)) = o_LockedUntil obj"

lemma stored_form_id: "storable env obj \<Longrightarrow> stored_form env obj = obj"
  by (simp add: storable_def stored_form_def)

lemma result_fields:
  "snd (UpsertObject env clk vid db obj) = Inr x \<Longrightarrow> storable env obj \<Longrightarrow> storable env x"
  "snd (InsertObjectVersion env clk vid db obj) = Inr y \<Longrightarrow> storable env obj \<Longrightarrow> storable env y"
proof -
  have f: "storable env (returned (identify vid obj) r) = storable env obj" for r
    by (simp add: storable_def returned_def identify_def)
  show "storable env x" if "snd (UpsertObject env clk vid db obj) = Inr x" "storable env obj"
    using that by (auto simp: UpsertObject_def Let_def stmt_Inr f split: sum.splits)
  show "storable env y" if "snd (InsertObjectVersion env clk vid db obj) = Inr y" "storable env obj"
  proof -
    from that(1) have "(rbind (stmt env ''tombstone current''
        (Inr (tombstone_live (stamp env clk) (o_TenantID (identify vid obj)) (o_Bucket (identify vid obj)) (o_Key (identify vid obj)) db))) (\<lambda>db1.
         rbind (stmt env ''insert version'' (insert_object env (new_object_row env (stamp env clk) (identify vid obj)) db1)) (\<lambda>(db2, r).
         stmt env ''scan version'' (Inr (db2, returned (identify vid obj) r))))) = Inr (fst (InsertObjectVersion env clk vid db obj), y)"
      unfolding InsertObjectVersion_def Let_def by (rule in_tx_val_cases(2) [OF prod.collapse [symmetric]])
    then show ?thesis using that(2) by (auto simp: rbind_Inr stmt_Inr f)
  qed
qed

text \<open>
  C37. What is written is what is read: after an upsert or a new version of a storable object (valid
  UTF-8 in metadata and tags, a lock time the column holds exactly), \<open>GetObject\<close> of its tenant,
  bucket and key returns exactly the object the write returned.
\<close>

theorem put_get_roundtrip:
  assumes "fault_free env" "objects_ok db" "storable env obj"
  shows "GetObject env (fst (UpsertObject env clk vid db obj)) (o_TenantID obj) (o_Bucket obj) (o_Key obj) = snd (UpsertObject env clk vid db obj)
    \<and> GetObject env (fst (InsertObjectVersion env clk vid db obj)) (o_TenantID obj) (o_Bucket obj) (o_Key obj)
      = snd (InsertObjectVersion env clk vid db obj)"
proof -
  obtain x where x: "snd (UpsertObject env clk vid db obj) = Inr x"
    "current (fst (UpsertObject env clk vid db obj)) = (current db)((defaultTenant (o_TenantID obj), o_Bucket obj, o_Key obj) \<mapsto> stored_form env x)"
    using upsert_current [OF assms(1,2)] by blast
  obtain y where y: "snd (InsertObjectVersion env clk vid db obj) = Inr y"
    "current (fst (InsertObjectVersion env clk vid db obj)) = (current db)((defaultTenant (o_TenantID obj), o_Bucket obj, o_Key obj) \<mapsto> stored_form env y)"
    using insert_version_current [OF assms(1)] by blast
  show ?thesis
    using stored_form_id [OF result_fields(1) [OF x(1) assms(3)]] stored_form_id [OF result_fields(2) [OF y(1) assms(3)]] x y
    by (simp add: GetObject_current [OF assms(1)])
qed

section \<open>Older versions\<close>

lemma query_first_update:
  assumes "filter q rows = r # rs" "\<And>r. q (f r) = q r"
  shows "\<exists>rs'. filter q (set_rows p f rows @ ys) = (if p r then f r else r) # rs'"
proof -
  have "filter q (set_rows p f rows) = set_rows p f (r # rs)" using assms by (simp add: filter_set_rows)
  then show ?thesis by (simp add: set_rows_def)
qed

definition retired :: "instant \<Rightarrow> Object \<Rightarrow> Object" where
  "retired t x = x\<lparr>o_DeletedAt := flexNullTime (Some t), o_VersionTombstone := True\<rparr>"

lemma scan_retired: "scanObject (r\<lparr>o_DeletedAt := Some t, o_VersionTombstone := True\<rparr>) = retired t (scanObject r)"
  by (simp add: scanObject_def retired_def Object.truncate_def)

lemma old_version_read:
  assumes ff: "fault_free env" and get: "GetObjectVersion env db t b k v = Inr x"
    and db': "od_objects db' = od_objects (tombstone_live now t' b' k' db) @ ys"
  shows "GetObjectVersion env db' t b k v \<in> {Inr x, Inr (retired now x)}"
proof -
  let ?q = "is_version (defaultTenant t) b k v" let ?f = "\<lambda>r. r\<lparr>o_DeletedAt := Some now, o_VersionTombstone := True\<rparr> :: objects_row"
  obtain r rs where r: "filter ?q (od_objects db) = r # rs" and x: "x = scanObject r"
    using get ff by (auto simp: GetObjectVersion_def get_object_def not_found_def rbind_Inr query_row_Inr split: sum.splits)
  have "?q (?f r) = ?q r" for r by (simp add: is_version_def at_key_def)
  from query_first_update [OF r this] obtain rs' where
    "filter ?q (od_objects db') = (if live_at t' b' k' r then ?f r else r) # rs'"
    unfolding db' tombstone_live_def update_objects_same by blast
  then show ?thesis
    using ff by (auto simp: GetObjectVersion_def get_object_def not_found_def query_row_def x scan_retired)
qed

lemma insert_version_rows:
  assumes "fault_free env"
  shows "\<exists>n. od_objects (fst (InsertObjectVersion env clk vid db obj)) =
      od_objects (tombstone_live (stamp env clk) (defaultTenant (o_TenantID obj)) (o_Bucket obj) (o_Key obj) db) @ [n]"
proof -
  let ?o = "identify vid obj" let ?tn = "defaultTenant (o_TenantID obj)"
  let ?db1 = "tombstone_live (stamp env clk) ?tn (o_Bucket obj) (o_Key obj) db"
  have o: "o_TenantID ?o = ?tn" "o_Bucket ?o = o_Bucket obj" "o_Key ?o = o_Key obj" by (simp_all add: identify_def)
  have "cur (od_objects ?db1) (?tn, o_Bucket obj, o_Key obj) = None" by (simp add: tombstone_current)
  then have "\<not> list_ex (live_at ?tn (o_Bucket obj) (o_Key obj)) (od_objects ?db1)"
    by (auto simp: list_ex_iff filter_empty_conv simp flip: cur_filter(1))
  then show ?thesis
    using assms by (simp add: InsertObjectVersion_def Let_def insert_object_def in_tx_val_def o fault_free_def new_object_row_def)
qed

lemma marker_rows:
  assumes "fault_free env"
  shows "\<exists>n. od_objects (fst (InsertDeleteMarker env clk vid db obj)) =
      od_objects (tombstone_live (column_time env (go_now clk)) (defaultTenant (o_TenantID obj)) (o_Bucket obj) (o_Key obj) db) @ [n]"
proof -
  let ?o = "identify vid obj" let ?tn = "defaultTenant (o_TenantID obj)"
  let ?db1 = "tombstone_live (column_time env (go_now clk)) ?tn (o_Bucket obj) (o_Key obj) db"
  have o: "o_TenantID ?o = ?tn" "o_Bucket ?o = o_Bucket obj" "o_Key ?o = o_Key obj" by (simp_all add: identify_def)
  obtain a where "drop_access env ?tn (o_Bucket obj) (o_Key obj) ?db1 = Inr (?db1\<lparr>od_access := a\<rparr>)" using drop_access_ok [OF assms] by blast
  then show ?thesis
    using assms by (simp add: InsertDeleteMarker_def Let_def insert_object_def in_tx_val_def o fault_free_def marker_row_def is_live_def)
qed

text \<open>
  History is kept: a new version and a delete marker leave every version that could be read before
  readable by its version id, with the same contents; at most it is now marked as a tombstone.
\<close>

lemma versions_stay_readable:
  assumes "fault_free env" "GetObjectVersion env db t b k v = Inr x"
  shows "GetObjectVersion env (fst (InsertObjectVersion env clk vid db obj)) t b k v \<in> {Inr x, Inr (retired (stamp env clk) x)}
    \<and> GetObjectVersion env (fst (InsertDeleteMarker env clk vid db obj)) t b k v \<in> {Inr x, Inr (retired (column_time env (go_now clk)) x)}"
  using insert_version_rows [OF assms(1), of clk vid db obj] marker_rows [OF assms(1), of clk vid db obj]
    old_version_read [OF assms] by metis

end
