(* ===== verification/Object_Versions.thy ===== *)
theory Object_Versions
  imports Object_Map
begin

text \<open>
  Deleting one version of an object: which row becomes current afterwards, and two consequences of the
  order in which \<open>promoteLatestObjectVersion\<close> looks for it.
\<close>

lemma newest_first_max:
  assumes "newest_first env rows = m # ms"
  shows "m \<in> set rows" "\<forall>x \<in> set rows. version_key env x \<le> version_key env m"
proof -
  from assms have s: "sort_key (version_key env) rows = rev ms @ [m]"
    unfolding newest_first_def by (metis rev.simps(2) rev_rev_ident)
  from arg_cong [OF s, of set] have mem: "set rows = insert m (set ms)" by simp
  have "sorted (map (version_key env) (rev ms @ [m]))" by (metis s sorted_sort_key)
  with mem show "m \<in> set rows" "\<forall>x \<in> set rows. version_key env x \<le> version_key env m"
    by (auto simp: sorted_append)
qed

lemma cur_filter_other:
  "(\<And>x. x \<in> set rows \<Longrightarrow> \<not> p x \<Longrightarrow> \<not> (is_live x \<and> resource_of x = res)) \<Longrightarrow> cur (filter p rows) res = cur rows res"
  by (induction rows) auto

lemma cur_revive:
  assumes "distinct (map o_ID rows)" "m \<in> set rows" "cur rows (resource_of m) = None" "resource_of (f m) = resource_of m" "is_live (f m)"
  shows "cur (set_rows (has_id (o_ID m)) f rows) = (cur rows)(resource_of m \<mapsto> f m)"
proof -
  obtain xs ys where split: "rows = xs @ m # ys" "set_rows (has_id (o_ID m)) f rows = xs @ f m # ys"
    using set_rows_id [OF assms(1,2)] by blast
  then have "\<not> is_live m" "cur xs (resource_of m) = None" using assms(3) by (auto simp: cur_append split: option.splits if_splits)
  with split assms(4,5) show ?thesis by (auto simp: cur_append fun_eq_iff split: option.splits)
qed

definition is_marker :: "objects_row \<Rightarrow> bool" where
  "is_marker r \<longleftrightarrow> kv_get (unmarshalKV (o_Metadata r)) ''_aero_delete_marker'' = ''true''"

abbreviation revived :: "objects_row \<Rightarrow> objects_row" where
  "revived r \<equiv> r\<lparr>o_DeletedAt := None, o_VersionTombstone := False\<rparr>"

text \<open>The rows of the key that remain when the row \<open>r\<close> is gone.\<close>

definition remaining :: "objects_db \<Rightarrow> objects_row \<Rightarrow> objects_row list" where
  "remaining db r = filter (\<lambda>x. resource_of x = resource_of r \<and> o_ID x \<noteq> o_ID r) (od_objects db)"

text \<open>The current row of the key afterwards.\<close>

definition successor :: "sql_env \<Rightarrow> objects_db \<Rightarrow> objects_row \<Rightarrow> objects_row option \<Rightarrow> bool" where
  "successor env db r c \<longleftrightarrow>
     (if \<exists>x \<in> set (remaining db r). is_live x then c = cur (od_objects db) (resource_of r)
      else if remaining db r = [] then c = None
      else \<exists>m \<in> set (remaining db r). (\<forall>x \<in> set (remaining db r). version_key env x \<le> version_key env m)
             \<and> c = (if is_marker m then None else Some (revived m)))"

lemma promote_runs:
  assumes "fault_free env"
  shows "promoteLatestObjectVersion env t b k db =
    Inr (if filter (live_at t b k) (od_objects db) \<noteq> [] then db
         else case newest_first env (filter (at_key t b k) (od_objects db)) of
                [] \<Rightarrow> db
              | m # _ \<Rightarrow> if is_marker m then db else update_objects (has_id (o_ID m)) revived db)"
  using assms by (simp add: promoteLatestObjectVersion_def query_row_def is_marker_def split: list.splits)

lemma promote_rows:
  assumes ok: "distinct (map o_ID (od_objects db2))" "one_live (od_objects db2)"
    and rows: "od_objects db2 = filter (\<lambda>x. o_ID x \<noteq> o_ID r) (od_objects db)" and res: "resource_of r = (t, b, k)"
    and r: "r \<in> set (od_objects db)" "distinct (map o_ID (od_objects db))" "one_live (od_objects db)"
    and ff: "fault_free env" and p: "promoteLatestObjectVersion env t b k db2 = Inr db3"
  shows "successor env db r (cur (od_objects db3) (t, b, k))
    \<and> (\<forall>res'. res' \<noteq> (t, b, k) \<longrightarrow> cur (od_objects db3) res' = cur (od_objects db2) res') \<and> map o_ID (od_objects db3) = map o_ID (od_objects db2)"
proof -
  have at: "filter (at_key t b k) (od_objects db2) = remaining db r"
    by (auto simp: remaining_def rows at_key_resource res intro: filter_cong)
  have lv: "filter (live_at t b k) (od_objects db2) = filter is_live (remaining db r)"
    unfolding at [symmetric] by (auto simp: live_at_def intro: filter_cong)
  show ?thesis
  proof (cases "filter is_live (remaining db r) = []")
    case False
    then obtain x where x: "x \<in> set (remaining db r)" "is_live x" by (auto simp: filter_empty_conv)
    have "\<not> is_live r"
    proof
      assume "is_live r"
      moreover have "x \<in> set (od_objects db)" "resource_of x = resource_of r" "o_ID x \<noteq> o_ID r" using x by (auto simp: remaining_def)
      ultimately show False
        using one_live_unique [OF r(3,1), of t b k] one_live_unique [OF r(3), of x t b k] x res by (simp add: live_at_iff)
    qed
    then have "cur (od_objects db2) (t, b, k) = cur (od_objects db) (t, b, k)"
      unfolding rows using r by (intro cur_filter_other) (auto simp: distinct_map inj_on_def)
    moreover have "db3 = db2" using p False by (simp add: promote_runs [OF ff] lv)
    ultimately show ?thesis using x res by (auto simp: successor_def)
  next
    case True
    then have none: "cur (od_objects db2) (t, b, k) = None" unfolding cur_filter(1) [symmetric] lv .
    show ?thesis
    proof (cases "newest_first env (remaining db r)")
      case Nil
      then have "remaining db r = []" using newest_first_set [of env "remaining db r"] by simp
      moreover have "db3 = db2" using p True Nil by (simp add: promote_runs [OF ff] lv at)
      ultimately show ?thesis using none by (auto simp: successor_def)
    next
      case (Cons m ms)
      note max = newest_first_max [OF this]
      then have m: "m \<in> set (od_objects db2)" "resource_of m = (t, b, k)" by (auto simp: remaining_def rows res)
      have db3: "db3 = (if is_marker m then db2 else update_objects (has_id (o_ID m)) revived db2)"
        using p True Cons by (simp add: promote_runs [OF ff] lv at)
      have "cur (od_objects db3) = (cur (od_objects db2))((t, b, k) := (if is_marker m then None else Some (revived m)))"
      proof (cases "is_marker m")
        case False
        then show ?thesis
          using cur_revive [OF ok(1) m(1), of revived] none m(2) by (simp add: db3 resource_of_def is_live_def)
      qed (use none in \<open>auto simp: db3\<close>)
      moreover have "map o_ID (od_objects db3) = map o_ID (od_objects db2)" by (simp add: db3)
      moreover have "\<not> (\<exists>x \<in> set (remaining db r). is_live x)" "remaining db r \<noteq> []" using True max(1) by (auto simp: filter_empty_conv)
      ultimately show ?thesis using max by (auto simp: successor_def)
    qed
  qed
qed

lemma delete_version_runs:
  assumes ff: "fault_free env" and ok: "objects_ok db"
    and sel: "filter (is_version (defaultTenant t) b k v) (od_objects db) = r # rs"
  shows "if o_ID r \<in> set (held_ids db) then DeleteObjectVersion env db t b k v = (db, Some (Sentinel ErrLegalHoldActive))
    else snd (DeleteObjectVersion env db t b k v) = None
      \<and> map o_ID (od_objects (fst (DeleteObjectVersion env db t b k v))) = filter (\<lambda>i. i \<noteq> o_ID r) (map o_ID (od_objects db))
      \<and> successor env db r (cur (od_objects (fst (DeleteObjectVersion env db t b k v))) (defaultTenant t, b, k))
      \<and> (\<forall>res. res \<noteq> (defaultTenant t, b, k) \<longrightarrow> cur (od_objects (fst (DeleteObjectVersion env db t b k v))) res = cur (od_objects db) res)"
proof (cases "o_ID r \<in> set (held_ids db)")
  case True
  then show ?thesis
    using ff sel by (simp add: DeleteObjectVersion_def Let_def query_row_def not_found_def in_tx_def fault_free_def)
next
  case False
  let ?t = "defaultTenant t"
  have r: "r \<in> set (od_objects db)" "resource_of r = (?t, b, k)"
    using filter_hd [OF sel] by (simp_all add: is_version_def at_key_resource)
  obtain db1 where db1: "(if is_live r then drop_access env ?t b k db else Inr db) = Inr db1" "od_objects db1 = od_objects db"
    using drop_access_ok [OF ff, of ?t b k db] by (cases "is_live r") auto
  let ?db2 = "delete_objects (has_id (o_ID r)) db1"
  have rows: "od_objects ?db2 = filter (\<lambda>x. o_ID x \<noteq> o_ID r) (od_objects db)"
    by (simp add: delete_objects_def Let_def db1(2) has_id_def)
  obtain db3 where db3: "promoteLatestObjectVersion env ?t b k ?db2 = Inr db3" by (simp add: promote_runs [OF ff])
  have "\<exists>db4. clean_if_last env ?t b k db3 = Inr db4 \<and> od_objects db4 = od_objects db3"
    using drop_access_ok [OF ff, of ?t b k db3] ff
    by (cases "filter (at_key ?t b k) (od_objects db3) = []") (auto simp: clean_if_last_def objectVersionCount_def)
  then obtain db4 where db4: "clean_if_last env ?t b k db3 = Inr db4" "od_objects db4 = od_objects db3" by blast
  have run: "DeleteObjectVersion env db t b k v = (db4, None)"
    using ff sel False db1 db3 db4 by (simp add: DeleteObjectVersion_def Let_def query_row_def not_found_def in_tx_def fault_free_def)
  have "distinct (map o_ID (od_objects db))" "one_live (od_objects db)" using ok by (simp_all add: objects_ok_def)
  moreover have "distinct (map o_ID (od_objects ?db2))" "one_live (od_objects ?db2)"
    using calculation unfolding rows one_live_def
    by (auto simp: distinct_map_filter filter_filter conj_commute distinct_map inj_on_def)
  ultimately have p: "successor env db r (cur (od_objects db3) (?t, b, k))
      \<and> (\<forall>res'. res' \<noteq> (?t, b, k) \<longrightarrow> cur (od_objects db3) res' = cur (od_objects ?db2) res') \<and> map o_ID (od_objects db3) = map o_ID (od_objects ?db2)"
    using promote_rows [OF _ _ rows r(2) r(1) _ _ ff db3] by blast
  have "cur (od_objects ?db2) res = cur (od_objects db) res" if "res \<noteq> (?t, b, k)" for res
    unfolding rows using that r \<open>distinct (map o_ID (od_objects db))\<close>
    by (intro cur_filter_other) (auto simp: distinct_map inj_on_def)
  moreover have "map o_ID (filter (\<lambda>x. o_ID x \<noteq> o_ID r) (od_objects db)) = filter (\<lambda>i. i \<noteq> o_ID r) (map o_ID (od_objects db))"
    by (simp add: filter_map comp_def)
  ultimately show ?thesis using p False run db4(2) rows by simp
qed

lemma current_or_other:
  assumes "objects_ok db" "r \<in> set (od_objects db)" "cur (od_objects db) (resource_of r) = Some c"
  shows "(\<exists>x \<in> set (remaining db r). is_live x) \<longleftrightarrow> c \<noteq> r"
proof -
  obtain t b k where res: "resource_of r = (t, b, k)" by (cases "resource_of r") auto
  have c: "c \<in> set (od_objects db)" "is_live c" "resource_of c = resource_of r"
    using assms(3) cur_filter(1) [of t b k "od_objects db"] by (auto simp: res dest!: cur_SomeD)
  have one: "one_live (od_objects db)" and ids: "distinct (map o_ID (od_objects db))" using assms(1) by (simp_all add: objects_ok_def)
  have uniq: "x = c" if "x \<in> set (od_objects db)" "is_live x" "resource_of x = resource_of r" for x
    using one_live_unique [OF one that(1), of t b k] one_live_unique [OF one c(1), of t b k] that c res by (simp add: live_at_iff)
  show ?thesis
  proof
    assume "\<exists>x \<in> set (remaining db r). is_live x"
    then show "c \<noteq> r" using uniq by (auto simp: remaining_def)
  next
    assume "c \<noteq> r"
    then have "o_ID c \<noteq> o_ID r" using ids c(1) assms(2) by (auto simp: distinct_map inj_on_def)
    with c show "\<exists>x \<in> set (remaining db r). is_live x" by (auto simp: remaining_def)
  qed
qed

text \<open>
  C38. Over a driver that does not fail, and for a key that has a current (live) object: deleting an
  exact version removes that row and no other, and is refused without effect when the row is under legal
  hold.  When the deleted row was not the current one, the current object stays what it was; when it
  was, the remaining row of the key with the greatest \<open>(updated_at, id)\<close> becomes current, unless that
  row is a delete marker or no row remains, and then there is no current object.  Other keys are not
  affected.  (A key without a current object is outside the comments' \<open>when the deleted row was the
  current version\<close>; \<open>delete_version_runs\<close> says what happens there, \<open>version_delete_undeletes\<close> of the
  examples what it leads to.)
\<close>

theorem DeleteObjectVersion_successor:
  assumes ff: "fault_free env" and ok: "objects_ok db"
    and sel: "filter (is_version (defaultTenant t) b k v) (od_objects db) = r # rs"
    and current: "cur (od_objects db) (defaultTenant t, b, k) = Some c"
  shows "if o_ID r \<in> set (held_ids db) then DeleteObjectVersion env db t b k v = (db, Some (Sentinel ErrLegalHoldActive))
    else \<exists>db'. DeleteObjectVersion env db t b k v = (db', None)
      \<and> map o_ID (od_objects db') = filter (\<lambda>i. i \<noteq> o_ID r) (map o_ID (od_objects db))
      \<and> (\<forall>res. res \<noteq> (defaultTenant t, b, k) \<longrightarrow> cur (od_objects db') res = cur (od_objects db) res)
      \<and> (if r \<noteq> c then cur (od_objects db') (defaultTenant t, b, k) = Some c
         else if remaining db r = [] then cur (od_objects db') (defaultTenant t, b, k) = None
         else \<exists>m \<in> set (remaining db r). (\<forall>x \<in> set (remaining db r). version_key env x \<le> version_key env m)
                \<and> cur (od_objects db') (defaultTenant t, b, k) = (if is_marker m then None else Some (revived m)))"
proof -
  have r: "r \<in> set (od_objects db)" "resource_of r = (defaultTenant t, b, k)"
    using filter_hd [OF sel] by (simp_all add: is_version_def at_key_resource)
  note other = current_or_other [OF ok r(1), unfolded r(2), OF current]
  have next_current: "successor env db r x \<longleftrightarrow>
      (if r \<noteq> c then x = Some c
       else if remaining db r = [] then x = None
       else \<exists>m \<in> set (remaining db r). (\<forall>y \<in> set (remaining db r). version_key env y \<le> version_key env m)
              \<and> x = (if is_marker m then None else Some (revived m)))" for x
    using current by (simp add: successor_def other r(2) eq_commute [of r c])
  obtain db' e where run: "DeleteObjectVersion env db t b k v = (db', e)" by fastforce
  show ?thesis
    using delete_version_runs [OF ff ok sel, unfolded run next_current fst_conv snd_conv]
    unfolding run by (cases "o_ID r \<in> set (held_ids db)") (simp_all only: if_True if_False, blast)
qed

end
