(* ===== verification/Keyset_Pages.thy ===== *)
theory Keyset_Pages
  imports Main
begin

text \<open>
  Keyset pagination as the listing calls of \<open>internal/repository\<close> do it: fetch one row more than the
  page holds, hand out a page and, if a row is left over, the marker of the last row handed out.
  Locale \<open>paged\<close> is the contract a client that follows markers relies on; locale \<open>keyset\<close> is what makes
  a query with an ORDER BY and a comparison against the marker satisfy it.
\<close>

text \<open>A client that follows the markers, for at most \<open>n\<close> pages.\<close>

fun follow :: "('m \<Rightarrow> 'r list \<times> 'm option) \<Rightarrow> nat \<Rightarrow> 'm \<Rightarrow> 'r list" where
  "follow fetch 0 m = []"
| "follow fetch (Suc n) m = (case fetch m of (rs, None) \<Rightarrow> rs | (rs, Some m') \<Rightarrow> rs @ follow fetch n m')"

locale paged =
  fixes fetch :: "'m \<Rightarrow> 'r list \<times> 'm option" and rest :: "'m \<Rightarrow> 'r list" and limit :: nat and ok :: "'m \<Rightarrow> bool"
  assumes limit_pos: "0 < limit"
    and page: "ok m \<Longrightarrow> fst (fetch m) = take limit (rest m)"
    and last_page: "ok m \<Longrightarrow> length (rest m) \<le> limit \<Longrightarrow> snd (fetch m) = None"
    and next_page: "ok m \<Longrightarrow> limit < length (rest m) \<Longrightarrow> \<exists>m'. snd (fetch m) = Some m' \<and> ok m' \<and> rest m' = drop limit (rest m)"
begin

lemma follow_complete: "ok m \<Longrightarrow> length (rest m) < n \<Longrightarrow> follow fetch n m = rest m"
proof (induction n arbitrary: m)
  case (Suc n)
  show ?case
  proof (cases "length (rest m) \<le> limit")
    case True
    then show ?thesis using page [OF Suc.prems(1)] last_page [OF Suc.prems(1)] by (auto split: prod.splits)
  next
    case False
    with next_page [OF Suc.prems(1)] obtain m' where m': "snd (fetch m) = Some m'" "ok m'" "rest m' = drop limit (rest m)" by auto
    have "length (rest m') < n" using m'(3) limit_pos False Suc.prems(2) by simp
    from Suc.IH [OF m'(2) this] m' page [OF Suc.prems(1)] show ?thesis by (auto split: prod.splits)
  qed
qed simp

lemma page_bound: "ok m \<Longrightarrow> length (fst (fetch m)) \<le> limit"
  by (simp add: page)

end

text \<open>One page from the rows after the marker; \<open>marker_of\<close> is the marker a row gives.\<close>

definition cut_page :: "('r \<Rightarrow> 'm) \<Rightarrow> nat \<Rightarrow> 'r list \<Rightarrow> 'r list \<times> 'm option" where
  "cut_page marker_of limit rs =
     (take limit rs, if length rs > limit then Some (marker_of (last (take limit rs))) else None)"

locale keyset =
  fixes rows :: "'r list" and after :: "'m \<Rightarrow> 'r \<Rightarrow> bool" and marker_of :: "'r \<Rightarrow> 'm" and limit :: nat and ok :: "'m \<Rightarrow> bool"
  assumes some_limit: "0 < limit"
    and ordered: "ok m \<Longrightarrow> sorted_wrt (\<lambda>x y. after (marker_of x) y) rows"
    and strict: "ok m \<Longrightarrow> x \<in> set rows \<Longrightarrow> y \<in> set rows \<Longrightarrow> x = y \<or> after (marker_of x) y \<Longrightarrow> \<not> after (marker_of y) x"
    and onward: "ok m \<Longrightarrow> x \<in> set rows \<Longrightarrow> y \<in> set rows \<Longrightarrow> after m x \<Longrightarrow> after (marker_of x) y \<Longrightarrow> after m y"
    and marker_ok: "ok m \<Longrightarrow> x \<in> set rows \<Longrightarrow> ok (marker_of x)"
begin

lemma after_last:
  assumes "ok m" "limit < length (filter (after m) rows)"
  shows "filter (after (marker_of (last (take limit (filter (after m) rows))))) rows = drop limit (filter (after m) rows)"
proof -
  let ?ys = "filter (after m) rows"
  let ?us = "butlast (take limit ?ys)" let ?x = "last (take limit ?ys)" let ?ds = "drop limit ?ys"
  have ne: "take limit ?ys \<noteq> []" using assms(2) some_limit by (auto simp flip: length_greater_0_conv simp del: length_greater_0_conv)
  have split: "?ys = ?us @ ?x # ?ds"
    using append_butlast_last_id [OF ne] append_take_drop_id [of limit ?ys] by (metis append.assoc append_Cons append_Nil)
  have mem: "z \<in> set rows" if "z \<in> set ?us \<union> {?x} \<union> set ?ds" for z
    using that arg_cong [OF split, of set] by auto
  have sorted: "sorted_wrt (\<lambda>x y. after (marker_of x) y) (?us @ ?x # ?ds)"
    using ordered [OF assms(1)] split sorted_wrt_filter by metis
  have "?x \<in> set ?ys" by (subst split) simp
  then have x: "after m ?x" by simp
  have "filter (after (marker_of ?x)) rows = filter (after (marker_of ?x)) ?ys"
  proof -
    have "after (marker_of ?x) y \<longleftrightarrow> after m y \<and> after (marker_of ?x) y" if "y \<in> set rows" for y
      using onward [OF assms(1) _ that x] mem [of ?x] by blast
    then show ?thesis unfolding filter_filter by (rule filter_cong [OF refl])
  qed
  also have "\<dots> = filter (after (marker_of ?x)) (?us @ ?x # ?ds)" using split by simp
  also have "\<dots> = ?ds"
  proof -
    have before: "\<not> after (marker_of ?x) u" if "u \<in> set ?us" for u
    proof -
      have "after (marker_of u) ?x" using that sorted by (simp add: sorted_wrt_append)
      then show ?thesis using strict [OF assms(1), of u ?x] mem that by blast
    qed
    have "after (marker_of ?x) d" if "d \<in> set ?ds" for d
      using that sorted by (simp add: sorted_wrt_append)
    then have "filter (after (marker_of ?x)) ?ds = ?ds" by (rule filter_True [OF ballI])
    moreover have "filter (after (marker_of ?x)) ?us = []" using before by (rule filter_False [OF ballI])
    moreover have "\<not> after (marker_of ?x) ?x" using strict [OF assms(1), of ?x ?x] mem by blast
    ultimately show ?thesis by simp
  qed
  finally show ?thesis .
qed

end

sublocale keyset \<subseteq> paged "\<lambda>m. cut_page marker_of limit (filter (after m) rows)" "\<lambda>m. filter (after m) rows" limit ok
proof
  fix m assume ok: "ok m" and more: "limit < length (filter (after m) rows)"
  have "last (take limit (filter (after m) rows)) \<in> set (take limit (filter (after m) rows))"
    using more some_limit by (intro last_in_set) auto
  then have "last (take limit (filter (after m) rows)) \<in> set rows" by (auto dest: in_set_takeD)
  with ok more show "\<exists>m'. snd (cut_page marker_of limit (filter (after m) rows)) = Some m' \<and> ok m'
      \<and> filter (after m') rows = drop limit (filter (after m) rows)"
    by (auto simp: cut_page_def after_last marker_ok [OF ok])
qed (auto simp: cut_page_def some_limit)

lemma follow_map: "follow (\<lambda>m. case fetch m of (rs, next_m) \<Rightarrow> (map f rs, next_m)) n m = map f (follow fetch n m)"
  by (induction n arbitrary: m) (auto split: prod.splits option.splits)

end
