(* ===== verification/Object_Listing.thy ===== *)
theory Object_Listing
  imports Object_Versions Keyset_Pages
begin

text \<open>
  \<open>internal/repository/sql_objects_list.go\<close> and the paginated listings of \<open>sql_objects_versions.go\<close>.
\<close>

section \<open>Prefix patterns\<close>

definition literalPrefixPattern :: "string \<Rightarrow> string" where
  "literalPrefixPattern prefix =
     concat (map (\<lambda>c. if c \<in> set ''!%_'' then [CHR ''!'', c] else [c]) prefix) @ ''%''"

text \<open>
  \<open>LIKE ... ESCAPE '!'\<close>.  \<open>%\<close> stands for any text, \<open>_\<close> for one character, \<open>!\<close> makes the next one literal.
  SQLite compares ASCII letters without case (the program does not set \<open>case_sensitive_like\<close>);
  PostgreSQL compares exactly.
\<close>

datatype like_tok = LChar char | LAny | LOne

fun like_tokens :: "string \<Rightarrow> like_tok list" where
  "like_tokens [] = []"
| "like_tokens [c] = (if c = CHR ''!'' then [] else if c = CHR ''%'' then [LAny] else if c = CHR ''_'' then [LOne] else [LChar c])"
| "like_tokens (c # d # s) =
     (if c = CHR ''!'' then LChar d # like_tokens s
      else (if c = CHR ''%'' then LAny else if c = CHR ''_'' then LOne else LChar c) # like_tokens (d # s))"

definition like_fold :: "sql_env \<Rightarrow> char \<Rightarrow> char" where
  "like_fold env c =
     (case dialect_of env of
        dialectPostgres \<Rightarrow> c
      | dialectSQLite \<Rightarrow> if 65 \<le> byte c \<and> byte c \<le> 90 then char_of (byte c + 32) else c)"

function like_match :: "sql_env \<Rightarrow> like_tok list \<Rightarrow> string \<Rightarrow> bool" where
  "like_match env [] s = (s = [])"
| "like_match env (LChar c # p) [] = False"
| "like_match env (LChar c # p) (d # s) = (like_fold env c = like_fold env d \<and> like_match env p s)"
| "like_match env (LOne # p) [] = False"
| "like_match env (LOne # p) (d # s) = like_match env p (drop (snd (decode_rune d s)) (d # s))"
| "like_match env (LAny # p) [] = like_match env p []"
| "like_match env (LAny # p) (d # s) = (like_match env p (d # s) \<or> like_match env (LAny # p) s)"
  by pat_completeness auto
termination
  by (relation "measure (\<lambda>(_, p, s). length p + length s)") (auto simp: less_Suc_eq_le diff_le_self le_diff_conv)

definition like :: "sql_env \<Rightarrow> string \<Rightarrow> string \<Rightarrow> bool" where
  "like env pat s = like_match env (like_tokens pat) s"

section \<open>Listing objects\<close>

record ListPage =
  lp_Objects :: "Object list"
  lp_NextMarker :: string
  lp_HasMore :: bool

definition list_limit :: "int \<Rightarrow> int" where
  "list_limit limit = (if limit \<le> 0 \<or> limit > 1000 then 1000 else limit)"

definition after_key :: "(string \<Rightarrow> string) \<Rightarrow> sql_env \<Rightarrow> string \<Rightarrow> string \<Rightarrow> bool" where
  "after_key coll env marker key \<longleftrightarrow> text_key coll env marker < text_key coll env key"

text \<open>The rows of a bucket with a prefix, \<open>ORDER BY key ASC\<close>.\<close>

definition bucket_rows ::
  "(string \<Rightarrow> string) \<Rightarrow> sql_env \<Rightarrow> (objects_row \<Rightarrow> bool) \<Rightarrow> objects_db \<Rightarrow> string \<Rightarrow> string \<Rightarrow> string \<Rightarrow> objects_row list" where
  "bucket_rows coll env p db tenant bucket prefix =
     sort_key (\<lambda>r. text_key coll env (o_Key r))
       (filter (\<lambda>r. o_TenantID r = tenant \<and> o_Bucket r = bucket \<and> p r \<and> like env (literalPrefixPattern prefix) (o_Key r)) (od_objects db))"

definition make_page :: "nat \<Rightarrow> Object list \<Rightarrow> ListPage" where
  "make_page limit objs =
     (if length objs > limit
      then \<lparr>lp_Objects = take limit objs, lp_NextMarker = o_Key (last (take limit objs)), lp_HasMore = True\<rparr>
      else \<lparr>lp_Objects = objs, lp_NextMarker = [], lp_HasMore = False\<rparr>)"

text \<open>Neither listing consults \<open>rows.Err()\<close>: \<open>broken\<close> as in \<open>StorageClassCounts\<close>.\<close>

definition list_page ::
  "(string \<Rightarrow> string) \<Rightarrow> sql_env \<Rightarrow> nat option \<Rightarrow> (objects_row \<Rightarrow> bool) \<Rightarrow> objects_db \<Rightarrow> string \<Rightarrow> string \<Rightarrow> string \<Rightarrow> string \<Rightarrow> int \<Rightarrow> ListPage" where
  "list_page coll env broken p db tenant bucket prefix marker limit0 =
     (let limit = list_limit limit0 in
      make_page (nat limit) (map scanObject (delivered broken (limit_rows (limit + 1)
        (filter (\<lambda>r. after_key coll env marker (o_Key r)) (bucket_rows coll env p db (defaultTenant tenant) bucket prefix))))))"

definition ListObjects ::
  "(string \<Rightarrow> string) \<Rightarrow> sql_env \<Rightarrow> nat option \<Rightarrow> objects_db \<Rightarrow> string \<Rightarrow> string \<Rightarrow> string \<Rightarrow> string \<Rightarrow> int \<Rightarrow> ListPage res" where
  "ListObjects coll env broken db tenant bucket prefix marker limit =
     stmt env ''list objects'' (stmt env ''scan objects'' (Inr (list_page coll env broken is_live db tenant bucket prefix marker limit)))"

definition ListDeletedObjects ::
  "(string \<Rightarrow> string) \<Rightarrow> sql_env \<Rightarrow> nat option \<Rightarrow> objects_db \<Rightarrow> string \<Rightarrow> string \<Rightarrow> string \<Rightarrow> string \<Rightarrow> int \<Rightarrow> ListPage res" where
  "ListDeletedObjects coll env broken db tenant bucket prefix marker limit =
     stmt env ''list deleted'' (stmt env ''scan deleted''
       (Inr (list_page coll env broken (\<lambda>r. \<not> is_live r) db tenant bucket prefix marker limit)))"

section \<open>Listing by tag\<close>

definition tag_match :: "string \<Rightarrow> string \<Rightarrow> Object \<Rightarrow> bool" where
  "tag_match tagKey tagValue obj \<longleftrightarrow>
     (case map_of (o_Tags obj) tagKey of None \<Rightarrow> False | Some v \<Rightarrow> tagValue = [] \<or> v = tagValue)"

text \<open>The inner loop: append matches, leave when there is one more than \<open>limit\<close>.\<close>

fun add_matches :: "nat \<Rightarrow> (Object \<Rightarrow> bool) \<Rightarrow> Object list \<Rightarrow> Object list \<Rightarrow> Object list" where
  "add_matches limit p [] matches = matches"
| "add_matches limit p (x # xs) matches =
     (if p x then (if length (matches @ [x]) > limit then matches @ [x] else add_matches limit p xs (matches @ [x]))
      else add_matches limit p xs matches)"

lemma page_marker_after:
  assumes "ListObjects coll env broken db tenant bucket prefix cursor limit = Inr page" "lp_HasMore page"
  shows "after_key coll env cursor (lp_NextMarker page) \<and> lp_NextMarker page \<in> o_Key ` set (od_objects db)"
proof -
  let ?n = "nat (list_limit limit)"
  let ?rows = "filter (\<lambda>r. after_key coll env cursor (o_Key r)) (bucket_rows coll env is_live db (defaultTenant tenant) bucket prefix)"
  let ?objs = "map scanObject (delivered broken (limit_rows (list_limit limit + 1) ?rows))"
  have page: "page = make_page ?n ?objs"
    using assms(1) by (simp add: ListObjects_def stmt_Inr list_page_def Let_def)
  with assms(2) have more: "length ?objs > ?n" and m: "lp_NextMarker page = o_Key (last (take ?n ?objs))"
    by (auto simp: make_page_def split: if_splits)
  have "take ?n ?objs \<noteq> []" using more by (auto simp: list_limit_def)
  then have "last (take ?n ?objs) \<in> set ?objs" by (metis in_set_takeD last_in_set)
  then obtain r where r: "r \<in> set (delivered broken (limit_rows (list_limit limit + 1) ?rows))" "last (take ?n ?objs) = scanObject r" by auto
  then have "r \<in> set ?rows" by (auto simp: delivered_def limit_rows_def split: option.splits dest!: in_set_takeD)
  then show ?thesis
    using m r(2) by (auto simp: bucket_rows_def scanObject_def Object.truncate_def)
qed

text \<open>
  The outer loop asks for raw pages of 1000 rows until there are enough matches, no more rows, or a
  marker that does not advance.  It ends because each marker lies behind the one before.
\<close>

function tag_scan ::
  "(string \<Rightarrow> string) \<Rightarrow> sql_env \<Rightarrow> (string \<Rightarrow> nat option) \<Rightarrow> objects_db \<Rightarrow> string \<Rightarrow> string \<Rightarrow> string \<Rightarrow> nat \<Rightarrow> (Object \<Rightarrow> bool) \<Rightarrow> string \<Rightarrow> Object list \<Rightarrow>
     Object list res" where
  "tag_scan coll env broken db tenant bucket prefix limit p cursor matches =
     (if length matches > limit then Inr matches
      else (case ListObjects coll env (broken cursor) db tenant bucket prefix cursor 1000 of
              Inl e \<Rightarrow> Inl e
            | Inr raw \<Rightarrow>
                (let matches' = add_matches limit p (lp_Objects raw) matches in
                 if length matches' > limit \<or> \<not> lp_HasMore raw then Inr matches'
                 else if lp_NextMarker raw = [] \<or> lp_NextMarker raw = cursor then Inr matches'
                 else tag_scan coll env broken db tenant bucket prefix limit p (lp_NextMarker raw) matches')))"
  by pat_completeness auto
termination
proof (relation "measure (\<lambda>(coll, env, broken, db, tenant, bucket, prefix, limit, p, cursor, matches).
    length (filter (\<lambda>r. after_key coll env cursor (o_Key r)) (od_objects db)))", simp, goal_cases)
  case (1 coll env broken db tenant bucket prefix limit p cursor matches raw matches')
  then have m: "after_key coll env cursor (lp_NextMarker raw)" "lp_NextMarker raw \<in> o_Key ` set (od_objects db)"
    using page_marker_after by auto
  let ?a = "\<lambda>r :: objects_row. after_key coll env cursor (o_Key r)" let ?b = "\<lambda>r :: objects_row. after_key coll env (lp_NextMarker raw) (o_Key r)"
  have sub: "?b r \<Longrightarrow> ?a r" for r using m(1) by (auto simp: after_key_def)
  obtain r where r: "r \<in> set (od_objects db)" "o_Key r = lp_NextMarker raw" using m(2) by auto
  then have "filter ?b (od_objects db) = filter ?b (filter ?a (od_objects db))" using sub by (auto intro: filter_cong)
  moreover have "length (filter ?b (filter ?a (od_objects db))) < length (filter ?a (od_objects db))"
    using r m(1) by (intro length_filter_less [of r]) (auto simp: after_key_def)
  ultimately show ?case by simp
qed

definition ListObjectsByTag ::
  "(string \<Rightarrow> string) \<Rightarrow> sql_env \<Rightarrow> (string \<Rightarrow> nat option) \<Rightarrow> objects_db \<Rightarrow> string \<Rightarrow> string \<Rightarrow> string \<Rightarrow> string \<Rightarrow> int \<Rightarrow> string \<Rightarrow> string \<Rightarrow> ListPage res" where
  "ListObjectsByTag coll env broken db tenant bucket prefix marker limit0 tagKey tagValue =
     (let limit = nat (list_limit limit0) in
      rbind (tag_scan coll env broken db tenant bucket prefix limit (tag_match tagKey tagValue) marker []) (\<lambda>matches.
      Inr (make_page limit matches)))"

section \<open>Listing versions\<close>

definition ListObjectVersionKeys ::
  "(string \<Rightarrow> string) \<Rightarrow> sql_env \<Rightarrow> objects_db \<Rightarrow> string \<Rightarrow> string \<Rightarrow> string \<Rightarrow> string \<Rightarrow> int \<Rightarrow> (string list \<times> string \<times> bool) res" where
  "ListObjectVersionKeys coll env db tenant bucket prefix marker limit0 =
     (let limit = list_limit limit0 in
      rbind (stmt env ''list version keys'' (Inr (limit_rows (limit + 1) (filter (after_key coll env marker)
        (sort_key (text_key coll env) (remdups (map o_Key (filter (\<lambda>r. o_TenantID r = defaultTenant tenant \<and> o_Bucket r = bucket
           \<and> like env (literalPrefixPattern prefix) (o_Key r)) (od_objects db))))))))) (\<lambda>keys.
      let hasMore = int (length keys) > limit; keys' = (if hasMore then take (nat limit) keys else keys) in
      Inr (keys', if hasMore then last keys' else [], hasMore)))"

record VersionListPage =
  vp_Versions :: "Object list"
  vp_NextVersionID :: string
  vp_HasMore :: bool

definition version_page :: "int \<Rightarrow> objects_row list \<Rightarrow> VersionListPage" where
  "version_page limit rows =
     (let out = map scanObject (limit_rows (limit + 1) rows); hasMore = int (length out) > limit;
          out' = (if hasMore then take (nat limit) out else out) in
      \<lparr>vp_Versions = out', vp_NextVersionID = (if hasMore \<and> out' \<noteq> [] then o_VersionID (last out') else []), vp_HasMore = hasMore\<rparr>)"

definition ListObjectVersionsWithOpts ::
  "sql_env \<Rightarrow> objects_db \<Rightarrow> string \<Rightarrow> string \<Rightarrow> string \<Rightarrow> string \<Rightarrow> int \<Rightarrow> VersionListPage res" where
  "ListObjectVersionsWithOpts env db tenant0 bucket key marker limit0 =
     (let tenant = defaultTenant tenant0; limit = list_limit limit0;
          rows = newest_first env (filter (at_key tenant bucket key) (od_objects db)) in
      if marker = [] then stmt env ''list versions'' (Inr (version_page limit rows))
      else rbind (not_found (query_row env ''select marker'' (filter (is_version tenant bucket key marker) (od_objects db)))) (\<lambda>m.
        stmt env ''list versions'' (Inr (version_page limit
          (filter (\<lambda>r. time_key env (o_UpdatedAt r) < time_key env (o_UpdatedAt m)
                       \<or> o_UpdatedAt r = o_UpdatedAt m \<and> o_ID r < o_ID m) rows)))))"

end
