(* ===== verification/Object_Examples.thy ===== *)
theory Object_Examples
  imports Object_Versions
begin

text \<open>Concrete tables: instances of the theorems on objects, and what the code does in corner cases.\<close>

abbreviation lite :: sql_env where "lite \<equiv> no_faults dialectSQLite"

definition object_demo :: "int \<Rightarrow> string \<Rightarrow> instant \<Rightarrow> instant option \<Rightarrow> bool \<Rightarrow> objects_row" where
  "object_demo i v u d tomb =
     \<lparr>o_ID = i, o_TenantID = ''acme'', o_Bucket = ''docs'', o_Key = ''a.txt'', o_VersionID = v, o_Backend = ''local'', o_StorageKey = v,
      o_Size = 5, o_ETag = ''e'', o_ContentType = ''text/plain'', o_Metadata = [], o_Tags = [], o_StorageClass = ''STANDARD'',
      o_CreatedAt = u, o_UpdatedAt = u, o_DeletedAt = d, o_LockedUntil = None, o_VersionTombstone = tomb, o_acl = ''private''\<rparr>"

abbreviation sec :: "int \<Rightarrow> instant" where "sec n \<equiv> n * 1000000000"

definition demo_access :: access_db where
  "demo_access = \<lparr>departments = [], department_members = [], resource_acls = [], shares = [], public_assets = []\<rparr>"

definition demo_hold :: hold_row where
  "demo_hold = \<lparr>hr_object_id = 1, hr_tenant_id = ''acme'', hr_version_id = Some ''v1'', hr_hold_reason = ''case 7'', hr_created_by = ''legal'',
     hr_created_at = sec 9\<rparr>"

text \<open>Three versions, the first under hold; and the same key after a soft deletion of the second version.\<close>

definition demo_odb :: objects_db where
  "demo_odb = \<lparr>od_objects = [object_demo 1 ''v1'' (sec 1) (Some (sec 2)) True, object_demo 2 ''v2'' (sec 2) (Some (sec 3)) True,
       object_demo 3 ''v3'' (sec 3) None False],
     od_holds = [demo_hold], od_access = demo_access, od_seq = 3\<rparr>"

definition deleted_odb :: objects_db where
  "deleted_odb = \<lparr>od_objects = [object_demo 1 ''v1'' (sec 1) (Some (sec 2)) True, object_demo 2 ''v2'' (sec 2) (Some (sec 5)) False],
     od_holds = [], od_access = demo_access, od_seq = 2\<rparr>"

definition demo_object :: Object where
  "demo_object = \<lparr>o_ID = 0, o_TenantID = ''acme'', o_Bucket = ''docs'', o_Key = ''a.txt'', o_VersionID = ''v4'', o_Backend = ''local'',
     o_StorageKey = ''v4'', o_Size = 6, o_ETag = ''f'', o_ContentType = ''text/plain'', o_Metadata = [], o_Tags = [], o_StorageClass = ''STANDARD'',
     o_CreatedAt = 0, o_UpdatedAt = 0, o_DeletedAt = None, o_LockedUntil = None, o_VersionTombstone = False\<rparr>"

lemma object_demo_simps [simp]:
  "o_ID (object_demo i v u d tomb) = i" "o_VersionID (object_demo i v u d tomb) = v" "o_UpdatedAt (object_demo i v u d tomb) = u"
  "o_DeletedAt (object_demo i v u d tomb) = d" "o_VersionTombstone (object_demo i v u d tomb) = tomb"
  "resource_of (object_demo i v u d tomb) = (''acme'', ''docs'', ''a.txt'')" "is_live (object_demo i v u d tomb) \<longleftrightarrow> d = None"
  "o_Metadata (object_demo i v u d tomb) = []" "o_TenantID (object_demo i v u d tomb) = ''acme''" "o_Bucket (object_demo i v u d tomb) = ''docs''"
  "o_Key (object_demo i v u d tomb) = ''a.txt''"
  by (simp_all add: object_demo_def resource_of_def is_live_def)

lemma demo_odb_simps [simp]:
  "od_objects demo_odb = [object_demo 1 ''v1'' (sec 1) (Some (sec 2)) True, object_demo 2 ''v2'' (sec 2) (Some (sec 3)) True,
     object_demo 3 ''v3'' (sec 3) None False]"
  "held_ids demo_odb = [1]" "od_seq demo_odb = 3"
  by (simp_all add: demo_odb_def held_ids_def demo_hold_def)

lemma demo_odb_ok [simp]: "objects_ok demo_odb"
  by (simp add: objects_ok_held one_live_def)

lemma demo_object_simps [simp]: "o_TenantID demo_object = ''acme''" "o_Bucket demo_object = ''docs''" "o_Key demo_object = ''a.txt''"
  by (simp_all add: demo_object_def)

lemma demo_storable [simp]: "storable lite demo_object"
  by (simp add: storable_def demo_object_def valid_kv_def nullableTime_def flexNullTime_def)

abbreviation demo_clock :: clocks where "demo_clock \<equiv> \<lparr>go_now = sec 4, db_now = sec 4\<rparr>"

section \<open>Instances\<close>

lemma object_table_invariant_witness:
  "objects_ok demo_odb \<and> objects_ok (run_ops (\<lambda>m _. m) [(lite, OpUpsert demo_clock ''v4'' demo_object), (lite, OpHardDelete ''acme'' ''docs'' ''a.txt'')] demo_odb)"
  using object_table_invariant [of demo_odb] demo_odb_ok by blast

lemma held_object_survives_witness:
  "\<exists>r' \<in> set (od_objects (run_ops (\<lambda>m _. m) [(lite, OpHardDelete ''acme'' ''docs'' ''a.txt'')] demo_odb)). o_ID r' = 1"
  using held_object_survives [of demo_odb "object_demo 1 ''v1'' (sec 1) (Some (sec 2)) True" "[(lite, OpHardDelete ''acme'' ''docs'' ''a.txt'')]" "\<lambda>m _. m"]
  by auto

lemma object_table_refines_map_witness:
  "current (fst (SoftDeleteObject lite demo_clock demo_odb ''acme'' ''docs'' ''a.txt'')) = (current demo_odb)((''acme'', ''docs'', ''a.txt'') := None)"
proof -
  have t: "defaultTenant ''acme'' = ''acme''" by (simp add: defaultTenant_def)
  show ?thesis
    using object_table_refines_map [OF fault_free_no_faults demo_odb_ok, of dialectSQLite demo_clock "''v4''" demo_object "''acme''" "''docs''" "''a.txt''"]
    unfolding t by (elim conjE)
qed

lemma put_get_roundtrip_witness:
  "GetObject lite (fst (InsertObjectVersion lite demo_clock ''v4'' demo_odb demo_object)) ''acme'' ''docs'' ''a.txt''
     = snd (InsertObjectVersion lite demo_clock ''v4'' demo_odb demo_object)"
  using put_get_roundtrip [of lite demo_odb demo_object demo_clock "''v4''"] by simp

lemma demo_get_v2: "GetObjectVersion lite demo_odb ''acme'' ''docs'' ''a.txt'' ''v2'' = Inr (scanObject (object_demo 2 ''v2'' (sec 2) (Some (sec 3)) True))"
  by (simp add: GetObjectVersion_def get_object_def not_found_def query_row_def is_version_def at_key_resource defaultTenant_def)

lemma versions_stay_readable_witness:
  "\<exists>x. GetObjectVersion lite (fst (InsertObjectVersion lite demo_clock ''v4'' demo_odb demo_object)) ''acme'' ''docs'' ''a.txt'' ''v2'' = Inr x"
  using versions_stay_readable [OF fault_free_no_faults demo_get_v2, of demo_clock "''v4''" demo_object] by (elim conjE insertE) blast+

lemma DeleteObjectVersion_successor_witness:
  "\<exists>db'. DeleteObjectVersion lite demo_odb ''acme'' ''docs'' ''a.txt'' ''v3'' = (db', None) \<and>
     cur (od_objects db') (''acme'', ''docs'', ''a.txt'') = Some (revived (object_demo 2 ''v2'' (sec 2) (Some (sec 3)) True))"
proof -
  have marker: "\<not> is_marker (object_demo i v u d f)" for i v u d f
    by (simp add: is_marker_def unmarshalKV_def put_entries_def kv_get_def object_demo_def)
  have later: "\<not> time_key lite (sec 2) < time_key lite (sec 1)" "time_key lite (sec 2) \<noteq> time_key lite (sec 1)" by code_simp+
  show ?thesis
    using DeleteObjectVersion_successor [of lite demo_odb "''acme''" "''docs''" "''a.txt''" "''v3''" "object_demo 3 ''v3'' (sec 3) None False" "[]" "object_demo 3 ''v3'' (sec 3) None False"] later
    by (auto simp: is_version_def at_key_resource defaultTenant_def remaining_def marker version_key_def)
qed

section \<open>Corner cases\<close>

text \<open>
  \<open>DeleteObjectVersion\<close> promotes whenever no row is live, not only when the deleted row was the current
  version: deleting an old version of a soft-deleted object makes the deleted object current again.
\<close>

lemma version_delete_undeletes:
  "GetObject lite deleted_odb ''acme'' ''docs'' ''a.txt'' = Inl (Sentinel ErrNotFound)"
  "\<exists>x. GetObject lite (fst (DeleteObjectVersion lite deleted_odb ''acme'' ''docs'' ''a.txt'' ''v1'')) ''acme'' ''docs'' ''a.txt'' = Inr x \<and> o_VersionID x = ''v2''"
proof -
  define r1 where "r1 = object_demo 1 ''v1'' (sec 1) (Some (sec 2)) True"
  define r2 where "r2 = object_demo 2 ''v2'' (sec 2) (Some (sec 5)) False"
  have r1 [simp]: "o_ID r1 = 1" "o_VersionID r1 = ''v1''" "resource_of r1 = (''acme'', ''docs'', ''a.txt'')" "\<not> is_live r1" by (simp_all add: r1_def)
  have r2 [simp]: "o_ID r2 = 2" "o_VersionID r2 = ''v2''" "resource_of r2 = (''acme'', ''docs'', ''a.txt'')" "\<not> is_live r2" "\<not> is_marker r2"
    by (simp_all add: r2_def is_marker_def unmarshalKV_def put_entries_def kv_get_def)
  have rows: "od_objects deleted_odb = [r1, r2]" and held: "held_ids deleted_odb = []" and seq: "od_seq deleted_odb = 2"
    by (simp_all add: deleted_odb_def held_ids_def r1_def r2_def)
  have ok: "objects_ok deleted_odb" by (simp add: objects_ok_held one_live_def rows held seq)
  have rem: "remaining deleted_odb r1 = [r2]" by (simp add: remaining_def rows)
  show "GetObject lite deleted_odb ''acme'' ''docs'' ''a.txt'' = Inl (Sentinel ErrNotFound)"
    by (simp add: GetObject_current current_def rows defaultTenant_def)
  have "filter (is_version (defaultTenant ''acme'') ''docs'' ''a.txt'' ''v1'') (od_objects deleted_odb) = [r1]"
    by (simp add: rows is_version_def at_key_resource defaultTenant_def)
  from delete_version_runs [OF fault_free_no_faults ok this, of dialectSQLite] held
  have "successor lite deleted_odb r1 (cur (od_objects (fst (DeleteObjectVersion lite deleted_odb ''acme'' ''docs'' ''a.txt'' ''v1''))) (''acme'', ''docs'', ''a.txt''))"
    by (simp add: defaultTenant_def)
  then show "\<exists>x. GetObject lite (fst (DeleteObjectVersion lite deleted_odb ''acme'' ''docs'' ''a.txt'' ''v1'')) ''acme'' ''docs'' ''a.txt'' = Inr x \<and> o_VersionID x = ''v2''"
    by (simp add: successor_def rem GetObject_current current_def defaultTenant_def scanObject_def Object.truncate_def)
qed

text \<open>
  \<open>UpdateObjectTagsByID\<close> moves \<open>updated_at\<close>, by which versions are ordered: tagging the oldest version
  makes it the first of the listing and the one a later deletion of the current version promotes.
\<close>

lemma tagging_reorders_versions:
  "newest_first lite (od_objects (fst (UpdateObjectTagsByID lite demo_clock demo_odb 1 [(''k'', ''v'')])))
     = [(object_demo 1 ''v1'' (sec 1) (Some (sec 2)) True)\<lparr>o_Tags := [(''k'', ''v'')], o_UpdatedAt := sec 4\<rparr>,
        object_demo 3 ''v3'' (sec 3) None False, object_demo 2 ''v2'' (sec 2) (Some (sec 3)) True]"
proof -
  have j: "jsonOrEmpty [(''k'', ''v'')] = [(''k'', ''v'')]"
    by (simp add: jsonOrEmpty_def json_string_valid visible_ascii_text(1) visible_ascii_def byte_def)
  have f: "fault lite l = None" for l by (simp add: no_faults_def)
  show ?thesis
    by (simp add: UpdateObjectTagsByID_def update_found_def f set_rows_def has_id_def newest_first_def version_key_def time_key_def
        stamp_def j rfc3339nano_def)
qed

text \<open>
  \<open>StorageClassCounts\<close> overwrites: rows of the empty class and rows of class STANDARD share an entry, and
  only the count of the group that is read last survives.
\<close>

definition classes_odb :: objects_db where
  "classes_odb = demo_odb\<lparr>od_objects := [(object_demo 1 ''v1'' (sec 1) None False)\<lparr>o_StorageClass := []\<rparr>,
     (object_demo 2 ''v2'' (sec 2) None False)\<lparr>o_Key := ''b.txt'', o_StorageClass := []\<rparr>, (object_demo 3 ''v3'' (sec 3) None False)\<lparr>o_Key := ''c.txt''\<rparr>]\<rparr>"

lemma class_counts_lose_rows: "StorageClassCounts lite None classes_odb ''acme'' = Inr [(''STANDARD'', 1)]"
  by (simp add: StorageClassCounts_def classes_odb_def delivered_def group_counts_def class_name_def object_demo_def is_live_def defaultTenant_def less_char_def)

text \<open>A hold on all versions (\<open>version_id\<close> NULL) is refused by PostgreSQL and never deduplicated by SQLite.\<close>

lemma hold_on_all_versions:
  "lh_VersionID l = [] \<Longrightarrow> fault_free env \<Longrightarrow> dialect_of env = dialectPostgres \<Longrightarrow> PutLegalHold env now db l = (db, Some (PgError ''23502'' []))"
  "lh_VersionID l = [] \<Longrightarrow> fault_free env \<Longrightarrow> dialect_of env = dialectSQLite \<Longrightarrow> lh_ObjectID l \<in> o_ID ` set (od_objects db) \<Longrightarrow>
     length (od_holds (fst (PutLegalHold env now (fst (PutLegalHold env now db l)) l))) = length (od_holds db) + 2"
  by (auto simp: PutLegalHold_def run_def put_hold_def nullVersionID_def hold_conflict_def list_ex_iff has_id_def)

end
