(* ===== verification/Object_Pages.thy ===== *)
theory Object_Pages
  imports Object_Listing Object_Examples
begin

text \<open>
  The listings are keyset listings: following the markers of \<open>ListObjects\<close>, \<open>ListObjectVersionKeys\<close>,
  \<open>ListObjectVersionsWithOpts\<close> and \<open>ListObjectsByTag\<close> yields every row once, in order.
\<close>

section \<open>Prefixes\<close>

lemma like_tokens_plain: "c \<notin> set ''!%_'' \<Longrightarrow> like_tokens (c # s) = LChar c # like_tokens s"
  by (cases s) auto

lemma like_tokens_prefix: "like_tokens (literalPrefixPattern p) = map LChar p @ [LAny]"
proof (induction p)
  case (Cons c p)
  let ?rest = "literalPrefixPattern p"
  show ?case
  proof (cases "c \<in> set ''!%_''")
    case True
    then have "literalPrefixPattern (c # p) = CHR ''!'' # c # ?rest" by (simp add: literalPrefixPattern_def)
    with Cons.IH show ?thesis by simp
  next
    case False
    then have "literalPrefixPattern (c # p) = c # ?rest" by (simp add: literalPrefixPattern_def)
    with Cons.IH like_tokens_plain [OF False] show ?thesis by simp
  qed
qed (simp add: literalPrefixPattern_def)

lemma like_any [simp]: "like_match env [LAny] s"
  by (induction s) auto

lemma like_match_prefix:
  "like_match env (map LChar p @ [LAny]) s \<longleftrightarrow> has_prefix (map (like_fold env) s) (map (like_fold env) p)"
proof (induction p arbitrary: s)
  case (Cons c p)
  then show ?case by (cases s) (auto simp: has_prefix_def)
qed (simp add: has_prefix_def)

text \<open>Exactly the prefix on PostgreSQL; up to the case of ASCII letters on SQLite.\<close>

lemma like_prefix: "like env (literalPrefixPattern p) s \<longleftrightarrow> has_prefix (map (like_fold env) s) (map (like_fold env) p)"
  by (simp add: like_def like_tokens_prefix like_match_prefix)

lemma like_prefix_postgres: "dialect_of env = dialectPostgres \<Longrightarrow> like env (literalPrefixPattern p) s \<longleftrightarrow> has_prefix s p"
  by (simp add: like_prefix like_fold_def [abs_def])

section \<open>Objects\<close>

text \<open>A collation orders strings like an injective sort key, the empty string first.\<close>

definition collation :: "(string \<Rightarrow> string) \<Rightarrow> bool" where
  "collation coll \<longleftrightarrow> inj coll \<and> coll [] = []"

lemma text_key_inject: "collation coll \<Longrightarrow> text_key coll env a = text_key coll env b \<longleftrightarrow> a = b"
  by (auto simp: text_key_def collation_def inj_eq split: dialect.splits)

lemma not_after_empty: "collation coll \<Longrightarrow> \<not> after_key coll env m []"
  by (simp add: after_key_def text_key_def collation_def split: dialect.splits)

lemma sorted_strict:
  assumes "sorted (map f xs)" "distinct (map f xs)"
  shows "sorted_wrt (\<lambda>x y. f x < f y) xs"
proof -
  have "sorted_wrt (<) (map f xs)" using assms by (simp add: strict_sorted_iff)
  then show ?thesis by (simp add: sorted_wrt_map)
qed

lemma bucket_rows_strict:
  assumes "collation coll" "objects_ok db"
  shows "sorted_wrt (\<lambda>x y. after_key coll env (o_Key x) (o_Key y)) (bucket_rows coll env is_live db t b p)"
proof -
  let ?f = "\<lambda>r. text_key coll env (o_Key r)"
  let ?q = "\<lambda>r. o_TenantID r = t \<and> o_Bucket r = b \<and> is_live r \<and> like env (literalPrefixPattern p) (o_Key r)"
  have "inj_on resource_of (set (filter is_live (od_objects db)))" "distinct (filter is_live (od_objects db))"
    using assms(2) by (simp_all add: objects_ok_def one_live_def distinct_map)
  then have "inj_on ?f (set (filter ?q (od_objects db)))" "distinct (od_objects db)"
    using assms by (auto simp: inj_on_def resource_of_def text_key_inject objects_ok_def distinct_map)
  then have "distinct (map ?f (bucket_rows coll env is_live db t b p))"
    by (simp add: bucket_rows_def distinct_map)
  then show ?thesis
    unfolding after_key_def by (intro sorted_strict) (simp_all add: bucket_rows_def)
qed

interpretation object_pages: keyset "bucket_rows coll env is_live db t b p" "\<lambda>m r. after_key coll env m (o_Key r)" o_Key
    "nat (list_limit limit)" "\<lambda>_. collation coll \<and> objects_ok db" for coll env db t b p limit
  by unfold_locales (auto simp: list_limit_def bucket_rows_strict [unfolded after_key_def] after_key_def)

definition fetch_of :: "ListPage res \<Rightarrow> Object list \<times> string option" where
  "fetch_of pg = (case pg of Inl e \<Rightarrow> ([], None) | Inr p \<Rightarrow> (lp_Objects p, if lp_HasMore p then Some (lp_NextMarker p) else None))"

lemma fetch_make_page:
  assumes "0 < n" "\<And>r. o_Key (scanObject r) = o_Key r"
  shows "fetch_of (Inr (make_page n (map scanObject (take (Suc n) rows)))) = (case cut_page o_Key n rows of (rs, m) \<Rightarrow> (map scanObject rs, m))"
proof -
  have "last (map scanObject (take n rows)) = scanObject (last (take n rows))" if "n < length rows"
    using that assms(1) by (intro last_map) auto
  with assms show ?thesis by (auto simp: fetch_of_def make_page_def cut_page_def take_map min_def)
qed

lemma scan_Key [simp]: "o_Key (scanObject r) = o_Key r" "o_VersionID (scanObject r) = o_VersionID r"
  by (simp_all add: scanObject_def Object.truncate_def)

lemma ListObjects_fetch:
  "fault_free env \<Longrightarrow> fetch_of (ListObjects coll env None db tenant bucket prefix m limit) =
     (case cut_page o_Key (nat (list_limit limit)) (filter (\<lambda>r. after_key coll env m (o_Key r)) (bucket_rows coll env is_live db (defaultTenant tenant) bucket prefix))
      of (rs, m) \<Rightarrow> (map scanObject rs, m))"
proof -
  assume "fault_free env"
  moreover have n: "nat (list_limit limit + 1) = Suc (nat (list_limit limit))" "0 < nat (list_limit limit)" by (auto simp: list_limit_def)
  ultimately show ?thesis
    using fetch_make_page [OF n(2)] by (simp add: ListObjects_def list_page_def Let_def delivered_def limit_rows_def n(1))
qed

text \<open>What a prefix means to a client: PostgreSQL compares bytes, SQLite does not tell the case of ASCII letters.\<close>

definition key_starts :: "sql_env \<Rightarrow> string \<Rightarrow> string \<Rightarrow> bool" where
  "key_starts env prefix key \<longleftrightarrow>
     (let lower = (\<lambda>c. if 65 \<le> byte c \<and> byte c \<le> 90 then char_of (byte c + 32) else c :: char) in
      case dialect_of env of
        dialectPostgres \<Rightarrow> has_prefix key prefix
      | dialectSQLite \<Rightarrow> has_prefix (map lower key) (map lower prefix))"

lemma like_key_starts: "like env (literalPrefixPattern p) s \<longleftrightarrow> key_starts env p s"
  by (simp add: like_prefix key_starts_def like_fold_def [abs_def] Let_def split: dialect.split)

text \<open>
  C39. Pagination of \<open>ListObjects\<close> is complete: a client that follows \<open>NextMarker\<close> until \<open>HasMore\<close> is false
  receives, in key order and once each, exactly the live objects of the tenant and bucket whose key starts
  with the prefix (whatever wildcard characters the prefix has; on SQLite without regard to the case of
  ASCII letters) and lies behind the marker it started with, for every page size the server uses.
\<close>

theorem ListObjects_pages_complete:
  assumes "fault_free env" "objects_ok db" "collation coll" "length (od_objects db) < n"
  shows "follow (\<lambda>m. fetch_of (ListObjects coll env None db tenant bucket prefix m limit)) n marker =
    map scanObject (sort_key (\<lambda>r. text_key coll env (o_Key r))
      (filter (\<lambda>r. is_live r \<and> o_TenantID r = defaultTenant tenant \<and> o_Bucket r = bucket \<and> key_starts env prefix (o_Key r)
         \<and> text_key coll env marker < text_key coll env (o_Key r)) (od_objects db)))"
proof -
  let ?rest = "filter (\<lambda>r. after_key coll env marker (o_Key r)) (bucket_rows coll env is_live db (defaultTenant tenant) bucket prefix)"
  have "length ?rest \<le> length (bucket_rows coll env is_live db (defaultTenant tenant) bucket prefix)" by (rule length_filter_le)
  also have "\<dots> \<le> length (od_objects db)" by (simp add: bucket_rows_def)
  finally have "length ?rest < n" using assms(4) by simp
  from object_pages.follow_complete [OF conjI [OF assms(3,2)] this, of limit]
  have "follow (\<lambda>m. fetch_of (ListObjects coll env None db tenant bucket prefix m limit)) n marker = map scanObject ?rest"
    by (simp add: ListObjects_fetch [OF assms(1)] follow_map)
  moreover have "?rest = sort_key (\<lambda>r. text_key coll env (o_Key r))
      (filter (\<lambda>r. is_live r \<and> o_TenantID r = defaultTenant tenant \<and> o_Bucket r = bucket \<and> key_starts env prefix (o_Key r)
         \<and> text_key coll env marker < text_key coll env (o_Key r)) (od_objects db))"
    unfolding bucket_rows_def filter_sort filter_filter
    by (intro arg_cong [where f = "sort_key _"] filter_cong) (auto simp: like_key_starts after_key_def)
  ultimately show ?thesis by simp
qed

section \<open>Keys with versions\<close>

definition version_keys :: "(string \<Rightarrow> string) \<Rightarrow> sql_env \<Rightarrow> objects_db \<Rightarrow> string \<Rightarrow> string \<Rightarrow> string \<Rightarrow> string list" where
  "version_keys coll env db tenant bucket prefix =
     sort_key (text_key coll env) (remdups (map o_Key (filter (\<lambda>r. o_TenantID r = tenant \<and> o_Bucket r = bucket
       \<and> like env (literalPrefixPattern prefix) (o_Key r)) (od_objects db))))"

lemma version_keys_strict:
  assumes "collation coll"
  shows "sorted_wrt (\<lambda>x y. text_key coll env x < text_key coll env y) (version_keys coll env db t b p)"
proof -
  have "inj_on (text_key coll env) A" for A using assms by (auto simp: inj_on_def text_key_inject)
  then show ?thesis by (intro sorted_strict) (simp_all add: version_keys_def distinct_map)
qed

interpretation key_pages: keyset "version_keys coll env db t b p" "after_key coll env" "\<lambda>k. k"
    "nat (list_limit limit)" "\<lambda>_. collation coll" for coll env db t b p limit
  by unfold_locales (auto simp: list_limit_def version_keys_strict after_key_def)

definition fetch_keys :: "(string list \<times> string \<times> bool) res \<Rightarrow> string list \<times> string option" where
  "fetch_keys pg = (case pg of Inl e \<Rightarrow> ([], None) | Inr (ks, m, hasMore) \<Rightarrow> (ks, if hasMore then Some m else None))"

lemma ListObjectVersionKeys_fetch:
  assumes "fault_free env"
  shows "fetch_keys (ListObjectVersionKeys coll env db tenant bucket prefix m limit) =
     cut_page (\<lambda>k. k) (nat (list_limit limit)) (filter (after_key coll env m) (version_keys coll env db (defaultTenant tenant) bucket prefix))"
proof -
  have n: "nat (list_limit limit + 1) = Suc (nat (list_limit limit))" "0 < list_limit limit" by (auto simp: list_limit_def)
  show ?thesis
    using assms n(2)
    by (auto simp: fetch_keys_def ListObjectVersionKeys_def Let_def cut_page_def limit_rows_def n(1) version_keys_def [symmetric] min_def)
qed

section \<open>Versions of a key\<close>

text \<open>The version ids of a key name its rows.\<close>

definition versions_named :: "objects_db \<Rightarrow> string \<Rightarrow> string \<Rightarrow> string \<Rightarrow> bool" where
  "versions_named db tenant bucket key \<longleftrightarrow> distinct (map o_ID (od_objects db))
     \<and> distinct (map o_VersionID (filter (at_key tenant bucket key) (od_objects db)))
     \<and> [] \<notin> set (map o_VersionID (filter (at_key tenant bucket key) (od_objects db)))"

definition after_version :: "sql_env \<Rightarrow> objects_db \<Rightarrow> string \<Rightarrow> string \<Rightarrow> string \<Rightarrow> string \<Rightarrow> objects_row \<Rightarrow> bool" where
  "after_version env db tenant bucket key v r \<longleftrightarrow>
     v = [] \<or> (case filter (is_version tenant bucket key v) (od_objects db) of [] \<Rightarrow> False | m # _ \<Rightarrow> version_key env r < version_key env m)"

definition known_version :: "objects_db \<Rightarrow> string \<Rightarrow> string \<Rightarrow> string \<Rightarrow> string \<Rightarrow> bool" where
  "known_version db tenant bucket key v \<longleftrightarrow> v = [] \<or> (\<exists>r \<in> set (od_objects db). is_version tenant bucket key v r)"

abbreviation key_rows :: "objects_db \<Rightarrow> string \<Rightarrow> string \<Rightarrow> string \<Rightarrow> objects_row list" where
  "key_rows db tenant bucket key \<equiv> filter (at_key tenant bucket key) (od_objects db)"

lemma named_row:
  assumes "versions_named db t b k" "x \<in> set (key_rows db t b k)"
  shows "filter (is_version t b k (o_VersionID x)) (od_objects db) = [x]" "o_VersionID x \<noteq> []"
proof -
  have "filter (is_version t b k (o_VersionID x)) (od_objects db) = filter (\<lambda>y. o_VersionID y = o_VersionID x) (key_rows db t b k)"
    by (auto simp: is_version_def intro: filter_cong)
  also have "\<dots> = [x]" using assms filter_key_unique [of o_VersionID "key_rows db t b k" x] by (simp add: versions_named_def)
  finally show "filter (is_version t b k (o_VersionID x)) (od_objects db) = [x]" .
  show "o_VersionID x \<noteq> []" using assms by (force simp: versions_named_def)
qed

lemma after_named:
  "versions_named db t b k \<Longrightarrow> x \<in> set (key_rows db t b k) \<Longrightarrow> after_version env db t b k (o_VersionID x) y \<longleftrightarrow> version_key env y < version_key env x"
  using named_row [of db t b k x] by (simp add: after_version_def)

lemma newest_first_strict:
  assumes "versions_named db t b k"
  shows "sorted_wrt (\<lambda>x y. version_key env y < version_key env x) (newest_first env (key_rows db t b k))"
proof -
  have "distinct (map o_ID (key_rows db t b k))" using assms by (simp add: versions_named_def distinct_map_filter)
  then have "distinct (map (version_key env) (key_rows db t b k))"
    by (auto simp: distinct_map inj_on_def version_key_def)
  then have "sorted_wrt (\<lambda>x y. version_key env x < version_key env y) (sort_key (version_key env) (key_rows db t b k))"
    by (intro sorted_strict) (simp_all add: distinct_map)
  then show ?thesis by (simp add: newest_first_def sorted_wrt_rev)
qed

interpretation version_pages: keyset "newest_first env (key_rows db t b k)" "after_version env db t b k" o_VersionID
    "nat (list_limit limit)" "\<lambda>v. versions_named db t b k \<and> known_version db t b k v" for env db t b k limit
proof unfold_locales
  show "0 < nat (list_limit limit)" by (auto simp: list_limit_def)
next
  fix v assume v: "versions_named db t b k \<and> known_version db t b k v"
  show "sorted_wrt (\<lambda>x y. after_version env db t b k (o_VersionID x) y) (newest_first env (key_rows db t b k))"
    by (rule sorted_wrt_mono_rel [OF _ newest_first_strict [OF conjunct1 [OF v]]]) (use v in \<open>auto simp: newest_first_set after_named\<close>)
  show "\<not> after_version env db t b k (o_VersionID y) x"
    if "x \<in> set (newest_first env (key_rows db t b k))" "y \<in> set (newest_first env (key_rows db t b k))"
      "x = y \<or> after_version env db t b k (o_VersionID x) y" for x y
    using that v by (auto simp: newest_first_set after_named)
  show "after_version env db t b k v y"
    if "x \<in> set (newest_first env (key_rows db t b k))" "y \<in> set (newest_first env (key_rows db t b k))"
      "after_version env db t b k v x" "after_version env db t b k (o_VersionID x) y" for x y
    using that v by (auto simp: newest_first_set after_named after_version_def [of _ _ _ _ _ v] split: list.splits)
  show "versions_named db t b k \<and> known_version db t b k (o_VersionID x)" if "x \<in> set (newest_first env (key_rows db t b k))" for x
    using that v by (auto simp: newest_first_set known_version_def is_version_def)
qed

definition fetch_versions :: "VersionListPage res \<Rightarrow> Object list \<times> string option" where
  "fetch_versions pg = (case pg of Inl e \<Rightarrow> ([], None) | Inr p \<Rightarrow> (vp_Versions p, if vp_HasMore p then Some (vp_NextVersionID p) else None))"

lemma fetch_version_page:
  "fetch_versions (Inr (version_page (list_limit limit) rows)) =
     (case cut_page o_VersionID (nat (list_limit limit)) rows of (rs, m) \<Rightarrow> (map scanObject rs, m))"
proof -
  let ?n = "nat (list_limit limit)"
  have n: "nat (list_limit limit + 1) = Suc ?n" "0 < ?n" "int ?n = list_limit limit" by (auto simp: list_limit_def)
  have "last (map scanObject (take ?n rows)) = scanObject (last (take ?n rows))" if "?n < length rows"
    using that n(2) by (intro last_map) auto
  with n show ?thesis
    by (auto simp: fetch_versions_def version_page_def Let_def cut_page_def limit_rows_def take_map min_def)
qed

lemma ListObjectVersionsWithOpts_fetch:
  assumes "fault_free env" "known_version db (defaultTenant tenant) bucket key v"
  shows "fetch_versions (ListObjectVersionsWithOpts env db tenant bucket key v limit) =
     (case cut_page o_VersionID (nat (list_limit limit)) (filter (after_version env db (defaultTenant tenant) bucket key v)
        (newest_first env (key_rows db (defaultTenant tenant) bucket key))) of (rs, m) \<Rightarrow> (map scanObject rs, m))"
proof (cases "v = []")
  case True
  with assms(1) show ?thesis
    by (simp add: ListObjectVersionsWithOpts_def Let_def fetch_version_page after_version_def [abs_def])
next
  case False
  let ?t = "defaultTenant tenant"
  have "filter (is_version ?t bucket key v) (od_objects db) \<noteq> []"
    using assms(2) False by (auto simp: known_version_def filter_empty_conv)
  then obtain m ms where m: "filter (is_version ?t bucket key v) (od_objects db) = m # ms" by (meson neq_Nil_conv)
  have "after_version env db ?t bucket key v =
      (\<lambda>r. time_key env (o_UpdatedAt r) < time_key env (o_UpdatedAt m) \<or> o_UpdatedAt r = o_UpdatedAt m \<and> o_ID r < o_ID m)"
    using False by (auto simp: after_version_def m version_key_def le_less fun_eq_iff)
  with assms(1) False m show ?thesis
    by (simp add: ListObjectVersionsWithOpts_def Let_def query_row_def not_found_def fetch_version_page)
qed

lemma follow_cong:
  assumes "P m" "\<And>m. P m \<Longrightarrow> f m = g m" "\<And>m m'. P m \<Longrightarrow> snd (g m) = Some m' \<Longrightarrow> P m'"
  shows "follow f n m = follow g n m"
  using assms(1)
proof (induction n arbitrary: m)
  case (Suc n)
  from assms(2) [OF Suc.prems] assms(3) [OF Suc.prems] Suc.IH show ?case by (auto split: prod.splits option.splits)
qed simp

text \<open>
  C40. Paging through the versions of a key with \<open>ListObjectVersionsWithOpts\<close>, following
  \<open>NextVersionID\<close> from the start, yields the same list as the unpaged \<open>ListObjectVersions\<close>, whatever the
  page size, also when several versions share an update time.
\<close>

theorem version_pages_equal_listing:
  assumes "fault_free env" "versions_named db (defaultTenant tenant) bucket key" "length (od_objects db) < n"
  shows "Inr (follow (\<lambda>v. fetch_versions (ListObjectVersionsWithOpts env db tenant bucket key v limit)) n []) = ListObjectVersions env db tenant bucket key"
proof -
  let ?t = "defaultTenant tenant" let ?rows = "newest_first env (key_rows db ?t bucket key)"
  let ?fetch = "\<lambda>v. cut_page o_VersionID (nat (list_limit limit)) (filter (after_version env db ?t bucket key v) ?rows)"
  let ?ok = "\<lambda>v. versions_named db ?t bucket key \<and> known_version db ?t bucket key v"
  have start: "?ok []" using assms(2) by (simp add: known_version_def)
  have ok: "?ok v'" if v: "?ok v" "snd (?fetch v) = Some v'" for v v'
  proof -
    have "nat (list_limit limit) < length (filter (after_version env db ?t bucket key v) ?rows)"
      using v(2) by (auto simp: cut_page_def split: if_splits)
    from version_pages.next_page [OF v(1) this] v(2) show ?thesis by auto
  qed
  have "follow (\<lambda>v. fetch_versions (ListObjectVersionsWithOpts env db tenant bucket key v limit)) n [] =
      follow (\<lambda>v. case ?fetch v of (rs, m) \<Rightarrow> (map scanObject rs, m)) n []"
    by (rule follow_cong [where P = ?ok, OF start]) (use ok in \<open>auto simp: ListObjectVersionsWithOpts_fetch [OF assms(1)] split: prod.splits\<close>)
  also have "\<dots> = map scanObject (follow ?fetch n [])" by (rule follow_map)
  also have "follow ?fetch n [] = filter (after_version env db ?t bucket key []) ?rows"
  proof (rule version_pages.follow_complete [OF start])
    have "length (filter (after_version env db ?t bucket key []) ?rows) \<le> length (key_rows db ?t bucket key)"
      by (rule order.trans [OF length_filter_le]) (simp add: newest_first_def)
    also have "\<dots> \<le> length (od_objects db)" by (rule length_filter_le)
    finally show "length (filter (after_version env db ?t bucket key []) ?rows) < n" using assms(3) by simp
  qed
  also have "filter (after_version env db ?t bucket key []) ?rows = ?rows" by (simp add: after_version_def)
  finally show ?thesis using assms(1) by (simp add: ListObjectVersions_def)
qed

section \<open>Objects with a tag\<close>

lemma add_matches_take: "length ms \<le> limit \<Longrightarrow> add_matches limit p xs ms = take (Suc limit) (ms @ filter p xs)"
proof (induction xs arbitrary: ms)
  case (Cons x xs)
  show ?case
  proof (cases "p x \<and> length ms = limit")
    case True
    then show ?thesis by simp
  next
    case False
    with Cons.prems Cons.IH [of "if p x then ms @ [x] else ms"] show ?thesis by (auto simp: Suc_diff_le Suc_diff_Suc)
  qed
qed simp

lemma tag_scan_spec:
  assumes ff: "fault_free env" and ok: "collation coll" "objects_ok db" and len: "length ms \<le> limit"
  shows "tag_scan coll env (\<lambda>_. None) db tenant bucket prefix limit p cursor ms =
    Inr (take (Suc limit) (ms @ filter p (map scanObject (filter (\<lambda>r. after_key coll env cursor (o_Key r))
      (bucket_rows coll env is_live db (defaultTenant tenant) bucket prefix)))))"
  using len
proof (induction "length (filter (\<lambda>r. after_key coll env cursor (o_Key r)) (bucket_rows coll env is_live db (defaultTenant tenant) bucket prefix))"
    arbitrary: cursor ms rule: less_induct)
  case less
  let ?rows = "bucket_rows coll env is_live db (defaultTenant tenant) bucket prefix"
  let ?rest = "\<lambda>m. filter (\<lambda>r. after_key coll env m (o_Key r)) ?rows"
  obtain raw where raw: "ListObjects coll env None db tenant bucket prefix cursor 1000 = Inr raw"
    using ff by (simp add: ListObjects_def)
  have fetch: "(lp_Objects raw, if lp_HasMore raw then Some (lp_NextMarker raw) else None)
      = (case cut_page o_Key 1000 (?rest cursor) of (rs, m) \<Rightarrow> (map scanObject rs, m))"
    using ListObjects_fetch [OF ff, of coll db tenant bucket prefix cursor 1000] raw by (simp add: fetch_of_def list_limit_def)
  then have objs: "lp_Objects raw = map scanObject (take 1000 (?rest cursor))"
    and more: "lp_HasMore raw \<longleftrightarrow> 1000 < length (?rest cursor)"
    by (auto simp: cut_page_def split: if_splits)
  let ?ms = "add_matches limit p (lp_Objects raw) ms"
  have ms: "?ms = take (Suc limit) (ms @ filter p (map scanObject (take 1000 (?rest cursor))))"
    using add_matches_take [OF less.prems] objs by simp
  have step: "tag_scan coll env (\<lambda>_. None) db tenant bucket prefix limit p cursor ms =
      (if length ?ms > limit \<or> \<not> lp_HasMore raw then Inr ?ms
       else if lp_NextMarker raw = [] \<or> lp_NextMarker raw = cursor then Inr ?ms
       else tag_scan coll env (\<lambda>_. None) db tenant bucket prefix limit p (lp_NextMarker raw) ?ms)"
    using less.prems raw by (simp add: tag_scan.simps [of _ _ _ _ _ _ _ _ _ cursor] Let_def del: tag_scan.simps)
  show ?case
  proof (cases "lp_HasMore raw")
    case False
    then have "take 1000 (?rest cursor) = ?rest cursor" using more by simp
    with ms step False show ?thesis by simp
  next
    case hm: True
    have after: "after_key coll env cursor (lp_NextMarker raw)" using page_marker_after [OF raw hm] by simp
    then have nonempty: "lp_NextMarker raw \<noteq> []" "lp_NextMarker raw \<noteq> cursor"
      using not_after_empty [OF ok(1)] by (auto simp: after_key_def)
    have "1000 < length (?rest cursor)" using hm more by simp
    then have next_rest: "?rest (lp_NextMarker raw) = drop 1000 (?rest cursor)"
      using object_pages.after_last [of coll db 1000 env cursor "defaultTenant tenant" bucket prefix] ok fetch hm
      by (simp add: list_limit_def cut_page_def)
    have split: "filter p (map scanObject (?rest cursor)) =
        filter p (map scanObject (take 1000 (?rest cursor))) @ filter p (map scanObject (drop 1000 (?rest cursor)))"
      by (metis append_take_drop_id filter_append map_append)
    show ?thesis
    proof (cases "length ?ms > limit")
      case True
      then have "Suc limit \<le> length (ms @ filter p (map scanObject (take 1000 (?rest cursor))))" using ms by simp
      then have "take (Suc limit) (ms @ filter p (map scanObject (?rest cursor))) = ?ms" unfolding split ms by simp
      with True step show ?thesis by simp
    next
      case False
      then have whole: "?ms = ms @ filter p (map scanObject (take 1000 (?rest cursor)))" using ms by simp
      have "length (?rest (lp_NextMarker raw)) < length (?rest cursor)" using next_rest \<open>1000 < length (?rest cursor)\<close> by simp
      from less.hyps [OF this, of ?ms] False nonempty hm step next_rest whole split show ?thesis by simp
    qed
  qed
qed

lemma fetch_make_page_objects:
  "0 < n \<Longrightarrow> fetch_of (Inr (make_page n (take (Suc n) objs))) = cut_page o_Key n objs"
  by (auto simp: fetch_of_def make_page_def cut_page_def min_def)

text \<open>
  \<open>ListObjectsByTag\<close> always returns, and its page is the first \<open>limit\<close> of exactly those objects of
  the listing that carry the tag (with the value, if one is given), however sparse they are among the
  raw pages it scans; it reports more precisely when more such objects exist, and its marker is the
  key of the last object handed out.
\<close>

lemma ListObjectsByTag_exact:
  assumes "fault_free env" "objects_ok db" "collation coll"
  shows "\<exists>pg. ListObjectsByTag coll env (\<lambda>_. None) db tenant bucket prefix marker limit tagKey tagValue = Inr pg \<and>
    fetch_of (Inr pg) = cut_page o_Key (nat (list_limit limit)) (filter (tag_match tagKey tagValue) (map scanObject
      (filter (\<lambda>r. after_key coll env marker (o_Key r)) (bucket_rows coll env is_live db (defaultTenant tenant) bucket prefix))))"
proof -
  have "0 < nat (list_limit limit)" by (auto simp: list_limit_def)
  from fetch_make_page_objects [OF this] show ?thesis
    by (simp add: ListObjectsByTag_def Let_def tag_scan_spec [OF assms(1,3,2)] del: tag_scan.simps)
qed

section \<open>Instances and corner cases\<close>

lemma collation_id [simp]: "collation (\<lambda>s. s)"
  by (simp add: collation_def inj_def)

lemma ListObjects_pages_complete_witness:
  "follow (\<lambda>m. fetch_of (ListObjects (\<lambda>s. s) lite None demo_odb ''acme'' ''docs'' ''a'' m 1)) 4 [] =
     map scanObject (sort_key (\<lambda>r. text_key (\<lambda>s. s) lite (o_Key r)) (filter (\<lambda>r. is_live r \<and> o_TenantID r = ''acme'' \<and> o_Bucket r = ''docs''
       \<and> key_starts lite ''a'' (o_Key r) \<and> text_key (\<lambda>s. s) lite [] < text_key (\<lambda>s. s) lite (o_Key r)) (od_objects demo_odb)))"
  using ListObjects_pages_complete [OF fault_free_no_faults demo_odb_ok collation_id, of 4 dialectSQLite "''acme''" "''docs''" "''a''" 1 "[]"]
  by (simp add: defaultTenant_def)

lemma demo_named: "versions_named demo_odb (defaultTenant ''acme'') ''docs'' ''a.txt''"
  by (simp add: versions_named_def at_key_resource defaultTenant_def)

lemma version_pages_equal_listing_witness:
  "Inr (follow (\<lambda>v. fetch_versions (ListObjectVersionsWithOpts lite demo_odb ''acme'' ''docs'' ''a.txt'' v 2)) 4 []) = ListObjectVersions lite demo_odb ''acme'' ''docs'' ''a.txt''"
  using version_pages_equal_listing [OF fault_free_no_faults demo_named] by simp

lemma ListObjectsByTag_exact_witness:
  "\<exists>pg. ListObjectsByTag (\<lambda>s. s) lite (\<lambda>_. None) demo_odb ''acme'' ''docs'' [] [] 10 ''team'' [] = Inr pg"
  using ListObjectsByTag_exact [OF fault_free_no_faults demo_odb_ok collation_id] by blast

text \<open>
  \<open>ListDeletedObjects\<close> pages by key, but deleted rows are not unique per key: the rows of a key that do
  not fit on the page with its first row are skipped by the next page.
\<close>

lemma deleted_pages_skip_rows:
  "length (filter (\<lambda>r. \<not> is_live r) (od_objects demo_odb)) = 2"
  "map o_VersionID (follow (\<lambda>m. fetch_of (ListDeletedObjects (\<lambda>s. s) lite None demo_odb ''acme'' ''docs'' [] m 1)) n []) \<in> {[], [''v1'']}"
proof -
  show "length (filter (\<lambda>r. \<not> is_live r) (od_objects demo_odb)) = 2" by simp
  let ?fetch = "\<lambda>m. fetch_of (ListDeletedObjects (\<lambda>s. s) lite None demo_odb ''acme'' ''docs'' [] m 1)"
  let ?r = "object_demo 1 ''v1'' (sec 1) (Some (sec 2)) True"
  have rows: "bucket_rows (\<lambda>s. s) lite (\<lambda>r. \<not> is_live r) demo_odb (defaultTenant ''acme'') ''docs'' [] =
      [?r, object_demo 2 ''v2'' (sec 2) (Some (sec 3)) True]"
    by (simp add: bucket_rows_def like_prefix has_prefix_def defaultTenant_def text_key_def)
  have "?fetch [] = ([scanObject ?r], Some ''a.txt'')" "?fetch ''a.txt'' = ([], None)"
    by (simp_all add: ListDeletedObjects_def list_page_def Let_def rows after_key_def text_key_def list_limit_def limit_rows_def delivered_def
        make_page_def fetch_of_def numeral_2_eq_2)
  then show "map o_VersionID (follow ?fetch n []) \<in> {[], [''v1'']}"
    by (cases n; cases "n - 1") auto
qed

text \<open>On SQLite the prefix does not distinguish the case of letters.\<close>

lemma prefix_ignores_case: "like lite (literalPrefixPattern ''A.T'') ''a.txt''" "\<not> like (no_faults dialectPostgres) (literalPrefixPattern ''A.T'') ''a.txt''"
  by (simp_all add: like_prefix like_fold_def byte_def has_prefix_def char_of_def bit_0)

text \<open>A cursor that breaks is reported as the end of the listing.\<close>

lemma broken_listing_looks_complete:
  assumes "fault_free env" "int n \<le> list_limit limit"
  shows "\<exists>pg. ListObjects coll env (Some n) db tenant bucket prefix marker limit = Inr pg \<and> \<not> lp_HasMore pg \<and> length (lp_Objects pg) \<le> n"
  using assms by (auto simp: ListObjects_def list_page_def Let_def delivered_def make_page_def)

end
