(* ===== verification/Go_Codec.thy ===== *)
theory Go_Codec
  imports Object_Rows
begin

text \<open>
  \<open>encoding/hex\<close> and the standard alphabet of \<open>encoding/base64\<close>, as the storage and service packages
  use them: encoding, and decoding with its errors; and the decimal texts of \<open>strconv\<close>.
\<close>

section \<open>Hexadecimal\<close>

definition hex_encode :: "string \<Rightarrow> string" where
  "hex_encode s = concat (map (\<lambda>c. [hex_digit (byte c div 16), hex_digit (byte c mod 16)]) s)"

definition hex_value :: "char \<Rightarrow> nat option" where
  "hex_value c =
     (case index_byte ''0123456789abcdef'' c of
        Some v \<Rightarrow> Some v
      | None \<Rightarrow> index_byte ''0123456789ABCDEF'' c)"

fun hex_decode :: "string \<Rightarrow> string res" where
  "hex_decode [] = Inr []"
| "hex_decode [c] = Inl (NewError ''encoding/hex'')"
| "hex_decode (c # d # s) =
     (case (hex_value c, hex_value d) of
        (Some h, Some l) \<Rightarrow> rbind (hex_decode s) (\<lambda>r. Inr (char_of (16 * h + l) # r))
      | _ \<Rightarrow> Inl (NewError ''encoding/hex''))"

section \<open>Base64\<close>

definition b64_alphabet :: string where
  "b64_alphabet = ''ABCDEFGHIJKLMNOPQRSTUVWXYZabcdefghijklmnopqrstuvwxyz0123456789+/''"

definition b64_char :: "nat \<Rightarrow> char" where
  "b64_char v = b64_alphabet ! v"

definition b64_value :: "char \<Rightarrow> nat option" where
  "b64_value c = index_byte b64_alphabet c"

fun b64_encode :: "string \<Rightarrow> string" where
  "b64_encode [] = []"
| "b64_encode [x] = (let n = byte x in [b64_char (n div 4), b64_char (n mod 4 * 16), CHR ''='', CHR ''=''])"
| "b64_encode [x, y] =
     (let n = byte x * 256 + byte y in
      [b64_char (n div 1024), b64_char (n div 16 mod 64), b64_char (n mod 16 * 4), CHR ''=''])"
| "b64_encode (x # y # z # s) =
     (let n = byte x * 65536 + byte y * 256 + byte z in
      b64_char (n div 262144) # b64_char (n div 4096 mod 64) # b64_char (n div 64 mod 64) # b64_char (n mod 64) # b64_encode s)"

text \<open>\<open>DecodeString\<close> skips line breaks; bits left over before the padding are not checked.\<close>

abbreviation b64_corrupt :: "'a res" where
  "b64_corrupt \<equiv> Inl (NewError ''illegal base64 data'')"

fun b64_quads :: "string \<Rightarrow> string res" where
  "b64_quads [] = Inr []"
| "b64_quads (a # b # c # d # s) =
     (case (b64_value a, b64_value b) of
        (Some v1, Some v2) \<Rightarrow>
          if d = CHR ''='' \<and> c = CHR ''='' then
            (if s = [] then Inr [char_of (v1 * 4 + v2 div 16)] else b64_corrupt)
          else (case b64_value c of
                  None \<Rightarrow> b64_corrupt
                | Some v3 \<Rightarrow>
                    if d = CHR ''='' then
                      (if s = [] then (let n = v1 * 1024 + v2 * 16 + v3 div 4 in Inr [char_of (n div 256), char_of (n mod 256)])
                       else b64_corrupt)
                    else (case b64_value d of
                            None \<Rightarrow> b64_corrupt
                          | Some v4 \<Rightarrow>
                              (let n = v1 * 262144 + v2 * 4096 + v3 * 64 + v4 in
                               rbind (b64_quads s) (\<lambda>r. Inr (char_of (n div 65536) # char_of (n div 256 mod 256) # char_of (n mod 256) # r)))))
      | _ \<Rightarrow> b64_corrupt)"
| "b64_quads s = b64_corrupt"

definition b64_decode :: "string \<Rightarrow> string res" where
  "b64_decode s = b64_quads (filter (\<lambda>c. byte c \<noteq> 10 \<and> byte c \<noteq> 13) s)"

section \<open>Round trips\<close>

lemma byte_less [simp]: "byte c < 256"
  by (simp add: byte_def)

lemma char_of_byte [simp]: "char_of (byte c) = c"
  by (simp add: byte_def)

lemma char_of_low [simp]: "char_of (a * 256 + byte y) = y"
proof -
  have "char_of (a * 256 + byte y) = char_of ((a * 256 + byte y) mod 256)" by (simp only: char_of_mod_256)
  also have "(a * 256 + byte y) mod 256 = byte y" by simp
  finally show ?thesis by simp
qed

lemma hex_value_digit: "v < 16 \<Longrightarrow> hex_value (hex_digit v) = Some v"
proof -
  have "list_all (\<lambda>v. hex_value (hex_digit v) = Some v) [0..<16]" by code_simp
  then show "v < 16 \<Longrightarrow> hex_value (hex_digit v) = Some v" by (simp add: list_all_iff)
qed

lemma hex_round_trip [simp]: "hex_decode (hex_encode s) = Inr s"
proof (induction s)
  case (Cons c s)
  have "byte c div 16 < 16" "byte c mod 16 < 16" by (simp_all add: less_mult_imp_div_less)
  moreover have "char_of (16 * (byte c div 16) + byte c mod 16) = c" by (simp only: mult_div_mod_eq char_of_byte)
  ultimately show ?case using Cons by (simp add: hex_encode_def hex_value_digit)
qed (simp add: hex_encode_def)

lemma length_hex_encode [simp]: "length (hex_encode s) = 2 * length s"
  by (induction s) (simp_all add: hex_encode_def)

lemma hex_encode_inject [simp]: "hex_encode s = hex_encode t \<longleftrightarrow> s = t"
  by (metis hex_round_trip sum.inject(2))

lemma b64_char_facts:
  assumes "v < 64"
  shows "b64_value (b64_char v) = Some v" "b64_char v \<noteq> CHR ''=''" "byte (b64_char v) \<noteq> 10" "byte (b64_char v) \<noteq> 13"
proof -
  have "list_all (\<lambda>v. b64_value (b64_char v) = Some v \<and> b64_char v \<noteq> CHR ''='' \<and> byte (b64_char v) \<noteq> 10 \<and> byte (b64_char v) \<noteq> 13) [0..<64]"
    by code_simp
  then show "b64_value (b64_char v) = Some v" "b64_char v \<noteq> CHR ''=''" "byte (b64_char v) \<noteq> 10" "byte (b64_char v) \<noteq> 13"
    using assms by (simp_all add: list_all_iff)
qed

lemma b64_encode_no_breaks: "filter (\<lambda>c. byte c \<noteq> 10 \<and> byte c \<noteq> 13) (b64_encode s) = b64_encode s"
proof (induction s rule: b64_encode.induct)
  case (2 x)
  have "byte x div 4 < 64" "byte x mod 4 * 16 < 64" using byte_less [of x] by linarith+
  then show ?case by (simp add: Let_def b64_char_facts) (simp add: byte_def)
next
  case (3 x y)
  have "(byte x * 256 + byte y) div 1024 < 64" using byte_less [of x] byte_less [of y] by linarith
  moreover have "(byte x * 256 + byte y) mod 16 * 4 < 64" by linarith
  ultimately show ?case by (simp add: Let_def b64_char_facts) (simp add: byte_def)
next
  case (4 x y z s)
  have "(byte x * 65536 + byte y * 256 + byte z) div 262144 < 64"
    using byte_less [of x] byte_less [of y] byte_less [of z] by linarith
  with 4 show ?case by (simp add: Let_def b64_char_facts)
qed simp

lemma sextets2: "(n :: nat) div 1024 * 1024 + n div 16 mod 64 * 16 + n mod 16 * 4 div 4 = n"
proof -
  have "n div 16 = n div 1024 * 64 + n div 16 mod 64" using div_mult_mod_eq [of "n div 16" 64] by (simp add: div_mult2_eq [symmetric])
  moreover have "n = n div 16 * 16 + n mod 16" by simp
  moreover have "n mod 16 * 4 div 4 = n mod 16" by simp
  ultimately show ?thesis by linarith
qed

lemma sextets3: "(n :: nat) div 262144 * 262144 + n div 4096 mod 64 * 4096 + n div 64 mod 64 * 64 + n mod 64 = n"
proof -
  have "n div 4096 = n div 262144 * 64 + n div 4096 mod 64" using div_mult_mod_eq [of "n div 4096" 64] by (simp add: div_mult2_eq [symmetric])
  moreover have "n div 64 = n div 4096 * 64 + n div 64 mod 64" using div_mult_mod_eq [of "n div 64" 64] by (simp add: div_mult2_eq [symmetric])
  moreover have "n = n div 64 * 64 + n mod 64" by simp
  ultimately show ?thesis by linarith
qed

lemma b64_quads_encode: "b64_quads (b64_encode s) = Inr s"
proof (induction s rule: b64_encode.induct)
  case (2 x)
  have "byte x div 4 < 64" "byte x mod 4 * 16 < 64" using byte_less [of x] by linarith+
  then show ?case by (simp add: Let_def b64_char_facts)
next
  case (3 x y)
  let ?n = "byte x * 256 + byte y"
  have lt: "?n div 1024 < 64" "?n mod 16 * 4 < 64" using byte_less [of x] byte_less [of y] by linarith+
  note sextets2 [of ?n]
  moreover have "?n div 256 = byte x" "?n mod 256 = byte y" using byte_less [of y] by (simp_all add: div_mult_self3 mod_mult_self3)
  ultimately show ?case using lt by (simp add: Let_def b64_char_facts)
next
  case (4 x y z s)
  let ?n = "byte x * 65536 + byte y * 256 + byte z"
  have lt: "?n div 262144 < 64" using byte_less [of x] byte_less [of y] byte_less [of z] by linarith
  have m: "?n = (byte x * 256 + byte y) * 256 + byte z" by simp
  have top: "?n div 65536 = byte x" using byte_less [of y] byte_less [of z] by linarith
  have "?n div 256 = byte x * 256 + byte y" using byte_less [of z] by linarith
  then have mid: "char_of (?n div 256) = y" by simp
  have low: "char_of ?n = z" unfolding m by (rule char_of_low)
  show ?case using lt 4 top mid low by (simp add: Let_def b64_char_facts sextets3 [of ?n])
qed simp

lemma b64_round_trip [simp]: "b64_decode (b64_encode s) = Inr s"
  by (simp add: b64_decode_def b64_encode_no_breaks b64_quads_encode)

lemma b64_encode_Nil [simp]: "b64_encode s = [] \<longleftrightarrow> s = []"
  by (cases s rule: b64_encode.cases) (simp_all add: Let_def)

lemma b64_encode_inject [simp]: "b64_encode s = b64_encode t \<longleftrightarrow> s = t"
  by (metis b64_round_trip sum.inject(2))

text \<open>Encoded text is visible ASCII.\<close>

lemma visible_append [simp]: "visible_ascii (s @ t) \<longleftrightarrow> visible_ascii s \<and> visible_ascii t"
  by (simp add: visible_ascii_def)

lemma visible_Cons: "visible_ascii (c # s) \<longleftrightarrow> (0x21 \<le> byte c \<and> byte c < 0x7F) \<and> visible_ascii s"
  by (simp add: visible_ascii_def)

lemma b64_char_visible: "v < 64 \<Longrightarrow> 0x21 \<le> byte (b64_char v) \<and> byte (b64_char v) < 0x7F"
proof -
  have "list_all (\<lambda>v. 0x21 \<le> byte (b64_char v) \<and> byte (b64_char v) < 0x7F) [0..<64]" by code_simp
  then show "v < 64 \<Longrightarrow> 0x21 \<le> byte (b64_char v) \<and> byte (b64_char v) < 0x7F" by (simp add: list_all_iff)
qed

lemma visible_b64: "visible_ascii (b64_encode s)"
proof (induction s rule: b64_encode.induct)
  case 1
  then show ?case by (simp add: visible_ascii_def)
next
  case (2 x)
  have "byte x div 4 < 64" "byte x mod 4 * 16 < 64" using byte_less [of x] by linarith+
  from this [THEN b64_char_visible] show ?case by (simp add: Let_def visible_ascii_def) (simp add: byte_def)
next
  case (3 x y)
  have "(byte x * 256 + byte y) div 1024 < 64" "(byte x * 256 + byte y) mod 16 * 4 < 64" "(byte x * 256 + byte y) div 16 mod 64 < 64"
    using byte_less [of x] byte_less [of y] by linarith+
  from this [THEN b64_char_visible] show ?case by (simp add: Let_def visible_ascii_def) (simp add: byte_def)
next
  case (4 x y z s)
  let ?n = "byte x * 65536 + byte y * 256 + byte z"
  have "?n div 262144 < 64" "?n div 4096 mod 64 < 64" "?n div 64 mod 64 < 64" "?n mod 64 < 64"
    using byte_less [of x] byte_less [of y] byte_less [of z] by (linarith, simp_all)
  from this [THEN b64_char_visible] 4 show ?case by (simp add: Let_def visible_Cons)
qed

lemma hex_digit_visible: "v < 16 \<Longrightarrow> 0x21 \<le> byte (hex_digit v) \<and> byte (hex_digit v) < 0x7F"
proof -
  have "list_all (\<lambda>v. 0x21 \<le> byte (hex_digit v) \<and> byte (hex_digit v) < 0x7F) [0..<16]" by code_simp
  then show "v < 16 \<Longrightarrow> 0x21 \<le> byte (hex_digit v) \<and> byte (hex_digit v) < 0x7F" by (simp add: list_all_iff)
qed

lemma visible_hex: "visible_ascii (hex_encode s)"
proof (induction s)
  case (Cons c s)
  have "byte c div 16 < 16" "byte c mod 16 < 16" by (simp_all add: less_mult_imp_div_less)
  from this [THEN hex_digit_visible] Cons show ?case by (simp add: hex_encode_def visible_Cons)
qed (simp add: hex_encode_def visible_ascii_def)

lemmas valid_b64 [simp] = visible_ascii_text(1) [OF visible_b64]
lemmas valid_hex [simp] = visible_ascii_text(1) [OF visible_hex]

section \<open>Decimal numbers (\<open>%d\<close>)\<close>

fun decimal :: "nat \<Rightarrow> string" where
  "decimal n = (if n < 10 then [char_of (48 + n)] else decimal (n div 10) @ [char_of (48 + n mod 10)])"

declare decimal.simps [simp del]

definition int_text :: "int \<Rightarrow> string" where
  "int_text i = (if i < 0 then CHR ''-'' # decimal (nat (- i)) else decimal (nat i))"

end
