(* ===== verification/Envelope.thy ===== *)
theory Envelope
  imports Go_Codec
begin

text \<open>
  Envelope encryption of \<open>internal/storage/encrypt.go\<close>, the key sources of \<open>secret.go\<close> and the remote
  wrapper of \<open>kms.go\<close>.  AES-GCM, HMAC-SHA256, MD5 and the JSON of the two sidecar documents are the
  functions of a \<open>go_lib\<close>; \<open>lib_ok\<close> says what their documentation promises.  \<open>rnd\<close> answers the reads
  of \<open>crypto/rand\<close>, by the name of the variable they fill.
\<close>

section \<open>Libraries\<close>

record sseEnvelope =
  se_Alg :: string
  se_Wrap :: string
  se_Kid :: string
  se_Kek :: string
  se_IV :: string

record localMeta =
  lm_Key :: string
  lm_Size :: int
  lm_ETag :: string
  lm_ContentType :: string
  lm_LastModified :: instant
  lm_Metadata :: kv
  lm_Envelope :: string

record go_lib =
  gl_seal :: "string \<Rightarrow> string \<Rightarrow> string \<Rightarrow> string"
  gl_open :: "string \<Rightarrow> string \<Rightarrow> string \<Rightarrow> string res"
  gl_hmac :: "string \<Rightarrow> string \<Rightarrow> string"
  gl_md5 :: "string \<Rightarrow> string"
  gl_env_json :: "sseEnvelope \<Rightarrow> string"
  gl_env_parse :: "string \<Rightarrow> sseEnvelope res"
  gl_meta_json :: "localMeta \<Rightarrow> string"
  gl_meta_parse :: "string \<Rightarrow> localMeta res"

type_synonym rnd = "string \<Rightarrow> string res"

definition utf8_envelope :: "sseEnvelope \<Rightarrow> bool" where
  "utf8_envelope e \<longleftrightarrow> list_all valid_utf8 [se_Alg e, se_Wrap e, se_Kid e, se_Kek e, se_IV e]"

text \<open>
  The documents of which \<open>encoding/json\<close> promises a round trip: valid UTF-8, the entries of the map in the
  order of their keys, which is the order in which they are written and read, and a time whose year has
  four digits.
\<close>

definition json_time :: "instant \<Rightarrow> bool" where
  "json_time t \<longleftrightarrow> - 62167219200000000000 \<le> t \<and> t < 253402300800000000000"

definition utf8_meta :: "localMeta \<Rightarrow> bool" where
  "utf8_meta m \<longleftrightarrow> list_all valid_utf8 [lm_Key m, lm_ETag m, lm_ContentType m, lm_Envelope m] \<and> valid_kv (lm_Metadata m)
     \<and> sorted (map fst (lm_Metadata m)) \<and> json_time (lm_LastModified m)"

definition aes_key :: "string \<Rightarrow> bool" where
  "aes_key k \<longleftrightarrow> length k \<in> {16, 24, 32}"

definition lib_ok :: "go_lib \<Rightarrow> bool" where
  "lib_ok lib \<longleftrightarrow>
     (\<forall>k n p. aes_key k \<longrightarrow> length n = 12 \<longrightarrow>
        gl_open lib k n (gl_seal lib k n p) = Inr p \<and> length (gl_seal lib k n p) = length p + 16) \<and>
     (\<forall>k m. length (gl_hmac lib k m) = 32) \<and> (\<forall>m. length (gl_md5 lib m) = 16) \<and>
     (\<forall>e. utf8_envelope e \<longrightarrow> gl_env_parse lib (gl_env_json lib e) = Inr e \<and> gl_env_json lib e \<noteq> [] \<and> valid_utf8 (gl_env_json lib e)) \<and>
     (\<forall>m. utf8_meta m \<longrightarrow> gl_meta_parse lib (gl_meta_json lib m) = Inr m)"

section \<open>Key sources (\<open>secret.go\<close>)\<close>

abbreviation (input) masterKeyLen :: nat where "masterKeyLen \<equiv> 32"
abbreviation (input) ssecKeyID :: string where "ssecKeyID \<equiv> ''__ssec__''"

record SecretProvider =
  sp_Current :: "string \<times> string"
  sp_Resolve :: "string \<Rightarrow> string option"

record DataKeyWrapper =
  dw_WrapKey :: "string \<Rightarrow> (string \<times> string) res"
  dw_UnwrapKey :: "string \<Rightarrow> string \<Rightarrow> string res"

definition deriveSSEKey :: "go_lib \<Rightarrow> string \<Rightarrow> string" where
  "deriveSSEKey lib passphrase = gl_hmac lib ''aero-vault/sse/v1'' passphrase"

definition newEnvProvider :: "go_lib \<Rightarrow> string \<Rightarrow> SecretProvider res" where
  "newEnvProvider lib passphrase =
     (if passphrase = [] then Inl (NewError ''SSE master key is required'')
      else (let key = deriveSSEKey lib passphrase in
        Inr \<lparr>sp_Current = ([], key), sp_Resolve = (\<lambda>i. if i = [] then Some key else None)\<rparr>))"

record keyRingDoc =
  kd_Primary :: string
  kd_Keys :: kv

definition key_id_char :: "char \<Rightarrow> bool" where
  "key_id_char c \<longleftrightarrow> c \<in> set ''ABCDEFGHIJKLMNOPQRSTUVWXYZabcdefghijklmnopqrstuvwxyz0123456789._-''"

definition key_error :: "string \<times> string \<Rightarrow> gerr option" where
  "key_error e = (case e of (i, pass) \<Rightarrow> first_error
     [fails (i = []) (NewError ''key id is reserved''),
      fails (\<not> list_all key_id_char i) (NewError ''key id has invalid characters''),
      fails (pass = []) (NewError ''key has an empty passphrase'')])"

text \<open>\<open>newKeyRing\<close> on the parsed document; the loop visits the keys in any order.\<close>

definition newKeyRing :: "go_lib \<Rightarrow> keyRingDoc res \<Rightarrow> string \<Rightarrow> SecretProvider res" where
  "newKeyRing lib parsed legacyPassphrase =
     rbind (wrap_err (\<lambda>e. Errorf ''parse sse key ring'' [e]) parsed) (\<lambda>doc.
     case first_error
       ([fails (kd_Keys doc = []) (NewError ''no keys defined''),
         fails (kd_Primary doc = []) (NewError ''primary is required''),
         fails (map_of (kd_Keys doc) (kd_Primary doc) = None) (NewError ''primary is not in keys'')]
        @ map key_error (kd_Keys doc)) of
       Some e \<Rightarrow> Inl e
     | None \<Rightarrow>
        (let keys = (\<lambda>i. map_option (deriveSSEKey lib) (map_of (kd_Keys doc) i));
             legacy = (if legacyPassphrase \<noteq> [] then Some (deriveSSEKey lib legacyPassphrase) else None) in
         Inr \<lparr>sp_Current = (kd_Primary doc, case keys (kd_Primary doc) of Some k \<Rightarrow> k | None \<Rightarrow> []),
              sp_Resolve = (\<lambda>i. if i = [] then legacy else keys i)\<rparr>))"

definition newSSECProvider :: "string \<Rightarrow> SecretProvider" where
  "newSSECProvider key = \<lparr>sp_Current = (ssecKeyID, key), sp_Resolve = (\<lambda>i. if i = ssecKeyID then Some key else None)\<rparr>"

text \<open>\<open>httpKMS\<close> (\<open>kms.go\<close>): \<open>call path keyID text\<close> is the exchange with the endpoint, the response its two fields.\<close>

definition kms_WrapKey :: "(string \<Rightarrow> string \<Rightarrow> string \<Rightarrow> (string \<times> string) res) \<Rightarrow> string \<Rightarrow> string \<Rightarrow> (string \<times> string) res" where
  "kms_WrapKey call keyID dataKey =
     rbind (call ''/wrap'' keyID (b64_encode dataKey)) (\<lambda>(i, ciphertext).
     rbind (wrap_err (\<lambda>e. Errorf ''kms: decode ciphertext'' [e]) (b64_decode ciphertext)) (\<lambda>wrapped.
     if wrapped = [] then Inl (NewError ''kms: empty wrapped key in response'')
     else Inr (wrapped, if i = [] then keyID else i)))"

definition kms_UnwrapKey :: "(string \<Rightarrow> string \<Rightarrow> string \<Rightarrow> (string \<times> string) res) \<Rightarrow> string \<Rightarrow> string \<Rightarrow> string res" where
  "kms_UnwrapKey call wrapped keyID =
     rbind (call ''/unwrap'' keyID (b64_encode wrapped)) (\<lambda>(_, plaintext).
     rbind (wrap_err (\<lambda>e. Errorf ''kms: decode plaintext'' [e]) (b64_decode plaintext)) (\<lambda>dataKey.
     if length dataKey \<noteq> masterKeyLen then Inl (NewError ''kms: unwrapped data key length'') else Inr dataKey))"

definition newHTTPKMS :: "(string \<Rightarrow> string \<Rightarrow> string \<Rightarrow> (string \<times> string) res) \<Rightarrow> string \<Rightarrow> DataKeyWrapper" where
  "newHTTPKMS call keyID = \<lparr>dw_WrapKey = kms_WrapKey call keyID, dw_UnwrapKey = kms_UnwrapKey call\<rparr>"

section \<open>Envelopes (\<open>encrypt.go\<close>)\<close>

abbreviation (input) sseAlg :: string where "sseAlg \<equiv> ''AES-256-GCM''"

text \<open>
  An encrypter has a provider or a wrapper: \<open>newEnvelopeEncrypter\<close> and \<open>newWrappingEncrypter\<close> set one
  field and leave the other nil.
\<close>

datatype envelopeEncrypter = Provided SecretProvider | Wrapping DataKeyWrapper

definition gcmSeal :: "go_lib \<Rightarrow> string \<Rightarrow> string \<Rightarrow> string \<Rightarrow> string res" where
  "gcmSeal lib plaintext dataKey nonce =
     (if aes_key dataKey then Inr (gl_seal lib dataKey nonce plaintext) else Inl (NewError ''aes key size''))"

definition gcm_open :: "go_lib \<Rightarrow> string \<Rightarrow> string \<Rightarrow> string \<Rightarrow> string res" where
  "gcm_open lib key nonce ct = (if aes_key key then gl_open lib key nonce ct else Inl (NewError ''aes key size''))"

definition generateDataKey :: "rnd \<Rightarrow> (string \<times> string) res" where
  "generateDataKey rnd = rbind (rnd ''key'') (\<lambda>key. rbind (rnd ''nonce'') (\<lambda>nonce. Inr (key, nonce)))"

definition wrapKey :: "go_lib \<Rightarrow> rnd \<Rightarrow> string \<Rightarrow> string \<Rightarrow> string res" where
  "wrapKey lib rnd masterKey dataKey =
     (if \<not> aes_key masterKey then Inl (NewError ''aes key size'')
      else rbind (rnd ''wrap nonce'') (\<lambda>nonce. Inr (nonce @ gl_seal lib masterKey nonce dataKey)))"

definition unwrapKey :: "go_lib \<Rightarrow> string \<Rightarrow> string \<Rightarrow> string res" where
  "unwrapKey lib masterKey wrapped =
     (if \<not> aes_key masterKey then Inl (NewError ''aes key size'')
      else if length wrapped < 12 then Inl (NewError ''envelope: wrapped key too short'')
      else gl_open lib masterKey (take 12 wrapped) (drop 12 wrapped))"

definition buildEnvelope :: "go_lib \<Rightarrow> string \<Rightarrow> string \<Rightarrow> string \<Rightarrow> string \<Rightarrow> string" where
  "buildEnvelope lib wrap keyID wrapped iv =
     gl_env_json lib \<lparr>se_Alg = sseAlg, se_Wrap = wrap, se_Kid = keyID, se_Kek = b64_encode wrapped, se_IV = b64_encode iv\<rparr>"

definition parseEnvelope :: "go_lib \<Rightarrow> string \<Rightarrow> sseEnvelope res" where
  "parseEnvelope lib s =
     rbind (wrap_err (\<lambda>e. Errorf ''sse: malformed envelope'' [e]) (gl_env_parse lib s)) (\<lambda>env.
     if se_Kek env = [] \<or> se_IV env = [] then Inl (NewError ''sse: envelope missing kek/iv'') else Inr env)"

definition encrypt :: "go_lib \<Rightarrow> rnd \<Rightarrow> envelopeEncrypter \<Rightarrow> string \<Rightarrow> (string \<times> string) res" where
  "encrypt lib rnd enc plain =
     rbind (generateDataKey rnd) (\<lambda>(dataKey, iv).
     rbind (gcmSeal lib plain dataKey iv) (\<lambda>ct.
     case enc of
       Wrapping w \<Rightarrow>
         rbind (wrap_err (\<lambda>e. Errorf ''sse: kms wrap'' [e]) (dw_WrapKey w dataKey)) (\<lambda>(wrapped, keyID).
         Inr (ct, buildEnvelope lib ''kms'' keyID wrapped iv))
     | Provided p \<Rightarrow>
         (case sp_Current p of (keyID, masterKey) \<Rightarrow>
          if length masterKey \<noteq> masterKeyLen then Inl (NewError ''sse: master key length'')
          else rbind (wrapKey lib rnd masterKey dataKey) (\<lambda>wrapped. Inr (ct, buildEnvelope lib [] keyID wrapped iv)))))"

definition unwrapDataKey :: "go_lib \<Rightarrow> envelopeEncrypter \<Rightarrow> sseEnvelope \<Rightarrow> string \<Rightarrow> string res" where
  "unwrapDataKey lib enc env wrapped =
     (if se_Wrap env = ''kms'' then
        (case enc of
           Provided _ \<Rightarrow> Inl (NewError ''sse: no KMS is configured'')
         | Wrapping w \<Rightarrow> wrap_err (\<lambda>e. Errorf ''sse: kms unwrap'' [e]) (dw_UnwrapKey w wrapped (se_Kid env)))
      else if se_Wrap env = [] then
        (case enc of
           Wrapping _ \<Rightarrow> Inl (NewError ''sse: no key provider is configured'')
         | Provided p \<Rightarrow>
             (case sp_Resolve p (se_Kid env) of
                None \<Rightarrow> Inl (NewError (if se_Kid env = [] then ''sse: no legacy key'' else ''sse: unknown key version''))
              | Some masterKey \<Rightarrow>
                  if length masterKey \<noteq> masterKeyLen then Inl (NewError ''sse: master key length'')
                  else wrap_err (\<lambda>e. Errorf ''unwrap data key'' [e]) (unwrapKey lib masterKey wrapped)))
      else Inl (NewError ''sse: unsupported wrap mode''))"

definition decode_field :: "string \<Rightarrow> string \<Rightarrow> string res" where
  "decode_field what s = wrap_err (\<lambda>e. Errorf what [e]) (b64_decode s)"

definition decrypt :: "go_lib \<Rightarrow> envelopeEncrypter \<Rightarrow> string \<Rightarrow> string \<Rightarrow> string res" where
  "decrypt lib enc ct envelope =
     rbind (parseEnvelope lib envelope) (\<lambda>env.
     if se_Alg env \<noteq> sseAlg then Inl (NewError ''sse: unsupported envelope alg'')
     else rbind (decode_field ''sse: decode kek'' (se_Kek env)) (\<lambda>wrapped.
       rbind (decode_field ''sse: decode iv'' (se_IV env)) (\<lambda>iv.
       if length iv \<noteq> 12 then Inl (NewError ''sse: envelope iv length'')
       else rbind (unwrapDataKey lib enc env wrapped) (\<lambda>dataKey. gcm_open lib dataKey iv ct))))"

definition validateEnvelope :: "go_lib \<Rightarrow> envelopeEncrypter \<Rightarrow> string \<Rightarrow> gerr option" where
  "validateEnvelope lib enc envelope =
     (case rbind (parseEnvelope lib envelope) (\<lambda>env.
        if se_Alg env \<noteq> sseAlg then Inl (NewError ''sse: unsupported envelope alg'')
        else rbind (decode_field ''sse: decode kek'' (se_Kek env)) (unwrapDataKey lib enc env)) of
        Inl e \<Rightarrow> Some e
      | Inr _ \<Rightarrow> None)"

definition resolveOldKey :: "SecretProvider \<Rightarrow> string \<Rightarrow> string res" where
  "resolveOldKey p kid =
     (case sp_Resolve p kid of
        None \<Rightarrow> Inl (NewError (if kid = [] then ''sse: no legacy key'' else ''sse: unknown key version''))
      | Some oldKey \<Rightarrow> if length oldKey \<noteq> masterKeyLen then Inl (NewError ''sse: master key length'') else Inr oldKey)"

definition rewrapObject :: "go_lib \<Rightarrow> rnd \<Rightarrow> sseEnvelope \<Rightarrow> string \<Rightarrow> string \<Rightarrow> string \<Rightarrow> string res" where
  "rewrapObject lib rnd env oldKey curKey curID =
     rbind (decode_field ''sse: decode kek'' (se_Kek env)) (\<lambda>wrapped.
     rbind (decode_field ''sse: decode iv'' (se_IV env)) (\<lambda>iv.
     if length iv \<noteq> 12 then Inl (NewError ''sse: envelope iv length'')
     else rbind (wrap_err (\<lambda>e. Errorf ''rewrap unwrap'' [e]) (unwrapKey lib oldKey wrapped)) (\<lambda>dataKey.
       rbind (wrapKey lib rnd curKey dataKey) (\<lambda>newWrapped. Inr (buildEnvelope lib [] curID newWrapped iv)))))"

text \<open>\<open>rewrap\<close>; \<open>None\<close> is the nil dereference of \<open>e.provider.Current()\<close> in an encrypter without provider.\<close>

definition rewrap :: "go_lib \<Rightarrow> rnd \<Rightarrow> envelopeEncrypter \<Rightarrow> string \<Rightarrow> (string \<times> bool) res option" where
  "rewrap lib rnd enc envelope =
     (case parseEnvelope lib envelope of
        Inl e \<Rightarrow> Some (Inl e)
      | Inr env \<Rightarrow>
          if se_Alg env \<noteq> sseAlg then Some (Inl (NewError ''sse: unsupported envelope alg''))
          else if se_Wrap env \<noteq> [] then Some (Inr (envelope, False))
          else (case enc of
                  Wrapping _ \<Rightarrow> None
                | Provided p \<Rightarrow>
                    (case sp_Current p of (curID, curKey) \<Rightarrow>
                     if se_Kid env = curID then Some (Inr (envelope, False))
                     else Some (rbind (resolveOldKey p (se_Kid env)) (\<lambda>oldKey.
                       if length curKey \<noteq> masterKeyLen then Inl (NewError ''sse: master key length'')
                       else rbind (rewrapObject lib rnd env oldKey curKey curID) (\<lambda>newEnv. Inr (newEnv, True)))))))"

section \<open>What one encrypter writes, another reads\<close>

definition rnd_ok :: "rnd \<Rightarrow> bool" where
  "rnd_ok rnd \<longleftrightarrow> (\<forall>l k. rnd l = Inr k \<longrightarrow> length k = (if l = ''key'' then 32 else if l = ''generation'' then 16 else 12))"

fun reads :: "envelopeEncrypter \<Rightarrow> envelopeEncrypter \<Rightarrow> bool" where
  "reads (Provided p) (Provided p') \<longleftrightarrow>
     valid_utf8 (fst (sp_Current p)) \<and> sp_Resolve p' (fst (sp_Current p)) = Some (snd (sp_Current p))"
| "reads (Wrapping w) (Wrapping w') \<longleftrightarrow>
     (\<forall>k wrapped i. length k = 32 \<longrightarrow> dw_WrapKey w k = Inr (wrapped, i) \<longrightarrow>
        wrapped \<noteq> [] \<and> valid_utf8 i \<and> dw_UnwrapKey w' wrapped i = Inr k)"
| "reads _ _ \<longleftrightarrow> False"

text \<open>The data key and nonce an encrypter recovers from an envelope.\<close>

definition envelope_key :: "go_lib \<Rightarrow> envelopeEncrypter \<Rightarrow> string \<Rightarrow> (string \<times> string) res" where
  "envelope_key lib enc envelope =
     rbind (parseEnvelope lib envelope) (\<lambda>env.
     if se_Alg env \<noteq> sseAlg then Inl (NewError ''sse: unsupported envelope alg'')
     else rbind (decode_field ''sse: decode kek'' (se_Kek env)) (\<lambda>wrapped.
       rbind (decode_field ''sse: decode iv'' (se_IV env)) (\<lambda>iv.
       if length iv \<noteq> 12 then Inl (NewError ''sse: envelope iv length'')
       else rbind (unwrapDataKey lib enc env wrapped) (\<lambda>dataKey. Inr (dataKey, iv)))))"

lemma decrypt_envelope_key:
  "decrypt lib enc ct envelope = rbind (envelope_key lib enc envelope) (\<lambda>(dataKey, iv). gcm_open lib dataKey iv ct)"
  by (auto simp: decrypt_def envelope_key_def rbind_def split: sum.splits)

lemma validate_of_key: "envelope_key lib enc envelope = Inr x \<Longrightarrow> validateEnvelope lib enc envelope = None"
  by (auto simp: validateEnvelope_def envelope_key_def rbind_Inr split: if_splits)

lemma parse_build:
  assumes "lib_ok lib" "valid_utf8 wrap" "valid_utf8 i" "wrapped \<noteq> []" "iv \<noteq> []"
  shows "parseEnvelope lib (buildEnvelope lib wrap i wrapped iv) =
    Inr \<lparr>se_Alg = sseAlg, se_Wrap = wrap, se_Kid = i, se_Kek = b64_encode wrapped, se_IV = b64_encode iv\<rparr>"
    "buildEnvelope lib wrap i wrapped iv \<noteq> []" "valid_utf8 (buildEnvelope lib wrap i wrapped iv)"
proof -
  let ?e = "\<lparr>se_Alg = sseAlg, se_Wrap = wrap, se_Kid = i, se_Kek = b64_encode wrapped, se_IV = b64_encode iv\<rparr>"
  have "valid_utf8 sseAlg" by (rule visible_ascii_text) (simp add: visible_ascii_def byte_def)
  then have "utf8_envelope ?e" using assms(2,3) by (simp add: utf8_envelope_def)
  with assms(1) have "gl_env_parse lib (gl_env_json lib ?e) = Inr ?e" "gl_env_json lib ?e \<noteq> []" "valid_utf8 (gl_env_json lib ?e)"
    by (auto simp: lib_ok_def)
  then show "parseEnvelope lib (buildEnvelope lib wrap i wrapped iv) = Inr ?e" "buildEnvelope lib wrap i wrapped iv \<noteq> []"
    "valid_utf8 (buildEnvelope lib wrap i wrapped iv)"
    using assms(4,5) by (simp_all add: parseEnvelope_def buildEnvelope_def)
qed

lemma gcm_law:
  assumes "lib_ok lib" "aes_key k" "length n = 12"
  shows "gl_open lib k n (gl_seal lib k n p) = Inr p" "length (gl_seal lib k n p) = length p + 16"
  using assms by (auto simp: lib_ok_def)

lemma unwrap_wrap:
  assumes "lib_ok lib" "rnd_ok rnd" "wrapKey lib rnd mk dk = Inr wrapped"
  shows "unwrapKey lib mk wrapped = Inr dk" "wrapped \<noteq> []"
proof -
  from assms(3) obtain n where n: "aes_key mk" "rnd ''wrap nonce'' = Inr n" "wrapped = n @ gl_seal lib mk n dk"
    by (auto simp: wrapKey_def rbind_Inr split: if_splits)
  with assms(2) have "length n = 12" by (auto simp: rnd_ok_def)
  with n gcm_law [OF assms(1) n(1), of n dk] show "unwrapKey lib mk wrapped = Inr dk" "wrapped \<noteq> []"
    by (auto simp: unwrapKey_def)
qed

lemma key32 [simp]: "length k = 32 \<Longrightarrow> aes_key k"
  by (simp add: aes_key_def)

lemma key_of_built:
  assumes "lib_ok lib" "valid_utf8 wrap" "valid_utf8 i" "wrapped \<noteq> []" "length iv = 12"
    and "unwrapDataKey lib enc \<lparr>se_Alg = sseAlg, se_Wrap = wrap, se_Kid = i, se_Kek = b64_encode wrapped, se_IV = b64_encode iv\<rparr> wrapped = Inr dk"
  shows "envelope_key lib enc (buildEnvelope lib wrap i wrapped iv) = Inr (dk, iv)"
proof -
  have "iv \<noteq> []" using assms(5) by auto
  from parse_build(1) [OF assms(1-4) this] show ?thesis
    using assms(5,6) by (simp add: envelope_key_def decode_field_def)
qed

lemma encrypt_key:
  assumes "lib_ok lib" "rnd_ok rnd" "reads enc enc'" "encrypt lib rnd enc plain = Inr (ct, envelope)"
  shows "\<exists>dk iv. envelope_key lib enc' envelope = Inr (dk, iv) \<and> aes_key dk \<and> length iv = 12 \<and> ct = gl_seal lib dk iv plain
    \<and> envelope \<noteq> [] \<and> valid_utf8 envelope"
proof -
  from assms(4) obtain dk iv where r: "rnd ''key'' = Inr dk" "rnd ''nonce'' = Inr iv" "aes_key dk" "ct = gl_seal lib dk iv plain"
    by (auto simp: encrypt_def generateDataKey_def gcmSeal_def rbind_Inr split: if_splits envelopeEncrypter.splits prod.splits)
  from r(1,2) assms(2) have len: "length dk = 32" "length iv = 12" by (auto simp: rnd_ok_def)
  then have iv: "iv \<noteq> []" by auto
  have [simp]: "valid_utf8 ''kms''" "valid_utf8 []" by (rule visible_ascii_text, simp add: visible_ascii_def byte_def)+
  show ?thesis
  proof (cases enc)
    case (Wrapping w)
    with assms(3) obtain w' where w': "enc' = Wrapping w'" by (cases enc') auto
    from Wrapping assms(4) r obtain wrapped i where w: "dw_WrapKey w dk = Inr (wrapped, i)" "envelope = buildEnvelope lib ''kms'' i wrapped iv"
      by (auto simp: encrypt_def generateDataKey_def gcmSeal_def rbind_Inr)
    with assms(3) Wrapping w' len(1) have u: "wrapped \<noteq> []" "valid_utf8 i" "dw_UnwrapKey w' wrapped i = Inr dk" by auto
    show ?thesis
      using key_of_built [OF assms(1) _ u(2,1) len(2), of "''kms''" enc' dk] parse_build(2,3) [OF assms(1) _ u(2,1) iv, of "''kms''"] u(3) r(3,4) len(2)
      unfolding w(2) by (simp add: unwrapDataKey_def w')
  next
    case (Provided p)
    with assms(3) obtain p' where p': "enc' = Provided p'" by (cases enc') auto
    obtain i mk where cur: "sp_Current p = (i, mk)" by (cases "sp_Current p")
    from Provided assms(4) r obtain wrapped where w: "length mk = 32" "wrapKey lib rnd mk dk = Inr wrapped" "envelope = buildEnvelope lib [] i wrapped iv"
      by (auto simp: encrypt_def generateDataKey_def gcmSeal_def rbind_Inr cur split: if_splits)
    from assms(3) Provided p' cur have u: "valid_utf8 i" "sp_Resolve p' i = Some mk" by auto
    note ww = unwrap_wrap [OF assms(1,2) w(2)]
    show ?thesis
      using key_of_built [OF assms(1) _ u(1) ww(2) len(2), of "[]" enc' dk] parse_build(2,3) [OF assms(1) _ u(1) ww(2) iv, of "[]"] u(2) w(1) ww(1) r(3,4) len(2)
      unfolding w(3) by (simp add: unwrapDataKey_def p')
  qed
qed

lemma encrypt_decrypt:
  assumes "lib_ok lib" "rnd_ok rnd" "reads enc enc'" "encrypt lib rnd enc plain = Inr (ct, envelope)"
  shows "decrypt lib enc' ct envelope = Inr plain" "validateEnvelope lib enc' envelope = None"
    "length ct = length plain + 16" "envelope \<noteq> []" "valid_utf8 envelope"
proof -
  from encrypt_key [OF assms] obtain dk iv where k: "envelope_key lib enc' envelope = Inr (dk, iv)" "aes_key dk" "length iv = 12"
    "ct = gl_seal lib dk iv plain" "envelope \<noteq> []" "valid_utf8 envelope" by blast
  with gcm_law [OF assms(1) k(2,3), of plain] validate_of_key [OF k(1)]
  show "decrypt lib enc' ct envelope = Inr plain" "validateEnvelope lib enc' envelope = None"
    "length ct = length plain + 16" "envelope \<noteq> []" "valid_utf8 envelope"
    by (simp_all add: decrypt_envelope_key gcm_open_def)
qed

text \<open>The key id of the envelope.\<close>

fun kid_of :: "envelopeEncrypter \<Rightarrow> string \<Rightarrow> bool" where
  "kid_of (Provided p) i \<longleftrightarrow> i = fst (sp_Current p)"
| "kid_of (Wrapping w) i \<longleftrightarrow> (\<exists>k wrapped. dw_WrapKey w k = Inr (wrapped, i))"

lemma encrypt_kid:
  assumes "lib_ok lib" "rnd_ok rnd" "reads enc enc'" "encrypt lib rnd enc plain = Inr (ct, envelope)"
  shows "\<exists>env. parseEnvelope lib envelope = Inr env \<and> kid_of enc (se_Kid env)"
proof -
  from assms(4) obtain dk iv where r: "rnd ''key'' = Inr dk" "rnd ''nonce'' = Inr iv"
    by (auto simp: encrypt_def generateDataKey_def rbind_Inr split: prod.splits)
  from r assms(2) have "length dk = 32" "length iv = 12" by (auto simp: rnd_ok_def)
  then have len: "length dk = 32" "iv \<noteq> []" by auto
  have u: "valid_utf8 ''kms''" "valid_utf8 []" by (rule visible_ascii_text, simp add: visible_ascii_def byte_def)+
  show ?thesis
  proof (cases enc)
    case (Wrapping w)
    with assms(4) r obtain wrapped i where w: "dw_WrapKey w dk = Inr (wrapped, i)" "envelope = buildEnvelope lib ''kms'' i wrapped iv"
      by (auto simp: encrypt_def generateDataKey_def rbind_Inr)
    with assms(3) Wrapping len(1) have "wrapped \<noteq> []" "valid_utf8 i" by (cases enc'; auto)+
    from parse_build(1) [OF assms(1) u(1) this(2,1) len(2)] w Wrapping show ?thesis by auto
  next
    case (Provided p)
    obtain i mk where cur: "sp_Current p = (i, mk)" by (cases "sp_Current p")
    from Provided assms(4) r obtain wrapped where w: "wrapKey lib rnd mk dk = Inr wrapped" "envelope = buildEnvelope lib [] i wrapped iv"
      by (auto simp: encrypt_def generateDataKey_def rbind_Inr cur split: if_splits)
    from assms(3) Provided cur have "valid_utf8 i" by (cases enc') auto
    from parse_build(1) [OF assms(1) u(2) this unwrap_wrap(2) [OF assms(1,2) w(1)] len(2)] w cur Provided show ?thesis by auto
  qed
qed

text \<open>Re-wrapping moves the data key to the current master key and changes nothing else.\<close>

lemma rewrap_key:
  assumes "lib_ok lib" "rnd_ok rnd" "reads (Provided p) (Provided p)" "reads (Provided p) (Provided p')"
    and "rewrap lib rnd (Provided p) envelope = Some (Inr (envelope', changed))" "envelope_key lib (Provided p) envelope = Inr (dk, iv)"
  shows "envelope_key lib (Provided p') envelope' = Inr (dk, iv)"
proof -
  obtain i mk where cur: "sp_Current p = (i, mk)" by (cases "sp_Current p")
  from assms(6) obtain env wrapped where e: "parseEnvelope lib envelope = Inr env" "se_Alg env = sseAlg"
      "b64_decode (se_Kek env) = Inr wrapped" "b64_decode (se_IV env) = Inr iv" "length iv = 12" "unwrapDataKey lib (Provided p) env wrapped = Inr dk"
    by (auto simp: envelope_key_def rbind_Inr decode_field_def split: if_splits)
  from e(6) have local: "se_Wrap env = []" by (auto simp: unwrapDataKey_def split: if_splits)
  from assms(3,4) cur have res: "sp_Resolve p i = Some mk" "sp_Resolve p' i = Some mk" "valid_utf8 i" by auto
  show ?thesis
  proof (cases "se_Kid env = i")
    case True
    with assms(5) e local cur have "envelope' = envelope" by (simp add: rewrap_def)
    with e True res local show ?thesis by (simp add: envelope_key_def decode_field_def unwrapDataKey_def)
  next
    case False
    from e(6) local obtain oldKey where old: "sp_Resolve p (se_Kid env) = Some oldKey" "length oldKey = 32" "unwrapKey lib oldKey wrapped = Inr dk"
      by (auto simp: unwrapDataKey_def split: option.splits if_splits)
    from assms(5) e local cur False old obtain newWrapped where w: "length mk = 32" "wrapKey lib rnd mk dk = Inr newWrapped"
        "envelope' = buildEnvelope lib [] i newWrapped iv"
      by (auto simp: rewrap_def resolveOldKey_def rewrapObject_def rbind_Inr decode_field_def split: if_splits)
    have [simp]: "valid_utf8 []" by (simp add: visible_ascii_text visible_ascii_def)
    note ww = unwrap_wrap [OF assms(1,2) w(2)]
    show ?thesis
      unfolding w(3) by (rule key_of_built [OF assms(1) _ res(3) ww(2) e(5)]) (simp_all add: unwrapDataKey_def res w(1) ww(1))
  qed
qed

lemma rewrap_decrypt:
  assumes "lib_ok lib" "rnd_ok rnd" "reads (Provided p) (Provided p)" "reads (Provided p) (Provided p')"
    and "rewrap lib rnd (Provided p) envelope = Some (Inr (envelope', changed))" "decrypt lib (Provided p) ct envelope = Inr plain"
  shows "decrypt lib (Provided p') ct envelope' = Inr plain"
proof -
  from assms(6) obtain dk iv where "envelope_key lib (Provided p) envelope = Inr (dk, iv)" "gcm_open lib dk iv ct = Inr plain"
    by (auto simp: decrypt_envelope_key rbind_Inr)
  with rewrap_key [OF assms(1-5)] show ?thesis by (simp add: decrypt_envelope_key)
qed

lemma rewrap_result:
  assumes "lib_ok lib" "rnd_ok rnd" "valid_utf8 (fst (sp_Current p))"
    and "rewrap lib rnd (Provided p) envelope = Some (Inr (envelope', changed))" "envelope_key lib (Provided p) envelope = Inr k"
  shows "\<exists>env. parseEnvelope lib envelope' = Inr env \<and> se_Kid env = fst (sp_Current p)"
    "envelope' = envelope \<or> changed \<and> envelope' \<noteq> [] \<and> valid_utf8 envelope'"
proof -
  obtain i mk where cur: "sp_Current p = (i, mk)" by (cases "sp_Current p")
  from assms(5) obtain env wrapped dk0 where e: "parseEnvelope lib envelope = Inr env" "se_Alg env = sseAlg" "unwrapDataKey lib (Provided p) env wrapped = Inr dk0"
    by (auto simp: envelope_key_def rbind_Inr split: if_splits)
  have local: "se_Wrap env = []" using e(3) by (auto simp: unwrapDataKey_def split: if_splits)
  have "(\<exists>env. parseEnvelope lib envelope' = Inr env \<and> se_Kid env = i) \<and> (envelope' = envelope \<or> changed \<and> envelope' \<noteq> [] \<and> valid_utf8 envelope')"
  proof (cases "se_Kid env = i")
    case True
    with assms(4) e(1,2) local cur show ?thesis by (simp add: rewrap_def)
  next
    case False
    with assms(4) e(1,2) local cur obtain dk newWrapped iv where w: "changed" "wrapKey lib rnd mk dk = Inr newWrapped" "length iv = 12"
        "envelope' = buildEnvelope lib [] i newWrapped iv"
      by (auto simp: rewrap_def rewrapObject_def rbind_Inr split: if_splits)
    have u: "valid_utf8 []" "valid_utf8 i" "iv \<noteq> []" using assms(3) cur w(3) by (auto simp: visible_ascii_text visible_ascii_def)
    from parse_build [OF assms(1) u(1,2) unwrap_wrap(2) [OF assms(1,2) w(2)] u(3)] w(1,4) show ?thesis by auto
  qed
  then show "\<exists>env. parseEnvelope lib envelope' = Inr env \<and> se_Kid env = fst (sp_Current p)"
    "envelope' = envelope \<or> changed \<and> envelope' \<noteq> [] \<and> valid_utf8 envelope'" by (simp_all add: cur)
qed

lemma rewrap_total:
  assumes "envelope_key lib (Provided p) envelope = Inr k" "length (snd (sp_Current p)) = 32" "rnd ''wrap nonce'' = Inr n"
  shows "\<exists>envelope' changed. rewrap lib rnd (Provided p) envelope = Some (Inr (envelope', changed))"
proof -
  obtain i mk where cur: "sp_Current p = (i, mk)" by (cases "sp_Current p")
  from assms(1) obtain env wrapped iv dk where e: "parseEnvelope lib envelope = Inr env" "se_Alg env = sseAlg"
      "decode_field ''sse: decode kek'' (se_Kek env) = Inr wrapped" "decode_field ''sse: decode iv'' (se_IV env) = Inr iv" "length iv = 12"
      "unwrapDataKey lib (Provided p) env wrapped = Inr dk"
    by (auto simp: envelope_key_def rbind_Inr split: if_splits)
  from e(6) obtain oldKey where old: "se_Wrap env = []" "sp_Resolve p (se_Kid env) = Some oldKey" "length oldKey = 32" "unwrapKey lib oldKey wrapped = Inr dk"
    by (auto simp: unwrapDataKey_def split: option.splits if_splits)
  show ?thesis
    using e old assms(2,3) cur by (cases "se_Kid env = i") (auto simp: rewrap_def resolveOldKey_def rewrapObject_def wrapKey_def)
qed

text \<open>The built-in key sources read what they write, and a ring reads what a ring with the same primary entry wrote.\<close>

lemma env_provider_reads: "newEnvProvider lib pass = Inr p \<Longrightarrow> reads (Provided p) (Provided p)"
  by (auto simp: newEnvProvider_def Let_def visible_ascii_text visible_ascii_def split: if_splits)

lemma ssec_reads [simp]: "reads (Provided (newSSECProvider k)) (Provided (newSSECProvider k))"
proof -
  have "visible_ascii ssecKeyID" by (simp add: visible_ascii_def byte_def)
  then show ?thesis by (simp add: newSSECProvider_def visible_ascii_text)
qed

lemma key_id_visible: "list_all key_id_char i \<Longrightarrow> visible_ascii i"
proof -
  have "list_all (\<lambda>c. 0x21 \<le> byte c \<and> byte c < 0x7F) ''ABCDEFGHIJKLMNOPQRSTUVWXYZabcdefghijklmnopqrstuvwxyz0123456789._-''"
    by code_simp
  then show "list_all key_id_char i \<Longrightarrow> visible_ascii i" unfolding visible_ascii_def key_id_char_def list_all_iff by blast
qed

lemma ring_reads:
  assumes "newKeyRing lib (Inr doc) l = Inr p" "newKeyRing lib (Inr doc') l' = Inr p'"
    and "map_of (kd_Keys doc') (kd_Primary doc) = map_of (kd_Keys doc) (kd_Primary doc)"
  shows "reads (Provided p) (Provided p')"
proof -
  from assms(1) obtain pass where ne: "kd_Primary doc \<noteq> []" "map_of (kd_Keys doc) (kd_Primary doc) = Some pass"
    "first_error (map key_error (kd_Keys doc)) = None"
    by (auto simp: newKeyRing_def Let_def split: option.splits)
  have key: "(kd_Primary doc, pass) \<in> set (kd_Keys doc)" using ne(2) by (rule map_of_SomeD)
  have "key_error e = None" if "e \<in> set es" "first_error (map key_error es) = None" for e es
    using that by (induction es) auto
  from this [OF key ne(3)] have "visible_ascii (kd_Primary doc)" by (auto simp: key_error_def intro: key_id_visible)
  with assms ne(1,2) show ?thesis
    by (auto simp: newKeyRing_def Let_def visible_ascii_text split: option.splits)
qed

end
