(* ===== verification/Local_Files.thy ===== *)
theory Local_Files
  imports Object_Rows "HOL-Library.Sublist"
begin

text \<open>
  The file system calls of package \<open>os\<close> that \<open>internal/storage/local*.go\<close> uses.  A path is the list of
  its elements from the root of the file system; a file system maps paths to directories and files.
  A path below a file gives \<open>ENOTDIR\<close>, which is not \<open>os.ErrNotExist\<close>.  \<open>flt\<close> says which call the
  operating system fails, by a label.  Temporary files live between two calls of one operation and are
  removed on every return, so \<open>CreateTemp\<close>, the writes and \<open>Rename\<close> are one step here.
\<close>

datatype node = Dir | File (file_data: string) (file_mtime: instant)

type_synonym fpath = "string list"
type_synonym fs = "(fpath \<times> node) list"
type_synonym fault_plan = "string \<Rightarrow> gerr option"

abbreviation (input) ENOTDIR :: gerr where "ENOTDIR \<equiv> NewError ''not a directory''"
abbreviation (input) EISDIR :: gerr where "EISDIR \<equiv> NewError ''is a directory''"
abbreviation (input) ENOTEMPTY :: gerr where "ENOTEMPTY \<equiv> NewError ''directory not empty''"

definition os_call :: "fault_plan \<Rightarrow> string \<Rightarrow> 'a res \<Rightarrow> 'a res" where
  "os_call flt l body = (case flt l of Some e \<Rightarrow> Inl e | None \<Rightarrow> body)"

fun is_file :: "node option \<Rightarrow> bool" where
  "is_file (Some (File _ _)) = True"
| "is_file _ = False"

text \<open>The proper ancestors of a path.\<close>

definition ancestors :: "fpath \<Rightarrow> fpath list" where
  "ancestors p = map (\<lambda>i. take i p) [0..<length p]"

definition blocked :: "fs \<Rightarrow> fpath \<Rightarrow> bool" where
  "blocked fs p \<longleftrightarrow> list_ex (\<lambda>q. is_file (map_of fs q)) (ancestors p)"

definition os_node :: "fs \<Rightarrow> fpath \<Rightarrow> node res" where
  "os_node fs p =
     (if blocked fs p then Inl ENOTDIR
      else (case map_of fs p of None \<Rightarrow> Inl (Sentinel OsErrNotExist) | Some n \<Rightarrow> Inr n))"

definition os_ReadFile :: "fs \<Rightarrow> fpath \<Rightarrow> string res" where
  "os_ReadFile fs p = rbind (os_node fs p) (\<lambda>n. case n of Dir \<Rightarrow> Inl EISDIR | File d _ \<Rightarrow> Inr d)"

definition os_MkdirAll :: "fs \<Rightarrow> fpath \<Rightarrow> fs res" where
  "os_MkdirAll fs p =
     (if list_ex (\<lambda>q. is_file (map_of fs q)) (ancestors p @ [p]) then Inl ENOTDIR
      else Inr (foldl (\<lambda>fs q. AList.update q Dir fs) fs (ancestors p @ [p])))"

text \<open>
  A file written whole: \<open>CreateTemp\<close> in the directory, the writes and \<open>Rename\<close>, which replaces a file
  but not a directory.
\<close>

definition os_replace :: "fs \<Rightarrow> fpath \<Rightarrow> string \<Rightarrow> instant \<Rightarrow> fs res" where
  "os_replace fs p d t =
     rbind (os_node fs (butlast p)) (\<lambda>n.
     if is_file (Some n) then Inl ENOTDIR
     else if map_of fs p = Some Dir then Inl EISDIR
     else Inr (AList.update p (File d t) fs))"

definition os_Remove :: "fs \<Rightarrow> fpath \<Rightarrow> fs res" where
  "os_Remove fs p =
     rbind (os_node fs p) (\<lambda>n.
     if n = Dir \<and> list_ex (\<lambda>(q, _). strict_prefix p q) fs then Inl ENOTEMPTY
     else Inr (AList.delete p fs))"

definition os_RemoveAll :: "fs \<Rightarrow> fpath \<Rightarrow> fs" where
  "os_RemoveAll fs p = filter (\<lambda>(q, _). \<not> prefix p q) fs"

text \<open>\<open>_ = os.Remove(p)\<close>: the error is dropped.\<close>

definition os_discard :: "fault_plan \<Rightarrow> string \<Rightarrow> fs \<Rightarrow> fpath \<Rightarrow> fs" where
  "os_discard flt l fs p = (case os_call flt l (os_Remove fs p) of Inl _ \<Rightarrow> fs | Inr fs' \<Rightarrow> fs')"

text \<open>\<open>_ = os.RemoveAll(p)\<close>: one that fails removes nothing.\<close>

definition os_clear :: "fault_plan \<Rightarrow> string \<Rightarrow> fs \<Rightarrow> fpath \<Rightarrow> fs" where
  "os_clear flt l fs p = (case flt l of None \<Rightarrow> os_RemoveAll fs p | Some _ \<Rightarrow> fs)"

section \<open>Well-formed file systems\<close>

definition fs_ok :: "fs \<Rightarrow> bool" where
  "fs_ok fs \<longleftrightarrow> (\<forall>p q. map_of fs p \<noteq> None \<longrightarrow> strict_prefix q p \<longrightarrow> map_of fs q = Some Dir)"

lemma set_ancestors: "set (ancestors p) = {q. strict_prefix q p}"
proof -
  have "q \<in> set (ancestors p)" if sp: "strict_prefix q p" for q
  proof -
    from sp obtain r where "p = q @ r" "r \<noteq> []" by (auto simp: strict_prefix_def prefix_def)
    then have "q = take (length q) p" "length q < length p" by auto
    then show ?thesis unfolding ancestors_def by force
  qed
  moreover have "strict_prefix q p" if a: "q \<in> set (ancestors p)" for q
  proof -
    from a obtain i where "q = take i p" "i < length p" by (auto simp: ancestors_def)
    then have "p = q @ drop i p" "drop i p \<noteq> []" by simp_all
    then show ?thesis by (metis strict_prefix_def prefixI append_self_conv)
  qed
  ultimately show ?thesis by blast
qed

lemma fs_ok_ancestor: "fs_ok fs \<Longrightarrow> map_of fs p = Some n \<Longrightarrow> strict_prefix q p \<Longrightarrow> map_of fs q = Some Dir"
  by (auto simp: fs_ok_def)

lemma not_blocked: "fs_ok fs \<Longrightarrow> map_of fs p = Some n \<Longrightarrow> \<not> blocked fs p"
  by (auto simp: blocked_def list_ex_iff set_ancestors dest: fs_ok_ancestor)

lemma os_node_Inr: "fs_ok fs \<Longrightarrow> os_node fs p = Inr n \<longleftrightarrow> map_of fs p = Some n"
  by (auto simp: os_node_def not_blocked split: option.splits)

lemma os_node_map: "os_node fs p = Inr n \<Longrightarrow> map_of fs p = Some n"
  by (auto simp: os_node_def split: option.splits if_splits)

lemma os_ReadFile_Inr: "fs_ok fs \<Longrightarrow> os_ReadFile fs p = Inr d \<longleftrightarrow> (\<exists>t. map_of fs p = Some (File d t))"
proof
  assume "fs_ok fs" "os_ReadFile fs p = Inr d"
  then obtain n where "map_of fs p = Some n" "(case n of Dir \<Rightarrow> Inl EISDIR | File d _ \<Rightarrow> Inr d) = Inr d"
    by (auto simp: os_ReadFile_def rbind_Inr os_node_Inr)
  then show "\<exists>t. map_of fs p = Some (File d t)" by (cases n) auto
qed (auto simp: os_ReadFile_def rbind_Inr os_node_Inr)

lemma os_ReadFile_file: "fs_ok fs \<Longrightarrow> map_of fs p = Some (File d t) \<Longrightarrow> os_ReadFile fs p = Inr d"
  by (auto simp: os_ReadFile_Inr)

lemma map_of_foldl_update:
  "map_of (foldl (\<lambda>fs q. AList.update q n fs) fs qs) p = (if p \<in> set qs then Some n else map_of fs p)"
  by (induction qs arbitrary: fs) (auto simp: update_conv)

lemma os_MkdirAll_Inr:
  assumes "os_MkdirAll fs p = Inr fs'"
  shows "map_of fs' q = (if prefix q p then Some Dir else map_of fs q)" "is_file (map_of fs q) \<Longrightarrow> map_of fs' q = map_of fs q"
proof -
  have m: "prefix q p \<longleftrightarrow> q \<in> set (ancestors p @ [p])" for q by (auto simp: set_ancestors strict_prefix_def)
  from assms have "fs' = foldl (\<lambda>fs q. AList.update q Dir fs) fs (ancestors p @ [p])"
    and free: "q \<in> set (ancestors p @ [p]) \<Longrightarrow> \<not> is_file (map_of fs q)" for q
    by (auto simp: os_MkdirAll_def list_ex_iff split: if_splits)
  then show eq: "map_of fs' q = (if prefix q p then Some Dir else map_of fs q)" by (simp only: map_of_foldl_update m)
  show "is_file (map_of fs q) \<Longrightarrow> map_of fs' q = map_of fs q" using free eq m by auto
qed

lemma os_MkdirAll_ok: "os_MkdirAll fs p = Inr fs' \<Longrightarrow> fs_ok fs \<Longrightarrow> fs_ok fs'"
  unfolding fs_ok_def by (auto simp: os_MkdirAll_Inr(1) split: if_splits dest: prefix_order.strict_trans2 [of _ _ p])

lemma os_replace_Inr:
  assumes "os_replace fs p d t = Inr fs'"
  shows "map_of fs' = (map_of fs)(p \<mapsto> File d t)" "map_of fs (butlast p) = Some Dir" "map_of fs p \<noteq> Some Dir"
  using assms
  by (auto simp: os_replace_def rbind_Inr update_conv' split: if_splits dest!: os_node_map) (metis is_file.simps(1) node.exhaust)

lemma strict_prefix_butlast: "strict_prefix q p \<Longrightarrow> q = butlast p \<or> strict_prefix q (butlast p)"
  by (cases p rule: rev_cases) (auto simp: strict_prefix_def)

lemma os_replace_ok:
  assumes "os_replace fs p d t = Inr fs'" "fs_ok fs" "p \<noteq> []"
  shows "fs_ok fs'"
  unfolding fs_ok_def
proof (intro allI impI)
  fix x q
  assume x: "map_of fs' x \<noteq> None" "strict_prefix q x"
  note r = os_replace_Inr [OF assms(1)]
  show "map_of fs' q = Some Dir"
  proof (cases "x = p")
    case True
    then have "map_of fs q = Some Dir" using strict_prefix_butlast [of q p] x(2) r(2) fs_ok_ancestor [OF assms(2) r(2)] by auto
    then show ?thesis using r(1,3) by auto
  next
    case False
    with x r(1) assms(2) have "map_of fs q = Some Dir" by (auto simp: fs_ok_def)
    then show ?thesis using r(1,3) by auto
  qed
qed

lemma os_Remove_Inr:
  assumes "os_Remove fs p = Inr fs'"
  shows "map_of fs' = (map_of fs)(p := None)"
  using assms by (auto simp: os_Remove_def rbind_Inr delete_conv' split: if_splits)

lemma map_of_None_notin: "(\<forall>x \<in> set xs. fst x \<noteq> k) \<Longrightarrow> map_of xs k = None"
  by (auto simp: map_of_eq_None_iff)

lemma os_Remove_ok:
  assumes "os_Remove fs p = Inr fs'" "fs_ok fs"
  shows "fs_ok fs'"
  unfolding fs_ok_def
proof (intro allI impI)
  fix x q
  assume x: "map_of fs' x \<noteq> None" "strict_prefix q x"
  note r = os_Remove_Inr [OF assms(1)]
  from x(1) obtain n where n: "map_of fs x = Some n" by (auto simp: r split: if_splits)
  with assms(2) x(2) have q: "map_of fs q = Some Dir" by (auto simp: fs_ok_def)
  have "q \<noteq> p"
  proof
    assume "q = p"
    with assms q have "\<not> list_ex (\<lambda>(q, _). strict_prefix p q) fs"
      by (auto simp: os_Remove_def os_node_Inr rbind_Inr split: if_splits)
    with map_of_SomeD [OF n] x(2) \<open>q = p\<close> show False by (auto simp: list_ex_iff)
  qed
  then show "map_of fs' q = Some Dir" using q by (simp add: r)
qed

lemma map_of_filter_key: "map_of (filter (\<lambda>(q, _). P q) fs) p = (if P p then map_of fs p else None)"
  by (induction fs) auto

lemma os_RemoveAll_simps: "map_of (os_RemoveAll fs p) q = (if prefix p q then None else map_of fs q)"
  unfolding os_RemoveAll_def by (simp add: map_of_filter_key)

lemma os_RemoveAll_ok: "fs_ok fs \<Longrightarrow> fs_ok (os_RemoveAll fs p)"
  unfolding fs_ok_def os_RemoveAll_simps by (auto split: if_splits)

lemma os_discard_simps:
  "map_of (os_discard flt l fs p) q = map_of fs q \<or> q = p"
  "fs_ok fs \<Longrightarrow> fs_ok (os_discard flt l fs p)"
  by (auto simp: os_discard_def os_call_def os_Remove_Inr os_Remove_ok split: option.splits sum.splits)

end
