(* ===== verification/Go_Path.thy ===== *)
theory Go_Path
  imports AV_Prelude
begin

text \<open>
  \<open>path.Clean\<close> and \<open>path.Join\<close> (also \<open>filepath.Clean\<close> and \<open>filepath.Join\<close> on Unix) on the slash-separated
  segments of a path, and \<open>storageKey\<close> of \<open>internal/service/file.go\<close>, which names the blob of an object.
\<close>

fun segments :: "string \<Rightarrow> string list" where
  "segments [] = [[]]"
| "segments (c # s) = (if c = CHR ''/'' then [] # segments s else (case segments s of x # xs \<Rightarrow> (c # x) # xs | [] \<Rightarrow> [[c]]))"

fun join_slash :: "string list \<Rightarrow> string" where
  "join_slash [] = []"
| "join_slash [x] = x"
| "join_slash (x # y # xs) = x @ CHR ''/'' # join_slash (y # xs)"

text \<open>One element of a path: empty and \<open>.\<close> are dropped, \<open>..\<close> drops the previous name if there is one.\<close>

definition clean_step :: "bool \<Rightarrow> string list \<Rightarrow> string \<Rightarrow> string list" where
  "clean_step rooted out x =
     (if x = [] \<or> x = ''.'' then out
      else if x \<noteq> ''..'' then out @ [x]
      else if out \<noteq> [] \<and> last out \<noteq> ''..'' then butlast out
      else if rooted then out
      else out @ [x])"

definition clean_segments :: "bool \<Rightarrow> string list \<Rightarrow> string list" where
  "clean_segments rooted xs = foldl (clean_step rooted) [] xs"

definition path_clean :: "string \<Rightarrow> string" where
  "path_clean s =
     (let rooted = has_prefix s ''/''; body = join_slash (clean_segments rooted (segments s)) in
      if rooted then CHR ''/'' # body else if body = [] then ''.'' else body)"

definition path_join :: "string list \<Rightarrow> string" where
  "path_join elems =
     (let es = filter (\<lambda>x. x \<noteq> []) elems in if es = [] then [] else path_clean (join_slash es))"

definition storageKey :: "string \<Rightarrow> string \<Rightarrow> string \<Rightarrow> string" where
  "storageKey tenant bucket key =
     (if \<not> has_prefix key ''/'' then path_join [tenant, bucket, key]
      else path_join [tenant, bucket, trim_prefix key ''/''])"

section \<open>Lemmas\<close>

lemma segments_not_Nil [simp]: "segments s \<noteq> []"
  by (cases s) (auto split: list.splits)

lemma join_segments [simp]: "join_slash (segments s) = s"
proof (induction s)
  case (Cons c s)
  then show ?case by (cases "segments s") (auto split: list.splits, (cases "tl (segments s)"; auto)+)
qed simp

lemma segments_name [simp]: "CHR ''/'' \<notin> set x \<Longrightarrow> segments x = [x]"
  by (induction x) auto

lemma segments_append: "CHR ''/'' \<notin> set x \<Longrightarrow> segments (x @ CHR ''/'' # s) = x # segments s"
  by (induction x) auto

lemma segments_join: "xs \<noteq> [] \<Longrightarrow> \<forall>x \<in> set xs. CHR ''/'' \<notin> set x \<Longrightarrow> segments (join_slash xs) = xs"
  by (induction xs rule: join_slash.induct) (auto simp: segments_append)

lemma segments_no_slash: "x \<in> set (segments s) \<Longrightarrow> CHR ''/'' \<notin> set x"
proof (induction s arbitrary: x)
  case (Cons c s)
  then show ?case by (cases "segments s") (auto split: if_splits)
qed simp

lemma join_slash_inject:
  "\<lbrakk>xs \<noteq> []; ys \<noteq> []; \<forall>x \<in> set xs. CHR ''/'' \<notin> set x; \<forall>y \<in> set ys. CHR ''/'' \<notin> set y\<rbrakk> \<Longrightarrow>
     join_slash xs = join_slash ys \<longleftrightarrow> xs = ys"
  by (metis segments_join)

lemma join_slash_append:
  "xs \<noteq> [] \<Longrightarrow> ys \<noteq> [] \<Longrightarrow> join_slash (xs @ ys) = join_slash xs @ CHR ''/'' # join_slash ys"
proof (induction xs rule: join_slash.induct)
  case (2 x)
  then show ?case by (cases ys) simp_all
qed simp_all

lemma join_slash_segments:
  "join_slash (x # segments s) = x @ CHR ''/'' # s"
  using join_slash_append [of "[x]" "segments s"] by simp

text \<open>On a path without \<open>..\<close> elements, \<open>Clean\<close> removes the empty and the \<open>.\<close> elements.\<close>

definition proper :: "string \<Rightarrow> bool" where
  "proper x \<longleftrightarrow> x \<noteq> [] \<and> x \<noteq> ''.''"

lemma foldl_clean:
  "''..'' \<notin> set xs \<Longrightarrow> foldl (clean_step rooted) out xs = out @ filter proper xs"
  by (induction xs arbitrary: out) (auto simp: clean_step_def proper_def)

lemma clean_no_parent: "''..'' \<notin> set xs \<Longrightarrow> clean_segments rooted xs = filter proper xs"
  by (simp add: clean_segments_def foldl_clean)

lemma contains_sub_append [simp]: "contains_sub (u @ p @ v) p"
  by (induction u) (cases "p @ v"; cases p; auto simp: has_prefix_def)+

lemma segments_mem: "x \<in> set (segments s) \<Longrightarrow> \<exists>u v. s = u @ x @ v"
proof (induction s arbitrary: x)
  case (Cons c s)
  show ?case
  proof (cases "c = CHR ''/''")
    case True
    with Cons.prems have "x = [] \<or> x \<in> set (segments s)" by simp
    then show ?thesis using Cons.IH by (metis append.left_neutral append_Cons)
  next
    case False
    obtain y ys where s: "segments s = y # ys" by (cases "segments s") simp_all
    with Cons.prems False have "x = c # y \<or> x \<in> set ys" by auto
    then show ?thesis
    proof
      assume x: "x = c # y"
      have "\<exists>v. s = y @ v" using s join_segments [of s] by (cases ys) (metis join_slash.simps(2) append_Nil2, metis join_slash.simps(3))
      then show ?thesis using x by (metis append_Cons append_Nil)
    next
      assume "x \<in> set ys"
      then show ?thesis using Cons.IH [of x] s by (metis append_Cons list.set_intros(2))
    qed
  qed
qed simp

lemma no_parent_segment: "\<not> contains_sub s ''..'' \<Longrightarrow> ''..'' \<notin> set (segments s)"
  using segments_mem contains_sub_append by blast

section \<open>Storage keys\<close>

text \<open>A tenant or bucket name that is one path element.\<close>

definition plain_name :: "string \<Rightarrow> bool" where
  "plain_name x \<longleftrightarrow> proper x \<and> x \<noteq> ''..'' \<and> CHR ''/'' \<notin> set x"

lemma segments_no_prefix: "\<not> has_prefix (x @ s) ''/'' \<longleftrightarrow> (case x @ s of [] \<Rightarrow> True | c # _ \<Rightarrow> c \<noteq> CHR ''/'')"
  by (cases "x @ s") (auto simp: has_prefix_def)

lemma storageKey_segments:
  assumes "plain_name tenant" "plain_name bucket" "key \<noteq> []" "\<not> has_prefix key ''/''" "\<not> contains_sub key ''..''"
  shows "storageKey tenant bucket key = join_slash (tenant # bucket # filter proper (segments key))"
proof -
  let ?s = "tenant @ CHR ''/'' # bucket @ CHR ''/'' # key"
  have ne: "tenant \<noteq> []" "bucket \<noteq> []" using assms(1,2) by (auto simp: plain_name_def proper_def)
  have seg: "segments ?s = tenant # bucket # segments key"
    using assms(1,2) by (simp add: plain_name_def segments_append)
  obtain c t' where t: "tenant = c # t'" "c \<noteq> CHR ''/''" using ne assms(1) by (cases tenant) (auto simp: plain_name_def)
  then have rel: "\<not> has_prefix ?s ''/''" by (simp add: has_prefix_def)
  have "''..'' \<notin> set (segments ?s)"
    using assms(1,2) no_parent_segment [OF assms(5)] by (auto simp: seg plain_name_def)
  then have cl: "clean_segments False (segments ?s) = tenant # bucket # filter proper (segments key)"
    using assms(1,2) by (simp add: clean_no_parent seg) (simp add: plain_name_def)
  have "path_clean ?s = join_slash (tenant # bucket # filter proper (segments key))"
    using rel ne by (simp add: path_clean_def Let_def cl)
  then show ?thesis using assms(3,4) ne by (simp add: storageKey_def path_join_def Let_def)
qed

lemma storageKey_eq_iff:
  assumes "plain_name t1" "plain_name b1" "k1 \<noteq> []" "\<not> has_prefix k1 ''/''" "\<not> contains_sub k1 ''..''"
    and "plain_name t2" "plain_name b2" "k2 \<noteq> []" "\<not> has_prefix k2 ''/''" "\<not> contains_sub k2 ''..''"
  shows "storageKey t1 b1 k1 = storageKey t2 b2 k2 \<longleftrightarrow>
    t1 = t2 \<and> b1 = b2 \<and> filter proper (segments k1) = filter proper (segments k2)"
proof -
  have ns: "\<forall>x \<in> set (t # b # filter proper (segments k)). CHR ''/'' \<notin> set x" if "plain_name t" "plain_name b" for t b k
    using that segments_no_slash by (auto simp: plain_name_def)
  show ?thesis
    unfolding storageKey_segments [OF assms(1-5)] storageKey_segments [OF assms(6-10)]
      join_slash_inject [OF list.distinct(2) list.distinct(2) ns [OF assms(1,2)] ns [OF assms(6,7)]]
    by simp
qed

end
