(* ===== verification/Local_Storage.thy ===== *)
theory Local_Storage
  imports Envelope Local_Files Go_Path Storage_Interface
begin

text \<open>
  The local backend, \<open>internal/storage/local.go\<close>, \<open>local_write.go\<close>, \<open>local_read.go\<close>, \<open>local_meta.go\<close>,
  \<open>local_copy.go\<close>, \<open>local_list.go\<close>, \<open>local_multipart.go\<close> and \<open>rewrap.go\<close>.  An object is a file and a JSON
  sidecar; both are bytes of the file system, so a sidecar can be read as an object and an object as a
  sidecar.  An operation takes the environment of its calls: what the operating system fails, the clock
  and the random bytes.  The writers hold \<open>generationMu\<close>, so an operation is one step.
\<close>

section \<open>The backend\<close>

record LocalConfig =
  lc_Root :: fpath
  lc_SSEKey :: string
  lc_SSEKeyfile :: string
  lc_SSEKeyURL :: string
  lc_Secrets :: "SecretProvider option"
  lc_SSEKMSURL :: string
  lc_SSEKMSKeyID :: string
  lc_KMS :: "DataKeyWrapper option"

record LocalStorage =
  ls_cfg :: LocalConfig
  ls_enc :: "envelopeEncrypter option"

record localUpload =
  lu_key :: string
  lu_dir :: fpath
  lu_createdAt :: instant
  lu_opts :: PutOptions

record local_state =
  lo_fs :: fs
  lo_uploads :: "(string \<times> localUpload) list"

record os_env =
  oe_fault :: fault_plan
  oe_now :: instant
  oe_rnd :: rnd
  oe_uuid :: string
  oe_short :: nat
  oe_dir :: "int \<times> instant"

abbreviation (input) localMetaSuffix :: string where "localMetaSuffix \<equiv> ''.meta.json''"
abbreviation (input) GenerationMetadataKey :: string where "GenerationMetadataKey \<equiv> ''_aero_storage_generation''"

text \<open>Key sources by precedence (\<open>secret.go\<close>); \<open>ring\<close> fetches and parses the key ring of a URL or a file.\<close>

definition newDataKeyWrapper :: "(string \<Rightarrow> string \<Rightarrow> string \<Rightarrow> (string \<times> string) res) \<Rightarrow> LocalConfig \<Rightarrow> DataKeyWrapper option" where
  "newDataKeyWrapper call cfg =
     (if lc_KMS cfg \<noteq> None then lc_KMS cfg
      else if lc_SSEKMSURL cfg \<noteq> [] then Some (newHTTPKMS call (lc_SSEKMSKeyID cfg))
      else None)"

definition newSecretProvider :: "go_lib \<Rightarrow> (string \<Rightarrow> keyRingDoc res) \<Rightarrow> LocalConfig \<Rightarrow> SecretProvider option res" where
  "newSecretProvider lib ring cfg =
     (if lc_Secrets cfg \<noteq> None then Inr (lc_Secrets cfg)
      else if lc_SSEKeyURL cfg \<noteq> [] then rbind (newKeyRing lib (ring (lc_SSEKeyURL cfg)) (lc_SSEKey cfg)) (\<lambda>p. Inr (Some p))
      else if lc_SSEKeyfile cfg \<noteq> [] then rbind (newKeyRing lib (ring (lc_SSEKeyfile cfg)) (lc_SSEKey cfg)) (\<lambda>p. Inr (Some p))
      else if lc_SSEKey cfg \<noteq> [] then rbind (newEnvProvider lib (lc_SSEKey cfg)) (\<lambda>p. Inr (Some p))
      else Inr None)"

definition NewLocal ::
  "go_lib \<Rightarrow> (string \<Rightarrow> string \<Rightarrow> string \<Rightarrow> (string \<times> string) res) \<Rightarrow> (string \<Rightarrow> keyRingDoc res) \<Rightarrow> os_env \<Rightarrow> fs \<Rightarrow> LocalConfig \<Rightarrow>
     fs \<times> LocalStorage res" where
  "NewLocal lib call ring env fs cfg =
     (if lc_Root cfg = [] then (fs, Inl (NewError ''local storage: root is required''))
      else (case os_call (oe_fault env) ''mkdir'' (os_MkdirAll fs (lc_Root cfg)) of
              Inl e \<Rightarrow> (fs, Inl (Errorf ''create root'' [e]))
            | Inr fs' \<Rightarrow>
                (fs', case newDataKeyWrapper call cfg of
                        Some w \<Rightarrow> Inr \<lparr>ls_cfg = cfg, ls_enc = Some (Wrapping w)\<rparr>
                      | None \<Rightarrow>
                          rbind (wrap_err (\<lambda>e. Errorf ''init sse'' [e]) (newSecretProvider lib ring cfg)) (\<lambda>p.
                          Inr \<lparr>ls_cfg = cfg, ls_enc = map_option Provided p\<rparr>))))"

definition local_SupportsSSE :: "LocalStorage \<Rightarrow> string \<Rightarrow> string \<Rightarrow> bool" where
  "local_SupportsSSE ls algorithm keyID =
     (case ls_enc ls of
        None \<Rightarrow> False
      | Some enc \<Rightarrow>
          if algorithm = ''AES256'' then keyID = [] \<and> (case enc of Provided _ \<Rightarrow> True | Wrapping _ \<Rightarrow> False)
          else if algorithm = ''aws:kms'' then
            (case enc of
               Provided _ \<Rightarrow> False
             | Wrapping _ \<Rightarrow> keyID = [] \<or> lc_SSEKMSKeyID (ls_cfg ls) = [] \<or> keyID = lc_SSEKMSKeyID (ls_cfg ls))
          else False)"

definition validateServerSideEncryption :: "LocalStorage \<Rightarrow> PutOptions \<Rightarrow> gerr option" where
  "validateServerSideEncryption ls opts =
     (if po_SSEAlgorithm opts = [] then fails (po_SSEKMSKeyID opts \<noteq> []) (Sentinel ErrUnsupported)
      else fails (po_SSECustomerKey opts \<noteq> [] \<or> \<not> local_SupportsSSE ls (po_SSEAlgorithm opts) (po_SSEKMSKeyID opts)) (Sentinel ErrUnsupported))"

section \<open>Paths\<close>

text \<open>
  \<open>filepath.Join(root, clean)\<close> and \<open>filepath.Rel(root, full)\<close>: relative to a cleaned root, the path is the
  remaining elements, or leads through \<open>..\<close> when it is not below the root.
\<close>

definition objectPath :: "LocalStorage \<Rightarrow> string \<Rightarrow> fpath res" where
  "objectPath ls key =
     (case validateObjectKey key of
        Some _ \<Rightarrow> Inl (Sentinel ErrInvalidKey)
      | None \<Rightarrow>
          (let root = lc_Root (ls_cfg ls);
               full = clean_segments True (root @ segments (path_clean key)) in
           if \<not> prefix root full \<or> has_prefix (join_slash (drop (length root) full)) ''..'' then Inl (Sentinel ErrInvalidKey)
           else Inr full))"

definition metaPath :: "fpath \<Rightarrow> fpath" where
  "metaPath p = butlast p @ [last p @ localMetaSuffix]"

section \<open>Sidecars (\<open>local_meta.go\<close>)\<close>

definition toInfo :: "localMeta \<Rightarrow> ObjectInfo" where
  "toInfo m = \<lparr>oi_Key = lm_Key m, oi_Size = lm_Size m, oi_ETag = lm_ETag m, oi_ContentType = lm_ContentType m,
     oi_LastModified = lm_LastModified m, oi_Metadata = lm_Metadata m\<rparr>"

text \<open>
  A Go map has no order; the model lists the entries of a map that goes into a sidecar in the order of
  their keys, as \<open>encoding/json\<close> writes them.
\<close>

definition kv_set :: "string \<Rightarrow> string \<Rightarrow> kv \<Rightarrow> kv" where
  "kv_set k v md = sort_key fst (AList.update k v md)"

text \<open>
  The marshalling fails on a time whose year does not have four digits.  The label \<open>write meta\<close> stands for
  the failures of the temporary file and of the rename; the file that a failed rename leaves behind,
  \<open>.meta-\<close> and a random number, is not part of the model.
\<close>

definition writeMeta :: "go_lib \<Rightarrow> os_env \<Rightarrow> fs \<Rightarrow> fpath \<Rightarrow> localMeta \<Rightarrow> fs res" where
  "writeMeta lib env fs p m =
     (if \<not> json_time (lm_LastModified m) then Inl (NewError ''Time.MarshalJSON: year outside of range [0,9999]'')
      else os_call (oe_fault env) ''write meta'' (os_replace fs p (gl_meta_json lib m) (oe_now env)))"

definition readMeta :: "go_lib \<Rightarrow> os_env \<Rightarrow> fs \<Rightarrow> fpath \<Rightarrow> localMeta res" where
  "readMeta lib env fs p = rbind (os_call (oe_fault env) ''read meta'' (os_ReadFile fs p)) (gl_meta_parse lib)"

section \<open>Writing (\<open>local_write.go\<close>)\<close>

definition plaintextSize :: "int \<Rightarrow> bool \<Rightarrow> int" where
  "plaintextSize written encrypted = (if \<not> encrypted then written else if written - 16 < 0 then 0 else written - 16)"

definition newGeneration :: "os_env \<Rightarrow> string res" where
  "newGeneration env = rbind (oe_rnd env ''generation'') (\<lambda>raw. Inr (hex_encode raw))"

definition put_encrypter :: "LocalStorage \<Rightarrow> PutOptions \<Rightarrow> envelopeEncrypter option" where
  "put_encrypter ls opts =
     (if length (po_SSECustomerKey opts) = 32 then Some (Provided (newSSECProvider (po_SSECustomerKey opts))) else ls_enc ls)"

text \<open>The bytes that go to the disk, and the envelope.\<close>

definition seal_body :: "go_lib \<Rightarrow> os_env \<Rightarrow> envelopeEncrypter option \<Rightarrow> string \<Rightarrow> (string \<times> string) res" where
  "seal_body lib env enc body = (case enc of None \<Rightarrow> Inr (body, []) | Some e \<Rightarrow> encrypt lib (oe_rnd env) e body)"

text \<open>
  \<open>writeObject\<close>: the label \<open>temp\<close> stands for the failures of creating, reading into, syncing and closing
  the temporary file.  The random generation is read after the rename.
\<close>

definition writeObject ::
  "go_lib \<Rightarrow> LocalStorage \<Rightarrow> os_env \<Rightarrow> fs \<Rightarrow> fpath \<Rightarrow> string \<Rightarrow> string \<Rightarrow> PutOptions \<Rightarrow> fs \<times> localMeta res" where
  "writeObject lib ls env fs p key body opts =
     (let enc = put_encrypter ls opts in
      case rbind (os_call (oe_fault env) ''temp'' (seal_body lib env enc body)) (\<lambda>(bytes, envelope).
           rbind (os_call (oe_fault env) ''rename'' (os_replace fs p bytes (oe_now env))) (\<lambda>fs'. Inr (fs', bytes, envelope))) of
        Inl e \<Rightarrow> (fs, Inl e)
      | Inr (fs', bytes, envelope) \<Rightarrow>
          (fs', rbind (newGeneration env) (\<lambda>generation.
            Inr \<lparr>lm_Key = key, lm_Size = plaintextSize (int (length bytes)) (enc \<noteq> None), lm_ETag = hex_encode (gl_md5 lib body),
                 lm_ContentType = po_ContentType opts, lm_LastModified = oe_now env,
                 lm_Metadata = kv_set GenerationMetadataKey generation (po_Metadata opts), lm_Envelope = envelope\<rparr>)))"

text \<open>The sidecar of a file that has just been written; a failure removes the file.\<close>

definition finish_write :: "go_lib \<Rightarrow> os_env \<Rightarrow> fs \<Rightarrow> fpath \<Rightarrow> localMeta \<Rightarrow> fs \<times> ObjectInfo \<times> gerr option" where
  "finish_write lib env fs p m =
     (case writeMeta lib env fs (metaPath p) m of
        Inl e \<Rightarrow> (os_discard (oe_fault env) ''remove'' fs p, zero_ObjectInfo, Some e)
      | Inr fs' \<Rightarrow> (fs', toInfo m, None))"

definition local_Put :: "go_lib \<Rightarrow> LocalStorage \<Rightarrow> os_env \<Rightarrow> fs \<Rightarrow> string \<Rightarrow> string \<Rightarrow> int \<Rightarrow> PutOptions \<Rightarrow> fs \<times> ObjectInfo \<times> gerr option" where
  "local_Put lib ls env fs key body sz opts =
     (case validateServerSideEncryption ls opts of
        Some e \<Rightarrow> (fs, zero_ObjectInfo, Some e)
      | None \<Rightarrow>
          (case rbind (objectPath ls key) (\<lambda>p. rbind (os_call (oe_fault env) ''mkdir'' (os_MkdirAll fs (butlast p))) (\<lambda>fs1. Inr (p, fs1))) of
             Inl e \<Rightarrow> (fs, zero_ObjectInfo, Some e)
           | Inr (p, fs1) \<Rightarrow>
               (case writeObject lib ls env fs1 p key body opts of
                  (fs2, Inl e) \<Rightarrow> (fs2, zero_ObjectInfo, Some e)
                | (fs2, Inr m) \<Rightarrow> finish_write lib env fs2 p m)))"

definition local_Delete :: "LocalStorage \<Rightarrow> os_env \<Rightarrow> fs \<Rightarrow> string \<Rightarrow> fs \<times> gerr option" where
  "local_Delete ls env fs key =
     (case objectPath ls key of
        Inl e \<Rightarrow> (fs, Some e)
      | Inr p \<Rightarrow>
          (let fs1 = os_discard (oe_fault env) ''remove meta'' fs (metaPath p) in
           case os_call (oe_fault env) ''remove'' (os_Remove fs1 p) of
             Inl e \<Rightarrow> (fs1, if errors_is e OsErrNotExist then None else Some e)
           | Inr fs2 \<Rightarrow> (fs2, None)))"

section \<open>Reading (\<open>local_read.go\<close>)\<close>

definition readEncrypter :: "go_lib \<Rightarrow> LocalStorage \<Rightarrow> string \<Rightarrow> GetOptions \<Rightarrow> envelopeEncrypter res" where
  "readEncrypter lib ls envelope opts =
     rbind (parseEnvelope lib envelope) (\<lambda>env.
     if se_Kid env = ssecKeyID then
       (if length (go_SSECustomerKey opts) \<noteq> masterKeyLen then Inl (Sentinel ErrSSECustomerKeyRequired)
        else (let enc = Provided (newSSECProvider (go_SSECustomerKey opts)) in
              case validateEnvelope lib enc envelope of Some _ \<Rightarrow> Inl (Sentinel ErrInvalidSSECustomerKey) | None \<Rightarrow> Inr enc))
     else if go_SSECustomerKey opts \<noteq> [] then Inl (Sentinel ErrInvalidSSECustomerKey)
     else (case ls_enc ls of
             None \<Rightarrow> Inl (NewError ''sse: no server-side key is configured'')
           | Some enc \<Rightarrow> ok_or (validateEnvelope lib enc envelope) enc))"

text \<open>Size and time of \<open>os.Stat\<close>; what a directory reports is the operating system's choice.\<close>

definition file_info :: "os_env \<Rightarrow> node \<Rightarrow> int \<times> instant" where
  "file_info env n = (case n of Dir \<Rightarrow> oe_dir env | File d t \<Rightarrow> (int (length d), t))"

definition local_statObject :: "go_lib \<Rightarrow> LocalStorage \<Rightarrow> os_env \<Rightarrow> fs \<Rightarrow> string \<Rightarrow> GetOptions option \<Rightarrow> ObjectInfo res" where
  "local_statObject lib ls env fs key opts =
     rbind (objectPath ls key) (\<lambda>p.
     case readMeta lib env fs (metaPath p) of
       Inl e \<Rightarrow>
         if errors_is e OsErrNotExist then
           (case os_call (oe_fault env) ''stat'' (os_node fs p) of
              Inr n \<Rightarrow> Inr (zero_ObjectInfo\<lparr>oi_Key := key, oi_Size := fst (file_info env n), oi_LastModified := snd (file_info env n)\<rparr>)
            | Inl _ \<Rightarrow> Inl (Sentinel StorageNotFound))
         else Inl e
     | Inr m \<Rightarrow>
         (case opts of
            Some o' \<Rightarrow> if lm_Envelope m \<noteq> [] then rbind (readEncrypter lib ls (lm_Envelope m) o') (\<lambda>_. Inr (toInfo m)) else Inr (toInfo m)
          | None \<Rightarrow> Inr (toInfo m)))"

text \<open>\<open>os.Open\<close> and the bytes behind the descriptor; a directory opens but cannot be read.\<close>

definition open_file :: "os_env \<Rightarrow> fs \<Rightarrow> fpath \<Rightarrow> string res res" where
  "open_file env fs p =
     (case os_call (oe_fault env) ''open'' (os_node fs p) of
        Inl e \<Rightarrow> Inl (if errors_is e OsErrNotExist then Sentinel StorageNotFound else e)
      | Inr n \<Rightarrow> Inr (os_call (oe_fault env) ''read'' (case n of Dir \<Rightarrow> Inl EISDIR | File d _ \<Rightarrow> Inr d)))"

definition local_GetWithOptions :: "go_lib \<Rightarrow> LocalStorage \<Rightarrow> os_env \<Rightarrow> fs \<Rightarrow> string \<Rightarrow> GetOptions \<Rightarrow> (string res \<times> ObjectInfo) res" where
  "local_GetWithOptions lib ls env fs key opts =
     rbind (local_statObject lib ls env fs key (Some opts)) (\<lambda>info.
     rbind (objectPath ls key) (\<lambda>p.
     rbind (open_file env fs p) (\<lambda>f.
     case readMeta lib env fs (metaPath p) of
       Inr m \<Rightarrow>
         if lm_Envelope m = [] then Inr (f, info)
         else rbind (readEncrypter lib ls (lm_Envelope m) opts) (\<lambda>enc.
           rbind (wrap_err (\<lambda>e. Errorf ''sse decrypt'' [e]) (rbind f (\<lambda>ct. decrypt lib enc ct (lm_Envelope m)))) (\<lambda>pt.
           Inr (Inr pt, info)))
     | Inl _ \<Rightarrow> Inr (f, info))))"

definition no_get_options :: GetOptions where
  "no_get_options = \<lparr>go_SSECustomerKey = [], go_SSECustomerKeyMD5 = []\<rparr>"

definition local_Get :: "go_lib \<Rightarrow> LocalStorage \<Rightarrow> os_env \<Rightarrow> fs \<Rightarrow> string \<Rightarrow> (string res \<times> ObjectInfo) res" where
  "local_Get lib ls env fs key = local_GetWithOptions lib ls env fs key no_get_options"

definition boundInfoMatches :: "ObjectInfo \<Rightarrow> ObjectInfo \<Rightarrow> bool" where
  "boundInfoMatches got expected \<longleftrightarrow>
     (let generation = kv_get (oi_Metadata expected) GenerationMetadataKey in
      generation \<noteq> [] \<and> oi_Key got = oi_Key expected \<and> oi_ETag got = oi_ETag expected \<and> oi_Size got = oi_Size expected
      \<and> kv_get (oi_Metadata got) GenerationMetadataKey = generation)"

definition generationProofError :: "ObjectInfo \<Rightarrow> ObjectInfo \<Rightarrow> gerr" where
  "generationProofError got expected =
     Sentinel (if kv_get (oi_Metadata expected) GenerationMetadataKey = [] \<or> kv_get (oi_Metadata got) GenerationMetadataKey = []
               then ErrUnsupported else ErrGenerationMismatch)"

text \<open>
  \<open>GetGenerationBound\<close>: under the read lock nothing changes between the two observations, which
  therefore agree; of the second one only the failures are left.
\<close>

definition reobserve :: "gerr option \<Rightarrow> gerr option \<Rightarrow> gerr option \<Rightarrow> gerr option" where
  "reobserve statErr pathErr metaErr =
     (let missing = (\<lambda>err. case err of Some e \<Rightarrow> errors_is e OsErrNotExist | None \<Rightarrow> False) in
      if statErr = None \<and> pathErr = None \<and> metaErr = None then None
      else if missing metaErr \<or> missing pathErr then Some (Sentinel StorageNotFound)
      else if metaErr \<noteq> None then metaErr
      else Some (Sentinel ErrGenerationMismatch))"

definition local_GetGenerationBound ::
  "go_lib \<Rightarrow> LocalStorage \<Rightarrow> os_env \<Rightarrow> ctx_state \<Rightarrow> fs \<Rightarrow> string \<Rightarrow> ObjectInfo \<Rightarrow> (string res \<times> ObjectInfo) res" where
  "local_GetGenerationBound lib ls env ctx fs key expected =
     (case ctx_err ctx of
        Some e \<Rightarrow> Inl e
      | None \<Rightarrow>
          rbind (objectPath ls key) (\<lambda>p.
          rbind (case os_call (oe_fault env) ''stat path'' (os_node fs p) of
                   Inl e \<Rightarrow> Inl (if errors_is e OsErrNotExist then Sentinel StorageNotFound else e)
                 | Inr n \<Rightarrow> Inr n) (\<lambda>_.
          rbind (local_statObject lib ls env fs key None) (\<lambda>before.
          if \<not> boundInfoMatches before expected then Inl (generationProofError before expected)
          else rbind (open_file env fs p) (\<lambda>f.
            case reobserve (oe_fault env ''fstat'') (oe_fault env ''stat path again'') (oe_fault env ''stat meta again'') of
              Some e \<Rightarrow> Inl e
            | None \<Rightarrow>
                rbind (readMeta lib env fs (metaPath p)) (\<lambda>m.
                if lm_Envelope m = [] then Inr (f, before)
                else rbind (readEncrypter lib ls (lm_Envelope m) no_get_options) (\<lambda>enc.
                  rbind (wrap_err (\<lambda>e. Errorf ''sse decrypt'' [e]) (rbind f (\<lambda>ct. decrypt lib enc ct (lm_Envelope m)))) (\<lambda>pt.
                  Inr (Inr pt, before)))))))))"

section \<open>Copying (\<open>local_copy.go\<close>)\<close>

definition copy_meta :: "CopyOptions \<Rightarrow> localMeta \<Rightarrow> string \<Rightarrow> int \<Rightarrow> string \<Rightarrow> localMeta" where
  "copy_meta opts m dstKey written generation =
     (let replace = (co_MetadataDirective opts = ''REPLACE'');
          metadata = (case co_Metadata opts of Some md \<Rightarrow> if replace then md else lm_Metadata m | None \<Rightarrow> lm_Metadata m) in
      m\<lparr>lm_Key := dstKey, lm_Size := plaintextSize written (lm_Envelope m \<noteq> []),
        lm_ContentType := (if replace \<and> co_ContentType opts \<noteq> [] then co_ContentType opts else lm_ContentType m),
        lm_Metadata := kv_set GenerationMetadataKey generation metadata\<rparr>)"

definition local_Copy :: "go_lib \<Rightarrow> LocalStorage \<Rightarrow> os_env \<Rightarrow> fs \<Rightarrow> string \<Rightarrow> string \<Rightarrow> CopyOptions \<Rightarrow> fs \<times> ObjectInfo \<times> gerr option" where
  "local_Copy lib ls env fs srcKey dstKey opts =
     (case rbind (objectPath ls srcKey) (\<lambda>src.
           rbind (case readMeta lib env fs (metaPath src) of
                    Inl e \<Rightarrow> Inl (if errors_is e OsErrNotExist then Sentinel StorageNotFound else e)
                  | Inr m \<Rightarrow> Inr m) (\<lambda>m.
           rbind (objectPath ls dstKey) (\<lambda>dst.
           rbind (os_call (oe_fault env) ''mkdir'' (os_MkdirAll fs (butlast dst))) (\<lambda>fs1. Inr (src, m, dst, fs1))))) of
        Inl e \<Rightarrow> (fs, zero_ObjectInfo, Some e)
      | Inr (src, m, dst, fs1) \<Rightarrow>
          (case rbind (open_file env fs1 src) (\<lambda>f.
                rbind (os_call (oe_fault env) ''temp'' f) (\<lambda>bytes.
                rbind (os_call (oe_fault env) ''rename'' (os_replace fs1 dst bytes (oe_now env))) (\<lambda>fs2. Inr (fs2, bytes)))) of
             Inl e \<Rightarrow> (fs1, zero_ObjectInfo, Some e)
           | Inr (fs2, bytes) \<Rightarrow>
               (case newGeneration env of
                  Inl e \<Rightarrow> (fs2, zero_ObjectInfo, Some e)
                | Inr generation \<Rightarrow> finish_write lib env fs2 dst (copy_meta opts m dstKey (int (length bytes)) generation))))"

section \<open>Listing (\<open>local_list.go\<close>)\<close>

definition isInternalTemp :: "string \<Rightarrow> bool" where
  "isInternalTemp name \<longleftrightarrow> has_prefix name ''.upload-'' \<or> has_prefix name ''.assemble-'' \<or> has_prefix name ''.meta-''"

definition isSkippedFile :: "fpath \<Rightarrow> bool" where
  "isSkippedFile p \<longleftrightarrow> has_suffix (last p) localMetaSuffix \<or> isInternalTemp (last p)"

definition matchPrefix :: "string \<Rightarrow> string \<Rightarrow> bool" where
  "matchPrefix pre key \<longleftrightarrow> pre = [] \<or> has_prefix key pre"

definition skipMarker :: "string \<Rightarrow> string \<Rightarrow> bool" where
  "skipMarker marker key \<longleftrightarrow> marker \<noteq> [] \<and> key \<le> marker"

text \<open>The files the walk reaches: directories called \<open>.multipart\<close> are skipped at every level.\<close>

definition walked :: "fs \<Rightarrow> fpath \<Rightarrow> fpath list" where
  "walked fs root =
     filter (\<lambda>p. prefix root p \<and> is_file (map_of fs p) \<and> ''.multipart'' \<notin> set (drop (length root - 1) (butlast p))) (remdups (map fst fs))"

definition collectObjects :: "go_lib \<Rightarrow> LocalStorage \<Rightarrow> os_env \<Rightarrow> fs \<Rightarrow> string \<Rightarrow> string \<Rightarrow> ObjectInfo list res" where
  "collectObjects lib ls env fs pre marker =
     (let root = lc_Root (ls_cfg ls) in
      os_call (oe_fault env) ''walk''
        (rbind (os_node fs root) (\<lambda>_.
         Inr (List.map_filter (\<lambda>p.
            let key = join_slash (drop (length root) p) in
            if isSkippedFile p \<or> \<not> matchPrefix pre key \<or> skipMarker marker key then None
            else (case local_statObject lib ls env fs key None of Inl _ \<Rightarrow> None | Inr info \<Rightarrow> Some info)) (walked fs root)))))"

definition local_List :: "go_lib \<Rightarrow> LocalStorage \<Rightarrow> os_env \<Rightarrow> fs \<Rightarrow> string \<Rightarrow> string \<Rightarrow> int \<Rightarrow> ListResult res" where
  "local_List lib ls env fs pre marker limit0 =
     (let limit = (if limit0 \<le> 0 then 1000 else nat limit0) in
      rbind (collectObjects lib ls env fs pre marker) (\<lambda>matches.
      let sorted = sort_key oi_Key matches in
      Inr (if length sorted > limit
           then \<lparr>lr_Objects = take limit sorted, lr_NextMarker = oi_Key (sorted ! (limit - 1)), lr_HasMore = True\<rparr>
           else \<lparr>lr_Objects = sorted, lr_NextMarker = [], lr_HasMore = False\<rparr>)))"

section \<open>Key rotation (\<open>rewrap.go\<close>)\<close>

text \<open>\<open>None\<close>: the panic of \<open>rewrap\<close>.\<close>

definition RewrapObject :: "go_lib \<Rightarrow> LocalStorage \<Rightarrow> os_env \<Rightarrow> fs \<Rightarrow> string \<Rightarrow> (fs \<times> bool res) option" where
  "RewrapObject lib ls env fs key =
     (case ls_enc ls of
        None \<Rightarrow> Some (fs, Inr False)
      | Some enc \<Rightarrow>
          (case rbind (objectPath ls key) (\<lambda>p.
                rbind (case readMeta lib env fs (metaPath p) of
                         Inl e \<Rightarrow> Inl (if errors_is e OsErrNotExist then Sentinel StorageNotFound else e)
                       | Inr m \<Rightarrow> Inr m) (\<lambda>m. Inr (p, m))) of
             Inl e \<Rightarrow> Some (fs, Inl e)
           | Inr (p, m) \<Rightarrow>
               if lm_Envelope m = [] then Some (fs, Inr False)
               else (case rewrap lib (oe_rnd env) enc (lm_Envelope m) of
                       None \<Rightarrow> None
                     | Some (Inl e) \<Rightarrow> Some (fs, Inl e)
                     | Some (Inr (newEnv, changed)) \<Rightarrow>
                         if \<not> changed then Some (fs, Inr False)
                         else (case writeMeta lib env fs (metaPath p) (m\<lparr>lm_Envelope := newEnv\<rparr>) of
                                 Inl e \<Rightarrow> Some (fs, Inl e)
                               | Inr fs' \<Rightarrow> Some (fs', Inr True)))))"

end
