(* ===== verification/Local_Multipart.thy ===== *)
theory Local_Multipart
  imports Local_Storage
begin

text \<open>
  Multipart uploads of the local backend, \<open>internal/storage/local_multipart.go\<close>.  Parts are files of a
  directory of their own; completing an upload writes their concatenation as one object.
\<close>

text \<open>\<open>%05d\<close>.\<close>

definition zero_pad :: "nat \<Rightarrow> string \<Rightarrow> string" where
  "zero_pad w s = replicate (w - length s) CHR ''0'' @ s"

definition part_name :: "int \<Rightarrow> string" where
  "part_name n = ''part-'' @ (if n < 0 then CHR ''-'' # zero_pad 4 (decimal (nat (- n))) else zero_pad 5 (decimal (nat n)))"

definition multipart_dir :: "LocalStorage \<Rightarrow> string \<Rightarrow> fpath" where
  "multipart_dir ls uploadID = clean_segments True (lc_Root (ls_cfg ls) @ ''.multipart'' # segments uploadID)"

definition validateMultipartSSEC :: "PutOptions \<Rightarrow> PutOptions \<Rightarrow> gerr option" where
  "validateMultipartSSEC initial request =
     (if po_SSECustomerKey initial = [] then fails (po_SSECustomerKey request \<noteq> []) (Sentinel ErrInvalidSSECustomerKey)
      else first_error [fails (length (po_SSECustomerKey request) \<noteq> masterKeyLen) (Sentinel ErrSSECustomerKeyRequired),
        fails (po_SSECustomerKey initial \<noteq> po_SSECustomerKey request) (Sentinel ErrInvalidSSECustomerKey)])"

definition local_InitMultipart :: "LocalStorage \<Rightarrow> os_env \<Rightarrow> string \<Rightarrow> PutOptions \<Rightarrow> local_state \<Rightarrow> local_state \<times> MultipartInit \<times> gerr option" where
  "local_InitMultipart ls env key opts st =
     (case validateServerSideEncryption ls opts of
        Some e \<Rightarrow> (st, zero_MultipartInit, Some e)
      | None \<Rightarrow>
          (let uploadID = oe_uuid env; dir = multipart_dir ls uploadID in
           case rbind (objectPath ls key) (\<lambda>_. os_call (oe_fault env) ''mkdir'' (os_MkdirAll (lo_fs st) dir)) of
             Inl e \<Rightarrow> (st, zero_MultipartInit, Some e)
           | Inr fs' \<Rightarrow>
               (\<lparr>lo_fs = fs', lo_uploads = AList.update uploadID
                   \<lparr>lu_key = key, lu_dir = dir, lu_createdAt = oe_now env, lu_opts = opts\<rparr> (lo_uploads st)\<rparr>,
                \<lparr>mi_Key = key, mi_UploadID = uploadID\<rparr>, None)))"

text \<open>
  \<open>os.Create\<close> truncates; the copy into the file fails after some of the bytes.  The result says whether
  the file was opened.
\<close>

definition create_file :: "os_env \<Rightarrow> fs \<Rightarrow> fpath \<Rightarrow> string \<Rightarrow> fs \<times> bool \<times> gerr option" where
  "create_file env fs p d =
     (case os_call (oe_fault env) ''create'' (os_replace fs p [] (oe_now env)) of
        Inl e \<Rightarrow> (fs, False, Some e)
      | Inr fs1 \<Rightarrow>
          (case oe_fault env ''write part'' of
             Some e \<Rightarrow> (AList.update p (File (take (oe_short env) d) (oe_now env)) fs1, True, Some e)
           | None \<Rightarrow> (AList.update p (File d (oe_now env)) fs1, True, None)))"

definition local_UploadPart ::
  "go_lib \<Rightarrow> os_env \<Rightarrow> string \<Rightarrow> string \<Rightarrow> int \<Rightarrow> string \<Rightarrow> PutOptions \<Rightarrow> local_state \<Rightarrow> local_state \<times> MultipartPart \<times> gerr option" where
  "local_UploadPart lib env key uploadID partNumber body opts st =
     (case map_of (lo_uploads st) uploadID of
        None \<Rightarrow> (st, zero_MultipartPart, Some (NewError ''unknown upload''))
      | Some up \<Rightarrow>
          if lu_key up \<noteq> key then (st, zero_MultipartPart, Some (NewError ''unknown upload''))
          else (case validateMultipartSSEC (lu_opts up) opts of
                  Some e \<Rightarrow> (st, zero_MultipartPart, Some e)
                | None \<Rightarrow>
                    (case create_file env (lo_fs st) (lu_dir up @ [part_name partNumber]) body of
                       (fs', _, Some e) \<Rightarrow> (st\<lparr>lo_fs := fs'\<rparr>, zero_MultipartPart, Some e)
                     | (fs', _, None) \<Rightarrow>
                         (st\<lparr>lo_fs := fs'\<rparr>, \<lparr>mp_PartNumber = partNumber, mp_ETag = hex_encode (gl_md5 lib body)\<rparr>, None))))"

definition multipartETag :: "go_lib \<Rightarrow> MultipartPart list \<Rightarrow> string res" where
  "multipartETag lib parts =
     rbind (foldr (\<lambda>p acc. rbind (wrap_err (\<lambda>e. Errorf ''multipart: non-hex etag'' [e]) (hex_decode (mp_ETag p))) (\<lambda>raw.
              rbind acc (\<lambda>rest. Inr (raw @ rest)))) parts (Inr [])) (\<lambda>raws.
     Inr (hex_encode (gl_md5 lib raws) @ CHR ''-'' # decimal (length parts)))"

fun writePartsTo :: "os_env \<Rightarrow> fs \<Rightarrow> fpath \<Rightarrow> MultipartPart list \<Rightarrow> string res" where
  "writePartsTo env fs dir [] = Inr []"
| "writePartsTo env fs dir (p # ps) =
     rbind (os_call (oe_fault env) ''open part'' (os_ReadFile fs (dir @ [part_name (mp_PartNumber p)]))) (\<lambda>d.
     rbind (writePartsTo env fs dir ps) (\<lambda>rest. Inr (d @ rest)))"

text \<open>\<open>mergeParts\<close>: the merged bytes replace the destination; the total counts the plaintext.\<close>

definition mergeParts :: "go_lib \<Rightarrow> LocalStorage \<Rightarrow> os_env \<Rightarrow> fs \<Rightarrow> localUpload \<Rightarrow> MultipartPart list \<Rightarrow> fpath \<Rightarrow> fs \<times> (int \<times> string) res" where
  "mergeParts lib ls env fs up parts dst =
     (case os_call (oe_fault env) ''mkdir'' (os_MkdirAll fs (butlast dst)) of
        Inl e \<Rightarrow> (fs, Inl e)
      | Inr fs1 \<Rightarrow>
          (case rbind (os_call (oe_fault env) ''temp'' (writePartsTo env fs1 (lu_dir up) parts)) (\<lambda>plain.
                rbind (seal_body lib env (put_encrypter ls (lu_opts up)) plain) (\<lambda>(bytes, envelope).
                rbind (os_call (oe_fault env) ''rename'' (os_replace fs1 dst bytes (oe_now env))) (\<lambda>fs2.
                Inr (fs2, int (length plain), envelope)))) of
             Inl e \<Rightarrow> (fs1, Inl e)
           | Inr (fs2, n, envelope) \<Rightarrow> (fs2, Inr (n, envelope))))"

definition complete_object ::
  "go_lib \<Rightarrow> LocalStorage \<Rightarrow> os_env \<Rightarrow> fs \<Rightarrow> localUpload \<Rightarrow> MultipartPart list \<Rightarrow> string \<Rightarrow> fs \<times> ObjectInfo \<times> gerr option" where
  "complete_object lib ls env fs up parts0 key =
     (let parts = sort_key mp_PartNumber parts0 in
      case objectPath ls key of
        Inl e \<Rightarrow> (fs, zero_ObjectInfo, Some e)
      | Inr dst \<Rightarrow>
          (case mergeParts lib ls env fs up parts dst of
             (fs1, Inl e) \<Rightarrow> (fs1, zero_ObjectInfo, Some e)
           | (fs1, Inr (n, envelope)) \<Rightarrow>
               (case rbind (multipartETag lib parts) (\<lambda>etag. rbind (newGeneration env) (\<lambda>generation. Inr (etag, generation))) of
                  Inl e \<Rightarrow> (fs1, zero_ObjectInfo, Some e)
                | Inr (etag, generation) \<Rightarrow>
                    finish_write lib env fs1 dst
                      \<lparr>lm_Key = key, lm_Size = n, lm_ETag = etag, lm_ContentType = po_ContentType (lu_opts up),
                       lm_LastModified = oe_now env,
                       lm_Metadata = kv_set GenerationMetadataKey generation (po_Metadata (lu_opts up)), lm_Envelope = envelope\<rparr>)))"

text \<open>
  The upload leaves the map as soon as the customer key fits, before the key of the object is compared;
  the deferred \<open>RemoveAll\<close> runs only after both checks.
\<close>

definition local_CompleteMultipart ::
  "go_lib \<Rightarrow> LocalStorage \<Rightarrow> os_env \<Rightarrow> string \<Rightarrow> string \<Rightarrow> MultipartPart list \<Rightarrow> PutOptions \<Rightarrow> local_state \<Rightarrow>
     local_state \<times> ObjectInfo \<times> gerr option" where
  "local_CompleteMultipart lib ls env key uploadID parts opts st =
     (case map_of (lo_uploads st) uploadID of
        None \<Rightarrow> (st, zero_ObjectInfo, Some (NewError ''unknown upload''))
      | Some up \<Rightarrow>
          (case validateMultipartSSEC (lu_opts up) opts of
             Some e \<Rightarrow> (st, zero_ObjectInfo, Some (if lu_key up \<noteq> key then NewError ''unknown upload'' else e))
           | None \<Rightarrow>
               (let st1 = st\<lparr>lo_uploads := AList.delete uploadID (lo_uploads st)\<rparr> in
                if lu_key up \<noteq> key then (st1, zero_ObjectInfo, Some (NewError ''unknown upload''))
                else (case complete_object lib ls env (lo_fs st1) up parts key of
                        (fs', info, err) \<Rightarrow> (st1\<lparr>lo_fs := os_clear (oe_fault env) ''remove all'' fs' (lu_dir up)\<rparr>, info, err)))))"

definition local_AbortMultipart :: "os_env \<Rightarrow> string \<Rightarrow> local_state \<Rightarrow> local_state" where
  "local_AbortMultipart env uploadID st =
     (case map_of (lo_uploads st) uploadID of
        None \<Rightarrow> st
      | Some up \<Rightarrow> \<lparr>lo_fs = os_clear (oe_fault env) ''remove all'' (lo_fs st) (lu_dir up), lo_uploads = AList.delete uploadID (lo_uploads st)\<rparr>)"

definition local_CleanupParts :: "LocalStorage \<Rightarrow> os_env \<Rightarrow> string \<Rightarrow> local_state \<Rightarrow> local_state \<times> gerr option" where
  "local_CleanupParts ls env uploadID st =
     (let dir = multipart_dir ls uploadID in
      case os_node (lo_fs st) dir of
        Inl e \<Rightarrow> if errors_is e OsErrNotExist then (st, None)
                  else (st\<lparr>lo_uploads := AList.delete uploadID (lo_uploads st)\<rparr>, Some e)
      | Inr _ \<Rightarrow>
          (let st1 = st\<lparr>lo_uploads := AList.delete uploadID (lo_uploads st)\<rparr> in
           case oe_fault env ''remove all'' of
             Some e \<Rightarrow> (st1, Some e)
           | None \<Rightarrow> (st1\<lparr>lo_fs := os_RemoveAll (lo_fs st) dir\<rparr>, None)))"

text \<open>The bytes of the source a part copy asks for; a negative offset asks for all of them.\<close>

definition source_range :: "string \<Rightarrow> int \<Rightarrow> int \<Rightarrow> string res" where
  "source_range d srcOffset len =
     (if srcOffset < 0 then Inr d
      else if len \<le> 0 \<or> srcOffset \<ge> int (length d) \<or> len > int (length d) - srcOffset then Inl (NewError ''invalid source range'')
      else Inr (take (nat len) (drop (nat srcOffset) d)))"

definition local_UploadPartCopy ::
  "go_lib \<Rightarrow> LocalStorage \<Rightarrow> os_env \<Rightarrow> string \<Rightarrow> string \<Rightarrow> int \<Rightarrow> string \<Rightarrow> int \<Rightarrow> int \<Rightarrow> local_state \<Rightarrow>
     local_state \<times> MultipartPart \<times> gerr option" where
  "local_UploadPartCopy lib ls env dstKey uploadID partNumber srcKey srcOffset len st =
     (case map_of (lo_uploads st) uploadID of
        None \<Rightarrow> (st, zero_MultipartPart, Some (NewError ''unknown upload''))
      | Some up \<Rightarrow>
          if lu_key up \<noteq> dstKey then (st, zero_MultipartPart, Some (NewError ''unknown upload''))
          else (case rbind (objectPath ls srcKey) (\<lambda>src.
                     rbind (os_call (oe_fault env) ''open'' (os_node (lo_fs st) src)) (\<lambda>n.
                     rbind (wrap_err (\<lambda>e. Errorf ''read source metadata'' [e]) (readMeta lib env (lo_fs st) (metaPath src))) (\<lambda>m.
                     if lm_Envelope m \<noteq> [] then Inl (Sentinel ErrUnsupported)
                     else rbind (case n of Dir \<Rightarrow> Inl EISDIR | File d _ \<Rightarrow> Inr d) (\<lambda>d. source_range d srcOffset len)))) of
                  Inl e \<Rightarrow> (st, zero_MultipartPart, Some e)
                | Inr d \<Rightarrow>
                    (let p = lu_dir up @ [part_name partNumber] in
                     case create_file env (lo_fs st) p d of
                       (fs', opened, Some e) \<Rightarrow>
                         (st\<lparr>lo_fs := (if opened then os_discard (oe_fault env) ''remove part'' fs' p else fs')\<rparr>, zero_MultipartPart, Some e)
                     | (fs', _, None) \<Rightarrow> (st\<lparr>lo_fs := fs'\<rparr>, \<lparr>mp_PartNumber = partNumber, mp_ETag = hex_encode (gl_md5 lib d)\<rparr>, None))))"

end
