(* ===== verification/Local_Objects.thy ===== *)
theory Local_Objects
  imports Local_Multipart
begin

text \<open>
  What the operations of the local backend do to stored objects: where they write, what a read
  returns after a write, and which objects they leave alone.
\<close>

section \<open>Paths of keys\<close>

definition clean_root :: "LocalStorage \<Rightarrow> bool" where
  "clean_root ls \<longleftrightarrow> lc_Root (ls_cfg ls) \<noteq> [] \<and> list_all plain_name (lc_Root (ls_cfg ls))"

definition key_path :: "LocalStorage \<Rightarrow> string \<Rightarrow> fpath" where
  "key_path ls key = lc_Root (ls_cfg ls) @ filter proper (segments key)"

lemma filter_proper_root: "clean_root ls \<Longrightarrow> filter proper (lc_Root (ls_cfg ls)) = lc_Root (ls_cfg ls)"
  by (simp add: clean_root_def plain_name_def list_all_iff)

lemma segments_path_clean:
  assumes "\<not> contains_sub key ''..''" "\<not> has_prefix key ''/''"
  shows "filter proper (segments (path_clean key)) = filter proper (segments key)" "''..'' \<notin> set (segments (path_clean key))"
proof -
  let ?f = "filter proper (segments key)"
  have cl: "clean_segments False (segments key) = ?f" using no_parent_segment [OF assms(1)] by (rule clean_no_parent)
  have ns: "\<forall>x \<in> set ?f. CHR ''/'' \<notin> set x" using segments_no_slash by auto
  have f: "?f = [] \<or> segments (join_slash ?f) = ?f" using segments_join [OF _ ns] by blast
  have ne: "?f \<noteq> [] \<Longrightarrow> join_slash ?f \<noteq> []"
    by (cases ?f rule: join_slash.cases) (auto simp: proper_def dest!: filter_hd)
  have np: "''..'' \<notin> set ?f" using no_parent_segment [OF assms(1)] by auto
  have "filter proper (segments (path_clean key)) = ?f \<and> ''..'' \<notin> set (segments (path_clean key))"
  proof (cases "?f = []")
    case True
    then have "path_clean key = ''.''" using assms(2) by (simp add: path_clean_def Let_def cl)
    then show ?thesis by (simp add: True proper_def)
  next
    case False
    then have "path_clean key = join_slash ?f" using assms(2) ne by (simp add: path_clean_def Let_def cl)
    with f False np show ?thesis by simp
  qed
  then show "filter proper (segments (path_clean key)) = ?f" "''..'' \<notin> set (segments (path_clean key))" by simp_all
qed

lemma objectPath_Inr:
  assumes "clean_root ls"
  shows "objectPath ls key = Inr p \<longleftrightarrow> validateObjectKey key = None \<and> p = key_path ls key"
proof (cases "validateObjectKey key")
  case None
  then have k: "\<not> contains_sub key ''..''" "\<not> has_prefix key ''/''" by (auto simp: validateObjectKey_def)
  let ?root = "lc_Root (ls_cfg ls)" and ?f = "filter proper (segments key)"
  have "''..'' \<notin> set (?root @ segments (path_clean key))"
    using assms segments_path_clean(2) [OF k] by (auto simp: clean_root_def plain_name_def list_all_iff)
  then have full: "clean_segments True (?root @ segments (path_clean key)) = ?root @ ?f"
    by (simp add: clean_no_parent segments_path_clean(1) [OF k] filter_proper_root [OF assms])
  have "\<not> has_prefix (join_slash ?f) ''..''"
  proof
    assume "has_prefix (join_slash ?f) ''..''"
    then have "\<exists>x \<in> set ?f. has_prefix x ''..''"
    proof (cases ?f rule: join_slash.cases)
      case (3 x y xs)
      have "CHR ''/'' \<notin> set x" "x \<noteq> []" using 3 segments_no_slash [of x key] by (auto simp: proper_def dest!: filter_hd)
      then have "has_prefix (x @ CHR ''/'' # join_slash (y # xs)) ''..'' \<Longrightarrow> has_prefix x ''..'' \<or> x = ''.''"
        by (cases x; cases "tl x") (auto simp: has_prefix_def)
      moreover have "x \<noteq> ''.''" using 3 by (auto simp: proper_def dest!: filter_hd)
      ultimately show ?thesis using \<open>has_prefix (join_slash ?f) ''..''\<close> 3 by auto
    qed (auto simp: has_prefix_def)
    then obtain x where "x \<in> set (segments key)" "has_prefix x ''..''" by auto
    then obtain u v r where "key = u @ x @ v" "x = ''..'' @ r" using segments_mem [of x key] by (auto simp: has_prefix_iff)
    then have "key = u @ ''..'' @ (r @ v)" by simp
    with k(1) contains_sub_append [of u "''..''" "r @ v"] show False by simp
  qed
  then show ?thesis using None by (auto simp: objectPath_def Let_def full key_path_def)
qed (simp add: objectPath_def)

lemma objectPath_key: "clean_root ls \<Longrightarrow> objectPath ls key = Inr p \<Longrightarrow> p = key_path ls key"
  by (simp add: objectPath_Inr)

lemma key_path_prefix [simp]: "prefix (lc_Root (ls_cfg ls)) (key_path ls key)"
  by (simp add: key_path_def)

lemma key_path_not_Nil: "clean_root ls \<Longrightarrow> key_path ls key \<noteq> []"
  by (simp add: key_path_def clean_root_def)

lemma metaPath_inject: "p \<noteq> [] \<Longrightarrow> q \<noteq> [] \<Longrightarrow> metaPath p = metaPath q \<longleftrightarrow> p = q"
  by (metis metaPath_def append_butlast_last_id append_same_eq butlast_snoc last_snoc)

lemma metaPath_neq: "p \<noteq> [] \<Longrightarrow> metaPath p \<noteq> p"
  by (cases p rule: rev_cases) (simp_all add: metaPath_def)

lemma metaPath_Nil [simp]: "metaPath p \<noteq> []"
  by (simp add: metaPath_def)

lemma butlast_metaPath [simp]: "butlast (metaPath p) = butlast p"
  by (simp add: metaPath_def)

section \<open>Files an operation writes\<close>

definition file_at :: "fs \<Rightarrow> fpath \<Rightarrow> node option" where
  "file_at fs p = (if is_file (map_of fs p) then map_of fs p else None)"

definition touches :: "fpath set \<Rightarrow> fs \<Rightarrow> fs \<Rightarrow> bool" where
  "touches P fs fs' \<longleftrightarrow> (\<forall>q. q \<notin> P \<longrightarrow> file_at fs' q = file_at fs q)"

lemma touches_refl [simp, intro]: "touches P fs fs"
  by (simp add: touches_def)

lemma touches_trans [trans]: "touches P fs fs1 \<Longrightarrow> touches P fs1 fs2 \<Longrightarrow> touches P fs fs2"
  by (simp add: touches_def)

lemma touches_mono: "touches P fs fs' \<Longrightarrow> P \<subseteq> Q \<Longrightarrow> touches Q fs fs'"
  by (auto simp: touches_def)

lemma touches_MkdirAll: "os_MkdirAll fs p = Inr fs' \<Longrightarrow> touches P fs fs'"
proof -
  assume m: "os_MkdirAll fs p = Inr fs'"
  have "file_at fs' q = file_at fs q" for q
  proof (cases "is_file (map_of fs q)")
    case True
    then show ?thesis using os_MkdirAll_Inr(2) [OF m True] by (simp add: file_at_def)
  next
    case False
    then show ?thesis using os_MkdirAll_Inr(1) [OF m, of q] by (simp add: file_at_def)
  qed
  then show "touches P fs fs'" by (simp add: touches_def)
qed

lemma touches_upd: "map_of fs' = (map_of fs)(p := n) \<Longrightarrow> p \<in> P \<Longrightarrow> touches P fs fs'"
  by (auto simp: touches_def file_at_def)

lemma touches_replace: "os_replace fs p d t = Inr fs' \<Longrightarrow> p \<in> P \<Longrightarrow> touches P fs fs'"
  by (drule os_replace_Inr(1)) (rule touches_upd)

lemma touches_Remove: "os_Remove fs p = Inr fs' \<Longrightarrow> p \<in> P \<Longrightarrow> touches P fs fs'"
  by (drule os_Remove_Inr) (rule touches_upd)

lemma touches_discard: "p \<in> P \<Longrightarrow> touches P fs (os_discard flt l fs p)"
  using touches_Remove by (auto simp: os_discard_def os_call_def split: option.splits sum.splits)

lemma touches_RemoveAll: "{q. prefix p q} \<subseteq> P \<Longrightarrow> touches P fs (os_RemoveAll fs p)"
  by (auto simp: touches_def file_at_def os_RemoveAll_simps)

lemma os_call_Inr [simp]: "os_call flt l b = Inr x \<longleftrightarrow> flt l = None \<and> b = Inr x"
  by (auto simp: os_call_def split: option.splits)

text \<open>Each operation writes the file and the sidecar of the key it names.\<close>

definition foot :: "LocalStorage \<Rightarrow> string \<Rightarrow> fpath set" where
  "foot ls key = {key_path ls key, metaPath (key_path ls key)}"

definition keeps :: "fpath set \<Rightarrow> fs \<Rightarrow> fs \<Rightarrow> bool" where
  "keeps P fs fs' \<longleftrightarrow> touches P fs fs' \<and> (fs_ok fs \<longrightarrow> fs_ok fs')"

lemma keeps_refl [simp, intro]: "keeps P fs fs"
  by (simp add: keeps_def)

lemma keeps_trans [trans]: "keeps P fs fs1 \<Longrightarrow> keeps P fs1 fs2 \<Longrightarrow> keeps P fs fs2"
  by (auto simp: keeps_def intro: touches_trans)

lemma keeps_mono: "keeps P fs fs' \<Longrightarrow> P \<subseteq> Q \<Longrightarrow> keeps Q fs fs'"
  by (auto simp: keeps_def intro: touches_mono)

lemma keeps_MkdirAll: "os_MkdirAll fs p = Inr fs' \<Longrightarrow> keeps P fs fs'"
  by (simp add: keeps_def touches_MkdirAll os_MkdirAll_ok)

lemma keeps_replace: "os_replace fs p d t = Inr fs' \<Longrightarrow> p \<in> P \<Longrightarrow> p \<noteq> [] \<Longrightarrow> keeps P fs fs'"
  by (simp add: keeps_def touches_replace os_replace_ok)

lemma keeps_Remove: "os_Remove fs p = Inr fs' \<Longrightarrow> p \<in> P \<Longrightarrow> keeps P fs fs'"
  by (simp add: keeps_def touches_Remove os_Remove_ok)

lemma keeps_discard: "p \<in> P \<Longrightarrow> keeps P fs (os_discard flt l fs p)"
  by (simp add: keeps_def touches_discard os_discard_simps)

lemma keeps_RemoveAll: "{q. prefix p q} \<subseteq> P \<Longrightarrow> keeps P fs (os_RemoveAll fs p)"
  by (simp add: keeps_def touches_RemoveAll os_RemoveAll_ok)

lemma keeps_clear: "{q. prefix p q} \<subseteq> P \<Longrightarrow> keeps P fs (os_clear flt l fs p)"
  by (simp add: os_clear_def keeps_RemoveAll split: option.split)

lemma keeps_finish:
  assumes "p \<noteq> []" "{p, metaPath p} \<subseteq> P"
  shows "keeps P fs (fst (finish_write lib env fs p m))"
  using assms keeps_discard [of p P fs] keeps_replace [of fs "metaPath p" _ _ _ P]
  by (auto simp: finish_write_def writeMeta_def split: sum.splits if_splits)

lemma keeps_writeObject:
  assumes "p \<noteq> []" "p \<in> P"
  shows "keeps P fs (fst (writeObject lib ls env fs p key body opts))"
proof (cases "rbind (os_call (oe_fault env) ''temp'' (seal_body lib env (put_encrypter ls opts) body)) (\<lambda>(bytes, envelope).
           rbind (os_call (oe_fault env) ''rename'' (os_replace fs p bytes (oe_now env))) (\<lambda>fs'. Inr (fs', bytes, envelope)))")
  case (Inr x)
  then obtain fs' bytes envelope where "x = (fs', bytes, envelope)" "os_replace fs p bytes (oe_now env) = Inr fs'"
    by (auto simp: rbind_Inr)
  with Inr keeps_replace [OF this(2) assms(2,1)] show ?thesis by (simp add: writeObject_def Let_def)
qed (simp add: writeObject_def Let_def)

lemma foot_path:
  assumes "clean_root ls" "objectPath ls key = Inr p"
  shows "p \<noteq> []" "{p, metaPath p} \<subseteq> foot ls key"
  using objectPath_key [OF assms] key_path_not_Nil [OF assms(1)] by (auto simp: foot_def)

lemma keeps_Put:
  assumes "clean_root ls"
  shows "keeps (foot ls key) fs (fst (local_Put lib ls env fs key body sz opts))"
proof (cases "validateServerSideEncryption ls opts")
  case None
  show ?thesis
  proof (cases "rbind (objectPath ls key) (\<lambda>p. rbind (os_call (oe_fault env) ''mkdir'' (os_MkdirAll fs (butlast p))) (\<lambda>fs1. Inr (p, fs1)))")
    case (Inl e)
    with None show ?thesis by (simp add: local_Put_def)
  next
    case (Inr x)
    then obtain p fs1 where x: "x = (p, fs1)" "objectPath ls key = Inr p" "os_MkdirAll fs (butlast p) = Inr fs1" by (auto simp: rbind_Inr)
    note f = foot_path [OF assms x(2)]
    obtain fs2 r where w: "writeObject lib ls env fs1 p key body opts = (fs2, r)" by (cases "writeObject lib ls env fs1 p key body opts")
    have "keeps (foot ls key) fs fs2"
      using keeps_MkdirAll [OF x(3)] keeps_writeObject [OF f(1), of "foot ls key" fs1 lib ls env key body opts] f(2)
      by (auto simp: w intro: keeps_trans)
    moreover have "keeps (foot ls key) fs2 (fst (finish_write lib env fs2 p m))" for m by (rule keeps_finish [OF f])
    ultimately show ?thesis using None Inr x w by (auto simp: local_Put_def split: sum.splits intro: keeps_trans)
  qed
qed (simp add: local_Put_def)

lemma keeps_Delete:
  assumes "clean_root ls"
  shows "keeps (foot ls key) fs (fst (local_Delete ls env fs key))"
proof (cases "objectPath ls key")
  case (Inr p)
  note f = foot_path [OF assms Inr]
  define fs1 where "fs1 = os_discard (oe_fault env) ''remove meta'' fs (metaPath p)"
  have k1: "keeps (foot ls key) fs fs1" unfolding fs1_def using f(2) by (auto intro: keeps_discard)
  have "keeps (foot ls key) fs1 fs2" if "os_Remove fs1 p = Inr fs2" for fs2
    using that f(2) by (auto intro: keeps_Remove)
  with k1 show ?thesis
    by (auto simp: local_Delete_def Inr Let_def fs1_def [symmetric] split: sum.splits intro: keeps_trans)
qed (simp add: local_Delete_def)

lemma keeps_Copy:
  assumes "clean_root ls"
  shows "keeps (foot ls dstKey) fs (fst (local_Copy lib ls env fs srcKey dstKey opts))"
proof (cases "rbind (objectPath ls srcKey) (\<lambda>src.
           rbind (case readMeta lib env fs (metaPath src) of
                    Inl e \<Rightarrow> Inl (if errors_is e OsErrNotExist then Sentinel StorageNotFound else e)
                  | Inr m \<Rightarrow> Inr m) (\<lambda>m.
           rbind (objectPath ls dstKey) (\<lambda>dst.
           rbind (os_call (oe_fault env) ''mkdir'' (os_MkdirAll fs (butlast dst))) (\<lambda>fs1. Inr (src, m, dst, fs1)))))")
  case (Inr x)
  then obtain src m dst fs1 where x: "x = (src, m, dst, fs1)" "objectPath ls dstKey = Inr dst" "os_MkdirAll fs (butlast dst) = Inr fs1"
    by (auto simp: rbind_Inr)
  note f = foot_path [OF assms x(2)]
  have k1: "keeps (foot ls dstKey) fs fs1" by (rule keeps_MkdirAll [OF x(3)])
  show ?thesis
  proof (cases "rbind (open_file env fs1 src) (\<lambda>f. rbind (os_call (oe_fault env) ''temp'' f) (\<lambda>bytes.
                rbind (os_call (oe_fault env) ''rename'' (os_replace fs1 dst bytes (oe_now env))) (\<lambda>fs2. Inr (fs2, bytes))))")
    case (Inl e)
    with Inr x k1 show ?thesis by (simp add: local_Copy_def)
  next
    case inner: (Inr y)
    then obtain fs2 bytes where y: "y = (fs2, bytes)" "os_replace fs1 dst bytes (oe_now env) = Inr fs2" by (auto simp: rbind_Inr)
    have k2: "keeps (foot ls dstKey) fs fs2" using keeps_trans [OF k1] keeps_replace [OF y(2)] f by auto
    have "keeps (foot ls dstKey) fs2 (fst (finish_write lib env fs2 dst m'))" for m' by (rule keeps_finish [OF f])
    with k2 show ?thesis using Inr x inner y by (auto simp: local_Copy_def split: sum.splits intro: keeps_trans)
  qed
qed (simp add: local_Copy_def)

lemma keeps_Rewrap:
  assumes "clean_root ls" "RewrapObject lib ls env fs key = Some (fs', r)"
  shows "keeps (foot ls key) fs fs'"
proof -
  have "keeps (foot ls key) fs fs'" if "objectPath ls key = Inr p" "writeMeta lib env fs (metaPath p) m = Inr fs'" for p m
    using foot_path [OF assms(1) that(1)] that(2) by (auto simp: writeMeta_def intro!: keeps_replace split: if_splits)
  with assms(2) show ?thesis
    by (auto simp: RewrapObject_def rbind_def split: option.splits sum.splits if_splits prod.splits)
qed

end
