(* ===== verification/Local_History.thy ===== *)
theory Local_History
  imports Local_Objects
begin

text \<open>
  Sequences of operations of the local backend.  Whatever they fail at, they change only the objects
  they name: the objects whose file and sidecar are not among the files written are read as before.
\<close>

section \<open>Multipart operations\<close>

definition multi_area :: "LocalStorage \<Rightarrow> fpath set" where
  "multi_area ls = {q. prefix (lc_Root (ls_cfg ls) @ [''.multipart'']) q}"

definition uploads_ok :: "LocalStorage \<Rightarrow> local_state \<Rightarrow> bool" where
  "uploads_ok ls st \<longleftrightarrow> (\<forall>i up. map_of (lo_uploads st) i = Some up \<longrightarrow> prefix (lc_Root (ls_cfg ls) @ [''.multipart'']) (lu_dir up))"

definition local_inv :: "LocalStorage \<Rightarrow> local_state \<Rightarrow> bool" where
  "local_inv ls st \<longleftrightarrow> fs_ok (lo_fs st) \<and> uploads_ok ls st"

lemma multipart_dir_plain:
  assumes "clean_root ls" "plain_name i"
  shows "multipart_dir ls i = lc_Root (ls_cfg ls) @ [''.multipart'', i]"
proof -
  have "''..'' \<notin> set (lc_Root (ls_cfg ls) @ ''.multipart'' # segments i)"
    using assms by (auto simp: clean_root_def plain_name_def list_all_iff)
  then show ?thesis
    using assms(2) by (simp add: multipart_dir_def clean_no_parent filter_proper_root [OF assms(1)] plain_name_def proper_def)
qed

lemma keeps_create:
  assumes "p \<in> P" "p \<noteq> []"
  shows "keeps P fs (fst (create_file env fs p d))"
proof (cases "os_call (oe_fault env) ''create'' (os_replace fs p [] (oe_now env))")
  case (Inr fs1)
  then have r: "os_replace fs p [] (oe_now env) = Inr fs1" by simp
  have m: "map_of (AList.update p (File x t) fs1) = (map_of fs1)(p \<mapsto> File x t)" for x t by (rule update_conv')
  have "fs_ok (AList.update p (File x t) fs1)" if "fs_ok fs" for x t
  proof -
    have ok: "fs_ok fs1" by (rule os_replace_ok [OF r that assms(2)])
    have f: "map_of fs1 p = Some (File [] (oe_now env))" using os_replace_Inr(1) [OF r] by simp
    show ?thesis unfolding fs_ok_def m
    proof (intro allI impI)
      fix q q'
      assume q: "((map_of fs1)(p \<mapsto> File x t)) q \<noteq> None" "strict_prefix q' q"
      then have "map_of fs1 q \<noteq> None" using f by (auto split: if_splits)
      with ok q(2) have d: "map_of fs1 q' = Some Dir" by (auto simp: fs_ok_def)
      then show "((map_of fs1)(p \<mapsto> File x t)) q' = Some Dir" using f by auto
    qed
  qed
  moreover have "touches P fs (AList.update p (File x t) fs1)" for x t
    using touches_trans [OF touches_replace [OF r assms(1)] touches_upd [OF m assms(1)]] .
  ultimately show ?thesis using Inr by (auto simp: create_file_def os_call_def keeps_def split: option.splits)
qed (simp add: create_file_def)

lemma keeps_complete:
  assumes "clean_root ls"
  shows "keeps (foot ls key) fs (fst (complete_object lib ls env fs up parts key))"
proof (cases "objectPath ls key")
  case (Inr dst)
  note f = foot_path [OF assms Inr]
  obtain fs1 r where m: "mergeParts lib ls env fs up (sort_key mp_PartNumber parts) dst = (fs1, r)"
    by (cases "mergeParts lib ls env fs up (sort_key mp_PartNumber parts) dst")
  have k1: "keeps (foot ls key) fs fs1"
  proof (cases "os_MkdirAll fs (butlast dst)")
    case (Inl e)
    with m show ?thesis by (auto simp: mergeParts_def os_call_def split: option.splits)
  next
    case mk: (Inr fs0)
    have k0: "keeps (foot ls key) fs fs0" by (rule keeps_MkdirAll [OF mk])
    have rp: "keeps (foot ls key) fs0 x" if "os_replace fs0 dst bytes t = Inr x" for x bytes t
      using keeps_replace [OF that] f by auto
    show ?thesis
    proof (cases "rbind (os_call (oe_fault env) ''temp'' (writePartsTo env fs0 (lu_dir up) (sort_key mp_PartNumber parts))) (\<lambda>plain.
                rbind (seal_body lib env (put_encrypter ls (lu_opts up)) plain) (\<lambda>(bytes, envelope).
                rbind (os_call (oe_fault env) ''rename'' (os_replace fs0 dst bytes (oe_now env))) (\<lambda>fs2.
                Inr (fs2, int (length plain), envelope))))")
      case (Inl e)
      with m mk k0 show ?thesis by (auto simp: mergeParts_def os_call_def split: option.splits)
    next
      case (Inr y)
      then obtain fs2 n envelope bytes where "y = (fs2, n, envelope)" "os_replace fs0 dst bytes (oe_now env) = Inr fs2"
        by (auto simp: rbind_Inr)
      with m mk k0 rp Inr show ?thesis by (auto simp: mergeParts_def os_call_def split: option.splits intro: keeps_trans)
    qed
  qed
  have "keeps (foot ls key) fs1 (fst (finish_write lib env fs1 dst m'))" for m' by (rule keeps_finish [OF f])
  with k1 show ?thesis using Inr m by (auto simp: complete_object_def Let_def split: sum.splits intro: keeps_trans)
qed (simp add: complete_object_def Let_def)

section \<open>Histories\<close>

datatype local_op =
    LPut string string int PutOptions
  | LDelete string
  | LCopy string string CopyOptions
  | LRewrap string
  | LInit string PutOptions
  | LUploadPart string string int string PutOptions
  | LPartCopy string string int string int int
  | LComplete string string "MultipartPart list" PutOptions
  | LAbort string
  | LCleanup string

fun local_exec :: "go_lib \<Rightarrow> LocalStorage \<Rightarrow> os_env \<Rightarrow> local_op \<Rightarrow> local_state \<Rightarrow> local_state" where
  "local_exec lib ls env (LPut key body sz opts) st = st\<lparr>lo_fs := fst (local_Put lib ls env (lo_fs st) key body sz opts)\<rparr>"
| "local_exec lib ls env (LDelete key) st = st\<lparr>lo_fs := fst (local_Delete ls env (lo_fs st) key)\<rparr>"
| "local_exec lib ls env (LCopy src dst opts) st = st\<lparr>lo_fs := fst (local_Copy lib ls env (lo_fs st) src dst opts)\<rparr>"
| "local_exec lib ls env (LRewrap key) st =
     (case RewrapObject lib ls env (lo_fs st) key of None \<Rightarrow> st | Some (fs', _) \<Rightarrow> st\<lparr>lo_fs := fs'\<rparr>)"
| "local_exec lib ls env (LInit key opts) st = fst (local_InitMultipart ls env key opts st)"
| "local_exec lib ls env (LUploadPart key i n body opts) st = fst (local_UploadPart lib env key i n body opts st)"
| "local_exec lib ls env (LPartCopy key i n src off len) st = fst (local_UploadPartCopy lib ls env key i n src off len st)"
| "local_exec lib ls env (LComplete key i parts opts) st = fst (local_CompleteMultipart lib ls env key i parts opts st)"
| "local_exec lib ls env (LAbort i) st = local_AbortMultipart env i st"
| "local_exec lib ls env (LCleanup i) st = fst (local_CleanupParts ls env i st)"

fun op_target :: "local_op \<Rightarrow> string option" where
  "op_target (LPut key _ _ _) = Some key"
| "op_target (LDelete key) = Some key"
| "op_target (LCopy _ dst _) = Some dst"
| "op_target (LRewrap key) = Some key"
| "op_target (LComplete key _ _ _) = Some key"
| "op_target _ = None"

text \<open>Upload ids are path elements: the uuids the backend draws.\<close>

fun ids_plain :: "os_env \<times> local_op \<Rightarrow> bool" where
  "ids_plain (env, LCleanup i) \<longleftrightarrow> plain_name i"
| "ids_plain (env, LInit _ _) \<longleftrightarrow> plain_name (oe_uuid env)"
| "ids_plain _ \<longleftrightarrow> True"

definition op_area :: "LocalStorage \<Rightarrow> local_op \<Rightarrow> fpath set" where
  "op_area ls oper = (case op_target oper of None \<Rightarrow> {} | Some key \<Rightarrow> foot ls key) \<union> multi_area ls"

definition local_run :: "go_lib \<Rightarrow> LocalStorage \<Rightarrow> (os_env \<times> local_op) list \<Rightarrow> local_state \<Rightarrow> local_state" where
  "local_run lib ls ops st = foldl (\<lambda>st (env, oper). local_exec lib ls env oper st) st ops"

lemma dir_in_area: "prefix (lc_Root (ls_cfg ls) @ [''.multipart'']) d \<Longrightarrow> {q. prefix d q} \<subseteq> multi_area ls"
  by (auto simp: multi_area_def)

lemma part_in_area: "prefix (lc_Root (ls_cfg ls) @ [''.multipart'']) d \<Longrightarrow> d @ [x] \<in> multi_area ls"
  by (auto simp: multi_area_def)

lemma uploads_delete: "uploads_ok ls st \<Longrightarrow> lo_uploads st' = AList.delete i (lo_uploads st) \<Longrightarrow> uploads_ok ls st'"
  by (auto simp: uploads_ok_def delete_conv' split: if_splits)

lemma exec_multipart:
  assumes "clean_root ls" "uploads_ok ls st"
  shows "plain_name (oe_uuid env) \<Longrightarrow> keeps (multi_area ls) (lo_fs st) (lo_fs (fst (local_InitMultipart ls env key opts st)))
      \<and> uploads_ok ls (fst (local_InitMultipart ls env key opts st))"
    and "keeps (multi_area ls) (lo_fs st) (lo_fs (fst (local_UploadPart lib env key i n body opts st)))
      \<and> uploads_ok ls (fst (local_UploadPart lib env key i n body opts st))"
    and "keeps (multi_area ls) (lo_fs st) (lo_fs (fst (local_UploadPartCopy lib ls env key i n src off len st)))
      \<and> uploads_ok ls (fst (local_UploadPartCopy lib ls env key i n src off len st))"
    and "keeps (multi_area ls) (lo_fs st) (lo_fs (local_AbortMultipart env i st)) \<and> uploads_ok ls (local_AbortMultipart env i st)"
    and "plain_name i \<Longrightarrow> keeps (multi_area ls) (lo_fs st) (lo_fs (fst (local_CleanupParts ls env i st)))
      \<and> uploads_ok ls (fst (local_CleanupParts ls env i st))"
proof -
  have dir: "prefix (lc_Root (ls_cfg ls) @ [''.multipart'']) (lu_dir up)" if "map_of (lo_uploads st) i = Some up" for up i
    using assms(2) that by (auto simp: uploads_ok_def)
  have cr: "keeps (multi_area ls) fs (fst (create_file env fs (lu_dir up @ [x]) d))" if "map_of (lo_uploads st) i = Some up" for up fs x d
    using keeps_create [OF part_in_area [OF dir [OF that]]] by simp
  show "keeps (multi_area ls) (lo_fs st) (lo_fs (fst (local_InitMultipart ls env key opts st)))
      \<and> uploads_ok ls (fst (local_InitMultipart ls env key opts st))" if "plain_name (oe_uuid env)"
  proof -
    have "prefix (lc_Root (ls_cfg ls) @ [''.multipart'']) (multipart_dir ls (oe_uuid env))"
      by (simp add: multipart_dir_plain [OF assms(1) that])
    then show ?thesis
      using assms(2) by (auto simp: local_InitMultipart_def Let_def rbind_def uploads_ok_def update_conv' intro: keeps_MkdirAll
          split: option.splits sum.splits if_splits)
  qed
  show "keeps (multi_area ls) (lo_fs st) (lo_fs (fst (local_UploadPart lib env key i n body opts st)))
      \<and> uploads_ok ls (fst (local_UploadPart lib env key i n body opts st))"
  proof (cases "map_of (lo_uploads st) i")
    case (Some up)
    from cr [OF Some, of "lo_fs st" "part_name n" body] assms(2) show ?thesis
      by (auto simp: local_UploadPart_def Some uploads_ok_def split: option.splits prod.splits)
  qed (use assms(2) in \<open>simp add: local_UploadPart_def\<close>)
  show "keeps (multi_area ls) (lo_fs st) (lo_fs (fst (local_UploadPartCopy lib ls env key i n src off len st)))
      \<and> uploads_ok ls (fst (local_UploadPartCopy lib ls env key i n src off len st))"
  proof (cases "map_of (lo_uploads st) i")
    case (Some up)
    have dc: "keeps (multi_area ls) fs (os_discard flt l fs (lu_dir up @ [x]))" for fs flt l x
      by (rule keeps_discard [OF part_in_area [OF dir [OF Some]]])
    have "keeps (multi_area ls) (lo_fs st) fs'"
      if "create_file env (lo_fs st) (lu_dir up @ [part_name n]) d = (fs', x)" for fs' x d
      using cr [OF Some, of "lo_fs st" "part_name n" d] that by simp
    with keeps_trans [OF this dc] assms(2) show ?thesis
      by (auto simp: local_UploadPartCopy_def Some Let_def uploads_ok_def split: sum.splits option.splits prod.splits)
  qed (use assms(2) in \<open>simp add: local_UploadPartCopy_def\<close>)
  show "keeps (multi_area ls) (lo_fs st) (lo_fs (local_AbortMultipart env i st)) \<and> uploads_ok ls (local_AbortMultipart env i st)"
    using keeps_clear [OF dir_in_area [OF dir]] uploads_delete [OF assms(2)] assms(2)
    by (auto simp: local_AbortMultipart_def split: option.splits)
  show "keeps (multi_area ls) (lo_fs st) (lo_fs (fst (local_CleanupParts ls env i st)))
      \<and> uploads_ok ls (fst (local_CleanupParts ls env i st))" if "plain_name i"
  proof -
    have "{q. prefix (multipart_dir ls i) q} \<subseteq> multi_area ls"
      by (rule dir_in_area) (simp add: multipart_dir_plain [OF assms(1) that])
    from keeps_RemoveAll [OF this] show ?thesis
      using uploads_delete [OF assms(2)] assms(2)
      by (auto simp: local_CleanupParts_def Let_def split: sum.splits option.splits)
  qed
qed

lemma exec_complete:
  assumes "clean_root ls" "uploads_ok ls st"
  shows "keeps (foot ls key \<union> multi_area ls) (lo_fs st) (lo_fs (fst (local_CompleteMultipart lib ls env key i parts opts st)))
      \<and> uploads_ok ls (fst (local_CompleteMultipart lib ls env key i parts opts st))"
proof (cases "map_of (lo_uploads st) i")
  case (Some up)
  have d: "prefix (lc_Root (ls_cfg ls) @ [''.multipart'']) (lu_dir up)" using assms(2) Some by (auto simp: uploads_ok_def)
  obtain fs' info err where c: "complete_object lib ls env (lo_fs st) up parts key = (fs', info, err)"
    by (cases "complete_object lib ls env (lo_fs st) up parts key")
  have "keeps (foot ls key \<union> multi_area ls) (lo_fs st) fs'"
    using keeps_mono [OF keeps_complete [OF assms(1), of key "lo_fs st" lib env up parts]] by (simp add: c)
  moreover have "keeps (foot ls key \<union> multi_area ls) fs' (os_clear (oe_fault env) ''remove all'' fs' (lu_dir up))"
    by (rule keeps_clear) (use dir_in_area [OF d] in blast)
  ultimately have "keeps (foot ls key \<union> multi_area ls) (lo_fs st) (os_clear (oe_fault env) ''remove all'' fs' (lu_dir up))" by (rule keeps_trans)
  then show ?thesis
    using uploads_delete [OF assms(2)] assms(2)
    by (auto simp: local_CompleteMultipart_def Some Let_def c split: option.splits)
qed (use assms(2) in \<open>simp add: local_CompleteMultipart_def\<close>)

lemma exec_keeps:
  assumes "clean_root ls" "uploads_ok ls st" "ids_plain (env, oper)"
  shows "keeps (op_area ls oper) (lo_fs st) (lo_fs (local_exec lib ls env oper st)) \<and> uploads_ok ls (local_exec lib ls env oper st)"
proof -
  have up: "uploads_ok ls (st\<lparr>lo_fs := fs'\<rparr>)" for fs' using assms(2) by (simp add: uploads_ok_def)
  have one: "keeps (foot ls key \<union> multi_area ls) fs fs'" if "keeps (foot ls key) fs fs'" for key fs fs'
    using keeps_mono [OF that] by blast
  show ?thesis
    using assms up exec_multipart [OF assms(1,2)] exec_complete [OF assms(1,2)]
      one [OF keeps_Put [OF assms(1)]] one [OF keeps_Delete [OF assms(1)]] one [OF keeps_Copy [OF assms(1)]] one [OF keeps_Rewrap [OF assms(1)]]
    by (cases oper) (auto simp: op_area_def split: option.splits)
qed

section \<open>Objects no operation names\<close>

definition stored :: "LocalStorage \<Rightarrow> fs \<Rightarrow> string \<Rightarrow> bool" where
  "stored ls fs key \<longleftrightarrow> is_file (map_of fs (key_path ls key)) \<and> is_file (map_of fs (metaPath (key_path ls key)))"

lemma file_node: "fs_ok fs \<Longrightarrow> file_at fs p = Some n \<Longrightarrow> os_node fs p = Inr n \<and> map_of fs p = Some n"
  by (auto simp: file_at_def os_node_Inr split: if_splits)

lemma Get_kept:
  assumes "clean_root ls" "fs_ok fs" "keeps P fs fs'" "stored ls fs key" "foot ls key \<inter> P = {}"
  shows "local_GetWithOptions lib ls env fs' key opts = local_GetWithOptions lib ls env fs key opts" "stored ls fs' key"
proof -
  let ?p = "key_path ls key"
  from assms(4) obtain n m where nm: "file_at fs ?p = Some n" "file_at fs (metaPath ?p) = Some m"
    by (cases "map_of fs ?p"; cases "map_of fs (metaPath ?p)") (auto simp: stored_def file_at_def)
  have ok': "fs_ok fs'" and t: "touches P fs fs'" using assms(2,3) by (simp_all add: keeps_def)
  from t assms(5) nm have nm': "file_at fs' ?p = Some n" "file_at fs' (metaPath ?p) = Some m"
    by (simp_all add: touches_def foot_def)
  note a = file_node [OF assms(2) nm(1)] file_node [OF assms(2) nm(2)] file_node [OF ok' nm'(1)] file_node [OF ok' nm'(2)]
  have r: "readMeta lib env fs' (metaPath ?p) = readMeta lib env fs (metaPath ?p)"
    using a by (simp add: readMeta_def os_ReadFile_def)
  have o: "open_file env fs' ?p = open_file env fs ?p" "os_node fs' ?p = os_node fs ?p" using a by (simp_all add: open_file_def)
  show "local_GetWithOptions lib ls env fs' key opts = local_GetWithOptions lib ls env fs key opts"
  proof (cases "objectPath ls key")
    case (Inl e)
    then show ?thesis by (simp add: local_GetWithOptions_def local_statObject_def)
  next
    case (Inr p)
    with objectPath_key [OF assms(1)] have "p = ?p" by simp
    with Inr r o have "local_statObject lib ls env fs' key (Some opts) = local_statObject lib ls env fs key (Some opts)"
      by (cases "readMeta lib env fs (metaPath ?p)") (simp_all add: local_statObject_def)
    with Inr r o \<open>p = ?p\<close> show ?thesis by (simp add: local_GetWithOptions_def)
  qed
  show "stored ls fs' key" using nm' a by (auto simp: stored_def file_at_def split: if_splits)
qed

lemma run_keeps:
  assumes "clean_root ls" "local_inv ls st" "list_all ids_plain ops" "stored ls (lo_fs st) key"
    and "\<forall>(e, oper) \<in> set ops. foot ls key \<inter> op_area ls oper = {}"
  shows "local_GetWithOptions lib ls env (lo_fs (local_run lib ls ops st)) key opts = local_GetWithOptions lib ls env (lo_fs st) key opts
    \<and> stored ls (lo_fs (local_run lib ls ops st)) key \<and> local_inv ls (local_run lib ls ops st)"
  using assms(2-5)
proof (induction ops arbitrary: st)
  case (Cons eo ops)
  obtain e oper where eo: "eo = (e, oper)" by (cases eo)
  let ?st = "local_exec lib ls e oper st"
  from Cons.prems eo have x: "keeps (op_area ls oper) (lo_fs st) (lo_fs ?st)" "uploads_ok ls ?st"
    using exec_keeps [OF assms(1), of st e oper lib] by (simp_all add: local_inv_def)
  have ok: "fs_ok (lo_fs st)" using Cons.prems(1) by (simp add: local_inv_def)
  have inv: "local_inv ls ?st" using x ok by (simp add: local_inv_def keeps_def)
  from Cons.prems eo have dj: "foot ls key \<inter> op_area ls oper = {}" by auto
  note g = Get_kept [OF assms(1) ok x(1) Cons.prems(3) dj]
  from Cons.IH [OF inv _ g(2)] Cons.prems eo g(1) show ?case by (simp add: local_run_def)
qed (simp add: local_run_def)

text \<open>No operation leaves the root, but for the sidecar that belongs to the root itself.\<close>

definition confines :: "LocalStorage \<Rightarrow> fpath set" where
  "confines ls = {q. prefix (lc_Root (ls_cfg ls)) q} \<union> {metaPath (lc_Root (ls_cfg ls))}"

lemma op_area_confined: "op_area ls oper \<subseteq> confines ls"
proof -
  have "metaPath (key_path ls key) \<in> confines ls" for key
  proof (cases "filter proper (segments key)" rule: rev_cases)
    case Nil
    then show ?thesis by (simp add: key_path_def confines_def)
  next
    case (snoc ys y)
    then show ?thesis by (simp add: key_path_def confines_def metaPath_def butlast_append)
  qed
  then have "foot ls key \<subseteq> confines ls" for key by (auto simp: foot_def confines_def)
  moreover have "multi_area ls \<subseteq> confines ls" by (auto simp: multi_area_def confines_def dest: append_prefixD)
  ultimately show ?thesis by (auto simp: op_area_def split: option.splits)
qed

lemma run_confined:
  assumes "clean_root ls" "local_inv ls st" "list_all ids_plain ops"
  shows "local_inv ls (local_run lib ls ops st) \<and> touches (confines ls) (lo_fs st) (lo_fs (local_run lib ls ops st))"
  using assms(2,3)
proof (induction ops arbitrary: st)
  case (Cons eo ops)
  obtain e oper where eo: "eo = (e, oper)" by (cases eo)
  let ?st = "local_exec lib ls e oper st"
  from Cons.prems eo have x: "keeps (op_area ls oper) (lo_fs st) (lo_fs ?st)" "uploads_ok ls ?st"
    using exec_keeps [OF assms(1), of st e oper lib] by (simp_all add: local_inv_def)
  then have i: "local_inv ls ?st" "touches (confines ls) (lo_fs st) (lo_fs ?st)"
    using Cons.prems(1) touches_mono [OF _ op_area_confined] by (auto simp: local_inv_def keeps_def)
  from Cons.IH [OF i(1)] Cons.prems(2) eo touches_trans [OF i(2)] show ?case by (simp add: local_run_def)
qed (simp add: local_run_def)

text \<open>Distinct keys in canonical form interfere only through the suffix of the sidecars.\<close>

definition canonical :: "string \<Rightarrow> bool" where
  "canonical key \<longleftrightarrow> list_all proper (segments key)"

lemma key_path_canonical: "canonical key \<Longrightarrow> key_path ls key = lc_Root (ls_cfg ls) @ segments key"
  by (simp add: key_path_def canonical_def list_all_iff)

lemma key_path_inject: "canonical k \<Longrightarrow> canonical k' \<Longrightarrow> key_path ls k = key_path ls k' \<longleftrightarrow> k = k'"
  by (metis key_path_canonical append_same_eq join_segments same_append_eq)

lemma segments_snoc: "segments (k @ s) = butlast (segments k) @ [last (segments k) @ s]" if "CHR ''/'' \<notin> set s"
proof (induction k)
  case (Cons c k)
  then show ?case using that by (cases "segments k") (auto split: list.splits)
qed (use that in simp)

lemma metaPath_canonical:
  assumes "canonical k"
  shows "metaPath (key_path ls k) = lc_Root (ls_cfg ls) @ segments (k @ localMetaSuffix)"
proof -
  have "segments (k @ localMetaSuffix) = butlast (segments k) @ [last (segments k) @ localMetaSuffix]"
    by (rule segments_snoc) simp
  then show ?thesis by (simp add: key_path_canonical [OF assms] metaPath_def butlast_append)
qed

lemma foot_canonical:
  "canonical k \<Longrightarrow> foot ls k = {lc_Root (ls_cfg ls) @ segments k, lc_Root (ls_cfg ls) @ segments (k @ localMetaSuffix)}"
  by (simp only: foot_def metaPath_canonical, simp only: key_path_canonical)

lemma canonical_apart:
  assumes "canonical k" "canonical k'" "k \<noteq> k'" "k' \<noteq> k @ localMetaSuffix" "k \<noteq> k' @ localMetaSuffix"
  shows "foot ls k \<inter> foot ls k' = {}"
proof -
  have "segments k \<noteq> segments (k' @ localMetaSuffix)" "segments (k @ localMetaSuffix) \<noteq> segments k'"
    "segments (k @ localMetaSuffix) \<noteq> segments (k' @ localMetaSuffix)" "segments k \<noteq> segments k'"
    using assms(3-5) by (metis join_segments append_same_eq)+
  then show ?thesis
    using assms(1,2) by (simp add: foot_canonical)
qed

lemma canonical_no_parts:
  assumes "canonical k" "hd (segments k) \<noteq> ''.multipart''" "hd (segments (k @ localMetaSuffix)) \<noteq> ''.multipart''"
  shows "foot ls k \<inter> multi_area ls = {}"
proof -
  have "\<not> prefix [''.multipart''] (segments s)" if "hd (segments s) \<noteq> ''.multipart''" for s
    using that by (cases "segments s") auto
  then show ?thesis
    using assms by (auto simp: foot_canonical multi_area_def)
qed

definition apart :: "string \<Rightarrow> local_op \<Rightarrow> bool" where
  "apart key oper \<longleftrightarrow> (case op_target oper of None \<Rightarrow> True | Some k \<Rightarrow>
     canonical k \<and> k \<noteq> key \<and> k \<noteq> key @ localMetaSuffix \<and> key \<noteq> k @ localMetaSuffix)"

definition object_key :: "string \<Rightarrow> bool" where
  "object_key key \<longleftrightarrow> canonical key \<and> hd (segments key) \<noteq> ''.multipart'' \<and> hd (segments (key @ localMetaSuffix)) \<noteq> ''.multipart''"

lemma apart_area: "object_key key \<Longrightarrow> apart key oper \<Longrightarrow> foot ls key \<inter> op_area ls oper = {}"
  using canonical_no_parts [of key ls] canonical_apart [of key _ ls]
  by (auto simp: object_key_def apart_def op_area_def Int_Un_distrib split: option.splits)

end
