(* ===== verification/Local_Roundtrip.thy ===== *)
theory Local_Roundtrip
  imports Local_History
begin

text \<open>
  What is read after a write of the local backend: the bytes and the description that were written,
  through server-side and customer keys, after a rotation of the keys, and after the completion of a
  multipart upload.
\<close>

section \<open>Reading a file with its sidecar\<close>

definition quiet :: "os_env \<Rightarrow> bool" where
  "quiet env \<longleftrightarrow> (\<forall>l. oe_fault env l = None)"

text \<open>The bytes on the disk are those of the object, or the reader finds a key that opens them.\<close>

definition opens :: "go_lib \<Rightarrow> LocalStorage \<Rightarrow> GetOptions \<Rightarrow> string \<Rightarrow> string \<Rightarrow> string \<Rightarrow> bool" where
  "opens lib ls opts envelope bytes body \<longleftrightarrow>
     (if envelope = [] then bytes = body
      else (\<exists>enc. readEncrypter lib ls envelope opts = Inr enc \<and> decrypt lib enc bytes envelope = Inr body))"

lemma quiet_call [simp]: "quiet env \<Longrightarrow> os_call (oe_fault env) l b = b"
  by (simp add: quiet_def os_call_def)

lemma meta_law: "lib_ok lib \<Longrightarrow> utf8_meta m \<Longrightarrow> gl_meta_parse lib (gl_meta_json lib m) = Inr m"
  by (simp add: lib_ok_def)

lemma read_stored:
  assumes "lib_ok lib" "quiet env" "fs_ok fs" "objectPath ls key = Inr p"
    and "map_of fs p = Some (File bytes t)" "map_of fs (metaPath p) = Some (File (gl_meta_json lib m) t')"
    and "utf8_meta m" "opens lib ls opts (lm_Envelope m) bytes body"
  shows "local_GetWithOptions lib ls env fs key opts = Inr (Inr body, toInfo m)"
proof -
  have m: "readMeta lib env fs (metaPath p) = Inr m"
    using assms(2) os_ReadFile_file [OF assms(3,6)] meta_law [OF assms(1,7)] by (simp add: readMeta_def)
  have "os_node fs p = Inr (File bytes t)" using assms(3,5) by (simp add: os_node_Inr)
  with assms(2) have f: "open_file env fs p = Inr (Inr bytes)" by (simp add: open_file_def)
  show ?thesis
    using assms(4,8) m f by (auto simp: local_GetWithOptions_def local_statObject_def opens_def split: if_splits)
qed

section \<open>Encryption on the way to the disk\<close>

fun serves :: "envelopeEncrypter option \<Rightarrow> envelopeEncrypter option \<Rightarrow> bool" where
  "serves None _ \<longleftrightarrow> True"
| "serves (Some e) (Some e') \<longleftrightarrow> reads e e' \<and> (\<forall>i. kid_of e i \<longrightarrow> i \<noteq> ssecKeyID)"
| "serves (Some _) None \<longleftrightarrow> False"

definition read_options :: "PutOptions \<Rightarrow> GetOptions" where
  "read_options opts =
     \<lparr>go_SSECustomerKey = (if length (po_SSECustomerKey opts) = 32 then po_SSECustomerKey opts else []), go_SSECustomerKeyMD5 = []\<rparr>"

lemma seal_opens:
  assumes "lib_ok lib" "rnd_ok (oe_rnd env)" "serves (ls_enc ls) (ls_enc ls')"
    and "seal_body lib env (put_encrypter ls opts) body = Inr (bytes, envelope)"
  shows "opens lib ls' (read_options opts) envelope bytes body"
    "plaintextSize (int (length bytes)) (put_encrypter ls opts \<noteq> None) = int (length body)" "valid_utf8 envelope"
proof -
  let ?R = "opens lib ls' (read_options opts) envelope bytes body
    \<and> plaintextSize (int (length bytes)) (put_encrypter ls opts \<noteq> None) = int (length body) \<and> valid_utf8 envelope"
  have ?R
  proof (cases "put_encrypter ls opts")
    case None
    with assms(4) show ?thesis
      by (auto simp: seal_body_def opens_def plaintextSize_def visible_ascii_text visible_ascii_def)
  next
    case (Some enc)
    with assms(4) have e: "encrypt lib (oe_rnd env) enc body = Inr (bytes, envelope)" by (simp add: seal_body_def)
    have read: "\<exists>enc'. reads enc enc' \<and> readEncrypter lib ls' envelope (read_options opts) = Inr enc'"
    proof (cases "length (po_SSECustomerKey opts) = 32")
      case True
      with Some have enc: "enc = Provided (newSSECProvider (po_SSECustomerKey opts))" by (simp add: put_encrypter_def)
      have r: "reads enc enc" unfolding enc by (rule ssec_reads)
      from encrypt_kid [OF assms(1,2) r e] obtain ev where ev: "parseEnvelope lib envelope = Inr ev" "kid_of enc (se_Kid ev)" by blast
      then have "se_Kid ev = ssecKeyID" by (simp add: enc newSSECProvider_def)
      with ev(1) True r encrypt_decrypt(2) [OF assms(1,2) r e] show ?thesis
        by (simp add: readEncrypter_def read_options_def enc Let_def)
    next
      case False
      with Some assms(3) obtain enc' where s: "ls_enc ls = Some enc" "ls_enc ls' = Some enc'" "reads enc enc'" "\<forall>i. kid_of enc i \<longrightarrow> i \<noteq> ssecKeyID"
        by (cases "ls_enc ls'") (auto simp: put_encrypter_def)
      from encrypt_kid [OF assms(1,2) s(3) e] obtain ev where ev: "parseEnvelope lib envelope = Inr ev" "kid_of enc (se_Kid ev)" by blast
      with s False encrypt_decrypt(2) [OF assms(1,2) s(3) e] show ?thesis
        by (auto simp: readEncrypter_def read_options_def)
    qed
    then obtain enc' where "reads enc enc'" "readEncrypter lib ls' envelope (read_options opts) = Inr enc'" by blast
    with encrypt_decrypt [OF assms(1,2) _ e] Some show ?thesis by (auto simp: opens_def plaintextSize_def)
  qed
  then show "opens lib ls' (read_options opts) envelope bytes body"
    "plaintextSize (int (length bytes)) (put_encrypter ls opts \<noteq> None) = int (length body)" "valid_utf8 envelope" by simp_all
qed

section \<open>Put and get\<close>

lemma valid_kv_set:
  assumes "valid_kv md" "valid_utf8 k" "valid_utf8 v"
  shows "valid_kv (kv_set k v md)"
proof -
  have "set (AList.update k v md) \<subseteq> insert (k, v) (set md)" by (induction md) auto
  moreover have "distinct (map fst (sort_key fst (AList.update k v md)))"
    using assms distinct_update [of md k v] by (simp add: valid_kv_def distinct_map)
  ultimately show ?thesis using assms by (auto simp: valid_kv_def kv_set_def list_all_iff)
qed

lemma kv_set_sorted [simp]: "sorted (map fst (kv_set k v md))"
  by (simp add: kv_set_def)

lemma kv_get_set: "valid_kv md \<Longrightarrow> kv_get (kv_set k v md) k' = (if k' = k then v else kv_get md k')"
proof -
  assume "valid_kv md"
  then have d: "distinct (map fst (AList.update k v md))" by (simp add: valid_kv_def distinct_update)
  have "map_of (sort_key fst (AList.update k v md)) = map_of (AList.update k v md)"
    using d by (intro map_of_inject_set [THEN iffD2]) (simp_all add: distinct_map)
  then show ?thesis by (simp add: kv_get_def kv_set_def update_conv')
qed

lemma generation_key_utf8: "valid_utf8 GenerationMetadataKey"
  by (rule visible_ascii_text) (simp add: visible_ascii_def byte_def)

lemma finish_write_ok:
  assumes "finish_write lib env fs p m = (fs', info, None)"
  shows "os_replace fs (metaPath p) (gl_meta_json lib m) (oe_now env) = Inr fs'" "info = toInfo m" "json_time (lm_LastModified m)"
  using assms by (auto simp: finish_write_def writeMeta_def split: sum.splits if_splits)

text \<open>The steps of a put that reports success.\<close>

lemma Put_ok:
  assumes "local_Put lib ls env fs key body sz opts = (fs', info, None)"
  obtains p fs1 fs2 bytes envelope generation m where
    "objectPath ls key = Inr p" "os_MkdirAll fs (butlast p) = Inr fs1"
    "seal_body lib env (put_encrypter ls opts) body = Inr (bytes, envelope)" "os_replace fs1 p bytes (oe_now env) = Inr fs2"
    "oe_rnd env ''generation'' = Inr generation"
    "m = \<lparr>lm_Key = key, lm_Size = plaintextSize (int (length bytes)) (put_encrypter ls opts \<noteq> None), lm_ETag = hex_encode (gl_md5 lib body),
       lm_ContentType = po_ContentType opts, lm_LastModified = oe_now env,
       lm_Metadata = kv_set GenerationMetadataKey (hex_encode generation) (po_Metadata opts), lm_Envelope = envelope\<rparr>"
    "os_replace fs2 (metaPath p) (gl_meta_json lib m) (oe_now env) = Inr fs'" "info = toInfo m" "json_time (oe_now env)"
proof -
  from assms obtain p fs1 where p: "objectPath ls key = Inr p" "os_MkdirAll fs (butlast p) = Inr fs1"
    and w: "(case writeObject lib ls env fs1 p key body opts of
                  (fs2, Inl e) \<Rightarrow> (fs2, zero_ObjectInfo, Some e)
                | (fs2, Inr m) \<Rightarrow> finish_write lib env fs2 p m) = (fs', info, None)"
    by (auto simp: local_Put_def rbind_Inr split: option.splits sum.splits)
  then obtain fs2 m where m: "writeObject lib ls env fs1 p key body opts = (fs2, Inr m)" and f: "finish_write lib env fs2 p m = (fs', info, None)"
    by (auto split: prod.splits sum.splits)
  from m obtain bytes envelope generation where
    "seal_body lib env (put_encrypter ls opts) body = Inr (bytes, envelope)" "os_replace fs1 p bytes (oe_now env) = Inr fs2"
    "oe_rnd env ''generation'' = Inr generation"
    "m = \<lparr>lm_Key = key, lm_Size = plaintextSize (int (length bytes)) (put_encrypter ls opts \<noteq> None), lm_ETag = hex_encode (gl_md5 lib body),
       lm_ContentType = po_ContentType opts, lm_LastModified = oe_now env,
       lm_Metadata = kv_set GenerationMetadataKey (hex_encode generation) (po_Metadata opts), lm_Envelope = envelope\<rparr>"
    by (auto simp: writeObject_def Let_def rbind_Inr newGeneration_def split: sum.splits)
  with that p finish_write_ok [OF f] show ?thesis by simp
qed

lemma two_files:
  assumes "os_replace fs1 p d t = Inr fs2" "os_replace fs2 (metaPath p) d' t' = Inr fs'" "p \<noteq> []"
  shows "map_of fs' p = Some (File d t)" "map_of fs' (metaPath p) = Some (File d' t')"
  using os_replace_Inr(1) [OF assms(1)] os_replace_Inr(1) [OF assms(2)] metaPath_neq [OF assms(3)] by simp_all

lemma objectPath_cong: "lc_Root (ls_cfg ls') = lc_Root (ls_cfg ls) \<Longrightarrow> objectPath ls' key = objectPath ls key"
  by (simp only: objectPath_def)

text \<open>A sealed body and its description, once both are on the disk.\<close>

lemma written_get:
  assumes "lib_ok lib" "rnd_ok (oe_rnd env)" "clean_root ls" "lc_Root (ls_cfg ls') = lc_Root (ls_cfg ls)"
    "serves (ls_enc ls) (ls_enc ls')" "fs_ok fs" "quiet renv"
    and s: "objectPath ls key = Inr p" "os_MkdirAll fs (butlast p) = Inr fs1"
      "seal_body lib env (put_encrypter ls opts) body = Inr (bytes, lm_Envelope m)" "os_replace fs1 p bytes t = Inr fs2"
    and w: "os_replace fs2 (metaPath p) (gl_meta_json lib m) t' = Inr fs'"
    and u: "valid_utf8 (lm_Envelope m) \<Longrightarrow> utf8_meta m"
  shows "local_GetWithOptions lib ls' renv fs' key (read_options opts) = Inr (Inr body, toInfo m)" "stored ls fs' key" "fs_ok fs'"
proof -
  note p = foot_path(1) [OF assms(3) s(1)]
  show ok: "fs_ok fs'"
    using os_replace_ok [OF w os_replace_ok [OF s(4) os_MkdirAll_ok [OF s(2) assms(6)] p]] by simp
  note f = two_files [OF s(4) w p]
  note o = seal_opens [OF assms(1,2,5) s(3)]
  have "objectPath ls' key = Inr p" using s(1) objectPath_cong [OF assms(4)] by simp
  from read_stored [OF assms(1,7) ok this f u [OF o(3)] o(1)]
  show "local_GetWithOptions lib ls' renv fs' key (read_options opts) = Inr (Inr body, toInfo m)" .
  show "stored ls fs' key" using f objectPath_key [OF assms(3) s(1)] by (simp add: stored_def)
qed

lemma put_get:
  assumes "lib_ok lib" "rnd_ok (oe_rnd env)" "clean_root ls" "lc_Root (ls_cfg ls') = lc_Root (ls_cfg ls)"
    "serves (ls_enc ls) (ls_enc ls')" "fs_ok fs" "quiet renv"
    "valid_utf8 key" "valid_utf8 (po_ContentType opts)" "valid_kv (po_Metadata opts)"
    and put: "local_Put lib ls env fs key body sz opts = (fs', info, None)"
  shows "local_GetWithOptions lib ls' renv fs' key (read_options opts) = Inr (Inr body, info)
    \<and> oi_Key info = key \<and> oi_Size info = int (length body) \<and> oi_ETag info = hex_encode (gl_md5 lib body)
    \<and> oi_ContentType info = po_ContentType opts
    \<and> (\<forall>k. k \<noteq> GenerationMetadataKey \<longrightarrow> kv_get (oi_Metadata info) k = kv_get (po_Metadata opts) k)
    \<and> stored ls fs' key \<and> fs_ok fs'"
  using put
proof (rule Put_ok)
  fix p fs1 fs2 bytes envelope generation m
  assume s: "objectPath ls key = Inr p" "os_MkdirAll fs (butlast p) = Inr fs1"
    "seal_body lib env (put_encrypter ls opts) body = Inr (bytes, envelope)" "os_replace fs1 p bytes (oe_now env) = Inr fs2"
    and m: "m = \<lparr>lm_Key = key, lm_Size = plaintextSize (int (length bytes)) (put_encrypter ls opts \<noteq> None), lm_ETag = hex_encode (gl_md5 lib body),
       lm_ContentType = po_ContentType opts, lm_LastModified = oe_now env,
       lm_Metadata = kv_set GenerationMetadataKey (hex_encode generation) (po_Metadata opts), lm_Envelope = envelope\<rparr>"
    and w: "os_replace fs2 (metaPath p) (gl_meta_json lib m) (oe_now env) = Inr fs'" "info = toInfo m" "json_time (oe_now env)"
  have s': "seal_body lib env (put_encrypter ls opts) body = Inr (bytes, lm_Envelope m)" using s(3) by (simp add: m)
  have "utf8_meta m" if "valid_utf8 (lm_Envelope m)"
    using assms(8-10) that generation_key_utf8 w(3) by (simp add: m utf8_meta_def valid_kv_set)
  from written_get [OF assms(1-7) s(1,2) s' s(4) w(1) this] seal_opens(2) [OF assms(1,2,5) s(3)] show ?thesis
    by (simp add: w(2)) (simp add: m toInfo_def kv_get_set assms(10))
qed

section \<open>Key rotation\<close>

lemma opens_server:
  assumes "ls_enc ls = Some enc" "parseEnvelope lib envelope = Inr env" "se_Kid env \<noteq> ssecKeyID"
    and "envelope_key lib enc envelope = Inr k" "decrypt lib enc bytes envelope = Inr body" "envelope \<noteq> []"
  shows "opens lib ls no_get_options envelope bytes body"
  using assms validate_of_key [OF assms(4)] by (simp add: opens_def readEncrypter_def no_get_options_def ok_or_def)

lemma opens_serverD:
  assumes "opens lib ls no_get_options envelope bytes body" "envelope \<noteq> []" "ls_enc ls = Some enc"
  shows "\<exists>k. envelope_key lib enc envelope = Inr k" "decrypt lib enc bytes envelope = Inr body"
proof -
  from assms have d: "decrypt lib enc bytes envelope = Inr body"
    by (auto simp: opens_def readEncrypter_def no_get_options_def ok_or_def rbind_Inr split: if_splits option.splits)
  then show "\<exists>k. envelope_key lib enc envelope = Inr k" "decrypt lib enc bytes envelope = Inr body"
    by (auto simp: decrypt_envelope_key rbind_Inr)
qed

text \<open>The current key of \<open>p\<close> is one \<open>p'\<close> still has; the ids of customer keys are not used by rings.\<close>

definition rotates :: "SecretProvider \<Rightarrow> SecretProvider \<Rightarrow> bool" where
  "rotates p p' \<longleftrightarrow> reads (Provided p) (Provided p) \<and> reads (Provided p) (Provided p') \<and> fst (sp_Current p) \<noteq> ssecKeyID"

lemma rewrap_opens:
  assumes "lib_ok lib" "rnd_ok rnd" "rotates p p'" "ls_enc ls = Some (Provided p)" "ls_enc ls' = Some (Provided p')"
    and "opens lib ls no_get_options envelope bytes body" "envelope \<noteq> []" "valid_utf8 envelope"
    and "rewrap lib rnd (Provided p) envelope = Some (Inr (envelope', changed))"
  shows "opens lib ls' no_get_options envelope' bytes body" "valid_utf8 envelope'" "\<not> changed \<Longrightarrow> envelope' = envelope"
proof -
  from assms(3) have r: "reads (Provided p) (Provided p)" "reads (Provided p) (Provided p')" "valid_utf8 (fst (sp_Current p))"
    "fst (sp_Current p) \<noteq> ssecKeyID" by (auto simp: rotates_def)
  from opens_serverD [OF assms(6,7,4)] obtain dk iv where k: "envelope_key lib (Provided p) envelope = Inr (dk, iv)"
    and d: "decrypt lib (Provided p) bytes envelope = Inr body" by auto
  note w = rewrap_result [OF assms(1,2) r(3) assms(9) k]
  from w(1) obtain env where env: "parseEnvelope lib envelope' = Inr env" "se_Kid env = fst (sp_Current p)" by blast
  have "se_Kid env \<noteq> ssecKeyID" using env(2) r(4) by simp
  moreover have "envelope' \<noteq> []" using w(2) assms(7) by blast
  ultimately show "opens lib ls' no_get_options envelope' bytes body"
    using opens_server [OF assms(5) env(1) _ rewrap_key [OF assms(1,2) r(1,2) assms(9) k] rewrap_decrypt [OF assms(1,2) r(1,2) assms(9) d]] by simp
  show "valid_utf8 envelope'" "\<not> changed \<Longrightarrow> envelope' = envelope" using w(2) assms(8) by blast+
qed

lemma rewrap_get:
  assumes "lib_ok lib" "rnd_ok (oe_rnd env)" "rotates p p'" "ls_enc ls = Some (Provided p)" "ls_enc ls' = Some (Provided p')"
    and "clean_root ls" "lc_Root (ls_cfg ls') = lc_Root (ls_cfg ls)" "fs_ok fs" "quiet renv"
    and f: "objectPath ls key = Inr q" "map_of fs q = Some (File bytes t)" "map_of fs (metaPath q) = Some (File (gl_meta_json lib m) t')"
    and m: "utf8_meta m" "opens lib ls no_get_options (lm_Envelope m) bytes body"
    and r: "RewrapObject lib ls env fs key = Some (fs', Inr changed)"
  shows "local_GetWithOptions lib ls' renv fs' key no_get_options = Inr (Inr body, toInfo m)"
proof -
  note q = foot_path(1) [OF assms(6) f(1)]
  have f': "objectPath ls' key = Inr q" using f(1) objectPath_cong [OF assms(7)] by simp
  have "os_ReadFile fs (metaPath q) = Inr (gl_meta_json lib m)" by (rule os_ReadFile_file [OF assms(8) f(3)])
  then have rm: "readMeta lib env fs (metaPath q) = Inr m \<or> (\<exists>e. readMeta lib env fs (metaPath q) = Inl e)"
    using meta_law [OF assms(1) m(1)] by (auto simp: readMeta_def os_call_def split: option.splits)
  with r f(1) assms(4) have rm: "readMeta lib env fs (metaPath q) = Inr m" by (auto simp: RewrapObject_def)
  show ?thesis
  proof (cases "lm_Envelope m = []")
    case True
    with r f(1) assms(4) rm have "fs' = fs" by (auto simp: RewrapObject_def)
    moreover have "opens lib ls' no_get_options (lm_Envelope m) bytes body" using m(2) True by (simp add: opens_def)
    ultimately show ?thesis using read_stored [OF assms(1,9,8) f' f(2,3) m(1)] by simp
  next
    case False
    with r f(1) assms(4) rm obtain envelope' where w: "rewrap lib (oe_rnd env) (Provided p) (lm_Envelope m) = Some (Inr (envelope', changed))"
      and wm: "if changed then writeMeta lib env fs (metaPath q) (m\<lparr>lm_Envelope := envelope'\<rparr>) = Inr fs' else fs' = fs"
      by (auto simp: RewrapObject_def split: option.splits sum.splits if_splits)
    have "valid_utf8 (lm_Envelope m)" using m(1) by (simp add: utf8_meta_def)
    note o = rewrap_opens [OF assms(1-5) m(2) False this w]
    let ?m = "m\<lparr>lm_Envelope := envelope'\<rparr>"
    have u: "utf8_meta ?m" using m(1) o(2) by (simp add: utf8_meta_def)
    have ok: "fs_ok fs' \<and> map_of fs' q = Some (File bytes t) \<and> (\<exists>t. map_of fs' (metaPath q) = Some (File (gl_meta_json lib ?m) t))"
    proof (cases changed)
      case True
      with wm have w: "os_replace fs (metaPath q) (gl_meta_json lib ?m) (oe_now env) = Inr fs'" by (simp add: writeMeta_def split: if_splits)
      from os_replace_ok [OF w assms(8)] os_replace_Inr(1) [OF w] f(2) metaPath_neq [OF q] show ?thesis by auto
    next
      case False
      with wm o(3) have "fs' = fs" "?m = m" by simp_all
      with f assms(8) show ?thesis by auto
    qed
    then obtain t2 where ok': "fs_ok fs'" "map_of fs' q = Some (File bytes t)" "map_of fs' (metaPath q) = Some (File (gl_meta_json lib ?m) t2)" by blast
    have "opens lib ls' no_get_options (lm_Envelope ?m) bytes body" using o(1) by simp
    from read_stored [OF assms(1,9) ok'(1) f' ok'(2,3) u this] show ?thesis by (simp add: toInfo_def)
  qed
qed

lemma replace_file:
  assumes "fs_ok fs" "map_of fs p = Some (File d' t')" "p \<noteq> []"
  shows "\<exists>fs'. os_replace fs p d t = Inr fs'"
proof -
  have "strict_prefix (butlast p) p" using assms(3) by (metis append_butlast_last_id strict_prefixI')
  with assms(1,2) have "map_of fs (butlast p) = Some Dir" by (auto intro: fs_ok_ancestor)
  then show ?thesis using assms(2) os_node_Inr [OF assms(1), of "butlast p" Dir] by (auto simp: os_replace_def)
qed

lemma rewrap_returns:
  assumes "lib_ok lib" "ls_enc ls = Some (Provided p)" "clean_root ls" "fs_ok fs"
    and f: "objectPath ls key = Inr q" "map_of fs q = Some (File bytes t)" "map_of fs (metaPath q) = Some (File (gl_meta_json lib m) t')"
    and m: "utf8_meta m" "opens lib ls no_get_options (lm_Envelope m) bytes body"
    and q: "quiet env" "length (snd (sp_Current p)) = 32" "oe_rnd env ''wrap nonce'' = Inr n"
  shows "\<exists>fs' changed. RewrapObject lib ls env fs key = Some (fs', Inr changed)"
proof -
  have r: "readMeta lib env fs (metaPath q) = Inr m"
    using q(1) os_ReadFile_file [OF assms(4) f(3)] meta_law [OF assms(1) m(1)] by (simp add: readMeta_def)
  show ?thesis
  proof (cases "lm_Envelope m = []")
    case True
    with assms(2) f(1) r show ?thesis by (auto simp: RewrapObject_def)
  next
    case False
    from opens_serverD(1) [OF m(2) False assms(2)] obtain k where "envelope_key lib (Provided p) (lm_Envelope m) = Inr k" by blast
    from rewrap_total [where rnd = "oe_rnd env", OF this q(2,3)] obtain envelope' changed
      where w: "rewrap lib (oe_rnd env) (Provided p) (lm_Envelope m) = Some (Inr (envelope', changed))" by blast
    obtain fs' where "writeMeta lib env fs (metaPath q) (m\<lparr>lm_Envelope := envelope'\<rparr>) = Inr fs'"
      using replace_file [OF assms(4) f(3) metaPath_Nil] q(1) m(1) by (auto simp: writeMeta_def utf8_meta_def)
    with assms(2) f(1) r w show ?thesis by (cases changed) (auto simp: RewrapObject_def)
  qed
qed

lemma put_rotate_get:
  assumes "lib_ok lib" "rnd_ok (oe_rnd env)" "rnd_ok (oe_rnd env')" "clean_root ls"
    "lc_Root (ls_cfg ls1) = lc_Root (ls_cfg ls)" "lc_Root (ls_cfg ls2) = lc_Root (ls_cfg ls)"
    "serves (ls_enc ls) (ls_enc ls1)" "ls_enc ls1 = Some (Provided p1)" "ls_enc ls2 = Some (Provided p2)" "rotates p1 p2"
    "fs_ok fs" "quiet renv" "valid_utf8 key" "valid_utf8 (po_ContentType opts)" "valid_kv (po_Metadata opts)" "length (po_SSECustomerKey opts) \<noteq> 32"
    and put: "local_Put lib ls env fs key body sz opts = (fs1, info, None)"
  shows "(\<forall>fs2 changed. RewrapObject lib ls1 env' fs1 key = Some (fs2, Inr changed) \<longrightarrow>
      local_GetWithOptions lib ls2 renv fs2 key no_get_options = Inr (Inr body, info))
    \<and> (quiet env' \<longrightarrow> length (snd (sp_Current p1)) = 32 \<longrightarrow> oe_rnd env' ''wrap nonce'' = Inr n \<longrightarrow>
      (\<exists>fs2 changed. RewrapObject lib ls1 env' fs1 key = Some (fs2, Inr changed)))"
  using put
proof (rule Put_ok)
  fix p fs0 fs0' bytes envelope generation m
  assume s: "objectPath ls key = Inr p" "os_MkdirAll fs (butlast p) = Inr fs0"
    "seal_body lib env (put_encrypter ls opts) body = Inr (bytes, envelope)" "os_replace fs0 p bytes (oe_now env) = Inr fs0'"
    and m: "m = \<lparr>lm_Key = key, lm_Size = plaintextSize (int (length bytes)) (put_encrypter ls opts \<noteq> None), lm_ETag = hex_encode (gl_md5 lib body),
       lm_ContentType = po_ContentType opts, lm_LastModified = oe_now env,
       lm_Metadata = kv_set GenerationMetadataKey (hex_encode generation) (po_Metadata opts), lm_Envelope = envelope\<rparr>"
    and w: "os_replace fs0' (metaPath p) (gl_meta_json lib m) (oe_now env) = Inr fs1" "info = toInfo m" "json_time (oe_now env)"
  note q = foot_path(1) [OF assms(4) s(1)]
  note f = two_files [OF s(4) w(1) q]
  note o = seal_opens [OF assms(1,2,7) s(3)]
  have ok: "fs_ok fs1" using os_replace_ok [OF w(1) os_replace_ok [OF s(4) os_MkdirAll_ok [OF s(2) assms(11)] q]] by simp
  have u: "utf8_meta m" using assms(13-15) o(3) generation_key_utf8 w(3) by (simp add: m utf8_meta_def valid_kv_set)
  have root: "clean_root ls1" "lc_Root (ls_cfg ls2) = lc_Root (ls_cfg ls1)" "objectPath ls1 key = Inr p"
    using assms(4-6) s(1) objectPath_cong [OF assms(5)] by (simp_all add: clean_root_def)
  have "read_options opts = no_get_options" using assms(16) by (simp add: read_options_def no_get_options_def)
  with o(1) have "opens lib ls1 no_get_options (lm_Envelope m) bytes body" by (simp add: m)
  from rewrap_get [OF assms(1,3,10,8,9) root(1,2) ok assms(12) root(3) f u this] rewrap_returns [OF assms(1,8) root(1) ok root(3) f u this]
  show ?thesis by (simp add: w(2))
qed

end
