(* ===== verification/Local_Assembly.thy ===== *)
theory Local_Assembly
  imports Local_Roundtrip
begin

text \<open>
  Multipart uploads of the local backend against their specification: an upload is a finite map from
  part numbers to bytes, and completing it stores the bytes of the parts in the order of their numbers.
\<close>

section \<open>Part names\<close>

definition digits_value :: "string \<Rightarrow> nat" where
  "digits_value s = foldl (\<lambda>a c. a * 10 + (of_char c - 48)) 0 s"

lemma digits_value_decimal: "digits_value (decimal n) = n"
proof (induction n rule: decimal.induct)
  case (1 n)
  then show ?case
    by (subst decimal.simps) (auto simp: digits_value_def of_char_of)
qed

lemma digits_value_padding: "digits_value (replicate k CHR ''0'' @ s) = digits_value s"
proof -
  have "foldl (\<lambda>a c. a * 10 + (of_char c - 48)) (0 :: nat) (replicate k CHR ''0'') = 0" by (induction k) simp_all
  then show ?thesis by (simp add: digits_value_def)
qed

lemma digits_value_padded: "digits_value (zero_pad w (decimal n)) = n"
  by (simp add: zero_pad_def digits_value_padding digits_value_decimal)

lemma decimal_digits: "\<forall>c \<in> set (decimal n). 48 \<le> (of_char c :: nat)"
proof (induction n rule: decimal.induct)
  case (1 n)
  then show ?case by (subst decimal.simps) (auto simp: of_char_of)
qed

lemma padded_no_sign: "CHR ''-'' \<notin> set (zero_pad w (decimal n))"
  using decimal_digits [of n] by (auto simp: zero_pad_def split: if_splits)

lemma part_name_inject: "part_name a = part_name b \<longleftrightarrow> a = b"
proof
  assume eq: "part_name a = part_name b"
  have sign: "CHR ''-'' # s \<noteq> zero_pad w (decimal n)" "zero_pad w (decimal n) \<noteq> CHR ''-'' # s" for s w n
    using padded_no_sign [of w n] by (metis list.set_intros(1))+
  have "zero_pad 4 (decimal (nat (- a))) = zero_pad 4 (decimal (nat (- b)))" "b < 0" if "a < 0"
    using eq that sign by (auto simp: part_name_def split: if_splits)
  moreover have "zero_pad 5 (decimal (nat a)) = zero_pad 5 (decimal (nat b))" "\<not> b < 0" if "\<not> a < 0"
    using eq that sign by (auto simp: part_name_def split: if_splits)
  ultimately show "a = b"
    using digits_value_padded by (cases "a < 0") (metis eq_nat_nat_iff neg_0_le_iff_le neg_equal_iff_equal less_imp_le not_less)+
qed simp

section \<open>The parts of an upload\<close>

text \<open>What the part files of a directory hold, by part number.\<close>

definition part_data :: "fs \<Rightarrow> fpath \<Rightarrow> int \<Rightarrow> string option" where
  "part_data fs dir n = (case map_of fs (dir @ [part_name n]) of Some (File d _) \<Rightarrow> Some d | _ \<Rightarrow> None)"

text \<open>A sequence of part uploads that all report success.\<close>

fun upload_all :: "go_lib \<Rightarrow> string \<Rightarrow> string \<Rightarrow> (os_env \<times> int \<times> string \<times> PutOptions) list \<Rightarrow> local_state \<Rightarrow> local_state option" where
  "upload_all lib key i [] st = Some st"
| "upload_all lib key i ((env, n, body, opts) # us) st =
     (case local_UploadPart lib env key i n body opts st of
        (st', _, None) \<Rightarrow> upload_all lib key i us st'
      | (_, _, Some _) \<Rightarrow> None)"

definition sent :: "(os_env \<times> int \<times> string \<times> PutOptions) list \<Rightarrow> (int \<times> string) list" where
  "sent us = map (\<lambda>(env, n, body, opts). (n, body)) us"

lemma create_ok:
  assumes "create_file env fs p d = (fs', opened, None)"
  shows "map_of fs' = (map_of fs)(p \<mapsto> File d (oe_now env))"
  using assms os_replace_Inr(1) [of fs p "[]" "oe_now env"]
  by (auto simp: create_file_def update_conv' split: sum.splits option.splits)

lemma part_ok:
  assumes "local_UploadPart lib env key i n body opts st = (st', pt, None)" "map_of (lo_uploads st) i = Some up"
  shows "lo_uploads st' = lo_uploads st" "part_data (lo_fs st') (lu_dir up) = (part_data (lo_fs st) (lu_dir up))(n \<mapsto> body)"
    "pt = \<lparr>mp_PartNumber = n, mp_ETag = hex_encode (gl_md5 lib body)\<rparr>"
proof -
  from assms obtain opened fs' where c: "create_file env (lo_fs st) (lu_dir up @ [part_name n]) body = (fs', opened, None)"
    and st': "st' = st\<lparr>lo_fs := fs'\<rparr>" and pt: "pt = \<lparr>mp_PartNumber = n, mp_ETag = hex_encode (gl_md5 lib body)\<rparr>"
    by (auto simp: local_UploadPart_def split: if_splits option.splits prod.splits)
  show "lo_uploads st' = lo_uploads st" "pt = \<lparr>mp_PartNumber = n, mp_ETag = hex_encode (gl_md5 lib body)\<rparr>" using st' pt by simp_all
  show "part_data (lo_fs st') (lu_dir up) = (part_data (lo_fs st) (lu_dir up))(n \<mapsto> body)"
    by (rule ext) (simp add: part_data_def st' create_ok [OF c] part_name_inject)
qed

text \<open>The files of the upload refine the map of what was sent: later parts replace earlier ones of the same number.\<close>

lemma parts_refine:
  assumes "upload_all lib key i us st = Some st'" "map_of (lo_uploads st) i = Some up"
    and "clean_root ls" "local_inv ls st"
  shows "lo_uploads st' = lo_uploads st \<and> local_inv ls st'
    \<and> part_data (lo_fs st') (lu_dir up) = part_data (lo_fs st) (lu_dir up) ++ map_of (rev (sent us))"
  using assms(1,2,4)
proof (induction us arbitrary: st)
  case (Cons u us)
  obtain env n body opts where u: "u = (env, n, body, opts)" by (metis prod.collapse)
  obtain st1 pt err where x: "local_UploadPart lib env key i n body opts st = (st1, pt, err)" by (metis prod.collapse)
  with Cons.prems(1) u have ok: "local_UploadPart lib env key i n body opts st = (st1, pt, None)" "upload_all lib key i us st1 = Some st'"
    by (auto split: option.splits)
  note p = part_ok [OF ok(1) Cons.prems(2)]
  have "uploads_ok ls st" "fs_ok (lo_fs st)" using Cons.prems(3) by (simp_all add: local_inv_def)
  with exec_multipart(2) [OF assms(3) this(1), of lib env key i n body opts] ok(1) have "local_inv ls st1"
    by (simp add: local_inv_def keeps_def)
  from Cons.IH [OF ok(2) _ this] Cons.prems(2) p(1) have ih: "lo_uploads st' = lo_uploads st" "local_inv ls st'"
    "part_data (lo_fs st') (lu_dir up) = part_data (lo_fs st1) (lu_dir up) ++ map_of (rev (sent us))" by simp_all
  have "part_data (lo_fs st') (lu_dir up) = part_data (lo_fs st) (lu_dir up) ++ map_of (rev (sent (u # us)))"
    unfolding ih(3) p(2) by (rule ext) (simp add: u sent_def map_add_def split: option.splits)
  with ih(1,2) show ?case by simp
qed (simp add: sent_def)

section \<open>Completion\<close>

lemma writeParts_data:
  assumes "fs_ok fs" "writePartsTo env fs dir parts = Inr d"
  shows "\<forall>p \<in> set parts. part_data fs dir (mp_PartNumber p) \<noteq> None"
    and "d = concat (map (\<lambda>p. the (part_data fs dir (mp_PartNumber p))) parts)"
  using assms(2)
  by (induction parts arbitrary: d) (auto simp: rbind_Inr os_ReadFile_Inr [OF assms(1)] part_data_def)

lemma part_data_MkdirAll: "os_MkdirAll fs p = Inr fs' \<Longrightarrow> part_data fs' dir n = part_data fs dir n"
proof -
  assume m: "os_MkdirAll fs p = Inr fs'"
  show ?thesis
  proof (cases "is_file (map_of fs (dir @ [part_name n]))")
    case True
    with os_MkdirAll_Inr(2) [OF m] show ?thesis by (simp add: part_data_def)
  next
    case False
    with os_MkdirAll_Inr(1) [OF m] show ?thesis
      by (auto simp: part_data_def split: option.splits node.splits)
  qed
qed

text \<open>The steps of a completion that reports success.\<close>

lemma complete_ok:
  assumes "complete_object lib ls env fs up parts key = (fs', info, None)" "fs_ok fs"
  obtains p fs1 fs2 plain bytes envelope etag generation m where
    "objectPath ls key = Inr p" "os_MkdirAll fs (butlast p) = Inr fs1"
    "writePartsTo env fs1 (lu_dir up) (sort_key mp_PartNumber parts) = Inr plain"
    "seal_body lib env (put_encrypter ls (lu_opts up)) plain = Inr (bytes, envelope)" "os_replace fs1 p bytes (oe_now env) = Inr fs2"
    "multipartETag lib (sort_key mp_PartNumber parts) = Inr etag"
    "m = \<lparr>lm_Key = key, lm_Size = int (length plain), lm_ETag = etag, lm_ContentType = po_ContentType (lu_opts up), lm_LastModified = oe_now env,
       lm_Metadata = kv_set GenerationMetadataKey (hex_encode generation) (po_Metadata (lu_opts up)), lm_Envelope = envelope\<rparr>"
    "os_replace fs2 (metaPath p) (gl_meta_json lib m) (oe_now env) = Inr fs'" "info = toInfo m" "json_time (oe_now env)"
proof -
  from assms(1) obtain p where p: "objectPath ls key = Inr p" by (cases "objectPath ls key") (auto simp: complete_object_def)
  from assms(1) p obtain fs2 n envelope etag generation where
    mp: "mergeParts lib ls env fs up (sort_key mp_PartNumber parts) p = (fs2, Inr (n, envelope))"
    and etag: "multipartETag lib (sort_key mp_PartNumber parts) = Inr etag" and g: "newGeneration env = Inr generation"
    and f: "finish_write lib env fs2 p \<lparr>lm_Key = key, lm_Size = n, lm_ETag = etag, lm_ContentType = po_ContentType (lu_opts up),
         lm_LastModified = oe_now env, lm_Metadata = kv_set GenerationMetadataKey generation (po_Metadata (lu_opts up)), lm_Envelope = envelope\<rparr>
       = (fs', info, None)"
    by (auto simp: complete_object_def Let_def rbind_Inr split: prod.splits sum.splits)
  from g obtain raw where raw: "generation = hex_encode raw" by (auto simp: newGeneration_def rbind_Inr)
  from mp obtain fs1 plain bytes where m: "os_MkdirAll fs (butlast p) = Inr fs1"
    "writePartsTo env fs1 (lu_dir up) (sort_key mp_PartNumber parts) = Inr plain"
    "seal_body lib env (put_encrypter ls (lu_opts up)) plain = Inr (bytes, envelope)" "os_replace fs1 p bytes (oe_now env) = Inr fs2"
    "n = int (length plain)"
    by (auto simp: mergeParts_def rbind_Inr split: sum.splits)
  show ?thesis using that [OF p m(1-4) etag refl] finish_write_ok [OF f] m(5) raw by simp
qed

lemma etag_utf8: "multipartETag lib parts = Inr etag \<Longrightarrow> valid_utf8 etag"
proof -
  assume "multipartETag lib parts = Inr etag"
  then obtain raws where e: "etag = hex_encode (gl_md5 lib raws) @ CHR ''-'' # decimal (length parts)"
    by (auto simp: multipartETag_def rbind_Inr)
  have "visible_ascii (decimal n)" for n
  proof (induction n rule: decimal.induct)
    case (1 n)
    then show ?case by (subst decimal.simps) (auto simp: visible_ascii_def byte_def of_char_of)
  qed
  then have "visible_ascii etag" using visible_hex by (auto simp: e visible_ascii_def byte_def)
  then show ?thesis by (rule visible_ascii_text)
qed

definition fresh_upload :: "LocalStorage \<Rightarrow> local_state \<Rightarrow> string \<Rightarrow> bool" where
  "fresh_upload ls st i \<longleftrightarrow> \<not> list_ex (\<lambda>(q, _). prefix (multipart_dir ls i) q) (lo_fs st)"

lemma init_ok:
  assumes "local_InitMultipart ls env key opts st = (st1, mi, None)" "clean_root ls" "local_inv ls st" "plain_name (oe_uuid env)"
    "fresh_upload ls st (oe_uuid env)"
  shows "map_of (lo_uploads st1) (mi_UploadID mi) = Some \<lparr>lu_key = key, lu_dir = multipart_dir ls (oe_uuid env), lu_createdAt = oe_now env, lu_opts = opts\<rparr>"
    "local_inv ls st1" "part_data (lo_fs st1) (multipart_dir ls (oe_uuid env)) = Map.empty"
proof -
  let ?d = "multipart_dir ls (oe_uuid env)"
  from assms(1) obtain fs' where m: "os_MkdirAll (lo_fs st) ?d = Inr fs'" and st1: "st1 = \<lparr>lo_fs = fs', lo_uploads = AList.update (oe_uuid env)
      \<lparr>lu_key = key, lu_dir = ?d, lu_createdAt = oe_now env, lu_opts = opts\<rparr> (lo_uploads st)\<rparr>" and mi: "mi_UploadID mi = oe_uuid env"
    by (auto simp: local_InitMultipart_def Let_def rbind_Inr split: option.splits sum.splits)
  show "map_of (lo_uploads st1) (mi_UploadID mi) = Some \<lparr>lu_key = key, lu_dir = ?d, lu_createdAt = oe_now env, lu_opts = opts\<rparr>"
    by (simp add: st1 mi update_conv')
  from exec_multipart(1) [OF assms(2) _ assms(4), of st key opts] assms(1,3) show "local_inv ls st1"
    by (simp add: local_inv_def keeps_def)
  have "map_of (lo_fs st) (?d @ [x]) = None" for x
    using assms(5) by (intro map_of_None_notin) (auto simp: fresh_upload_def list_ex_iff)
  then show "part_data (lo_fs st1) ?d = Map.empty"
    using part_data_MkdirAll [OF m, of ?d] by (auto simp: st1 part_data_def)
qed

text \<open>The bytes a completion stores: what was sent last under each number, in the order of the numbers.\<close>

definition assembled :: "(int \<times> string) list \<Rightarrow> MultipartPart list \<Rightarrow> string" where
  "assembled sends parts = concat (map (\<lambda>p. the (map_of (rev sends) (mp_PartNumber p))) (sort_key mp_PartNumber parts))"

lemma complete_get:
  assumes "lib_ok lib" "rnd_ok (oe_rnd env)" "clean_root ls" "lc_Root (ls_cfg ls') = lc_Root (ls_cfg ls)"
    "serves (ls_enc ls) (ls_enc ls')" "quiet renv" "local_inv ls st" "foot ls key \<inter> multi_area ls = {}"
    and utf8: "valid_utf8 key" "valid_utf8 (po_ContentType (lu_opts up))" "valid_kv (po_Metadata (lu_opts up))"
    and up: "map_of (lo_uploads st) i = Some up" "part_data (lo_fs st) (lu_dir up) = map_of (rev sends)"
    and fin: "local_CompleteMultipart lib ls env key i parts copts st = (st', info, None)"
  shows "local_GetWithOptions lib ls' renv (lo_fs st') key (read_options (lu_opts up)) = Inr (Inr (assembled sends parts), info)
    \<and> oi_Size info = int (length (assembled sends parts)) \<and> multipartETag lib (sort_key mp_PartNumber parts) = Inr (oi_ETag info)
    \<and> mp_PartNumber ` set parts \<subseteq> fst ` set sends \<and> stored ls (lo_fs st') key \<and> map_of (lo_uploads st') i = None"
proof -
  have ok: "fs_ok (lo_fs st)" "uploads_ok ls st" using assms(7) by (simp_all add: local_inv_def)
  from fin up obtain fs' where c: "complete_object lib ls env (lo_fs st) up parts key = (fs', info, None)"
    and st': "st' = \<lparr>lo_fs = os_clear (oe_fault env) ''remove all'' fs' (lu_dir up), lo_uploads = AList.delete i (lo_uploads st)\<rparr>"
    by (auto simp: local_CompleteMultipart_def Let_def split: option.splits if_splits prod.splits)
  from c ok(1) show ?thesis
  proof (rule complete_ok)
    fix p fs1 fs2 plain bytes envelope etag generation m
    assume s: "objectPath ls key = Inr p" "os_MkdirAll (lo_fs st) (butlast p) = Inr fs1"
      "writePartsTo env fs1 (lu_dir up) (sort_key mp_PartNumber parts) = Inr plain"
      "seal_body lib env (put_encrypter ls (lu_opts up)) plain = Inr (bytes, envelope)" "os_replace fs1 p bytes (oe_now env) = Inr fs2"
      and e: "multipartETag lib (sort_key mp_PartNumber parts) = Inr etag"
      and m: "m = \<lparr>lm_Key = key, lm_Size = int (length plain), lm_ETag = etag, lm_ContentType = po_ContentType (lu_opts up), lm_LastModified = oe_now env,
       lm_Metadata = kv_set GenerationMetadataKey (hex_encode generation) (po_Metadata (lu_opts up)), lm_Envelope = envelope\<rparr>"
      and w: "os_replace fs2 (metaPath p) (gl_meta_json lib m) (oe_now env) = Inr fs'" "info = toInfo m" "json_time (oe_now env)"
    note d = writeParts_data [OF os_MkdirAll_ok [OF s(2) ok(1)] s(3), unfolded part_data_MkdirAll [OF s(2)] up(2)]
    have plain: "plain = assembled sends parts" using d(2) by (simp add: assembled_def)
    have s': "seal_body lib env (put_encrypter ls (lu_opts up)) plain = Inr (bytes, lm_Envelope m)" using s(4) by (simp add: m)
    have "utf8_meta m" if "valid_utf8 (lm_Envelope m)"
      using utf8 that generation_key_utf8 etag_utf8 [OF e] w(3) by (simp add: m utf8_meta_def valid_kv_set)
    note g = written_get [OF assms(1-5) ok(1) assms(6) s(1,2) s' s(5) w(1) this]
    have d': "prefix (lc_Root (ls_cfg ls) @ [''.multipart'']) (lu_dir up)" using ok(2) up(1) by (auto simp: uploads_ok_def)
    have k: "keeps (multi_area ls) fs' (os_clear (oe_fault env) ''remove all'' fs' (lu_dir up))" by (rule keeps_clear [OF dir_in_area [OF d']])
    have root: "clean_root ls'" "stored ls' fs' key" "foot ls' key \<inter> multi_area ls = {}"
      using assms(3,4,8) g(2) by (simp_all add: clean_root_def stored_def key_path_def foot_def)
    note r = Get_kept(1) [OF root(1) g(3) k root(2,3)] Get_kept(2) [OF assms(3) g(3) k g(2) assms(8)]
    have "mp_PartNumber ` set parts \<subseteq> fst ` set sends"
    proof
      fix n assume "n \<in> mp_PartNumber ` set parts"
      with d(1) obtain b where "map_of (rev sends) n = Some b" by auto
      then show "n \<in> fst ` set sends" by (force dest: map_of_SomeD)
    qed
    with r g(1) e show ?thesis by (simp add: st' w(2) delete_conv') (simp add: m toInfo_def plain)
  qed
qed

lemma multipart_get:
  assumes "lib_ok lib" "rnd_ok (oe_rnd env)" "clean_root ls" "lc_Root (ls_cfg ls') = lc_Root (ls_cfg ls)"
    "serves (ls_enc ls) (ls_enc ls')" "quiet renv" "local_inv ls st" "foot ls key \<inter> multi_area ls = {}"
    "valid_utf8 key" "valid_utf8 (po_ContentType opts)" "valid_kv (po_Metadata opts)"
    and "plain_name (oe_uuid env0)" "fresh_upload ls st (oe_uuid env0)"
    and i: "local_InitMultipart ls env0 key opts st = (st1, mi, None)"
    and us: "upload_all lib key (mi_UploadID mi) us st1 = Some st2"
    and fin: "local_CompleteMultipart lib ls env key (mi_UploadID mi) parts copts st2 = (st3, info, None)"
  shows "local_GetWithOptions lib ls' renv (lo_fs st3) key (read_options opts) = Inr (Inr (assembled (sent us) parts), info)
    \<and> oi_Size info = int (length (assembled (sent us) parts)) \<and> multipartETag lib (sort_key mp_PartNumber parts) = Inr (oi_ETag info)
    \<and> mp_PartNumber ` set parts \<subseteq> fst ` set (sent us) \<and> stored ls (lo_fs st3) key \<and> map_of (lo_uploads st3) (mi_UploadID mi) = None"
proof -
  note n = init_ok [OF i assms(3,7,12,13)]
  note p = parts_refine [OF us n(1) assms(3) n(2)]
  from complete_get [where up = "\<lparr>lu_key = key, lu_dir = multipart_dir ls (oe_uuid env0), lu_createdAt = oe_now env0, lu_opts = opts\<rparr>"
      and sends = "sent us", OF assms(1-6) _ assms(8,9) _ _ _ _ fin] p n(1,3) assms(10,11) show ?thesis by simp
qed

end
