(* ===== verification/Local_Examples.thy ===== *)
theory Local_Examples
  imports Local_Assembly "HOL-Library.Code_Target_Nat"
begin

text \<open>
  The properties of the local backend: reading what was written, key rotation, multipart assembly,
  operations on other objects, and storage keys.  Their witnesses run the backend with a stand-in for
  the libraries that satisfies \<open>lib_ok\<close>: a cipher that appends a tag, and documents whose fields are
  hexadecimal path elements.
\<close>

section \<open>Libraries for the witnesses\<close>

definition demo_seal :: "string \<Rightarrow> string \<Rightarrow> string \<Rightarrow> string" where
  "demo_seal k n p = rev p @ replicate 16 CHR ''t''"

definition demo_open :: "string \<Rightarrow> string \<Rightarrow> string \<Rightarrow> string res" where
  "demo_open k n c = (if length c < 16 then Inl (NewError ''tag'') else Inr (rev (take (length c - 16) c)))"

definition demo_number :: "int \<Rightarrow> string" where
  "demo_number i = (if i < 0 then CHR ''-'' # decimal (nat (- i)) else CHR ''+'' # decimal (nat i))"

definition demo_unnumber :: "string \<Rightarrow> int" where
  "demo_unnumber s = (case s of [] \<Rightarrow> 0 | c # ds \<Rightarrow> if c = CHR ''-'' then - int (digits_value ds) else int (digits_value ds))"

definition demo_doc :: "string list \<Rightarrow> string" where
  "demo_doc xs = join_slash (map hex_encode xs)"

definition demo_undoc :: "string \<Rightarrow> string list res" where
  "demo_undoc s = foldr (\<lambda>x acc. rbind (hex_decode x) (\<lambda>y. rbind acc (\<lambda>ys. Inr (y # ys)))) (segments s) (Inr [])"

fun demo_pairs :: "string list \<Rightarrow> kv" where
  "demo_pairs (k # v # xs) = (k, v) # demo_pairs xs"
| "demo_pairs _ = []"

definition demo_env_json :: "sseEnvelope \<Rightarrow> string" where
  "demo_env_json e = demo_doc [se_Alg e, se_Wrap e, se_Kid e, se_Kek e, se_IV e]"

definition demo_env_parse :: "string \<Rightarrow> sseEnvelope res" where
  "demo_env_parse s = rbind (demo_undoc s) (\<lambda>xs.
     case xs of [a, w, i, k, v] \<Rightarrow> Inr \<lparr>se_Alg = a, se_Wrap = w, se_Kid = i, se_Kek = k, se_IV = v\<rparr> | _ \<Rightarrow> Inl (NewError ''json''))"

definition demo_meta_json :: "localMeta \<Rightarrow> string" where
  "demo_meta_json m = demo_doc ([lm_Key m, lm_ETag m, lm_ContentType m, lm_Envelope m, demo_number (lm_Size m), demo_number (lm_LastModified m)]
     @ concat (map (\<lambda>(k, v). [k, v]) (lm_Metadata m)))"

definition demo_meta_parse :: "string \<Rightarrow> localMeta res" where
  "demo_meta_parse s = rbind (demo_undoc s) (\<lambda>xs.
     case xs of k # e # c # v # n # t # kvs \<Rightarrow>
       Inr \<lparr>lm_Key = k, lm_Size = demo_unnumber n, lm_ETag = e, lm_ContentType = c, lm_LastModified = demo_unnumber t,
            lm_Metadata = demo_pairs kvs, lm_Envelope = v\<rparr>
     | _ \<Rightarrow> Inl (NewError ''json''))"

definition demo_lib :: go_lib where
  "demo_lib = \<lparr>gl_seal = demo_seal, gl_open = demo_open, gl_hmac = (\<lambda>k m. take 32 (m @ k @ replicate 32 CHR ''0'')),
     gl_md5 = (\<lambda>m. take 16 (m @ replicate 16 CHR ''0'')), gl_env_json = demo_env_json, gl_env_parse = demo_env_parse,
     gl_meta_json = demo_meta_json, gl_meta_parse = demo_meta_parse\<rparr>"

lemma hex_no_slash: "CHR ''/'' \<notin> set (hex_encode s)"
proof
  assume "CHR ''/'' \<in> set (hex_encode s)"
  then obtain c v where c: "v = byte c div 16 \<or> v = byte c mod 16" "hex_digit v = CHR ''/''"
    by (auto simp: hex_encode_def) metis+
  then have v: "v < 16" "hex_digit v = CHR ''/''" using less_mult_imp_div_less [of "byte c" 16 16] by auto
  have "list_all (\<lambda>v. hex_digit v \<noteq> CHR ''/'') [0..<16]" by code_simp
  with v show False by (auto simp: list_all_iff)
qed

lemma demo_doc_round_trip: "xs \<noteq> [] \<Longrightarrow> demo_undoc (demo_doc xs) = Inr xs"
proof -
  assume "xs \<noteq> []"
  then have "segments (demo_doc xs) = map hex_encode xs"
    unfolding demo_doc_def by (intro segments_join) (auto simp: hex_no_slash)
  moreover have "foldr (\<lambda>x acc. rbind (hex_decode x) (\<lambda>y. rbind acc (\<lambda>ys. Inr (y # ys)))) (map hex_encode xs) (Inr []) = Inr xs"
    by (induction xs) simp_all
  ultimately show ?thesis by (simp add: demo_undoc_def)
qed

lemma demo_number_round_trip: "demo_unnumber (demo_number i) = i"
  by (simp add: demo_unnumber_def demo_number_def digits_value_decimal)

lemma demo_pairs_round_trip: "demo_pairs (concat (map (\<lambda>(k, v). [k, v]) m)) = m"
  by (induction m) auto

lemma visible_join: "(\<forall>x \<in> set xs. visible_ascii x) \<Longrightarrow> visible_ascii (join_slash xs)"
  by (induction xs rule: join_slash.induct) (auto simp: visible_ascii_def byte_def)

lemma demo_lib_ok: "lib_ok demo_lib"
proof -
  have "demo_env_json e \<noteq> [] \<and> valid_utf8 (demo_env_json e)" for e
  proof -
    have "visible_ascii (demo_env_json e)"
      unfolding demo_env_json_def demo_doc_def by (rule visible_join) (auto simp: visible_hex)
    then have "valid_utf8 (demo_env_json e)" by (rule visible_ascii_text)
    moreover have "demo_env_json e \<noteq> []" by (simp add: demo_env_json_def demo_doc_def)
    ultimately show ?thesis by simp
  qed
  moreover have "demo_env_parse (demo_env_json e) = Inr e" for e
    by (simp add: demo_env_parse_def demo_env_json_def demo_doc_round_trip)
  moreover have "demo_meta_parse (demo_meta_json m) = Inr m" for m
    by (simp add: demo_meta_parse_def demo_meta_json_def demo_doc_round_trip demo_number_round_trip demo_pairs_round_trip)
  ultimately show ?thesis
    by (simp add: lib_ok_def demo_lib_def demo_seal_def demo_open_def min_def)
qed

definition demo_rnd :: rnd where
  "demo_rnd l = Inr (replicate (if l = ''key'' then 32 else if l = ''generation'' then 16 else 12) CHR ''r'')"

lemma demo_rnd_ok: "rnd_ok demo_rnd"
  by (simp add: rnd_ok_def demo_rnd_def)

definition demo_env :: os_env where
  "demo_env = \<lparr>oe_fault = (\<lambda>_. None), oe_now = 1000, oe_rnd = demo_rnd, oe_uuid = ''u1'', oe_short = 0, oe_dir = (4096, 0)\<rparr>"

definition demo_ring :: "string \<Rightarrow> string list \<Rightarrow> SecretProvider" where
  "demo_ring cur held = \<lparr>sp_Current = (cur, replicate 32 (hd cur)),
     sp_Resolve = (\<lambda>i. if i \<in> set held then Some (replicate 32 (hd i)) else None)\<rparr>"

definition demo_store :: "SecretProvider option \<Rightarrow> LocalStorage" where
  "demo_store p = \<lparr>ls_cfg = \<lparr>lc_Root = [''srv'', ''vault''], lc_SSEKey = [], lc_SSEKeyfile = [], lc_SSEKeyURL = [], lc_Secrets = None,
     lc_SSEKMSURL = [], lc_SSEKMSKeyID = [], lc_KMS = None\<rparr>, ls_enc = map_option Provided p\<rparr>"

definition demo_opts :: PutOptions where
  "demo_opts = \<lparr>po_ContentType = ''text/plain'', po_Metadata = [(''owner'', ''ann'')], po_SSEAlgorithm = [], po_SSEKMSKeyID = [],
     po_SSECustomerKey = [], po_SSECustomerKeyMD5 = []\<rparr>"

lemma demo_facts [simp]:
  "clean_root (demo_store p)" "lc_Root (ls_cfg (demo_store p)) = [''srv'', ''vault'']" "ls_enc (demo_store p) = map_option Provided p"
  "quiet demo_env" "rnd_ok (oe_rnd demo_env)" "plain_name (oe_uuid demo_env)" "fs_ok []"
  by (simp_all add: clean_root_def demo_store_def plain_name_def proper_def quiet_def demo_env_def demo_rnd_ok fs_ok_def)

lemma demo_utf8: "valid_utf8 ''a/b.txt''" "valid_utf8 (po_ContentType demo_opts)" "valid_kv (po_Metadata demo_opts)"
  by code_simp+

section \<open>Reading what was written\<close>

text \<open>
  C21. Whatever is put is got.  After a \<open>Put\<close> that reports no error, a reader with the same root whose key
  source still holds the key that sealed the object (the same one, a ring with a new primary, or the
  customer key of the request) gets exactly the bytes, and a description with the size and hash of the
  plaintext, the content type and the metadata of the request.
\<close>

theorem local_put_get:
  assumes "lib_ok lib" "rnd_ok (oe_rnd env)" "clean_root ls" "lc_Root (ls_cfg ls') = lc_Root (ls_cfg ls)"
    "serves (ls_enc ls) (ls_enc ls')" "fs_ok fs" "quiet renv"
    "valid_utf8 key" "valid_utf8 (po_ContentType opts)" "valid_kv (po_Metadata opts)"
    and "local_Put lib ls env fs key body sz opts = (fs', info, None)"
  shows "local_GetWithOptions lib ls' renv fs' key (read_options opts) = Inr (Inr body, info)
    \<and> oi_Key info = key \<and> oi_Size info = int (length body) \<and> oi_ETag info = hex_encode (gl_md5 lib body)
    \<and> oi_ContentType info = po_ContentType opts
    \<and> (\<forall>k. k \<noteq> GenerationMetadataKey \<longrightarrow> kv_get (oi_Metadata info) k = kv_get (po_Metadata opts) k)
    \<and> fs_ok fs'"
  using put_get [OF assms] by blast

abbreviation (input) demo_put :: "fs \<times> ObjectInfo \<times> gerr option" where
  "demo_put \<equiv> local_Put demo_lib (demo_store (Some (demo_ring ''k1'' [''k1'']))) demo_env [] ''a/b.txt'' ''hello'' (-1) demo_opts"

lemma demo_put_ok: "demo_put = (fst demo_put, fst (snd demo_put), None)"
proof -
  have "snd (snd demo_put) = None" by code_simp
  then show ?thesis by (metis prod.collapse)
qed

theorem local_put_get_witness:
  "local_GetWithOptions demo_lib (demo_store (Some (demo_ring ''k2'' [''k1'', ''k2'']))) demo_env (fst demo_put) ''a/b.txt'' no_get_options
    = Inr (Inr ''hello'', fst (snd demo_put))"
proof -
  let ?ls = "demo_store (Some (demo_ring ''k1'' [''k1'']))" and ?ls' = "demo_store (Some (demo_ring ''k2'' [''k1'', ''k2'']))"
  have "serves (ls_enc ?ls) (ls_enc ?ls')" by (simp add: demo_ring_def) code_simp
  from local_put_get [OF demo_lib_ok _ _ _ this _ _ demo_utf8 demo_put_ok, of demo_env]
  show ?thesis by (simp add: read_options_def no_get_options_def demo_opts_def)
qed

text \<open>
  C22. Rotating a master key loses nothing.  An object is written under one key source; a source with a new
  primary key that still holds the old one re-wraps it; afterwards a source that has the new key only, the
  old one being retired, reads the same bytes and the same description.  Re-wrapping succeeds whenever the
  operating system and the random source answer.
\<close>

theorem local_rotation_keeps_object:
  assumes "lib_ok lib" "rnd_ok (oe_rnd env)" "rnd_ok (oe_rnd env')" "clean_root ls"
    "lc_Root (ls_cfg ls1) = lc_Root (ls_cfg ls)" "lc_Root (ls_cfg ls2) = lc_Root (ls_cfg ls)"
    "serves (ls_enc ls) (ls_enc ls1)" "ls_enc ls1 = Some (Provided p1)" "ls_enc ls2 = Some (Provided p2)" "rotates p1 p2"
    "fs_ok fs" "quiet renv" "valid_utf8 key" "valid_utf8 (po_ContentType opts)" "valid_kv (po_Metadata opts)" "length (po_SSECustomerKey opts) \<noteq> 32"
    and "local_Put lib ls env fs key body sz opts = (fs1, info, None)"
  shows "(\<forall>fs2 changed. RewrapObject lib ls1 env' fs1 key = Some (fs2, Inr changed) \<longrightarrow>
      local_GetWithOptions lib ls2 renv fs2 key no_get_options = Inr (Inr body, info))
    \<and> (quiet env' \<longrightarrow> length (snd (sp_Current p1)) = 32 \<longrightarrow> oe_rnd env' ''wrap nonce'' = Inr n \<longrightarrow>
      (\<exists>fs2 changed. RewrapObject lib ls1 env' fs1 key = Some (fs2, Inr changed)))"
  using put_rotate_get [OF assms] .

theorem local_rotation_keeps_object_witness:
  "\<exists>fs2 changed. RewrapObject demo_lib (demo_store (Some (demo_ring ''n2'' [''k1'', ''n2'']))) demo_env (fst demo_put) ''a/b.txt'' = Some (fs2, Inr changed)
    \<and> local_GetWithOptions demo_lib (demo_store (Some (demo_ring ''n2'' [''n2'']))) demo_env fs2 ''a/b.txt'' no_get_options
        = Inr (Inr ''hello'', fst (snd demo_put))"
proof -
  let ?ls = "demo_store (Some (demo_ring ''k1'' [''k1'']))" and ?ls1 = "demo_store (Some (demo_ring ''n2'' [''k1'', ''n2'']))"
    and ?ls2 = "demo_store (Some (demo_ring ''n2'' [''n2'']))"
  have s: "serves (ls_enc ?ls) (ls_enc ?ls1)" by (simp add: demo_ring_def) code_simp
  have u: "valid_utf8 ''n2''" by code_simp
  have t: "rotates (demo_ring ''n2'' [''k1'', ''n2'']) (demo_ring ''n2'' [''n2''])" using u by (simp add: rotates_def demo_ring_def)
  have rot: "(\<forall>fs2 changed. RewrapObject demo_lib ?ls1 demo_env (fst demo_put) ''a/b.txt'' = Some (fs2, Inr changed) \<longrightarrow>
      local_GetWithOptions demo_lib ?ls2 demo_env fs2 ''a/b.txt'' no_get_options = Inr (Inr ''hello'', fst (snd demo_put)))
    \<and> (quiet demo_env \<longrightarrow> length (snd (sp_Current (demo_ring ''n2'' [''k1'', ''n2'']))) = 32 \<longrightarrow>
      oe_rnd demo_env ''wrap nonce'' = Inr (replicate 12 CHR ''r'') \<longrightarrow>
      (\<exists>fs2 changed. RewrapObject demo_lib ?ls1 demo_env (fst demo_put) ''a/b.txt'' = Some (fs2, Inr changed)))"
    by (rule local_rotation_keeps_object [OF demo_lib_ok _ _ _ _ _ s _ _ t _ _ demo_utf8 _ demo_put_ok]) (simp_all add: demo_opts_def)
  moreover have "length (snd (sp_Current (demo_ring ''n2'' [''k1'', ''n2'']))) = 32" "oe_rnd demo_env ''wrap nonce'' = Inr (replicate 12 CHR ''r'')"
    by (simp_all add: demo_ring_def demo_env_def demo_rnd_def)
  ultimately show ?thesis by auto
qed

section \<open>Multipart uploads\<close>

text \<open>
  C23. A multipart upload assembles its parts.  After an initiation, part uploads in any order and with
  repetitions, and a completion, none of which reports an error, the object read back is the concatenation,
  in the order of the part numbers listed, of the bytes sent last under each number; every number listed was
  sent, the size is that of the plaintext, and the upload is gone.
\<close>

theorem local_multipart_assembles:
  assumes "lib_ok lib" "rnd_ok (oe_rnd env)" "clean_root ls" "lc_Root (ls_cfg ls') = lc_Root (ls_cfg ls)"
    "serves (ls_enc ls) (ls_enc ls')" "quiet renv" "local_inv ls st" "object_key key"
    "valid_utf8 key" "valid_utf8 (po_ContentType opts)" "valid_kv (po_Metadata opts)"
    and "plain_name (oe_uuid env0)" "fresh_upload ls st (oe_uuid env0)"
    and "local_InitMultipart ls env0 key opts st = (st1, mi, None)"
    and "upload_all lib key (mi_UploadID mi) us st1 = Some st2"
    and "local_CompleteMultipart lib ls env key (mi_UploadID mi) parts copts st2 = (st3, info, None)"
  shows "local_GetWithOptions lib ls' renv (lo_fs st3) key (read_options opts) = Inr (Inr (assembled (sent us) parts), info)
    \<and> oi_Size info = int (length (assembled (sent us) parts)) \<and> multipartETag lib (sort_key mp_PartNumber parts) = Inr (oi_ETag info)
    \<and> mp_PartNumber ` set parts \<subseteq> fst ` set (sent us) \<and> map_of (lo_uploads st3) (mi_UploadID mi) = None"
proof -
  have "foot ls key \<inter> multi_area ls = {}" using assms(8) by (simp add: object_key_def canonical_no_parts)
  from multipart_get [OF assms(1-7) this assms(9-16)] show ?thesis by blast
qed

abbreviation (input) demo_ls :: LocalStorage where "demo_ls \<equiv> demo_store None"
abbreviation (input) no_state :: local_state where "no_state \<equiv> \<lparr>lo_fs = [], lo_uploads = []\<rparr>"

definition demo_init :: "local_state \<times> MultipartInit \<times> gerr option" where
  "demo_init = local_InitMultipart demo_ls demo_env ''a/b.txt'' demo_opts no_state"

definition demo_sends :: "(os_env \<times> int \<times> string \<times> PutOptions) list" where
  "demo_sends = [(demo_env, 2, ''world'', demo_opts), (demo_env, 1, ''x'', demo_opts), (demo_env, 1, ''hello '', demo_opts)]"

definition demo_sent :: "local_state option" where
  "demo_sent = upload_all demo_lib ''a/b.txt'' (mi_UploadID (fst (snd demo_init))) demo_sends (fst demo_init)"

definition demo_parts :: "MultipartPart list" where
  "demo_parts = [\<lparr>mp_PartNumber = 2, mp_ETag = ''aa''\<rparr>, \<lparr>mp_PartNumber = 1, mp_ETag = ''bb''\<rparr>]"

definition demo_complete :: "local_state \<times> ObjectInfo \<times> gerr option" where
  "demo_complete = local_CompleteMultipart demo_lib demo_ls demo_env ''a/b.txt'' (mi_UploadID (fst (snd demo_init))) demo_parts demo_opts (the demo_sent)"

theorem local_multipart_assembles_witness:
  "local_GetWithOptions demo_lib demo_ls demo_env (lo_fs (fst demo_complete)) ''a/b.txt'' no_get_options
    = Inr (Inr ''hello world'', fst (snd demo_complete))"
proof -
  have c: "x = (fst x, fst (snd x), None)" if "snd (snd x) = None" for x :: "local_state \<times> 'a \<times> gerr option"
    using that by (metis prod.collapse)
  have "snd (snd demo_init) = None" by code_simp
  note i = c [OF this, unfolded demo_init_def, folded demo_init_def]
  have "demo_sent \<noteq> None" by code_simp
  then have u: "upload_all demo_lib ''a/b.txt'' (mi_UploadID (fst (snd demo_init))) demo_sends (fst demo_init) = Some (the demo_sent)"
    by (auto simp: demo_sent_def)
  have "snd (snd demo_complete) = None" by code_simp
  from c [OF this] have d: "local_CompleteMultipart demo_lib demo_ls demo_env ''a/b.txt'' (mi_UploadID (fst (snd demo_init))) demo_parts demo_opts (the demo_sent)
      = (fst demo_complete, fst (snd demo_complete), None)" by (simp add: demo_complete_def)
  have i: "local_InitMultipart demo_ls demo_env ''a/b.txt'' demo_opts no_state = (fst demo_init, fst (snd demo_init), None)"
    using i by (simp add: demo_init_def)
  have s: "serves (ls_enc demo_ls) (ls_enc demo_ls)" "local_inv demo_ls no_state" "object_key ''a/b.txt''" "fresh_upload demo_ls no_state (oe_uuid demo_env)"
    "assembled (sent demo_sends) demo_parts = ''hello world''" "read_options demo_opts = no_get_options"
    by (simp_all add: local_inv_def uploads_ok_def fresh_upload_def object_key_def canonical_def proper_def) code_simp+
  from local_multipart_assembles [OF demo_lib_ok _ _ _ s(1) _ s(2,3) demo_utf8 _ s(4) i u d, of demo_env] show ?thesis
    by (simp add: s(5,6))
qed

section \<open>Other objects\<close>

text \<open>
  C24. Operations leave the objects they do not reach alone.  Take an object under a key in canonical form
  outside the parts directory, and any sequence of puts, deletions, copies, re-wraps and multipart
  operations whose upload ids are plain names and whose targets are \<open>apart\<close> from the key: each target is
  in canonical form and is neither the key, nor the name of its sidecar (a put of \<open>x.meta.json\<close> does
  change how \<open>x\<close> is read: \<open>sidecar_is_writable\<close>), nor the key whose sidecar the object is.  Whatever calls
  of the operating system fail on the way and wherever the operations stop, the object is read exactly as
  before.
\<close>

theorem local_history_keeps_objects:
  assumes "clean_root ls" "local_inv ls st" "list_all ids_plain ops" "stored ls (lo_fs st) key" "object_key key"
    and "list_all (\<lambda>(e, oper). apart key oper) ops"
  shows "local_GetWithOptions lib ls env (lo_fs (local_run lib ls ops st)) key opts = local_GetWithOptions lib ls env (lo_fs st) key opts
    \<and> stored ls (lo_fs (local_run lib ls ops st)) key"
proof -
  have "\<forall>(e, oper) \<in> set ops. foot ls key \<inter> op_area ls oper = {}"
    using assms(6) by (simp add: list_all_iff case_prod_beta apart_area [OF assms(5)])
  from run_keeps [OF assms(1-4) this] show ?thesis by blast
qed

definition demo_failing :: os_env where
  "demo_failing = demo_env\<lparr>oe_fault := (\<lambda>l. if l = ''write meta'' then Some (NewError ''disk full'') else None)\<rparr>"

definition demo_ops :: "(os_env \<times> local_op) list" where
  "demo_ops = [(demo_failing, LPut ''a/c.txt'' ''other'' 5 demo_opts), (demo_env, LDelete ''a''), (demo_env, LInit ''d'' demo_opts),
     (demo_env, LUploadPart ''d'' ''u1'' 1 ''part'' demo_opts), (demo_env, LAbort ''u1'')]"

theorem local_history_keeps_objects_witness:
  "local_GetWithOptions demo_lib demo_ls demo_env (lo_fs (local_run demo_lib demo_ls demo_ops (fst demo_complete))) ''a/b.txt'' no_get_options
    = local_GetWithOptions demo_lib demo_ls demo_env (lo_fs (fst demo_complete)) ''a/b.txt'' no_get_options
   \<and> stored demo_ls (lo_fs (local_run demo_lib demo_ls demo_ops (fst demo_complete))) ''a/b.txt''"
proof (rule local_history_keeps_objects)
  show "stored demo_ls (lo_fs (fst demo_complete)) ''a/b.txt''" by code_simp
  let ?ops = "(demo_env, LInit ''a/b.txt'' demo_opts) # map (\<lambda>(e, n, b, opts). (e, LUploadPart ''a/b.txt'' ''u1'' n b opts)) demo_sends
        @ [(demo_env, LComplete ''a/b.txt'' ''u1'' demo_parts demo_opts)]"
  have c: "fst demo_complete = local_run demo_lib demo_ls ?ops no_state" by code_simp
  have i: "local_inv demo_ls no_state" "list_all ids_plain ?ops" by (simp_all add: local_inv_def uploads_ok_def demo_sends_def)
  show "local_inv demo_ls (fst demo_complete)" unfolding c by (rule run_confined [OF _ i, THEN conjunct1]) simp
  show "list_all ids_plain demo_ops" by (simp add: demo_ops_def)
  show "list_all (\<lambda>(e, oper). apart ''a/b.txt'' oper) demo_ops" by code_simp
  show "object_key ''a/b.txt''" by code_simp
qed simp

text \<open>
  C25. The state of the backend stays well formed and confined.  Under every sequence of operations and every
  failure, directories lie above every file, uploads keep their parts below the parts directory, and no file
  outside the root changes, except the sidecar of the root itself.
\<close>

theorem local_run_confined:
  assumes "clean_root ls" "local_inv ls st" "list_all ids_plain ops"
    and "\<not> prefix (lc_Root (ls_cfg ls)) q" "q \<noteq> metaPath (lc_Root (ls_cfg ls))"
  shows "local_inv ls (local_run lib ls ops st) \<and> file_at (lo_fs (local_run lib ls ops st)) q = file_at (lo_fs st) q"
proof -
  have "q \<notin> confines ls" using assms(4,5) by (simp add: confines_def)
  with run_confined [OF assms(1-3)] show ?thesis by (auto simp: touches_def)
qed

theorem local_run_confined_witness:
  "local_inv demo_ls (local_run demo_lib demo_ls demo_ops no_state)
    \<and> file_at (lo_fs (local_run demo_lib demo_ls demo_ops no_state)) [''etc'', ''passwd''] = file_at [] [''etc'', ''passwd'']"
  using local_run_confined [of demo_ls no_state demo_ops "[''etc'', ''passwd'']" demo_lib]
  by (simp add: local_inv_def uploads_ok_def demo_ops_def metaPath_def)

section \<open>Storage keys\<close>

text \<open>
  C26. Objects of different tenants and buckets never share a blob, and within a bucket two keys share one
  exactly when they agree once empty and dot elements are dropped.
\<close>

theorem storageKey_collisions:
  assumes "plain_name t1" "plain_name b1" "k1 \<noteq> []" "\<not> has_prefix k1 ''/''" "\<not> contains_sub k1 ''..''"
    and "plain_name t2" "plain_name b2" "k2 \<noteq> []" "\<not> has_prefix k2 ''/''" "\<not> contains_sub k2 ''..''"
  shows "storageKey t1 b1 k1 = storageKey t2 b2 k2 \<longleftrightarrow>
    t1 = t2 \<and> b1 = b2 \<and> filter proper (segments k1) = filter proper (segments k2)"
  using assms by (rule storageKey_eq_iff)

theorem storageKey_collisions_witness:
  "storageKey ''acme'' ''docs'' ''a/b'' = storageKey ''acme'' ''docs'' ''a//b'' \<and> storageKey ''acme'' ''docs'' ''a/b'' \<noteq> storageKey ''acme'' ''doc'' ''s/a/b''"
  using storageKey_collisions [of "''acme''" "''docs''" "''a/b''" "''acme''" "''docs''" "''a//b''"]
    storageKey_collisions [of "''acme''" "''docs''" "''a/b''" "''acme''" "''doc''" "''s/a/b''"]
  by (simp add: plain_name_def proper_def has_prefix_def)

section \<open>Deviations\<close>

text \<open>The name of a sidecar is an object key like any other: writing it replaces the description of the object.\<close>

lemma sidecar_is_writable:
  assumes "clean_root ls" "canonical key" "canonical (key @ localMetaSuffix)" "put_encrypter ls opts = None" "fs_ok fs" "quiet renv"
    and "local_Put lib ls env fs (key @ localMetaSuffix) body sz opts = (fs', info, None)"
  shows "readMeta lib renv fs' (metaPath (key_path ls key)) = gl_meta_parse lib body"
  using assms(7)
proof (rule Put_ok)
  fix p fs1 fs2 bytes envelope generation m
  assume s: "objectPath ls (key @ localMetaSuffix) = Inr p" "os_MkdirAll fs (butlast p) = Inr fs1"
    "seal_body lib env (put_encrypter ls opts) body = Inr (bytes, envelope)" "os_replace fs1 p bytes (oe_now env) = Inr fs2"
    and w: "os_replace fs2 (metaPath p) (gl_meta_json lib m) (oe_now env) = Inr fs'"
  note q = foot_path(1) [OF assms(1) s(1)]
  have "bytes = body" using s(3) assms(4) by (simp add: seal_body_def)
  moreover have "fs_ok fs'" using os_replace_ok [OF w os_replace_ok [OF s(4) os_MkdirAll_ok [OF s(2) assms(5)] q]] by simp
  ultimately have "os_ReadFile fs' p = Inr body" using os_ReadFile_file two_files(1) [OF s(4) w q] by blast
  moreover have "p = metaPath (key_path ls key)"
    using objectPath_key [OF assms(1) s(1)] by (simp only: metaPath_canonical [OF assms(2)] key_path_canonical [OF assms(3)])
  ultimately show ?thesis using assms(6) by (simp add: readMeta_def)
qed

text \<open>A prefix of a key is reported as an object.\<close>

lemma directory_has_a_description:
  "local_statObject demo_lib demo_ls demo_env (lo_fs (fst demo_complete)) ''a'' None
    = Inr (zero_ObjectInfo\<lparr>oi_Key := ''a'', oi_Size := 4096, oi_LastModified := 0\<rparr>)"
  by code_simp

text \<open>A put whose sidecar cannot be written removes the object it was to replace.\<close>

lemma failed_put_loses_object:
  "local_Get demo_lib demo_ls demo_env (fst (local_Put demo_lib demo_ls demo_failing (lo_fs (fst demo_complete)) ''a/b.txt'' ''new'' 3 demo_opts)) ''a/b.txt''
    = Inl (Sentinel StorageNotFound)"
  by code_simp

text \<open>A completion under another key forgets the upload and leaves its parts on the disk.\<close>

lemma wrong_key_forgets_upload:
  assumes "map_of (lo_uploads st) i = Some up" "validateMultipartSSEC (lu_opts up) opts = None" "lu_key up \<noteq> key"
  shows "local_CompleteMultipart lib ls env key i parts opts st =
    (st\<lparr>lo_uploads := AList.delete i (lo_uploads st)\<rparr>, zero_ObjectInfo, Some (NewError ''unknown upload''))"
  using assms by (simp add: local_CompleteMultipart_def Let_def)

text \<open>With a key management service, re-wrapping an envelope of a local key dereferences the missing provider.\<close>

lemma rewrap_local_envelope_panics:
  assumes "parseEnvelope lib envelope = Inr env" "se_Alg env = sseAlg" "se_Wrap env = []"
  shows "rewrap lib rnd (Wrapping w) envelope = None"
  using assms by (simp add: rewrap_def)

text \<open>Re-wrapping knows no customer keys: an object under one cannot be re-wrapped, and the sweep reports it.\<close>

lemma rewrap_customer_envelope_fails:
  assumes "parseEnvelope lib envelope = Inr env" "se_Alg env = sseAlg" "se_Wrap env = []" "se_Kid env = ssecKeyID"
    "fst (sp_Current p) \<noteq> ssecKeyID" "sp_Resolve p ssecKeyID = None"
  shows "rewrap lib rnd (Provided p) envelope = Some (Inl (NewError ''sse: unknown key version''))"
  using assms by (cases "sp_Current p") (simp add: rewrap_def resolveOldKey_def)

end
