(* ===== verification/Bucket_Store.thy ===== *)
theory Bucket_Store
  imports Legal_Holds Byte_Range
begin

text \<open>
  Tenants, quotas and buckets: \<open>internal/repository/tenants.go\<close>, \<open>quota.go\<close>, \<open>sql_buckets.go\<close> and the
  setters of \<open>sql_bucket_lifecycle.go\<close> and \<open>sql_bucket_access.go\<close>.  The columns of a bucket that hold
  other JSON documents (CORS and notification rules, transition rules, the website) are not
  modelled.  The integer columns of table buckets are 32 bits wide on PostgreSQL.
\<close>

section \<open>Tenants (\<open>tenants.go\<close>)\<close>

record TenantRecord =
  tr_TenantID :: string
  tr_DisplayName :: string
  tr_Status :: string
  tr_CreatedAt :: string

text \<open>\<open>now\<close> is \<open>time.Now().UTC()\<close> as RFC3339Nano text.\<close>

definition UpsertTenant :: "sql_env \<Rightarrow> string \<Rightarrow> TenantRecord list \<Rightarrow> TenantRecord \<Rightarrow> TenantRecord list \<times> gerr option" where
  "UpsertTenant env now db tr0 =
     (let tr = tr0\<lparr>tr_CreatedAt := (if tr_CreatedAt tr0 = [] then now else tr_CreatedAt tr0),
                   tr_Status := (if tr_Status tr0 = [] then ''active'' else tr_Status tr0)\<rparr>;
          hit = (\<lambda>r. tr_TenantID r = tr_TenantID tr) in
      run db (stmt env ''upsert tenant'' (Inr
        (if list_ex hit db
         then set_rows hit (\<lambda>r. r\<lparr>tr_DisplayName := tr_DisplayName tr, tr_Status := tr_Status tr\<rparr>) db
         else db @ [tr]))))"

definition GetTenant :: "sql_env \<Rightarrow> TenantRecord list \<Rightarrow> string \<Rightarrow> TenantRecord option res" where
  "GetTenant env db tenantID =
     (case query_row env ''get tenant'' (filter (\<lambda>r. tr_TenantID r = tenantID) db) of
        Inl e \<Rightarrow> if errors_is e ErrNoRows then Inr None else Inl e
      | Inr r \<Rightarrow> Inr (Some r))"

definition ListTenants :: "sql_env \<Rightarrow> TenantRecord list \<Rightarrow> TenantRecord list res" where
  "ListTenants env db = stmt env ''list tenants'' (Inr (sort_key tr_CreatedAt db))"

section \<open>Quotas (\<open>quota.go\<close>)\<close>

record TenantQuota =
  tq_TenantID :: string
  tq_MaxBytes :: int
  tq_MaxObjects :: int
  tq_UsedBytes :: int
  tq_UsedObjects :: int
  tq_DailyBudgetMicros :: int
  tq_UpdatedAt :: instant

definition zero_quota :: "string \<Rightarrow> TenantQuota" where
  "zero_quota tenant = \<lparr>tq_TenantID = tenant, tq_MaxBytes = 0, tq_MaxObjects = 0, tq_UsedBytes = 0, tq_UsedObjects = 0,
     tq_DailyBudgetMicros = 0, tq_UpdatedAt = 0\<rparr>"

definition quota_of :: "string \<Rightarrow> TenantQuota \<Rightarrow> bool" where
  "quota_of tenant q \<longleftrightarrow> tq_TenantID q = tenant"

definition ListTenantQuotas :: "sql_env \<Rightarrow> TenantQuota list \<Rightarrow> TenantQuota list res" where
  "ListTenantQuotas env db = stmt env ''list quotas'' (Inr db)"

definition GetTenantQuota :: "sql_env \<Rightarrow> TenantQuota list \<Rightarrow> string \<Rightarrow> TenantQuota res" where
  "GetTenantQuota env db tenant0 =
     (let tenant = defaultTenant tenant0 in
      case query_row env ''get quota'' (filter (quota_of tenant) db) of
        Inl e \<Rightarrow> if errors_is e ErrNoRows then Inr (zero_quota tenant) else Inl e
      | Inr q \<Rightarrow> Inr q)"

text \<open>
  \<open>ON CONFLICT DO UPDATE\<close> of the two cap setters.  On SQLite \<open>updated_at=excluded.updated_at\<close> is the
  default of the column, the clock of the database as on PostgreSQL.
\<close>

definition upsert_quota :: "instant \<Rightarrow> string \<Rightarrow> (TenantQuota \<Rightarrow> TenantQuota) \<Rightarrow> TenantQuota list \<Rightarrow> TenantQuota list" where
  "upsert_quota now tenant f db =
     (if list_ex (quota_of tenant) db then set_rows (quota_of tenant) (\<lambda>q. (f q)\<lparr>tq_UpdatedAt := now\<rparr>) db
      else db @ [(f (zero_quota tenant))\<lparr>tq_UpdatedAt := now\<rparr>])"

definition SetTenantQuota :: "sql_env \<Rightarrow> instant \<Rightarrow> TenantQuota list \<Rightarrow> string \<Rightarrow> int \<Rightarrow> int \<Rightarrow> TenantQuota list \<times> gerr option" where
  "SetTenantQuota env now db tenant maxBytes maxObjects =
     run db (stmt env ''set quota'' (Inr (upsert_quota (hold_time env now) (defaultTenant tenant)
       (\<lambda>q. q\<lparr>tq_MaxBytes := maxBytes, tq_MaxObjects := maxObjects\<rparr>) db)))"

definition SetTenantBudgetMicros :: "sql_env \<Rightarrow> instant \<Rightarrow> TenantQuota list \<Rightarrow> string \<Rightarrow> int \<Rightarrow> TenantQuota list \<times> gerr option" where
  "SetTenantBudgetMicros env now db tenant micros =
     run db (stmt env ''set budget'' (Inr (upsert_quota (hold_time env now) (defaultTenant tenant)
       (\<lambda>q. q\<lparr>tq_DailyBudgetMicros := micros\<rparr>) db)))"

definition ensure_quota :: "instant \<Rightarrow> string \<Rightarrow> TenantQuota list \<Rightarrow> TenantQuota list" where
  "ensure_quota now tenant db =
     (if list_ex (quota_of tenant) db then db else db @ [(zero_quota tenant)\<lparr>tq_UpdatedAt := now\<rparr>])"

definition add_usage :: "instant \<Rightarrow> int \<Rightarrow> int \<Rightarrow> TenantQuota \<Rightarrow> TenantQuota" where
  "add_usage t deltaBytes deltaObjects q =
     q\<lparr>tq_UsedBytes := (if tq_UsedBytes q + deltaBytes < 0 then 0 else tq_UsedBytes q + deltaBytes),
       tq_UsedObjects := (if tq_UsedObjects q + deltaObjects < 0 then 0 else tq_UsedObjects q + deltaObjects),
       tq_UpdatedAt := t\<rparr>"

text \<open>\<open>AddTenantUsage\<close>: the counters are committed before the row is read back.\<close>

definition AddTenantUsage :: "sql_env \<Rightarrow> clocks \<Rightarrow> TenantQuota list \<Rightarrow> string \<Rightarrow> int \<Rightarrow> int \<Rightarrow> TenantQuota list \<times> TenantQuota res" where
  "AddTenantUsage env clk db tenant0 deltaBytes deltaObjects =
     (let tenant = defaultTenant tenant0 in
      case in_tx env db
        (rbind (stmt env ''ensure quota'' (Inr (ensure_quota (hold_time env (db_now clk)) tenant db))) (\<lambda>db1.
         stmt env ''add usage'' (Inr (set_rows (quota_of tenant) (add_usage (column_time env (go_now clk)) deltaBytes deltaObjects) db1)))) of
        (db', Some e) \<Rightarrow> (db', Inl e)
      | (db', None) \<Rightarrow> (db', GetTenantQuota env db' tenant))"

section \<open>Buckets (\<open>sql_buckets.go\<close>)\<close>

record BucketConfig =
  bc_TenantID :: string
  bc_Name :: string
  bc_Versioning :: bool
  bc_ObjectLockSeconds :: int
  bc_ExpireAfterDays :: int
  bc_ExpireAction :: string
  bc_NoncurrentDays :: int
  bc_NoncurrentCount :: int
  bc_ACL :: string
  bc_Policy :: string
  bc_LoggingTarget :: string
  bc_LoggingPrefix :: string
  bc_SSEAlgorithm :: string
  bc_SSEKMSKeyId :: string
  bc_NoncurrentTransitionDays :: int
  bc_NoncurrentTransitionStorageClass :: string
  bc_BucketMaxBytes :: int
  bc_BucketMaxObjects :: int
  bc_Tags :: kv
  bc_AccelerateStatus :: string

text \<open>The Go zero value beside tenant and name, and a row with the defaults of the columns.\<close>

definition zero_bucket :: "string \<Rightarrow> string \<Rightarrow> BucketConfig" where
  "zero_bucket tenant bucket =
     \<lparr>bc_TenantID = tenant, bc_Name = bucket, bc_Versioning = False, bc_ObjectLockSeconds = 0, bc_ExpireAfterDays = 0,
      bc_ExpireAction = [], bc_NoncurrentDays = 0, bc_NoncurrentCount = 0, bc_ACL = [], bc_Policy = [], bc_LoggingTarget = [],
      bc_LoggingPrefix = [], bc_SSEAlgorithm = [], bc_SSEKMSKeyId = [], bc_NoncurrentTransitionDays = 0,
      bc_NoncurrentTransitionStorageClass = [], bc_BucketMaxBytes = 0, bc_BucketMaxObjects = 0, bc_Tags = [], bc_AccelerateStatus = []\<rparr>"

definition new_bucket :: "string \<Rightarrow> string \<Rightarrow> BucketConfig" where
  "new_bucket tenant bucket = (zero_bucket tenant bucket)\<lparr>bc_ExpireAction := ''soft_delete'', bc_ACL := ''private''\<rparr>"

definition at_bucket :: "string \<Rightarrow> string \<Rightarrow> BucketConfig \<Rightarrow> bool" where
  "at_bucket tenant bucket b \<longleftrightarrow> bc_TenantID b = tenant \<and> bc_Name b = bucket"

definition CreateBucket :: "sql_env \<Rightarrow> BucketConfig list \<Rightarrow> string \<Rightarrow> string \<Rightarrow> BucketConfig list \<times> gerr option" where
  "CreateBucket env db tenant0 bucket =
     (let tenant = defaultTenant tenant0 in
      run db (stmt env ''create bucket'' (Inr
        (if list_ex (at_bucket tenant bucket) db then db else db @ [new_bucket tenant bucket]))))"

definition BucketExists :: "sql_env \<Rightarrow> BucketConfig list \<Rightarrow> string \<Rightarrow> string \<Rightarrow> bool res" where
  "BucketExists env db tenant bucket =
     stmt env ''bucket exists'' (Inr (length (filter (at_bucket (defaultTenant tenant) bucket) db) > 0))"

definition ListBuckets :: "sql_env \<Rightarrow> BucketConfig list \<Rightarrow> string \<Rightarrow> string list res" where
  "ListBuckets env db tenant = stmt env ''list buckets'' (Inr (map bc_Name (filter (\<lambda>b. bc_TenantID b = defaultTenant tenant) db)))"

definition GetBucketConfig :: "sql_env \<Rightarrow> BucketConfig list \<Rightarrow> string \<Rightarrow> string \<Rightarrow> BucketConfig res" where
  "GetBucketConfig env db tenant0 bucket =
     (let tenant = defaultTenant tenant0 in
      case query_row env ''get bucket'' (filter (at_bucket tenant bucket) db) of
        Inl e \<Rightarrow> if errors_is e ErrNoRows then Inr (zero_bucket tenant bucket) else Inl e
      | Inr b \<Rightarrow> Inr b)"

text \<open>\<open>UPDATE buckets SET ...\<close>; \<open>ints\<close> are the values bound to INTEGER columns.\<close>

definition int4 :: "int \<Rightarrow> bool" where
  "int4 n \<longleftrightarrow> - 2147483648 \<le> n \<and> n \<le> 2147483647"

definition update_bucket ::
  "sql_env \<Rightarrow> int list \<Rightarrow> (BucketConfig \<Rightarrow> BucketConfig) \<Rightarrow> BucketConfig list \<Rightarrow> string \<Rightarrow> string \<Rightarrow> BucketConfig list \<times> gerr option" where
  "update_bucket env ints f db tenant bucket =
     run db (stmt env ''update bucket''
       (if dialect_of env = dialectPostgres \<and> \<not> list_all int4 ints then Inl (PgError ''22003'' [])
        else Inr (set_rows (at_bucket (defaultTenant tenant) bucket) f db)))"

text \<open>\<open>CreateBucket\<close>, then the update.\<close>

definition set_bucket ::
  "sql_env \<Rightarrow> int list \<Rightarrow> (BucketConfig \<Rightarrow> BucketConfig) \<Rightarrow> BucketConfig list \<Rightarrow> string \<Rightarrow> string \<Rightarrow> BucketConfig list \<times> gerr option" where
  "set_bucket env ints f db tenant bucket =
     (case CreateBucket env db tenant bucket of
        (db1, Some e) \<Rightarrow> (db1, Some e)
      | (db1, None) \<Rightarrow> update_bucket env ints f db1 tenant bucket)"

definition SetBucketAccelerate :: "sql_env \<Rightarrow> BucketConfig list \<Rightarrow> string \<Rightarrow> string \<Rightarrow> string \<Rightarrow> BucketConfig list \<times> gerr option" where
  "SetBucketAccelerate env db tenant bucket status = set_bucket env [] (\<lambda>b. b\<lparr>bc_AccelerateStatus := status\<rparr>) db tenant bucket"

definition SetBucketEncryption :: "sql_env \<Rightarrow> BucketConfig list \<Rightarrow> string \<Rightarrow> string \<Rightarrow> string \<Rightarrow> string \<Rightarrow> BucketConfig list \<times> gerr option" where
  "SetBucketEncryption env db tenant bucket algorithm kmsKeyID =
     set_bucket env [] (\<lambda>b. b\<lparr>bc_SSEAlgorithm := algorithm, bc_SSEKMSKeyId := kmsKeyID\<rparr>) db tenant bucket"

definition DeleteBucketEncryption :: "sql_env \<Rightarrow> BucketConfig list \<Rightarrow> string \<Rightarrow> string \<Rightarrow> BucketConfig list \<times> gerr option" where
  "DeleteBucketEncryption env db tenant bucket =
     update_bucket env [] (\<lambda>b. b\<lparr>bc_SSEAlgorithm := [], bc_SSEKMSKeyId := []\<rparr>) db tenant bucket"

definition SetBucketQuota :: "sql_env \<Rightarrow> BucketConfig list \<Rightarrow> string \<Rightarrow> string \<Rightarrow> int \<Rightarrow> int \<Rightarrow> BucketConfig list \<times> gerr option" where
  "SetBucketQuota env db tenant bucket maxBytes maxObjects =
     set_bucket env [maxBytes, maxObjects] (\<lambda>b. b\<lparr>bc_BucketMaxBytes := maxBytes, bc_BucketMaxObjects := maxObjects\<rparr>) db tenant bucket"

text \<open>Live rows and version tombstones count, rows deleted by users do not.\<close>

definition counted :: "'a Object_scheme \<Rightarrow> bool" where
  "counted o' \<longleftrightarrow> o_DeletedAt o' = None \<or> o_VersionTombstone o'"

definition BucketUsage :: "sql_env \<Rightarrow> objects_db \<Rightarrow> string \<Rightarrow> string \<Rightarrow> (int \<times> int) res" where
  "BucketUsage env db tenant bucket =
     stmt env ''bucket usage''
       (let rows = filter (\<lambda>r. o_TenantID r = defaultTenant tenant \<and> o_Bucket r = bucket \<and> counted r) (od_objects db) in
        Inr (sum_list (map o_Size rows), int (length rows)))"

definition BucketStats :: "sql_env \<Rightarrow> objects_db \<Rightarrow> string \<Rightarrow> string \<Rightarrow> (int \<times> int) res" where
  "BucketStats env db tenant bucket =
     stmt env ''bucket stats''
       (let rows = filter (\<lambda>r. o_TenantID r = defaultTenant tenant \<and> o_Bucket r = bucket \<and> is_live r) (od_objects db) in
        Inr (int (length rows), sum_list (map o_Size rows)))"

definition SetBucketTags :: "sql_env \<Rightarrow> BucketConfig list \<Rightarrow> string \<Rightarrow> string \<Rightarrow> kv \<Rightarrow> BucketConfig list \<times> gerr option" where
  "SetBucketTags env db tenant bucket tags = set_bucket env [] (\<lambda>b. b\<lparr>bc_Tags := jsonOrEmpty tags\<rparr>) db tenant bucket"

definition DeleteBucketTags :: "sql_env \<Rightarrow> BucketConfig list \<Rightarrow> string \<Rightarrow> string \<Rightarrow> BucketConfig list \<times> gerr option" where
  "DeleteBucketTags env db tenant bucket = update_bucket env [] (\<lambda>b. b\<lparr>bc_Tags := []\<rparr>) db tenant bucket"

definition SetBucketPolicy :: "sql_env \<Rightarrow> BucketConfig list \<Rightarrow> string \<Rightarrow> string \<Rightarrow> string \<Rightarrow> BucketConfig list \<times> gerr option" where
  "SetBucketPolicy env db tenant bucket policy = set_bucket env [] (\<lambda>b. b\<lparr>bc_Policy := policy\<rparr>) db tenant bucket"

definition SetBucketACL :: "sql_env \<Rightarrow> BucketConfig list \<Rightarrow> string \<Rightarrow> string \<Rightarrow> string \<Rightarrow> BucketConfig list \<times> gerr option" where
  "SetBucketACL env db tenant bucket acl = set_bucket env [] (\<lambda>b. b\<lparr>bc_ACL := acl\<rparr>) db tenant bucket"

definition SetBucketVersioning :: "sql_env \<Rightarrow> BucketConfig list \<Rightarrow> string \<Rightarrow> string \<Rightarrow> bool \<Rightarrow> BucketConfig list \<times> gerr option" where
  "SetBucketVersioning env db tenant bucket enabled = set_bucket env [] (\<lambda>b. b\<lparr>bc_Versioning := enabled\<rparr>) db tenant bucket"

definition SetBucketObjectLock :: "sql_env \<Rightarrow> BucketConfig list \<Rightarrow> string \<Rightarrow> string \<Rightarrow> int \<Rightarrow> BucketConfig list \<times> gerr option" where
  "SetBucketObjectLock env db tenant bucket seconds = set_bucket env [seconds] (\<lambda>b. b\<lparr>bc_ObjectLockSeconds := seconds\<rparr>) db tenant bucket"

definition SetBucketLifecycle :: "sql_env \<Rightarrow> BucketConfig list \<Rightarrow> string \<Rightarrow> string \<Rightarrow> int \<Rightarrow> string \<Rightarrow> BucketConfig list \<times> gerr option" where
  "SetBucketLifecycle env db tenant bucket expireAfterDays expireAction =
     set_bucket env [expireAfterDays]
       (\<lambda>b. b\<lparr>bc_ExpireAfterDays := expireAfterDays, bc_ExpireAction := (if expireAction = [] then ''soft_delete'' else expireAction)\<rparr>) db tenant bucket"

definition SetBucketNoncurrentVersionLifecycle ::
  "sql_env \<Rightarrow> BucketConfig list \<Rightarrow> string \<Rightarrow> string \<Rightarrow> int \<Rightarrow> int \<Rightarrow> BucketConfig list \<times> gerr option" where
  "SetBucketNoncurrentVersionLifecycle env db tenant bucket noncurrentDays noncurrentCount =
     set_bucket env [noncurrentDays, noncurrentCount]
       (\<lambda>b. b\<lparr>bc_NoncurrentDays := noncurrentDays, bc_NoncurrentCount := noncurrentCount\<rparr>) db tenant bucket"

definition SetBucketLogging :: "sql_env \<Rightarrow> BucketConfig list \<Rightarrow> string \<Rightarrow> string \<Rightarrow> string \<Rightarrow> string \<Rightarrow> BucketConfig list \<times> gerr option" where
  "SetBucketLogging env db tenant bucket targetBucket targetPrefix =
     set_bucket env [] (\<lambda>b. b\<lparr>bc_LoggingTarget := targetBucket, bc_LoggingPrefix := targetPrefix\<rparr>) db tenant bucket"

definition DeleteBucketLogging :: "sql_env \<Rightarrow> BucketConfig list \<Rightarrow> string \<Rightarrow> string \<Rightarrow> BucketConfig list \<times> gerr option" where
  "DeleteBucketLogging env db tenant bucket =
     update_bucket env [] (\<lambda>b. b\<lparr>bc_LoggingTarget := [], bc_LoggingPrefix := []\<rparr>) db tenant bucket"

section \<open>Properties\<close>

text \<open>Quotas have one row per tenant and counters that are never negative.\<close>

definition quotas_ok :: "TenantQuota list \<Rightarrow> bool" where
  "quotas_ok db \<longleftrightarrow> distinct (map tq_TenantID db) \<and> list_all (\<lambda>q. 0 \<le> tq_UsedBytes q \<and> 0 \<le> tq_UsedObjects q) db"

definition usage :: "TenantQuota list \<Rightarrow> string \<Rightarrow> TenantQuota" where
  "usage db tenant = (case filter (quota_of (defaultTenant tenant)) db of [] \<Rightarrow> zero_quota (defaultTenant tenant) | q # _ \<Rightarrow> q)"

text \<open>A driver that fails a query does not answer that there are no rows.\<close>

definition honest :: "sql_env \<Rightarrow> bool" where
  "honest env \<longleftrightarrow> (\<forall>l e. fault env l = Some e \<longrightarrow> \<not> errors_is e ErrNoRows \<and> \<not> errors_is e ErrNotFound)"

lemma GetTenantQuota_Inr: "honest env \<Longrightarrow> GetTenantQuota env db tenant = Inr q \<Longrightarrow> q = usage db tenant"
  by (auto simp: GetTenantQuota_def usage_def query_row_def stmt_def Let_def honest_def split: option.splits list.splits if_splits sum.splits)

lemma map_set_rows: "(\<And>r. p r \<Longrightarrow> g (f r) = g r) \<Longrightarrow> map g (set_rows p f rows) = map g rows"
  by (induction rows) (auto simp: set_rows_def)

lemma filter_set_rows_fixed: "(\<And>r. q (f r) = q r) \<Longrightarrow> filter q (set_rows p f rows) = map (\<lambda>r. if p r then f r else r) (filter q rows)"
  by (induction rows) (auto simp: set_rows_def)

definition usage_tx :: "sql_env \<Rightarrow> clocks \<Rightarrow> string \<Rightarrow> int \<Rightarrow> int \<Rightarrow> TenantQuota list \<Rightarrow> TenantQuota list" where
  "usage_tx env clk tenant b n db =
     set_rows (quota_of (defaultTenant tenant)) (add_usage (column_time env (go_now clk)) b n)
       (ensure_quota (hold_time env (db_now clk)) (defaultTenant tenant) db)"

lemma AddTenantUsage_db:
  "fst (AddTenantUsage env clk db tenant b n) \<in> {db, usage_tx env clk tenant b n db}"
  "snd (AddTenantUsage env clk db tenant b n) = Inr q \<Longrightarrow> fst (AddTenantUsage env clk db tenant b n) = usage_tx env clk tenant b n db"
  by (auto simp: AddTenantUsage_def usage_tx_def Let_def in_tx_def tx_commit_def stmt_def rbind_def split: option.splits prod.splits)

lemma usage_tx_ok: "quotas_ok db \<Longrightarrow> quotas_ok (usage_tx env clk tenant b n db)"
proof -
  let ?t = "defaultTenant tenant" and ?e = "ensure_quota (hold_time env (db_now clk)) (defaultTenant tenant) db"
  assume "quotas_ok db"
  then have "quotas_ok ?e"
    by (auto simp: quotas_ok_def ensure_quota_def zero_quota_def quota_of_def list_ex_iff)
  moreover have "map tq_TenantID (set_rows (quota_of ?t) (add_usage t b n) ?e) = map tq_TenantID ?e" for t
    by (rule map_set_rows) (simp add: add_usage_def)
  ultimately show ?thesis
    unfolding quotas_ok_def usage_tx_def by (auto simp: set_rows_def list_all_iff add_usage_def simp del: map_map)
qed

lemma usage_after: "usage (usage_tx env clk tenant b n db) tenant = add_usage (column_time env (go_now clk)) b n
    (case filter (quota_of (defaultTenant tenant)) db of
       [] \<Rightarrow> (zero_quota (defaultTenant tenant))\<lparr>tq_UpdatedAt := hold_time env (db_now clk)\<rparr> | q # _ \<Rightarrow> q)"
proof -
  let ?t = "defaultTenant tenant"
  have f: "filter (quota_of ?t) (usage_tx env clk tenant b n db) =
      map (add_usage (column_time env (go_now clk)) b n) (filter (quota_of ?t) (ensure_quota (hold_time env (db_now clk)) ?t db))"
    unfolding usage_tx_def by (subst filter_set_rows_fixed) (auto simp: quota_of_def add_usage_def)
  show ?thesis
  proof (cases "filter (quota_of ?t) db")
    case Nil
    then have "\<not> list_ex (quota_of ?t) db" by (auto simp: list_ex_iff filter_empty_conv)
    with Nil f show ?thesis by (simp add: usage_def ensure_quota_def quota_of_def zero_quota_def)
  next
    case (Cons q qs)
    then have "q \<in> set (filter (quota_of ?t) db)" by simp
    then have "list_ex (quota_of ?t) db" by (auto simp: list_ex_iff)
    with Cons f show ?thesis by (simp add: usage_def ensure_quota_def)
  qed
qed

lemma usage_after_counts:
  "tq_UsedBytes (usage (usage_tx env clk tenant b n db) tenant) = max 0 (tq_UsedBytes (usage db tenant) + b)"
  "tq_UsedObjects (usage (usage_tx env clk tenant b n db) tenant) = max 0 (tq_UsedObjects (usage db tenant) + n)"
  "tq_MaxBytes (usage (usage_tx env clk tenant b n db) tenant) = tq_MaxBytes (usage db tenant)"
  "tq_MaxObjects (usage (usage_tx env clk tenant b n db) tenant) = tq_MaxObjects (usage db tenant)"
  unfolding usage_after by (auto simp: usage_def add_usage_def zero_quota_def split: list.splits)

text \<open>On PostgreSQL a bucket cap of two gibibytes or more is rejected by its column.\<close>

lemma large_bucket_quota_rejected:
  assumes "dialect_of env = dialectPostgres" "fault_free env" "maxBytes > 2147483647"
  shows "snd (SetBucketQuota env db tenant bucket maxBytes maxObjects) = Some (PgError ''22003'' [])"
  using assms by (simp add: SetBucketQuota_def set_bucket_def CreateBucket_def update_bucket_def run_def stmt_def fault_free_def int4_def Let_def)

end
