(* ===== verification/File_Service.thy ===== *)
theory File_Service
  imports Bucket_Store Event_Outbox Object_Maintenance Access_Boundary Storage_Interface Go_Path Go_Codec
begin

text \<open>
  The file service, \<open>internal/service\<close>: validation (\<open>file.go\<close>), authorization (\<open>access.go\<close>,
  \<open>space_boundary.go\<close>).  The theories that follow add writing, deletion and reading.
  A method is an action: a function of the state of the vault that returns the new state and a result
  or an error; \<open>then_do\<close> is the sequence with the early return on an error.  Every repository call has
  an environment of its own, by the place of the call, so that any subset of the calls may fail.
\<close>

section \<open>State and actions\<close>

record Event =
  ev_TenantID :: string
  ev_Bucket :: string
  ev_Key :: string
  ev_Type :: string
  ev_ObjectID :: int
  ev_RequestID :: string
  ev_Payload :: kv

text \<open>
  \<open>va_published\<close> are the events handed to the sink and \<open>va_cleaned\<close> the chunk scopes handed to the
  chunk cleaner, in order; both only grow.
\<close>

record 's vault =
  va_events :: events_db
  va_quotas :: "TenantQuota list"
  va_buckets :: "BucketConfig list"
  va_tenants :: "TenantRecord list"
  va_store :: 's
  va_published :: "Event list"
  va_cleaned :: "ChunkRef list"

type_synonym ('s, 'a) act = "'s vault \<Rightarrow> 's vault \<times> 'a res"

definition return :: "'a \<Rightarrow> ('s, 'a) act" where
  "return x v = (v, Inr x)"

definition fail :: "gerr \<Rightarrow> ('s, 'a) act" where
  "fail e v = (v, Inl e)"

definition then_do :: "('s, 'a) act \<Rightarrow> ('a \<Rightarrow> ('s, 'b) act) \<Rightarrow> ('s, 'b) act" where
  "then_do m f v = (case m v of (v', Inl e) \<Rightarrow> (v', Inl e) | (v', Inr x) \<Rightarrow> f x v')"

definition check :: "gerr option \<Rightarrow> ('s, unit) act" where
  "check err v = (v, case err of None \<Rightarrow> Inr () | Some e \<Rightarrow> Inl e)"

definition attempt :: "('s, 'a) act \<Rightarrow> ('s, 'a res) act" where
  "attempt m v = (case m v of (v', r) \<Rightarrow> (v', Inr r))"

definition wrapping :: "(gerr \<Rightarrow> gerr) \<Rightarrow> ('s, 'a) act \<Rightarrow> ('s, 'a) act" where
  "wrapping w m v = (case m v of (v', r) \<Rightarrow> (v', wrap_err w r))"

definition read_objects :: "(objects_db \<Rightarrow> 'a res) \<Rightarrow> ('s, 'a) act" where
  "read_objects f v = (v, f (ev_db (va_events v)))"

definition set_objects :: "objects_db \<Rightarrow> 's vault \<Rightarrow> 's vault" where
  "set_objects db v = v\<lparr>va_events := (va_events v)\<lparr>ev_db := db\<rparr>\<rparr>"

definition write_objects :: "(objects_db \<Rightarrow> objects_db \<times> 'a res) \<Rightarrow> ('s, 'a) act" where
  "write_objects f v = (case f (ev_db (va_events v)) of (db, r) \<Rightarrow> (set_objects db v, r))"

definition exec_objects :: "(objects_db \<Rightarrow> objects_db \<times> gerr option) \<Rightarrow> ('s, unit) act" where
  "exec_objects f v = (case f (ev_db (va_events v)) of (db, err) \<Rightarrow> (set_objects db v, ok_or err ()))"

definition exec_events :: "(events_db \<Rightarrow> events_db \<times> gerr option) \<Rightarrow> ('s, unit) act" where
  "exec_events f v = (case f (va_events v) of (db, err) \<Rightarrow> (v\<lparr>va_events := db\<rparr>, ok_or err ()))"

definition exec_buckets :: "(BucketConfig list \<Rightarrow> BucketConfig list \<times> gerr option) \<Rightarrow> ('s, unit) act" where
  "exec_buckets f v = (case f (va_buckets v) of (db, err) \<Rightarrow> (v\<lparr>va_buckets := db\<rparr>, ok_or err ()))"

definition exec_store :: "('s \<Rightarrow> 's \<times> 'r \<times> gerr option) \<Rightarrow> ('s, 'r) act" where
  "exec_store f v = (case f (va_store v) of (s, r, err) \<Rightarrow> (v\<lparr>va_store := s\<rparr>, ok_or err r))"

section \<open>The service\<close>

record svc_ctx =
  cx_access :: access_ctx
  cx_verified :: string
  cx_request_id :: string
  cx_tenant :: string
  cx_label :: string
  cx_permission :: "string option"

record UsageAccountant =
  ua_CheckQuota :: "string \<Rightarrow> TenantQuota \<Rightarrow> int \<Rightarrow> int \<Rightarrow> gerr option"
  ua_Apply :: "string \<Rightarrow> string \<Rightarrow> int \<Rightarrow> int \<Rightarrow> TenantQuota list \<Rightarrow> TenantQuota list \<times> TenantQuota res"

text \<open>
  A port of the service that may be missing: nil, a nil pointer in an interface, or an implementation.
\<close>

datatype 'p port = Absent | TypedNil | Present 'p

record 's FileService =
  fs_store :: "'s Storage"
  fs_authorizer :: "(access_db \<Rightarrow> access_ctx \<Rightarrow> Principal \<Rightarrow> string \<Rightarrow> Resource \<Rightarrow> Decision \<times> gerr option) option"
  fs_spaceBoundary :: "(access_ctx \<Rightarrow> string \<Rightarrow> string \<Rightarrow> gerr option) port"
  fs_chunkCleaner :: "(ChunkRef \<Rightarrow> gerr option) port"
  fs_deleteFailOpen :: bool
  fs_tenantStatus :: bool
  fs_usageAccountant :: "UsageAccountant option"
  fs_defaultClass :: string
  fs_md5 :: "string \<Rightarrow> string"
  fs_deletedFact :: "Object \<Rightarrow> string \<Rightarrow> string \<Rightarrow> string \<Rightarrow> string"
  fs_notifyFact :: "Object \<Rightarrow> string \<Rightarrow> string \<Rightarrow> string \<Rightarrow> string"
  fs_version :: "string \<Rightarrow> string option"

text \<open>
  What a call meets: the database at each place, the clocks, the fresh version id, and the error of the
  spool file.
\<close>

record svc_env =
  en_sql :: "string \<Rightarrow> sql_env"
  en_clk :: clocks
  en_now :: instant
  en_vid :: string
  en_spool :: "gerr option"

definition defaults :: "string \<Rightarrow> string \<Rightarrow> string \<times> string" where
  "defaults tenant bucket = (if tenant = [] then ''default'' else tenant, if bucket = [] then ''default'' else bucket)"

section \<open>Validation (\<open>file.go\<close>)\<close>

abbreviation (input) invalid_args :: "string \<Rightarrow> gerr" where "invalid_args what \<equiv> Errorf what [Sentinel ErrInvalidArgs]"

definition validateKey :: "string \<Rightarrow> gerr option" where
  "validateKey key = first_error
     [fails (key = []) (invalid_args ''empty key''),
      fails (length key > 200) (invalid_args ''key length''),
      fails (contains_sub key ''..'' \<or> has_prefix key ''/'') (invalid_args ''illegal key'')]"

definition checkedObjectDefaults :: "string \<Rightarrow> string \<Rightarrow> string \<Rightarrow> (string \<times> string) res" where
  "checkedObjectDefaults tenant bucket key = ok_or (validateKey key) (defaults tenant bucket)"

definition ValidateContentEncoding :: "string \<Rightarrow> gerr option" where
  "ValidateContentEncoding s =
     (if s = [] then None
      else first_error
        [fails (length s > 256) (invalid_args ''Content-Encoding length''),
         fails (list_ex (\<lambda>c. byte c = 13 \<or> byte c = 10 \<or> byte c = 0x7F \<or> byte c < 0x20 \<and> byte c \<noteq> 9) s)
           (invalid_args ''invalid Content-Encoding value'')])"

text \<open>
  \<open>strings.HasPrefix(strings.ToLower(k), "_aero_")\<close>: no rune outside ASCII has one of these letters as
  lower case, so the test looks at the first six bytes.
\<close>

definition ascii_lower :: "char \<Rightarrow> char" where
  "ascii_lower c = (if 65 \<le> byte c \<and> byte c \<le> 90 then char_of (byte c + 32) else c)"

definition reserved_key :: "string \<Rightarrow> bool" where
  "reserved_key k \<longleftrightarrow> has_prefix (map ascii_lower k) ''_aero_''"

text \<open>The loop of \<open>validateMetadata\<close> over the entries of the map, in any order; \<open>n\<close> is the running total.\<close>

fun validateMetadata_loop :: "nat \<Rightarrow> kv \<Rightarrow> gerr option" where
  "validateMetadata_loop n [] = None"
| "validateMetadata_loop n ((k, v) # m) =
     (if reserved_key k then Some (invalid_args ''reserved _aero_ namespace'')
      else if length k > 256 then Some (Errorf ''key'' [Sentinel ErrMetadataKeyTooLong])
      else if length v > 65536 then Some (Errorf ''value'' [Sentinel ErrMetadataValueTooLong])
      else if n + length k + length v > 65536 then Some (Errorf ''total'' [Sentinel ErrMetadataTooLarge])
      else validateMetadata_loop (n + length k + length v) m)"

definition validateMetadata :: "kv \<Rightarrow> gerr option" where
  "validateMetadata m = validateMetadata_loop 0 m"

definition validACL :: "string \<Rightarrow> bool" where
  "validACL acl \<longleftrightarrow> acl \<in> {''private'', ''public-read'', ''public-read-write'', ''authenticated-read''}"

definition ValidateACL :: "string \<Rightarrow> gerr option" where
  "ValidateACL acl = fails (acl \<noteq> [] \<and> \<not> validACL acl) (invalid_args ''invalid canned ACL'')"

definition callerFrom :: "svc_ctx \<Rightarrow> string" where
  "callerFrom ctx = (if cx_label ctx \<noteq> [] then cx_label ctx else if cx_tenant ctx = [] then ''default'' else cx_tenant ctx)"

section \<open>Admission and authorization (\<open>space_boundary.go\<close>, \<open>access.go\<close>)\<close>

definition spaceBoundaryFault :: "gerr \<Rightarrow> gerr" where
  "spaceBoundaryFault cause = Errorf ''boundary'' [Sentinel ErrResourceBoundaryFault, cause]"

definition serviceBoundaryError :: "gerr option \<Rightarrow> gerr option" where
  "serviceBoundaryError err =
     (if IsResourceBoundaryDenied err then
        (if (case err of Some e \<Rightarrow> errors_is e SpacesTenantUnavailable | None \<Rightarrow> False)
         then errors_join [Some (Sentinel ErrForbidden), Some (Sentinel ErrTenantDisabled), err]
         else errors_join [Some (Sentinel ErrForbidden), err])
      else err)"

definition admitBucket :: "'s FileService \<Rightarrow> svc_ctx \<Rightarrow> string \<Rightarrow> string \<Rightarrow> gerr option" where
  "admitBucket s ctx tenant bucket =
     (case fs_spaceBoundary s of
        Absent \<Rightarrow> None
      | TypedNil \<Rightarrow> Some (spaceBoundaryFault (NewError ''typed-nil service boundary''))
      | Present checkBucket \<Rightarrow> serviceBoundaryError (checkBucket (cx_access ctx) tenant bucket))"

definition repositoryObjectMissing :: "gerr \<Rightarrow> bool" where
  "repositoryObjectMissing e \<longleftrightarrow> \<not> IsResourceBoundaryFault (Some e) \<and> errors_is e ErrNotFound"

definition object_conflict :: "string \<Rightarrow> string \<Rightarrow> string \<Rightarrow> Object \<Rightarrow> gerr option" where
  "object_conflict tenant bucket key obj = first_error
     [fails (o_TenantID obj \<noteq> tenant \<or> o_Bucket obj \<noteq> bucket \<or> key \<noteq> [] \<and> o_Key obj \<noteq> key \<or> o_ID obj \<le> 0)
        (spaceBoundaryFault (NewError ''object observation scope conflict'')),
      map_option spaceBoundaryFault (validateKey (o_Key obj))]"

definition validateBoundaryObjects :: "'s FileService \<Rightarrow> Object list \<Rightarrow> string \<Rightarrow> string \<Rightarrow> string \<Rightarrow> gerr option" where
  "validateBoundaryObjects s objects tenant bucket key =
     (case fs_spaceBoundary s of Absent \<Rightarrow> None | _ \<Rightarrow> first_error (map (object_conflict tenant bucket key) objects))"

definition ObjectOwner :: "Object \<Rightarrow> string" where
  "ObjectOwner obj = kv_get (o_Metadata obj) ''_aero_owner''"

definition objectResourceKind :: "string \<Rightarrow> string" where
  "objectResourceKind key = (if key = [] then ResourceBucket else if has_suffix key ''/'' then ResourceFolder else ResourceObject)"

definition replayObjectResource :: "Object \<Rightarrow> Resource" where
  "replayObjectResource obj =
     \<lparr>r_TenantID = o_TenantID obj, r_Bucket = o_Bucket obj, r_Key = o_Key obj, r_Kind = objectResourceKind (o_Key obj), r_OwnerID = ObjectOwner obj\<rparr>"

definition requireActiveTenant :: "'s FileService \<Rightarrow> svc_env \<Rightarrow> svc_ctx \<Rightarrow> string \<Rightarrow> ('s, unit) act" where
  "requireActiveTenant s env ctx tenant v =
     (v, if \<not> fs_tenantStatus s \<or> cx_verified ctx \<noteq> [] \<and> cx_verified ctx = tenant then Inr ()
         else if (case PrincipalFrom (cx_access ctx) of (p, ok) \<Rightarrow> ok \<and> p_Kind p = PrincipalSystem) then Inr ()
         else (case GetTenant (en_sql env ''tenant status'') (va_tenants v) tenant of
                 Inl e \<Rightarrow> Inl (Errorf ''tenant status'' [e])
               | Inr (Some r) \<Rightarrow>
                   if tr_Status r = ''disabled'' then Inl (Errorf ''tenant'' [Sentinel ErrForbidden, Sentinel ErrTenantDisabled]) else Inr ()
               | Inr None \<Rightarrow> Inr ()))"

definition no_provider :: gerr where
  "no_provider = Errorf ''no authorization provider configured'' [Sentinel ErrForbidden]"

definition decide :: "'s FileService \<Rightarrow> svc_ctx \<Rightarrow> string \<Rightarrow> Resource \<Rightarrow> 's vault \<Rightarrow> gerr option" where
  "decide s ctx action resource v =
     (case fs_authorizer s of
        None \<Rightarrow>
          if action = ActionAdminDelete then Some no_provider
          else if action = ActionDelete \<and> \<not> fs_deleteFailOpen s then
            (if (case PrincipalFrom (cx_access ctx) of (p, ok) \<Rightarrow> ok \<and> IsSystemDeleteExempt p (r_TenantID resource)) then None
             else Some no_provider)
          else None
      | Some authorizer \<Rightarrow>
          (case authorizer (od_access (ev_db (va_events v))) (cx_access ctx) (fst (PrincipalFrom (cx_access ctx))) action resource of
             (_, Some e) \<Rightarrow> Some (spaceBoundaryFault (Errorf ''authorization decision'' [e]))
           | (decision, None) \<Rightarrow> fails (\<not> DAllowed decision) (Errorf (Reason decision) [Sentinel ErrForbidden])))"

definition authorize :: "'s FileService \<Rightarrow> svc_env \<Rightarrow> svc_ctx \<Rightarrow> string \<Rightarrow> Resource \<Rightarrow> ('s, unit) act" where
  "authorize s env ctx action resource =
     then_do (check (admitBucket s ctx (r_TenantID resource) (r_Bucket resource))) (\<lambda>_.
     then_do (requireActiveTenant s env ctx (r_TenantID resource)) (\<lambda>_.
     \<lambda>v. check (decide s ctx action resource v) v))"

text \<open>The replay record that \<open>recordReplayAdmission\<close> fills is part of the request, not of the state.\<close>

definition authorizeObject :: "'s FileService \<Rightarrow> svc_env \<Rightarrow> svc_ctx \<Rightarrow> string \<Rightarrow> Object \<Rightarrow> ('s, unit) act" where
  "authorizeObject s env ctx action obj = authorize s env ctx action (replayObjectResource obj)"

definition authorizePath :: "'s FileService \<Rightarrow> svc_env \<Rightarrow> svc_ctx \<Rightarrow> string \<Rightarrow> string \<Rightarrow> string \<Rightarrow> string \<Rightarrow> ('s, unit) act" where
  "authorizePath s env ctx action tenant bucket key =
     authorize s env ctx action \<lparr>r_TenantID = tenant, r_Bucket = bucket, r_Key = key, r_Kind = objectResourceKind key, r_OwnerID = []\<rparr>"

definition authorizeBucket :: "'s FileService \<Rightarrow> svc_env \<Rightarrow> svc_ctx \<Rightarrow> string \<Rightarrow> string \<Rightarrow> string \<Rightarrow> ('s, unit) act" where
  "authorizeBucket s env ctx action tenant0 bucket0 =
     (case defaults tenant0 bucket0 of (tenant, bucket) \<Rightarrow> authorizePath s env ctx action tenant bucket [])"

definition get_object_at :: "svc_env \<Rightarrow> string \<Rightarrow> string \<Rightarrow> string \<Rightarrow> string \<Rightarrow> ('s, Object) act" where
  "get_object_at env site tenant bucket key = read_objects (\<lambda>db. GetObject (en_sql env site) db tenant bucket key)"

text \<open>\<open>errors.Is(err, repository.ErrNotFound)\<close> becomes the not-found error of the service.\<close>

definition service_not_found :: "gerr \<Rightarrow> gerr" where
  "service_not_found e = (if errors_is e ErrNotFound then Sentinel ServiceNotFound else e)"

definition missing_not_found :: "gerr \<Rightarrow> gerr" where
  "missing_not_found e = (if repositoryObjectMissing e then Sentinel ServiceNotFound else e)"

definition objectForAction :: "'s FileService \<Rightarrow> svc_env \<Rightarrow> svc_ctx \<Rightarrow> string \<Rightarrow> string \<Rightarrow> string \<Rightarrow> string \<Rightarrow> ('s, Object) act" where
  "objectForAction s env ctx tenant0 bucket0 key action =
     (case checkedObjectDefaults tenant0 bucket0 key of
        Inl e \<Rightarrow> fail e
      | Inr (tenant, bucket) \<Rightarrow>
          then_do (check (admitBucket s ctx tenant bucket)) (\<lambda>_.
          then_do (wrapping missing_not_found (get_object_at env ''object'' tenant bucket key)) (\<lambda>obj.
          then_do (check (validateBoundaryObjects s [obj] tenant bucket key)) (\<lambda>_.
          then_do (authorizeObject s env ctx action obj) (\<lambda>_. return obj)))))"

definition ownerForPrincipal :: "Principal \<Rightarrow> string" where
  "ownerForPrincipal p = (if p_Kind p = PrincipalUser \<or> p_Kind p = PrincipalService then p_SubjectID p else [])"

definition metadataWithOwner :: "kv \<Rightarrow> string \<Rightarrow> kv" where
  "metadataWithOwner m owner = (if owner = [] then m else AList.update ''_aero_owner'' owner m)"

definition preparePutAccess :: "'s FileService \<Rightarrow> svc_env \<Rightarrow> svc_ctx \<Rightarrow> string \<Rightarrow> string \<Rightarrow> string \<Rightarrow> kv \<Rightarrow> ('s, kv) act" where
  "preparePutAccess s env ctx tenant bucket key metadata =
     then_do (check (admitBucket s ctx tenant bucket)) (\<lambda>_.
     then_do (attempt (get_object_at env ''put access'' tenant bucket key)) (\<lambda>r.
     case r of
       Inr existing \<Rightarrow>
         then_do (authorizeObject s env ctx ActionWrite existing) (\<lambda>_. return (metadataWithOwner metadata (ObjectOwner existing)))
     | Inl e \<Rightarrow>
         if \<not> repositoryObjectMissing e then fail e
         else then_do (authorizePath s env ctx ActionCreate tenant bucket key) (\<lambda>_.
           return (metadataWithOwner metadata (ownerForPrincipal (fst (PrincipalFrom (cx_access ctx))))))))"

end
