(* ===== verification/File_Writes.thy ===== *)
theory File_Writes
  imports File_Service
begin

text \<open>
  Writing an object through the service: quotas (\<open>file_crud.go\<close>, \<open>usage.go\<close>), encryption options
  (\<open>ssec.go\<close>, \<open>server_side_encryption.go\<close>), \<open>Put\<close>, and the events the service publishes.
\<close>

section \<open>Usage and quotas\<close>

record objectWriteUsage =
  ou_previousSize :: int
  ou_newObject :: bool

definition deltas :: "objectWriteUsage \<Rightarrow> int \<Rightarrow> int \<times> int" where
  "deltas u newSize = (if ou_newObject u then (newSize, 1) else (i64 (newSize - ou_previousSize u), 0))"

definition objectWriteUsage_of :: "svc_env \<Rightarrow> string \<Rightarrow> string \<Rightarrow> string \<Rightarrow> bool \<Rightarrow> ('s, objectWriteUsage) act" where
  "objectWriteUsage_of env tenant bucket key versioning =
     (if versioning then return \<lparr>ou_previousSize = 0, ou_newObject = True\<rparr>
      else then_do (attempt (get_object_at env ''write usage'' tenant bucket key)) (\<lambda>r.
        case r of
          Inl e \<Rightarrow> if errors_is e ErrNotFound then return \<lparr>ou_previousSize = 0, ou_newObject = True\<rparr> else fail e
        | Inr current \<Rightarrow> return \<lparr>ou_previousSize = o_Size current, ou_newObject = False\<rparr>))"

definition quota_error :: gerr where
  "quota_error = Errorf ''quota'' [Sentinel ErrQuotaExceeded]"

definition checkBytesQuota :: "TenantQuota \<Rightarrow> int \<Rightarrow> gerr option" where
  "checkBytesQuota q delta = fails (delta > 0 \<and> tq_MaxBytes q > 0 \<and> i64 (tq_UsedBytes q + delta) > tq_MaxBytes q) quota_error"

definition checkObjectsQuota :: "TenantQuota \<Rightarrow> int \<Rightarrow> gerr option" where
  "checkObjectsQuota q delta = fails (delta > 0 \<and> tq_MaxObjects q > 0 \<and> i64 (tq_UsedObjects q + delta) > tq_MaxObjects q) quota_error"

definition preflightQuota :: "'s FileService \<Rightarrow> svc_env \<Rightarrow> string \<Rightarrow> string \<Rightarrow> int \<Rightarrow> int \<Rightarrow> ('s, unit) act" where
  "preflightQuota s env site tenant deltaBytes deltaObjects v =
     (v, rbind (wrap_err (\<lambda>e. Errorf ''get tenant quota'' [e]) (GetTenantQuota (en_sql env site) (va_quotas v) tenant)) (\<lambda>q.
         ok_or (first_error
           [case fs_usageAccountant s of None \<Rightarrow> None | Some ua \<Rightarrow> ua_CheckQuota ua tenant q deltaBytes deltaObjects,
            checkBytesQuota q deltaBytes, checkObjectsQuota q deltaObjects]) ()))"

definition preflightBucketQuota :: "svc_env \<Rightarrow> string \<Rightarrow> string \<Rightarrow> int \<Rightarrow> int \<Rightarrow> ('s, unit) act" where
  "preflightBucketQuota env tenant bucket deltaBytes deltaObjects v =
     (v, rbind (GetBucketConfig (en_sql env ''bucket quota'') (va_buckets v) tenant bucket) (\<lambda>bcfg.
         if bc_BucketMaxBytes bcfg \<le> 0 \<and> bc_BucketMaxObjects bcfg \<le> 0 then Inr ()
         else rbind (BucketUsage (en_sql env ''bucket usage'') (ev_db (va_events v)) tenant bucket) (\<lambda>(usedBytes, usedObjects).
           ok_or (first_error
             [fails (deltaBytes > 0 \<and> bc_BucketMaxBytes bcfg > 0 \<and> i64 (usedBytes + deltaBytes) > bc_BucketMaxBytes bcfg) quota_error,
              fails (deltaObjects > 0 \<and> bc_BucketMaxObjects bcfg > 0 \<and> i64 (usedObjects + deltaObjects) > bc_BucketMaxObjects bcfg) quota_error]) ())))"

abbreviation (input) UsageObjectWrite :: string where "UsageObjectWrite \<equiv> ''object_write''"
abbreviation (input) UsageObjectDelete :: string where "UsageObjectDelete \<equiv> ''object_delete''"
abbreviation (input) UsageObjectRestore :: string where "UsageObjectRestore \<equiv> ''object_restore''"

definition addTenantUsage :: "'s FileService \<Rightarrow> svc_env \<Rightarrow> string \<Rightarrow> string \<Rightarrow> int \<Rightarrow> int \<Rightarrow> ('s, TenantQuota) act" where
  "addTenantUsage s env tenant kind deltaBytes deltaObjects v =
     (case (case fs_usageAccountant s of
              None \<Rightarrow> AddTenantUsage (en_sql env ''add usage'') (en_clk env) (va_quotas v) tenant deltaBytes deltaObjects
            | Some ua \<Rightarrow> ua_Apply ua tenant kind deltaBytes deltaObjects (va_quotas v)) of
        (q, r) \<Rightarrow> (v\<lparr>va_quotas := q\<rparr>, r))"

definition accountObjectUsage :: "'s FileService \<Rightarrow> svc_env \<Rightarrow> string \<Rightarrow> objectWriteUsage \<Rightarrow> int \<Rightarrow> ('s, unit) act" where
  "accountObjectUsage s env tenant u actualSize =
     (case deltas u actualSize of (deltaBytes, deltaObjects) \<Rightarrow>
      then_do (wrapping (\<lambda>e. Errorf ''record quota usage'' [e]) (addTenantUsage s env tenant UsageObjectWrite deltaBytes deltaObjects)) (\<lambda>_. return ()))"

text \<open>\<open>validateStoredSize\<close>: a mismatch removes the blob; the error of the removal is logged.\<close>

definition discard_blob :: "'s FileService \<Rightarrow> svc_ctx \<Rightarrow> string \<Rightarrow> ('s, unit) act" where
  "discard_blob s ctx sk = then_do (attempt (exec_store (st_Delete (fs_store s) (ctx_state.truncate (cx_access ctx)) sk))) (\<lambda>_. return ())"

definition validateStoredSize :: "'s FileService \<Rightarrow> svc_ctx \<Rightarrow> string \<Rightarrow> int \<Rightarrow> int \<Rightarrow> int \<Rightarrow> ('s, unit) act" where
  "validateStoredSize s ctx sk expected read' stored' =
     (if read' = expected \<and> stored' = expected then return ()
      else then_do (discard_blob s ctx sk) (\<lambda>_. fail (Errorf ''size'' [Sentinel ErrSizeMismatch])))"

definition materializeUnknownSize :: "svc_env \<Rightarrow> string \<Rightarrow> int \<Rightarrow> int res" where
  "materializeUnknownSize env body size0 =
     (if size0 \<ge> 0 then Inr size0
      else (case en_spool env of Some e \<Rightarrow> Inl (Errorf ''spool upload'' [e]) | None \<Rightarrow> Inr (int (length body))))"

section \<open>Options\<close>

record PutRequest =
  pr_ContentType :: string
  pr_ContentDisposition :: string
  pr_ContentEncoding :: string
  pr_Metadata :: kv
  pr_Tags :: kv
  pr_ACL :: string
  pr_LegalHold :: bool
  pr_ContentMD5 :: string
  pr_StorageClass :: string
  pr_SSEAlgorithm :: string
  pr_SSEKMSKeyID :: string
  pr_SSECustomerKey :: string
  pr_SSECustomerKeyMD5 :: string

abbreviation (input) ssecAlgorithmMeta :: string where "ssecAlgorithmMeta \<equiv> ''_aero_sse_c_algorithm''"
abbreviation (input) ssecKeyMD5Meta :: string where "ssecKeyMD5Meta \<equiv> ''_aero_sse_c_key_md5''"
abbreviation (input) sseAlgorithmMetadata :: string where "sseAlgorithmMetadata \<equiv> ''_aero_sse_algorithm''"
abbreviation (input) sseKMSKeyIDMetadata :: string where "sseKMSKeyIDMetadata \<equiv> ''_aero_sse_kms_key_id''"

definition storeContentHeaders :: "PutRequest \<Rightarrow> PutRequest res" where
  "storeContentHeaders opts =
     ok_or (ValidateContentEncoding (pr_ContentEncoding opts))
       (let m = pr_Metadata opts;
            m1 = (if pr_ContentDisposition opts = [] then m else AList.update ''_aero_content_disposition'' (pr_ContentDisposition opts) m);
            m2 = (if pr_ContentEncoding opts = [] then m1 else AList.update ''_aero_content_encoding'' (pr_ContentEncoding opts) m1) in
        opts\<lparr>pr_Metadata := m2\<rparr>)"

text \<open>\<open>metadataWithoutEncryption\<close> drops every encryption entry, \<open>metadataWithoutManagedSSE\<close> the provider-managed ones.\<close>

definition metadataWithoutManagedSSE :: "kv \<Rightarrow> kv" where
  "metadataWithoutManagedSSE m = AList.delete sseKMSKeyIDMetadata (AList.delete sseAlgorithmMetadata m)"

definition metadataWithoutEncryption :: "kv \<Rightarrow> kv" where
  "metadataWithoutEncryption m = AList.delete ssecKeyMD5Meta (AList.delete ssecAlgorithmMeta (metadataWithoutManagedSSE m))"

definition prepareSSECWrite :: "'s FileService \<Rightarrow> PutRequest \<Rightarrow> PutRequest res" where
  "prepareSSECWrite s opts =
     (if pr_SSECustomerKey opts = [] then
        (if pr_SSECustomerKeyMD5 opts \<noteq> [] then Inl (invalid_args ''SSE-C key is required with key MD5'')
         else if kv_get (pr_Metadata opts) ssecAlgorithmMeta \<noteq> [] \<or> kv_get (pr_Metadata opts) ssecKeyMD5Meta \<noteq> []
         then Inr (opts\<lparr>pr_Metadata := metadataWithoutEncryption (pr_Metadata opts)\<rparr>)
         else Inr opts)
      else if \<not> SupportsSSEC (fs_store s) then Inl (invalid_args ''storage backend does not support SSE-C'')
      else if length (pr_SSECustomerKey opts) \<noteq> 32 then Inl (invalid_args ''SSE-C key must be 32 bytes'')
      else (let h = fs_md5 s (pr_SSECustomerKey opts) in
            if pr_SSECustomerKeyMD5 opts \<noteq> [] \<and> pr_SSECustomerKeyMD5 opts \<noteq> h then Inl (Errorf ''SSE-C key MD5 mismatch'' [Sentinel ErrBadDigest])
            else Inr (opts\<lparr>pr_SSECustomerKeyMD5 := h,
                        pr_Metadata := AList.update ssecKeyMD5Meta (b64_encode h) (AList.update ssecAlgorithmMeta ''AES256'' (pr_Metadata opts))\<rparr>)))"

definition prepareServerSideEncryption :: "'s FileService \<Rightarrow> PutRequest \<Rightarrow> BucketConfig \<Rightarrow> PutRequest res" where
  "prepareServerSideEncryption s opts bcfg =
     (if pr_SSECustomerKey opts \<noteq> [] then
        (if pr_SSEAlgorithm opts \<noteq> [] \<or> pr_SSEKMSKeyID opts \<noteq> []
         then Inl (invalid_args ''SSE-C and provider-managed SSE are mutually exclusive'') else Inr opts)
      else (let algorithm0 = trim_space (pr_SSEAlgorithm opts); keyID0 = trim_space (pr_SSEKMSKeyID opts) in
        if algorithm0 = [] \<and> keyID0 \<noteq> [] then Inl (invalid_args ''KMS key requires aws:kms'')
        else (let algorithm = (if algorithm0 = [] then bc_SSEAlgorithm bcfg else algorithm0);
                  keyID = (if algorithm0 = [] then bc_SSEKMSKeyId bcfg
                           else if algorithm0 = ''aws:kms'' \<and> keyID0 = [] \<and> bc_SSEAlgorithm bcfg = ''aws:kms'' then bc_SSEKMSKeyId bcfg
                           else keyID0) in
          if algorithm = [] then Inr (opts\<lparr>pr_Metadata := metadataWithoutManagedSSE (pr_Metadata opts)\<rparr>)
          else if algorithm \<noteq> ''AES256'' \<and> algorithm \<noteq> ''aws:kms'' then Inl (invalid_args ''unsupported SSE algorithm'')
          else if algorithm = ''AES256'' \<and> keyID \<noteq> [] then Inl (invalid_args ''KMS key is valid only with aws:kms'')
          else if \<not> SupportsServerSideEncryption (fs_store s) algorithm keyID then Inl (invalid_args ''storage backend cannot satisfy requested SSE'')
          else (let m = AList.update sseAlgorithmMetadata algorithm (metadataWithoutManagedSSE (pr_Metadata opts)) in
                Inr (opts\<lparr>pr_SSEAlgorithm := algorithm, pr_SSEKMSKeyID := keyID,
                          pr_Metadata := (if keyID = [] then m else AList.update sseKMSKeyIDMetadata keyID m)\<rparr>)))))"

definition storeContentMD5 :: "PutRequest \<Rightarrow> PutRequest" where
  "storeContentMD5 opts =
     (if pr_ContentMD5 opts = [] then opts else opts\<lparr>pr_Metadata := AList.update ''_aero_content_md5'' (pr_ContentMD5 opts) (pr_Metadata opts)\<rparr>)"

definition store_options :: "PutRequest \<Rightarrow> PutOptions" where
  "store_options opts =
     \<lparr>po_ContentType = pr_ContentType opts, po_Metadata = pr_Metadata opts, po_SSEAlgorithm = pr_SSEAlgorithm opts,
      po_SSEKMSKeyID = pr_SSEKMSKeyID opts, po_SSECustomerKey = pr_SSECustomerKey opts, po_SSECustomerKeyMD5 = pr_SSECustomerKeyMD5 opts\<rparr>"

section \<open>Protection\<close>

definition locked_error :: gerr where
  "locked_error = Errorf ''locked'' [Sentinel ErrLocked]"

definition retention_locked :: "instant \<Rightarrow> 'a Object_scheme \<Rightarrow> bool" where
  "retention_locked now obj \<longleftrightarrow> (case o_LockedUntil obj of None \<Rightarrow> False | Some t \<Rightarrow> t > now)"

definition checkObjectProtection :: "svc_env \<Rightarrow> Object \<Rightarrow> ('s, unit) act" where
  "checkObjectProtection env obj =
     (if retention_locked (en_now env) obj then fail locked_error
      else if kv_get (o_Metadata obj) ''_aero_legal_hold'' = ''ON'' then fail locked_error
      else then_do (read_objects (\<lambda>db. ObjectHasLegalHold (en_sql env ''protection'') db (o_ID obj))) (\<lambda>held.
        if held then fail locked_error else return ()))"

definition checkOverwriteProtection :: "svc_env \<Rightarrow> string \<Rightarrow> string \<Rightarrow> string \<Rightarrow> bool \<Rightarrow> ('s, unit) act" where
  "checkOverwriteProtection env tenant bucket key versioning =
     (if versioning then return ()
      else then_do (attempt (get_object_at env ''overwrite'' tenant bucket key)) (\<lambda>r.
        case r of
          Inl e \<Rightarrow> if repositoryObjectMissing e then return () else fail e
        | Inr obj \<Rightarrow> checkObjectProtection env obj))"

definition checkCorrupt :: "Object \<Rightarrow> gerr option" where
  "checkCorrupt obj = fails (kv_get (o_Metadata obj) ''_aero_scrub_status'' = ''corrupt'') (Sentinel ErrObjectCorrupt)"

section \<open>Put\<close>

definition emit :: "svc_ctx \<Rightarrow> Object \<Rightarrow> string \<Rightarrow> ('s, unit) act" where
  "emit ctx obj t v =
     (v\<lparr>va_published := va_published v @
        [\<lparr>ev_TenantID = o_TenantID obj, ev_Bucket = o_Bucket obj, ev_Key = o_Key obj, ev_Type = t, ev_ObjectID = o_ID obj,
          ev_RequestID = cx_request_id ctx,
          ev_Payload = [(''backend'', o_Backend obj), (''size'', int_text (o_Size obj)), (''etag'', o_ETag obj), (''content_type'', o_ContentType obj)]\<rparr>]\<rparr>,
      Inr ())"

definition buildPutObject ::
  "'s FileService \<Rightarrow> svc_env \<Rightarrow> string \<Rightarrow> string \<Rightarrow> string \<Rightarrow> BucketConfig \<Rightarrow> PutRequest \<Rightarrow> string \<Rightarrow> ObjectInfo \<Rightarrow> Object" where
  "buildPutObject s env key tenant bucket bcfg opts sk info =
     (let generation = kv_get (oi_Metadata info) ''_aero_storage_generation'' in
      \<lparr>o_ID = 0, o_TenantID = tenant, o_Bucket = bucket, o_Key = key, o_VersionID = en_vid env, o_Backend = st_Backend (fs_store s),
       o_StorageKey = sk, o_Size = oi_Size info, o_ETag = oi_ETag info, o_ContentType = pr_ContentType opts,
       o_Metadata = (if generation = [] then pr_Metadata opts else AList.update ''_aero_storage_generation'' generation (pr_Metadata opts)),
       o_Tags = pr_Tags opts, o_StorageClass = pr_StorageClass opts, o_CreatedAt = 0, o_UpdatedAt = 0, o_DeletedAt = None,
       o_LockedUntil = (if bc_ObjectLockSeconds bcfg > 0 then Some (en_now env + i64 (bc_ObjectLockSeconds bcfg * 1000000000)) else None),
       o_VersionTombstone = False\<rparr>)"

definition writePutObject ::
  "'s FileService \<Rightarrow> svc_env \<Rightarrow> svc_ctx \<Rightarrow> Object \<Rightarrow> BucketConfig \<Rightarrow> objectWriteUsage \<Rightarrow> PutRequest \<Rightarrow> ('s, Object) act" where
  "writePutObject s env ctx obj bcfg u opts =
     then_do (wrapping (\<lambda>e. Errorf ''repo write'' [e]) (write_objects (\<lambda>db.
        if bc_Versioning bcfg then InsertObjectVersion (en_sql env ''write'') (en_clk env) (en_vid env) db obj
        else UpsertObject (en_sql env ''write'') (en_clk env) (en_vid env) db obj))) (\<lambda>saved.
     then_do (if pr_ACL opts = [] then return ()
              else wrapping (\<lambda>e. Errorf ''set object ACL'' [e])
                (exec_objects (\<lambda>db. SetObjectACL (en_sql env ''acl'') db (o_TenantID obj) (o_Bucket obj) (o_Key obj) (pr_ACL opts)))) (\<lambda>_.
     then_do (if \<not> pr_LegalHold opts then return ()
              else wrapping (\<lambda>e. Errorf ''set object legal hold'' [e])
                (exec_objects (\<lambda>db. PutLegalHold (en_sql env ''hold'') (db_now (en_clk env)) db
                   \<lparr>lh_ObjectID = o_ID saved, lh_VersionID = o_VersionID saved, lh_TenantID = o_TenantID saved,
                    lh_HoldReason = ''s3 upload'', lh_CreatedAt = 0, lh_CreatedBy = callerFrom ctx\<rparr>))) (\<lambda>_.
     then_do (accountObjectUsage s env (o_TenantID obj) u (o_Size saved)) (\<lambda>_.
     then_do (emit ctx saved ''created'') (\<lambda>_. return saved)))))"

text \<open>The version of a versioned bucket has a blob of its own.\<close>

definition blob_key :: "svc_env \<Rightarrow> BucketConfig \<Rightarrow> string \<Rightarrow> string \<Rightarrow> string \<Rightarrow> string" where
  "blob_key env bcfg tenant bucket key =
     (if bc_Versioning bcfg then storageKey tenant bucket key @ ''@v'' @ en_vid env else storageKey tenant bucket key)"

text \<open>
  The second half of \<open>Put\<close>: the bytes, their size and digest, then the row.  The backend has read the
  body to its end when it reports success.
\<close>

definition put_bytes ::
  "'s FileService \<Rightarrow> svc_env \<Rightarrow> svc_ctx \<Rightarrow> string \<Rightarrow> string \<Rightarrow> string \<Rightarrow> string \<Rightarrow> int \<Rightarrow> BucketConfig \<Rightarrow> objectWriteUsage \<Rightarrow> PutRequest \<Rightarrow>
     ('s, Object) act" where
  "put_bytes s env ctx tenant bucket key body sz bcfg u opts =
     (let sk = blob_key env bcfg tenant bucket key in
      then_do (if pr_ContentMD5 opts = [] then return []
               else (case b64_decode (pr_ContentMD5 opts) of Inl e \<Rightarrow> fail (invalid_args ''base64 content-md5'') | Inr d \<Rightarrow> return d)) (\<lambda>expected.
      then_do (exec_store (st_Put (fs_store s) (ctx_state.truncate (cx_access ctx)) sk body sz (store_options opts))) (\<lambda>info.
      then_do (validateStoredSize s ctx sk sz (int (length body)) (oi_Size info)) (\<lambda>_.
      then_do (if pr_ContentMD5 opts = [] \<or> fs_md5 s body = expected then return ()
               else then_do (discard_blob s ctx sk) (\<lambda>_. fail (Errorf ''content-md5'' [Sentinel ErrBadDigest]))) (\<lambda>_.
      writePutObject s env ctx (buildPutObject s env key tenant bucket bcfg opts sk info) bcfg u opts)))))"

definition svc_Put ::
  "'s FileService \<Rightarrow> svc_env \<Rightarrow> svc_ctx \<Rightarrow> string \<Rightarrow> string \<Rightarrow> string \<Rightarrow> string \<Rightarrow> int \<Rightarrow> PutRequest \<Rightarrow> ('s, Object) act" where
  "svc_Put s env ctx tenant0 bucket0 key body size0 opts0 =
     (case defaults tenant0 bucket0 of (tenant, bucket) \<Rightarrow>
      then_do (check (first_error [validateKey key, validateMetadata (pr_Metadata opts0)])) (\<lambda>_.
      case storeContentHeaders opts0 of
        Inl e \<Rightarrow> fail e
      | Inr opts1 \<Rightarrow>
          then_do (preparePutAccess s env ctx tenant bucket key (pr_Metadata opts1)) (\<lambda>accessMetadata.
          then_do (check (ValidateACL (pr_ACL opts1))) (\<lambda>_.
          case prepareSSECWrite s (opts1\<lparr>pr_Metadata := accessMetadata\<rparr>) of
            Inl e \<Rightarrow> fail e
          | Inr opts2 \<Rightarrow>
              (case materializeUnknownSize env body size0 of
                 Inl e \<Rightarrow> fail e
               | Inr sz \<Rightarrow>
                   then_do (preflightQuota s env ''quota status'' tenant 0 0) (\<lambda>_.
                   then_do (wrapping (\<lambda>e. Errorf ''ensure bucket'' [e]) (exec_buckets (\<lambda>db. CreateBucket (en_sql env ''bucket'') db tenant bucket))) (\<lambda>_.
                   then_do (check (admitBucket s ctx tenant bucket)) (\<lambda>_.
                   then_do (wrapping (\<lambda>e. Errorf ''get bucket config'' [e])
                       (\<lambda>v. (v, GetBucketConfig (en_sql env ''config'') (va_buckets v) tenant bucket))) (\<lambda>bcfg.
                   case prepareServerSideEncryption s opts2 bcfg of
                     Inl e \<Rightarrow> fail e
                   | Inr opts3 \<Rightarrow>
                       then_do (checkOverwriteProtection env tenant bucket key (bc_Versioning bcfg)) (\<lambda>_.
                       then_do (objectWriteUsage_of env tenant bucket key (bc_Versioning bcfg)) (\<lambda>u.
                       then_do (preflightQuota s env ''quota'' tenant (fst (deltas u sz)) (snd (deltas u sz))) (\<lambda>_.
                       then_do (preflightBucketQuota env tenant bucket (fst (deltas u sz)) (snd (deltas u sz))) (\<lambda>_.
                       put_bytes s env ctx tenant bucket key body sz bcfg u
                         (storeContentMD5 (opts3\<lparr>pr_StorageClass := (if pr_StorageClass opts3 = [] then fs_defaultClass s else pr_StorageClass opts3)\<rparr>)))))))))))))))"

end
