(* ===== verification/File_Deletes.thy ===== *)
theory File_Deletes
  imports File_Writes
begin

text \<open>
  Deletion, restoration, retention and legal holds through the service: \<open>file_delete.go\<close>,
  \<open>delete_marker.go\<close>, \<open>file_restore.go\<close>, \<open>object_retention.go\<close>, \<open>chunk_cleanup.go\<close>, and the holds, tags and
  metadata of \<open>file_features.go\<close> and \<open>acl.go\<close>.
\<close>

section \<open>Chunks, versions and facts\<close>

definition IsDeleteMarker :: "Object \<Rightarrow> bool" where
  "IsDeleteMarker obj \<longleftrightarrow> kv_get (o_Metadata obj) ''_aero_delete_marker'' = ''true''"

definition chunk_ref :: "Object \<Rightarrow> ChunkRef" where
  "chunk_ref obj = \<lparr>cref_TenantID = o_TenantID obj, cref_Bucket = o_Bucket obj, cref_Key = o_Key obj, cref_ObjectID = o_ID obj\<rparr>"

definition cleanObjectChunks :: "'s FileService \<Rightarrow> Object \<Rightarrow> ChunkRef \<Rightarrow> ('s, unit) act" where
  "cleanObjectChunks s obj expected v =
     (case fs_chunkCleaner s of
        Absent \<Rightarrow> (v, Inr ())
      | TypedNil \<Rightarrow> (v, Inl (NewError ''scoped chunk cleaner required''))
      | Present cleaner \<Rightarrow>
          (case first_error [ValidateChunkRef (chunk_ref obj),
                fails (chunk_ref obj \<noteq> expected) (invalid_argument ''loaded object does not match expected chunk scope'')] of
             Some e \<Rightarrow> (v, Inl e)
           | None \<Rightarrow> (v\<lparr>va_cleaned := va_cleaned v @ [chunk_ref obj]\<rparr>, ok_or (cleaner (chunk_ref obj)) ())))"

text \<open>The callers log the error and go on.\<close>

definition clean_logged :: "'s FileService \<Rightarrow> Object \<Rightarrow> ChunkRef \<Rightarrow> ('s, unit) act" where
  "clean_logged s obj ref = then_do (attempt (cleanObjectChunks s obj ref)) (\<lambda>_. return ())"

fun cleanHardDeleteChunks :: "'s FileService \<Rightarrow> Object list \<Rightarrow> string \<Rightarrow> string \<Rightarrow> string \<Rightarrow> ('s, unit) act" where
  "cleanHardDeleteChunks s [] tenant bucket key = return ()"
| "cleanHardDeleteChunks s (o' # os) tenant bucket key =
     then_do (if IsDeleteMarker o' then return ()
              else clean_logged s o' \<lparr>cref_TenantID = tenant, cref_Bucket = bucket, cref_Key = key, cref_ObjectID = o_ID o'\<rparr>) (\<lambda>_.
     cleanHardDeleteChunks s os tenant bucket key)"

definition actor_of :: "svc_ctx \<Rightarrow> string" where
  "actor_of ctx = (case PrincipalFrom (cx_access ctx) of (p, ok) \<Rightarrow> if ok then p_SubjectID p else [])"

definition DeletePermissionFrom :: "svc_ctx \<Rightarrow> string" where
  "DeletePermissionFrom ctx = (case cx_permission ctx of None \<Rightarrow> [] | Some p \<Rightarrow> trim_space p)"

definition deleteAuditEntry :: "svc_ctx \<Rightarrow> Object \<Rightarrow> string \<Rightarrow> bool \<Rightarrow> AuditEntry" where
  "deleteAuditEntry ctx obj tenant hard =
     \<lparr>ae_Actor = actor_of ctx, ae_Action = ''file.delete'', ae_Target = o_Bucket obj @ ''/'' @ o_Key obj, ae_TenantID = tenant,
      ae_Detail = (if hard then ''hard'' else ''soft'')
        @ (if DeletePermissionFrom ctx = [] then [] else '';permission='' @ DeletePermissionFrom ctx), ae_CreatedAt = None\<rparr>"

definition deleteFacts :: "'s FileService \<Rightarrow> svc_ctx \<Rightarrow> Object \<Rightarrow> string \<Rightarrow> OutboxFact list" where
  "deleteFacts s ctx obj tenant =
     [\<lparr>of_EventType = EventTypeFileDeleted11, of_OriginID = o_ID obj, of_TenantID = tenant,
       of_Payload = fs_deletedFact s obj (actor_of ctx) (cx_request_id ctx) tenant\<rparr>,
      \<lparr>of_EventType = EventTypeFileNotify11, of_OriginID = o_ID obj, of_TenantID = tenant,
       of_Payload = fs_notifyFact s obj (actor_of ctx) (cx_request_id ctx) tenant\<rparr>]"

definition countedObjectUsage :: "Object list \<Rightarrow> int \<times> int" where
  "countedObjectUsage objects = (let os = filter counted objects in (sum_list (map o_Size os), int (length os)))"

section \<open>Hard and soft deletion (\<open>file_delete.go\<close>)\<close>

fun protect_all :: "svc_env \<Rightarrow> Object list \<Rightarrow> ('s, unit) act" where
  "protect_all env [] = return ()"
| "protect_all env (o' # os) = then_do (checkObjectProtection env o') (\<lambda>_. protect_all env os)"

definition versionsForHardDelete :: "svc_env \<Rightarrow> string \<Rightarrow> string \<Rightarrow> string \<Rightarrow> Object \<Rightarrow> ('s, Object list) act" where
  "versionsForHardDelete env tenant bucket key current =
     then_do (read_objects (\<lambda>db. ListObjectVersions (en_sql env ''versions'') db tenant bucket key)) (\<lambda>listed.
     let versions = (if listed = [] then [current] else listed) in
     then_do (protect_all env versions) (\<lambda>_. return versions))"

text \<open>The loop over the versions; \<open>seen\<close> are the blobs already removed.\<close>

fun delete_blobs :: "'s FileService \<Rightarrow> svc_ctx \<Rightarrow> string list \<Rightarrow> Object list \<Rightarrow> ('s, unit) act" where
  "delete_blobs s ctx seen [] = return ()"
| "delete_blobs s ctx seen (o' # os) =
     (if IsDeleteMarker o' \<or> o_StorageKey o' \<in> set seen then delete_blobs s ctx seen os
      else then_do (wrapping (\<lambda>e. Errorf ''storage delete'' [e])
             (exec_store (st_Delete (fs_store s) (ctx_state.truncate (cx_access ctx)) (o_StorageKey o')))) (\<lambda>_.
        delete_blobs s ctx (o_StorageKey o' # seen) os))"

definition hardDeleteObjectWithVersions ::
  "'s FileService \<Rightarrow> svc_env \<Rightarrow> svc_ctx \<Rightarrow> Object \<Rightarrow> string \<Rightarrow> string \<Rightarrow> string \<Rightarrow> Object list \<Rightarrow> ('s, unit) act" where
  "hardDeleteObjectWithVersions s env ctx obj tenant bucket key versions =
     then_do (cleanHardDeleteChunks s versions tenant bucket key) (\<lambda>_.
     then_do (delete_blobs s ctx [] versions) (\<lambda>_.
     then_do (exec_events (\<lambda>db. HardDeleteObjectWithEvent (fs_version s) (en_sql env ''hard delete'') (en_now env) (en_now env) db tenant bucket key
        (deleteAuditEntry ctx obj tenant True) (deleteFacts s ctx obj tenant))) (\<lambda>_.
     then_do (case countedObjectUsage versions of (bytes, objects) \<Rightarrow>
       wrapping (\<lambda>e. Errorf ''record hard-delete usage'' [e]) (addTenantUsage s env tenant UsageObjectDelete (i64 (- bytes)) (i64 (- objects)))) (\<lambda>_.
     emit ctx obj ''deleted''))))"

definition hardDeleteObject :: "'s FileService \<Rightarrow> svc_env \<Rightarrow> svc_ctx \<Rightarrow> Object \<Rightarrow> string \<Rightarrow> string \<Rightarrow> string \<Rightarrow> ('s, unit) act" where
  "hardDeleteObject s env ctx obj tenant bucket key =
     then_do (versionsForHardDelete env tenant bucket key obj) (hardDeleteObjectWithVersions s env ctx obj tenant bucket key)"

definition softDeleteObject :: "'s FileService \<Rightarrow> svc_env \<Rightarrow> svc_ctx \<Rightarrow> Object \<Rightarrow> string \<Rightarrow> string \<Rightarrow> string \<Rightarrow> ('s, unit) act" where
  "softDeleteObject s env ctx obj tenant bucket key =
     then_do (if IsDeleteMarker obj then return ()
              else clean_logged s obj \<lparr>cref_TenantID = tenant, cref_Bucket = bucket, cref_Key = key, cref_ObjectID = o_ID obj\<rparr>) (\<lambda>_.
     then_do (exec_events (\<lambda>db. SoftDeleteObjectWithEvent (fs_version s) (en_sql env ''soft delete'') (en_now env) (en_now env) (en_now env) db tenant bucket key
        (deleteAuditEntry ctx obj tenant False) (deleteFacts s ctx obj tenant))) (\<lambda>_.
     then_do (wrapping (\<lambda>e. Errorf ''record soft-delete usage'' [e]) (addTenantUsage s env tenant UsageObjectDelete (i64 (- o_Size obj)) (- 1))) (\<lambda>_.
     emit ctx obj ''deleted'')))"

definition DeleteWithAction ::
  "'s FileService \<Rightarrow> svc_env \<Rightarrow> svc_ctx \<Rightarrow> string \<Rightarrow> string \<Rightarrow> string \<Rightarrow> bool \<Rightarrow> string \<Rightarrow> ('s, unit) act" where
  "DeleteWithAction s env ctx tenant0 bucket0 key hard action =
     (case checkedObjectDefaults tenant0 bucket0 key of
        Inl e \<Rightarrow> fail e
      | Inr (tenant, bucket) \<Rightarrow>
          then_do (wrapping service_not_found (get_object_at env ''object'' tenant bucket key)) (\<lambda>obj.
          then_do (authorizeObject s env ctx action obj) (\<lambda>_.
          then_do (preflightQuota s env ''quota'' tenant 0 0) (\<lambda>_.
          if hard then hardDeleteObject s env ctx obj tenant bucket key else softDeleteObject s env ctx obj tenant bucket key))))"

definition svc_Delete :: "'s FileService \<Rightarrow> svc_env \<Rightarrow> svc_ctx \<Rightarrow> string \<Rightarrow> string \<Rightarrow> string \<Rightarrow> bool \<Rightarrow> ('s, unit) act" where
  "svc_Delete s env ctx tenant bucket key hard = DeleteWithAction s env ctx tenant bucket key hard ActionDelete"

definition AuthorizeDelete :: "'s FileService \<Rightarrow> svc_env \<Rightarrow> svc_ctx \<Rightarrow> string \<Rightarrow> string \<Rightarrow> string \<Rightarrow> bool \<Rightarrow> ('s, unit) act" where
  "AuthorizeDelete s env ctx tenant0 bucket0 key hard =
     (case checkedObjectDefaults tenant0 bucket0 key of
        Inl e \<Rightarrow> fail e
      | Inr (tenant, bucket) \<Rightarrow>
          then_do (wrapping service_not_found (get_object_at env ''object'' tenant bucket key)) (\<lambda>obj.
          authorizeObject s env ctx (if hard then ActionAdminDelete else ActionDelete) obj))"

section \<open>Versions\<close>

definition objectVersion :: "svc_env \<Rightarrow> string \<Rightarrow> string \<Rightarrow> string \<Rightarrow> string \<Rightarrow> ('s, Object) act" where
  "objectVersion env tenant0 bucket0 key versionID =
     (case checkedObjectDefaults tenant0 bucket0 key of
        Inl e \<Rightarrow> fail e
      | Inr (tenant, bucket) \<Rightarrow>
          wrapping service_not_found
            (if versionID = [] then get_object_at env ''object'' tenant bucket key
             else read_objects (\<lambda>db. GetObjectVersion (en_sql env ''version'') db tenant bucket key versionID)))"

definition deleteVersionData :: "'s FileService \<Rightarrow> svc_env \<Rightarrow> svc_ctx \<Rightarrow> Object \<Rightarrow> ChunkRef \<Rightarrow> ('s, unit) act" where
  "deleteVersionData s env ctx obj ref =
     then_do (if IsDeleteMarker obj then return ()
              else then_do (clean_logged s obj ref) (\<lambda>_.
                wrapping (\<lambda>e. Errorf ''storage delete'' [e])
                  (exec_store (st_Delete (fs_store s) (ctx_state.truncate (cx_access ctx)) (o_StorageKey obj))))) (\<lambda>_.
     exec_objects (\<lambda>db. DeleteObjectVersion (en_sql env ''delete version'') db (o_TenantID obj) (o_Bucket obj) (o_Key obj) (o_VersionID obj)))"

definition finishVersionDelete :: "'s FileService \<Rightarrow> svc_env \<Rightarrow> svc_ctx \<Rightarrow> Object \<Rightarrow> bool \<Rightarrow> ('s, unit) act" where
  "finishVersionDelete s env ctx obj wasCurrent =
     then_do (case countedObjectUsage [obj] of (bytes, objects) \<Rightarrow>
       wrapping (\<lambda>e. Errorf ''record version-delete usage'' [e]) (addTenantUsage s env (o_TenantID obj) UsageObjectDelete (i64 (- bytes)) (i64 (- objects)))) (\<lambda>_.
     then_do (emit ctx obj ''deleted'') (\<lambda>_.
     if \<not> wasCurrent then return ()
     else then_do (attempt (get_object_at env ''promoted'' (o_TenantID obj) (o_Bucket obj) (o_Key obj))) (\<lambda>r.
       case r of Inl _ \<Rightarrow> return () | Inr promoted \<Rightarrow> emit ctx promoted ''created'')))"

definition DeleteVersion :: "'s FileService \<Rightarrow> svc_env \<Rightarrow> svc_ctx \<Rightarrow> string \<Rightarrow> string \<Rightarrow> string \<Rightarrow> string \<Rightarrow> ('s, unit) act" where
  "DeleteVersion s env ctx tenant0 bucket0 key versionID =
     (case defaults tenant0 bucket0 of (tenant, bucket) \<Rightarrow>
      then_do (objectVersion env tenant bucket key versionID) (\<lambda>obj.
      then_do (authorizeObject s env ctx ActionDelete obj) (\<lambda>_.
      then_do (checkObjectProtection env obj) (\<lambda>_.
      then_do (preflightQuota s env ''quota'' (o_TenantID obj) 0 0) (\<lambda>_.
      then_do (read_objects (\<lambda>db. ListObjectVersions (en_sql env ''versions'') db (o_TenantID obj) (o_Bucket obj) (o_Key obj))) (\<lambda>versions.
      then_do (deleteVersionData s env ctx obj
         \<lparr>cref_TenantID = tenant, cref_Bucket = bucket, cref_Key = key, cref_ObjectID = o_ID obj\<rparr>) (\<lambda>_.
      finishVersionDelete s env ctx obj (case versions of [] \<Rightarrow> False | v # _ \<Rightarrow> o_ID v = o_ID obj))))))))"

section \<open>Delete markers (\<open>delete_marker.go\<close>)\<close>

definition marker_object :: "string \<Rightarrow> string \<Rightarrow> string \<Rightarrow> kv \<Rightarrow> Object" where
  "marker_object tenant bucket key m =
     \<lparr>o_ID = 0, o_TenantID = tenant, o_Bucket = bucket, o_Key = key, o_VersionID = [], o_Backend = [], o_StorageKey = [], o_Size = 0,
      o_ETag = [], o_ContentType = [], o_Metadata = m, o_Tags = [], o_StorageClass = [], o_CreatedAt = 0, o_UpdatedAt = 0,
      o_DeletedAt = None, o_LockedUntil = None, o_VersionTombstone = False\<rparr>"

definition insertDeleteMarker ::
  "'s FileService \<Rightarrow> svc_env \<Rightarrow> svc_ctx \<Rightarrow> string \<Rightarrow> string \<Rightarrow> string \<Rightarrow> Object option \<Rightarrow> ('s, Object) act" where
  "insertDeleteMarker s env ctx tenant bucket key current =
     (let m0 = [(''_aero_delete_marker'', ''true'')];
          m = (case current of None \<Rightarrow> m0 | Some o' \<Rightarrow> metadataWithOwner m0 (ObjectOwner o')) in
      then_do (write_objects (\<lambda>db. InsertDeleteMarker (en_sql env ''marker'') (en_clk env) (en_vid env) db (marker_object tenant bucket key m))) (\<lambda>marker.
      then_do (case current of None \<Rightarrow> return ()
               | Some o' \<Rightarrow> clean_logged s o' \<lparr>cref_TenantID = tenant, cref_Bucket = bucket, cref_Key = key, cref_ObjectID = o_ID o'\<rparr>) (\<lambda>_.
      then_do (emit ctx marker ''deleted'') (\<lambda>_. return marker))))"

definition CreateDeleteMarker :: "'s FileService \<Rightarrow> svc_env \<Rightarrow> svc_ctx \<Rightarrow> string \<Rightarrow> string \<Rightarrow> string \<Rightarrow> ('s, Object) act" where
  "CreateDeleteMarker s env ctx tenant0 bucket0 key =
     (case defaults tenant0 bucket0 of (tenant, bucket) \<Rightarrow>
      then_do (check (validateKey key)) (\<lambda>_.
      then_do (\<lambda>v. (v, GetBucketConfig (en_sql env ''config'') (va_buckets v) tenant bucket)) (\<lambda>cfg.
      if \<not> bc_Versioning cfg then fail (Sentinel ErrInvalidArgs)
      else then_do (attempt (get_object_at env ''object'' tenant bucket key)) (\<lambda>r.
        case r of
          Inl e \<Rightarrow>
            if \<not> errors_is e ErrNotFound then fail e
            else then_do (authorizePath s env ctx ActionDelete tenant bucket key) (\<lambda>_. insertDeleteMarker s env ctx tenant bucket key None)
        | Inr current \<Rightarrow>
            then_do (authorizeObject s env ctx ActionDelete current) (\<lambda>_. insertDeleteMarker s env ctx tenant bucket key (Some current))))))"

section \<open>Restoration (\<open>file_restore.go\<close>)\<close>

definition restorableObject :: "svc_env \<Rightarrow> string \<Rightarrow> string \<Rightarrow> string \<Rightarrow> ('s, Object) act" where
  "restorableObject env tenant bucket key =
     then_do (read_objects (\<lambda>db. ListObjectVersions (en_sql env ''versions'') db tenant bucket key)) (\<lambda>versions.
     case filter (\<lambda>o'. o_DeletedAt o' \<noteq> None \<and> \<not> o_VersionTombstone o') versions of
       [] \<Rightarrow> fail (Sentinel ServiceNotFound)
     | o' # _ \<Rightarrow> return o')"

definition svc_RestoreObject :: "'s FileService \<Rightarrow> svc_env \<Rightarrow> svc_ctx \<Rightarrow> string \<Rightarrow> string \<Rightarrow> string \<Rightarrow> ('s, unit) act" where
  "svc_RestoreObject s env ctx tenant0 bucket0 key =
     (case checkedObjectDefaults tenant0 bucket0 key of
        Inl e \<Rightarrow> fail e
      | Inr (tenant, bucket) \<Rightarrow>
          then_do (attempt (get_object_at env ''object'' tenant bucket key)) (\<lambda>r.
          case r of
            Inr _ \<Rightarrow> fail (Sentinel ErrPreconditionFailed)
          | Inl e \<Rightarrow>
              if \<not> errors_is e ErrNotFound then fail e
              else then_do (restorableObject env tenant bucket key) (\<lambda>obj.
                then_do (authorizeObject s env ctx ActionRestore obj) (\<lambda>_.
                then_do (wrapping (\<lambda>e. if errors_is e StorageNotFound then Sentinel ServiceNotFound else e)
                   (exec_store (st_Stat (fs_store s) (ctx_state.truncate (cx_access ctx)) (o_StorageKey obj)))) (\<lambda>_.
                then_do (preflightQuota s env ''quota'' tenant (o_Size obj) 1) (\<lambda>_.
                then_do (preflightBucketQuota env tenant bucket (o_Size obj) 1) (\<lambda>_.
                then_do (wrapping service_not_found (exec_objects (\<lambda>db. RestoreObject (en_sql env ''restore'') db tenant bucket key))) (\<lambda>_.
                then_do (addTenantUsage s env tenant UsageObjectRestore (o_Size obj) 1) (\<lambda>_.
                emit ctx (obj\<lparr>o_DeletedAt := None\<rparr>) ''created'')))))))))"

section \<open>Retention (\<open>object_retention.go\<close>)\<close>

text \<open>
  \<open>strings.ToUpper\<close> as far as it decides the comparison with the two modes: beside the ASCII letters,
  dotless i and long s have an ASCII upper case.
\<close>

definition upper_rune :: "string \<Rightarrow> string" where
  "upper_rune r =
     (if map byte r = [0xC4, 0xB1] then ''I'' else if map byte r = [0xC5, 0xBF] then ''S''
      else map (\<lambda>c. if 97 \<le> byte c \<and> byte c \<le> 122 then char_of (byte c - 32) else c) r)"

definition to_upper :: "string \<Rightarrow> string" where
  "to_upper s = concat (map (\<lambda>r. upper_rune (snd r)) (runes s))"

definition GetObjectRetention :: "'s FileService \<Rightarrow> svc_env \<Rightarrow> svc_ctx \<Rightarrow> string \<Rightarrow> string \<Rightarrow> string \<Rightarrow> string \<Rightarrow> ('s, Object) act" where
  "GetObjectRetention s env ctx tenant bucket key versionID =
     then_do (objectVersion env tenant bucket key versionID) (\<lambda>obj.
     then_do (authorizeObject s env ctx ActionRead obj) (\<lambda>_. return obj))"

definition svc_SetObjectRetention ::
  "'s FileService \<Rightarrow> svc_env \<Rightarrow> svc_ctx \<Rightarrow> string \<Rightarrow> string \<Rightarrow> string \<Rightarrow> string \<Rightarrow> string \<Rightarrow> instant \<Rightarrow> ('s, Object) act" where
  "svc_SetObjectRetention s env ctx tenant bucket key versionID mode0 until =
     (let mode = to_upper (trim_space mode0) in
      then_do (check (first_error
        [fails (mode \<noteq> ''GOVERNANCE'' \<and> mode \<noteq> ''COMPLIANCE'') (invalid_args ''invalid retention mode''),
         fails (\<not> until > en_now env) (invalid_args ''retention date must be in the future'')])) (\<lambda>_.
      then_do (objectVersion env tenant bucket key versionID) (\<lambda>obj.
      then_do (authorizeObject s env ctx ActionWrite obj) (\<lambda>_.
      then_do (check (fails (case o_LockedUntil obj of None \<Rightarrow> False | Some t \<Rightarrow> t > until) locked_error)) (\<lambda>_.
      let m = AList.update ''_aero_object_lock_mode'' mode (o_Metadata obj) in
      then_do (wrapping service_not_found (exec_objects (\<lambda>db. SetObjectRetention (en_sql env ''retention'') db (o_ID obj) until m))) (\<lambda>_.
      return (obj\<lparr>o_LockedUntil := Some until, o_Metadata := m\<rparr>)))))))"

definition ObjectRetentionMode :: "Object \<Rightarrow> string" where
  "ObjectRetentionMode obj =
     (let mode = kv_get (o_Metadata obj) ''_aero_object_lock_mode'' in if mode = [] then ''GOVERNANCE'' else mode)"

definition LockObject :: "'s FileService \<Rightarrow> svc_env \<Rightarrow> svc_ctx \<Rightarrow> string \<Rightarrow> string \<Rightarrow> string \<Rightarrow> instant \<Rightarrow> ('s, unit) act" where
  "LockObject s env ctx tenant bucket key until =
     then_do (svc_SetObjectRetention s env ctx tenant bucket key [] ''GOVERNANCE'' until) (\<lambda>_. return ())"

section \<open>Legal holds, tags, metadata, ACL (\<open>file_features.go\<close>, \<open>acl.go\<close>)\<close>

definition svc_PutLegalHold ::
  "'s FileService \<Rightarrow> svc_env \<Rightarrow> svc_ctx \<Rightarrow> string \<Rightarrow> string \<Rightarrow> string \<Rightarrow> string \<Rightarrow> string \<Rightarrow> string \<Rightarrow> ('s, unit) act" where
  "svc_PutLegalHold s env ctx tenant bucket key versionID reason createdBy =
     then_do (objectVersion env tenant bucket key versionID) (\<lambda>obj.
     then_do (authorizeObject s env ctx ActionWrite obj) (\<lambda>_.
     exec_objects (\<lambda>db. PutLegalHold (en_sql env ''hold'') (db_now (en_clk env)) db
       \<lparr>lh_ObjectID = o_ID obj, lh_VersionID = o_VersionID obj, lh_TenantID = o_TenantID obj, lh_HoldReason = reason, lh_CreatedAt = 0,
        lh_CreatedBy = createdBy\<rparr>)))"

definition svc_GetLegalHold :: "'s FileService \<Rightarrow> svc_env \<Rightarrow> svc_ctx \<Rightarrow> string \<Rightarrow> string \<Rightarrow> string \<Rightarrow> string \<Rightarrow> ('s, LegalHold) act" where
  "svc_GetLegalHold s env ctx tenant bucket key versionID =
     then_do (objectVersion env tenant bucket key versionID) (\<lambda>obj.
     then_do (authorizeObject s env ctx ActionRead obj) (\<lambda>_.
     read_objects (\<lambda>db. GetLegalHold (en_sql env ''hold'') db (o_ID obj) (o_VersionID obj))))"

definition svc_RemoveLegalHold :: "'s FileService \<Rightarrow> svc_env \<Rightarrow> svc_ctx \<Rightarrow> string \<Rightarrow> string \<Rightarrow> string \<Rightarrow> string \<Rightarrow> ('s, unit) act" where
  "svc_RemoveLegalHold s env ctx tenant bucket key versionID =
     then_do (objectVersion env tenant bucket key versionID) (\<lambda>obj.
     then_do (authorizeObject s env ctx ActionWrite obj) (\<lambda>_.
     exec_objects (\<lambda>db. RemoveLegalHold (en_sql env ''hold'') db (o_ID obj) (o_VersionID obj))))"

definition svc_ListLegalHolds :: "'s FileService \<Rightarrow> svc_env \<Rightarrow> svc_ctx \<Rightarrow> string \<Rightarrow> string \<Rightarrow> string \<Rightarrow> ('s, LegalHold list) act" where
  "svc_ListLegalHolds s env ctx tenant bucket key =
     then_do (objectVersion env tenant bucket key []) (\<lambda>obj.
     then_do (authorizeObject s env ctx ActionRead obj) (\<lambda>_.
     read_objects (\<lambda>db. ListLegalHolds (en_sql env ''hold'') db (o_ID obj))))"

definition SetTags :: "'s FileService \<Rightarrow> svc_env \<Rightarrow> svc_ctx \<Rightarrow> string \<Rightarrow> string \<Rightarrow> string \<Rightarrow> kv \<Rightarrow> ('s, unit) act" where
  "SetTags s env ctx tenant bucket key tags =
     then_do (objectForAction s env ctx tenant bucket key ActionWrite) (\<lambda>obj.
     exec_objects (\<lambda>db. UpdateTags (en_sql env ''tags'') (en_clk env) db (o_TenantID obj) (o_Bucket obj) (o_Key obj) tags))"

definition systemMetadata :: "kv \<Rightarrow> kv" where
  "systemMetadata m = filter (\<lambda>(k, v). reserved_key k) m"

definition userMetadata :: "kv \<Rightarrow> kv" where
  "userMetadata m = filter (\<lambda>(k, v). \<not> reserved_key k) m"

definition PutMetadata :: "'s FileService \<Rightarrow> svc_env \<Rightarrow> svc_ctx \<Rightarrow> string \<Rightarrow> string \<Rightarrow> string \<Rightarrow> kv \<Rightarrow> ('s, unit) act" where
  "PutMetadata s env ctx tenant0 bucket0 key m =
     (case defaults tenant0 bucket0 of (tenant, bucket) \<Rightarrow>
      then_do (check (first_error [validateKey key, validateMetadata m])) (\<lambda>_.
      then_do (objectForAction s env ctx tenant bucket key ActionWrite) (\<lambda>obj.
      exec_objects (\<lambda>db. ReplaceObjectMetadata (en_sql env ''metadata'') db tenant bucket key (put_entries (systemMetadata (o_Metadata obj)) m)))))"

definition PatchMetadata :: "'s FileService \<Rightarrow> svc_env \<Rightarrow> svc_ctx \<Rightarrow> string \<Rightarrow> string \<Rightarrow> string \<Rightarrow> kv \<Rightarrow> ('s, unit) act" where
  "PatchMetadata s env ctx tenant0 bucket0 key m =
     (case defaults tenant0 bucket0 of (tenant, bucket) \<Rightarrow>
      then_do (check (first_error [validateKey key, validateMetadata m])) (\<lambda>_.
      then_do (objectForAction s env ctx tenant bucket key ActionWrite) (\<lambda>_.
      exec_objects (\<lambda>db. SetObjectMetaKeys (en_sql env ''metadata'') db tenant bucket key m))))"

definition DeleteMetadata :: "'s FileService \<Rightarrow> svc_env \<Rightarrow> svc_ctx \<Rightarrow> string \<Rightarrow> string \<Rightarrow> string \<Rightarrow> ('s, unit) act" where
  "DeleteMetadata s env ctx tenant0 bucket0 key =
     (case defaults tenant0 bucket0 of (tenant, bucket) \<Rightarrow>
      then_do (check (validateKey key)) (\<lambda>_.
      then_do (objectForAction s env ctx tenant bucket key ActionWrite) (\<lambda>obj.
      exec_objects (\<lambda>db. ReplaceObjectMetadata (en_sql env ''metadata'') db tenant bucket key (systemMetadata (o_Metadata obj))))))"

definition svc_SetObjectACL :: "'s FileService \<Rightarrow> svc_env \<Rightarrow> svc_ctx \<Rightarrow> string \<Rightarrow> string \<Rightarrow> string \<Rightarrow> string \<Rightarrow> ('s, unit) act" where
  "svc_SetObjectACL s env ctx tenant0 bucket0 key acl =
     (case checkedObjectDefaults tenant0 bucket0 key of
        Inl e \<Rightarrow> fail e
      | Inr (tenant, bucket) \<Rightarrow>
          then_do (check (first_error [ValidateACL acl, fails (acl = []) (invalid_args ''empty canned ACL'')])) (\<lambda>_.
          then_do (objectForAction s env ctx tenant bucket key ActionManageACL) (\<lambda>_.
          exec_objects (\<lambda>db. SetObjectACL (en_sql env ''acl'') db tenant bucket key acl))))"

definition svc_GetObjectACL :: "'s FileService \<Rightarrow> svc_env \<Rightarrow> svc_ctx \<Rightarrow> string \<Rightarrow> string \<Rightarrow> string \<Rightarrow> ('s, string) act" where
  "svc_GetObjectACL s env ctx tenant0 bucket0 key =
     (case checkedObjectDefaults tenant0 bucket0 key of
        Inl e \<Rightarrow> fail e
      | Inr (tenant, bucket) \<Rightarrow>
          then_do (objectForAction s env ctx tenant bucket key ActionManageACL) (\<lambda>_.
          wrapping service_not_found (read_objects (\<lambda>db. GetObjectACL (en_sql env ''acl'') db tenant bucket key))))"

definition svc_SetBucketACL :: "'s FileService \<Rightarrow> svc_env \<Rightarrow> svc_ctx \<Rightarrow> string \<Rightarrow> string \<Rightarrow> string \<Rightarrow> ('s, unit) act" where
  "svc_SetBucketACL s env ctx tenant0 bucket0 acl =
     (case defaults tenant0 bucket0 of (tenant, bucket) \<Rightarrow>
      then_do (check (first_error [ValidateACL acl, fails (acl = []) (invalid_args ''empty canned ACL'')])) (\<lambda>_.
      then_do (authorizeBucket s env ctx ActionManageACL tenant bucket) (\<lambda>_.
      exec_buckets (\<lambda>db. SetBucketACL (en_sql env ''bucket'') db tenant bucket acl))))"

definition svc_SetBucketVersioning :: "'s FileService \<Rightarrow> svc_env \<Rightarrow> svc_ctx \<Rightarrow> string \<Rightarrow> string \<Rightarrow> bool \<Rightarrow> ('s, unit) act" where
  "svc_SetBucketVersioning s env ctx tenant0 bucket0 enabled =
     (case defaults tenant0 bucket0 of (tenant, bucket) \<Rightarrow>
      then_do (authorizeBucket s env ctx ActionManageACL tenant bucket) (\<lambda>_.
      exec_buckets (\<lambda>db. SetBucketVersioning (en_sql env ''bucket'') db tenant bucket enabled)))"

definition svc_SetBucketObjectLock :: "'s FileService \<Rightarrow> svc_env \<Rightarrow> svc_ctx \<Rightarrow> string \<Rightarrow> string \<Rightarrow> int \<Rightarrow> ('s, unit) act" where
  "svc_SetBucketObjectLock s env ctx tenant0 bucket0 seconds =
     (case defaults tenant0 bucket0 of (tenant, bucket) \<Rightarrow>
      then_do (authorizeBucket s env ctx ActionManageACL tenant bucket) (\<lambda>_.
      exec_buckets (\<lambda>db. SetBucketObjectLock (en_sql env ''bucket'') db tenant bucket seconds)))"

definition svc_SetBucketLifecycle :: "'s FileService \<Rightarrow> svc_env \<Rightarrow> svc_ctx \<Rightarrow> string \<Rightarrow> string \<Rightarrow> int \<Rightarrow> string \<Rightarrow> ('s, unit) act" where
  "svc_SetBucketLifecycle s env ctx tenant0 bucket0 days action =
     (case defaults tenant0 bucket0 of (tenant, bucket) \<Rightarrow>
      then_do (authorizeBucket s env ctx ActionManageACL tenant bucket) (\<lambda>_.
      then_do (check (fails (days < 0) (invalid_args ''days must be >= 0''))) (\<lambda>_.
      exec_buckets (\<lambda>db. SetBucketLifecycle (en_sql env ''bucket'') db tenant bucket days action))))"

definition ObjectPublicReadableWithError :: "'s FileService \<Rightarrow> svc_env \<Rightarrow> svc_ctx \<Rightarrow> string \<Rightarrow> string \<Rightarrow> string \<Rightarrow> ('s, bool) act" where
  "ObjectPublicReadableWithError s env ctx tenant0 bucket0 key =
     (case checkedObjectDefaults tenant0 bucket0 key of
        Inl e \<Rightarrow> fail e
      | Inr (tenant, bucket) \<Rightarrow>
          then_do (check (admitBucket s ctx tenant bucket)) (\<lambda>_.
          then_do (requireActiveTenant s env ctx tenant) (\<lambda>_.
          then_do (attempt (read_objects (\<lambda>db. GetObjectACL (en_sql env ''acl'') db tenant bucket key))) (\<lambda>r.
          case r of
            Inr acl \<Rightarrow>
              if acl = ''public-read'' \<or> acl = ''public-read-write'' then return True
              else then_do (\<lambda>v. (v, GetBucketConfig (en_sql env ''config'') (va_buckets v) tenant bucket)) (\<lambda>cfg.
                return (bc_ACL cfg = ''public-read'' \<or> bc_ACL cfg = ''public-read-write''))
          | Inl e \<Rightarrow>
              if \<not> repositoryObjectMissing e then fail e
              else then_do (\<lambda>v. (v, GetBucketConfig (en_sql env ''config'') (va_buckets v) tenant bucket)) (\<lambda>cfg.
                return (bc_ACL cfg = ''public-read'' \<or> bc_ACL cfg = ''public-read-write''))))))"

end
