(* ===== verification/File_Reads.thy ===== *)
theory File_Reads
  imports File_Deletes
begin

text \<open>
  Reading through the service: \<open>file_get.go\<close>, the customer-key checks of \<open>ssec.go\<close>, the versions and the
  batch operations of \<open>file_features.go\<close>.  A reader yields all bytes or the error that reading it to the
  end meets, so the verifier of the content hash is a function of readers.
\<close>

section \<open>Verification of content\<close>

definition normalizeMD5Hex :: "string \<Rightarrow> string option" where
  "normalizeMD5Hex s =
     (let x = trim_chars (trim_prefix (trim_space s) ''W/'') [char_of (0x22 :: nat)] in
      if length x \<noteq> 32 then None
      else (case hex_decode x of Inl _ \<Rightarrow> None | Inr _ \<Rightarrow> Some (map ascii_lower x)))"

definition objectVerificationMD5 :: "Object \<Rightarrow> string option" where
  "objectVerificationMD5 obj =
     (let encoded = kv_get (o_Metadata obj) ''_aero_content_md5'' in
      if encoded = [] then normalizeMD5Hex (o_ETag obj)
      else (case b64_decode encoded of
              Inr digest \<Rightarrow>
                if length digest = 16 then Some (hex_encode digest)
                else (case normalizeMD5Hex encoded of Some d \<Rightarrow> Some d | None \<Rightarrow> normalizeMD5Hex (o_ETag obj))
            | Inl _ \<Rightarrow> (case normalizeMD5Hex encoded of Some d \<Rightarrow> Some d | None \<Rightarrow> normalizeMD5Hex (o_ETag obj))))"

definition wrapReadVerification :: "'s FileService \<Rightarrow> bool \<Rightarrow> Object \<Rightarrow> reader \<Rightarrow> reader" where
  "wrapReadVerification s enabled obj rc =
     (case objectVerificationMD5 obj of
        Some expected \<Rightarrow>
          if \<not> enabled then rc
          else (case rc of
                  Some (Inr body) \<Rightarrow>
                    if map ascii_lower (hex_encode (fs_md5 s body)) = map ascii_lower expected then rc
                    else Some (Inl (Errorf ''content hash'' [Sentinel ErrObjectCorrupt]))
                | _ \<Rightarrow> rc)
      | None \<Rightarrow> rc)"

section \<open>Customer keys\<close>

record ReadOptions =
  ro_SSECustomerKey :: string
  ro_SSECustomerKeyMD5 :: string

definition validateSSECRead :: "'s FileService \<Rightarrow> kv \<Rightarrow> ReadOptions \<Rightarrow> gerr option" where
  "validateSSECRead s m opts =
     (let storedMD5 = kv_get m ssecKeyMD5Meta in
      if storedMD5 = [] then
        fails (ro_SSECustomerKey opts \<noteq> [] \<or> ro_SSECustomerKeyMD5 opts \<noteq> []) (invalid_args ''object is not encrypted with SSE-C'')
      else (let h = fs_md5 s (ro_SSECustomerKey opts) in first_error
        [fails (length (ro_SSECustomerKey opts) \<noteq> 32) (invalid_args ''SSE-C key is required''),
         fails (ro_SSECustomerKeyMD5 opts \<noteq> [] \<and> ro_SSECustomerKeyMD5 opts \<noteq> h) (Errorf ''SSE-C key MD5 mismatch'' [Sentinel ErrBadDigest]),
         fails (b64_encode h \<noteq> storedMD5) (Errorf ''SSE-C key does not match object'' [Sentinel ErrBadDigest])]))"

definition objectUsesSSEC :: "kv \<Rightarrow> bool" where
  "objectUsesSSEC m \<longleftrightarrow> kv_get m ssecAlgorithmMeta = ''AES256'' \<and> kv_get m ssecKeyMD5Meta \<noteq> []"

definition storageGetOptions :: "ReadOptions \<Rightarrow> GetOptions" where
  "storageGetOptions opts = \<lparr>go_SSECustomerKey = ro_SSECustomerKey opts, go_SSECustomerKeyMD5 = ro_SSECustomerKeyMD5 opts\<rparr>"

section \<open>Get and Stat (\<open>file_get.go\<close>)\<close>

definition openStorageWithOptions :: "'s FileService \<Rightarrow> svc_ctx \<Rightarrow> Object \<Rightarrow> ReadOptions \<Rightarrow> ('s, reader \<times> ObjectInfo) act" where
  "openStorageWithOptions s ctx obj opts =
     (let c = ctx_state.truncate (cx_access ctx) in
      wrapping (\<lambda>e. if errors_is e StorageNotFound then Sentinel ServiceNotFound else e)
        (if objectUsesSSEC (o_Metadata obj) then
           (case st_ssec (fs_store s) of
              Some secure \<Rightarrow>
                if ss_SupportsSSEC secure then exec_store (ss_GetWithOptions secure c (o_StorageKey obj) (storageGetOptions opts))
                else fail (invalid_args ''storage backend does not support SSE-C'')
            | None \<Rightarrow> fail (invalid_args ''storage backend does not support SSE-C''))
         else exec_store (st_Get (fs_store s) c (o_StorageKey obj))))"

definition openObjectWithOptions :: "'s FileService \<Rightarrow> bool \<Rightarrow> svc_ctx \<Rightarrow> Object \<Rightarrow> ReadOptions \<Rightarrow> ('s, reader) act" where
  "openObjectWithOptions s verify ctx obj opts =
     then_do (openStorageWithOptions s ctx obj opts) (\<lambda>(rc, _).
     then_do (emit ctx obj ''accessed'') (\<lambda>_. return (wrapReadVerification s verify obj rc)))"

definition svc_statObject :: "'s FileService \<Rightarrow> svc_env \<Rightarrow> svc_ctx \<Rightarrow> string \<Rightarrow> string \<Rightarrow> string \<Rightarrow> ReadOptions option \<Rightarrow> ('s, Object) act" where
  "svc_statObject s env ctx tenant0 bucket0 key opts =
     (case checkedObjectDefaults tenant0 bucket0 key of
        Inl e \<Rightarrow> fail e
      | Inr (tenant, bucket) \<Rightarrow>
          then_do (wrapping service_not_found (get_object_at env ''object'' tenant bucket key)) (\<lambda>obj.
          then_do (check (checkCorrupt obj)) (\<lambda>_.
          then_do (authorizeObject s env ctx ActionRead obj) (\<lambda>_.
          then_do (check (case opts of None \<Rightarrow> None | Some o' \<Rightarrow> validateSSECRead s (o_Metadata obj) o')) (\<lambda>_.
          return obj)))))"

definition svc_GetWithOptions :: "'s FileService \<Rightarrow> bool \<Rightarrow> svc_env \<Rightarrow> svc_ctx \<Rightarrow> string \<Rightarrow> string \<Rightarrow> string \<Rightarrow> ReadOptions \<Rightarrow> ('s, reader \<times> Object) act" where
  "svc_GetWithOptions s verify env ctx tenant bucket key opts =
     then_do (svc_statObject s env ctx tenant bucket key (Some opts)) (\<lambda>obj.
     then_do (openObjectWithOptions s verify ctx obj opts) (\<lambda>rc. return (rc, obj)))"

section \<open>Versions and batches (\<open>file_features.go\<close>)\<close>

definition StatVersionWithOptions ::
  "'s FileService \<Rightarrow> svc_env \<Rightarrow> svc_ctx \<Rightarrow> string \<Rightarrow> string \<Rightarrow> string \<Rightarrow> string \<Rightarrow> ReadOptions \<Rightarrow> ('s, Object) act" where
  "StatVersionWithOptions s env ctx tenant bucket key versionID opts =
     then_do (objectVersion env tenant bucket key versionID) (\<lambda>obj.
     then_do (check (first_error [checkCorrupt obj, fails (IsDeleteMarker obj) (Sentinel ServiceNotFound)])) (\<lambda>_.
     then_do (authorizeObject s env ctx ActionRead obj) (\<lambda>_.
     then_do (check (validateSSECRead s (o_Metadata obj) opts)) (\<lambda>_. return obj))))"

definition GetVersionWithOptions ::
  "'s FileService \<Rightarrow> bool \<Rightarrow> svc_env \<Rightarrow> svc_ctx \<Rightarrow> string \<Rightarrow> string \<Rightarrow> string \<Rightarrow> string \<Rightarrow> ReadOptions \<Rightarrow> ('s, reader \<times> Object) act" where
  "GetVersionWithOptions s verify env ctx tenant bucket key versionID opts =
     then_do (StatVersionWithOptions s env ctx tenant bucket key versionID opts) (\<lambda>obj.
     then_do (openObjectWithOptions s verify ctx obj opts) (\<lambda>rc. return (rc, obj)))"

definition ordinaryAccessDenial :: "gerr \<Rightarrow> bool" where
  "ordinaryAccessDenial e \<longleftrightarrow>
     \<not> IsResourceBoundaryFault (Some e) \<and> \<not> errors_is e SpacesTenantUnavailable \<and> \<not> errors_is e ErrTenantDisabled
     \<and> (errors_is e ErrForbidden \<or> IsResourceBoundaryDenied (Some e))"

fun filterAuthorizedVersions :: "'s FileService \<Rightarrow> svc_env \<Rightarrow> svc_ctx \<Rightarrow> Object list \<Rightarrow> ('s, Object list) act" where
  "filterAuthorizedVersions s env ctx [] = return []"
| "filterAuthorizedVersions s env ctx (o' # os) =
     then_do (attempt (authorizeObject s env ctx ActionRead o')) (\<lambda>r.
     case r of
       Inl e \<Rightarrow> if ordinaryAccessDenial e then filterAuthorizedVersions s env ctx os else fail e
     | Inr _ \<Rightarrow> then_do (filterAuthorizedVersions s env ctx os) (\<lambda>rest. return (o' # rest)))"

definition ListVersions :: "'s FileService \<Rightarrow> svc_env \<Rightarrow> svc_ctx \<Rightarrow> string \<Rightarrow> string \<Rightarrow> string \<Rightarrow> ('s, Object list) act" where
  "ListVersions s env ctx tenant0 bucket0 key =
     (case checkedObjectDefaults tenant0 bucket0 key of
        Inl e \<Rightarrow> fail e
      | Inr (tenant, bucket) \<Rightarrow>
          then_do (check (admitBucket s ctx tenant bucket)) (\<lambda>_.
          then_do (requireActiveTenant s env ctx tenant) (\<lambda>_.
          then_do (read_objects (\<lambda>db. ListObjectVersions (en_sql env ''versions'') db tenant bucket key)) (\<lambda>versions.
          then_do (check (validateBoundaryObjects s versions tenant bucket key)) (\<lambda>_.
          filterAuthorizedVersions s env ctx versions)))))"

definition GetMetadata :: "'s FileService \<Rightarrow> svc_env \<Rightarrow> svc_ctx \<Rightarrow> string \<Rightarrow> string \<Rightarrow> string \<Rightarrow> ('s, kv) act" where
  "GetMetadata s env ctx tenant bucket key =
     then_do (svc_statObject s env ctx tenant bucket key None) (\<lambda>obj. return (userMetadata (o_Metadata obj)))"

text \<open>The batches never fail; \<open>envs\<close> gives each key its environment.\<close>

fun BatchDelete :: "'s FileService \<Rightarrow> svc_ctx \<Rightarrow> string \<Rightarrow> string \<Rightarrow> (svc_env \<times> string) list \<Rightarrow> ('s, (string \<times> bool \<times> gerr option) list) act" where
  "BatchDelete s ctx tenant bucket [] = return []"
| "BatchDelete s ctx tenant bucket ((env, key) # keys) =
     then_do (attempt (svc_Delete s env ctx tenant bucket key False)) (\<lambda>r.
     then_do (BatchDelete s ctx tenant bucket keys) (\<lambda>rest.
     return ((case r of
                Inr _ \<Rightarrow> (key, True, None)
              | Inl e \<Rightarrow> if \<not> IsResourceBoundaryFault (Some e) \<and> errors_is e ServiceNotFound then (key, True, None)
                        else (key, False, Some (if IsResourceBoundaryFault (Some e) then Sentinel ErrResourceBoundaryFault else e))) # rest)))"

fun BatchSetTags :: "'s FileService \<Rightarrow> svc_ctx \<Rightarrow> string \<Rightarrow> string \<Rightarrow> (svc_env \<times> string) list \<Rightarrow> kv \<Rightarrow> ('s, (string \<times> gerr option) list) act" where
  "BatchSetTags s ctx tenant bucket [] tags = return []"
| "BatchSetTags s ctx tenant bucket ((env, key) # keys) tags =
     then_do (attempt (SetTags s env ctx tenant bucket key tags)) (\<lambda>r.
     then_do (BatchSetTags s ctx tenant bucket keys tags) (\<lambda>rest.
     return ((key, case r of
                Inr _ \<Rightarrow> None
              | Inl e \<Rightarrow> Some (if IsResourceBoundaryFault (Some e) then Sentinel ErrResourceBoundaryFault else e)) # rest)))"

end
