(* ===== verification/File_Operations.thy ===== *)
theory File_Operations
  imports File_Reads Object_History
begin

text \<open>
  The operations of the file service as one type, histories of them, and a weakest-precondition calculus
  for actions.  The first property on top of it: an operation does nothing without a decision.
\<close>

section \<open>Operations\<close>

text \<open>
  The operations of which histories are made: writing, the four ways to delete, restoration, retention and
  legal holds, tags and metadata, the ACLs and settings of objects and buckets, and the two reads of
  bytes.  A batch deletion or a batch of tags is a history of single ones (\<open>batches_are_histories\<close>), and
  \<open>ListVersions\<close>, \<open>GetMetadata\<close> and \<open>ObjectPublicReadableWithError\<close> change nothing (\<open>listings_change_nothing\<close>,
  and \<open>File_Listings\<close> for \<open>ListVersionKeys\<close>), so every invariant of histories holds with them as well.  Server-side
  copy, multipart uploads through the service and the deletion of buckets are not modelled and are no
  steps of these histories.
\<close>

datatype svc_op =
    SvcPut string string string string int PutRequest
  | SvcDelete string string string bool string
  | SvcDeleteVersion string string string string
  | SvcMarker string string string
  | SvcRestore string string string
  | SvcRetention string string string string string instant
  | SvcPutHold string string string string string string
  | SvcRemoveHold string string string string
  | SvcTags string string string kv
  | SvcPutMetadata string string string kv
  | SvcPatchMetadata string string string kv
  | SvcDeleteMetadata string string string
  | SvcObjectACL string string string string
  | SvcBucketACL string string string
  | SvcVersioning string string bool
  | SvcBucketLock string string int
  | SvcLifecycle string string int string
  | SvcGet bool string string string ReadOptions
  | SvcGetVersion bool string string string string ReadOptions

abbreviation ignoring :: "('s, 'a) act \<Rightarrow> ('s, unit) act" where
  "ignoring m \<equiv> then_do m (\<lambda>_. return ())"

fun svc_exec :: "'s FileService \<Rightarrow> svc_env \<Rightarrow> svc_ctx \<Rightarrow> svc_op \<Rightarrow> ('s, unit) act" where
  "svc_exec s env ctx (SvcPut t b k body sz opts) = ignoring (svc_Put s env ctx t b k body sz opts)"
| "svc_exec s env ctx (SvcDelete t b k hard a) = DeleteWithAction s env ctx t b k hard a"
| "svc_exec s env ctx (SvcDeleteVersion t b k v) = DeleteVersion s env ctx t b k v"
| "svc_exec s env ctx (SvcMarker t b k) = ignoring (CreateDeleteMarker s env ctx t b k)"
| "svc_exec s env ctx (SvcRestore t b k) = svc_RestoreObject s env ctx t b k"
| "svc_exec s env ctx (SvcRetention t b k v mode until) = ignoring (svc_SetObjectRetention s env ctx t b k v mode until)"
| "svc_exec s env ctx (SvcPutHold t b k v reason by') = svc_PutLegalHold s env ctx t b k v reason by'"
| "svc_exec s env ctx (SvcRemoveHold t b k v) = svc_RemoveLegalHold s env ctx t b k v"
| "svc_exec s env ctx (SvcTags t b k tags) = SetTags s env ctx t b k tags"
| "svc_exec s env ctx (SvcPutMetadata t b k m) = PutMetadata s env ctx t b k m"
| "svc_exec s env ctx (SvcPatchMetadata t b k m) = PatchMetadata s env ctx t b k m"
| "svc_exec s env ctx (SvcDeleteMetadata t b k) = DeleteMetadata s env ctx t b k"
| "svc_exec s env ctx (SvcObjectACL t b k acl) = svc_SetObjectACL s env ctx t b k acl"
| "svc_exec s env ctx (SvcBucketACL t b acl) = svc_SetBucketACL s env ctx t b acl"
| "svc_exec s env ctx (SvcVersioning t b on) = svc_SetBucketVersioning s env ctx t b on"
| "svc_exec s env ctx (SvcBucketLock t b secs) = svc_SetBucketObjectLock s env ctx t b secs"
| "svc_exec s env ctx (SvcLifecycle t b days a) = svc_SetBucketLifecycle s env ctx t b days a"
| "svc_exec s env ctx (SvcGet verify t b k opts) = ignoring (svc_GetWithOptions s verify env ctx t b k opts)"
| "svc_exec s env ctx (SvcGetVersion verify t b k v opts) = ignoring (GetVersionWithOptions s verify env ctx t b k v opts)"

text \<open>A history: requests one after the other, each with its caller and what it meets.\<close>

fun svc_run :: "'s FileService \<Rightarrow> (svc_env \<times> svc_ctx \<times> svc_op) list \<Rightarrow> 's vault \<Rightarrow> 's vault" where
  "svc_run s [] v = v"
| "svc_run s ((env, ctx, op) # ops) v = svc_run s ops (fst (svc_exec s env ctx op v))"

lemma svc_run_invariant:
  assumes "I v" "\<And>env ctx op v. (env, ctx, op) \<in> set ops \<Longrightarrow> I v \<Longrightarrow> I (fst (svc_exec s env ctx op v))"
  shows "I (svc_run s ops v)"
  using assms by (induction s ops v rule: svc_run.induct) auto

section \<open>A calculus of actions\<close>

definition wp :: "('s, 'a) act \<Rightarrow> ('a \<Rightarrow> 's vault \<Rightarrow> bool) \<Rightarrow> (gerr \<Rightarrow> 's vault \<Rightarrow> bool) \<Rightarrow> 's vault \<Rightarrow> bool" where
  "wp m Q E v \<longleftrightarrow> (case m v of (v', Inr x) \<Rightarrow> Q x v' | (v', Inl e) \<Rightarrow> E e v')"

named_theorems wp

lemma wp_mono:
  assumes "wp m Q E v" "\<And>x v. Q x v \<Longrightarrow> Q' x v" "\<And>e v. E e v \<Longrightarrow> E' e v"
  shows "wp m Q' E' v"
  using assms by (auto simp: wp_def split: prod.splits sum.splits)

lemma wp_then_do [wp]: "wp (then_do m f) Q E v = wp m (\<lambda>x. wp (f x) Q E) E v"
  by (auto simp: wp_def then_do_def split: prod.splits sum.splits)

lemma wp_return [wp]: "wp (return x) Q E v = Q x v"
  by (simp add: wp_def return_def)

lemma wp_fail [wp]: "wp (fail e) Q E v = E e v"
  by (simp add: wp_def fail_def)

lemma wp_check [wp]: "wp (check err) Q E v = (case err of None \<Rightarrow> Q () v | Some e \<Rightarrow> E e v)"
  by (simp add: wp_def check_def split: option.splits)

lemma wp_attempt [wp]: "wp (attempt m) Q E v = wp m (\<lambda>x. Q (Inr x)) (\<lambda>e. Q (Inl e)) v"
  by (auto simp: wp_def attempt_def split: prod.splits sum.splits)

lemma wp_wrapping [wp]: "wp (wrapping w m) Q E v = wp m Q (\<lambda>e. E (w e)) v"
  by (auto simp: wp_def wrapping_def wrap_err_def split: prod.splits sum.splits)

lemma wp_read [wp]: "wp (\<lambda>v. (v, f v)) Q E v = (case f v of Inl e \<Rightarrow> E e v | Inr x \<Rightarrow> Q x v)"
  by (simp add: wp_def split: sum.splits)

lemma wp_read_objects [wp]: "wp (read_objects g) Q E v = (case g (ev_db (va_events v)) of Inl e \<Rightarrow> E e v | Inr x \<Rightarrow> Q x v)"
  by (simp add: wp_def read_objects_def split: sum.splits)

lemma wp_thenI: "wp m (\<lambda>x. wp (f x) Q E) E v \<Longrightarrow> wp (then_do m f) Q E v"
  by (simp add: wp)

lemma wp_case_sum:
  assumes "\<And>e. x = Inl e \<Longrightarrow> wp (f e) Q E v" "\<And>y. x = Inr y \<Longrightarrow> wp (g y) Q E v"
  shows "wp (case x of Inl e \<Rightarrow> f e | Inr y \<Rightarrow> g y) Q E v"
  using assms by (cases x) simp_all

lemma wp_still: "fst (m v) = v \<Longrightarrow> wp m Q E v = (case snd (m v) of Inl e \<Rightarrow> E e v | Inr x \<Rightarrow> Q x v)"
  by (cases "m v") (simp add: wp_def split: sum.split)

text \<open>Actions that only read.\<close>

definition still :: "('s, 'a) act \<Rightarrow> bool" where
  "still m \<longleftrightarrow> (\<forall>v. fst (m v) = v)"

named_theorems still

lemma wp_stillI:
  assumes "still m" "\<And>x. Q x v" "\<And>e. E e v"
  shows "wp m Q E v"
  using assms wp_still [of m v Q E] by (simp add: still_def split: sum.split)

lemma still_then [still]: "still m \<Longrightarrow> (\<And>x. still (f x)) \<Longrightarrow> still (then_do m f)"
  unfolding still_def then_do_def by (auto split: prod.splits sum.splits) (metis fst_conv)+

lemma still_basic [still]: "still (return x)" "still (fail e)" "still (check err)" "still (read_objects g)" "still (\<lambda>v. (v, f v))"
  by (simp_all add: still_def return_def fail_def check_def read_objects_def)

lemma still_attempt [still]: "still m \<Longrightarrow> still (attempt m)"
  by (simp add: still_def attempt_def split: prod.split) (metis fst_conv)

lemma still_wrapping [still]: "still m \<Longrightarrow> still (wrapping w m)"
  by (simp add: still_def wrapping_def split: prod.split) (metis fst_conv)

lemma still_checks [still]:
  "still (requireActiveTenant s env ctx t)" "still (preflightQuota s env site t b n)" "still (preflightBucketQuota env t bu b n)"
  "still (get_object_at env site t bu k)"
  by (simp_all add: still_def requireActiveTenant_def preflightQuota_def preflightBucketQuota_def get_object_at_def read_objects_def)

lemma still_authorize [still]: "still (authorize s env ctx a r)"
proof -
  have "still (\<lambda>v. check (decide s ctx a r v) v)" by (simp add: still_def check_def)
  then show ?thesis unfolding authorize_def by (intro still)
qed

lemma still_access [still]:
  "still (authorizeObject s env ctx a obj)" "still (authorizePath s env ctx a t b k)" "still (authorizeBucket s env ctx a t b)"
  "still (objectVersion env t b k v)" "still (objectForAction s env ctx t b k a)" "still (preparePutAccess s env ctx t b k m)"
  "still (restorableObject env t b k)"
  by (auto simp: authorizeObject_def authorizePath_def authorizeBucket_def objectVersion_def objectForAction_def preparePutAccess_def restorableObject_def
      intro!: still split: prod.split sum.split list.split)

lemma still_protection [still]:
  "still (checkObjectProtection env obj)" "still (checkOverwriteProtection env t b k ver)" "still (protect_all env os)"
  "still (versionsForHardDelete env t b k current)" "still (objectWriteUsage_of env t b k ver)"
proof -
  show *: "still (checkObjectProtection env obj)" for obj
    unfolding checkObjectProtection_def by (auto intro!: still)
  then show "still (checkOverwriteProtection env t b k ver)"
    unfolding checkOverwriteProtection_def by (auto intro!: still split: sum.split)
  from * show all: "still (protect_all env os)" for os by (induction os) (auto intro!: still)
  then show "still (versionsForHardDelete env t b k current)" unfolding versionsForHardDelete_def Let_def by (auto intro!: still)
  show "still (objectWriteUsage_of env t b k ver)" unfolding objectWriteUsage_of_def by (auto intro!: still split: sum.split)
qed

section \<open>Batches and listings\<close>

text \<open>An action that keeps its error as a value leaves what the action leaves.\<close>

lemma attempt_then:
  "fst (then_do (attempt m) f v) = fst (f (snd (m v)) (fst (m v)))" "snd (then_do (attempt m) f v) = snd (f (snd (m v)) (fst (m v)))"
  by (simp_all add: then_do_def attempt_def split: prod.split)

lemma then_total: "snd (m v) = Inr x \<Longrightarrow> then_do m (\<lambda>rest. return (g rest)) v = (fst (m v), Inr (g x))"
  by (cases "m v") (simp add: then_do_def return_def)

lemma batch_delete_history:
  "\<exists>res. BatchDelete s ctx t b keys v = (svc_run s (map (\<lambda>(env, k). (env, ctx, SvcDelete t b k False ActionDelete)) keys) v, Inr res)
     \<and> map fst res = map snd keys"
proof (induction keys arbitrary: v)
  case (Cons ek keys)
  obtain env k where ek: "ek = (env, k)" by (cases ek)
  obtain res where res: "BatchDelete s ctx t b keys (fst (svc_Delete s env ctx t b k False v)) =
      (svc_run s (map (\<lambda>(env, k). (env, ctx, SvcDelete t b k False ActionDelete)) keys) (fst (svc_Delete s env ctx t b k False v)), Inr res)"
    "map fst res = map snd keys"
    using Cons.IH by blast
  have "BatchDelete s ctx t b (ek # keys) v = (fst (BatchDelete s ctx t b (ek # keys) v), snd (BatchDelete s ctx t b (ek # keys) v))" by simp
  then show ?case
    unfolding ek BatchDelete.simps attempt_then using res
    by (simp add: then_total [of _ _ res] svc_Delete_def split: sum.split)
qed (simp add: return_def)

lemma batch_tags_history:
  "\<exists>res. BatchSetTags s ctx t b keys tags v = (svc_run s (map (\<lambda>(env, k). (env, ctx, SvcTags t b k tags)) keys) v, Inr res)
     \<and> map fst res = map snd keys"
proof (induction keys arbitrary: v)
  case (Cons ek keys)
  obtain env k where ek: "ek = (env, k)" by (cases ek)
  obtain res where res: "BatchSetTags s ctx t b keys tags (fst (SetTags s env ctx t b k tags v)) =
      (svc_run s (map (\<lambda>(env, k). (env, ctx, SvcTags t b k tags)) keys) (fst (SetTags s env ctx t b k tags v)), Inr res)"
    "map fst res = map snd keys"
    using Cons.IH by blast
  have "BatchSetTags s ctx t b (ek # keys) tags v = (fst (BatchSetTags s ctx t b (ek # keys) tags v), snd (BatchSetTags s ctx t b (ek # keys) tags v))" by simp
  then show ?case
    unfolding ek BatchSetTags.simps attempt_then using res
    by (simp add: then_total [of _ _ res] split: sum.split)
qed (simp add: return_def)

lemmas batches_are_histories = batch_delete_history batch_tags_history

lemma listings_change_nothing:
  "still (ListVersions s env ctx t b k)" "still (GetMetadata s env ctx t b k)"
  "still (ObjectPublicReadableWithError s env ctx t b k)"
proof -
  have f: "still (filterAuthorizedVersions s env ctx os)" for os
    by (induction os) (auto intro!: still split: sum.split)
  show "still (ListVersions s env ctx t b k)" unfolding ListVersions_def by (auto intro!: still f split: sum.split)
  show "still (GetMetadata s env ctx t b k)"
    unfolding GetMetadata_def svc_statObject_def Let_def by (auto intro!: still split: sum.split prod.split option.split)
  show "still (ObjectPublicReadableWithError s env ctx t b k)"
    unfolding ObjectPublicReadableWithError_def Let_def by (auto intro!: still split: sum.split prod.split option.split)
qed

section \<open>No operation without a decision\<close>

text \<open>The bucket and key an operation names, and the actions that may allow it.\<close>

fun svc_target :: "svc_op \<Rightarrow> string \<times> string \<times> string" where
  "svc_target (SvcPut t b k body sz opts) = (t, b, k)"
| "svc_target (SvcDelete t b k hard a) = (t, b, k)"
| "svc_target (SvcDeleteVersion t b k v) = (t, b, k)"
| "svc_target (SvcMarker t b k) = (t, b, k)"
| "svc_target (SvcRestore t b k) = (t, b, k)"
| "svc_target (SvcRetention t b k v mode until) = (t, b, k)"
| "svc_target (SvcPutHold t b k v reason by') = (t, b, k)"
| "svc_target (SvcRemoveHold t b k v) = (t, b, k)"
| "svc_target (SvcTags t b k tags) = (t, b, k)"
| "svc_target (SvcPutMetadata t b k m) = (t, b, k)"
| "svc_target (SvcPatchMetadata t b k m) = (t, b, k)"
| "svc_target (SvcDeleteMetadata t b k) = (t, b, k)"
| "svc_target (SvcObjectACL t b k acl) = (t, b, k)"
| "svc_target (SvcBucketACL t b acl) = (t, b, [])"
| "svc_target (SvcVersioning t b on) = (t, b, [])"
| "svc_target (SvcBucketLock t b secs) = (t, b, [])"
| "svc_target (SvcLifecycle t b days a) = (t, b, [])"
| "svc_target (SvcGet verify t b k opts) = (t, b, k)"
| "svc_target (SvcGetVersion verify t b k v opts) = (t, b, k)"

fun svc_actions :: "svc_op \<Rightarrow> string list" where
  "svc_actions (SvcPut t b k body sz opts) = [ActionWrite, ActionCreate]"
| "svc_actions (SvcDelete t b k hard a) = [a]"
| "svc_actions (SvcDeleteVersion t b k v) = [ActionDelete]"
| "svc_actions (SvcMarker t b k) = [ActionDelete]"
| "svc_actions (SvcRestore t b k) = [ActionRestore]"
| "svc_actions (SvcObjectACL t b k acl) = [ActionManageACL]"
| "svc_actions (SvcBucketACL t b acl) = [ActionManageACL]"
| "svc_actions (SvcVersioning t b on) = [ActionManageACL]"
| "svc_actions (SvcBucketLock t b secs) = [ActionManageACL]"
| "svc_actions (SvcLifecycle t b days a) = [ActionManageACL]"
| "svc_actions (SvcGet verify t b k opts) = [ActionRead]"
| "svc_actions (SvcGetVersion verify t b k v opts) = [ActionRead]"
| "svc_actions _ = [ActionWrite]"

text \<open>Every decision about the object or bucket, whoever owns it, is a refusal.\<close>

definition forbids :: "'s FileService \<Rightarrow> svc_ctx \<Rightarrow> 's vault \<Rightarrow> string list \<Rightarrow> string \<times> string \<times> string \<Rightarrow> bool" where
  "forbids s ctx v actions target \<longleftrightarrow>
     (case target of (tenant, bucket, key) \<Rightarrow>
      \<forall>a r. a \<in> set actions \<longrightarrow> (r_TenantID r, r_Bucket r) = defaults tenant bucket \<longrightarrow> r_Key r = key \<longrightarrow> decide s ctx a r v \<noteq> None)"

definition refuses :: "'s vault \<Rightarrow> ('s, 'a) act \<Rightarrow> bool" where
  "refuses v m \<longleftrightarrow> wp m (\<lambda>_ _. False) (\<lambda>_ v'. v' = v) v"

lemma get_object_Inr: "get_object env l p db = Inr obj \<Longrightarrow> \<exists>r \<in> set (od_objects db). p r \<and> obj = scanObject r"
  by (auto simp: get_object_def rbind_Inr not_found_def query_row_def stmt_def dest: filter_hd split: sum.splits option.splits list.splits if_splits)

lemma replay_resource:
  "at_key t b k r \<Longrightarrow> r_TenantID (replayObjectResource (scanObject r)) = t \<and> r_Bucket (replayObjectResource (scanObject r)) = b \<and> r_Key (replayObjectResource (scanObject r)) = k"
  by (simp add: replayObjectResource_def scanObject_def at_key_def Object.defs)

lemma wp_get_object_at:
  assumes "\<And>r. r \<in> set (od_objects (ev_db (va_events v))) \<Longrightarrow> live_at (defaultTenant t) b k r \<Longrightarrow> Q (scanObject r) v" "\<And>e. E e v"
  shows "wp (get_object_at env site t b k) Q E v"
  using assms by (auto simp: get_object_at_def wp GetObject_def dest!: get_object_Inr split: sum.split)

lemma wp_objectVersion:
  assumes "\<And>r t' b'. defaults t b = (t', b') \<Longrightarrow> r \<in> set (od_objects (ev_db (va_events v))) \<Longrightarrow> at_key t' b' k r \<Longrightarrow> Q (scanObject r) v"
    and "\<And>e. E e v"
  shows "wp (objectVersion env t b k versionID) Q E v"
proof (cases "validateKey k")
  case None
  obtain t' b' where d: "defaults t b = (t', b')" by (cases "defaults t b")
  then have t': "defaultTenant t' = t'" by (auto simp: defaults_def defaultTenant_def split: if_splits)
  have "wp (if versionID = [] then get_object_at env ''object'' t' b' k
            else read_objects (\<lambda>db. GetObjectVersion (en_sql env ''version'') db t' b' k versionID)) Q (\<lambda>e. E (service_not_found e)) v"
    using assms d t' by (auto simp: live_at_def is_version_def wp GetObjectVersion_def intro!: wp_get_object_at dest!: get_object_Inr split: sum.split)
  with None d show ?thesis by (simp add: objectVersion_def checkedObjectDefaults_def ok_or_def wp)
qed (simp add: objectVersion_def checkedObjectDefaults_def ok_or_def wp assms(2))

lemma wp_authorize_denied:
  assumes "decide s ctx a r v \<noteq> None" "\<And>e. E e v"
  shows "wp (authorize s env ctx a r) Q E v"
proof -
  have "wp (\<lambda>v. check (decide s ctx a r v) v) Q E v"
    using assms by (auto simp: wp_def check_def)
  then show ?thesis
    using assms(2) by (auto simp: authorize_def wp split: option.split intro!: wp_stillI [OF still_checks(1)])
qed

lemma wp_authorizeObject_denied:
  assumes "forbids s ctx v actions (t, b, k)" "a \<in> set actions" "defaults t b = (t', b')" "at_key t' b' k r" "\<And>e. E e v"
  shows "wp (authorizeObject s env ctx a (scanObject r)) Q E v"
  using assms replay_resource [OF assms(4)] by (auto simp: authorizeObject_def forbids_def intro!: wp_authorize_denied)

lemma wp_authorizePath_denied:
  assumes "forbids s ctx v actions (t, b, k)" "a \<in> set actions" "defaults t b = (t', b')" "\<And>e. E e v"
  shows "wp (authorizePath s env ctx a t' b' k) Q E v"
  using assms by (auto simp: authorizePath_def forbids_def intro!: wp_authorize_denied)

lemma defaults_nonempty: "defaults t b = (t', b') \<Longrightarrow> defaultTenant t' = t' \<and> defaults t' b' = (t', b')"
  by (auto simp: defaults_def defaultTenant_def split: if_splits)

lemma wp_objectForAction_denied:
  assumes "forbids s ctx v actions (t, b, k)" "a \<in> set actions" "\<And>e. E e v"
  shows "wp (objectForAction s env ctx t b k a) Q E v"
proof -
  obtain t' b' where d: "defaults t b = (t', b')" by (cases "defaults t b")
  show ?thesis
    using assms d defaults_nonempty [OF d]
    by (auto simp: objectForAction_def checkedObjectDefaults_def ok_or_def wp live_at_def split: option.split
        intro!: wp_get_object_at wp_authorizeObject_denied [OF assms(1,2) d])
qed

lemma wp_preparePutAccess_denied:
  assumes "forbids s ctx v [ActionWrite, ActionCreate] (t, b, k)" "defaults t b = (t', b')" "\<And>e. E e v"
  shows "wp (preparePutAccess s env ctx t' b' k m) Q E v"
  using assms defaults_nonempty [OF assms(2)]
  by (auto simp: preparePutAccess_def wp live_at_def split: option.split
      intro!: wp_get_object_at wp_authorizeObject_denied [OF assms(1) _ assms(2)] wp_authorizePath_denied [OF assms(1) _ assms(2)])

lemma wp_statObject_denied:
  assumes "forbids s ctx v actions (t, b, k)" "ActionRead \<in> set actions" "\<And>e. E e v"
  shows "wp (svc_statObject s env ctx t b k opts) Q E v"
proof -
  obtain t' b' where d: "defaults t b = (t', b')" by (cases "defaults t b")
  show ?thesis
    using assms d defaults_nonempty [OF d]
    by (auto simp: svc_statObject_def checkedObjectDefaults_def ok_or_def wp live_at_def split: option.split
        intro!: wp_get_object_at wp_authorizeObject_denied [OF assms(1,2) d])
qed

lemma wp_DeleteWithAction_denied:
  assumes "forbids s ctx v [a] (t, b, k)" "\<And>e. E e v"
  shows "wp (DeleteWithAction s env ctx t b k hard a) Q E v"
proof -
  obtain t' b' where d: "defaults t b = (t', b')" by (cases "defaults t b")
  show ?thesis
    using assms d defaults_nonempty [OF d]
    by (auto simp: DeleteWithAction_def checkedObjectDefaults_def ok_or_def wp live_at_def split: option.split
        intro!: wp_get_object_at wp_authorizeObject_denied [OF assms(1) _ d])
qed

lemma wp_restorable:
  assumes "\<And>r. r \<in> set (od_objects (ev_db (va_events v))) \<Longrightarrow> at_key (defaultTenant t) b k r \<Longrightarrow> Q (scanObject r) v" "\<And>e. E e v"
  shows "wp (restorableObject env t b k) Q E v"
proof -
  have "Q x v" if "filter p (map scanObject (newest_first env' (filter (at_key (defaultTenant t) b k) (od_objects (ev_db (va_events v)))))) = x # xs" for p xs x env'
  proof -
    have "x \<in> set (map scanObject (newest_first env' (filter (at_key (defaultTenant t) b k) (od_objects (ev_db (va_events v))))))"
      using filter_hd [OF that] by blast
    then show ?thesis using assms(1) by (auto simp: newest_first_set)
  qed
  with assms(2) show ?thesis
    by (auto simp: restorableObject_def wp ListObjectVersions_def stmt_def split: option.split list.split)
qed

lemma wp_RestoreObject_denied:
  assumes "forbids s ctx v [ActionRestore] (t, b, k)" "\<And>e. E e v"
  shows "wp (svc_RestoreObject s env ctx t b k) Q E v"
proof -
  obtain t' b' where d: "defaults t b = (t', b')" by (cases "defaults t b")
  show ?thesis
    using assms d defaults_nonempty [OF d]
    by (auto simp: svc_RestoreObject_def checkedObjectDefaults_def ok_or_def wp split: option.split
        intro!: wp_get_object_at wp_restorable wp_authorizeObject_denied [OF assms(1) _ d])
qed

lemma wp_CreateDeleteMarker_denied:
  assumes "forbids s ctx v [ActionDelete] (t, b, k)" "\<And>e. E e v"
  shows "wp (CreateDeleteMarker s env ctx t b k) Q E v"
proof -
  obtain t' b' where d: "defaults t b = (t', b')" by (cases "defaults t b")
  show ?thesis
    using assms d defaults_nonempty [OF d]
    by (auto simp: CreateDeleteMarker_def wp live_at_def split: option.split sum.split
        intro!: wp_get_object_at wp_authorizeObject_denied [OF assms(1) _ d] wp_authorizePath_denied [OF assms(1) _ d])
qed

lemma wp_Put_denied:
  assumes "forbids s ctx v [ActionWrite, ActionCreate] (t, b, k)" "\<And>e. E e v"
  shows "wp (svc_Put s env ctx t b k body sz opts) Q E v"
proof -
  obtain t' b' where d: "defaults t b = (t', b')" by (cases "defaults t b")
  show ?thesis
    using assms d
    by (auto simp: svc_Put_def wp split: option.split sum.split intro!: wp_preparePutAccess_denied [OF assms(1) d])
qed

lemma wp_bucket_denied:
  assumes "forbids s ctx v [ActionManageACL] (t, b, [])" "defaults t b = (t', b')" "\<And>e. E e v"
  shows "wp (authorizeBucket s env ctx ActionManageACL t' b') Q E v"
  using assms defaults_nonempty [OF assms(2)]
  by (auto simp: authorizeBucket_def intro!: wp_authorizePath_denied [OF assms(1) _ assms(2)])

lemma forbids_defaults: "defaults t b = (t', b') \<Longrightarrow> forbids s ctx v actions (t', b', k) = forbids s ctx v actions (t, b, k)"
  by (simp add: forbids_def defaults_nonempty)

lemmas wp_denied = wp_objectForAction_denied wp_DeleteWithAction_denied wp_RestoreObject_denied wp_CreateDeleteMarker_denied
  wp_Put_denied wp_statObject_denied

lemma svc_exec_refuses:
  assumes "forbids s ctx v (svc_actions op) (svc_target op)"
  shows "refuses v (svc_exec s env ctx op)"
proof -
  obtain t b k where target: "svc_target op = (t, b, k)" by (cases "svc_target op")
  obtain t' b' where d: "defaults t b = (t', b')" by (cases "defaults t b")
  note f = assms [unfolded target] and f' = assms [unfolded target, folded forbids_defaults [OF d]]
  note object = wp_authorizeObject_denied [OF f _ d] and path = wp_bucket_denied [OF _ d]
  from target f f' d show ?thesis
    by (cases op)
      (auto simp: refuses_def wp DeleteVersion_def svc_SetObjectRetention_def svc_PutLegalHold_def svc_RemoveLegalHold_def SetTags_def
        PutMetadata_def PatchMetadata_def DeleteMetadata_def svc_SetObjectACL_def svc_SetBucketACL_def svc_SetBucketVersioning_def
        svc_SetBucketObjectLock_def svc_SetBucketLifecycle_def svc_GetWithOptions_def GetVersionWithOptions_def StatVersionWithOptions_def
        checkedObjectDefaults_def ok_or_def Let_def defaults_nonempty [OF d] split: option.split
        intro!: wp_denied wp_objectVersion object path)
qed

text \<open>
  C1. No write, deletion, setting or read of bytes without permission.  For each of the nineteen
  operations of \<open>svc_op\<close> (\<open>Put\<close>, \<open>DeleteWithAction\<close>, \<open>DeleteVersion\<close>, \<open>CreateDeleteMarker\<close>, \<open>RestoreObject\<close>,
  \<open>SetObjectRetention\<close>, \<open>PutLegalHold\<close>, \<open>RemoveLegalHold\<close>, \<open>SetTags\<close>, \<open>PutMetadata\<close>, \<open>PatchMetadata\<close>,
  \<open>DeleteMetadata\<close>, \<open>SetObjectACL\<close>, \<open>SetBucketACL\<close>, \<open>SetBucketVersioning\<close>, \<open>SetBucketObjectLock\<close>,
  \<open>SetBucketLifecycle\<close>, \<open>GetWithOptions\<close>, \<open>GetVersionWithOptions\<close>): if the authorizer refuses each of the
  actions that the operation can be allowed by, for the tenant, bucket and key that it names (whoever owns
  the object), then the operation fails and nothing at all has changed: no row, no byte, no counter, no
  event.  Listings are not among them: \<open>ListVersions\<close> leaves out what may not be read, and
  \<open>ListVersionKeys\<close> asks no authorizer.
\<close>

theorem service_needs_permission:
  assumes "forbids s ctx v (svc_actions op) (svc_target op)"
  shows "\<exists>e. svc_exec s env ctx op v = (v, Inl e)"
  using svc_exec_refuses [OF assms, of env] by (auto simp: refuses_def wp_def split: prod.splits sum.splits)

end
