(* ===== verification/File_Invariants.thy ===== *)
theory File_Invariants
  imports File_Operations
begin

text \<open>
  What every operation of the file service keeps of the tables of objects and holds.  The laws of the
  repository are a locale; its client is the service, its instance the relation \<open>evolves\<close> of the object
  tables.
\<close>

section \<open>Actions that leave the tables alone\<close>

definition tables_kept :: "('s, 'a) act \<Rightarrow> bool" where
  "tables_kept m \<longleftrightarrow> (\<forall>v. va_events (fst (m v)) = va_events v)"

named_theorems kept

lemma kept_then [kept]: "tables_kept m \<Longrightarrow> (\<And>x. tables_kept (f x)) \<Longrightarrow> tables_kept (then_do m f)"
  unfolding tables_kept_def then_do_def by (auto split: prod.splits sum.splits) (metis fst_conv)+

lemma kept_basic [kept]:
  "tables_kept (return x)" "tables_kept (fail e)" "tables_kept (check err)" "tables_kept (read_objects g)" "tables_kept (\<lambda>v. (v, f v))"
  "tables_kept (exec_store h)" "tables_kept (exec_buckets b)" "tables_kept (emit ctx obj t)"
  by (simp_all add: tables_kept_def return_def fail_def check_def read_objects_def exec_store_def exec_buckets_def emit_def split: prod.split)

lemma kept_attempt [kept]: "tables_kept m \<Longrightarrow> tables_kept (attempt m)"
  by (simp add: tables_kept_def attempt_def split: prod.split) (metis fst_conv)

lemma kept_wrapping [kept]: "tables_kept m \<Longrightarrow> tables_kept (wrapping w m)"
  by (simp add: tables_kept_def wrapping_def split: prod.split) (metis fst_conv)

lemma still_kept: "still m \<Longrightarrow> tables_kept m"
  by (simp add: still_def tables_kept_def)

lemmas kept_access [kept] = still_checks [THEN still_kept] still_authorize [THEN still_kept] still_access [THEN still_kept] still_protection [THEN still_kept]

lemma kept_checks [kept]: "tables_kept (addTenantUsage s env t kind b n)" "tables_kept (cleanObjectChunks s obj ref)"
  by (simp_all add: tables_kept_def addTenantUsage_def cleanObjectChunks_def split: prod.split port.split option.split)

lemma kept_writes [kept]:
  "tables_kept (accountObjectUsage s env t u n)" "tables_kept (discard_blob s ctx sk)"
  "tables_kept (validateStoredSize s ctx sk x y z)" "tables_kept (clean_logged s obj ref)" "tables_kept (finishVersionDelete s env ctx obj cur)"
  by (auto simp: accountObjectUsage_def discard_blob_def validateStoredSize_def clean_logged_def finishVersionDelete_def
      intro!: kept split: prod.split sum.split)

lemma kept_loops [kept]: "tables_kept (cleanHardDeleteChunks s os t b k)" "tables_kept (delete_blobs s ctx seen os)"
proof -
  show "tables_kept (cleanHardDeleteChunks s os t b k)" by (induction os) (auto intro!: kept)
  show "tables_kept (delete_blobs s ctx seen os)" by (induction os arbitrary: seen) (auto intro!: kept)
qed

lemma kept_reads [kept]:
  "tables_kept (svc_GetWithOptions s verify env ctx t b k opts)" "tables_kept (GetVersionWithOptions s verify env ctx t b k v opts)"
  by (auto simp: svc_GetWithOptions_def GetVersionWithOptions_def StatVersionWithOptions_def svc_statObject_def openObjectWithOptions_def
      openStorageWithOptions_def Let_def intro!: kept split: prod.split sum.split option.split)

lemma kept_buckets [kept]:
  "tables_kept (svc_SetBucketACL s env ctx t b acl)" "tables_kept (svc_SetBucketVersioning s env ctx t b on)"
  "tables_kept (svc_SetBucketObjectLock s env ctx t b n)" "tables_kept (svc_SetBucketLifecycle s env ctx t b n a)"
  by (auto simp: svc_SetBucketACL_def svc_SetBucketVersioning_def svc_SetBucketObjectLock_def svc_SetBucketLifecycle_def intro!: kept split: prod.split)

lemma wp_kept:
  assumes "tables_kept m" "\<And>x v'. va_events v' = va_events v \<Longrightarrow> Q x v'" "\<And>e v'. va_events v' = va_events v \<Longrightarrow> E e v'"
  shows "wp m Q E v"
proof -
  obtain v' r where run: "m v = (v', r)" by (cases "m v")
  moreover have "va_events v' = va_events v" using assms(1) run unfolding tables_kept_def by (metis fst_conv)
  ultimately show ?thesis using assms(2,3) by (simp add: wp_def split: sum.split)
qed

lemma scanObject_fields [simp]:
  "o_ID (scanObject r) = o_ID r" "o_TenantID (scanObject r) = o_TenantID r" "o_Bucket (scanObject r) = o_Bucket r"
  "o_Key (scanObject r) = o_Key r" "o_VersionID (scanObject r) = o_VersionID r" "o_StorageKey (scanObject r) = o_StorageKey r"
  "o_Size (scanObject r) = o_Size r"
  by (simp_all add: scanObject_def Object.defs)

section \<open>Relations that the repository keeps\<close>

definition steps :: "(objects_db \<Rightarrow> objects_db \<Rightarrow> bool) \<Rightarrow> ('s, 'a) act \<Rightarrow> bool" where
  "steps rel m \<longleftrightarrow> (\<forall>v. rel (ev_db (va_events v)) (ev_db (va_events (fst (m v)))))"

text \<open>
  The statements that only add rows or change columns a lock does not depend on; then the four that
  replace or remove rows or set the lock.
\<close>

locale object_steps =
  fixes rel :: "objects_db \<Rightarrow> objects_db \<Rightarrow> bool"
  assumes step_refl: "rel db db"
    and step_trans: "rel a b \<Longrightarrow> rel b c \<Longrightarrow> rel a c"
    and step_insert: "rel db (fst (InsertObjectVersion env clk vid db obj))"
    and step_marker: "rel db (fst (InsertDeleteMarker env clk vid db obj))"
    and step_soft: "rel (ev_db edb) (ev_db (fst (SoftDeleteObjectWithEvent version env t now now' edb tenant bucket key entry facts)))"
    and step_restore: "rel db (fst (RestoreObject env db tenant bucket key))"
    and step_tags: "rel db (fst (UpdateTags env clk db tenant bucket key tags))"
    and step_replace: "rel db (fst (ReplaceObjectMetadata env db tenant bucket key m))"
    and step_merge: "rel db (fst (SetObjectMetaKeys env db tenant bucket key m))"
    and step_acl: "rel db (fst (SetObjectACL env db tenant bucket key acl))"
    and step_hold: "rel db (fst (PutLegalHold env at' db l))"
begin

lemma steps_kept: "tables_kept m \<Longrightarrow> steps rel m"
  by (simp add: tables_kept_def steps_def step_refl)

lemma steps_then: "steps rel m \<Longrightarrow> (\<And>x. steps rel (f x)) \<Longrightarrow> steps rel (then_do m f)"
  unfolding steps_def then_do_def by (auto split: prod.splits sum.splits) (metis fst_conv step_trans)+

lemma steps_wrapping: "steps rel m \<Longrightarrow> steps rel (wrapping w m)"
  by (simp add: steps_def wrapping_def split: prod.split) (metis fst_conv)

lemma steps_write: "(\<And>db. rel db (fst (g db))) \<Longrightarrow> steps rel (write_objects g)"
  by (simp add: steps_def write_objects_def set_objects_def split: prod.split) (metis fst_conv)

lemma steps_exec: "(\<And>db. rel db (fst (g db))) \<Longrightarrow> steps rel (exec_objects g)"
  by (simp add: steps_def exec_objects_def set_objects_def split: prod.split) (metis fst_conv)

lemma steps_events: "(\<And>edb. rel (ev_db edb) (ev_db (fst (g edb)))) \<Longrightarrow> steps rel (exec_events g)"
  by (simp add: steps_def exec_events_def split: prod.split) (metis fst_conv)

lemma steps_attempt: "steps rel m \<Longrightarrow> steps rel (attempt m)"
  by (simp add: steps_def attempt_def split: prod.split) (metis fst_conv)

lemmas steps_rules = steps_then steps_wrapping steps_attempt steps_write steps_exec steps_events
  kept_basic [THEN steps_kept] kept_checks [THEN steps_kept] kept_access [THEN steps_kept]
  kept_writes [THEN steps_kept] kept_loops [THEN steps_kept] kept_reads [THEN steps_kept] kept_buckets [THEN steps_kept]

lemma steps_softDelete: "steps rel (softDeleteObject s env ctx obj t b k)"
  unfolding softDeleteObject_def by (auto intro!: steps_rules step_soft)

lemma steps_marker: "steps rel (CreateDeleteMarker s env ctx t b k)"
proof -
  have "steps rel (insertDeleteMarker s env ctx t b k cur)" for t b cur
    unfolding insertDeleteMarker_def Let_def by (auto intro!: steps_rules step_marker split: option.split)
  then show ?thesis
    unfolding CreateDeleteMarker_def by (auto intro!: steps_rules split: prod.split sum.split)
qed

lemma steps_restore: "steps rel (svc_RestoreObject s env ctx t b k)"
  unfolding svc_RestoreObject_def
  by (auto intro!: steps_rules step_restore split: prod.split sum.split)

lemma steps_writePut:
  assumes "bc_Versioning bcfg \<or> (\<forall>db. rel db (fst (UpsertObject (en_sql env ''write'') (en_clk env) (en_vid env) db obj)))"
  shows "steps rel (writePutObject s env ctx obj bcfg u opts)"
  unfolding writePutObject_def using assms
  by (auto intro!: steps_rules step_insert step_acl step_hold)

lemma steps_updates:
  "steps rel (SetTags s env ctx t b k tags)" "steps rel (PutMetadata s env ctx t b k m)" "steps rel (PatchMetadata s env ctx t b k m)"
  "steps rel (DeleteMetadata s env ctx t b k)" "steps rel (svc_SetObjectACL s env ctx t b k acl)"
  "steps rel (svc_PutLegalHold s env ctx t b k v reason by')"
  unfolding SetTags_def PutMetadata_def PatchMetadata_def DeleteMetadata_def svc_SetObjectACL_def svc_PutLegalHold_def
  by (auto intro!: steps_rules step_tags step_replace step_merge step_acl step_hold split: prod.split sum.split)

end

locale writing_steps = object_steps +
  assumes step_upsert: "rel db (fst (UpsertObject env clk vid db obj))"
    and step_hard: "rel (ev_db edb) (ev_db (fst (HardDeleteObjectWithEvent version env now now' edb tenant bucket key entry facts)))"
    and step_version: "rel db (fst (DeleteObjectVersion env db tenant bucket key v))"
    and step_retention: "rel db (fst (SetObjectRetention env db i until m))"
begin

lemma steps_put: "steps rel (svc_Put s env ctx t b k body sz opts)"
proof -
  have "steps rel (put_bytes s env ctx t' b' k body sz bcfg u opts)" for t' b' sz bcfg u opts
    unfolding put_bytes_def Let_def
    by (auto intro!: steps_rules steps_writePut step_upsert split: sum.split)
  then show ?thesis
    unfolding svc_Put_def by (auto intro!: steps_rules split: prod.split sum.split)
qed

lemma steps_hard: "steps rel (hardDeleteObject s env ctx obj t b k)"
  unfolding hardDeleteObject_def hardDeleteObjectWithVersions_def
  by (auto intro!: steps_rules steps_events step_hard split: prod.split)

lemma steps_delete: "steps rel (DeleteWithAction s env ctx t b k hard a)"
  unfolding DeleteWithAction_def by (auto intro!: steps_rules steps_hard steps_softDelete split: prod.split sum.split)

lemma steps_deleteVersion: "steps rel (DeleteVersion s env ctx t b k v)"
  unfolding DeleteVersion_def deleteVersionData_def
  by (auto intro!: steps_rules step_version split: prod.split)

lemma steps_retention: "steps rel (svc_SetObjectRetention s env ctx t b k v mode until)"
  unfolding svc_SetObjectRetention_def Let_def by (auto intro!: steps_rules step_retention)

lemma svc_exec_steps: "(\<And>t b k v. op \<noteq> SvcRemoveHold t b k v) \<Longrightarrow> steps rel (svc_exec s env ctx op)"
  by (cases op) (auto intro!: steps_put steps_delete steps_deleteVersion steps_marker steps_restore steps_retention steps_updates
      steps_rules)

end

section \<open>Held objects\<close>

lemma evolves_access: "evolves R db (db\<lparr>od_access := a\<rparr>)"
  by (rule evolves_same) simp_all

lemma soft_event_evolves: "evolves R (ev_db edb) (ev_db (fst (SoftDeleteObjectWithEvent version env t now now' edb tenant bucket key entry facts)))"
proof -
  obtain edb' err where run: "SoftDeleteObjectWithEvent version env t now now' edb tenant bucket key entry facts = (edb', err)"
    by (metis surj_pair)
  let ?hit = "live_at (defaultTenant tenant) bucket key"
  have "evolves R ((ev_db edb)\<lparr>od_access := a\<rparr>) (update_objects ?hit (\<lambda>r. r\<lparr>o_DeletedAt := Some t'\<rparr>) ((ev_db edb)\<lparr>od_access := a\<rparr>))" for a t'
    by (rule retire_evolves) (auto simp: resource_of_def)
  then have "evolves R (ev_db edb) (update_objects ?hit (\<lambda>r. r\<lparr>o_DeletedAt := Some t'\<rparr>) ((ev_db edb)\<lparr>od_access := a\<rparr>))" for a t'
    using evolves_access evolves_trans by blast
  with SoftDelete_effect [OF run] show ?thesis by (auto simp: run soft_effect_def with_events_def mark_deleted_def)
qed

lemma hard_event_evolves: "evolves R (ev_db edb) (ev_db (fst (HardDeleteObjectWithEvent version env now now' edb tenant bucket key entry facts)))"
proof -
  obtain edb' err where run: "HardDeleteObjectWithEvent version env now now' edb tenant bucket key entry facts = (edb', err)"
    by (metis surj_pair)
  let ?hit = "at_key (defaultTenant tenant) bucket key"
  have "evolves R (ev_db edb) (delete_objects ?hit ((ev_db edb)\<lparr>od_access := a\<rparr>))"
    if "\<forall>r \<in> set (od_objects (ev_db edb)). ?hit r \<longrightarrow> o_ID r \<notin> set (held_ids (ev_db edb))" for a
    using that by (intro evolves_trans [OF evolves_access delete_evolves]) (auto simp: held_ids_def)
  with HardDelete_effect [OF run] show ?thesis by (auto simp: run hard_effect_def with_events_def)
qed

interpretation held: writing_steps "evolves {}"
  by unfold_locales (auto intro: evolves_trans op_evolves soft_event_evolves hard_event_evolves)

text \<open>The objects whose hold a request may remove.\<close>

fun svc_released :: "svc_op \<Rightarrow> objects_db \<Rightarrow> int set" where
  "svc_released (SvcRemoveHold t b k v) db = {o_ID r | r t' b'. r \<in> set (od_objects db) \<and> defaults t b = (t', b') \<and> at_key t' b' k r}"
| "svc_released _ db = {}"

lemma svc_exec_evolves: "evolves (svc_released op (ev_db (va_events v))) (ev_db (va_events v)) (ev_db (va_events (fst (svc_exec s env ctx op v))))"
proof (cases "\<exists>t b k vid. op = SvcRemoveHold t b k vid")
  case True
  then obtain t b k vid where op: "op = SvcRemoveHold t b k vid" by blast
  let ?db = "ev_db (va_events v)"
  let ?ok = "\<lambda>v'. evolves (svc_released op ?db) ?db (ev_db (va_events v'))"
  have remove: "wp (exec_objects (\<lambda>db. RemoveLegalHold env' db i vid)) (\<lambda>_. ?ok) (\<lambda>_. ?ok) w"
    if "va_events w = va_events v" "i \<in> svc_released op ?db" for w i env' vid
    using that remove_hold_evolves [of i "svc_released op ?db" ?db env' vid]
    by (auto simp: wp_def exec_objects_def set_objects_def ok_or_def split: prod.split option.split)
  have "wp (svc_RemoveLegalHold s env ctx t b k vid) (\<lambda>_. ?ok) (\<lambda>_. ?ok) v"
    unfolding svc_RemoveLegalHold_def wp
    by (intro wp_objectVersion wp_kept [OF still_access(1) [THEN still_kept]] remove) (auto simp: op)
  then show ?thesis by (simp add: op wp_def split: prod.splits sum.splits)
next
  case False
  then have "steps (evolves {}) (svc_exec s env ctx op)" using held.svc_exec_steps by blast
  moreover have "svc_released op (ev_db (va_events v)) = {}" using False by (cases op) auto
  ultimately show ?thesis by (simp add: steps_def)
qed

text \<open>A request that may remove a hold of an object of the key.\<close>

fun removes_hold :: "string \<times> string \<times> string \<Rightarrow> svc_op \<Rightarrow> bool" where
  "removes_hold res (SvcRemoveHold t b k v) \<longleftrightarrow> (case defaults t b of (t', b') \<Rightarrow> res = (t', b', k))"
| "removes_hold res _ \<longleftrightarrow> False"

lemma svc_released_key:
  assumes "objects_ok db" "r \<in> set (od_objects db)" "\<not> removes_hold (resource_of r) op"
  shows "o_ID r \<notin> svc_released op db"
proof (cases op)
  case (SvcRemoveHold t b k v)
  have "x = r" if "x \<in> set (od_objects db)" "o_ID x = o_ID r" for x
    using assms(1,2) that by (auto simp: objects_ok_def distinct_map inj_on_def)
  with SvcRemoveHold assms(3) show ?thesis by (auto simp: resource_of_def at_key_def)
qed simp_all

text \<open>The tables are well-formed, and object \<open>i\<close> is held and has a row under its key.\<close>

definition object_held :: "int \<Rightarrow> string \<times> string \<times> string \<Rightarrow> objects_db \<Rightarrow> bool" where
  "object_held i res db \<longleftrightarrow> objects_ok db \<and> i \<in> set (held_ids db) \<and> (\<exists>r \<in> set (od_objects db). o_ID r = i \<and> resource_of r = res)"

lemma svc_exec_held:
  assumes "object_held i res (ev_db (va_events v))" "\<not> removes_hold res op"
  shows "object_held i res (ev_db (va_events (fst (svc_exec s env ctx op v))))"
proof -
  from assms(1) obtain r where r: "r \<in> set (od_objects (ev_db (va_events v)))" "o_ID r = i" "resource_of r = res"
    by (auto simp: object_held_def)
  moreover have "i \<notin> svc_released op (ev_db (va_events v))"
    using svc_released_key [of _ r op] assms r by (auto simp: object_held_def)
  ultimately show ?thesis
    using assms(1) svc_exec_evolves [of op v s env ctx] by (auto simp: object_held_def evolves_def row_kept_def)
qed

text \<open>
  C4. A legal hold outlives every history of requests to the file service: whoever sends what, in any
  order, with any failures of database, backend and cleaner, as long as no request removes a hold of
  that key, the held object keeps its row under the same tenant, bucket and key and stays held, and the
  object tables keep their invariant.
\<close>

theorem service_keeps_holds:
  assumes "object_held i res (ev_db (va_events v))" "\<And>env ctx op. (env, ctx, op) \<in> set ops \<Longrightarrow> \<not> removes_hold res op"
  shows "object_held i res (ev_db (va_events (svc_run s ops v)))"
  using svc_run_invariant [of "\<lambda>v. object_held i res (ev_db (va_events v))" v ops s] assms svc_exec_held by blast

end
