(* ===== verification/File_Retention.thy ===== *)
theory File_Retention
  imports File_Invariants
begin

text \<open>
  Retention through the file service: a lock that lies in the future survives every history of
  requests.  The statements that add rows or change other columns keep it by themselves; the ones that
  replace or remove rows keep it because the service looks first.
\<close>

section \<open>Statements that keep locks\<close>

definition locks :: "instant \<Rightarrow> 'a Object_scheme \<Rightarrow> bool" where
  "locks t r \<longleftrightarrow> (case o_LockedUntil r of None \<Rightarrow> False | Some u \<Rightarrow> t \<le> u)"

definition lock_kept :: "int \<Rightarrow> instant \<Rightarrow> objects_db \<Rightarrow> objects_db \<Rightarrow> bool" where
  "lock_kept i t db db' \<longleftrightarrow>
     (\<forall>r \<in> set (od_objects db). o_ID r = i \<and> locks t r \<longrightarrow> (\<exists>r' \<in> set (od_objects db'). o_ID r' = i \<and> resource_of r' = resource_of r \<and> locks t r'))"

lemma lock_kept_same: "od_objects db' = od_objects db \<Longrightarrow> lock_kept i t db db'"
  by (auto simp: lock_kept_def)

lemma lock_kept_refl [simp]: "lock_kept i t db db"
  by (rule lock_kept_same) simp

lemma lock_kept_trans: "lock_kept i t a b \<Longrightarrow> lock_kept i t b c \<Longrightarrow> lock_kept i t a c"
  unfolding lock_kept_def by (metis (no_types, lifting))

lemma lock_kept_update:
  assumes "\<And>r. r \<in> set (od_objects db) \<Longrightarrow> p r \<Longrightarrow> o_ID r = i \<Longrightarrow> locks t r \<Longrightarrow> o_ID (f r) = i \<and> resource_of (f r) = resource_of r \<and> locks t (f r)"
  shows "lock_kept i t db (update_objects p f db)"
  unfolding lock_kept_def update_objects_same
proof (intro ballI impI)
  fix r assume r: "r \<in> set (od_objects db)" "o_ID r = i \<and> locks t r"
  let ?r = "if p r then f r else r"
  have "?r \<in> set (set_rows p f (od_objects db))" using r(1) by (auto simp: set_rows_def)
  then show "\<exists>r' \<in> set (set_rows p f (od_objects db)). o_ID r' = i \<and> resource_of r' = resource_of r \<and> locks t r'"
    using assms r by (intro bexI [of _ ?r]) auto
qed

lemma lock_kept_found:
  assumes "lock_kept i t db (update_objects hit f db)"
  shows "lock_kept i t db (fst (update_found env l hit f db))" "lock_kept i t db (fst (update_counted env l hit f db))"
  using assms by (auto simp: update_found_def update_counted_def split: option.splits)

lemma lock_kept_insert: "insert_object env mk db = Inr (db', r) \<Longrightarrow> lock_kept i t db db'"
  by (auto simp: insert_object_def lock_kept_def Let_def split: if_splits)

lemma lock_kept_delete:
  "(\<And>r. r \<in> set (od_objects db) \<Longrightarrow> p r \<Longrightarrow> o_ID r = i \<Longrightarrow> \<not> locks t r) \<Longrightarrow> lock_kept i t db (delete_objects p db)"
  by (force simp: lock_kept_def delete_objects_def Let_def)

lemmas lock_kept_access = drop_access_same [THEN conjunct1, THEN lock_kept_same]

lemma lock_kept_tombstone: "lock_kept i t db (tombstone_live t' a b c db)"
  unfolding tombstone_live_def by (rule lock_kept_update) (simp add: locks_def resource_of_def)

lemma lock_kept_tx:
  "(\<And>x. body = Inr x \<Longrightarrow> lock_kept i t db x) \<Longrightarrow> lock_kept i t db (fst (in_tx env db body))"
  "(\<And>x y. body' = Inr (x, y) \<Longrightarrow> lock_kept i t db x) \<Longrightarrow> lock_kept i t db (fst (in_tx_val env db body'))"
  using in_tx_cases(1) [of env db body] in_tx_val_cases(1) [of env db body'] by (metis lock_kept_refl prod.collapse)+

lemma lock_kept_version: "lock_kept i t db (fst (InsertObjectVersion env clk vid db obj))"
  unfolding InsertObjectVersion_def Let_def
  by (rule lock_kept_tx) (auto simp: rbind_Inr stmt_Inr intro: lock_kept_trans [OF lock_kept_tombstone] lock_kept_insert)

lemma lock_kept_marker: "lock_kept i t db (fst (InsertDeleteMarker env clk vid db obj))"
  unfolding InsertDeleteMarker_def Let_def
  by (rule lock_kept_tx) (auto simp: rbind_Inr stmt_Inr intro: lock_kept_trans [OF lock_kept_trans [OF lock_kept_tombstone lock_kept_access]] lock_kept_insert)

lemma lock_kept_columns:
  "lock_kept i t db (fst (RestoreObject env db tenant bucket key))" "lock_kept i t db (fst (UpdateTags env clk db tenant bucket key tags))"
  "lock_kept i t db (fst (ReplaceObjectMetadata env db tenant bucket key m))" "lock_kept i t db (fst (SetObjectMetaKeys env db tenant bucket key m))"
  "lock_kept i t db (fst (SetObjectACL env db tenant bucket key acl))"
  by (auto simp: RestoreObject_def UpdateTags_def ReplaceObjectMetadata_def SetObjectMetaKeys_def mergeObjectMetadata_def SetObjectACL_def
      locks_def resource_of_def intro!: lock_kept_found lock_kept_update)

lemma lock_kept_holds: "lock_kept i t db (fst (PutLegalHold env now db l))" "lock_kept i t db (fst (RemoveLegalHold env db j vid))"
  by (auto simp: PutLegalHold_def run_def stmt_Inr RemoveLegalHold_def Let_def dest: put_hold_objects intro!: lock_kept_same split: sum.splits option.splits)

lemma lock_kept_soft: "lock_kept i t (ev_db edb) (ev_db (fst (SoftDeleteObjectWithEvent version env t' now now' edb tenant bucket key entry facts)))"
proof -
  obtain edb' err where run: "SoftDeleteObjectWithEvent version env t' now now' edb tenant bucket key entry facts = (edb', err)"
    by (metis surj_pair)
  have "lock_kept i t db' (update_objects hit (\<lambda>r. r\<lparr>o_DeletedAt := d\<rparr>) db')" for db' hit d
    by (rule lock_kept_update) (simp add: locks_def resource_of_def)
  then have "lock_kept i t (ev_db edb) (update_objects hit (\<lambda>r. r\<lparr>o_DeletedAt := d\<rparr>) ((ev_db edb)\<lparr>od_access := a\<rparr>))" for a hit d
    by (rule lock_kept_trans [OF lock_kept_same, rotated]) simp
  with SoftDelete_effect [OF run] show ?thesis by (auto simp: run soft_effect_def with_events_def mark_deleted_def)
qed

interpretation lock: object_steps "lock_kept i t" for i t
  by unfold_locales (auto intro: lock_kept_trans lock_kept_version lock_kept_marker lock_kept_soft lock_kept_columns lock_kept_holds)

section \<open>Statements behind a check\<close>

definition unlocked :: "instant \<Rightarrow> (objects_row \<Rightarrow> bool) \<Rightarrow> objects_db \<Rightarrow> bool" where
  "unlocked t p db \<longleftrightarrow> (\<forall>r \<in> set (od_objects db). p r \<longrightarrow> \<not> locks t r)"

lemma lock_kept_upsert:
  assumes "unlocked t (live_at (defaultTenant (o_TenantID obj)) (o_Bucket obj) (o_Key obj)) db"
  shows "lock_kept i t db (fst (UpsertObject env clk vid db obj))"
proof -
  have "lock_kept i t db db'" if "upsert_object env (new_object_row env t' (identify vid obj)) db = Inr (db', r)" for db' r t'
  proof -
    have "lock_kept i t db (update_objects (live_at (defaultTenant (o_TenantID obj)) (o_Bucket obj) (o_Key obj)) f db)" for f
      using assms by (intro lock_kept_update) (auto simp: unlocked_def)
    with that show ?thesis
      by (auto simp: upsert_object_def new_object_row_def identify_def Let_def split: list.splits dest: lock_kept_insert)
  qed
  then show ?thesis by (auto simp: UpsertObject_def Let_def stmt_Inr split: sum.splits)
qed

lemma lock_kept_hard:
  assumes "unlocked t (at_key (defaultTenant tenant) bucket key) (ev_db edb)"
  shows "lock_kept i t (ev_db edb) (ev_db (fst (HardDeleteObjectWithEvent version env now now' edb tenant bucket key entry facts)))"
proof -
  obtain edb' err where run: "HardDeleteObjectWithEvent version env now now' edb tenant bucket key entry facts = (edb', err)"
    by (metis surj_pair)
  have "lock_kept i t (ev_db edb) (delete_objects (at_key (defaultTenant tenant) bucket key) ((ev_db edb)\<lparr>od_access := a\<rparr>))" for a
    using assms by (intro lock_kept_trans [OF lock_kept_same lock_kept_delete]) (auto simp: unlocked_def)
  with HardDelete_effect [OF run] show ?thesis by (auto simp: run hard_effect_def with_events_def)
qed

lemma lock_kept_promote: "promoteLatestObjectVersion env a b c db = Inr db' \<Longrightarrow> lock_kept i t db db'"
  by (erule promote_cases) (auto simp: locks_def resource_of_def intro!: lock_kept_update)

lemma lock_kept_clean: "clean_if_last env a b c db = Inr db' \<Longrightarrow> lock_kept i t db db'"
  by (auto simp: clean_if_last_def go_simps split: if_splits dest: lock_kept_access)

text \<open>\<open>DeleteObjectVersion\<close> removes the first row with the version id, the one that \<open>GetObjectVersion\<close> returns.\<close>

lemma lock_kept_deleteVersion:
  assumes "filter (is_version (defaultTenant tenant) bucket key vid) (od_objects db) = r # rs" "\<not> locks t r" "objects_ok db"
  shows "lock_kept i t db (fst (DeleteObjectVersion env db tenant bucket key vid))"
  unfolding DeleteObjectVersion_def Let_def
proof (rule lock_kept_tx(1))
  let ?t = "defaultTenant tenant"
  let ?rest = "\<lambda>r. rbind (if is_live r then drop_access env ?t bucket key db else Inr db) (\<lambda>db1.
           rbind (stmt env ''delete version'' (Inr (delete_objects (has_id (o_ID r)) db1))) (\<lambda>db2.
           rbind (promoteLatestObjectVersion env ?t bucket key db2) (\<lambda>db3. clean_if_last env ?t bucket key db3)))"
  fix x
  assume "rbind (not_found (query_row env ''select version'' (filter (is_version ?t bucket key vid) (od_objects db)))) (\<lambda>r.
         rbind (stmt env ''select hold'' (Inr (o_ID r \<in> set (held_ids db)))) (\<lambda>held.
         if held then Inl (Sentinel ErrLegalHoldActive) else ?rest r)) = Inr x"
  then have "?rest r = Inr x"
    unfolding assms(1) by (auto simp: rbind_Inr [of "not_found _"] rbind_Inr [of "stmt env ''select hold'' _"] stmt_Inr not_found_def query_row_def stmt_def
        split: if_splits option.splits sum.splits)
  then obtain db1 db3 where db1: "(if is_live r then drop_access env ?t bucket key db else Inr db) = Inr db1"
    and db3: "promoteLatestObjectVersion env ?t bucket key (delete_objects (has_id (o_ID r)) db1) = Inr db3" "clean_if_last env ?t bucket key db3 = Inr x"
    by (auto simp: rbind_Inr stmt_Inr)
  have same: "od_objects db1 = od_objects db" using db1 drop_access_same by (fastforce split: if_splits)
  have "r \<in> set (od_objects db)" using filter_hd [OF assms(1)] by blast
  then have "x = r" if "x \<in> set (od_objects db)" "has_id (o_ID r) x" for x
    using assms(3) that by (auto simp: objects_ok_def has_id_def distinct_map inj_on_def)
  then have "lock_kept i t db1 (delete_objects (has_id (o_ID r)) db1)"
    using assms(2) same by (intro lock_kept_delete) auto
  then show "lock_kept i t db x"
    using lock_kept_same [OF same] lock_kept_promote [OF db3(1)] lock_kept_clean [OF db3(2)] by (metis lock_kept_trans)
qed

lemma column_time_mono: "a \<le> b \<Longrightarrow> column_time env a \<le> column_time env b"
  by (simp add: column_time_def zdiv_mono1 split: dialect.split)

lemma lock_kept_retention:
  assumes "r \<in> set (od_objects db)" "objects_ok db" "locks t r \<Longrightarrow> t \<le> until" "column_time env t = t"
  shows "lock_kept i t db (fst (SetObjectRetention env db (o_ID r) until m))"
proof -
  have "x = r" if "x \<in> set (od_objects db)" "has_id (o_ID r) x" for x
    using assms(1,2) that by (auto simp: objects_ok_def has_id_def distinct_map inj_on_def)
  moreover have "t \<le> column_time env until" if "t \<le> until"
    using column_time_mono [OF that, of env] assms(4) by simp
  ultimately show ?thesis
    unfolding SetObjectRetention_def using assms(3)
    by (intro lock_kept_found lock_kept_update) (auto simp: locks_def resource_of_def)
qed

section \<open>The service looks first\<close>

text \<open>What the clocks and the database of a request must be like: the lock lies in the future, the driver does not invent missing rows, the column can hold the instant.\<close>

definition before_lock :: "instant \<Rightarrow> svc_env \<Rightarrow> bool" where
  "before_lock t env \<longleftrightarrow> 0 < t \<and> en_now env < t \<and> (\<forall>site. honest (en_sql env site) \<and> column_time (en_sql env site) t = t)"

lemma wp_protection:
  assumes "before_lock t env" "\<And>v'. va_events v' = va_events v \<Longrightarrow> \<not> locks t r \<Longrightarrow> Q () v'" "\<And>e v'. va_events v' = va_events v \<Longrightarrow> E e v'"
  shows "wp (checkObjectProtection env (scanObject r)) Q E v"
proof (cases "locks t r")
  case True
  then obtain u where "o_LockedUntil r = Some u" "t \<le> u" by (auto simp: locks_def split: option.splits)
  with assms(1) have "retention_locked (en_now env) (scanObject r)"
    by (simp add: retention_locked_def scanObject_def flexNullTime_def before_lock_def)
  with assms(3) show ?thesis by (simp add: checkObjectProtection_def wp)
next
  case False
  with assms(2,3) show ?thesis by (intro wp_kept kept) auto
qed

lemma wp_protect_all:
  assumes "before_lock t env" "\<And>v'. va_events v' = va_events v \<Longrightarrow> \<forall>r \<in> set rows. \<not> locks t r \<Longrightarrow> Q () v'" "\<And>e v'. va_events v' = va_events v \<Longrightarrow> E e v'"
  shows "wp (protect_all env (map scanObject rows)) Q E v"
  using assms(2,3)
proof (induction rows arbitrary: v)
  case (Cons r rows)
  have "wp (protect_all env (map scanObject rows)) Q E v'" if "va_events v' = va_events v" "\<not> locks t r" for v'
    by (rule Cons.IH) (use that Cons.prems in auto)
  with Cons.prems show ?case by (auto simp: wp intro!: wp_protection [OF assms(1)])
qed (simp add: wp)

lemma missing_no_row:
  assumes "honest env" "get_object env l p db = Inl e" "repositoryObjectMissing e"
  shows "filter p (od_objects db) = []"
  using assms by (cases "filter p (od_objects db)")
    (auto simp: get_object_def rbind_def not_found_def query_row_def stmt_def honest_def repositoryObjectMissing_def split: option.splits sum.splits if_splits)

lemma wp_overwrite:
  assumes "before_lock t env" "objects_ok (ev_db (va_events v))"
    and "\<And>v'. va_events v' = va_events v \<Longrightarrow> ver \<or> unlocked t (live_at (defaultTenant tenant) bucket key) (ev_db (va_events v)) \<Longrightarrow> Q () v'"
    and "\<And>e v'. va_events v' = va_events v \<Longrightarrow> E e v'"
  shows "wp (checkOverwriteProtection env tenant bucket key ver) Q E v"
proof (cases ver)
  case False
  let ?db = "ev_db (va_events v)" let ?hit = "live_at (defaultTenant tenant) bucket key" let ?env = "en_sql env ''overwrite''"
  have honest: "honest ?env" using assms(1) by (simp add: before_lock_def)
  show ?thesis
  proof (cases "GetObject ?env ?db tenant bucket key")
    case (Inl e)
    have "unlocked t ?hit ?db" if "repositoryObjectMissing e"
      using missing_no_row [OF honest _ that] Inl by (fastforce simp: GetObject_def unlocked_def filter_empty_conv)
    with Inl False assms(3,4) show ?thesis by (auto simp: checkOverwriteProtection_def get_object_at_def wp)
  next
    case (Inr obj)
    then obtain r where r: "r \<in> set (od_objects ?db)" "?hit r" "obj = scanObject r"
      by (auto simp: GetObject_def dest: get_object_Inr)
    have "filter ?hit (od_objects ?db) = [r]"
      using assms(2) r by (intro one_live_unique) (auto simp: objects_ok_def)
    then have "set (filter ?hit (od_objects ?db)) = {r}" by simp
    then have "x = r" if "x \<in> set (od_objects ?db)" "?hit x" for x
      using that by auto
    then have "unlocked t ?hit ?db" if "\<not> locks t r"
      using that by (auto simp: unlocked_def)
    with Inr False r(3) assms(3,4) show ?thesis
      by (auto simp: checkOverwriteProtection_def get_object_at_def wp intro!: wp_protection [OF assms(1)])
  qed
qed (use assms(3) in \<open>simp add: checkOverwriteProtection_def wp\<close>)

text \<open>The result of an action keeps the lock, whether it succeeds or fails.\<close>

abbreviation wp_locked :: "int \<Rightarrow> instant \<Rightarrow> objects_db \<Rightarrow> ('s, 'a) act \<Rightarrow> 's vault \<Rightarrow> bool" where
  "wp_locked i t db m v \<equiv> wp m (\<lambda>_ v'. lock_kept i t db (ev_db (va_events v'))) (\<lambda>_ v'. lock_kept i t db (ev_db (va_events v'))) v"

lemma wp_locked_steps:
  assumes "steps (lock_kept i t) m" "lock_kept i t db (ev_db (va_events v))"
  shows "wp_locked i t db m v"
proof -
  have "lock_kept i t db (ev_db (va_events (fst (m v))))" using assms by (metis steps_def lock_kept_trans)
  then show ?thesis by (cases "m v") (simp add: wp_def split: sum.split)
qed

lemma wp_locked_stmt:
  assumes "lock_kept i t db (ev_db (va_events (fst (m v))))" "\<And>x. steps (lock_kept i t) (f x)"
  shows "wp_locked i t db (then_do m f) v"
proof -
  obtain v' r where run: "m v = (v', r)" by (cases "m v")
  with assms show ?thesis unfolding wp by (auto simp: wp_def [of m] run split: sum.split intro: wp_locked_steps)
qed

lemma wp_locked_then:
  assumes "wp_locked i t db m v" "\<And>x. tables_kept (f x)"
  shows "wp_locked i t db (then_do m f) v"
  using assms(1) unfolding wp by (rule wp_mono) (auto intro!: wp_kept assms(2) intro: lock_kept_trans lock_kept_same)

lemma wp_locked_kept: "tables_kept m \<Longrightarrow> db = ev_db (va_events v) \<Longrightarrow> wp_locked i t db m v"
  by (intro wp_kept) (auto simp: lock_kept_same)

lemma wp_writePut_locked:
  assumes "bc_Versioning bcfg \<or> unlocked t (live_at (defaultTenant (o_TenantID obj)) (o_Bucket obj) (o_Key obj)) db" "db = ev_db (va_events v)"
  shows "wp_locked i t db (writePutObject s env ctx obj bcfg u opts) v"
  unfolding writePutObject_def
proof (rule wp_locked_stmt)
  show "lock_kept i t db (ev_db (va_events (fst (wrapping (\<lambda>e. Errorf ''repo write'' [e]) (write_objects (\<lambda>db.
        if bc_Versioning bcfg then InsertObjectVersion (en_sql env ''write'') (en_clk env) (en_vid env) db obj
        else UpsertObject (en_sql env ''write'') (en_clk env) (en_vid env) db obj)) v))))"
    using assms lock_kept_version [of i t db "en_sql env ''write''" "en_clk env" "en_vid env" obj]
      lock_kept_upsert [of t obj db i "en_sql env ''write''" "en_clk env" "en_vid env"]
    by (auto simp: wrapping_def write_objects_def set_objects_def split: prod.split)
qed (auto intro!: lock.steps_rules lock_kept_columns lock_kept_holds)

lemma wp_put_bytes_locked:
  assumes "bc_Versioning bcfg \<or> unlocked t (live_at (defaultTenant tenant) bucket key) db" "db = ev_db (va_events v)"
  shows "wp_locked i t db (put_bytes s env ctx tenant bucket key body sz bcfg u opts) v"
proof -
  have stored: "wp_locked i t db (writePutObject s env ctx (buildPutObject s env key tenant bucket bcfg opts sk info) bcfg u opts) v'"
    if "va_events v' = va_events v" for v' sk info
    by (rule wp_writePut_locked) (use assms that in \<open>simp_all add: buildPutObject_def Let_def\<close>)
  show ?thesis
    unfolding put_bytes_def Let_def wp using assms(2)
    by (intro wp_kept stored) (auto intro!: kept lock_kept_same split: sum.split)
qed

lemma wp_Put_locked:
  assumes "before_lock t env" "objects_ok (ev_db (va_events v))"
  shows "wp_locked i t (ev_db (va_events v)) (svc_Put s env ctx tenant0 bucket0 key body sz opts) v"
proof -
  obtain tenant bucket where d: "defaults tenant0 bucket0 = (tenant, bucket)" by (cases "defaults tenant0 bucket0")
  let ?ok = "\<lambda>v'. lock_kept i t (ev_db (va_events v)) (ev_db (va_events v'))"
  have ok: "?ok v'" if "va_events v' = va_events v" for v' using that by (simp add: lock_kept_same)
  have guarded: "wp_locked i t (ev_db (va_events v)) (then_do (checkOverwriteProtection env tenant bucket key (bc_Versioning bcfg)) (\<lambda>_.
        then_do (objectWriteUsage_of env tenant bucket key (bc_Versioning bcfg)) (\<lambda>u.
        then_do (preflightQuota s env ''quota'' tenant (fst (deltas u n)) (snd (deltas u n))) (\<lambda>_.
        then_do (preflightBucketQuota env tenant bucket (fst (deltas u n)) (snd (deltas u n))) (\<lambda>_.
        put_bytes s env ctx tenant bucket key body n bcfg u opts'))))) v'"
    if v': "va_events v' = va_events v" for v' bcfg n opts'
  proof -
    have stored: "wp_locked i t (ev_db (va_events v)) (put_bytes s env ctx tenant bucket key body n bcfg u opts') w"
      if "va_events w = va_events v" "bc_Versioning bcfg \<or> unlocked t (live_at (defaultTenant tenant) bucket key) (ev_db (va_events v'))" for w u
      by (rule wp_put_bytes_locked) (use that v' in simp_all)
    show ?thesis
      by (rule wp_thenI, rule wp_overwrite [OF assms(1)]) (use assms(2) v' ok in \<open>auto intro!: wp_thenI wp_kept [where m = "objectWriteUsage_of _ _ _ _ _"]
          wp_kept [where m = "preflightQuota _ _ _ _ _ _"] wp_kept [where m = "preflightBucketQuota _ _ _ _ _"] kept stored\<close>)
  qed
  show ?thesis
    unfolding svc_Put_def d prod.case
    by (rule guarded wp_thenI wp_case_sum kept | (rule wp_kept, rule kept) | simp add: wp ok)+
qed

lemma wp_versionsForHardDelete:
  assumes "before_lock t env"
    and "\<And>vs v'. va_events v' = va_events v \<Longrightarrow> unlocked t (at_key (defaultTenant tenant) bucket key) (ev_db (va_events v)) \<Longrightarrow> Q vs v'"
    and "\<And>e v'. va_events v' = va_events v \<Longrightarrow> E e v'"
  shows "wp (versionsForHardDelete env tenant bucket key current) Q E v"
proof -
  let ?rows = "newest_first (en_sql env ''versions'') (filter (at_key (defaultTenant tenant) bucket key) (od_objects (ev_db (va_events v))))"
  have rows: "unlocked t (at_key (defaultTenant tenant) bucket key) (ev_db (va_events v))" if "\<forall>r \<in> set ?rows. \<not> locks t r"
    using that by (auto simp: unlocked_def newest_first_set)
  show ?thesis
  proof (cases "fault (en_sql env ''versions'') ''list versions''")
    case None
    show ?thesis
    proof (cases "?rows = []")
      case True
      then have "unlocked t (at_key (defaultTenant tenant) bucket key) (ev_db (va_events v))" by (intro rows) simp
      with True None assms(2,3) show ?thesis
        by (simp add: versionsForHardDelete_def ListObjectVersions_def stmt_def wp Let_def) (rule wp_kept [OF still_protection(1) [THEN still_kept]], simp_all add: wp)
    next
      case False
      with None assms(2,3) rows show ?thesis
        by (simp add: versionsForHardDelete_def ListObjectVersions_def stmt_def wp Let_def) (rule wp_protect_all [OF assms(1)], simp_all add: wp)
    qed
  qed (use assms(3) in \<open>simp add: versionsForHardDelete_def ListObjectVersions_def stmt_def wp\<close>)
qed

lemma wp_hardDelete_locked:
  assumes "before_lock t env" "db = ev_db (va_events v)"
  shows "wp_locked i t db (hardDeleteObject s env ctx obj tenant bucket key) v"
proof -
  let ?f = "\<lambda>db. HardDeleteObjectWithEvent (fs_version s) (en_sql env ''hard delete'') (en_now env) (en_now env) db tenant bucket key
        (deleteAuditEntry ctx obj tenant True) (deleteFacts s ctx obj tenant)"
  have guarded: "wp_locked i t db (then_do (exec_events ?f) g) w"
    if "va_events w = va_events v" "unlocked t (at_key (defaultTenant tenant) bucket key) (ev_db (va_events v))" "\<And>x. steps (lock_kept i t) (g x)"
    for w g
  proof (rule wp_locked_stmt)
    show "lock_kept i t db (ev_db (va_events (fst (exec_events ?f w))))"
      using lock_kept_hard [OF that(2)] that(1) assms(2) by (simp add: exec_events_def split: prod.split) (metis fst_conv)
  qed (rule that(3))
  have ok: "lock_kept i t db (ev_db (va_events w))" if "va_events w = va_events v" for w
    using that assms(2) by (simp add: lock_kept_same)
  show ?thesis
    unfolding hardDeleteObject_def hardDeleteObjectWithVersions_def
    by (rule guarded wp_versionsForHardDelete [OF assms(1)] wp_thenI kept | (rule wp_kept, rule kept) | rule ok | simp
      | (auto intro!: lock.steps_rules split: prod.split)[1])+
qed

lemma wp_objectVersion_row:
  assumes "vid \<noteq> []"
    and "\<And>r rs t b. defaults tenant bucket = (t, b) \<Longrightarrow> filter (is_version t b key vid) (od_objects (ev_db (va_events v))) = r # rs \<Longrightarrow> Q (scanObject r) v"
    and "\<And>e. E e v"
  shows "wp (objectVersion env tenant bucket key vid) Q E v"
proof (cases "validateKey key")
  case None
  obtain t b where d: "defaults tenant bucket = (t, b)" by (cases "defaults tenant bucket")
  then have t: "defaultTenant t = t" using defaults_nonempty by blast
  have "Q obj v" if "GetObjectVersion env' (ev_db (va_events v)) t b key vid = Inr obj" for obj env'
    using that assms(2) [OF d] by (auto simp: GetObjectVersion_def get_object_def t go_simps not_found_def split: sum.splits if_splits)
  with None d assms(1,3) show ?thesis
    by (auto simp: objectVersion_def checkedObjectDefaults_def ok_or_def wp split: sum.split)
qed (simp add: objectVersion_def checkedObjectDefaults_def ok_or_def wp assms(3))

lemma version_row:
  "filter (is_version t b key vid) rows = r # rs \<Longrightarrow> r \<in> set rows \<and> o_TenantID r = t \<and> o_Bucket r = b \<and> o_Key r = key \<and> o_VersionID r = vid"
  by (drule filter_hd) (simp add: is_version_def at_key_def)

lemma wp_DeleteVersion_locked:
  assumes "before_lock t env" "objects_ok db" "db = ev_db (va_events v)" "vid \<noteq> []"
  shows "wp_locked i t db (DeleteVersion s env ctx tenant0 bucket0 key vid) v"
proof -
  obtain tenant bucket where d: "defaults tenant0 bucket0 = (tenant, bucket)" by (cases "defaults tenant0 bucket0")
  note d' = defaults_nonempty [OF d]
  have ok: "lock_kept i t db (ev_db (va_events w))" if "va_events w = va_events v" for w
    using that assms(3) by (simp add: lock_kept_same)
  have delete: "wp_locked i t db (exec_objects (\<lambda>db. DeleteObjectVersion (en_sql env ''delete version'') db
        (o_TenantID (scanObject r)) (o_Bucket (scanObject r)) (o_Key (scanObject r)) (o_VersionID (scanObject r)))) w"
    if "va_events w = va_events v" "filter (is_version tenant bucket key vid) (od_objects db) = r # rs" "\<not> locks t r" for w r rs
    using lock_kept_deleteVersion [of "o_TenantID r" "o_Bucket r" "o_Key r" "o_VersionID r" db r rs t i "en_sql env ''delete version''"]
      version_row [OF that(2)] that d' assms(2,3)
    by (auto simp: wp_def exec_objects_def set_objects_def ok_or_def split: prod.split option.split)
  have row: "wp_locked i t db
      (then_do (authorizeObject s env ctx ActionDelete (scanObject r)) (\<lambda>_.
       then_do (checkObjectProtection env (scanObject r)) (\<lambda>_.
       then_do (preflightQuota s env ''quota'' (o_TenantID (scanObject r)) 0 0) (\<lambda>_.
       then_do (read_objects (\<lambda>db. ListObjectVersions (en_sql env ''versions'') db (o_TenantID (scanObject r)) (o_Bucket (scanObject r)) (o_Key (scanObject r)))) (\<lambda>versions.
       then_do (deleteVersionData s env ctx (scanObject r)
         \<lparr>cref_TenantID = tenant, cref_Bucket = bucket, cref_Key = key, cref_ObjectID = o_ID (scanObject r)\<rparr>) (\<lambda>_.
       finishVersionDelete s env ctx (scanObject r) (case versions of [] \<Rightarrow> False | v # _ \<Rightarrow> o_ID v = o_ID (scanObject r)))))))) v"
    if r: "filter (is_version tenant bucket key vid) (od_objects db) = r # rs" for r rs
  proof -
    have data: "wp_locked i t db (then_do (deleteVersionData s env ctx (scanObject r) ref) (\<lambda>_. finishVersionDelete s env ctx (scanObject r) cur)) w"
      if "va_events w = va_events v" "\<not> locks t r" for w ref cur
    proof (rule wp_locked_then [where m = "deleteVersionData s env ctx (scanObject r) ref"])
      show "wp_locked i t db (deleteVersionData s env ctx (scanObject r) ref) w"
        unfolding deleteVersionData_def using that
        by (intro wp_thenI wp_kept delete [OF _ r]) (auto intro!: kept ok)
    qed (rule kept)
    show ?thesis
      by (rule data wp_protection [OF assms(1)] wp_thenI kept | (rule wp_kept, rule kept) | rule ok | simp)+
  qed
  show ?thesis
    unfolding DeleteVersion_def d prod.case
    by (rule wp_thenI, rule wp_objectVersion_row [OF assms(4)]) (use row ok d' assms(3) in \<open>auto\<close>)
qed

lemma wp_Retention_locked:
  assumes "before_lock t env" "objects_ok db" "db = ev_db (va_events v)"
  shows "wp_locked i t db (svc_SetObjectRetention s env ctx tenant bucket key vid mode until) v"
proof -
  have ok: "lock_kept i t db (ev_db (va_events w))" if "va_events w = va_events v" for w
    using that assms(3) by (simp add: lock_kept_same)
  have set: "wp_locked i t db (exec_objects (\<lambda>db. SetObjectRetention (en_sql env ''retention'') db (o_ID (scanObject r)) until m)) w"
    if "va_events w = va_events v" "r \<in> set (od_objects db)" "\<not> (case o_LockedUntil (scanObject r) of None \<Rightarrow> False | Some u \<Rightarrow> u > until)" for w r m
  proof -
    have "t \<le> until" if "locks t r"
      using that \<open>\<not> (case _ of None \<Rightarrow> _ | Some u \<Rightarrow> _ u)\<close> assms(1)
      by (auto simp: locks_def scanObject_def flexNullTime_def before_lock_def split: option.splits if_splits)
    moreover have "column_time (en_sql env ''retention'') t = t" using assms(1) by (simp add: before_lock_def)
    ultimately have "lock_kept i t db (fst (SetObjectRetention (en_sql env ''retention'') db (o_ID r) until m))"
      using that(2) assms(2) by (intro lock_kept_retention)
    with that(1) assms(3) show ?thesis
      by (auto simp: wp_def exec_objects_def set_objects_def ok_or_def split: prod.split option.split)
  qed
  have tail: "wp_locked i t db (then_do (check (fails (case o_LockedUntil (scanObject r) of None \<Rightarrow> False | Some u \<Rightarrow> u > until) locked_error)) (\<lambda>_.
      then_do (wrapping service_not_found (exec_objects (\<lambda>db. SetObjectRetention (en_sql env ''retention'') db (o_ID (scanObject r)) until m))) (\<lambda>_.
      return x))) w"
    if "va_events w = va_events v" "r \<in> set (od_objects db)" for w r m x
  proof (cases "case o_LockedUntil (scanObject r) of None \<Rightarrow> False | Some u \<Rightarrow> u > until")
    case True
    with ok [OF that(1)] show ?thesis by (simp add: wp fails_def)
  next
    case False
    from set [OF that False] have "wp_locked i t db (then_do (wrapping service_not_found
        (exec_objects (\<lambda>db. SetObjectRetention (en_sql env ''retention'') db (o_ID (scanObject r)) until m))) (\<lambda>_. return x)) w"
      by (intro wp_locked_then kept) (simp only: wp)
    with False show ?thesis unfolding wp_then_do [of "check _"] by (simp add: wp_check fails_def)
  qed
  have object: "wp_locked i t db (then_do (authorizeObject s env ctx ActionWrite (scanObject r)) (\<lambda>_.
      then_do (check (fails (case o_LockedUntil (scanObject r) of None \<Rightarrow> False | Some u \<Rightarrow> u > until) locked_error)) (\<lambda>_.
      then_do (wrapping service_not_found (exec_objects (\<lambda>db. SetObjectRetention (en_sql env ''retention'') db (o_ID (scanObject r)) until m))) (\<lambda>_.
      return x)))) w"
    if "va_events w = va_events v" "r \<in> set (od_objects db)" for w r m x
    by (rule wp_thenI, rule wp_kept [OF still_access(1) [THEN still_kept]], rule tail) (use that in \<open>auto intro!: ok\<close>)
  show ?thesis
    unfolding svc_SetObjectRetention_def Let_def
    by (rule wp_thenI, rule wp_kept, rule kept, rule wp_thenI, rule wp_objectVersion, rule object) (use assms(3) in \<open>auto intro!: ok\<close>)
qed

section \<open>Histories\<close>

text \<open>The tables are well-formed, and row \<open>i\<close> exists under its key and is locked until \<open>t\<close> or later.\<close>

definition object_locked :: "int \<Rightarrow> string \<times> string \<times> string \<Rightarrow> instant \<Rightarrow> objects_db \<Rightarrow> bool" where
  "object_locked i res t db \<longleftrightarrow> objects_ok db \<and> (\<exists>r \<in> set (od_objects db). o_ID r = i \<and> resource_of r = res \<and> locks t r)"

text \<open>A request that names its version, if it deletes one, and comes before the end of the retention.\<close>

fun named_version :: "svc_op \<Rightarrow> bool" where
  "named_version (SvcDeleteVersion t b k v) \<longleftrightarrow> v \<noteq> []"
| "named_version _ \<longleftrightarrow> True"

lemma wp_locked_fst: "wp_locked i t db m v \<Longrightarrow> lock_kept i t db (ev_db (va_events (fst (m v))))"
  by (cases "m v") (simp add: wp_def split: sum.splits)

lemma wp_delete_locked:
  assumes "before_lock t env" "db = ev_db (va_events v)"
  shows "wp_locked i t db (DeleteWithAction s env ctx tenant0 bucket0 key hard a) v"
proof -
  have ok: "lock_kept i t db (ev_db (va_events w))" if "va_events w = va_events v" for w
    using that assms(2) by (simp add: lock_kept_same)
  have delete: "wp_locked i t db (if hard then hardDeleteObject s env ctx x tenant bucket key else softDeleteObject s env ctx x tenant bucket key) w"
    if "va_events w = va_events v" for x tenant bucket w
    using wp_hardDelete_locked [OF assms(1), of db w] wp_locked_steps [OF lock.steps_softDelete ok [OF that]] that assms(2) by (cases hard) simp_all
  show ?thesis
    unfolding DeleteWithAction_def
    by (rule wp_case_sum, simp add: wp ok, simp split: prod.split, intro allI impI)
      (rule delete wp_thenI kept | (rule wp_kept, rule kept) | rule ok | simp)+
qed

lemma svc_exec_lock_kept:
  assumes "before_lock t env" "objects_ok (ev_db (va_events v))" "named_version op"
  shows "lock_kept i t (ev_db (va_events v)) (ev_db (va_events (fst (svc_exec s env ctx op v))))"
proof -
  have ignore: "wp_locked i t db (ignoring m) v" if "wp_locked i t db m v" for db and m :: "('a, 'b) act"
    using that by (intro wp_locked_then kept)
  have remove: "steps (lock_kept i t) (svc_RemoveLegalHold s env ctx a b c d)" for a b c d
    unfolding svc_RemoveLegalHold_def by (auto intro!: lock.steps_rules lock_kept_holds)
  show ?thesis
  proof (rule wp_locked_fst, cases op)
    case (SvcDelete a b c d e)
    then show "wp_locked i t (ev_db (va_events v)) (svc_exec s env ctx op) v" using wp_delete_locked [OF assms(1) refl] by simp
  next
    case (SvcDeleteVersion a b c d)
    then show "wp_locked i t (ev_db (va_events v)) (svc_exec s env ctx op) v" using wp_DeleteVersion_locked [OF assms(1,2) refl] assms(3) by simp
  qed (simp_all only: svc_exec.simps, (rule ignore, rule wp_Put_locked [OF assms(1,2)] wp_Retention_locked [OF assms(1,2) refl]
      | rule wp_locked_steps remove lock.steps_marker lock.steps_restore lock.steps_updates lock.steps_rules | simp)+)
qed

text \<open>
  C2. Retention is write-once: whatever history of requests the service executes before the instant
  \<open>t\<close>, with any failures of database, backend and cleaner, a version locked until \<open>t\<close> or later keeps its
  row, under the same tenant, bucket and key, and its lock never ends before \<open>t\<close>.  (A request that
  deletes a version names it, \<open>t\<close> is an instant the column can hold, and the driver does not report
  missing rows when it fails.)
\<close>

theorem retention_survives:
  assumes "object_locked i res t (ev_db (va_events v))"
    and "\<And>env ctx op. (env, ctx, op) \<in> set ops \<Longrightarrow> before_lock t env \<and> named_version op"
  shows "object_locked i res t (ev_db (va_events (svc_run s ops v)))"
proof (rule svc_run_invariant [of "\<lambda>v. object_locked i res t (ev_db (va_events v))"])
  fix env ctx op and v :: "'a vault"
  assume op: "(env, ctx, op) \<in> set ops" and locked: "object_locked i res t (ev_db (va_events v))"
  then have "lock_kept i t (ev_db (va_events v)) (ev_db (va_events (fst (svc_exec s env ctx op v))))"
    using assms(2) by (intro svc_exec_lock_kept) (auto simp: object_locked_def)
  moreover have "objects_ok (ev_db (va_events (fst (svc_exec s env ctx op v))))"
    using svc_exec_evolves [of op v s env ctx] locked by (simp add: evolves_def object_locked_def)
  ultimately show "object_locked i res t (ev_db (va_events (fst (svc_exec s env ctx op v))))"
    using locked by (auto simp: object_locked_def lock_kept_def)
qed (rule assms(1))

end
