(* ===== verification/File_Protection.thy ===== *)
theory File_Protection
  imports File_Retention
begin

text \<open>
  Requests that would remove or overwrite the row of a protected object fail before they touch anything but
  the list of buckets.
\<close>

section \<open>Protected objects\<close>

text \<open>Retention in the future, a hold in the metadata, or a row of legal holds.\<close>

definition shielded :: "instant \<Rightarrow> objects_db \<Rightarrow> objects_row \<Rightarrow> bool" where
  "shielded now db r \<longleftrightarrow>
     retention_locked now (scanObject r) \<or> kv_get (o_Metadata (scanObject r)) ''_aero_legal_hold'' = ''ON'' \<or> o_ID r \<in> set (held_ids db)"

lemma wp_protection_refuses:
  assumes "shielded (en_now env) (ev_db (va_events v)) r" "\<And>e. E e v"
  shows "wp (checkObjectProtection env (scanObject r)) Q E v"
proof -
  have "filter (\<lambda>h. hr_object_id h = o_ID r) (od_holds (ev_db (va_events v))) \<noteq> []" if "o_ID r \<in> set (held_ids (ev_db (va_events v)))"
    using that by (auto simp: held_ids_def filter_empty_conv)
  with assms show ?thesis
    by (auto simp: checkObjectProtection_def shielded_def ObjectHasLegalHold_def stmt_def wp split: option.split)
qed

lemma wp_protect_all_refuses:
  assumes "r \<in> set rows" "shielded (en_now env) (ev_db (va_events v)) r" "\<And>e. E e v"
  shows "wp (protect_all env (map scanObject rows)) Q E v"
  using assms(1)
proof (induction rows)
  case (Cons x rows)
  show ?case
  proof (cases "x = r")
    case True
    then show ?thesis using assms(2,3) by (auto simp: wp intro!: wp_protection_refuses)
  next
    case False
    with Cons have "wp (protect_all env (map scanObject rows)) Q E v" by simp
    then show ?thesis using assms(3) by (auto simp: wp intro!: wp_stillI [OF still_protection(1)])
  qed
qed simp

lemma wp_versions_refuse:
  assumes "r \<in> set (od_objects (ev_db (va_events v)))" "at_key (defaultTenant tenant) bucket key r"
    "shielded (en_now env) (ev_db (va_events v)) r" "\<And>e. E e v"
  shows "wp (versionsForHardDelete env tenant bucket key current) Q E v"
proof -
  let ?rows = "newest_first (en_sql env ''versions'') (filter (at_key (defaultTenant tenant) bucket key) (od_objects (ev_db (va_events v))))"
  have r: "r \<in> set ?rows" using assms(1,2) by (simp add: newest_first_set)
  then have "?rows \<noteq> []" by auto
  moreover have "wp (protect_all env (map scanObject ?rows)) Q' E v" for Q'
    by (rule wp_protect_all_refuses) (use r assms(3,4) in simp_all)
  ultimately show ?thesis using assms(4)
    by (auto simp: versionsForHardDelete_def ListObjectVersions_def stmt_def wp Let_def split: option.split)
qed

lemma wp_overwrite_refuses:
  assumes "objects_ok (ev_db (va_events v))" "r \<in> set (od_objects (ev_db (va_events v)))" "live_at (defaultTenant tenant) bucket key r"
    "shielded (en_now env) (ev_db (va_events v)) r" "honest (en_sql env ''overwrite'')" "\<And>e. E e v"
  shows "wp (checkOverwriteProtection env tenant bucket key False) Q E v"
proof -
  let ?db = "ev_db (va_events v)"
  have row: "filter (live_at (defaultTenant tenant) bucket key) (od_objects ?db) = [r]"
    using assms(1-3) by (intro one_live_unique) (auto simp: objects_ok_def)
  show ?thesis
  proof (cases "GetObject (en_sql env ''overwrite'') ?db tenant bucket key")
    case (Inl e)
    then have "\<not> repositoryObjectMissing e" using missing_no_row [OF assms(5)] row by (fastforce simp: GetObject_def)
    with Inl assms(6) show ?thesis by (simp add: checkOverwriteProtection_def get_object_at_def wp)
  next
    case (Inr obj)
    then have "obj = scanObject r" using row by (auto simp: GetObject_def get_object_def go_simps not_found_def split: sum.splits if_splits)
    with Inr assms(4,6) show ?thesis
      by (auto simp: checkOverwriteProtection_def get_object_at_def wp intro!: wp_protection_refuses)
  qed
qed

text \<open>
  The requests that would remove the row \<open>r\<close> or write over it: a hard deletion of its key, a deletion of
  its version, and, when \<open>r\<close> is the current row of its key, a write of that same key in a bucket without
  versioning.  A write that reaches the blob of \<open>r\<close> by another way is not among them: through another key
  with the same storage key, or after a soft deletion, when \<open>r\<close> is no longer current.  The code does not
  refuse those (\<open>locked_bytes_replaced_by_alias\<close> and \<open>locked_bytes_replaced\<close> of the examples).
\<close>

fun replaces_row :: "objects_row \<Rightarrow> 's vault \<Rightarrow> svc_op \<Rightarrow> bool" where
  "replaces_row r v (SvcDelete t b k hard a) \<longleftrightarrow> hard \<and> resource_of r = (fst (defaults t b), snd (defaults t b), k)"
| "replaces_row r v (SvcDeleteVersion t b k vid) \<longleftrightarrow>
     resource_of r = (fst (defaults t b), snd (defaults t b), k) \<and> vid = o_VersionID r \<and> vid \<noteq> []
     \<and> filter (\<lambda>x. resource_of x = resource_of r \<and> o_VersionID x = vid) (od_objects (ev_db (va_events v))) = [r]"
| "replaces_row r v (SvcPut t b k body sz opts) \<longleftrightarrow>
     is_live r \<and> resource_of r = (fst (defaults t b), snd (defaults t b), k)
     \<and> list_all (\<lambda>c. at_bucket (fst (defaults t b)) (snd (defaults t b)) c \<longrightarrow> \<not> bc_Versioning c) (va_buckets v)"
| "replaces_row r v _ \<longleftrightarrow> False"

text \<open>Nothing differs but rows of new buckets, which a write creates before it looks at the object.\<close>

definition untouched :: "'s vault \<Rightarrow> 's vault \<Rightarrow> bool" where
  "untouched v v' \<longleftrightarrow> va_events v' = va_events v \<and> va_quotas v' = va_quotas v \<and> va_tenants v' = va_tenants v \<and> va_store v' = va_store v
     \<and> va_published v' = va_published v \<and> va_cleaned v' = va_cleaned v
     \<and> (\<exists>made. va_buckets v' = va_buckets v @ map (\<lambda>(t, b). new_bucket t b) made)"

lemma untouched_refl [simp]: "untouched v v"
  by (simp add: untouched_def exI [of _ "[]"])

lemma untouched_grow: "untouched v w \<Longrightarrow> untouched v (w\<lparr>va_buckets := va_buckets w @ [new_bucket t b]\<rparr>)"
  by (auto simp: untouched_def intro: exI [of _ "_ @ [(t, b)]"])

lemma wp_Put_refuses:
  assumes "objects_ok (ev_db (va_events v))" "r \<in> set (od_objects (ev_db (va_events v)))" "shielded (en_now env) (ev_db (va_events v)) r"
    "honest (en_sql env ''overwrite'')" "replaces_row r v (SvcPut t b k body sz opts)"
  shows "wp (svc_Put s env ctx t b k body sz opts) (\<lambda>_ _. False) (\<lambda>_. untouched v) v"
proof -
  obtain tenant bucket where d: "defaults t b = (tenant, bucket)" by (cases "defaults t b")
  have live: "live_at (defaultTenant tenant) bucket k r"
    using assms(5) d defaults_nonempty [OF d] by (simp add: live_at_def at_key_resource)
  define P where "P w \<longleftrightarrow> untouched v w \<and> list_all (\<lambda>c. at_bucket tenant bucket c \<longrightarrow> \<not> bc_Versioning c) (va_buckets w)" for w
  have overwrite: "wp (checkOverwriteProtection env tenant bucket k ver) Q E w" if "\<not> ver" "P w" "\<And>e. E e w" for w Q E ver
    using that assms(1-4) live by (auto simp: untouched_def P_def intro!: wp_overwrite_refuses)
  have unversioned: "\<not> bc_Versioning (new_bucket t b)" for t b by (simp add: new_bucket_def zero_bucket_def)
  have create: "wp (wrapping f (exec_buckets (\<lambda>db. CreateBucket env' db tenant bucket))) Q E w"
    if "P w" "\<And>x w. P w \<Longrightarrow> Q x w" "\<And>e w. P w \<Longrightarrow> E e w" for w env' Q E f
  proof -
    have "wp (exec_buckets (\<lambda>db. CreateBucket env' db tenant bucket)) (\<lambda>_. P) (\<lambda>_. P) w"
      using that(1) untouched_grow [of v w]
      by (auto simp: P_def wp_def exec_buckets_def CreateBucket_def run_def stmt_def ok_or_def unversioned Let_def split: option.split prod.split)
    then show ?thesis unfolding wp by (rule wp_mono) (use that in auto)
  qed
  have config: "wp (wrapping f (\<lambda>v. (v, GetBucketConfig env' (va_buckets v) tenant bucket))) Q E w"
    if "P w" "\<And>c. \<not> bc_Versioning c \<Longrightarrow> Q c w" "\<And>e. E e w" for w env' Q E f
  proof -
    have "\<not> bc_Versioning c" if "GetBucketConfig env' (va_buckets w) tenant bucket = Inr c" for c
      using that \<open>P w\<close> defaults_nonempty [OF d]
      by (auto simp: GetBucketConfig_def P_def query_row_def stmt_def zero_bucket_def list_all_iff Let_def dest!: filter_hd
          split: option.splits list.splits if_splits sum.splits)
    with that show ?thesis by (auto simp: wp split: sum.split)
  qed
  have Pv: "P v" using assms(5) d by (simp add: P_def)
  have untouched: "P w \<Longrightarrow> untouched v w" for w by (simp add: P_def)
  show ?thesis
    unfolding svc_Put_def d prod.case
    by (rule create config overwrite wp_thenI wp_case_sum wp_fail [THEN iffD2] | (rule wp_stillI, rule still) | rule Pv | assumption | erule untouched | simp add: wp untouched)+
qed

lemma wp_delete_refuses:
  assumes "r \<in> set (od_objects (ev_db (va_events v)))" "shielded (en_now env) (ev_db (va_events v)) r" "replaces_row r v (SvcDelete t b k hard a)"
  shows "wp (DeleteWithAction s env ctx t b k hard a) (\<lambda>_ _. False) (\<lambda>_. untouched v) v"
proof -
  obtain tenant bucket where d: "defaults t b = (tenant, bucket)" by (cases "defaults t b")
  have key: "at_key (defaultTenant tenant) bucket k r" and hard: hard
    using assms(3) d defaults_nonempty [OF d] by (simp_all add: at_key_resource)
  have versions: "wp (versionsForHardDelete env tenant bucket k obj) Q (\<lambda>_. untouched v) v" for obj Q
    by (rule wp_versions_refuse) (use assms(1,2) key in simp_all)
  show ?thesis
  proof (cases "validateKey k")
    case None
    show ?thesis
      unfolding DeleteWithAction_def checkedObjectDefaults_def None ok_or_def option.case sum.case d prod.case hardDeleteObject_def
      by (rule versions wp_thenI | (rule wp_stillI, rule still) | simp add: hard hardDeleteObject_def | rule still)+
  qed (simp add: DeleteWithAction_def checkedObjectDefaults_def ok_or_def wp)
qed

lemma wp_deleteVersion_refuses:
  assumes "shielded (en_now env) (ev_db (va_events v)) r" "replaces_row r v (SvcDeleteVersion t b k vid)"
  shows "wp (DeleteVersion s env ctx t b k vid) (\<lambda>_ _. False) (\<lambda>_. untouched v) v"
proof -
  obtain tenant bucket where d: "defaults t b = (tenant, bucket)" by (cases "defaults t b")
  note d' = defaults_nonempty [OF d]
  have row: "filter (is_version tenant bucket k vid) (od_objects (ev_db (va_events v))) = [r]"
    using assms(2) d by (auto simp: is_version_def [abs_def] at_key_resource)
  have protection: "wp (checkObjectProtection env (scanObject r)) Q (\<lambda>_. untouched v) v" for Q
    by (rule wp_protection_refuses) (use assms(1) in simp_all)
  show ?thesis
    unfolding DeleteVersion_def d prod.case
  proof (rule wp_thenI, rule wp_objectVersion_row)
    show "vid \<noteq> []" using assms(2) by auto
    fix x rs t' b' assume "defaults tenant bucket = (t', b')" "filter (is_version t' b' k vid) (od_objects (ev_db (va_events v))) = x # rs"
    then have "x = r" using row d' by simp
    then show "wp (then_do (authorizeObject s env ctx ActionDelete (scanObject x)) (\<lambda>_. then_do (checkObjectProtection env (scanObject x)) (\<lambda>_. f x))) (\<lambda>_ _. False) (\<lambda>_. untouched v) v" for f
      by (simp only:) (rule protection wp_thenI | (rule wp_stillI, rule still) | simp)+
  qed simp
qed

text \<open>
  C3. A protected row is not removed or overwritten: as long as retention, a hold in its metadata or a
  legal hold protects a version, a hard deletion of its key, a deletion of that version and, when it is
  the current row of its key, a write of the same key in a bucket without versioning fail, and stored
  bytes, the objects and event tables, usage counters, events and chunks are as before; the write may
  have created the row of its bucket.  Writes through a key with the same storage key and writes after a
  soft deletion are not covered.
\<close>

theorem protected_object_untouched:
  assumes "objects_ok (ev_db (va_events v))" "r \<in> set (od_objects (ev_db (va_events v)))"
    and "shielded (en_now env) (ev_db (va_events v)) r" "honest (en_sql env ''overwrite'')" "replaces_row r v op"
  shows "\<exists>e v'. svc_exec s env ctx op v = (v', Inl e) \<and> untouched v v'"
proof -
  have "wp (svc_exec s env ctx op) (\<lambda>_ _. False) (\<lambda>_. untouched v) v"
  proof (cases op)
    case (SvcPut t b k body sz opts)
    from wp_Put_refuses [OF assms(1-4) assms(5) [unfolded SvcPut]]
    show ?thesis unfolding SvcPut svc_exec.simps wp_then_do by (rule wp_mono) auto
  next
    case (SvcDelete t b k hard a)
    from wp_delete_refuses [OF assms(2,3) assms(5) [unfolded SvcDelete]] show ?thesis by (simp add: SvcDelete)
  next
    case (SvcDeleteVersion t b k vid)
    from wp_deleteVersion_refuses [OF assms(3) assms(5) [unfolded SvcDeleteVersion]] show ?thesis by (simp add: SvcDeleteVersion)
  qed (use assms(5) in simp_all)
  then show ?thesis by (auto simp: wp_def split: prod.splits sum.splits)
qed

end
