(* ===== verification/File_Quotas.thy ===== *)
theory File_Quotas
  imports File_Protection
begin

text \<open>
  Quotas of tenants: a write through the service without a commercial accountant never takes the used
  bytes or objects of its tenant over the cap.
\<close>

section \<open>Counters are changed by the accounting only\<close>

definition usage_kept :: "('s, 'a) act \<Rightarrow> bool" where
  "usage_kept m \<longleftrightarrow> (\<forall>v. va_quotas (fst (m v)) = va_quotas v)"

lemma wp_usage_kept:
  assumes "usage_kept m" "\<And>x v'. va_quotas v' = va_quotas v \<Longrightarrow> Q x v'" "\<And>e v'. va_quotas v' = va_quotas v \<Longrightarrow> E e v'"
  shows "wp m Q E v"
proof -
  obtain v' r where run: "m v = (v', r)" by (cases "m v")
  moreover have "va_quotas v' = va_quotas v" using assms(1) run unfolding usage_kept_def by (metis fst_conv)
  ultimately show ?thesis using assms(2,3) by (simp add: wp_def split: sum.split)
qed

lemma usage_kept_stmts:
  "usage_kept (exec_store h)" "usage_kept (exec_buckets b)" "usage_kept (exec_objects g)" "usage_kept (write_objects w)" "usage_kept (return x)"
  by (simp_all add: usage_kept_def exec_store_def exec_buckets_def exec_objects_def write_objects_def set_objects_def return_def split: prod.split)

lemma usage_kept_wrapping: "usage_kept m \<Longrightarrow> usage_kept (wrapping f m)"
  by (simp add: usage_kept_def wrapping_def split: prod.split) (metis fst_conv)

text \<open>The size of the stored object is the size that was admitted.\<close>

lemma saved_size:
  "snd (UpsertObject env clk vid db obj) = Inr saved \<Longrightarrow> o_Size saved = o_Size obj"
  "snd (InsertObjectVersion env clk vid db obj) = Inr saved \<Longrightarrow> o_Size saved = o_Size obj"
  by (auto simp: UpsertObject_def InsertObjectVersion_def Let_def returned_def identify_def in_tx_val_def tx_commit_def rbind_Inr stmt_Inr
      split: sum.splits option.splits prod.splits if_splits)

section \<open>Caps\<close>

definition within_caps :: "TenantQuota \<Rightarrow> TenantQuota \<Rightarrow> bool" where
  "within_caps q q' \<longleftrightarrow>
     (tq_MaxBytes q > 0 \<longrightarrow> tq_UsedBytes q' \<le> max (tq_UsedBytes q) (tq_MaxBytes q)) \<and>
     (tq_MaxObjects q > 0 \<longrightarrow> tq_UsedObjects q' \<le> max (tq_UsedObjects q) (tq_MaxObjects q))"

definition admits :: "TenantQuota \<Rightarrow> int \<Rightarrow> int \<Rightarrow> bool" where
  "admits q b n \<longleftrightarrow> checkBytesQuota q b = None \<and> checkObjectsQuota q n = None"

lemma admitted_within:
  assumes "admits q b n" "0 \<le> tq_UsedBytes q" "0 \<le> tq_UsedObjects q" "tq_UsedBytes q + b \<le> Byte_Range.MaxInt64" "tq_UsedObjects q + n \<le> Byte_Range.MaxInt64"
    and "tq_UsedBytes q' = max 0 (tq_UsedBytes q + b)" "tq_UsedObjects q' = max 0 (tq_UsedObjects q + n)"
  shows "within_caps q q'"
proof -
  have "b > 0 \<Longrightarrow> i64 (tq_UsedBytes q + b) = tq_UsedBytes q + b" "n > 0 \<Longrightarrow> i64 (tq_UsedObjects q + n) = tq_UsedObjects q + n"
    using assms(2-5) by (simp_all add: i64_id)
  with assms show ?thesis
    by (auto simp: within_caps_def admits_def checkBytesQuota_def checkObjectsQuota_def fails_def split: if_splits)
qed

lemma wp_preflight:
  assumes "fs_usageAccountant s = None" "honest (en_sql env site)"
    and "admits (usage (va_quotas v) t) b n \<Longrightarrow> Q () v" "\<And>e. E e v"
  shows "wp (preflightQuota s env site t b n) Q E v"
proof -
  have "snd (preflightQuota s env site t b n v) = Inr () \<Longrightarrow> admits (usage (va_quotas v) t) b n"
    using GetTenantQuota_Inr [OF assms(2), of "va_quotas v" t] assms(1)
    by (auto simp: preflightQuota_def admits_def rbind_Inr wrap_err_def ok_or_def split: sum.splits option.splits)
  with assms(3,4) show ?thesis
    using wp_still [of "preflightQuota s env site t b n" v Q E] still_checks(2) [of s env site t b n] by (simp add: still_def split: sum.split)
qed

lemma wp_account:
  assumes "fs_usageAccountant s = None" "deltas u sz = (b, n)" "va_quotas w = quotas"
    and "admits (usage quotas t) b n" "0 \<le> tq_UsedBytes (usage quotas t)" "0 \<le> tq_UsedObjects (usage quotas t)"
    and "tq_UsedBytes (usage quotas t) + b \<le> Byte_Range.MaxInt64" "tq_UsedObjects (usage quotas t) + n \<le> Byte_Range.MaxInt64"
  shows "wp (accountObjectUsage s env t u sz) (\<lambda>_ w'. within_caps (usage quotas t) (usage (va_quotas w') t)) (\<lambda>_ _. True) w"
proof -
  have "within_caps (usage quotas t) (usage (fst r) t)"
    if "r = AddTenantUsage (en_sql env ''add usage'') (en_clk env) quotas t b n" "snd r = Inr q" for r q
    using AddTenantUsage_db(2) [of "en_sql env ''add usage''" "en_clk env" quotas t b n q] that
    by (intro admitted_within [OF assms(4-8)]) (simp_all add: usage_after_counts)
  then show ?thesis
    using assms(1-3) by (auto simp: accountObjectUsage_def wp wp_def [of "addTenantUsage _ _ _ _ _ _"] addTenantUsage_def split: prod.split sum.split)
qed

section \<open>Writes stay within the caps\<close>

text \<open>Counters and sizes are those of 64-bit integers, and adding the body does not overflow.\<close>

definition room :: "TenantQuota \<Rightarrow> string \<Rightarrow> objects_db \<Rightarrow> bool" where
  "room q body db \<longleftrightarrow> 0 \<le> tq_UsedBytes q \<and> 0 \<le> tq_UsedObjects q \<and> tq_UsedBytes q + int (length body) \<le> Byte_Range.MaxInt64
     \<and> tq_UsedObjects q + 1 \<le> Byte_Range.MaxInt64 \<and> list_all (\<lambda>r. 0 \<le> o_Size r \<and> o_Size r \<le> Byte_Range.MaxInt64) (od_objects db)"

definition usage_of :: "objects_db \<Rightarrow> objectWriteUsage \<Rightarrow> bool" where
  "usage_of db u \<longleftrightarrow> ou_newObject u \<or> (\<exists>r \<in> set (od_objects db). ou_previousSize u = o_Size r)"

lemma deltas_bound:
  assumes "room q body db" "usage_of db u" "deltas u (int (length body)) = (b, n)"
  shows "tq_UsedBytes q + b \<le> Byte_Range.MaxInt64" "tq_UsedObjects q + n \<le> Byte_Range.MaxInt64"
proof -
  have "i64 (int (length body) - o_Size r) \<le> int (length body)" if "r \<in> set (od_objects db)" for r
  proof -
    have "0 \<le> o_Size r" "o_Size r \<le> Byte_Range.MaxInt64" "int (length body) \<le> Byte_Range.MaxInt64"
      using assms(1) that by (auto simp: room_def list_all_iff)
    then show ?thesis by (subst i64_id) (auto simp: Byte_Range.MaxInt64_def)
  qed
  then have "b \<le> int (length body)" "n \<le> 1"
    using assms(2,3) by (auto simp: deltas_def usage_of_def split: if_splits)
  with assms(1) show "tq_UsedBytes q + b \<le> Byte_Range.MaxInt64" "tq_UsedObjects q + n \<le> Byte_Range.MaxInt64"
    by (simp_all add: room_def)
qed

lemma wp_objectWriteUsage:
  assumes "\<And>u. usage_of (ev_db (va_events v)) u \<Longrightarrow> Q u v" "\<And>e. E e v"
  shows "wp (objectWriteUsage_of env t b k ver) Q E v"
proof -
  have new: "usage_of db \<lparr>ou_previousSize = 0, ou_newObject = True\<rparr>"
    and row: "r \<in> set (od_objects db) \<Longrightarrow> usage_of db \<lparr>ou_previousSize = o_Size r, ou_newObject = False\<rparr>" for db r
    by (auto simp: usage_of_def)
  with assms show ?thesis by (auto simp: objectWriteUsage_of_def wp intro!: wp_get_object_at)
qed

text \<open>The result of an action is within the caps of the tenant, unless it fails.\<close>

abbreviation wp_within :: "TenantQuota list \<Rightarrow> string \<Rightarrow> ('s, 'a) act \<Rightarrow> 's vault \<Rightarrow> bool" where
  "wp_within quotas t m v \<equiv> wp m (\<lambda>_ v'. within_caps (usage quotas t) (usage (va_quotas v') t)) (\<lambda>_ _. True) v"

lemma wp_within_emit: "within_caps (usage quotas t) (usage (va_quotas w) t) \<Longrightarrow> wp_within quotas t (then_do (emit ctx obj k) (\<lambda>_. return x)) w"
  by (simp add: wp_def then_do_def emit_def return_def)

lemma wp_writePut_within:
  assumes "fs_usageAccountant s = None" "deltas u (o_Size obj) = (b, n)" "va_quotas w = quotas" "o_TenantID obj = t"
    and "admits (usage quotas t) b n" "0 \<le> tq_UsedBytes (usage quotas t)" "0 \<le> tq_UsedObjects (usage quotas t)"
    and "tq_UsedBytes (usage quotas t) + b \<le> Byte_Range.MaxInt64" "tq_UsedObjects (usage quotas t) + n \<le> Byte_Range.MaxInt64"
  shows "wp_within quotas t (writePutObject s env ctx obj bcfg u opts) w"
proof -
  let ?save = "\<lambda>db. if bc_Versioning bcfg then InsertObjectVersion (en_sql env ''write'') (en_clk env) (en_vid env) db obj
        else UpsertObject (en_sql env ''write'') (en_clk env) (en_vid env) db obj"
  have account: "wp_within quotas t (then_do (accountObjectUsage s env t u (o_Size saved)) (\<lambda>_. then_do (emit ctx saved k) (\<lambda>_. return saved))) w'"
    if "o_Size saved = o_Size obj" "va_quotas w' = quotas" for w' saved k
  proof -
    have "deltas u (o_Size saved) = (b, n)" using assms(2) that(1) by simp
    from wp_account [OF assms(1) this that(2) assms(5-9)] show ?thesis
      unfolding wp_then_do [of "accountObjectUsage _ _ _ _ _"] by (rule wp_mono) (auto intro: wp_within_emit)
  qed
  have inserted: "wp (wrapping f (write_objects ?save)) Q (\<lambda>_ _. True) w"
    if "\<And>saved w'. va_quotas w' = quotas \<Longrightarrow> o_Size saved = o_Size obj \<Longrightarrow> Q saved w'" for Q f
  proof -
    obtain db' r where run: "?save (ev_db (va_events w)) = (db', r)" by fastforce
    have "o_Size saved = o_Size obj" if "r = Inr saved" for saved
    proof (cases "bc_Versioning bcfg")
      case True
      then have "snd (InsertObjectVersion (en_sql env ''write'') (en_clk env) (en_vid env) (ev_db (va_events w)) obj) = Inr saved" using run that by simp
      then show ?thesis by (rule saved_size)
    next
      case False
      then have "snd (UpsertObject (en_sql env ''write'') (en_clk env) (en_vid env) (ev_db (va_events w)) obj) = Inr saved" using run that by simp
      then show ?thesis by (rule saved_size)
    qed
    then have "wp (write_objects ?save) Q (\<lambda>_ _. True) w"
      using that assms(3) unfolding wp_def write_objects_def set_objects_def run by (simp split: sum.split)
    then show ?thesis by (simp add: wp_wrapping)
  qed
  have optional: "wp (if c then return () else wrapping f (exec_objects g)) Q (\<lambda>_ _. True) w'"
    if "\<And>w''. va_quotas w'' = va_quotas w' \<Longrightarrow> Q () w''" for c f g Q w'
    by (rule wp_usage_kept) (use that in \<open>auto intro!: usage_kept_stmts usage_kept_wrapping\<close>)
  show ?thesis
    unfolding writePutObject_def assms(4)
    by (rule wp_thenI, rule inserted, rule wp_thenI, rule optional, rule wp_thenI, rule optional, rule account) simp_all
qed

text \<open>The bytes: a size other than the announced one never reaches the row.\<close>

lemma wp_put_bytes_within:
  assumes "fs_usageAccountant s = None" "room (usage quotas t) body db" "usage_of db u" "va_quotas w = quotas"
    and "admits (usage quotas t) (fst (deltas u sz)) (snd (deltas u sz))"
  shows "wp_within quotas t (put_bytes s env ctx t bucket key body sz bcfg u opts) w"
proof -
  let ?sk = "blob_key env bcfg t bucket key"
  have row: "wp_within quotas t (writePutObject s env ctx (buildPutObject s env key t bucket bcfg opts ?sk info) bcfg u opts) w'"
    if "va_quotas w' = quotas" "int (length body) = sz" "oi_Size info = sz" for w' info
  proof -
    obtain b n where d: "deltas u sz = (b, n)" by (cases "deltas u sz")
    have "deltas u (int (length body)) = (b, n)" using d that(2) by simp
    note bound = deltas_bound [OF assms(2,3) this]
    show ?thesis
      by (rule wp_writePut_within [OF assms(1) _ that(1)]) (use d that bound assms(2,5) in \<open>simp_all add: buildPutObject_def Let_def room_def\<close>)
  qed
  have size: "wp (validateStoredSize s ctx ?sk sz (int (length body)) stored') Q (\<lambda>_ _. True) w'"
    if "int (length body) = sz \<Longrightarrow> stored' = sz \<Longrightarrow> Q () w'" for stored' Q w'
    using that by (auto simp: validateStoredSize_def wp discard_blob_def intro!: wp_usage_kept [OF usage_kept_stmts(1)])
  have digest: "wp (if c then return () else then_do (discard_blob s ctx ?sk) (\<lambda>_. fail e)) Q (\<lambda>_ _. True) w'" if "Q () w'" for c Q e w'
    using that by (auto simp: wp discard_blob_def intro!: wp_usage_kept [OF usage_kept_stmts(1)])
  have stored: "wp (exec_store g) Q (\<lambda>_ _. True) w" if "\<And>x w'. va_quotas w' = quotas \<Longrightarrow> Q x w'" for g Q
    by (rule wp_usage_kept [OF usage_kept_stmts(1)]) (use that assms(4) in auto)
  have expected: "wp (if c then return [] else (case x of Inl e \<Rightarrow> fail e' | Inr d \<Rightarrow> return d)) Q (\<lambda>_ _. True) w"
    if "\<And>d. Q d w" for c x e' Q
    using that by (auto simp: wp split: sum.split)
  show ?thesis
    unfolding put_bytes_def Let_def
    by (rule wp_thenI, rule expected, rule wp_thenI, rule stored, rule wp_thenI, rule size, rule wp_thenI, rule digest, rule row)
qed

text \<open>
  C5. Quotas bound what is stored: a write that succeeds, on a service without a commercial accountant,
  leaves the used bytes and the used objects of its tenant at or below the cap, where there is one (or
  below what was used before, when the write shrinks an object of a tenant over its cap).
\<close>

theorem put_within_quota:
  assumes "svc_Put s env ctx tenant bucket key body sz opts v = (v', Inr obj)"
    and "fs_usageAccountant s = None" "honest (en_sql env ''quota'')"
    and "room (usage (va_quotas v) (fst (defaults tenant bucket))) body (ev_db (va_events v))"
  shows "within_caps (usage (va_quotas v) (fst (defaults tenant bucket))) (usage (va_quotas v') (fst (defaults tenant bucket)))"
proof -
  obtain t b where d: "defaults tenant bucket = (t, b)" by (cases "defaults tenant bucket")
  let ?q = "usage (va_quotas v) t" and ?db = "ev_db (va_events v)"
  have room: "room ?q body ?db" using assms(4) d by simp
  define K where "K w \<longleftrightarrow> va_quotas w = va_quotas v \<and> va_events w = va_events v" for w :: "'a vault"
  have create: "wp (wrapping f (exec_buckets g)) Q (\<lambda>_ _. True) w" if "K w" "\<And>x w. K w \<Longrightarrow> Q x w" for f g Q w
    unfolding wp_wrapping using that by (auto simp: wp_def K_def exec_buckets_def split: prod.split sum.split)
  have usage: "wp (objectWriteUsage_of env t b key ver) Q (\<lambda>_ _. True) w" if "K w" "\<And>u. usage_of ?db u \<Longrightarrow> Q u w" for Q w ver
    by (rule wp_objectWriteUsage) (use that in \<open>simp_all add: K_def\<close>)
  have quota: "wp (preflightQuota s env ''quota'' t x n) Q (\<lambda>_ _. True) w" if "K w" "admits ?q x n \<Longrightarrow> Q () w" for x n Q w
    by (rule wp_preflight [OF assms(2,3)]) (use that in \<open>simp_all add: K_def\<close>)
  have stored: "wp_within (va_quotas v) t (put_bytes s env ctx t b key body n bcfg u opts') w"
    if "usage_of ?db u" "K w" "admits ?q (fst (deltas u n)) (snd (deltas u n))" for n bcfg u opts' w
    by (rule wp_put_bytes_within [OF assms(2) room]) (use that in \<open>simp_all add: K_def\<close>)
  have "K v" by (simp add: K_def)
  have "wp_within (va_quotas v) t (svc_Put s env ctx tenant bucket key body sz opts) v"
    unfolding svc_Put_def d prod.case
    by (rule create usage quota stored wp_thenI wp_case_sum wp_fail [THEN iffD2] TrueI | (rule wp_stillI, rule still) | rule still | rule \<open>K v\<close> | assumption)+
  then show ?thesis using assms(1) d by (simp add: wp_def)
qed

end
