(* ===== verification/File_Roundtrip.thy ===== *)
theory File_Roundtrip
  imports File_Quotas Object_Map Local_Roundtrip
begin

text \<open>
  What is written through the file service is what is read back.  The contract of a backend is the
  locale \<open>object_backend\<close>, its instance the local backend.
\<close>

section \<open>The row of a write\<close>

text \<open>What of the object that is written the saved object keeps.\<close>

definition same_row :: "Object \<Rightarrow> Object \<Rightarrow> bool" where
  "same_row obj x \<longleftrightarrow> o_StorageKey x = o_StorageKey obj \<and> o_Metadata x = o_Metadata obj \<and> o_ContentType x = o_ContentType obj \<and> o_ETag x = o_ETag obj"

lemma cur_set_rows:
  assumes "\<And>r. scanObject (f r) = scanObject r \<and> is_live (f r) = is_live r \<and> resource_of (f r) = resource_of r"
  shows "map_option scanObject (cur (set_rows p f rows) res) = map_option scanObject (cur rows res)"
  using assms by (induction rows) (auto simp: set_rows_def)

lemma acl_current: "current (fst (SetObjectACL env db t b k acl)) = current db"
proof -
  have "scanObject (r\<lparr>o_acl := acl\<rparr>) = scanObject r \<and> is_live (r\<lparr>o_acl := acl\<rparr>) = is_live r \<and> resource_of (r\<lparr>o_acl := acl\<rparr>) = resource_of r" for r
    by (simp add: scanObject_def is_live_def resource_of_def Object.defs)
  from cur_set_rows [of "\<lambda>r. r\<lparr>o_acl := acl\<rparr>", OF this] show ?thesis
    by (auto simp: SetObjectACL_def update_found_def current_def fun_eq_iff split: option.split)
qed

lemma hold_current: "current (fst (PutLegalHold env now db l)) = current db"
  by (auto simp: PutLegalHold_def run_def stmt_Inr current_def fun_eq_iff dest: put_hold_objects split: sum.splits)

lemma returned_row:
  "snd (UpsertObject env clk vid db obj) = Inr x \<Longrightarrow> same_row obj x"
  "snd (InsertObjectVersion env clk vid db obj) = Inr x \<Longrightarrow> same_row obj x"
  by (auto simp: same_row_def UpsertObject_def InsertObjectVersion_def Let_def returned_def identify_def in_tx_val_def tx_commit_def rbind_Inr stmt_Inr
      split: sum.splits option.splits prod.splits if_splits)

text \<open>The state after the row: the store of before, and the object as the current one of its key.\<close>

definition row_written :: "sql_env \<Rightarrow> 's \<Rightarrow> string \<times> string \<times> string \<Rightarrow> Object \<Rightarrow> 's vault \<Rightarrow> bool" where
  "row_written env store res x w \<longleftrightarrow> va_store w = store \<and> current (ev_db (va_events w)) res = Some (stored_form env x)"

lemma wp_save:
  assumes "fault_free (en_sql env ''write'')" "objects_ok (ev_db (va_events v))"
    and "\<And>x w. row_written (en_sql env ''write'') (va_store v) (target obj) x w \<Longrightarrow> same_row obj x \<Longrightarrow> Q x w"
  shows "wp (wrapping f (write_objects (\<lambda>db. if bc_Versioning bcfg then InsertObjectVersion (en_sql env ''write'') (en_clk env) (en_vid env) db obj
        else UpsertObject (en_sql env ''write'') (en_clk env) (en_vid env) db obj))) Q (\<lambda>_ _. True) v"
proof -
  let ?db = "ev_db (va_events v)" and ?env = "en_sql env ''write''"
  let ?run = "if bc_Versioning bcfg then InsertObjectVersion ?env (en_clk env) (en_vid env) ?db obj else UpsertObject ?env (en_clk env) (en_vid env) ?db obj"
  obtain x where x: "snd ?run = Inr x" "current (fst ?run) = (current ?db)(target obj \<mapsto> stored_form ?env x)"
    using upsert_current [OF assms(1,2), of "en_clk env" "en_vid env" obj] insert_version_current [OF assms(1), of "en_clk env" "en_vid env" ?db obj]
    by (cases "bc_Versioning bcfg") (auto simp: target_def)
  then have "same_row obj x"
    using returned_row [of ?env "en_clk env" "en_vid env" ?db obj x] by (cases "bc_Versioning bcfg") simp_all
  with x assms(3) [of x "set_objects (fst ?run) v"] show ?thesis
    unfolding wp_wrapping by (cases ?run) (simp add: wp_def write_objects_def row_written_def set_objects_def)
qed

definition store_kept :: "('s, 'a) act \<Rightarrow> bool" where
  "store_kept m \<longleftrightarrow> (\<forall>v. va_store (fst (m v)) = va_store v \<and> current (ev_db (va_events (fst (m v)))) = current (ev_db (va_events v)))"

lemma wp_store_kept:
  assumes "store_kept m" "row_written env store res x w" "\<And>y w. row_written env store res x w \<Longrightarrow> Q y w"
  shows "wp m Q (\<lambda>_ _. True) w"
proof -
  obtain w' r where run: "m w = (w', r)" by (cases "m w")
  moreover have "row_written env store res x w'"
    using assms(1,2) run by (auto simp: store_kept_def row_written_def) (metis fst_conv)+
  ultimately show ?thesis using assms(3) by (simp add: wp_def split: sum.split)
qed

lemma store_kept_then: "store_kept m \<Longrightarrow> (\<And>x. store_kept (f x)) \<Longrightarrow> store_kept (then_do m f)"
  unfolding store_kept_def then_do_def by (auto split: prod.splits sum.splits) (metis fst_conv)+

lemma store_kept_wrapping: "store_kept m \<Longrightarrow> store_kept (wrapping f m)"
  by (simp add: store_kept_def wrapping_def split: prod.split) (metis fst_conv)

lemma store_kept_exec: "(\<And>db. current (fst (g db)) = current db) \<Longrightarrow> store_kept (exec_objects g)"
  by (simp add: store_kept_def exec_objects_def set_objects_def split: prod.split) (metis fst_conv)

lemma store_kept_basic: "store_kept (return x)" "store_kept (emit ctx obj t)" "store_kept (addTenantUsage s env tenant kind b n)"
  by (simp_all add: store_kept_def return_def emit_def addTenantUsage_def split: prod.split)

lemma store_kept_account: "store_kept (accountObjectUsage s env t u n)"
  unfolding accountObjectUsage_def by (auto intro!: store_kept_then store_kept_wrapping store_kept_basic split: prod.split)

lemma wp_writePut_row:
  assumes "fault_free (en_sql env ''write'')" "objects_ok (ev_db (va_events v))"
    and "\<And>x w. row_written (en_sql env ''write'') (va_store v) (target obj) x w \<Longrightarrow> same_row obj x \<Longrightarrow> Q x w"
  shows "wp (writePutObject s env ctx obj bcfg u opts) Q (\<lambda>_ _. True) v"
proof -
  have optional: "store_kept (if c then return () else wrapping f (exec_objects g))" if "\<And>db. current (fst (g db)) = current db" for c f g
    using that by (auto intro: store_kept_wrapping store_kept_exec store_kept_basic)
  show ?thesis
    unfolding writePutObject_def
    by (rule wp_thenI, rule wp_save [OF assms(1,2)], rule wp_thenI, rule wp_store_kept [OF optional [OF acl_current]], assumption,
        rule wp_thenI, rule wp_store_kept [OF optional [OF hold_current]], assumption, rule wp_thenI, rule wp_store_kept [OF store_kept_account], assumption,
        rule wp_thenI, rule wp_store_kept [OF store_kept_basic(2)], assumption) (simp add: wp_return assms(3))
qed

section \<open>The request as it reaches the backend\<close>

text \<open>
  A request without a customer key, whose metadata has no entry that reading treats specially; a content
  digest in it is the one of the request.
\<close>

definition clear_metadata :: "kv \<Rightarrow> bool" where
  "clear_metadata m \<longleftrightarrow> (\<forall>k \<in> {''_aero_scrub_status'', ''_aero_storage_generation'', ''_aero_content_md5''}. map_of m k = None)"

definition plain_request :: "PutRequest \<Rightarrow> bool" where
  "plain_request opts \<longleftrightarrow> pr_SSECustomerKey opts = [] \<and> kv_get (pr_Metadata opts) ssecKeyMD5Meta = []
     \<and> map_of (pr_Metadata opts) ''_aero_scrub_status'' = None \<and> map_of (pr_Metadata opts) ''_aero_storage_generation'' = None
     \<and> kv_get (pr_Metadata opts) ''_aero_content_md5'' = pr_ContentMD5 opts"

lemma reserved_none: "validateMetadata_loop n m = None \<Longrightarrow> reserved_key k \<Longrightarrow> map_of m k = None"
  by (induction n m rule: validateMetadata_loop.induct) (auto split: if_splits)

lemma validated_clear: "validateMetadata m = None \<Longrightarrow> clear_metadata m"
proof -
  have "reserved_key ''_aero_scrub_status''" "reserved_key ''_aero_storage_generation''" "reserved_key ''_aero_content_md5''" by code_simp+
  then show "validateMetadata m = None \<Longrightarrow> clear_metadata m"
    by (auto simp: validateMetadata_def clear_metadata_def dest: reserved_none)
qed

lemma clear_update: "clear_metadata m \<Longrightarrow> k \<notin> {''_aero_scrub_status'', ''_aero_storage_generation'', ''_aero_content_md5''} \<Longrightarrow> clear_metadata (AList.update k x m)"
  by (auto simp: clear_metadata_def update_conv')

lemma clear_delete: "clear_metadata m \<Longrightarrow> clear_metadata (AList.delete k m)"
  by (auto simp: clear_metadata_def delete_conv')

lemma headers_clear:
  assumes "storeContentHeaders opts = Inr opts'" "clear_metadata (pr_Metadata opts)"
  shows "clear_metadata (pr_Metadata opts')" "pr_SSECustomerKey opts' = pr_SSECustomerKey opts"
  using assms by (auto simp: storeContentHeaders_def ok_or_def Let_def clear_update split: option.splits if_splits)

lemma owner_clear: "clear_metadata m \<Longrightarrow> clear_metadata (metadataWithOwner m owner)"
  by (simp add: metadataWithOwner_def clear_update)

lemma ssec_clear:
  assumes "prepareSSECWrite s opts = Inr opts'" "pr_SSECustomerKey opts = []" "clear_metadata (pr_Metadata opts)"
  shows "pr_SSECustomerKey opts' = [] \<and> clear_metadata (pr_Metadata opts') \<and> kv_get (pr_Metadata opts') ssecKeyMD5Meta = []"
  using assms by (auto simp: prepareSSECWrite_def metadataWithoutEncryption_def metadataWithoutManagedSSE_def clear_delete kv_get_def delete_conv' split: if_splits)

lemma sse_clear:
  assumes "prepareServerSideEncryption s opts bcfg = Inr opts'"
    and "pr_SSECustomerKey opts = [] \<and> clear_metadata (pr_Metadata opts) \<and> kv_get (pr_Metadata opts) ssecKeyMD5Meta = []"
  shows "pr_SSECustomerKey opts' = [] \<and> clear_metadata (pr_Metadata opts') \<and> kv_get (pr_Metadata opts') ssecKeyMD5Meta = []"
  using assms by (auto simp: prepareServerSideEncryption_def Let_def metadataWithoutManagedSSE_def clear_delete clear_update kv_get_def delete_conv' update_conv'
      split: if_splits)

lemma request_plain:
  assumes "validateMetadata (pr_Metadata opts0) = None" "pr_SSECustomerKey opts0 = []" "storeContentHeaders opts0 = Inr opts1"
    and "prepareSSECWrite s (opts1\<lparr>pr_Metadata := metadataWithOwner (pr_Metadata opts1) owner\<rparr>) = Inr opts2"
    and "prepareServerSideEncryption s opts2 bcfg = Inr opts3"
  shows "plain_request (storeContentMD5 (opts3\<lparr>pr_StorageClass := c\<rparr>))"
proof -
  note h = headers_clear [OF assms(3) validated_clear [OF assms(1)]]
  have "pr_SSECustomerKey opts3 = [] \<and> clear_metadata (pr_Metadata opts3) \<and> kv_get (pr_Metadata opts3) ssecKeyMD5Meta = []"
    by (rule sse_clear [OF assms(5)], rule ssec_clear [OF assms(4)]) (simp_all add: h assms(2) owner_clear)
  then show ?thesis
    by (auto simp: plain_request_def storeContentMD5_def clear_metadata_def kv_get_def update_conv')
qed

section \<open>The effect of a write\<close>

text \<open>
  The backend has stored the body under the key of the object, the digest of the request is that of the
  body, and the object is the current one of its key.
\<close>

definition put_effect :: "'s FileService \<Rightarrow> svc_env \<Rightarrow> string \<Rightarrow> 's \<Rightarrow> string \<times> string \<times> string \<Rightarrow> Object \<Rightarrow> 's vault \<Rightarrow> bool" where
  "put_effect s env body store res obj w \<longleftrightarrow> (\<exists>c n req info t b k bcfg.
     st_Put (fs_store s) c (o_StorageKey obj) body n (store_options req) store = (va_store w, info, None) \<and> plain_request req
     \<and> (pr_ContentMD5 req = [] \<or> b64_decode (pr_ContentMD5 req) = Inr (fs_md5 s body))
     \<and> same_row (buildPutObject s env k t b bcfg req (o_StorageKey obj) info) obj
     \<and> current (ev_db (va_events w)) res = Some (stored_form (en_sql env ''write'') obj))"

lemma wp_put_bytes_effect:
  assumes "fault_free (en_sql env ''write'')" "objects_ok (ev_db (va_events v))" "plain_request req" "t \<noteq> []"
  shows "wp (put_bytes s env ctx t b k body n bcfg u req) (put_effect s env body (va_store v) (t, b, k)) (\<lambda>_ _. True) v"
proof -
  let ?sk = "blob_key env bcfg t b k" and ?c = "ctx_state.truncate (cx_access ctx)"
  have row: "wp (writePutObject s env ctx (buildPutObject s env k t b bcfg req ?sk info) bcfg u req) (put_effect s env body (va_store v) (t, b, k)) (\<lambda>_ _. True) w"
    if "st_Put (fs_store s) ?c ?sk body n (store_options req) (va_store v) = (va_store w, info, None)" "va_events w = va_events v"
      "pr_ContentMD5 req = [] \<or> b64_decode (pr_ContentMD5 req) = Inr (fs_md5 s body)" for w info
  proof (rule wp_writePut_row [OF assms(1)])
    show "objects_ok (ev_db (va_events w))" using assms(2) that(2) by simp
    let ?obj = "buildPutObject s env k t b bcfg req ?sk info"
    fix x w'
    assume w': "row_written (en_sql env ''write'') (va_store w) (target ?obj) x w'" and x: "same_row ?obj x"
    have "o_StorageKey x = ?sk" "target ?obj = (t, b, k)"
      using x assms(4) by (simp_all add: same_row_def buildPutObject_def Let_def target_def defaultTenant_def)
    with that(1,3) w' x assms(3) show "put_effect s env body (va_store v) (t, b, k) x w'"
      unfolding put_effect_def row_written_def by metis
  qed
  have stored: "wp (exec_store (st_Put (fs_store s) ?c ?sk body n (store_options req))) Q (\<lambda>_ _. True) v"
    if "\<And>info w. st_Put (fs_store s) ?c ?sk body n (store_options req) (va_store v) = (va_store w, info, None) \<Longrightarrow> va_events w = va_events v \<Longrightarrow> Q info w" for Q
    using that by (auto simp: wp_def exec_store_def ok_or_def split: prod.split sum.split option.split)
  have size: "wp (validateStoredSize s ctx ?sk n m stored') Q (\<lambda>_ _. True) w" if "Q () w" for m stored' Q w
    using that by (auto simp: validateStoredSize_def wp discard_blob_def intro!: wp_usage_kept [OF usage_kept_stmts(1)])
  have digest: "wp (if pr_ContentMD5 req = [] \<or> fs_md5 s body = d then return () else then_do (discard_blob s ctx ?sk) (\<lambda>_. fail e)) Q (\<lambda>_ _. True) w"
    if "pr_ContentMD5 req = [] \<or> fs_md5 s body = d \<Longrightarrow> Q () w" for Q e d w
    using that by (auto simp: wp discard_blob_def intro!: wp_usage_kept [OF usage_kept_stmts(1)])
  have expected: "wp (if pr_ContentMD5 req = [] then return [] else (case b64_decode (pr_ContentMD5 req) of Inl e \<Rightarrow> fail e' | Inr d \<Rightarrow> return d)) Q (\<lambda>_ _. True) v"
    if "\<And>d. pr_ContentMD5 req = [] \<or> b64_decode (pr_ContentMD5 req) = Inr d \<Longrightarrow> Q d v" for e' Q
    using that by (auto simp: wp split: sum.split)
  show ?thesis
    unfolding put_bytes_def Let_def
    by (rule wp_thenI, rule expected, rule wp_thenI, rule stored, rule wp_thenI, rule size, rule wp_thenI, rule digest, rule row) auto
qed

lemma wp_validated:
  assumes "validateKey key = None \<Longrightarrow> validateMetadata m = None \<Longrightarrow> Q () v"
  shows "wp (check (first_error [validateKey key, validateMetadata m])) Q (\<lambda>_ _. True) v"
  using assms by (auto simp: wp split: option.split)

lemma wp_access:
  assumes "\<And>owner. Q (metadataWithOwner m owner) v"
  shows "wp (preparePutAccess s env ctx t b k m) Q (\<lambda>_ _. True) v"
proof -
  have granted: "wp (then_do n (\<lambda>_. return (metadataWithOwner m owner))) Q (\<lambda>_ _. True) v" if "still n" for n :: "('a, unit) act" and owner
    by (rule wp_thenI, rule wp_stillI [OF that]) (simp_all add: wp assms)
  have looked: "still (attempt (get_object_at env site t b k))" for site
    by (intro still)
  show ?thesis
    unfolding preparePutAccess_def
    by (rule wp_thenI, rule wp_stillI [OF still_basic(3)], rule wp_thenI, rule wp_stillI [OF looked])
      (auto simp: wp_fail intro!: granted still split: sum.split)
qed

lemma put_leaves:
  assumes "svc_Put s env ctx tenant bucket key body sz opts v = (v', Inr obj)" "pr_SSECustomerKey opts = []"
    and "fault_free (en_sql env ''write'')" "objects_ok (ev_db (va_events v))" "defaults tenant bucket = (t, b)"
  shows "validateKey key = None \<and> put_effect s env body (va_store v) (t, b, key) obj v'"
proof -
  define K where "K w \<longleftrightarrow> va_store w = va_store v \<and> va_events w = va_events v" for w :: "'a vault"
  let ?Q = "\<lambda>obj w. validateKey key = None \<and> put_effect s env body (va_store v) (t, b, key) obj w"
  have create: "wp (wrapping f (exec_buckets g)) Q (\<lambda>_ _. True) w" if "K w" "\<And>x w. K w \<Longrightarrow> Q x w" for f g Q w
    unfolding wp_wrapping using that by (auto simp: wp_def K_def exec_buckets_def split: prod.split sum.split)
  have stored: "wp (put_bytes s env ctx t b key body n bcfg u (storeContentMD5 (opts3\<lparr>pr_StorageClass := cl\<rparr>))) ?Q (\<lambda>_ _. True) w"
    if "K w" "validateKey key = None" "validateMetadata (pr_Metadata opts) = None" "storeContentHeaders opts = Inr opts1"
      "prepareSSECWrite s (opts1\<lparr>pr_Metadata := metadataWithOwner (pr_Metadata opts1) owner\<rparr>) = Inr opts2"
      "prepareServerSideEncryption s opts2 bcfg = Inr opts3"
    for n bcfg u opts1 opts2 opts3 owner cl w
  proof -
    have "objects_ok (ev_db (va_events w))" "t \<noteq> []" using that(1) assms(4,5) by (auto simp: K_def defaults_def split: if_splits)
    from wp_put_bytes_effect [OF assms(3) this(1) request_plain [OF that(3) assms(2) that(4-6)] this(2)] that(1,2) show ?thesis
      by (auto simp: K_def elim!: wp_mono)
  qed
  have "K v" by (simp add: K_def)
  have "wp (svc_Put s env ctx tenant bucket key body sz opts) ?Q (\<lambda>_ _. True) v"
    unfolding svc_Put_def assms(5) prod.case
    by (rule wp_validated wp_access create wp_thenI wp_case_sum wp_fail [THEN iffD2] TrueI | (rule stored; assumption)
        | (rule wp_stillI, rule still) | rule still | rule \<open>K v\<close> | assumption)+
  then show ?thesis using assms(1) by (simp add: wp_def)
qed

section \<open>The contract of a backend\<close>

text \<open>
  What is put into \<open>st\<close> is got from \<open>st'\<close>, the same backend at a later time, and the tag that \<open>Put\<close> reports
  is the digest of the body.
\<close>

locale object_backend =
  fixes st st' :: "'s Storage" and ok :: "'s \<Rightarrow> bool" and md5 :: "string \<Rightarrow> string"
  assumes put_get: "ok \<sigma> \<Longrightarrow> st_Put st c key body n opts \<sigma> = (\<sigma>', info, None) \<Longrightarrow> valid_utf8 key \<Longrightarrow> valid_utf8 (po_ContentType opts) \<Longrightarrow>
      valid_kv (po_Metadata opts) \<Longrightarrow> po_SSECustomerKey opts = [] \<Longrightarrow>
      (\<exists>info'. st_Get st' c' key \<sigma>' = (\<sigma>', (Some (Inr body), info'), None)) \<and> oi_ETag info = hex_encode (md5 body) \<and> length (md5 body) = 16"

definition no_read_options :: ReadOptions where
  "no_read_options = \<lparr>ro_SSECustomerKey = [], ro_SSECustomerKeyMD5 = []\<rparr>"

lemma hex_letters: "c \<in> set (hex_encode d) \<Longrightarrow> c \<noteq> CHR ''W'' \<and> c \<noteq> char_of (0x22 :: nat)"
proof (induction d)
  case (Cons x d)
  have "hex_digit v \<noteq> CHR ''W'' \<and> hex_digit v \<noteq> char_of (0x22 :: nat)" if "v < 16" for v
  proof -
    have "list_all (\<lambda>v. hex_digit v \<noteq> CHR ''W'' \<and> hex_digit v \<noteq> char_of (0x22 :: nat)) [0..<16]" by code_simp
    with that show ?thesis by (simp add: list_all_iff)
  qed
  moreover have "byte x div 16 < 16" "byte x mod 16 < 16" by (simp_all add: byte_def less_mult_imp_div_less)
  ultimately show ?case using Cons by (auto simp: hex_encode_def)
qed (simp add: hex_encode_def)

lemma trim_chars_none: "(\<And>c. c \<in> set s \<Longrightarrow> c \<notin> set cs) \<Longrightarrow> trim_chars s cs = s"
proof -
  assume s: "\<And>c. c \<in> set s \<Longrightarrow> c \<notin> set cs"
  have "dropWhile (\<lambda>c. c \<in> set cs) t = t" if "set t \<subseteq> set s" for t using that s by (cases t) auto
  from this [of s] this [of "rev s"] show ?thesis by (simp add: trim_chars_def)
qed

lemma normalize_hex:
  assumes "length d = 16"
  shows "normalizeMD5Hex (hex_encode d) = Some (map ascii_lower (hex_encode d))"
proof -
  have "trim_prefix (hex_encode d) ''W/'' = hex_encode d"
    using hex_letters [of "CHR ''W''" d] by (cases "hex_encode d") (auto simp: trim_prefix_def has_prefix_def)
  moreover have "trim_chars (hex_encode d) [char_of (0x22 :: nat)] = hex_encode d"
    by (rule trim_chars_none) (auto dest: hex_letters)
  ultimately show ?thesis
    using assms by (simp add: normalizeMD5Hex_def trim_space_visible visible_hex)
qed

lemma ascii_lower_idem [simp]: "ascii_lower (ascii_lower c) = ascii_lower c"
  by (auto simp: ascii_lower_def byte_def)

lemma plain_digest:
  assumes "same_row (buildPutObject s env k t b bcfg req sk info) obj" "plain_request req"
    and "pr_ContentMD5 req = [] \<or> b64_decode (pr_ContentMD5 req) = Inr d" "oi_ETag info = hex_encode d" "length d = 16"
    and "objectVerificationMD5 obj = Some expected"
  shows "map ascii_lower expected = map ascii_lower (hex_encode d)"
proof -
  have "kv_get (o_Metadata obj) ''_aero_content_md5'' = pr_ContentMD5 req" "o_ETag obj = hex_encode d"
    using assms(1,2,4) by (auto simp: same_row_def plain_request_def buildPutObject_def Let_def kv_get_def update_conv')
  with assms(3,5,6) show ?thesis
    by (auto simp: objectVerificationMD5_def Let_def normalize_hex comp_def split: if_splits sum.splits)
qed

lemma update_new: "k \<notin> fst ` set m \<Longrightarrow> AList.update k x m = m @ [(k, x)]"
  by (induction m) auto

lemma plain_checks:
  assumes "same_row (buildPutObject s env k t b bcfg req sk info) obj" "plain_request req"
  shows "checkCorrupt obj = None" "validateSSECRead s' (o_Metadata obj) no_read_options = None" "\<not> objectUsesSSEC (o_Metadata obj)"
    "o_ContentType obj = pr_ContentType req" "valid_kv (o_Metadata obj) \<Longrightarrow> valid_kv (pr_Metadata req)"
proof -
  let ?g = "kv_get (oi_Metadata info) ''_aero_storage_generation''"
  have m: "o_Metadata obj = (if ?g = [] then pr_Metadata req else AList.update ''_aero_storage_generation'' ?g (pr_Metadata req))"
    and "o_ContentType obj = pr_ContentType req"
    using assms(1) by (simp_all add: same_row_def buildPutObject_def Let_def)
  then show "checkCorrupt obj = None" "validateSSECRead s' (o_Metadata obj) no_read_options = None" "\<not> objectUsesSSEC (o_Metadata obj)"
    "o_ContentType obj = pr_ContentType req"
    using assms(2) by (auto simp: plain_request_def checkCorrupt_def validateSSECRead_def objectUsesSSEC_def no_read_options_def kv_get_def update_conv' fails_def)
  have "AList.update ''_aero_storage_generation'' ?g (pr_Metadata req) = pr_Metadata req @ [(''_aero_storage_generation'', ?g)]"
    using assms(2) by (intro update_new) (simp add: plain_request_def map_of_eq_None_iff)
  then show "valid_kv (o_Metadata obj) \<Longrightarrow> valid_kv (pr_Metadata req)"
    by (auto simp: m valid_kv_def split: if_splits)
qed

context object_backend
begin

lemma got_back:
  assumes effect: "put_effect s env body \<sigma> (t, b, k) obj w" and s: "fs_store s = st" "fs_store s' = st'" "fs_md5 s = md5" "fs_md5 s' = md5"
    and \<sigma>: "ok \<sigma>" and obj: "storable (en_sql env ''write'') obj" "valid_utf8 (o_StorageKey obj)" "valid_utf8 (o_ContentType obj)"
    and key: "validateKey k = None" "defaults tenant bucket = (t, b)"
    and get: "fault_free (en_sql renv ''object'')" "snd (authorizeObject s' renv rctx ActionRead obj w) = Inr ()"
  shows "snd (svc_GetWithOptions s' verify renv rctx tenant bucket k no_read_options w) = Inr (Some (Inr body), obj)"
proof -
  from effect obtain c n req info t' b' k' bcfg where e:
    "st_Put st c (o_StorageKey obj) body n (store_options req) \<sigma> = (va_store w, info, None)" "plain_request req"
    "pr_ContentMD5 req = [] \<or> b64_decode (pr_ContentMD5 req) = Inr (md5 body)"
    "same_row (buildPutObject s env k' t' b' bcfg req (o_StorageKey obj) info) obj"
    "current (ev_db (va_events w)) (t, b, k) = Some (stored_form (en_sql env ''write'') obj)"
    unfolding put_effect_def s by blast
  note checks = plain_checks [OF e(4,2)]
  let ?c = "ctx_state.truncate (cx_access rctx)"
  have law: "(\<exists>info'. st_Get st' ?c (o_StorageKey obj) (va_store w) = (va_store w, (Some (Inr body), info'), None)) \<and> oi_ETag info = hex_encode (md5 body) \<and> length (md5 body) = 16"
    by (rule put_get [OF \<sigma> e(1)]) (use obj checks(4,5) e(2) in \<open>simp_all add: store_options_def storable_def plain_request_def\<close>)
  then obtain info' where got: "st_Get st' ?c (o_StorageKey obj) (va_store w) = (va_store w, (Some (Inr body), info'), None)"
    and tag: "oi_ETag info = hex_encode (md5 body)" "length (md5 body) = 16" by blast
  have "map ascii_lower expected = map ascii_lower (hex_encode (md5 body))" if "objectVerificationMD5 obj = Some expected" for expected
    by (rule plain_digest [OF e(4,2,3) tag that])
  then have verified: "wrapReadVerification s' verify obj (Some (Inr body)) = Some (Inr body)"
    by (simp add: wrapReadVerification_def s(4) split: option.split)
  have "t \<noteq> []" using key(2) by (auto simp: defaults_def split: if_splits)
  then have row: "GetObject (en_sql renv ''object'') (ev_db (va_events w)) t b k = Inr obj"
    by (simp add: GetObject_current [OF get(1)] e(5) stored_form_id [OF obj(1)] defaultTenant_def)
  have allowed: "authorizeObject s' renv rctx ActionRead obj w = (w, Inr ())"
    using get(2) still_access(1) [of s' renv rctx ActionRead obj] by (simp add: still_def prod_eq_iff)
  show ?thesis
    by (simp add: svc_GetWithOptions_def svc_statObject_def checkedObjectDefaults_def ok_or_def key then_do_def wrapping_def wrap_err_def get_object_at_def read_objects_def row
        check_def checks allowed return_def openObjectWithOptions_def openStorageWithOptions_def Let_def exec_store_def s(2) got emit_def verified)
qed

text \<open>The body of a write that succeeded is the body of a read that is admitted.\<close>

lemma service_reads_back:
  assumes "svc_Put s env ctx tenant bucket key body sz opts v = (v', Inr obj)" "pr_SSECustomerKey opts = []"
    and "fault_free (en_sql env ''write'')" "objects_ok (ev_db (va_events v))"
    and "fs_store s = st" "fs_store s' = st'" "fs_md5 s = md5" "fs_md5 s' = md5" "ok (va_store v)"
    and "storable (en_sql env ''write'') obj" "valid_utf8 (o_StorageKey obj)" "valid_utf8 (o_ContentType obj)"
    and "fault_free (en_sql renv ''object'')" "snd (authorizeObject s' renv rctx ActionRead obj v') = Inr ()"
  shows "snd (svc_GetWithOptions s' verify renv rctx tenant bucket key no_read_options v') = Inr (Some (Inr body), obj)"
proof -
  obtain t b where d: "defaults tenant bucket = (t, b)" by (cases "defaults tenant bucket")
  note p = put_leaves [OF assms(1-4) d]
  show ?thesis by (rule got_back [OF p [THEN conjunct2] assms(5-12) p [THEN conjunct1] d assms(13,14)])
qed

end

section \<open>The local backend behind the service\<close>

text \<open>
  The methods of \<open>LocalStorage\<close> as the interface value the service holds.  The URLs it signs are not
  modelled and come from \<open>presign\<close>.
\<close>

definition no_put_options :: PutOptions where
  "no_put_options = \<lparr>po_ContentType = [], po_Metadata = [], po_SSEAlgorithm = [], po_SSEKMSKeyID = [], po_SSECustomerKey = [], po_SSECustomerKeyMD5 = []\<rparr>"

definition answer :: "'r \<Rightarrow> 'r res \<Rightarrow> 's \<Rightarrow> 's \<times> 'r \<times> gerr option" where
  "answer zero r \<sigma> = (case r of Inl e \<Rightarrow> (\<sigma>, zero, Some e) | Inr x \<Rightarrow> (\<sigma>, x, None))"

definition on_files :: "(fs \<Rightarrow> fs \<times> 'r) \<Rightarrow> local_state \<Rightarrow> local_state \<times> 'r" where
  "on_files f \<sigma> = (case f (lo_fs \<sigma>) of (fs', r) \<Rightarrow> (\<sigma>\<lparr>lo_fs := fs'\<rparr>, r))"

definition opened :: "(string res \<times> ObjectInfo) res \<Rightarrow> (reader \<times> ObjectInfo) res" where
  "opened r = rbind r (\<lambda>(f, info). Inr (Some f, info))"

definition local_backend :: "go_lib \<Rightarrow> LocalStorage \<Rightarrow> (string \<Rightarrow> string \<Rightarrow> int \<Rightarrow> string res) \<Rightarrow> os_env \<Rightarrow> local_state Storage" where
  "local_backend lib ls presign env =
     \<lparr>st_Put = (\<lambda>_ key body sz opts. on_files (\<lambda>fs. local_Put lib ls env fs key body sz opts)),
      st_Get = (\<lambda>_ key \<sigma>. answer (None, zero_ObjectInfo) (opened (local_Get lib ls env (lo_fs \<sigma>) key)) \<sigma>),
      st_Stat = (\<lambda>_ key \<sigma>. answer zero_ObjectInfo (local_statObject lib ls env (lo_fs \<sigma>) key None) \<sigma>),
      st_Delete = (\<lambda>_ key. on_files (\<lambda>fs. case local_Delete ls env fs key of (fs', err) \<Rightarrow> (fs', (), err))),
      st_List = (\<lambda>_ pre marker limit \<sigma>. answer zero_ListResult (local_List lib ls env (lo_fs \<sigma>) pre marker limit) \<sigma>),
      st_PresignGet = (\<lambda>_ key expiry. answer [] (presign ''GET'' key expiry)),
      st_PresignPut = (\<lambda>_ key expiry. answer [] (presign ''PUT'' key expiry)),
      st_InitMultipart = (\<lambda>_. local_InitMultipart ls env),
      st_UploadPart = (\<lambda>_ key i n body _. local_UploadPart lib env key i n body no_put_options),
      st_CompleteMultipart = (\<lambda>_ key i parts. local_CompleteMultipart lib ls env key i parts no_put_options),
      st_UploadPartCopy = (\<lambda>_. local_UploadPartCopy lib ls env),
      st_AbortMultipart = (\<lambda>_ _ i \<sigma>. (local_AbortMultipart env i \<sigma>, (), None)),
      st_CleanupParts = (\<lambda>_ _ i \<sigma>. case local_CleanupParts ls env i \<sigma> of (\<sigma>', err) \<Rightarrow> (\<sigma>', (), err)),
      st_Backend = ''local'', st_CanCopy = True,
      st_Copy = (\<lambda>_ src dst opts. on_files (\<lambda>fs. local_Copy lib ls env fs src dst opts)),
      st_ssec = Some \<lparr>ss_SupportsSSEC = True,
        ss_GetWithOptions = (\<lambda>_ key opts \<sigma>. answer (None, zero_ObjectInfo) (opened (local_GetWithOptions lib ls env (lo_fs \<sigma>) key opts)) \<sigma>),
        ss_StatWithOptions = (\<lambda>_ key opts \<sigma>. answer zero_ObjectInfo (local_statObject lib ls env (lo_fs \<sigma>) key (Some opts)) \<sigma>),
        ss_UploadPartWithOptions = (\<lambda>_ key i n body _ opts. local_UploadPart lib env key i n body opts),
        ss_CompleteMultipartWithOptions = (\<lambda>_. local_CompleteMultipart lib ls env)\<rparr>,
      st_bound = Some \<lparr>gb_GetGenerationBound = (\<lambda>c key expected \<sigma>.
        answer (None, zero_ObjectInfo) (opened (local_GetGenerationBound lib ls env c (lo_fs \<sigma>) key expected)) \<sigma>)\<rparr>,
      st_bound_marker = None, st_sse = Some (local_SupportsSSE ls)\<rparr>"

text \<open>The reader has the root of the writer, a source with the keys that seal, and an operating system that answers.\<close>

definition local_ready :: "go_lib \<Rightarrow> LocalStorage \<Rightarrow> os_env \<Rightarrow> LocalStorage \<Rightarrow> os_env \<Rightarrow> local_state \<Rightarrow> bool" where
  "local_ready lib ls env ls' renv \<sigma> \<longleftrightarrow> lib_ok lib \<and> rnd_ok (oe_rnd env) \<and> clean_root ls \<and> lc_Root (ls_cfg ls') = lc_Root (ls_cfg ls)
     \<and> serves (ls_enc ls) (ls_enc ls') \<and> quiet renv \<and> fs_ok (lo_fs \<sigma>)"

interpretation local_objects: object_backend "local_backend lib ls presign env" "local_backend lib ls' presign' renv" "local_ready lib ls env ls' renv" "gl_md5 lib"
  for lib ls presign env ls' presign' renv
proof
  fix \<sigma> \<sigma>' :: local_state and c c' key body n opts info
  assume ready: "local_ready lib ls env ls' renv \<sigma>" and put: "st_Put (local_backend lib ls presign env) c key body n opts \<sigma> = (\<sigma>', info, None)"
    and utf8: "valid_utf8 key" "valid_utf8 (po_ContentType opts)" "valid_kv (po_Metadata opts)" and plain: "po_SSECustomerKey opts = []"
  obtain fs' where p: "local_Put lib ls env (lo_fs \<sigma>) key body n opts = (fs', info, None)" "\<sigma>' = \<sigma>\<lparr>lo_fs := fs'\<rparr>"
    using put by (auto simp: local_backend_def on_files_def split: prod.splits)
  have "local_GetWithOptions lib ls' renv fs' key (read_options opts) = Inr (Inr body, info) \<and> oi_ETag info = hex_encode (gl_md5 lib body)"
    using put_get [OF _ _ _ _ _ _ _ utf8 p(1)] ready unfolding local_ready_def by blast
  moreover have "read_options opts = no_get_options" by (simp add: plain read_options_def no_get_options_def)
  moreover have "length (gl_md5 lib body) = 16" using ready by (simp add: local_ready_def lib_ok_def)
  ultimately show "(\<exists>info'. st_Get (local_backend lib ls' presign' renv) c' key \<sigma>' = (\<sigma>', (Some (Inr body), info'), None))
      \<and> oi_ETag info = hex_encode (gl_md5 lib body) \<and> length (gl_md5 lib body) = 16"
    by (simp add: local_backend_def answer_def opened_def p(2) local_Get_def)
qed

text \<open>
  C6. What is written through the file service over the local backend is what is read back, whatever
  encryption the store applies and across a rotation of its keys: after a \<open>Put\<close> without a customer key that
  succeeds, an admitted \<open>Get\<close> of the same tenant, bucket and key, with content verification on or off,
  returns the object of the \<open>Put\<close> and a reader that yields its body.  Conditions: the driver fails neither
  the writing of the row nor its reading, the strings and times of the object can be stored (\<open>storable\<close>,
  valid UTF-8), the libraries keep what they document and the reading store still has the key and meets no
  failure of the operating system (\<open>local_ready\<close>), and nothing is written in between.
\<close>

theorem service_put_get:
  assumes "svc_Put s env ctx tenant bucket key body sz opts v = (v', Inr obj)" "pr_SSECustomerKey opts = []"
    and "fault_free (en_sql env ''write'')" "objects_ok (ev_db (va_events v))"
    and "fs_store s = local_backend lib ls presign oenv" "fs_store s' = local_backend lib ls' presign' renv" "fs_md5 s = gl_md5 lib" "fs_md5 s' = gl_md5 lib"
    and "local_ready lib ls oenv ls' renv (va_store v)"
    and "storable (en_sql env ''write'') obj" "valid_utf8 (o_StorageKey obj)" "valid_utf8 (o_ContentType obj)"
    and "fault_free (en_sql genv ''object'')" "snd (authorizeObject s' genv rctx ActionRead obj v') = Inr ()"
  shows "snd (svc_GetWithOptions s' verify genv rctx tenant bucket key no_read_options v') = Inr (Some (Inr body), obj)"
  by (rule local_objects.service_reads_back [OF assms])

end
