(* ===== verification/File_Examples.thy ===== *)
theory File_Examples
  imports File_Roundtrip Object_Examples Local_Examples "HOL-Library.Code_Target_Nat"
begin

text \<open>
  A vault with one locked and held object in a bucket without versioning, over a backend that keeps
  blobs in a list: instances of the theorems on the file service, and what the code does in corner cases.
\<close>

section \<open>A service\<close>

type_synonym blobs = "(string \<times> string) list"

definition blob_info :: "string \<Rightarrow> string \<Rightarrow> ObjectInfo" where
  "blob_info k body = zero_ObjectInfo\<lparr>oi_Key := k, oi_Size := int (length body)\<rparr>"

definition blob_storage :: "blobs Storage" where
  "blob_storage = \<lparr>st_Put = \<lambda>_ k body _ _ s. (AList.update k body s, blob_info k body, None),
     st_Get = \<lambda>_ k s. (case map_of s k of None \<Rightarrow> (s, (None, zero_ObjectInfo), Some (Sentinel StorageNotFound))
       | Some body \<Rightarrow> (s, (Some (Inr body), blob_info k body), None)),
     st_Stat = \<lambda>_ k s. (case map_of s k of None \<Rightarrow> (s, zero_ObjectInfo, Some (Sentinel StorageNotFound)) | Some body \<Rightarrow> (s, blob_info k body, None)),
     st_Delete = \<lambda>_ k s. (AList.delete k s, (), None),
     st_List = \<lambda>_ _ _ _ s. (s, zero_ListResult, None), st_PresignGet = \<lambda>_ _ _ s. (s, [], None), st_PresignPut = \<lambda>_ _ _ s. (s, [], None),
     st_InitMultipart = \<lambda>_ _ _ s. (s, zero_MultipartInit, None), st_UploadPart = \<lambda>_ _ _ _ _ _ s. (s, zero_MultipartPart, None),
     st_CompleteMultipart = \<lambda>_ _ _ _ s. (s, zero_ObjectInfo, None), st_UploadPartCopy = \<lambda>_ _ _ _ _ _ _ s. (s, zero_MultipartPart, None),
     st_AbortMultipart = \<lambda>_ _ _ s. (s, (), None), st_CleanupParts = \<lambda>_ _ _ s. (s, (), None), st_Backend = ''local'', st_CanCopy = False,
     st_Copy = \<lambda>_ _ _ _ s. (s, zero_ObjectInfo, None), st_ssec = None, st_bound = None, st_bound_marker = None, st_sse = None\<rparr>"

definition demo_service :: "blobs FileService" where
  "demo_service = \<lparr>fs_store = blob_storage,
     fs_authorizer = Some (\<lambda>_ _ p _ _. (\<lparr>DAllowed = (p_SubjectID p = ''ann''), Reason = ''no match''\<rparr>, None)),
     fs_spaceBoundary = Absent, fs_chunkCleaner = Absent, fs_deleteFailOpen = False, fs_tenantStatus = False, fs_usageAccountant = None,
     fs_defaultClass = ''STANDARD'', fs_md5 = (\<lambda>s. take 16 (s @ replicate 16 (CHR ''0''))), fs_deletedFact = (\<lambda>_ _ _ _. ''{}''),
     fs_notifyFact = (\<lambda>_ _ _ _. ''{}''), fs_version = (\<lambda>_. Some ''1.1'')\<rparr>"

definition demo_sctx :: "string \<Rightarrow> svc_ctx" where
  "demo_sctx who = \<lparr>cx_access = \<lparr>ctx_err = None, ctx_err_after = None,
       ctx_principal = Some (zero_Principal\<lparr>p_SubjectID := who, p_TenantID := ''acme'', p_Kind := PrincipalUser\<rparr>)\<rparr>,
     cx_verified = [], cx_request_id = ''r1'', cx_tenant = ''acme'', cx_label = [], cx_permission = None\<rparr>"

definition demo_senv :: "int \<Rightarrow> svc_env" where
  "demo_senv n = \<lparr>en_sql = (\<lambda>_. no_faults dialectSQLite), en_clk = \<lparr>go_now = sec n, db_now = sec n\<rparr>, en_now = sec n, en_vid = ''v9'', en_spool = None\<rparr>"

definition locked_row :: objects_row where
  "locked_row = (object_demo 1 ''v1'' (sec 1) None False)\<lparr>o_LockedUntil := Some (sec 100), o_StorageKey := ''acme/docs/a.txt''\<rparr>"

definition demo_quota :: TenantQuota where
  "demo_quota = (zero_quota ''acme'')\<lparr>tq_MaxBytes := 100, tq_MaxObjects := 10, tq_UsedBytes := 5, tq_UsedObjects := 1\<rparr>"

definition demo_vault :: "hold_row list \<Rightarrow> blobs vault" where
  "demo_vault holds = \<lparr>va_events = \<lparr>ev_db = \<lparr>od_objects = [locked_row], od_holds = holds, od_access = demo_access, od_seq = 1\<rparr>,
       ev_audit = [], ev_outbox = [], ev_seq = 0, ev_delivered = []\<rparr>,
     va_quotas = [demo_quota], va_buckets = [new_bucket ''acme'' ''docs''], va_tenants = [], va_store = [(''acme/docs/a.txt'', ''hello'')],
     va_published = [], va_cleaned = []\<rparr>"

definition plain_put :: PutRequest where
  "plain_put = \<lparr>pr_ContentType = ''text/plain'', pr_ContentDisposition = [], pr_ContentEncoding = [], pr_Metadata = [], pr_Tags = [], pr_ACL = [],
     pr_LegalHold = False, pr_ContentMD5 = [], pr_StorageClass = [], pr_SSEAlgorithm = [], pr_SSEKMSKeyID = [], pr_SSECustomerKey = [],
     pr_SSECustomerKeyMD5 = []\<rparr>"

abbreviation demo_put_op :: "string \<Rightarrow> string \<Rightarrow> svc_op" where
  "demo_put_op key body \<equiv> SvcPut ''acme'' ''docs'' key body (int (length body)) plain_put"

lemma demo_vault_db [simp]:
  "od_objects (ev_db (va_events (demo_vault holds))) = [locked_row]" "od_holds (ev_db (va_events (demo_vault holds))) = holds"
  "od_seq (ev_db (va_events (demo_vault holds))) = 1" "va_buckets (demo_vault holds) = [new_bucket ''acme'' ''docs'']"
  "va_quotas (demo_vault holds) = [demo_quota]"
  by (simp_all add: demo_vault_def)

lemma locked_row_simps [simp]:
  "o_ID locked_row = 1" "resource_of locked_row = (''acme'', ''docs'', ''a.txt'')" "is_live locked_row" "o_VersionTombstone locked_row = False"
  "o_LockedUntil locked_row = Some (sec 100)" "o_VersionID locked_row = ''v1''" "o_Size locked_row = 5"
  by (simp_all add: locked_row_def object_demo_def resource_of_def is_live_def)

lemma demo_vault_ok: "objects_ok (ev_db (va_events (demo_vault [])))" "objects_ok (ev_db (va_events (demo_vault [demo_hold])))"
  by (simp_all add: objects_ok_held one_live_def held_ids_def demo_hold_def)

lemma demo_senv_honest [simp]: "honest (en_sql (demo_senv n) site)" "column_time (en_sql (demo_senv n) site) t = t" "en_now (demo_senv n) = sec n"
  by (simp_all add: demo_senv_def honest_def no_faults_def column_time_def)

section \<open>Instances\<close>

lemma service_needs_permission_witness:
  "\<exists>e. svc_exec demo_service (demo_senv 10) (demo_sctx ''eve'') (demo_put_op ''b.txt'' ''hi'') (demo_vault []) = (demo_vault [], Inl e)"
proof (rule service_needs_permission)
  show "forbids demo_service (demo_sctx ''eve'') (demo_vault []) (svc_actions (demo_put_op ''b.txt'' ''hi'')) (svc_target (demo_put_op ''b.txt'' ''hi''))"
    by (simp add: forbids_def decide_def demo_service_def demo_sctx_def PrincipalFrom_def zero_Principal_def fails_def)
qed

lemma service_keeps_holds_witness:
  "object_held 1 (''acme'', ''docs'', ''a.txt'') (ev_db (va_events (svc_run demo_service
     [(demo_senv 200, demo_sctx ''ann'', SvcDelete ''acme'' ''docs'' ''a.txt'' True ActionDelete),
      (demo_senv 201, demo_sctx ''ann'', SvcDeleteVersion ''acme'' ''docs'' ''a.txt'' ''v1''),
      (demo_senv 202, demo_sctx ''ann'', demo_put_op ''a.txt'' ''new'')] (demo_vault [demo_hold]))))"
proof (rule service_keeps_holds)
  show "object_held 1 (''acme'', ''docs'', ''a.txt'') (ev_db (va_events (demo_vault [demo_hold])))"
    using demo_vault_ok by (simp add: object_held_def held_ids_def demo_hold_def)
qed auto

lemma retention_survives_witness:
  "object_locked 1 (''acme'', ''docs'', ''a.txt'') (sec 100) (ev_db (va_events (svc_run demo_service
     [(demo_senv 10, demo_sctx ''ann'', SvcDelete ''acme'' ''docs'' ''a.txt'' True ActionDelete),
      (demo_senv 11, demo_sctx ''ann'', SvcDelete ''acme'' ''docs'' ''a.txt'' False ActionDelete),
      (demo_senv 12, demo_sctx ''ann'', demo_put_op ''a.txt'' ''new''),
      (demo_senv 13, demo_sctx ''ann'', SvcDeleteVersion ''acme'' ''docs'' ''a.txt'' ''v1'')] (demo_vault []))))"
proof (rule retention_survives)
  show "object_locked 1 (''acme'', ''docs'', ''a.txt'') (sec 100) (ev_db (va_events (demo_vault [])))"
    using demo_vault_ok by (simp add: object_locked_def locks_def)
qed (auto simp: before_lock_def)

lemma protected_object_untouched_witness:
  "\<exists>e v'. svc_exec demo_service (demo_senv 10) (demo_sctx ''ann'') (demo_put_op ''a.txt'' ''new'') (demo_vault []) = (v', Inl e) \<and> untouched (demo_vault []) v'"
proof (rule protected_object_untouched [where r = locked_row])
  show "shielded (en_now (demo_senv 10)) (ev_db (va_events (demo_vault []))) locked_row"
    by (simp add: shielded_def retention_locked_def scanObject_def flexNullTime_def)
  show "replaces_row locked_row (demo_vault []) (demo_put_op ''a.txt'' ''new'')"
    by (simp add: defaults_def new_bucket_def zero_bucket_def)
qed (use demo_vault_ok in simp_all)

lemma demo_put_succeeds:
  "\<not> isl (snd (svc_Put demo_service (demo_senv 10) (demo_sctx ''ann'') ''acme'' ''docs'' ''b.txt'' ''hi'' 2 plain_put (demo_vault [])))"
  by code_simp

lemma put_within_quota_witness:
  "within_caps demo_quota (usage (va_quotas (fst (svc_Put demo_service (demo_senv 10) (demo_sctx ''ann'') ''acme'' ''docs'' ''b.txt'' ''hi'' 2
     plain_put (demo_vault [])))) ''acme'')"
proof -
  let ?run = "svc_Put demo_service (demo_senv 10) (demo_sctx ''ann'') ''acme'' ''docs'' ''b.txt'' ''hi'' 2 plain_put (demo_vault [])"
  have "?run = (fst ?run, Inr (projr (snd ?run)))" using demo_put_succeeds by (simp add: prod_eq_iff)
  moreover have "usage (va_quotas (demo_vault [])) (fst (defaults ''acme'' ''docs'')) = demo_quota"
    by (simp add: usage_def defaults_def defaultTenant_def quota_of_def demo_quota_def zero_quota_def)
  moreover have "fs_usageAccountant demo_service = None" by (simp add: demo_service_def)
  moreover have "room demo_quota ''hi'' (ev_db (va_events (demo_vault [])))"
    by (simp add: room_def demo_quota_def zero_quota_def Byte_Range.MaxInt64_def)
  ultimately show ?thesis
    using put_within_quota [of demo_service "demo_senv 10" "demo_sctx ''ann''" "''acme''" "''docs''" "''b.txt''" "''hi''" 2 plain_put "demo_vault []"]
    by (simp add: defaults_def)
qed

section \<open>The local backend\<close>

text \<open>The writer seals with one key; the reader has a newer one first and keeps the old one.\<close>

definition local_service :: "SecretProvider \<Rightarrow> local_state FileService" where
  "local_service ring = \<lparr>fs_store = local_backend demo_lib (demo_store (Some ring)) (\<lambda>_ _ _. Inl (NewError ''disabled'')) demo_env,
     fs_authorizer = fs_authorizer demo_service,
     fs_spaceBoundary = Absent, fs_chunkCleaner = Absent, fs_deleteFailOpen = False, fs_tenantStatus = False, fs_usageAccountant = None,
     fs_defaultClass = ''STANDARD'', fs_md5 = gl_md5 demo_lib, fs_deletedFact = (\<lambda>_ _ _ _. ''{}''),
     fs_notifyFact = (\<lambda>_ _ _ _. ''{}''), fs_version = (\<lambda>_. Some ''1.1'')\<rparr>"

definition local_vault :: "local_state vault" where
  "local_vault = \<lparr>va_events = \<lparr>ev_db = \<lparr>od_objects = [locked_row], od_holds = [], od_access = demo_access, od_seq = 1\<rparr>,
       ev_audit = [], ev_outbox = [], ev_seq = 0, ev_delivered = []\<rparr>,
     va_quotas = [demo_quota], va_buckets = [new_bucket ''acme'' ''docs''], va_tenants = [], va_store = no_state, va_published = [], va_cleaned = []\<rparr>"

abbreviation (input) local_written :: "local_state vault \<times> Object res" where
  "local_written \<equiv> svc_Put (local_service (demo_ring ''k1'' [''k1''])) (demo_senv 10) (demo_sctx ''ann'') ''acme'' ''docs'' ''b.txt'' ''hi'' 2 plain_put local_vault"

lemma local_written_facts:
  "case snd local_written of Inl e \<Rightarrow> False
   | Inr obj \<Rightarrow> storable (no_faults dialectSQLite) obj \<and> valid_utf8 (o_StorageKey obj) \<and> valid_utf8 (o_ContentType obj)"
  by code_simp

lemma local_service_admits: "snd (authorizeObject (local_service ring) env (demo_sctx ''ann'') a obj v) = Inr ()"
  by (simp add: authorizeObject_def authorize_def then_do_def check_def admitBucket_def local_service_def requireActiveTenant_def decide_def demo_service_def
      demo_sctx_def PrincipalFrom_def zero_Principal_def fails_def)

lemma service_put_get_witness:
  "snd (svc_GetWithOptions (local_service (demo_ring ''k2'' [''k1'', ''k2''])) True (demo_senv 11) (demo_sctx ''ann'') ''acme'' ''docs'' ''b.txt''
     no_read_options (fst local_written)) = Inr (Some (Inr ''hi''), projr (snd local_written))"
proof (rule service_put_get)
  obtain obj where "snd local_written = Inr obj" "storable (no_faults dialectSQLite) obj" "valid_utf8 (o_StorageKey obj)" "valid_utf8 (o_ContentType obj)"
    using local_written_facts by (auto split: sum.splits)
  then show "local_written = (fst local_written, Inr (projr (snd local_written)))" "storable (en_sql (demo_senv 10) ''write'') (projr (snd local_written))"
    "valid_utf8 (o_StorageKey (projr (snd local_written)))" "valid_utf8 (o_ContentType (projr (snd local_written)))"
    by (simp_all add: prod_eq_iff demo_senv_def)
  have "serves (ls_enc (demo_store (Some (demo_ring ''k1'' [''k1''])))) (ls_enc (demo_store (Some (demo_ring ''k2'' [''k1'', ''k2'']))))"
    by (simp add: demo_ring_def) code_simp
  then show "local_ready demo_lib (demo_store (Some (demo_ring ''k1'' [''k1'']))) demo_env (demo_store (Some (demo_ring ''k2'' [''k1'', ''k2'']))) demo_env
      (va_store local_vault)"
    using demo_lib_ok by (simp add: local_ready_def local_vault_def)
  show "objects_ok (ev_db (va_events local_vault))" using demo_vault_ok by (simp add: local_vault_def demo_vault_def)
qed (simp_all add: local_service_admits, simp_all add: local_service_def plain_put_def demo_senv_def fault_free_def no_faults_def)

section \<open>Corner cases\<close>

text \<open>
  Soft deletion does not look at retention, and the overwrite check looks at live rows only: a soft
  deletion and a write replace the bytes of an object that is locked until later.  The row and its lock
  are still there.
\<close>

lemma locked_bytes_replaced:
  "map_of (va_store (svc_run demo_service
     [(demo_senv 10, demo_sctx ''ann'', SvcDelete ''acme'' ''docs'' ''a.txt'' False ActionDelete),
      (demo_senv 11, demo_sctx ''ann'', demo_put_op ''a.txt'' ''new'')] (demo_vault []))) ''acme/docs/a.txt'' = Some ''new''"
  by code_simp

text \<open>A key that differs by a doubled slash has a row of its own and the blob of the locked object.\<close>

lemma locked_bytes_replaced_by_alias:
  "map_of (va_store (fst (svc_exec demo_service (demo_senv 10) (demo_sctx ''ann'') (demo_put_op ''./a.txt'' ''new'') (demo_vault []))))
     ''acme/docs/a.txt'' = Some ''new''"
  by code_simp

text \<open>A refused overwrite removes the blob of the object that it would have replaced; the row stays.\<close>

lemma refused_put_loses_bytes:
  "(case svc_exec demo_service (demo_senv 200) (demo_sctx ''ann'') (SvcPut ''acme'' ''docs'' ''a.txt'' ''new'' 7 plain_put) (demo_vault []) of
      (v, r) \<Rightarrow> (isl r, va_store v, map is_live (od_objects (ev_db (va_events v))))) = (True, [], [True])"
  by code_simp

end
