(* ===== verification/File_Listings.thy ===== *)
theory File_Listings
  imports File_Operations Object_Pages
begin

text \<open>
  The listings of the service and permission: \<open>ListVersions\<close> of \<open>file_features.go\<close> leaves out the versions
  that the caller may not read, and \<open>ListVersionKeys\<close> of \<open>delete_marker.go\<close> asks nobody.
\<close>

text \<open>The keys that have a version.  Unlike the other reads it asks no authorizer: that is left to the callers.\<close>

definition ListVersionKeys ::
  "(string \<Rightarrow> string) \<Rightarrow> 's FileService \<Rightarrow> svc_env \<Rightarrow> svc_ctx \<Rightarrow> string \<Rightarrow> string \<Rightarrow> string \<Rightarrow> string \<Rightarrow> int \<Rightarrow> ('s, string list \<times> string \<times> bool) act" where
  "ListVersionKeys coll s env ctx tenant0 bucket0 prefix marker limit =
     (case defaults tenant0 bucket0 of (tenant, bucket) \<Rightarrow>
      read_objects (\<lambda>db. ListObjectVersionKeys coll (en_sql env ''version keys'') db tenant bucket prefix marker limit))"

text \<open>It changes nothing, and the answer depends neither on the caller nor on the service's authorizer.\<close>

lemma version_keys_ask_nobody:
  "still (ListVersionKeys coll s env ctx t b prefix marker limit)"
  "ListVersionKeys coll s env ctx t b prefix marker limit = ListVersionKeys coll s' env ctx' t b prefix marker limit"
  by (auto simp: ListVersionKeys_def intro!: still split: prod.split)

text \<open>
  What \<open>ListVersions\<close> returns has been allowed, version by version, and is in the order of the table; a
  refusal that is no ordinary denial fails the listing.
\<close>

lemma listed_versions_allowed:
  assumes "filterAuthorizedVersions s env ctx os v = (v', Inr listed)"
  shows "v' = v \<and> listed = filter (\<lambda>x. snd (authorizeObject s env ctx ActionRead x v) = Inr ()) os"
  using assms
proof (induction os arbitrary: listed)
  case (Cons x os)
  have same: "fst (authorizeObject s env ctx ActionRead x v) = v" using still_access(1) [of s env ctx ActionRead x] by (simp add: still_def)
  obtain r where r: "authorizeObject s env ctx ActionRead x v = (v, r)" using same by (metis prod.collapse)
  show ?case
    using Cons r by (cases r) (auto simp: then_do_def attempt_def return_def fail_def split: prod.splits sum.splits if_splits)
qed (simp add: return_def)

lemma no_permission_lists_nothing:
  assumes "forbids s ctx v [ActionRead] (t, b, k)" "ListVersions s env ctx t b k v = (v', Inr listed)"
  shows "listed = []"
proof -
  obtain t' b' where d: "defaults t b = (t', b')" by (cases "defaults t b")
  have denied: "snd (authorizeObject s env ctx ActionRead (scanObject r) v) \<noteq> Inr ()" if "at_key t' b' k r" for r
    using wp_authorizeObject_denied [OF assms(1) _ d that, where a = ActionRead and Q = "\<lambda>_ _. False" and E = "\<lambda>_ _. True" and env = env]
    by (auto simp: wp_def split: prod.splits sum.splits)
  have "wp (ListVersions s env ctx t b k) (\<lambda>x _. x = []) (\<lambda>_ _. True) v"
    using d defaults_nonempty [OF d] denied
    by (auto simp: ListVersions_def checkedObjectDefaults_def ok_or_def wp ListObjectVersions_def stmt_def newest_first_set
        wp_def [of "filterAuthorizedVersions _ _ _ _"] filter_empty_conv
        dest!: listed_versions_allowed intro!: wp_stillI [OF still_checks(1)] split: option.split prod.split sum.split)
  then show ?thesis using assms(2) by (simp add: wp_def)
qed

end
