(* ===== verification/Spec2Isabelle.thy ===== *)
theory Spec2Isabelle
  imports Auth_Policy Auth_Arn Spaces_Governance Access_Examples Breaker_Behaviour
    Byte_Range Job_Examples Cluster_Lease Idempotency_Examples Outbox_Delivery
    Object_Pages Local_Examples File_Examples File_Listings
begin

text \<open>
  \<^bold>\<open>A verification development for aero-vault\<close>, a multi-tenant object vault written in Go (\<open>src/\<close>).

  \<^bold>\<open>The program.\<close>  HTTP front ends (REST, S3-compatible, WebDAV, MCP) authenticate a request, decide
  on it (package \<open>access\<close>, bucket policies in package \<open>auth\<close>), keep its state in a SQL database
  (package \<open>repository\<close>, on SQLite or PostgreSQL) and its bytes in a storage backend (package
  \<open>storage\<close>, behind a circuit breaker).  Spaces (package \<open>spaces\<close>) are governed workspaces whose
  buckets the older access paths must not reach.  The file service (package \<open>service\<close>) puts them
  together: a request is validated, admitted, authorized, checked against quotas, retention and holds,
  and only then changes bytes and rows.  Background work runs from a job table, singleton
  tasks are guarded by leases, and deletions publish their events through a transactional outbox.

  \<^bold>\<open>Conventions.\<close>  Go strings are byte lists; an error is a value of \<open>gerr\<close>, fallible code returns
  \<open>'a res\<close> or a pair with an optional error, and messages are abbreviated to labels where only their
  identity matters.  Go integers are unbounded \<open>int\<close> except where \<open>int64\<close> wrap-around is written out
  (\<open>i64\<close>, in \<open>Byte_Range\<close> and the quota checks of the file service).  Instants are nanoseconds, zero being the zero \<open>time.Time\<close>; a column
  that stores RFC3339Nano text keeps it (\<open>time_text\<close>) and compares it as text, one that PostgreSQL
  stores as a timestamp compares instants.  A table is a list of rows.  A store function takes an
  environment that says which statement the driver fails, so every theorem that quantifies over
  environments covers driver errors; transactions are atomic and a failed commit may or may not
  have been applied.  The object and quota tables round PostgreSQL timestamps to microseconds
  (\<open>column_time\<close>), the others do not.  Cryptography, JSON, UUIDs, clocks and randomness are arguments.

  \<^bold>\<open>Theories and what they model.\<close>
  \<^item> \<open>AV_Prelude\<close>: Go strings, errors, instants, contexts; shared lemmas.  \<open>Time_Text\<close>: the order of
    RFC3339Nano texts.  \<open>SQL_Model\<close>: dialects, driver faults, transactions, \<open>rebind\<close>
    (\<open>repository/sql.go\<close>).  \<open>Net_IP\<close>: \<open>net.ParseIP\<close> and \<open>net.ParseCIDR\<close>.  \<open>Http_Exchange\<close>:
    header maps and response writers of \<open>net/http\<close>.
  \<^item> \<open>Auth_Glob\<close>, \<open>Auth_Policy\<close>, \<open>Auth_Arn\<close> (\<open>auth/policy.go\<close>, \<open>auth/arn.go\<close>): parsing, validation and
    evaluation of bucket policies; ARN matching.  The two backtracking loops are partial functions
    shown total through the locale \<open>star_backtracking\<close>, interpreted on both.  Shown: evaluation is
    deny-overrides with implicit deny; the matcher computes globs on names without an asterisk and
    is bypassed by names with one; ARNs isolate tenants whose names have
    no colon.
  \<^item> \<open>Spaces\<close>, \<open>Spaces_Store\<close>, \<open>Spaces_Probe\<close>, \<open>Spaces_Governance\<close> (\<open>spaces/*.go\<close>,
    \<open>repository/sql_spaces*.go\<close>): contracts and validators, the commands and queries of the store,
    the two read-only probes.  Shown: every reachable database keeps an active administrator and a
    gap-free history per Space, commands are compare-and-swap, the last administrator cannot be
    removed, creation round-trips, the coverage probe returns exactly the Spaces in scope.
  \<^item> \<open>Access_Types\<close>, \<open>Access_Boundary\<close>, \<open>Access_Store\<close>, \<open>Access_Authorizer\<close>, \<open>Access_Manager\<close>,
    \<open>Access_Departments\<close>, \<open>Access_Shares\<close>, \<open>Access_Examples\<close> (\<open>access/*.go\<close>,
    \<open>repository/sql_access*.go\<close>): the decision point with its Space boundary, departments, ACL
    entries, shares and public assets.  The contracts of the probes are the locales
    \<open>binding_reader\<close> and \<open>coverage_reader\<close>, interpreted on the SQL probes.  Shown: the decision
    table, tenant isolation, that deletes need explicit grants and Space-bound buckets are never
    allowed, the closure computed by the recursive department query, when the recursive deletion
    ends (its table is computed only when an ACL entry needs it, or always under an eager plan), folder
    boundaries of ACL entries, that entries are never moved, the confinement of shares, and their use
    limit under requests that overlap between their reads and their writes (\<open>share_reach\<close>).
  \<^item> \<open>Storage_Interface\<close>, \<open>Circuit_Breaker\<close>, \<open>Breaker_Behaviour\<close> (\<open>storage/storage.go\<close>, \<open>ssec.go\<close>,
    \<open>circuitbreaker.go\<close>): the storage contract as a record of functions and the breaker around
    it, over every interleaving of requests.  Shown: its counters stay in range, it opens exactly at
    the threshold, rejects while open, recovers, and is wedged by probes that end unsupported.
  \<^item> \<open>Go_Path\<close>, \<open>Go_Codec\<close>: \<open>path.Clean\<close>, \<open>path.Join\<close>, base64, hexadecimal and decimal texts.
    \<open>Envelope\<close> (\<open>storage/encrypt.go\<close>, \<open>secret.go\<close>, \<open>kms.go\<close>): envelopes, key rings, re-wrapping.
    \<open>Local_Files\<close>: a file system with failures.  \<open>Local_Storage\<close>, \<open>Local_Multipart\<close> (\<open>storage/local*.go\<close>,
    \<open>rewrap.go\<close>): the local backend.  \<open>Local_Objects\<close>, \<open>Local_History\<close>, \<open>Local_Roundtrip\<close>,
    \<open>Local_Assembly\<close>, \<open>Local_Examples\<close>: what is written is read back, also after a rotation of keys;
    a multipart upload refines a map from part numbers to bytes; under every history and failure
    an object whose file and sidecar no operation targets is read as before and nothing outside the root
    changes; which object keys share a blob.  A sidecar is JSON: its map is listed in the order of the keys
    and a year beyond four digits fails the write.  The temporary file that a failed rename of a sidecar
    leaves is not in the model, and a failed \<open>RemoveAll\<close> removes nothing.
  \<^item> \<open>Byte_Range\<close> (\<open>service/range.go\<close>): Range headers.  Shown: the range is the one that unbounded
    integers would give, and the delivered slice is the one the header names.
  \<^item> \<open>Job_Queue\<close>, \<open>Job_Pool\<close>, \<open>Job_Examples\<close> (\<open>repository/jobs.go\<close>, \<open>jobs/jobs.go\<close>): the job table and
    the worker pool.  Goroutines are the interleavings of \<open>pool_reach\<close>.  Shown: the table invariant,
    the order and exclusiveness of claims, mutual exclusion and attempt budget of workers for jobs that
    were not requeued under a live worker (by the reaper's timeout or an administrator: \<open>lost\<close>), the
    outcome of every handler result, the range of the back-off.
  \<^item> \<open>Cluster_Lease\<close> (\<open>repository/leases.go\<close>, \<open>cluster/singleton.go\<close>): a held lease keeps every other
    replica from running the guarded task before the second of its expiry.
  \<^item> \<open>Idempotency_Store\<close>, \<open>Idempotency_Handler\<close>, \<open>Idempotency_Examples\<close> (\<open>repository/idempotency.go\<close>,
    \<open>api/rest/idempotency.go\<close>): the table refines an abstract memo; a repeated request never
    runs the handler: the replay boundary, an argument, admits the stored answer or refuses it.
  \<^item> \<open>Event_Outbox\<close>, \<open>Outbox_Delivery\<close> (\<open>repository/event_outbox.go\<close>): deletions are atomic with their
    audit entry and events; a completed event is never handed out again.
  \<^item> \<open>Object_Rows\<close>, \<open>Object_Store\<close>, \<open>Legal_Holds\<close>, \<open>Object_Maintenance\<close> (\<open>repository/sql_objects.go\<close>,
    \<open>sql_objects_versions.go\<close>, \<open>sql_objects_maint.go\<close>, \<open>sql_legal_holds.go\<close>, \<open>sql_tags_acl.go\<close>): the rows of
    the objects table, its upserts, versions, delete markers, deletions, restores, metadata and
    holds.  \<open>Object_History\<close> runs sequences of these operations: the table invariant holds in every
    reachable state and a held object survives every one of them.  \<open>Object_Map\<close> shows that the
    table refines a map from keys to current objects, with put/get and version round trips;
    \<open>Object_Versions\<close> says which version becomes current after a deletion; \<open>Object_Examples\<close> holds
    concrete tables.
  \<^item> \<open>Keyset_Pages\<close>, \<open>Object_Listing\<close>, \<open>Object_Pages\<close> (\<open>repository/sql_objects.go\<close>,
    \<open>sql_objects_list.go\<close>, \<open>sql_objects_versions.go\<close>): the list queries with their markers.  The
    pagination contract is the locales \<open>paged\<close> and \<open>keyset\<close>, interpreted on three listings: following
    the markers returns every matching row once and in order.
  \<^item> \<open>Bucket_Store\<close> (\<open>repository/tenants.go\<close>, \<open>quota.go\<close>, \<open>sql_buckets.go\<close>): tenants, usage counters and
    bucket settings.  \<open>File_Service\<close>, \<open>File_Writes\<close>, \<open>File_Deletes\<close>, \<open>File_Reads\<close> (\<open>service/file*.go\<close>,
    \<open>access.go\<close>, \<open>space_boundary.go\<close>, \<open>usage.go\<close>, \<open>ssec.go\<close>, \<open>object_retention.go\<close>, \<open>delete_marker.go\<close>, \<open>acl.go\<close>):
    the file service as actions on the state of the vault (\<open>vault\<close>: tables, buckets, quotas, store,
    published events), each method whole, with the early return on every error.
  \<^item> \<open>File_Operations\<close> gathers nineteen methods in one type (\<open>svc_op\<close>), runs histories of them and has a
    calculus of weakest preconditions; an operation without permission changes nothing.  Batches are
    histories and the other reads change nothing, so invariants of histories hold with them.
    \<open>File_Listings\<close>: which listings ask the authorizer.  \<open>File_Invariants\<close>: the laws
    of the repository are the locales \<open>object_steps\<close> and \<open>writing_steps\<close>, interpreted on the relation of
    the object tables; holds survive every history.  \<open>File_Retention\<close> interprets \<open>object_steps\<close> on locks
    and shows that a lock in the future survives every history because the service looks first.
    \<open>File_Protection\<close>: a request that would remove or overwrite the row of a protected object fails with
    nothing changed.  \<open>File_Quotas\<close>: a write stays within the caps of its tenant.  \<open>File_Roundtrip\<close>: the local
    backend as a storage of the service (\<open>local_backend\<close>); the locale \<open>object_backend\<close> says what the service
    relies on, its interpretation on the local backend gives that what is written through the service is
    read back through it.  \<open>File_Examples\<close>: a concrete vault, and
    the ways in which the bytes of a locked object are lost.

  \<^bold>\<open>Termination.\<close>  No fuel is used.  Loops are structural recursions or functions with a termination
  proof; the backtracking matchers and the \<open>UNION ALL\<close> recursion are partial functions to
  \<open>option\<close>, the former shown total, the latter shown to return exactly on acyclic trees, or when nothing asks
  for the recursive table.

  \<^bold>\<open>Not modelled.\<close>  Cloud backends (calls of vendor SDKs), signatures and tokens, HTTP and XML encoding,
  image decoding and AI clients (I/O or cryptography); of the file service copying, listing, multipart
  uploads, bucket deletion and presigned URLs; the chunk and upload tables, the reconciliation jobs,
  billing, audit governance, policy conditions of the administrative API and the validation of cached
  replies behind the idempotency middleware (not started); configuration, command line, telemetry and
  assembly (process set-up).  Logging and tracing have no state in the model.  Requests of the file
  service run one after the other: the interleaving of two requests between a check and the statement
  it protects is not modelled.
\<close>

end
